(* ===== verification/Prelude.thy ===== *)
theory Prelude
  imports Main "HOL-Library.Multiset"
begin

section \<open>Shared vocabulary of the model\<close>

text \<open>
  What every component of the server model uses: tables as lists of rows with the queries the
  handlers make of them, transactions that roll back when the body throws, instants in
  milliseconds, the few string functions of JavaScript the code calls, and the locale of a
  state machine with an invariant.

  A table is the list of its rows in insertion order.  A query without an \<open>orderBy\<close> is
  \<open>find_first\<close>; the invariants of the components show that at most one row matches where the code
  relies on it.
\<close>

named_theorems table_simps \<open>how the queries see an updated table\<close>

type_synonym millis = int

type_synonym ('e, 'a, 's) outcome = "('e + 'a) \<times> 's"

subsection \<open>Queries on tables\<close>

definition find_first :: "('r \<Rightarrow> bool) \<Rightarrow> 'r list \<Rightarrow> 'r option" where
  "find_first P rows = find P rows"

definition update_where :: "('r \<Rightarrow> bool) \<Rightarrow> ('r \<Rightarrow> 'r) \<Rightarrow> 'r list \<Rightarrow> 'r list" where
  "update_where P f rows = map (\<lambda>r. if P r then f r else r) rows"

definition delete_where :: "('r \<Rightarrow> bool) \<Rightarrow> 'r list \<Rightarrow> 'r list" where
  "delete_where P rows = filter (\<lambda>r. \<not> P r) rows"

definition count_where :: "('r \<Rightarrow> bool) \<Rightarrow> 'r list \<Rightarrow> nat" where
  "count_where P rows = length (filter P rows)"

definition sum_where :: "('r \<Rightarrow> bool) \<Rightarrow> ('r \<Rightarrow> int) \<Rightarrow> 'r list \<Rightarrow> int" where
  "sum_where P f rows = sum_list (map f (filter P rows))"

text \<open>The first row of \<open>orderBy: { key: "desc" }\<close>: the earliest inserted row of greatest key.\<close>

fun max_row :: "('r \<Rightarrow> int) \<Rightarrow> 'r list \<Rightarrow> 'r option" where
  "max_row key [] = None"
| "max_row key (r # rs) =
     (case max_row key rs of
        None \<Rightarrow> Some r
      | Some m \<Rightarrow> if key m \<le> key r then Some r else Some m)"

definition find_latest :: "('r \<Rightarrow> int) \<Rightarrow> ('r \<Rightarrow> bool) \<Rightarrow> 'r list \<Rightarrow> 'r option" where
  "find_latest key P rows = max_row key (filter P rows)"

lemma find_first_simps [simp]:
  "find_first P [] = None"
  "find_first P (r # rs) = (if P r then Some r else find_first P rs)"
  by (simp_all add: find_first_def)

lemma find_first_SomeD:
  assumes "find_first P rows = Some r"
  shows "r \<in> set rows" and "P r"
  using assms unfolding find_first_def by (auto simp: find_Some_iff)

lemma find_first_Some_conj: "find_first P rows = Some r \<Longrightarrow> r \<in> set rows \<and> P r"
  by (simp add: find_first_SomeD)

lemma find_first_NoneD: "find_first P rows = None \<Longrightarrow> r \<in> set rows \<Longrightarrow> \<not> P r"
  by (induction rows) (auto split: if_splits)

lemma find_first_None_iff: "find_first P rows = None \<longleftrightarrow> (\<forall>r \<in> set rows. \<not> P r)"
  by (induction rows) auto

lemma find_first_append:
  "find_first P (xs @ ys) = (case find_first P xs of None \<Rightarrow> find_first P ys | Some r \<Rightarrow> Some r)"
  by (induction xs) auto

lemma find_first_unique:
  assumes "r \<in> set rows" and "P r" and "\<And>q. q \<in> set rows \<Longrightarrow> P q \<Longrightarrow> q = r"
  shows "find_first P rows = Some r"
proof (cases "find_first P rows")
  case None
  with assms(1,2) show ?thesis by (auto dest: find_first_NoneD)
next
  case (Some q)
  with assms(3) have "q = r" by (blast dest: find_first_SomeD)
  with Some show ?thesis by simp
qed

lemma set_update_where:
  "set (update_where P f rows) = {r \<in> set rows. \<not> P r} \<union> f ` {r \<in> set rows. P r}"
  by (auto simp: update_where_def)

lemma update_where_origin: "r \<in> set (update_where P f rows) \<Longrightarrow> \<exists>q \<in> set rows. r = q \<or> r = f q"
  by (auto simp: update_where_def)

lemma update_where_Nil [simp]: "update_where P f [] = []"
  by (simp add: update_where_def)

lemma update_where_Cons [simp]:
  "update_where P f (r # rs) = (if P r then f r else r) # update_where P f rs"
  by (simp add: update_where_def)

lemma length_update_where [simp]: "length (update_where P f rows) = length rows"
  by (simp add: update_where_def)

lemma map_update_where:
  assumes "\<And>r. P r \<Longrightarrow> g (f r) = g r"
  shows "map g (update_where P f rows) = map g rows"
  using assms by (auto simp: update_where_def)

lemma update_where_none: "(\<And>r. r \<in> set rows \<Longrightarrow> \<not> P r) \<Longrightarrow> update_where P f rows = rows"
  by (induction rows) auto

lemma set_delete_where [simp]: "set (delete_where P rows) = {r \<in> set rows. \<not> P r}"
  by (auto simp: delete_where_def)

lemma delete_where_simps [simp]:
  "delete_where P [] = []"
  "delete_where P (r # rs) = (if P r then delete_where P rs else r # delete_where P rs)"
  by (simp_all add: delete_where_def)

lemma distinct_map_delete_where: "distinct (map g rows) \<Longrightarrow> distinct (map g (delete_where P rows))"
  by (simp add: delete_where_def distinct_map_filter)

lemma count_where_simps [simp]:
  "count_where P [] = 0"
  "count_where P (r # rs) = (if P r then Suc (count_where P rs) else count_where P rs)"
  by (simp_all add: count_where_def)

lemma count_where_append [simp]: "count_where P (xs @ ys) = count_where P xs + count_where P ys"
  by (simp add: count_where_def)

lemma count_where_0_iff: "count_where P rows = 0 \<longleftrightarrow> (\<forall>r \<in> set rows. \<not> P r)"
  by (induction rows) auto

lemma count_where_pos: "r \<in> set rows \<Longrightarrow> P r \<Longrightarrow> 0 < count_where P rows"
  by (induction rows) auto

lemma count_where_cong: "(\<And>r. r \<in> set rows \<Longrightarrow> P r = Q r) \<Longrightarrow> count_where P rows = count_where Q rows"
  by (induction rows) auto

lemma count_where_mono: "(\<And>r. r \<in> set rows \<Longrightarrow> P r \<Longrightarrow> Q r) \<Longrightarrow> count_where P rows \<le> count_where Q rows"
  by (induction rows) (auto intro: le_SucI)

lemma count_where_delete: "count_where P (delete_where Q rows) \<le> count_where P rows"
  by (induction rows) auto

lemma count_where_update_le:
  assumes "\<And>r. r \<in> set rows \<Longrightarrow> Q r \<Longrightarrow> P (f r) \<Longrightarrow> P r"
  shows "count_where P (update_where Q f rows) \<le> count_where P rows"
  using assms by (induction rows) (auto intro: le_SucI)

lemma count_where_update_eq:
  assumes "\<And>r. r \<in> set rows \<Longrightarrow> Q r \<Longrightarrow> P (f r) = P r"
  shows "count_where P (update_where Q f rows) = count_where P rows"
  using assms by (induction rows) auto

lemma sum_where_simps [simp]:
  "sum_where P f [] = 0"
  "sum_where P f (r # rs) = (if P r then f r + sum_where P f rs else sum_where P f rs)"
  by (simp_all add: sum_where_def)

lemma sum_where_append [simp]: "sum_where P f (xs @ ys) = sum_where P f xs + sum_where P f ys"
  by (simp add: sum_where_def)

lemma sum_where_none: "(\<And>r. r \<in> set rows \<Longrightarrow> \<not> P r) \<Longrightarrow> sum_where P f rows = 0"
  by (induction rows) auto

lemma sum_where_nonneg: "(\<And>r. r \<in> set rows \<Longrightarrow> P r \<Longrightarrow> 0 \<le> f r) \<Longrightarrow> 0 \<le> sum_where P f rows"
  by (induction rows) auto

lemma sum_where_delete_le:
  assumes "\<And>r. r \<in> set rows \<Longrightarrow> P r \<Longrightarrow> 0 \<le> f r"
  shows "sum_where P f (delete_where Q rows) \<le> sum_where P f rows"
  using assms by (induction rows) fastforce+

lemma sum_where_delete_eq:
  assumes "\<And>r. r \<in> set rows \<Longrightarrow> Q r \<Longrightarrow> \<not> P r"
  shows "sum_where P f (delete_where Q rows) = sum_where P f rows"
  using assms by (induction rows) auto

lemma max_row_None [simp]: "max_row key rows = None \<longleftrightarrow> rows = []"
  by (cases rows) (auto split: option.splits if_splits)

lemma max_row_SomeD:
  assumes "max_row key rows = Some m"
  shows "m \<in> set rows" and "r \<in> set rows \<Longrightarrow> key r \<le> key m"
  using assms
  by (induction rows arbitrary: m) (force split: option.splits if_splits)+

lemma find_latest_SomeD:
  assumes "find_latest key P rows = Some m"
  shows "m \<in> set rows" and "P m" and "r \<in> set rows \<Longrightarrow> P r \<Longrightarrow> key r \<le> key m"
  using max_row_SomeD [OF assms [unfolded find_latest_def]] by auto

lemma find_latest_None_iff: "find_latest key P rows = None \<longleftrightarrow> (\<forall>r \<in> set rows. \<not> P r)"
  by (auto simp: find_latest_def filter_empty_conv)

subsection \<open>Rows with a unique key\<close>

text \<open>\<open>unique_key\<close> is a \<open>@id\<close> or \<open>@unique\<close> constraint of the schema.\<close>

definition unique_key :: "('r \<Rightarrow> 'k) \<Rightarrow> 'r list \<Rightarrow> bool" where
  "unique_key key rows \<longleftrightarrow> distinct (map key rows)"

lemma unique_key_Nil [simp]: "unique_key key []"
  by (simp add: unique_key_def)

lemma unique_key_snoc [simp]:
  "unique_key key (rows @ [r]) \<longleftrightarrow> unique_key key rows \<and> key r \<notin> key ` set rows"
  by (auto simp: unique_key_def)

lemma unique_key_eqD:
  "unique_key key rows \<Longrightarrow> r \<in> set rows \<Longrightarrow> q \<in> set rows \<Longrightarrow> key r = key q \<Longrightarrow> r = q"
  unfolding unique_key_def by (auto simp: distinct_map dest: inj_onD)

lemma unique_key_update [simp]:
  "(\<And>r. P r \<Longrightarrow> key (f r) = key r) \<Longrightarrow> unique_key key (update_where P f rows) = unique_key key rows"
  by (simp add: unique_key_def map_update_where)

lemma unique_key_delete: "unique_key key rows \<Longrightarrow> unique_key key (delete_where P rows)"
  by (simp add: unique_key_def distinct_map_delete_where)

lemma find_first_key:
  assumes "unique_key key rows" and "r \<in> set rows"
  shows "find_first (\<lambda>q. key q = key r) rows = Some r"
  using assms by (intro find_first_unique) (auto dest: unique_key_eqD)

lemma count_key:
  assumes "unique_key key rows" and "r \<in> set rows"
  shows "count_where (\<lambda>q. key q = key r) rows = 1"
  using assms unfolding unique_key_def
proof (induction rows)
  case Nil
  then show ?case by simp
next
  case (Cons q rows)
  show ?case
  proof (cases "q = r")
    case True
    with Cons.prems have "\<forall>p \<in> set rows. key p \<noteq> key r" by (metis distinct.simps(2) image_eqI list.simps(9) set_map)
    with True show ?thesis by (simp add: count_where_0_iff)
  next
    case False
    with Cons show ?thesis by auto
  qed
qed

lemma count_le_1D:
  assumes "count_where P rows \<le> 1" and "r \<in> set rows" and "q \<in> set rows" and "P r" and "P q"
  shows "r = q"
  using assms
proof (induction rows)
  case Nil
  then show ?case by simp
next
  case (Cons x rows)
  show ?case
  proof (cases "P x")
    case True
    with Cons.prems(1) have "\<forall>p \<in> set rows. \<not> P p" by (simp add: count_where_0_iff)
    with Cons.prems show ?thesis by auto
  next
    case False
    with Cons show ?thesis by auto
  qed
qed

text \<open>Counting after one row, addressed by its key, changed.\<close>

lemma count_where_update_key:
  assumes "unique_key key rows" and "r \<in> set rows"
  shows "count_where P (update_where (\<lambda>q. key q = key r) f rows) + of_bool (P r)
       = count_where P rows + of_bool (P (f r))"
  using assms unfolding unique_key_def
proof (induction rows)
  case Nil
  then show ?case by simp
next
  case (Cons q rows)
  show ?case
  proof (cases "q = r")
    case True
    with Cons.prems have "\<And>p. p \<in> set rows \<Longrightarrow> key p \<noteq> key r"
      by (metis distinct.simps(2) image_eqI list.simps(9) set_map)
    with True show ?thesis by (auto simp: update_where_none)
  next
    case False
    with Cons.prems have "r \<in> set rows" "key q \<noteq> key r" by auto
    with Cons show ?thesis by auto
  qed
qed

lemma sum_where_update_key:
  assumes "unique_key key rows" and "r \<in> set rows"
  shows "sum_where P f (update_where (\<lambda>q. key q = key r) g rows)
       = sum_where P f rows - (if P r then f r else 0) + (if P (g r) then f (g r) else 0)"
  using assms unfolding unique_key_def
proof (induction rows)
  case Nil
  then show ?case by simp
next
  case (Cons q rows)
  show ?case
  proof (cases "q = r")
    case True
    with Cons.prems have "\<And>p. p \<in> set rows \<Longrightarrow> key p \<noteq> key r"
      by (metis distinct.simps(2) image_eqI list.simps(9) set_map)
    with True show ?thesis by (auto simp: update_where_none)
  next
    case False
    with Cons.prems have "r \<in> set rows" "key q \<noteq> key r" by auto
    with Cons show ?thesis by auto
  qed
qed

subsection \<open>Transactions\<close>

text \<open>
  \<open>prisma.$transaction(f)\<close>: when the body throws (\<open>Inl\<close>), its writes are rolled back and the
  error reaches the caller; otherwise they are committed.
\<close>

definition transaction :: "('s \<Rightarrow> ('e, 'a, 's) outcome) \<Rightarrow> 's \<Rightarrow> ('e, 'a, 's) outcome" where
  "transaction f s = (case f s of (Inl e, s') \<Rightarrow> (Inl e, s) | (Inr a, s') \<Rightarrow> (Inr a, s'))"

lemma transaction_Inl: "transaction f s = (Inl e, t) \<Longrightarrow> t = s"
  by (auto simp: transaction_def split: prod.splits sum.splits)

lemma transaction_InrD: "transaction f s = (Inr a, t) \<Longrightarrow> f s = (Inr a, t)"
  by (auto simp: transaction_def split: prod.splits sum.splits)

lemma transaction_Inr_iff: "transaction f s = (Inr a, t) \<longleftrightarrow> f s = (Inr a, t)"
  by (auto simp: transaction_def split: prod.splits sum.splits)

lemma transaction_preserves:
  assumes "Q s" and "\<And>a t. f s = (Inr a, t) \<Longrightarrow> Q t"
  shows "Q (snd (transaction f s))"
  using assms by (auto simp: transaction_def split: prod.splits sum.splits)

text \<open>
  The body of a transaction is a program: statements that return a value or throw, one after the
  other.  A throw leaves the state as it is at that point; \<open>transaction\<close> discards it.
\<close>

type_synonym ('e, 'a, 's) program = "'s \<Rightarrow> ('e, 'a, 's) outcome"

definition ret :: "'a \<Rightarrow> ('e, 'a, 's) program" where
  "ret a s = (Inr a, s)"

definition throw :: "'e \<Rightarrow> ('e, 'a, 's) program" where
  "throw e s = (Inl e, s)"

definition modify :: "('s \<Rightarrow> 's) \<Rightarrow> ('e, unit, 's) program" where
  "modify f s = (Inr (), f s)"

definition and_then :: "('e, 'a, 's) program \<Rightarrow> ('a \<Rightarrow> ('e, 'b, 's) program) \<Rightarrow> ('e, 'b, 's) program" where
  "and_then m f s = (case m s of (Inl e, t) \<Rightarrow> (Inl e, t) | (Inr a, t) \<Rightarrow> f a t)"

fun for_each :: "('x \<Rightarrow> ('e, unit, 's) program) \<Rightarrow> 'x list \<Rightarrow> ('e, unit, 's) program" where
  "for_each f [] = ret ()"
| "for_each f (x # xs) = and_then (f x) (\<lambda>_. for_each f xs)"

lemma ret_iff [simp]: "ret a s = (r, t) \<longleftrightarrow> r = Inr a \<and> t = s"
  by (auto simp: ret_def)

lemma throw_iff [simp]: "throw e s = (r, t) \<longleftrightarrow> r = Inl e \<and> t = s"
  by (auto simp: throw_def)

lemma modify_iff [simp]: "modify f s = (r, t) \<longleftrightarrow> r = Inr () \<and> t = f s"
  by (auto simp: modify_def)

lemma and_then_InrD: "and_then m f s = (Inr b, t) \<Longrightarrow> \<exists>a u. m s = (Inr a, u) \<and> f a u = (Inr b, t)"
  by (auto simp: and_then_def split: prod.splits sum.splits)

lemma and_then_Inr_iff: "and_then m f s = (Inr b, t) \<longleftrightarrow> (\<exists>a u. m s = (Inr a, u) \<and> f a u = (Inr b, t))"
  by (auto simp: and_then_def split: prod.splits sum.splits)

lemma and_then_step: "m s = (Inr a, u) \<Longrightarrow> and_then m f s = f a u"
  by (simp add: and_then_def)

text \<open>A statement whose errors are errors of another kind to the program that runs it.\<close>

definition map_error :: "('d \<Rightarrow> 'e) \<Rightarrow> ('d, 'a, 's) program \<Rightarrow> ('e, 'a, 's) program" where
  "map_error f m s = (case m s of (Inl e, t) \<Rightarrow> (Inl (f e), t) | (Inr a, t) \<Rightarrow> (Inr a, t))"

lemma map_error_Inr_iff [simp]: "map_error f m s = (Inr a, t) \<longleftrightarrow> m s = (Inr a, t)"
  by (auto simp: map_error_def split: prod.splits sum.splits)

text \<open>A relation between the states before and after, carried along a program.\<close>

definition relates :: "('s \<Rightarrow> 's \<Rightarrow> bool) \<Rightarrow> ('e, 'a, 's) program \<Rightarrow> bool" where
  "relates R m \<longleftrightarrow> (\<forall>s a t. m s = (Inr a, t) \<longrightarrow> R s t)"

lemma relatesI: "(\<And>s a t. m s = (Inr a, t) \<Longrightarrow> R s t) \<Longrightarrow> relates R m"
  by (auto simp: relates_def)

lemma relatesD: "relates R m \<Longrightarrow> m s = (Inr a, t) \<Longrightarrow> R s t"
  by (auto simp: relates_def)

lemma relates_and_then:
  assumes "transp R" and "relates R m" and "\<And>a. relates R (f a)"
  shows "relates R (and_then m f)"
  using assms unfolding relates_def by (blast dest: and_then_InrD transpD)

lemma relates_for_each:
  assumes "reflp R" and "transp R" and "\<And>x. x \<in> set xs \<Longrightarrow> relates R (f x)"
  shows "relates R (for_each f xs)"
  using assms
proof (induction xs)
  case Nil
  then show ?case by (auto simp: relates_def dest: reflpD)
next
  case (Cons x xs)
  then show ?case by (auto intro!: relates_and_then)
qed

text \<open>A property of the state that a program keeps, also when it throws.\<close>

definition stable :: "('s \<Rightarrow> bool) \<Rightarrow> ('e, 'a, 's) program \<Rightarrow> bool" where
  "stable Q m \<longleftrightarrow> (\<forall>s. Q s \<longrightarrow> Q (snd (m s)))"

lemma stableI: "(\<And>s. Q s \<Longrightarrow> Q (snd (m s))) \<Longrightarrow> stable Q m"
  by (auto simp: stable_def)

lemma stableD: "stable Q m \<Longrightarrow> Q s \<Longrightarrow> Q (snd (m s))"
  by (auto simp: stable_def)

lemma stable_ret [intro, simp]: "stable Q (ret a)"
  by (auto simp: stable_def ret_def)

lemma stable_throw [intro, simp]: "stable Q (throw e)"
  by (auto simp: stable_def throw_def)

lemma stable_and_then:
  assumes "stable Q m" and "\<And>a. stable Q (f a)"
  shows "stable Q (and_then m f)"
proof (rule stableI)
  fix s assume "Q s"
  with assms(1) have "Q (snd (m s))" by (rule stableD)
  with assms(2) show "Q (snd (and_then m f s))"
    by (cases "m s") (auto simp: and_then_def stable_def split: sum.splits)
qed

lemma stable_for_each: "(\<And>x. x \<in> set xs \<Longrightarrow> stable Q (f x)) \<Longrightarrow> stable Q (for_each f xs)"
  by (induction xs) (auto intro: stable_and_then)

lemma stable_transaction:
  assumes "\<And>s a t. Q s \<Longrightarrow> f s = (Inr a, t) \<Longrightarrow> Q t"
  shows "stable Q (transaction f)"
  using assms by (auto simp: stable_def transaction_def split: prod.splits sum.splits)

subsection \<open>Instants and calendar days\<close>

definition MS_PER_DAY :: millis where
  "MS_PER_DAY = 86400000"

text \<open>Ceiling division, as \<open>Math.ceil(a / b)\<close> for a positive \<open>b\<close>.\<close>

definition ceil_div :: "int \<Rightarrow> int \<Rightarrow> int" where
  "ceil_div a b = - ((- a) div b)"

lemma ceil_div_bounds:
  assumes "0 < b"
  shows "a \<le> ceil_div a b * b" and "ceil_div a b * b < a + b"
proof -
  have e: "((- a) div b) * b + (- a) mod b = - a" by simp
  have m: "0 \<le> (- a) mod b" "(- a) mod b < b" using assms by simp_all
  have c: "ceil_div a b * b = - (((- a) div b) * b)" by (simp add: ceil_div_def)
  show "a \<le> ceil_div a b * b" using e m c by linarith
  show "ceil_div a b * b < a + b" using e m c by linarith
qed

lemma ceil_div_pos: "0 < b \<Longrightarrow> 0 < a \<Longrightarrow> 0 < ceil_div a b"
  using ceil_div_bounds(1) [of b a] order_less_le_trans [of 0 a "ceil_div a b * b"]
  by (simp add: zero_less_mult_iff)

subsection \<open>Strings\<close>

definition upper_char :: "char \<Rightarrow> char" where
  "upper_char c = (let n = of_char c :: nat in if 97 \<le> n \<and> n \<le> 122 then char_of (n - 32) else c)"

definition lower_char :: "char \<Rightarrow> char" where
  "lower_char c = (let n = of_char c :: nat in if 65 \<le> n \<and> n \<le> 90 then char_of (n + 32) else c)"

definition toUpperCase :: "string \<Rightarrow> string" where
  "toUpperCase s = map upper_char s"

definition toLowerCase :: "string \<Rightarrow> string" where
  "toLowerCase s = map lower_char s"

definition is_space :: "char \<Rightarrow> bool" where
  "is_space c = (let n = of_char c :: nat in n = 32 \<or> (9 \<le> n \<and> n \<le> 13))"

definition trim :: "string \<Rightarrow> string" where
  "trim s = rev (dropWhile is_space (rev (dropWhile is_space s)))"

text \<open>\<open>split\<close> at a character.\<close>

fun splitOn :: "char \<Rightarrow> string \<Rightarrow> string list" where
  "splitOn c [] = [[]]"
| "splitOn c (x # xs) = (if x = c then [] # splitOn c xs else case splitOn c xs of [] \<Rightarrow> [[x]] | y # ys \<Rightarrow> (x # y) # ys)"

text \<open>Decimal notation, as a template literal prints an integer.\<close>

function show_pos :: "int \<Rightarrow> string" where
  "show_pos n = (if n < 10 then [char_of (48 + n)] else show_pos (n div 10) @ [char_of (48 + n mod 10)])"
  by pat_completeness auto
termination
  by (relation "measure nat") auto

declare show_pos.simps [simp del]

definition show_int :: "int \<Rightarrow> string" where
  "show_int i = (if i < 0 then CHR ''-'' # show_pos (- i) else show_pos i)"

subsection \<open>State machines with an invariant\<close>

inductive reaches :: "('s \<Rightarrow> bool) \<Rightarrow> ('s \<Rightarrow> 's \<Rightarrow> bool) \<Rightarrow> 's \<Rightarrow> bool"
  for init :: "'s \<Rightarrow> bool" and step :: "'s \<Rightarrow> 's \<Rightarrow> bool"
where
  start: "init s \<Longrightarrow> reaches init step s"
| move: "reaches init step s \<Longrightarrow> step s t \<Longrightarrow> reaches init step t"

locale machine =
  fixes init :: "'s \<Rightarrow> bool"
    and step :: "'s \<Rightarrow> 's \<Rightarrow> bool"
    and inv :: "'s \<Rightarrow> bool"
  assumes init_inv: "init s \<Longrightarrow> inv s"
    and step_inv: "inv s \<Longrightarrow> step s t \<Longrightarrow> inv t"
begin

lemma reaches_inv: "reaches init step s \<Longrightarrow> inv s"
  by (induction rule: reaches.induct) (auto intro: init_inv step_inv)

lemma path_inv: "step\<^sup>*\<^sup>* s t \<Longrightarrow> inv s \<Longrightarrow> inv t"
  by (induction rule: rtranclp_induct) (auto intro: step_inv)

end

end
