(* ===== verification/AutoMiningDomain.thy ===== *)
theory AutoMiningDomain
  imports Prelude
begin

section \<open>Auto Mining v2: pure domain logic\<close>

text \<open>
  \<open>server/services/autoMiningV2/autoMiningV2Domain.js\<close>: the constants of the feature, the
  test for a due claim, the daily cap, the life of a grant and the validation of a banner
  impression.  A \<open>Date\<close> is its number of milliseconds since the epoch.
\<close>

datatype mining_mode = NORMAL | TURBO

definition NORMAL_HASH_PER_CYCLE :: int where "NORMAL_HASH_PER_CYCLE = 10"
definition TURBO_HASH_PER_CYCLE :: int where "TURBO_HASH_PER_CYCLE = 20"
definition CYCLE_SECONDS :: int where "CYCLE_SECONDS = 60"
definition DAILY_LIMIT_HASH :: int where "DAILY_LIMIT_HASH = 1000"
definition GRANT_TTL_MS :: millis where "GRANT_TTL_MS = 24 * 60 * 60 * 1000"
definition CLICK_GRACE_MS :: millis where "CLICK_GRACE_MS = 3 * 60 * 1000"
definition MIN_CLICK_DELAY_MS :: millis where "MIN_CLICK_DELAY_MS = 400"

lemmas domain_constants =
  NORMAL_HASH_PER_CYCLE_def TURBO_HASH_PER_CYCLE_def CYCLE_SECONDS_def DAILY_LIMIT_HASH_def
  GRANT_TTL_MS_def CLICK_GRACE_MS_def MIN_CLICK_DELAY_MS_def MS_PER_DAY_def

text \<open>
  \<open>Date.UTC\<close> of the UTC year, month and day of \<open>d\<close> is the last multiple of a day's length at or
  before \<open>d\<close>: UTC days all last 86400000 ms in JavaScript's time scale.
\<close>

definition startOfUtcDay :: "millis \<Rightarrow> millis" where
  "startOfUtcDay d = d - d mod MS_PER_DAY"

text \<open>The third argument of the source defaults to 5000.\<close>

definition isClaimDue :: "millis \<Rightarrow> millis \<Rightarrow> millis \<Rightarrow> bool" where
  "isClaimDue nextClaimAt serverNow skewMs = (serverNow \<ge> nextClaimAt - skewMs)"

abbreviation DEFAULT_SKEW_MS :: millis where "DEFAULT_SKEW_MS \<equiv> 5000"

definition canGrantDaily :: "int \<Rightarrow> int \<Rightarrow> int \<Rightarrow> bool" where
  "canGrantDaily currentDayTotalHash grantAmount limit = (currentDayTotalHash + grantAmount \<le> limit)"

definition computeExpiresAt :: "millis \<Rightarrow> millis \<Rightarrow> millis" where
  "computeExpiresAt earnedAt ttlMs = earnedAt + ttlMs"

definition nextClaimAfterSuccess :: "millis \<Rightarrow> int \<Rightarrow> millis" where
  "nextClaimAfterSuccess serverNow cycleSeconds = serverNow + cycleSeconds * 1000"

definition hashRateForMode :: "mining_mode \<Rightarrow> int" where
  "hashRateForMode m = (if m = TURBO then TURBO_HASH_PER_CYCLE else NORMAL_HASH_PER_CYCLE)"

datatype am_error =
  SCHEMA_UNAVAILABLE | INVALID_MODE | NO_SESSION | WRONG_MODE | CLAIM_NOT_DUE | DAILY_LIMIT
| CONCURRENT_CLAIM | NOT_FOUND | NOT_CLICKED | ALREADY_CLAIMED | CLICK_TOO_FAST | IMPRESSION_EXPIRED

definition assertValidMiningMode :: "string \<Rightarrow> am_error + mining_mode" where
  "assertValidMiningMode mode =
     (if mode = ''NORMAL'' then Inr NORMAL
      else if mode = ''TURBO'' then Inr TURBO
      else Inl INVALID_MODE)"

text \<open>A row of \<open>auto_mining_v2_banner_impressions\<close>.\<close>

record am_impression =
  imp_id :: int
  imp_userId :: int
  imp_sessionId :: int
  imp_bannerKey :: string
  imp_targetUrl :: string
  imp_title :: string
  imp_imageUrl :: "string option"
  imp_createdAt :: millis
  imp_clickedAt :: "millis option"
  imp_grantId :: "int option"

text \<open>\<open>None\<close> is \<open>{ ok: true }\<close>, \<open>Some code\<close> is \<open>{ ok: false, code }\<close>.\<close>

definition validateImpressionForTurboClaim :: "am_impression \<Rightarrow> millis \<Rightarrow> am_error option" where
  "validateImpressionForTurboClaim impression serverNow =
     (case imp_clickedAt impression of
        None \<Rightarrow> Some NOT_CLICKED
      | Some clickedAt \<Rightarrow>
          if imp_grantId impression \<noteq> None then Some ALREADY_CLAIMED
          else if clickedAt - imp_createdAt impression < MIN_CLICK_DELAY_MS then Some CLICK_TOO_FAST
          else if serverNow - imp_createdAt impression > CLICK_GRACE_MS then Some IMPRESSION_EXPIRED
          else None)"

subsection \<open>Lemmas\<close>

lemma startOfUtcDay_le: "startOfUtcDay d \<le> d"
  by (simp add: startOfUtcDay_def MS_PER_DAY_def)

lemma startOfUtcDay_gt: "d < startOfUtcDay d + MS_PER_DAY"
  using pos_mod_bound [of MS_PER_DAY d] by (simp add: startOfUtcDay_def MS_PER_DAY_def)

lemma startOfUtcDay_dvd: "MS_PER_DAY dvd startOfUtcDay d"
  by (simp add: startOfUtcDay_def dvd_minus_mod)

text \<open>An instant lies in the day that starts at \<open>startOfUtcDay d\<close> iff it has the same start of day.\<close>

lemma in_utc_day_iff:
  "startOfUtcDay d \<le> e \<and> e < startOfUtcDay d + MS_PER_DAY \<longleftrightarrow> startOfUtcDay e = startOfUtcDay d"
proof
  assume "startOfUtcDay e = startOfUtcDay d"
  then show "startOfUtcDay d \<le> e \<and> e < startOfUtcDay d + MS_PER_DAY"
    using startOfUtcDay_le [of e] startOfUtcDay_gt [of e] by simp
next
  assume e: "startOfUtcDay d \<le> e \<and> e < startOfUtcDay d + MS_PER_DAY"
  obtain k where k: "startOfUtcDay d = MS_PER_DAY * k" using startOfUtcDay_dvd by (metis dvdE)
  have "e div MS_PER_DAY = k"
    using e k by (intro int_div_pos_eq [where r = "e - MS_PER_DAY * k"]) (auto simp: MS_PER_DAY_def)
  then show "startOfUtcDay e = startOfUtcDay d"
    using k by (auto simp: startOfUtcDay_def minus_mod_eq_mult_div MS_PER_DAY_def)
qed

lemma validateImpression_None_iff:
  "validateImpressionForTurboClaim imp now = None \<longleftrightarrow>
     (\<exists>c. imp_clickedAt imp = Some c \<and> imp_grantId imp = None
        \<and> MIN_CLICK_DELAY_MS \<le> c - imp_createdAt imp \<and> now - imp_createdAt imp \<le> CLICK_GRACE_MS)"
  by (auto simp: validateImpressionForTurboClaim_def split: option.splits if_splits)

lemma hashRateForMode_bounds: "0 < hashRateForMode m" "hashRateForMode m \<le> DAILY_LIMIT_HASH"
  by (simp_all add: hashRateForMode_def domain_constants)

end
