(* ===== verification/AutoMiningService.thy ===== *)
theory AutoMiningService
  imports AutoMiningDomain
begin

section \<open>Auto Mining v2: sessions, claims and banner impressions\<close>

text \<open>
  \<open>server/services/autoMiningV2/autoMiningV2Service.js\<close> over its four tables, the availability
  probe of \<open>autoMiningV2DbAvailability.js\<close> and the part of \<open>server/cron/gamePowerCleanup.js\<close> that
  deletes rows of these tables.  \<open>am_next\<close> supplies the fresh row ids (autoincrement and uuid
  defaults).  \<open>hashRate\<close> is a Float column to which only 10 and 20 are ever written, so it is an
  \<open>int\<close> here.  A claim is split where its transaction has read the session: what follows runs on
  the state the database has then, which another claim may have changed.
\<close>

record am_session =
  ses_id :: int
  ses_userId :: int
  ses_mode :: mining_mode
  ses_nextClaimAt :: millis
  ses_isActive :: bool
  ses_createdAt :: millis

record am_grant =
  grant_id :: int
  grant_userId :: int
  grant_sessionId :: int
  grant_hashRate :: int
  grant_mode :: mining_mode
  grant_earnedAt :: millis
  grant_expiresAt :: millis

record am_banner =
  ban_id :: int
  ban_title :: string
  ban_imageUrl :: "string option"
  ban_link :: "string option"
  ban_isActive :: bool
  ban_createdAt :: millis

record am_db =
  am_sessions :: "am_session list"
  am_grants :: "am_grant list"
  am_impressions :: "am_impression list"
  am_banners :: "am_banner list"
  am_next :: int

subsection \<open>Availability of the schema\<close>

record am_probe =
  schemaConfirmed :: bool
  probeQuietUntil :: millis

definition NEGATIVE_CACHE_MS :: millis where "NEGATIVE_CACHE_MS = 45000"

definition resetAutoMiningV2AvailabilityCache :: am_probe where
  "resetAutoMiningV2AvailabilityCache = \<lparr>schemaConfirmed = False, probeQuietUntil = 0\<rparr>"

text \<open>\<open>reachable\<close> is whether the probing query succeeds.\<close>

definition isAutoMiningV2SchemaAvailable :: "bool \<Rightarrow> millis \<Rightarrow> am_probe \<Rightarrow> bool \<times> am_probe" where
  "isAutoMiningV2SchemaAvailable reachable now p =
     (if schemaConfirmed p then (True, p)
      else if now < probeQuietUntil p then (False, p)
      else if reachable then (True, p\<lparr>schemaConfirmed := True\<rparr>)
      else (False, p\<lparr>probeQuietUntil := now + NEGATIVE_CACHE_MS\<rparr>))"

subsection \<open>Sessions\<close>

definition sumDailyGrantedHash :: "int \<Rightarrow> millis \<Rightarrow> am_db \<Rightarrow> int" where
  "sumDailyGrantedHash userId serverNow s =
     (let dayStart = startOfUtcDay serverNow; dayEnd = dayStart + 86400000
      in sum_where (\<lambda>g. grant_userId g = userId \<and> dayStart \<le> grant_earnedAt g \<and> grant_earnedAt g < dayEnd)
           grant_hashRate (am_grants s))"

definition activeOf :: "int \<Rightarrow> am_session \<Rightarrow> bool" where
  "activeOf userId r = (ses_userId r = userId \<and> ses_isActive r)"

definition deactivateUserSessions :: "int \<Rightarrow> am_db \<Rightarrow> am_db" where
  "deactivateUserSessions userId s =
     s\<lparr>am_sessions := update_where (activeOf userId) (\<lambda>r. r\<lparr>ses_isActive := False\<rparr>) (am_sessions s)\<rparr>"

definition startSession ::
  "bool \<Rightarrow> int \<Rightarrow> string \<Rightarrow> millis \<Rightarrow> am_db \<Rightarrow> (am_error, am_session, am_db) outcome" where
  "startSession available userId mode now s =
     (if \<not> available then (Inl SCHEMA_UNAVAILABLE, s)
      else case assertValidMiningMode mode of
        Inl e \<Rightarrow> (Inl e, s)
      | Inr m \<Rightarrow>
          transaction (\<lambda>s.
            let s1 = deactivateUserSessions userId s;
                row = \<lparr>ses_id = am_next s1, ses_userId = userId, ses_mode = m,
                       ses_nextClaimAt = now + CYCLE_SECONDS * 1000, ses_isActive = True,
                       ses_createdAt = now\<rparr>
            in (Inr row, s1\<lparr>am_sessions := am_sessions s1 @ [row], am_next := am_next s1 + 1\<rparr>)) s)"

definition stopSession :: "bool \<Rightarrow> int \<Rightarrow> am_db \<Rightarrow> nat \<times> am_db" where
  "stopSession available userId s =
     (if \<not> available then (0, s)
      else (count_where (activeOf userId) (am_sessions s), deactivateUserSessions userId s))"

definition getActiveSession :: "int \<Rightarrow> am_db \<Rightarrow> am_session option" where
  "getActiveSession userId s = find_first (activeOf userId) (am_sessions s)"

text \<open>
  The choice \<open>Math.floor(Math.random() * n)\<close> is the argument \<open>choice\<close>, reduced to an index.
  \<open>fallbackEnv\<close> is \<open>AUTO_MINING_V2_FALLBACK_URL\<close>; an empty value is falsy, as in the source.
\<close>

record am_picked =
  pick_bannerKey :: string
  pick_targetUrl :: string
  pick_title :: string
  pick_imageUrl :: "string option"

definition pickPartnerBanner :: "string option \<Rightarrow> nat \<Rightarrow> am_db \<Rightarrow> am_picked" where
  "pickPartnerBanner fallbackEnv choice s =
     (let banners = take 40 (sort_key (\<lambda>b. - ban_createdAt b)
                      (filter (\<lambda>b. ban_isActive b \<and> ban_link b \<noteq> None) (am_banners s)));
          withLink = filter (\<lambda>b. trim (case ban_link b of None \<Rightarrow> [] | Some l \<Rightarrow> l) \<noteq> []) banners
      in if withLink = [] then
           \<lparr>pick_bannerKey = ''fallback'',
            pick_targetUrl = trim (case fallbackEnv of
                None \<Rightarrow> ''https://blockminer.space/''
              | Some u \<Rightarrow> if u = [] then ''https://blockminer.space/'' else u),
            pick_title = ''Partner'', pick_imageUrl = None\<rparr>
         else let b = withLink ! (choice mod length withLink)
              in \<lparr>pick_bannerKey = ''db:'' @ show_int (ban_id b),
                  pick_targetUrl = trim (case ban_link b of None \<Rightarrow> [] | Some l \<Rightarrow> l),
                  pick_title = ban_title b,
                  pick_imageUrl = (case ban_imageUrl b of Some [] \<Rightarrow> None | u \<Rightarrow> u)\<rparr>)"

subsection \<open>Status\<close>

record am_status =
  st_session :: "am_session option"
  st_schemaUnavailable :: bool
  st_serverNow :: millis
  st_dailyUsedHash :: int
  st_dailyLimitHash :: int
  st_dailyRemainingHash :: int
  st_cycleSeconds :: int
  st_activeGrants :: "am_grant list"
  st_sessionEarningsHash :: int
  st_impressionsToday :: nat
  st_clicksToday :: nat
  st_recentGrants :: "am_grant list"

definition degradedStatusPayload :: "millis \<Rightarrow> am_status" where
  "degradedStatusPayload now =
     \<lparr>st_session = None, st_schemaUnavailable = True, st_serverNow = now, st_dailyUsedHash = 0,
      st_dailyLimitHash = DAILY_LIMIT_HASH, st_dailyRemainingHash = DAILY_LIMIT_HASH,
      st_cycleSeconds = CYCLE_SECONDS, st_activeGrants = [], st_sessionEarningsHash = 0,
      st_impressionsToday = 0, st_clicksToday = 0, st_recentGrants = []\<rparr>"

definition getStatusPayload :: "bool \<Rightarrow> int \<Rightarrow> millis \<Rightarrow> am_db \<Rightarrow> am_status" where
  "getStatusPayload available userId now s =
     (if \<not> available then degradedStatusPayload now
      else
        let session = getActiveSession userId s;
            dailyUsed = sumDailyGrantedHash userId now s;
            activeGrants = take 80 (sort_key grant_expiresAt
              (filter (\<lambda>g. grant_userId g = userId \<and> now < grant_expiresAt g) (am_grants s)));
            earnings = (case session of
                None \<Rightarrow> 0
              | Some ses \<Rightarrow> sum_where (\<lambda>g. grant_userId g = userId \<and> grant_sessionId g = ses_id ses)
                             grant_hashRate (am_grants s));
            dayStart = startOfUtcDay now;
            impToday = count_where (\<lambda>i. imp_userId i = userId \<and> dayStart \<le> imp_createdAt i) (am_impressions s);
            clickToday = count_where (\<lambda>i. imp_userId i = userId
                \<and> (case imp_clickedAt i of None \<Rightarrow> False | Some c \<Rightarrow> dayStart \<le> c)) (am_impressions s);
            recent = take 25 (sort_key (\<lambda>g. - grant_earnedAt g)
              (filter (\<lambda>g. grant_userId g = userId) (am_grants s)))
        in \<lparr>st_session = session, st_schemaUnavailable = False, st_serverNow = now,
            st_dailyUsedHash = dailyUsed, st_dailyLimitHash = DAILY_LIMIT_HASH,
            st_dailyRemainingHash = max 0 (DAILY_LIMIT_HASH - dailyUsed),
            st_cycleSeconds = CYCLE_SECONDS, st_activeGrants = activeGrants,
            st_sessionEarningsHash = earnings, st_impressionsToday = impToday,
            st_clicksToday = clickToday, st_recentGrants = recent\<rparr>)"

subsection \<open>Claims\<close>

text \<open>
  The optimistic lock and the grant that end both claims: \<open>updateMany\<close> on the session as it was
  read, then the new row of \<open>auto_mining_v2_power_grants\<close>.
\<close>

definition bumpAndGrant ::
  "int \<Rightarrow> am_session \<Rightarrow> mining_mode \<Rightarrow> int \<Rightarrow> millis \<Rightarrow> am_db \<Rightarrow> (am_error, am_grant \<times> millis, am_db) outcome" where
  "bumpAndGrant userId session m amount now s =
     (let nextAt = nextClaimAfterSuccess now CYCLE_SECONDS;
          hit = (\<lambda>r. ses_id r = ses_id session \<and> ses_nextClaimAt r = ses_nextClaimAt session \<and> ses_isActive r);
          bumped = count_where hit (am_sessions s);
          s1 = s\<lparr>am_sessions := update_where hit (\<lambda>r. r\<lparr>ses_nextClaimAt := nextAt\<rparr>) (am_sessions s)\<rparr>
      in if bumped \<noteq> 1 then (Inl CONCURRENT_CLAIM, s1)
         else let g = \<lparr>grant_id = am_next s1, grant_userId = userId, grant_sessionId = ses_id session,
                       grant_hashRate = amount, grant_mode = m, grant_earnedAt = now,
                       grant_expiresAt = computeExpiresAt now GRANT_TTL_MS\<rparr>
              in (Inr (g, nextAt), s1\<lparr>am_grants := am_grants s1 @ [g], am_next := am_next s1 + 1\<rparr>))"

definition claimNormal_rest ::
  "int \<Rightarrow> am_session \<Rightarrow> millis \<Rightarrow> am_db \<Rightarrow> (am_error, am_grant \<times> millis, am_db) outcome" where
  "claimNormal_rest userId session now s =
     (if ses_mode session \<noteq> NORMAL then (Inl WRONG_MODE, s)
      else if \<not> isClaimDue (ses_nextClaimAt session) now DEFAULT_SKEW_MS then (Inl CLAIM_NOT_DUE, s)
      else let dailyUsed = sumDailyGrantedHash userId now s; amount = hashRateForMode NORMAL
           in if \<not> canGrantDaily dailyUsed amount DAILY_LIMIT_HASH then (Inl DAILY_LIMIT, s)
              else bumpAndGrant userId session NORMAL amount now s)"

definition claimNormal ::
  "int \<Rightarrow> millis \<Rightarrow> am_db \<Rightarrow> (am_error, am_grant \<times> millis, am_db) outcome" where
  "claimNormal userId now s =
     transaction (\<lambda>s. case find_first (activeOf userId) (am_sessions s) of
         None \<Rightarrow> (Inl NO_SESSION, s)
       | Some session \<Rightarrow> claimNormal_rest userId session now s) s"

definition newImpression :: "int \<Rightarrow> am_session \<Rightarrow> am_picked \<Rightarrow> millis \<Rightarrow> int \<Rightarrow> am_impression" where
  "newImpression userId session picked now freshId =
     \<lparr>imp_id = freshId, imp_userId = userId, imp_sessionId = ses_id session,
      imp_bannerKey = pick_bannerKey picked, imp_targetUrl = pick_targetUrl picked,
      imp_title = pick_title picked, imp_imageUrl = pick_imageUrl picked,
      imp_createdAt = now, imp_clickedAt = None, imp_grantId = None\<rparr>"

definition getOrCreateBannerImpression ::
  "bool \<Rightarrow> string option \<Rightarrow> nat \<Rightarrow> int \<Rightarrow> millis \<Rightarrow> am_db
     \<Rightarrow> (am_error, am_impression \<times> bool, am_db) outcome" where
  "getOrCreateBannerImpression available fallbackEnv choice userId now s =
     (if \<not> available then (Inl SCHEMA_UNAVAILABLE, s)
      else transaction (\<lambda>s. case find_first (activeOf userId) (am_sessions s) of
          None \<Rightarrow> (Inl NO_SESSION, s)
        | Some session \<Rightarrow>
            if ses_mode session \<noteq> TURBO then (Inl WRONG_MODE, s)
            else if \<not> isClaimDue (ses_nextClaimAt session) now DEFAULT_SKEW_MS then (Inl CLAIM_NOT_DUE, s)
            else if \<not> canGrantDaily (sumDailyGrantedHash userId now s) (hashRateForMode TURBO) DAILY_LIMIT_HASH
              then (Inl DAILY_LIMIT, s)
            else let graceStart = now - CLICK_GRACE_MS in
              case find_latest imp_createdAt
                     (\<lambda>i. imp_userId i = userId \<and> imp_sessionId i = ses_id session
                        \<and> imp_grantId i = None \<and> graceStart \<le> imp_createdAt i) (am_impressions s) of
                Some existing \<Rightarrow> (Inr (existing, True), s)
              | None \<Rightarrow>
                  let picked = pickPartnerBanner fallbackEnv choice s;
                      row = newImpression userId session picked now (am_next s)
                  in (Inr (row, False),
                      s\<lparr>am_impressions := am_impressions s @ [row], am_next := am_next s + 1\<rparr>)) s)"

definition registerBannerClick ::
  "bool \<Rightarrow> int \<Rightarrow> int \<Rightarrow> millis \<Rightarrow> am_db \<Rightarrow> (am_error, am_impression, am_db) outcome" where
  "registerBannerClick available userId impressionId now s =
     (if \<not> available then (Inl SCHEMA_UNAVAILABLE, s)
      else transaction (\<lambda>s.
        case find_first (\<lambda>i. imp_id i = impressionId \<and> imp_userId i = userId) (am_impressions s) of
          None \<Rightarrow> (Inl NOT_FOUND, s)
        | Some imp \<Rightarrow>
            if imp_grantId imp \<noteq> None then (Inl ALREADY_CLAIMED, s)
            else if imp_clickedAt imp \<noteq> None then (Inr imp, s)
            else if now - imp_createdAt imp < MIN_CLICK_DELAY_MS then (Inl CLICK_TOO_FAST, s)
            else if now - imp_createdAt imp > CLICK_GRACE_MS then (Inl IMPRESSION_EXPIRED, s)
            else (Inr (imp\<lparr>imp_clickedAt := Some now\<rparr>),
                  s\<lparr>am_impressions := update_where (\<lambda>i. imp_id i = imp_id imp)
                       (\<lambda>i. i\<lparr>imp_clickedAt := Some now\<rparr>) (am_impressions s)\<rparr>)) s)"

definition claimTurbo_rest ::
  "int \<Rightarrow> am_session \<Rightarrow> am_impression \<Rightarrow> millis \<Rightarrow> am_db \<Rightarrow> (am_error, am_grant \<times> millis, am_db) outcome" where
  "claimTurbo_rest userId session impression now s =
     (case validateImpressionForTurboClaim impression now of
        Some code \<Rightarrow> (Inl code, s)
      | None \<Rightarrow>
          if \<not> isClaimDue (ses_nextClaimAt session) now DEFAULT_SKEW_MS then (Inl CLAIM_NOT_DUE, s)
          else let dailyUsed = sumDailyGrantedHash userId now s; amount = hashRateForMode TURBO
               in if \<not> canGrantDaily dailyUsed amount DAILY_LIMIT_HASH then (Inl DAILY_LIMIT, s)
                  else case bumpAndGrant userId session TURBO amount now s of
                      (Inl e, s1) \<Rightarrow> (Inl e, s1)
                    | (Inr (g, nextAt), s1) \<Rightarrow>
                        (Inr (g, nextAt),
                         s1\<lparr>am_impressions := update_where (\<lambda>i. imp_id i = imp_id impression)
                              (\<lambda>i. i\<lparr>imp_grantId := Some (grant_id g)\<rparr>) (am_impressions s1)\<rparr>))"

definition claimTurbo ::
  "bool \<Rightarrow> int \<Rightarrow> int \<Rightarrow> millis \<Rightarrow> am_db \<Rightarrow> (am_error, am_grant \<times> millis, am_db) outcome" where
  "claimTurbo available userId impressionId now s =
     (if \<not> available then (Inl SCHEMA_UNAVAILABLE, s)
      else transaction (\<lambda>s. case find_first (activeOf userId) (am_sessions s) of
          None \<Rightarrow> (Inl NO_SESSION, s)
        | Some session \<Rightarrow>
            if ses_mode session \<noteq> TURBO then (Inl WRONG_MODE, s)
            else case find_first (\<lambda>i. imp_id i = impressionId \<and> imp_userId i = userId
                                    \<and> imp_sessionId i = ses_id session) (am_impressions s) of
                None \<Rightarrow> (Inl NOT_FOUND, s)
              | Some impression \<Rightarrow> claimTurbo_rest userId session impression now s) s)"

subsection \<open>Cleanup\<close>

definition cleanupStaleAutoMiningV2Impressions :: "bool \<Rightarrow> millis \<Rightarrow> am_db \<Rightarrow> nat \<times> am_db" where
  "cleanupStaleAutoMiningV2Impressions available now s =
     (if \<not> available then (0, s)
      else let cutoff = now - 7 * 24 * 60 * 60 * 1000;
               stale = (\<lambda>i. imp_grantId i = None \<and> imp_createdAt i < cutoff)
           in (count_where stale (am_impressions s),
               s\<lparr>am_impressions := delete_where stale (am_impressions s)\<rparr>))"

text \<open>
  Deleting a grant sets \<open>grantId\<close> of its impression to null: the relation of the schema is
  declared \<open>onDelete: SetNull\<close>.
\<close>

definition cleanupExpiredGrants :: "bool \<Rightarrow> millis \<Rightarrow> am_db \<Rightarrow> am_db" where
  "cleanupExpiredGrants available now s =
     (if \<not> available then s
      else let dead = (\<lambda>g. grant_expiresAt g < now);
               deadIds = map grant_id (filter dead (am_grants s))
           in s\<lparr>am_grants := delete_where dead (am_grants s),
               am_impressions := update_where
                 (\<lambda>i. case imp_grantId i of None \<Rightarrow> False | Some g \<Rightarrow> g \<in> set deadIds)
                 (\<lambda>i. i\<lparr>imp_grantId := None\<rparr>) (am_impressions s)\<rparr>)"

end
