(* ===== verification/AutoMiningProofs.thy ===== *)
theory AutoMiningProofs
  imports AutoMiningService
begin

section \<open>Auto Mining v2: the invariant and what follows from it\<close>

text \<open>
  The invariant \<open>am_inv\<close> of the four tables at a clock value, the step relation of the feature
  (any user may call any operation at any later instant; the cleanup cron runs at any time) and
  its interpretation as a \<open>machine\<close>.
\<close>

subsection \<open>The invariant\<close>

definition sessions_ok :: "am_db \<Rightarrow> bool" where
  "sessions_ok s \<longleftrightarrow> unique_key ses_id (am_sessions s) \<and> (\<forall>r \<in> set (am_sessions s). ses_id r < am_next s)
     \<and> (\<forall>u. count_where (activeOf u) (am_sessions s) \<le> 1)"

definition grants_ok :: "millis \<Rightarrow> am_db \<Rightarrow> bool" where
  "grants_ok c s \<longleftrightarrow> unique_key grant_id (am_grants s)
     \<and> (\<forall>g \<in> set (am_grants s). grant_id g < am_next s \<and> 0 < grant_hashRate g \<and> grant_earnedAt g \<le> c
          \<and> grant_expiresAt g = grant_earnedAt g + GRANT_TTL_MS)"

definition daily_ok :: "am_db \<Rightarrow> bool" where
  "daily_ok s \<longleftrightarrow> (\<forall>u t. sumDailyGrantedHash u t s \<le> DAILY_LIMIT_HASH)"

definition spaced :: "am_grant list \<Rightarrow> bool" where
  "spaced gs \<longleftrightarrow> (\<forall>g \<in> set gs. \<forall>h \<in> set gs. grant_userId g = grant_userId h \<longrightarrow> grant_id g \<noteq> grant_id h
     \<longrightarrow> 55000 \<le> \<bar>grant_earnedAt g - grant_earnedAt h\<bar>)"

definition cycle_ok :: "am_db \<Rightarrow> bool" where
  "cycle_ok s \<longleftrightarrow> (\<forall>r \<in> set (am_sessions s). \<forall>g \<in> set (am_grants s). activeOf (grant_userId g) r
     \<longrightarrow> grant_earnedAt g + 60000 \<le> ses_nextClaimAt r)"

definition impression_ok :: "millis \<Rightarrow> am_grant list \<Rightarrow> am_impression \<Rightarrow> bool" where
  "impression_ok c gs i \<longleftrightarrow> imp_createdAt i \<le> c
     \<and> (\<forall>t. imp_clickedAt i = Some t \<longrightarrow> MIN_CLICK_DELAY_MS \<le> t - imp_createdAt i
          \<and> t - imp_createdAt i \<le> CLICK_GRACE_MS \<and> t \<le> c)
     \<and> (\<forall>n. imp_grantId i = Some n \<longrightarrow>
          (\<exists>g \<in> set gs. grant_id g = n \<and> grant_userId g = imp_userId i \<and> grant_sessionId g = imp_sessionId i
               \<and> grant_mode g = TURBO \<and> (\<exists>k. imp_clickedAt i = Some k \<and> k \<le> grant_earnedAt g)
               \<and> imp_createdAt i \<le> grant_earnedAt g \<and> grant_earnedAt g \<le> imp_createdAt i + CLICK_GRACE_MS))"

definition links_unique :: "am_impression list \<Rightarrow> bool" where
  "links_unique is \<longleftrightarrow> (\<forall>i \<in> set is. \<forall>j \<in> set is. \<forall>n.
     imp_grantId i = Some n \<longrightarrow> imp_grantId j = Some n \<longrightarrow> imp_id i = imp_id j)"

lemma links_uniqueI:
  assumes "links_unique is"
    and "\<And>i n. i \<in> set js \<Longrightarrow> imp_grantId i = Some n \<Longrightarrow>
      \<exists>i' \<in> set is. imp_grantId i' = Some n \<and> imp_id i' = imp_id i"
  shows "links_unique js"
  unfolding links_unique_def
proof (intro ballI allI impI)
  fix i j n assume "i \<in> set js" "j \<in> set js" "imp_grantId i = Some n" "imp_grantId j = Some n"
  then obtain i' j' where "i' \<in> set is" "j' \<in> set is" "imp_grantId i' = Some n" "imp_grantId j' = Some n"
    "imp_id i' = imp_id i" "imp_id j' = imp_id j"
    using assms(2) by meson
  with assms(1) show "imp_id i = imp_id j" unfolding links_unique_def by metis
qed

definition impressions_ok :: "millis \<Rightarrow> am_db \<Rightarrow> bool" where
  "impressions_ok c s \<longleftrightarrow> unique_key imp_id (am_impressions s)
     \<and> (\<forall>i \<in> set (am_impressions s). imp_id i < am_next s \<and> impression_ok c (am_grants s) i)
     \<and> links_unique (am_impressions s)"

definition am_inv :: "millis \<Rightarrow> am_db \<Rightarrow> bool" where
  "am_inv c s \<longleftrightarrow> sessions_ok s \<and> grants_ok c s \<and> daily_ok s \<and> spaced (am_grants s) \<and> cycle_ok s
     \<and> impressions_ok c s"

lemma am_invI:
  "sessions_ok s \<Longrightarrow> grants_ok c s \<Longrightarrow> daily_ok s \<Longrightarrow> spaced (am_grants s) \<Longrightarrow> cycle_ok s
   \<Longrightarrow> impressions_ok c s \<Longrightarrow> am_inv c s"
  by (simp add: am_inv_def)

lemma am_invD:
  assumes "am_inv c s"
  shows "sessions_ok s" "grants_ok c s" "daily_ok s" "spaced (am_grants s)" "cycle_ok s" "impressions_ok c s"
  using assms by (simp_all add: am_inv_def)

lemma one_active:
  assumes "sessions_ok s" and "r \<in> set (am_sessions s)" and "q \<in> set (am_sessions s)"
    and "activeOf u r" and "activeOf u q"
  shows "r = q"
  using assms count_le_1D [of "activeOf u" "am_sessions s" r q] by (auto simp: sessions_ok_def)

lemma sumDaily_eq:
  "sumDailyGrantedHash u t s =
     sum_where (\<lambda>g. grant_userId g = u \<and> startOfUtcDay (grant_earnedAt g) = startOfUtcDay t)
       grant_hashRate (am_grants s)"
proof -
  have "(\<lambda>g :: am_grant. grant_userId g = u \<and> startOfUtcDay t \<le> grant_earnedAt g \<and> grant_earnedAt g < startOfUtcDay t + 86400000)
      = (\<lambda>g. grant_userId g = u \<and> startOfUtcDay (grant_earnedAt g) = startOfUtcDay t)"
    using in_utc_day_iff [of t] by (auto simp: fun_eq_iff MS_PER_DAY_def)
  then show ?thesis by (simp only: sumDailyGrantedHash_def Let_def)
qed

lemma am_inv_later: "am_inv c s \<Longrightarrow> c \<le> c' \<Longrightarrow> am_inv c' s"
  unfolding am_inv_def grants_ok_def impressions_ok_def impression_ok_def by fastforce

lemma am_inv_empty: "am_inv c \<lparr>am_sessions = [], am_grants = [], am_impressions = [], am_banners = bs, am_next = n\<rparr>"
  by (auto simp: am_inv_def sessions_ok_def grants_ok_def daily_ok_def spaced_def cycle_ok_def
      impressions_ok_def links_unique_def sumDailyGrantedHash_def DAILY_LIMIT_HASH_def)

subsection \<open>Sessions\<close>

lemma active_deactivate:
  "count_where (activeOf v) (am_sessions (deactivateUserSessions u s)) =
     (if v = u then 0 else count_where (activeOf v) (am_sessions s))"
proof -
  have "count_where (activeOf v) (update_where (activeOf u) (\<lambda>r. r\<lparr>ses_isActive := False\<rparr>) rows) =
      (if v = u then 0 else count_where (activeOf v) rows)" for rows
  proof (induction rows)
    case (Cons r rows)
    then show ?case by (cases "activeOf u r"; cases "activeOf v r") (auto simp: activeOf_def)
  qed simp
  then show ?thesis by (simp add: deactivateUserSessions_def)
qed

lemma set_deactivate:
  assumes "r \<in> set (am_sessions (deactivateUserSessions u s))" and "activeOf v r"
  shows "r \<in> set (am_sessions s)"
  using assms by (auto simp: deactivateUserSessions_def set_update_where activeOf_def)

lemma deactivate_frame [simp]:
  "am_grants (deactivateUserSessions u s) = am_grants s"
  "am_impressions (deactivateUserSessions u s) = am_impressions s"
  "am_next (deactivateUserSessions u s) = am_next s"
  by (simp_all add: deactivateUserSessions_def)

lemma sumDaily_frame: "am_grants s = am_grants t \<Longrightarrow> sumDailyGrantedHash u x s = sumDailyGrantedHash u x t"
  by (simp add: sumDailyGrantedHash_def)

lemma am_inv_deactivate:
  assumes "am_inv c s"
  shows "am_inv c (deactivateUserSessions u s)"
proof (rule am_invI)
  show "sessions_ok (deactivateUserSessions u s)"
    using am_invD(1) [OF assms] active_deactivate [of _ u s]
    by (auto simp: sessions_ok_def deactivateUserSessions_def set_update_where)
  show "cycle_ok (deactivateUserSessions u s)"
    using am_invD(5) [OF assms] by (auto simp: cycle_ok_def dest: set_deactivate)
  show "daily_ok (deactivateUserSessions u s)"
    using am_invD(3) [OF assms] sumDaily_frame [of "deactivateUserSessions u s" s] by (simp add: daily_ok_def)
  show "grants_ok c (deactivateUserSessions u s)" using am_invD(2) [OF assms] by (simp add: grants_ok_def)
  show "spaced (am_grants (deactivateUserSessions u s))" using am_invD(4) [OF assms] by simp
  show "impressions_ok c (deactivateUserSessions u s)"
    using am_invD(6) [OF assms] unfolding impressions_ok_def by simp
qed

lemma am_inv_new_session:
  assumes inv: "am_inv c s" and "c \<le> now" and none: "count_where (activeOf u) (am_sessions s) = 0"
  shows "am_inv now (s\<lparr>am_sessions := am_sessions s @ [\<lparr>ses_id = am_next s, ses_userId = u, ses_mode = m,
      ses_nextClaimAt = now + 60000, ses_isActive = True, ses_createdAt = now\<rparr>], am_next := am_next s + 1\<rparr>)"
    (is "am_inv now ?t")
proof (rule am_invI)
  note I = am_inv_later [OF inv \<open>c \<le> now\<close>]
  show "sessions_ok ?t"
    using am_invD(1) [OF I] none by (fastforce simp: sessions_ok_def activeOf_def)
  show "grants_ok now ?t" using am_invD(2) [OF I] by (fastforce simp: grants_ok_def)
  show "daily_ok ?t" using am_invD(3) [OF I] sumDaily_frame [of ?t s] by (simp add: daily_ok_def)
  show "spaced (am_grants ?t)" using am_invD(4) [OF I] by simp
  show "cycle_ok ?t"
    using am_invD(5) [OF I] am_invD(2) [OF I] by (fastforce simp: cycle_ok_def grants_ok_def)
  show "impressions_ok now ?t" using am_invD(6) [OF I] by (fastforce simp: impressions_ok_def)
qed

lemma am_inv_startSession:
  assumes "am_inv c s" and "c \<le> now"
  shows "am_inv now (snd (startSession av u mode now s))"
  using am_inv_new_session [OF am_inv_deactivate [OF assms(1), of u] assms(2), of u]
    am_inv_later [OF assms] active_deactivate [of u u s]
  by (auto simp: startSession_def transaction_def CYCLE_SECONDS_def Let_def split: sum.splits)

lemma am_inv_stopSession: "am_inv c s \<Longrightarrow> am_inv c (snd (stopSession av u s))"
  by (simp add: stopSession_def am_inv_deactivate)

subsection \<open>The optimistic lock and the grant\<close>

text \<open>What a successful \<open>bumpAndGrant\<close> has done.\<close>

definition lockHit :: "am_session \<Rightarrow> am_session \<Rightarrow> bool" where
  "lockHit ses r \<longleftrightarrow> ses_id r = ses_id ses \<and> ses_nextClaimAt r = ses_nextClaimAt ses \<and> ses_isActive r"

definition newGrant :: "int \<Rightarrow> am_session \<Rightarrow> mining_mode \<Rightarrow> int \<Rightarrow> millis \<Rightarrow> am_db \<Rightarrow> am_grant" where
  "newGrant u ses m amount now s = \<lparr>grant_id = am_next s, grant_userId = u, grant_sessionId = ses_id ses,
     grant_hashRate = amount, grant_mode = m, grant_earnedAt = now, grant_expiresAt = now + GRANT_TTL_MS\<rparr>"

definition granted :: "int \<Rightarrow> am_session \<Rightarrow> mining_mode \<Rightarrow> int \<Rightarrow> millis \<Rightarrow> am_db \<Rightarrow> am_db" where
  "granted u ses m amount now s =
     s\<lparr>am_sessions := update_where (lockHit ses) (\<lambda>r. r\<lparr>ses_nextClaimAt := now + 60000\<rparr>) (am_sessions s),
       am_grants := am_grants s @ [newGrant u ses m amount now s], am_next := am_next s + 1\<rparr>"

lemma bumpAndGrant_eq:
  "bumpAndGrant u ses m amount now s =
     (if count_where (lockHit ses) (am_sessions s) = 1
      then (Inr (newGrant u ses m amount now s, now + 60000), granted u ses m amount now s)
      else (Inl CONCURRENT_CLAIM,
            s\<lparr>am_sessions := update_where (lockHit ses) (\<lambda>r. r\<lparr>ses_nextClaimAt := now + 60000\<rparr>) (am_sessions s)\<rparr>))"
  by (simp add: bumpAndGrant_def Let_def lockHit_def [abs_def] newGrant_def granted_def
      nextClaimAfterSuccess_def CYCLE_SECONDS_def computeExpiresAt_def)

lemma lockHit_count:
  assumes "sessions_ok s" and "ses \<in> set (am_sessions s)" and "ses_isActive ses"
  shows "count_where (lockHit ses) (am_sessions s) = 1"
proof -
  have "count_where (lockHit ses) (am_sessions s) = count_where (\<lambda>r. ses_id r = ses_id ses) (am_sessions s)"
    using assms by (intro count_where_cong) (auto simp: lockHit_def sessions_ok_def dest: unique_key_eqD)
  then show ?thesis using assms by (simp add: count_key sessions_ok_def)
qed

lemma sumDaily_granted:
  "sumDailyGrantedHash v t (granted u ses m amount now s) =
     sumDailyGrantedHash v t s + (if v = u \<and> startOfUtcDay now = startOfUtcDay t then amount else 0)"
  by (auto simp: sumDaily_eq granted_def newGrant_def)

lemma sumDaily_day:
  "startOfUtcDay t = startOfUtcDay t' \<Longrightarrow> sumDailyGrantedHash u t s = sumDailyGrantedHash u t' s"
  by (simp add: sumDaily_eq)

lemma active_granted:
  assumes "r \<in> set (am_sessions (granted u ses m amount now s))"
  shows "\<exists>q \<in> set (am_sessions s). (\<forall>v. activeOf v r = activeOf v q)
    \<and> r = (if lockHit ses q then q\<lparr>ses_nextClaimAt := now + 60000\<rparr> else q)"
  using assms by (auto simp: granted_def set_update_where activeOf_def)

lemma am_inv_granted:
  assumes inv: "am_inv c s" and "c \<le> now"
    and ses: "ses \<in> set (am_sessions s)" "activeOf u ses"
    and due: "ses_nextClaimAt ses - 5000 \<le> now"
    and cap: "sumDailyGrantedHash u now s + amount \<le> DAILY_LIMIT_HASH" "0 < amount"
  shows "am_inv now (granted u ses m amount now s)" (is "am_inv now ?t")
proof (rule am_invI)
  note I = am_invD [OF am_inv_later [OF inv \<open>c \<le> now\<close>]]
  show "sessions_ok ?t"
  proof -
    have "count_where (activeOf v) (am_sessions ?t) = count_where (activeOf v) (am_sessions s)" for v
      by (simp add: granted_def, rule count_where_update_eq) (simp add: activeOf_def)
    then show ?thesis using I(1)
      by (fastforce simp: sessions_ok_def granted_def set_update_where)
  qed
  show "grants_ok now ?t"
    using I(2) \<open>0 < amount\<close> by (fastforce simp: grants_ok_def granted_def newGrant_def)
  show "daily_ok ?t"
    unfolding daily_ok_def
  proof (intro allI)
    fix v t
    show "sumDailyGrantedHash v t ?t \<le> DAILY_LIMIT_HASH"
    proof (cases "v = u \<and> startOfUtcDay now = startOfUtcDay t")
      case True
      with cap(1) show ?thesis using sumDaily_day [of t now u s] by (simp add: sumDaily_granted)
    next
      case False
      with I(3) show ?thesis by (auto simp: daily_ok_def sumDaily_granted)
    qed
  qed
  have old: "g \<in> set (am_grants s) \<Longrightarrow> grant_userId g = u \<Longrightarrow> grant_earnedAt g + 55000 \<le> now" for g
    using I(5) ses due by (force simp: cycle_ok_def)
  show "spaced (am_grants ?t)"
    using I(4) old by (fastforce simp: spaced_def granted_def newGrant_def)
  show "cycle_ok ?t"
    unfolding cycle_ok_def
  proof (intro ballI impI)
    fix r g assume r: "r \<in> set (am_sessions ?t)" and g: "g \<in> set (am_grants ?t)" and a: "activeOf (grant_userId g) r"
    from active_granted [OF r] obtain q where q: "q \<in> set (am_sessions s)" "\<forall>v. activeOf v r = activeOf v q"
      and rq: "r = (if lockHit ses q then q\<lparr>ses_nextClaimAt := now + 60000\<rparr> else q)"
      by blast
    show "grant_earnedAt g + 60000 \<le> ses_nextClaimAt r"
    proof (cases "g \<in> set (am_grants s)")
      case True
      with I(2) have "grant_earnedAt g \<le> now" by (simp add: grants_ok_def)
      with True q a rq I(5) show ?thesis by (auto simp: cycle_ok_def)
    next
      case False
      with g have g': "grant_userId g = u" "grant_earnedAt g = now" by (auto simp: granted_def newGrant_def)
      with a q have "q = ses" using one_active [OF I(1) q(1) ses(1)] ses(2) by auto
      with rq ses(2) g' show ?thesis by (simp add: lockHit_def activeOf_def)
    qed
  qed
  show "impressions_ok now ?t"
    using I(6) by (fastforce simp: impressions_ok_def impression_ok_def granted_def)
qed

lemma activeOf_findD:
  assumes "find_first (activeOf u) (am_sessions s) = Some ses"
  shows "ses \<in> set (am_sessions s)" "activeOf u ses" "ses_isActive ses"
  using find_first_SomeD [OF assms] by (simp_all add: activeOf_def)

subsection \<open>The claims\<close>

text \<open>Every successful normal claim.\<close>

lemma claimNormal_InrD:
  assumes "claimNormal u now s = (Inr (g, n), t)"
  obtains ses where "find_first (activeOf u) (am_sessions s) = Some ses" and "ses_mode ses = NORMAL"
    and "ses_nextClaimAt ses - 5000 \<le> now" and "sumDailyGrantedHash u now s + 10 \<le> DAILY_LIMIT_HASH"
    and "g = newGrant u ses NORMAL 10 now s" and "n = now + 60000" and "t = granted u ses NORMAL 10 now s"
  using assms
  by (auto simp: claimNormal_def transaction_Inr_iff claimNormal_rest_def isClaimDue_def canGrantDaily_def
      hashRateForMode_def NORMAL_HASH_PER_CYCLE_def bumpAndGrant_eq Let_def
      split: option.splits if_splits)

lemma am_inv_claimNormal:
  assumes "am_inv c s" and "c \<le> now"
  shows "am_inv now (snd (claimNormal u now s))"
proof (cases "claimNormal u now s")
  case (Pair r t)
  show ?thesis
  proof (cases r)
    case (Inl e)
    with Pair have "t = s" by (auto simp: claimNormal_def dest: transaction_Inl)
    with Pair am_inv_later [OF assms] show ?thesis by simp
  next
    case (Inr gn)
    with Pair obtain g n where "claimNormal u now s = (Inr (g, n), t)" by (cases gn) auto
    then show ?thesis
    proof (rule claimNormal_InrD)
      fix ses
      assume f: "find_first (activeOf u) (am_sessions s) = Some ses" and "ses_nextClaimAt ses - 5000 \<le> now"
        and "sumDailyGrantedHash u now s + 10 \<le> DAILY_LIMIT_HASH" and t: "t = granted u ses NORMAL 10 now s"
      then show ?thesis
        using am_inv_granted [OF assms activeOf_findD(1,2) [OF f]] Pair by simp
    qed
  qed
qed

text \<open>Linking an impression to the grant it earned.\<close>

definition linked :: "am_impression \<Rightarrow> int \<Rightarrow> am_db \<Rightarrow> am_db" where
  "linked imp n s = s\<lparr>am_impressions := update_where (\<lambda>i. imp_id i = imp_id imp)
     (\<lambda>i. i\<lparr>imp_grantId := Some n\<rparr>) (am_impressions s)\<rparr>"

lemma set_linked:
  assumes "unique_key imp_id (am_impressions s)" and "imp \<in> set (am_impressions s)"
  shows "set (am_impressions (linked imp n s)) =
    {i \<in> set (am_impressions s). imp_id i \<noteq> imp_id imp} \<union> {imp\<lparr>imp_grantId := Some n\<rparr>}"
  using assms by (auto simp: linked_def set_update_where dest: unique_key_eqD)

lemma am_inv_linked:
  assumes inv: "am_inv c s" and imp: "imp \<in> set (am_impressions s)" "imp_clickedAt imp = Some k"
    "k \<le> grant_earnedAt g"
    and g: "g \<in> set (am_grants s)" "grant_userId g = imp_userId imp" "grant_sessionId g = imp_sessionId imp"
      "grant_mode g = TURBO"
      "imp_createdAt imp \<le> grant_earnedAt g" "grant_earnedAt g \<le> imp_createdAt imp + CLICK_GRACE_MS"
    and fresh: "\<And>i. i \<in> set (am_impressions s) \<Longrightarrow> imp_grantId i \<noteq> Some (grant_id g)"
  shows "am_inv c (linked imp (grant_id g) s)" (is "am_inv c ?t")
proof (rule am_invI)
  note I = am_invD [OF inv]
  have frame: "am_sessions ?t = am_sessions s" "am_grants ?t = am_grants s" "am_next ?t = am_next s"
    by (simp_all add: linked_def)
  show "sessions_ok ?t" "grants_ok c ?t" "spaced (am_grants ?t)" "cycle_ok ?t"
    using I(1,2,4,5) by (simp_all add: sessions_ok_def grants_ok_def cycle_ok_def frame)
  show "daily_ok ?t" using I(3) sumDaily_frame [of ?t s] by (simp add: daily_ok_def frame)
  have u: "unique_key imp_id (am_impressions s)" using I(6) by (simp add: impressions_ok_def)
  have set: "set (am_impressions ?t) =
      {i \<in> set (am_impressions s). imp_id i \<noteq> imp_id imp} \<union> {imp\<lparr>imp_grantId := Some (grant_id g)\<rparr>}"
    by (rule set_linked [OF u imp(1)])
  have "impression_ok c (am_grants s) (imp\<lparr>imp_grantId := Some (grant_id g)\<rparr>)"
    using I(6) imp g by (auto simp: impressions_ok_def impression_ok_def)
  moreover have "links_unique (am_impressions ?t)"
    using I(6) fresh unfolding impressions_ok_def links_unique_def set by auto
  moreover have "unique_key imp_id (am_impressions ?t)" using u by (simp add: linked_def)
  ultimately show "impressions_ok c ?t"
    using I(6) imp(1) unfolding impressions_ok_def set frame by auto
qed

lemma claimTurbo_InrD:
  assumes "claimTurbo av u iid now s = (Inr (g, n), t)"
  obtains ses imp where "find_first (activeOf u) (am_sessions s) = Some ses" and "ses_mode ses = TURBO"
    and "imp \<in> set (am_impressions s)" and "imp_id imp = iid" and "imp_userId imp = u"
    and "imp_sessionId imp = ses_id ses"
    and "validateImpressionForTurboClaim imp now = None"
    and "ses_nextClaimAt ses - 5000 \<le> now" and "sumDailyGrantedHash u now s + 20 \<le> DAILY_LIMIT_HASH"
    and "g = newGrant u ses TURBO 20 now s" and "n = now + 60000"
    and "t = linked imp (grant_id g) (granted u ses TURBO 20 now s)"
  using assms
  by (auto simp: claimTurbo_def transaction_Inr_iff claimTurbo_rest_def isClaimDue_def canGrantDaily_def
      hashRateForMode_def TURBO_HASH_PER_CYCLE_def bumpAndGrant_eq Let_def linked_def
      split: option.splits if_splits dest: find_first_SomeD)

lemma claimTurbo_Inl: "claimTurbo av u iid now s = (Inl e, t) \<Longrightarrow> t = s"
  by (auto simp: claimTurbo_def split: if_splits dest: transaction_Inl)

lemma am_inv_claimTurbo:
  assumes inv: "am_inv c s" and le: "c \<le> now"
  shows "am_inv now (snd (claimTurbo av u iid now s))"
proof (cases "claimTurbo av u iid now s")
  case (Pair r t)
  show ?thesis
  proof (cases r)
    case (Inl e)
    with Pair claimTurbo_Inl have "t = s" by simp
    with Pair am_inv_later [OF inv le] show ?thesis by simp
  next
    case (Inr gn)
    with Pair obtain g n where "claimTurbo av u iid now s = (Inr (g, n), t)" by (cases gn) auto
    then show ?thesis
    proof (rule claimTurbo_InrD)
      fix ses imp
      assume f: "find_first (activeOf u) (am_sessions s) = Some ses" and due: "ses_nextClaimAt ses - 5000 \<le> now"
        and cap: "sumDailyGrantedHash u now s + 20 \<le> DAILY_LIMIT_HASH"
        and imp: "imp \<in> set (am_impressions s)" "imp_userId imp = u" "imp_sessionId imp = ses_id ses"
        and v: "validateImpressionForTurboClaim imp now = None"
        and g: "g = newGrant u ses TURBO 20 now s"
        and t: "t = linked imp (grant_id g) (granted u ses TURBO 20 now s)"
      let ?s1 = "granted u ses TURBO 20 now s"
      have I1: "am_inv now ?s1"
        using am_inv_granted [OF inv le activeOf_findD(1,2) [OF f] due cap] by simp
      from v obtain k where k: "imp_clickedAt imp = Some k" by (auto simp: validateImpression_None_iff)
      have "imp_createdAt imp \<le> now" and "k \<le> now"
        using am_invD(6) [OF inv] imp(1) k le by (force simp: impressions_ok_def impression_ok_def)+
      moreover have "\<And>i. i \<in> set (am_impressions s) \<Longrightarrow> imp_grantId i \<noteq> Some (am_next s)"
        using am_invD(2,6) [OF inv] by (fastforce simp: impressions_ok_def impression_ok_def grants_ok_def)
      ultimately have "am_inv now (linked imp (grant_id g) ?s1)"
        using imp v unfolding g
        using k by (intro am_inv_linked [OF I1 _ k]) (auto simp: granted_def newGrant_def validateImpression_None_iff)
      with Pair t show ?thesis by simp
    qed
  qed
qed

subsection \<open>Impressions\<close>

lemma getOrCreate_cases:
  assumes "getOrCreateBannerImpression av fb ch u now s = (r, t)"
  shows "t = s \<or> (\<exists>ses picked. t = s\<lparr>am_impressions := am_impressions s @
     [newImpression u ses picked now (am_next s)], am_next := am_next s + 1\<rparr>)"
  using assms
  by (auto simp: getOrCreateBannerImpression_def transaction_def Let_def split: if_splits option.splits)

lemma am_inv_new_impression:
  assumes inv: "am_inv c s" and "imp_id row = am_next s" "imp_createdAt row \<le> c" "imp_clickedAt row = None"
    "imp_grantId row = None"
  shows "am_inv c (s\<lparr>am_impressions := am_impressions s @ [row], am_next := am_next s + 1\<rparr>)" (is "am_inv c ?t")
proof (rule am_invI)
  note I = am_invD [OF inv]
  show "sessions_ok ?t" using I(1) by (fastforce simp: sessions_ok_def)
  show "grants_ok c ?t" using I(2) by (fastforce simp: grants_ok_def)
  show "daily_ok ?t" using I(3) sumDaily_frame [of ?t s] by (simp add: daily_ok_def)
  show "spaced (am_grants ?t)" "cycle_ok ?t" using I(4,5) by (simp_all add: cycle_ok_def)
  show "impressions_ok c ?t"
  proof -
    have "links_unique (am_impressions s @ [row])"
      by (rule links_uniqueI [of "am_impressions s"])
        (use I(6) assms(5) in \<open>auto simp: impressions_ok_def\<close>)
    moreover have "impression_ok c (am_grants s) row"
      using assms(3-5) by (simp add: impression_ok_def)
    ultimately show ?thesis
      using I(6) assms(2) by (force simp: impressions_ok_def)
  qed
qed

lemma am_inv_getOrCreate:
  assumes "am_inv c s" and "c \<le> now"
  shows "am_inv now (snd (getOrCreateBannerImpression av fb ch u now s))"
proof (cases "getOrCreateBannerImpression av fb ch u now s")
  case (Pair r t)
  have "am_inv now (s\<lparr>am_impressions := am_impressions s @ [newImpression u ses picked now (am_next s)],
      am_next := am_next s + 1\<rparr>)" for ses picked
    by (rule am_inv_new_impression [OF am_inv_later [OF assms]]) (simp_all add: newImpression_def)
  with getOrCreate_cases [OF Pair] Pair am_inv_later [OF assms] show ?thesis by auto
qed

lemma registerBannerClick_cases:
  assumes "registerBannerClick av u iid now s = (r, t)"
  shows "t = s \<or> (\<exists>imp. imp \<in> set (am_impressions s) \<and> imp_grantId imp = None \<and> imp_clickedAt imp = None
     \<and> MIN_CLICK_DELAY_MS \<le> now - imp_createdAt imp \<and> now - imp_createdAt imp \<le> CLICK_GRACE_MS
     \<and> t = s\<lparr>am_impressions := update_where (\<lambda>i. imp_id i = imp_id imp)
            (\<lambda>i. i\<lparr>imp_clickedAt := Some now\<rparr>) (am_impressions s)\<rparr>)"
  using assms
  by (auto simp: registerBannerClick_def transaction_def not_less Let_def
      split: if_splits option.splits dest!: find_first_Some_conj)

lemma am_inv_click:
  assumes inv: "am_inv c s" and imp: "imp \<in> set (am_impressions s)" "imp_grantId imp = None"
    "MIN_CLICK_DELAY_MS \<le> now - imp_createdAt imp" "now - imp_createdAt imp \<le> CLICK_GRACE_MS" "now \<le> c"
  shows "am_inv c (s\<lparr>am_impressions := update_where (\<lambda>i. imp_id i = imp_id imp)
            (\<lambda>i. i\<lparr>imp_clickedAt := Some now\<rparr>) (am_impressions s)\<rparr>)" (is "am_inv c ?t")
proof (rule am_invI)
  note I = am_invD [OF inv]
  show "sessions_ok ?t" "grants_ok c ?t" "spaced (am_grants ?t)" "cycle_ok ?t"
    using I(1,2,4,5) by (simp_all add: sessions_ok_def grants_ok_def cycle_ok_def)
  show "daily_ok ?t" using I(3) sumDaily_frame [of ?t s] by (simp add: daily_ok_def)
  have u: "unique_key imp_id (am_impressions s)" using I(6) by (simp add: impressions_ok_def)
  have set: "set (am_impressions ?t) =
      {i \<in> set (am_impressions s). imp_id i \<noteq> imp_id imp} \<union> {imp\<lparr>imp_clickedAt := Some now\<rparr>}"
    using u imp(1) by (auto simp: set_update_where dest: unique_key_eqD)
  have "impression_ok c (am_grants s) (imp\<lparr>imp_clickedAt := Some now\<rparr>)"
    using I(6) imp by (auto simp: impressions_ok_def impression_ok_def)
  moreover have "links_unique (am_impressions ?t)"
    using I(6) imp(2) unfolding impressions_ok_def links_unique_def set by auto
  moreover have "unique_key imp_id (am_impressions ?t)" using u by simp
  ultimately show "impressions_ok c ?t"
    using I(6) imp(1) unfolding impressions_ok_def set by auto
qed

lemma am_inv_registerBannerClick:
  assumes "am_inv c s" and "c \<le> now"
  shows "am_inv now (snd (registerBannerClick av u iid now s))"
proof (cases "registerBannerClick av u iid now s")
  case (Pair r t)
  with registerBannerClick_cases [OF Pair] am_inv_click [OF am_inv_later [OF assms]] am_inv_later [OF assms]
  show ?thesis by auto
qed

subsection \<open>Cleanup\<close>

lemma am_inv_cleanupImpressions:
  assumes "am_inv c s"
  shows "am_inv c (snd (cleanupStaleAutoMiningV2Impressions av now s))"
proof -
  have "am_inv c (s\<lparr>am_impressions := delete_where P (am_impressions s)\<rparr>)" for P
    using assms
    by (auto simp: am_inv_def sessions_ok_def grants_ok_def daily_ok_def cycle_ok_def impressions_ok_def
        links_unique_def unique_key_delete sumDailyGrantedHash_def)
  with assms show ?thesis by (simp add: cleanupStaleAutoMiningV2Impressions_def Let_def)
qed

lemma am_inv_cleanupGrants:
  assumes inv: "am_inv c s"
  shows "am_inv c (cleanupExpiredGrants av now s)"
proof (cases av)
  case False
  with inv show ?thesis by (simp add: cleanupExpiredGrants_def)
next
  case True
  let ?t = "cleanupExpiredGrants av now s"
  let ?dead = "\<lambda>g :: am_grant. grant_expiresAt g < now"
  let ?hit = "\<lambda>i :: am_impression. case imp_grantId i of None \<Rightarrow> False
      | Some g \<Rightarrow> g \<in> set (map grant_id (filter ?dead (am_grants s)))"
  note I = am_invD [OF inv]
  have t: "am_sessions ?t = am_sessions s" "am_next ?t = am_next s"
    "am_grants ?t = delete_where ?dead (am_grants s)"
    "am_impressions ?t = update_where ?hit (\<lambda>i. i\<lparr>imp_grantId := None\<rparr>) (am_impressions s)"
    using True by (simp_all add: cleanupExpiredGrants_def Let_def)
  show ?thesis
  proof (rule am_invI)
    show "sessions_ok ?t" using I(1) by (simp add: sessions_ok_def t)
    show "grants_ok c ?t" using I(2) by (simp add: grants_ok_def t unique_key_delete)
    show "spaced (am_grants ?t)" "cycle_ok ?t" using I(4,5) by (simp_all add: spaced_def cycle_ok_def t)
    have "sumDailyGrantedHash u x ?t \<le> sumDailyGrantedHash u x s" for u x
      unfolding sumDailyGrantedHash_def Let_def t
      using I(2) by (intro sum_where_delete_le) (auto simp: grants_ok_def intro: less_imp_le)
    with I(3) show "daily_ok ?t" unfolding daily_ok_def by (meson order_trans)
    define f :: "am_impression \<Rightarrow> am_impression" where "f = (\<lambda>i. if ?hit i then i\<lparr>imp_grantId := None\<rparr> else i)"
    have "impression_ok c (am_grants ?t) (f i)" if "i \<in> set (am_impressions s)" for i
      using I(6) that unfolding f_def by (fastforce simp: impressions_ok_def impression_ok_def t split: option.splits)
    moreover have "unique_key imp_id (am_impressions ?t)"
      using I(6) by (simp add: t impressions_ok_def)
    moreover have "links_unique (am_impressions ?t)"
      by (rule links_uniqueI [of "am_impressions s"])
        (use I(6) in \<open>auto simp: impressions_ok_def t set_update_where\<close>)
    moreover have "set (am_impressions ?t) = f ` set (am_impressions s)"
      by (simp add: t update_where_def f_def)
    moreover have "imp_id (f i) = imp_id i" for i
      by (simp add: f_def)
    ultimately show "impressions_ok c ?t"
      using I(6) by (simp add: impressions_ok_def t(2))
  qed
qed

subsection \<open>Every turbo grant has its impression\<close>

text \<open>
  The other direction of the link: no turbo grant is held without an impression that carries its
  id.  The invariant \<open>am_inv\<close> speaks of the impressions that have a link; this one is about the
  grants, and holds because \<open>claimTurbo\<close> writes the link in the transaction that creates the grant.
\<close>

definition turbo_linked :: "am_db \<Rightarrow> bool" where
  "turbo_linked s \<longleftrightarrow> (\<forall>g \<in> set (am_grants s). grant_mode g = TURBO \<longrightarrow>
     (\<exists>i \<in> set (am_impressions s). imp_grantId i = Some (grant_id g)))"

text \<open>Kept by every step that creates no turbo grant and leaves the links of the impressions alone.\<close>

lemma turbo_linked_frame:
  assumes "turbo_linked s" and "\<And>g. g \<in> set (am_grants t) \<Longrightarrow> grant_mode g = TURBO \<Longrightarrow> g \<in> set (am_grants s)"
    and "\<And>i n. i \<in> set (am_impressions s) \<Longrightarrow> imp_grantId i = Some n
      \<Longrightarrow> \<exists>j \<in> set (am_impressions t). imp_grantId j = Some n"
  shows "turbo_linked t"
  using assms unfolding turbo_linked_def by meson

lemma turbo_linked_sessions:
  assumes "turbo_linked s" and "am_grants t = am_grants s" and "am_impressions t = am_impressions s"
  shows "turbo_linked t"
  using assms by (simp add: turbo_linked_def)

lemma turbo_linked_startSession:
  assumes "turbo_linked s"
  shows "turbo_linked (snd (startSession av u mode now s))"
  by (rule turbo_linked_sessions [OF assms])
    (auto simp: startSession_def transaction_def Let_def split: sum.splits)

lemma turbo_linked_stopSession: "turbo_linked s \<Longrightarrow> turbo_linked (snd (stopSession av u s))"
  by (auto simp: stopSession_def intro: turbo_linked_sessions [of s])

lemma turbo_linked_claimNormal:
  assumes "turbo_linked s"
  shows "turbo_linked (snd (claimNormal u now s))"
proof (cases "claimNormal u now s")
  case (Pair r t)
  show ?thesis
  proof (cases r)
    case (Inl e)
    with Pair assms show ?thesis by (auto simp: claimNormal_def dest: transaction_Inl)
  next
    case (Inr gn)
    with Pair obtain g n where "claimNormal u now s = (Inr (g, n), t)" by (cases gn) auto
    then obtain ses where "t = granted u ses NORMAL 10 now s" by (rule claimNormal_InrD)
    then have "turbo_linked t"
      by (auto intro!: turbo_linked_frame [OF assms] simp: granted_def newGrant_def)
    with Pair show ?thesis by simp
  qed
qed

lemma turbo_linked_claimTurbo:
  assumes "turbo_linked s" and inv: "am_inv c s"
  shows "turbo_linked (snd (claimTurbo av u iid now s))"
proof (cases "claimTurbo av u iid now s")
  case (Pair r t)
  show ?thesis
  proof (cases r)
    case (Inl e)
    with Pair assms show ?thesis by (auto dest: claimTurbo_Inl)
  next
    case (Inr gn)
    with Pair obtain g n where "claimTurbo av u iid now s = (Inr (g, n), t)" by (cases gn) auto
    then obtain ses imp where imp: "imp \<in> set (am_impressions s)"
      and v: "validateImpressionForTurboClaim imp now = None" and g: "g = newGrant u ses TURBO 20 now s"
      and t: "t = linked imp (grant_id g) (granted u ses TURBO 20 now s)"
      by (rule claimTurbo_InrD)
    have grants: "am_grants t = am_grants s @ [g]" by (simp add: t g linked_def granted_def)
    have u: "unique_key imp_id (am_impressions s)" using am_invD(6) [OF inv] by (simp add: impressions_ok_def)
    have links: "set (am_impressions t) =
        {i \<in> set (am_impressions s). imp_id i \<noteq> imp_id imp} \<union> {imp\<lparr>imp_grantId := Some (grant_id g)\<rparr>}"
      using set_linked [of "granted u ses TURBO 20 now s" imp] u imp by (simp add: t granted_def)
    have "\<exists>j \<in> set (am_impressions t). imp_grantId j = Some m"
      if "i \<in> set (am_impressions s)" "imp_grantId i = Some m" for i m
    proof -
      have "imp_grantId imp = None" using v by (auto simp: validateImpression_None_iff)
      with that imp have "imp_id i \<noteq> imp_id imp" using unique_key_eqD [OF u, of i imp] by auto
      with that show ?thesis unfolding links by blast
    qed
    moreover have "\<exists>j \<in> set (am_impressions t). imp_grantId j = Some (grant_id g)" unfolding links by simp
    ultimately have "turbo_linked t"
      using assms(1) unfolding turbo_linked_def grants by (metis UnE empty_iff empty_set list.set(2) insertE set_append)
    with Pair show ?thesis by simp
  qed
qed

lemma turbo_linked_getOrCreate:
  assumes "turbo_linked s"
  shows "turbo_linked (snd (getOrCreateBannerImpression av fb ch u now s))"
proof (cases "getOrCreateBannerImpression av fb ch u now s")
  case (Pair r t)
  have "turbo_linked (s\<lparr>am_impressions := am_impressions s @ [row], am_next := n\<rparr>)" for row n
    by (rule turbo_linked_frame [OF assms]) auto
  with getOrCreate_cases [OF Pair] Pair assms show ?thesis by auto
qed

lemma turbo_linked_registerBannerClick:
  assumes "turbo_linked s"
  shows "turbo_linked (snd (registerBannerClick av u iid now s))"
proof (cases "registerBannerClick av u iid now s")
  case (Pair r t)
  have "turbo_linked (s\<lparr>am_impressions := update_where P (\<lambda>i. i\<lparr>imp_clickedAt := k\<rparr>) (am_impressions s)\<rparr>)" for P k
    by (rule turbo_linked_frame [OF assms])
      (auto simp: update_where_def intro: bexI [where x = "if P i then i\<lparr>imp_clickedAt := k\<rparr> else i" for i] split: if_splits)
  with registerBannerClick_cases [OF Pair] Pair assms show ?thesis by auto
qed

lemma turbo_linked_cleanupImpressions:
  assumes "turbo_linked s"
  shows "turbo_linked (snd (cleanupStaleAutoMiningV2Impressions av now s))"
  by (rule turbo_linked_frame [OF assms])
    (auto simp: cleanupStaleAutoMiningV2Impressions_def Let_def split: if_splits)

lemma turbo_linked_cleanupGrants:
  assumes "turbo_linked s" and inv: "am_inv c s"
  shows "turbo_linked (cleanupExpiredGrants av now s)"
  unfolding turbo_linked_def
proof (intro ballI impI)
  fix g assume g: "g \<in> set (am_grants (cleanupExpiredGrants av now s))" "grant_mode g = TURBO"
  then have gs: "g \<in> set (am_grants s)" and live: "av \<Longrightarrow> \<not> grant_expiresAt g < now"
    by (auto simp: cleanupExpiredGrants_def Let_def split: if_splits)
  with assms(1) g(2) obtain i where i: "i \<in> set (am_impressions s)" "imp_grantId i = Some (grant_id g)"
    unfolding turbo_linked_def by blast
  have "d = g" if "d \<in> set (am_grants s)" "grant_id d = grant_id g" for d
    using am_invD(2) [OF inv] gs that by (auto simp: grants_ok_def dest: unique_key_eqD)
  then have "i \<in> set (am_impressions (cleanupExpiredGrants av now s))"
    using i live by (force simp: cleanupExpiredGrants_def Let_def set_update_where)
  with i(2) show "\<exists>i \<in> set (am_impressions (cleanupExpiredGrants av now s)). imp_grantId i = Some (grant_id g)"
    by blast
qed

subsection \<open>The feature as a state machine\<close>

type_synonym am_state = "millis \<times> am_db"

inductive am_init :: "am_state \<Rightarrow> bool" where
  "am_init (c, \<lparr>am_sessions = [], am_grants = [], am_impressions = [], am_banners = bs, am_next = n\<rparr>)"

inductive am_step :: "am_state \<Rightarrow> am_state \<Rightarrow> bool" where
  start: "c \<le> now \<Longrightarrow> am_step (c, s) (now, snd (startSession av u mode now s))"
| stop: "c \<le> now \<Longrightarrow> am_step (c, s) (now, snd (stopSession av u s))"
| normal: "c \<le> now \<Longrightarrow> am_step (c, s) (now, snd (claimNormal u now s))"
| banner: "c \<le> now \<Longrightarrow> am_step (c, s) (now, snd (getOrCreateBannerImpression av fb ch u now s))"
| click: "c \<le> now \<Longrightarrow> am_step (c, s) (now, snd (registerBannerClick av u iid now s))"
| turbo: "c \<le> now \<Longrightarrow> am_step (c, s) (now, snd (claimTurbo av u iid now s))"
| clean_impressions: "c \<le> now \<Longrightarrow> am_step (c, s) (now, snd (cleanupStaleAutoMiningV2Impressions av now s))"
| clean_grants: "c \<le> now \<Longrightarrow> am_step (c, s) (now, cleanupExpiredGrants av now s)"

definition am_ok :: "am_state \<Rightarrow> bool" where
  "am_ok x \<longleftrightarrow> am_inv (fst x) (snd x) \<and> turbo_linked (snd x)"

lemma am_step_inv: "am_step x y \<Longrightarrow> am_inv (fst x) (snd x) \<Longrightarrow> am_inv (fst y) (snd y)"
  by (induction rule: am_step.induct)
    (auto intro: am_inv_startSession am_inv_stopSession am_inv_claimNormal am_inv_getOrCreate
      am_inv_registerBannerClick am_inv_claimTurbo am_inv_cleanupImpressions am_inv_cleanupGrants am_inv_later)

lemma am_step_linked: "am_step x y \<Longrightarrow> am_ok x \<Longrightarrow> turbo_linked (snd y)"
  by (induction rule: am_step.induct)
    (auto simp: am_ok_def intro: turbo_linked_startSession turbo_linked_stopSession turbo_linked_claimNormal
      turbo_linked_getOrCreate turbo_linked_registerBannerClick turbo_linked_claimTurbo
      turbo_linked_cleanupImpressions turbo_linked_cleanupGrants)

interpretation am: machine am_init am_step am_ok
proof unfold_locales
  show "am_ok x" if "am_init x" for x
    using that by cases (simp add: am_ok_def am_inv_empty turbo_linked_def)
  show "am_ok y" if "am_ok x" "am_step x y" for x y
    using am_step_inv [OF that(2)] am_step_linked [OF that(2,1)] that(1) by (simp add: am_ok_def)
qed

lemma am_reaches: "reaches am_init am_step (c, s) \<Longrightarrow> am_inv c s"
  using am.reaches_inv [of "(c, s)"] by (simp add: am_ok_def)

lemma am_reaches_linked: "reaches am_init am_step (c, s) \<Longrightarrow> turbo_linked s"
  using am.reaches_inv [of "(c, s)"] by (simp add: am_ok_def)

end
