(* ===== verification/AutoMiningProps.thy ===== *)
theory AutoMiningProps
  imports AutoMiningProofs
begin

section \<open>Auto Mining v2: properties\<close>

text \<open>
  The guarantees of \<open>docs/AUTO_MINING_V2.md\<close> (daily cap, server-side cycle, one grant per
  impression, optimistic lock), each over every reachable state of the feature, with a concrete run
  as a witness.
\<close>

definition am_empty :: am_db where
  "am_empty = \<lparr>am_sessions = [], am_grants = [], am_impressions = [], am_banners = [], am_next = 1\<rparr>"

text \<open>A normal session of user 7 and its first two claims; a turbo session of user 9.\<close>

definition demo_start :: am_db where "demo_start = snd (startSession True 7 ''NORMAL'' 0 am_empty)"
definition demo_one :: am_db where "demo_one = snd (claimNormal 7 60000 demo_start)"
definition demo_two :: am_db where "demo_two = snd (claimNormal 7 120000 demo_one)"
definition turbo_start :: am_db where "turbo_start = snd (startSession True 9 ''TURBO'' 0 am_empty)"
definition turbo_banner :: am_db where
  "turbo_banner = snd (getOrCreateBannerImpression True None 0 9 60000 turbo_start)"
definition turbo_click :: am_db where "turbo_click = snd (registerBannerClick True 9 2 61000 turbo_banner)"
definition turbo_done :: am_db where "turbo_done = snd (claimTurbo True 9 2 62000 turbo_click)"

lemma am_demo_reaches:
  "reaches am_init am_step (0, am_empty)" "reaches am_init am_step (0, demo_start)"
  "reaches am_init am_step (60000, demo_one)" "reaches am_init am_step (120000, demo_two)"
proof -
  show 0: "reaches am_init am_step (0, am_empty)"
    unfolding am_empty_def by (rule reaches.start) (rule am_init.intros)
  show 1: "reaches am_init am_step (0, demo_start)"
    unfolding demo_start_def by (rule reaches.move [OF 0], rule am_step.start) simp
  show 2: "reaches am_init am_step (60000, demo_one)"
    unfolding demo_one_def by (rule reaches.move [OF 1], rule am_step.normal) simp
  show "reaches am_init am_step (120000, demo_two)"
    unfolding demo_two_def by (rule reaches.move [OF 2], rule am_step.normal) simp
qed

lemma turbo_reaches:
  "reaches am_init am_step (60000, turbo_banner)" "reaches am_init am_step (61000, turbo_click)"
  "reaches am_init am_step (62000, turbo_done)"
proof -
  have 1: "reaches am_init am_step (0, turbo_start)"
    unfolding turbo_start_def by (rule reaches.move [OF am_demo_reaches(1)], rule am_step.start) simp
  show 2: "reaches am_init am_step (60000, turbo_banner)"
    unfolding turbo_banner_def by (rule reaches.move [OF 1], rule am_step.banner) simp
  show 3: "reaches am_init am_step (61000, turbo_click)"
    unfolding turbo_click_def by (rule reaches.move [OF 2], rule am_step.click) simp
  show "reaches am_init am_step (62000, turbo_done)"
    unfolding turbo_done_def by (rule reaches.move [OF 3], rule am_step.turbo) simp
qed

lemma demo_two_grants:
  "am_grants demo_two =
    [\<lparr>grant_id = 2, grant_userId = 7, grant_sessionId = 1, grant_hashRate = 10, grant_mode = NORMAL,
      grant_earnedAt = 60000, grant_expiresAt = 86460000\<rparr>,
     \<lparr>grant_id = 3, grant_userId = 7, grant_sessionId = 1, grant_hashRate = 10, grant_mode = NORMAL,
      grant_earnedAt = 120000, grant_expiresAt = 86520000\<rparr>]"
  by code_simp

subsection \<open>Lemmas the properties share\<close>

lemma find_active_deactivate:
  "v \<noteq> u \<Longrightarrow> find_first (activeOf v) (am_sessions (deactivateUserSessions u s)) = find_first (activeOf v) (am_sessions s)"
proof -
  assume "v \<noteq> u"
  then have "find_first (activeOf v) (update_where (activeOf u) (\<lambda>r. r\<lparr>ses_isActive := False\<rparr>) rows)
      = find_first (activeOf v) rows" for rows
  proof (induction rows)
    case (Cons r rows)
    then show ?case by (cases "activeOf u r"; cases "activeOf v r") (auto simp: activeOf_def)
  qed simp
  then show ?thesis by (simp add: deactivateUserSessions_def)
qed

lemma startSession_InrD:
  assumes "startSession av u mode now s = (Inr row, t)"
  shows "av \<and> ses_userId row = u \<and> ses_isActive row \<and> ses_nextClaimAt row = now + 60000
     \<and> mode = (if ses_mode row = NORMAL then ''NORMAL'' else ''TURBO'')
     \<and> am_sessions t = am_sessions (deactivateUserSessions u s) @ [row] \<and> am_grants t = am_grants s"
  using assms
  by (auto simp: startSession_def transaction_def assertValidMiningMode_def CYCLE_SECONDS_def Let_def
      split: sum.splits if_splits)

lemma lock_lost:
  assumes "ses_nextClaimAt ses - 5000 \<le> now" and "bumpAndGrant u ses m a now s = (Inr x, t)"
  shows "count_where (lockHit ses) (am_sessions t) = 0"
proof -
  have "t = granted u ses m a now s" using assms(2) by (auto simp: bumpAndGrant_eq split: if_splits)
  then show ?thesis
    using assms(1) by (auto simp: granted_def count_where_0_iff set_update_where lockHit_def)
qed

lemma bump_without_lock:
  "count_where (lockHit ses) (am_sessions s) = 0 \<Longrightarrow> fst (bumpAndGrant u ses m a now s) = Inl CONCURRENT_CLAIM"
  by (simp add: bumpAndGrant_eq)

subsection \<open>The properties\<close>

text \<open>
  C1: in every reachable state no user has been granted more than 1000 H/s on any UTC calendar day,
  whatever sessions, modes, claims and cleanups happened.\<close>

theorem daily_cap:
  assumes "reaches am_init am_step (c, s)"
  shows "sumDailyGrantedHash u t s \<le> DAILY_LIMIT_HASH"
  using am_invD(3) [OF am_reaches [OF assms]] by (simp add: daily_ok_def)

theorem daily_cap_witness:
  "sumDailyGrantedHash 7 150000 demo_two = 20 \<and> sumDailyGrantedHash 7 150000 demo_two \<le> DAILY_LIMIT_HASH"
proof
  show "sumDailyGrantedHash 7 150000 demo_two = 20" by code_simp
  show "sumDailyGrantedHash 7 150000 demo_two \<le> DAILY_LIMIT_HASH" by (rule daily_cap [OF am_demo_reaches(4)])
qed

text \<open>
  C2: any two power grants a user still holds were earned at least 55 seconds apart (the 60-second
  cycle less the 5-second skew), also across restarted sessions and changes of mode.\<close>

theorem claims_spaced:
  assumes "reaches am_init am_step (c, s)" and "g \<in> set (am_grants s)" and "h \<in> set (am_grants s)"
    and "grant_userId g = grant_userId h" and "g \<noteq> h"
  shows "55000 \<le> \<bar>grant_earnedAt g - grant_earnedAt h\<bar>"
proof -
  note I = am_invD [OF am_reaches [OF assms(1)]]
  have "grant_id g \<noteq> grant_id h" using I(2) assms(2,3,5) by (auto simp: grants_ok_def dest: unique_key_eqD)
  with I(4) assms show ?thesis by (auto simp: spaced_def)
qed

theorem claims_spaced_witness:
  "am_grants demo_two ! 0 \<noteq> am_grants demo_two ! 1
   \<and> 55000 \<le> \<bar>grant_earnedAt (am_grants demo_two ! 0) - grant_earnedAt (am_grants demo_two ! 1)\<bar>"
proof -
  let ?g = "am_grants demo_two ! 0" let ?h = "am_grants demo_two ! 1"
  have m: "?g \<in> set (am_grants demo_two)" "?h \<in> set (am_grants demo_two)" "grant_userId ?g = grant_userId ?h"
    "?g \<noteq> ?h" by (simp_all add: demo_two_grants)
  with claims_spaced [OF am_demo_reaches(4) m] show ?thesis by blast
qed

text \<open>Starting a session leaves the user with exactly that one active session, first claimable 60
  seconds later, and does not touch anyone else's session.\<close>

theorem start_session_single:
  assumes "reaches am_init am_step (c, s)" and "startSession av u mode now s = (Inr row, t)"
  shows "getActiveSession u t = Some row \<and> ses_nextClaimAt row = now + 60000
     \<and> count_where (activeOf u) (am_sessions t) = 1
     \<and> (\<forall>v. v \<noteq> u \<longrightarrow> getActiveSession v t = getActiveSession v s)"
proof -
  note R = startSession_InrD [OF assms(2)]
  have none: "count_where (activeOf u) (am_sessions (deactivateUserSessions u s)) = 0"
    by (simp add: active_deactivate)
  then have "find_first (activeOf u) (am_sessions (deactivateUserSessions u s)) = None"
    by (simp add: count_where_0_iff find_first_None_iff)
  then show ?thesis
    using R none
    by (auto simp: getActiveSession_def find_first_append find_active_deactivate activeOf_def split: option.splits)
qed

theorem start_session_single_witness:
  "getActiveSession 7 (snd (startSession True 7 ''TURBO'' 130000 demo_two)) \<noteq> None
   \<and> count_where (activeOf 7) (am_sessions (snd (startSession True 7 ''TURBO'' 130000 demo_two))) = 1"
proof -
  have "isl (fst (startSession True 7 ''TURBO'' 130000 demo_two)) = False" by code_simp
  then obtain row t where r: "startSession True 7 ''TURBO'' 130000 demo_two = (Inr row, t)"
    by (cases "startSession True 7 ''TURBO'' 130000 demo_two"; cases "fst (startSession True 7 ''TURBO'' 130000 demo_two)") auto
  from start_session_single [OF am_demo_reaches(4) r] r show ?thesis by simp
qed

lemma linked_impression:
  assumes "reaches am_init am_step (c, s)" and "i \<in> set (am_impressions s)" and "imp_grantId i = Some n"
  obtains g k where "g \<in> set (am_grants s)" "grant_id g = n" "grant_userId g = imp_userId i"
    "grant_sessionId g = imp_sessionId i" "grant_mode g = TURBO" "imp_clickedAt i = Some k"
    "400 \<le> k - imp_createdAt i" "k \<le> grant_earnedAt g" "grant_earnedAt g \<le> imp_createdAt i + 180000"
proof -
  have ok: "impression_ok c (am_grants s) i"
    using am_invD(6) [OF am_reaches [OF assms(1)]] assms(2) by (simp add: impressions_ok_def)
  then obtain g k where "g \<in> set (am_grants s)" "grant_id g = n" "grant_userId g = imp_userId i"
    "grant_sessionId g = imp_sessionId i" "grant_mode g = TURBO" and k: "imp_clickedAt i = Some k"
    "k \<le> grant_earnedAt g" "grant_earnedAt g \<le> imp_createdAt i + 180000"
    using assms(3) by (auto simp: impression_ok_def CLICK_GRACE_MS_def)
  moreover have "400 \<le> k - imp_createdAt i" using ok k(1) by (simp add: impression_ok_def MIN_CLICK_DELAY_MS_def)
  ultimately show ?thesis using that by blast
qed

text \<open>
  C3: every turbo grant held in a reachable state was earned by exactly one banner impression, one of
  the same user and of the session the grant belongs to: that impression carries the grant's id, was
  clicked no earlier than 400 ms after it was shown and no later than the claim, the claim came at most
  three minutes after the impression was shown, and no other impression carries the grant's id.  As an
  impression carries at most one grant id, one click never earns two grants.\<close>

theorem turbo_grant_provenance:
  assumes "reaches am_init am_step (c, s)" and "g \<in> set (am_grants s)" and "grant_mode g = TURBO"
  shows "\<exists>i k. i \<in> set (am_impressions s) \<and> imp_grantId i = Some (grant_id g)
     \<and> imp_userId i = grant_userId g \<and> imp_sessionId i = grant_sessionId g
     \<and> imp_clickedAt i = Some k \<and> 400 \<le> k - imp_createdAt i \<and> k \<le> grant_earnedAt g
     \<and> grant_earnedAt g \<le> imp_createdAt i + 180000
     \<and> (\<forall>j \<in> set (am_impressions s). imp_grantId j = Some (grant_id g) \<longrightarrow> j = i)"
proof -
  note I = am_invD [OF am_reaches [OF assms(1)]]
  obtain i where i: "i \<in> set (am_impressions s)" "imp_grantId i = Some (grant_id g)"
    using am_reaches_linked [OF assms(1)] assms(2,3) unfolding turbo_linked_def by blast
  from linked_impression [OF assms(1) i] obtain d k where d: "d \<in> set (am_grants s)" "grant_id d = grant_id g"
    "grant_userId d = imp_userId i" "grant_sessionId d = imp_sessionId i" "imp_clickedAt i = Some k"
    "400 \<le> k - imp_createdAt i" "k \<le> grant_earnedAt d" "grant_earnedAt d \<le> imp_createdAt i + 180000" by metis
  have "d = g" using I(2) d(1,2) assms(2) by (auto simp: grants_ok_def dest: unique_key_eqD)
  moreover have "j = i" if "j \<in> set (am_impressions s)" "imp_grantId j = Some (grant_id g)" for j
    using I(6) i that unique_key_eqD [of imp_id "am_impressions s" j i]
    unfolding impressions_ok_def links_unique_def by blast
  ultimately show ?thesis using i d by metis
qed

lemma turbo_done_grants:
  "map (\<lambda>g. (grant_id g, grant_userId g, grant_mode g)) (am_grants turbo_done) = [(3, 9, TURBO)]"
  by code_simp

theorem turbo_grant_provenance_witness:
  "grant_mode (am_grants turbo_done ! 0) = TURBO
   \<and> (\<exists>i k. i \<in> set (am_impressions turbo_done) \<and> imp_grantId i = Some 3 \<and> imp_userId i = 9
        \<and> imp_clickedAt i = Some k \<and> 400 \<le> k - imp_createdAt i)"
proof -
  from turbo_done_grants obtain g where g: "am_grants turbo_done = [g]" "grant_id g = 3" "grant_userId g = 9"
    "grant_mode g = TURBO" by auto
  then have "g \<in> set (am_grants turbo_done)" by simp
  from turbo_grant_provenance [OF turbo_reaches(3) this g(4)] obtain i k where
    "i \<in> set (am_impressions turbo_done)" "imp_grantId i = Some (grant_id g)" "imp_userId i = grant_userId g"
    "imp_clickedAt i = Some k" "400 \<le> k - imp_createdAt i" by blast
  with g have "\<exists>i k. i \<in> set (am_impressions turbo_done) \<and> imp_grantId i = Some 3 \<and> imp_userId i = 9
        \<and> imp_clickedAt i = Some k \<and> 400 \<le> k - imp_createdAt i" by auto
  with g show ?thesis by simp
qed

text \<open>When two claim transactions have read the same session, at most one of them creates a grant:
  after the first one committed, the second fails and leaves the grants as they are.\<close>

theorem optimistic_lock:
  assumes "claimNormal_rest u ses now s = (Inr x, s1)"
  shows "(\<exists>e. fst (claimNormal_rest u ses now' s1) = Inl e)
     \<and> am_grants (snd (claimNormal_rest u ses now' s1)) = am_grants s1"
proof -
  have "count_where (lockHit ses) (am_sessions s1) = 0"
    using assms lock_lost [of ses now u NORMAL "hashRateForMode NORMAL" s x s1]
    by (simp add: claimNormal_rest_def isClaimDue_def Let_def split: if_splits)
  then show ?thesis
    by (simp add: claimNormal_rest_def bumpAndGrant_eq Let_def)
qed

definition demo_session :: am_session where
  "demo_session = \<lparr>ses_id = 1, ses_userId = 7, ses_mode = NORMAL, ses_nextClaimAt = 60000,
     ses_isActive = True, ses_createdAt = 0\<rparr>"

theorem optimistic_lock_witness:
  "fst (claimNormal_rest 7 demo_session 60001 (snd (claimNormal_rest 7 demo_session 60000 demo_start)))
     = Inl CONCURRENT_CLAIM
   \<and> am_grants (snd (claimNormal_rest 7 demo_session 60001 (snd (claimNormal_rest 7 demo_session 60000 demo_start))))
     = am_grants (snd (claimNormal_rest 7 demo_session 60000 demo_start))"
proof
  have "isl (fst (claimNormal_rest 7 demo_session 60000 demo_start)) = False" by code_simp
  then obtain x s1 where r: "claimNormal_rest 7 demo_session 60000 demo_start = (Inr x, s1)"
    by (cases "claimNormal_rest 7 demo_session 60000 demo_start";
        cases "fst (claimNormal_rest 7 demo_session 60000 demo_start)") auto
  from optimistic_lock [OF r, of 60001] r
  show "am_grants (snd (claimNormal_rest 7 demo_session 60001 (snd (claimNormal_rest 7 demo_session 60000 demo_start))))
     = am_grants (snd (claimNormal_rest 7 demo_session 60000 demo_start))" by simp
  show "fst (claimNormal_rest 7 demo_session 60001 (snd (claimNormal_rest 7 demo_session 60000 demo_start)))
     = Inl CONCURRENT_CLAIM" by code_simp
qed

text \<open>The cleanup of expired grants changes nobody's usage of the current UTC day, and an impression
  that earned a grant can never be claimed again, although deleting the grant clears its link.\<close>

theorem cleanup_safe:
  assumes "reaches am_init am_step (c, s)" and "c \<le> now"
  shows "sumDailyGrantedHash u now (cleanupExpiredGrants av now s) = sumDailyGrantedHash u now s
     \<and> (\<forall>i \<in> set (am_impressions s). \<forall>i' \<in> set (am_impressions (cleanupExpiredGrants av now s)).
          imp_grantId i \<noteq> None \<longrightarrow> imp_id i' = imp_id i \<longrightarrow>
          (\<forall>t \<ge> now. validateImpressionForTurboClaim i' t \<noteq> None))"
proof
  note I = am_invD [OF am_reaches [OF assms(1)]]
  have dead: "grant_earnedAt g < startOfUtcDay now" if "g \<in> set (am_grants s)" "grant_expiresAt g < now" for g
    using I(2) that startOfUtcDay_gt [of now] by (auto simp: grants_ok_def GRANT_TTL_MS_def MS_PER_DAY_def)
  show "sumDailyGrantedHash u now (cleanupExpiredGrants av now s) = sumDailyGrantedHash u now s"
    unfolding sumDailyGrantedHash_def cleanupExpiredGrants_def Let_def
    by (auto intro!: sum_where_delete_eq dest: dead)
  have u: "unique_key imp_id (am_impressions s)" using I(6) by (simp add: impressions_ok_def)
  show "\<forall>i \<in> set (am_impressions s). \<forall>i' \<in> set (am_impressions (cleanupExpiredGrants av now s)).
          imp_grantId i \<noteq> None \<longrightarrow> imp_id i' = imp_id i \<longrightarrow>
          (\<forall>t \<ge> now. validateImpressionForTurboClaim i' t \<noteq> None)"
  proof (intro ballI impI allI)
    fix i i' t
    assume i: "i \<in> set (am_impressions s)" and i': "i' \<in> set (am_impressions (cleanupExpiredGrants av now s))"
      and g: "imp_grantId i \<noteq> None" and id: "imp_id i' = imp_id i" and t: "now \<le> t"
    from i' id have c: "i' = i \<or> (i' = i\<lparr>imp_grantId := None\<rparr> \<and> (\<exists>d \<in> set (am_grants s).
        grant_expiresAt d < now \<and> imp_grantId i = Some (grant_id d)))"
    proof -
      from i' obtain x where x: "x \<in> set (am_impressions s)" and ix: "i' = x \<or> (i' = x\<lparr>imp_grantId := None\<rparr>
          \<and> (\<exists>d \<in> set (am_grants s). grant_expiresAt d < now \<and> imp_grantId x = Some (grant_id d)))"
        by (auto simp: cleanupExpiredGrants_def Let_def set_update_where split: if_splits option.splits)
      from ix id have "imp_id x = imp_id i" by auto
      with unique_key_eqD [OF u x i] ix show ?thesis by blast
    qed
    show "validateImpressionForTurboClaim i' t \<noteq> None"
    proof (cases "i' = i")
      case True
      with g show ?thesis by (simp add: validateImpression_None_iff)
    next
      case False
      with c obtain d where d: "d \<in> set (am_grants s)" "grant_expiresAt d < now" "imp_grantId i = Some (grant_id d)"
        and i'': "i' = i\<lparr>imp_grantId := None\<rparr>" by blast
      from I(6) i d(3) obtain e where "e \<in> set (am_grants s)" "grant_id e = grant_id d" "imp_createdAt i \<le> grant_earnedAt e"
        by (fastforce simp: impressions_ok_def impression_ok_def)
      moreover from this have "e = d" using I(2) d(1) by (auto simp: grants_ok_def dest: unique_key_eqD)
      ultimately have "imp_createdAt i + CLICK_GRACE_MS < t"
        using I(2) d t by (auto simp: grants_ok_def GRANT_TTL_MS_def CLICK_GRACE_MS_def)
      then show ?thesis by (auto simp: i'' validateImpression_None_iff)
    qed
  qed
qed

theorem cleanup_safe_witness:
  "sumDailyGrantedHash 9 90000000 (cleanupExpiredGrants True 90000000 turbo_done)
     = sumDailyGrantedHash 9 90000000 turbo_done
   \<and> am_grants (cleanupExpiredGrants True 90000000 turbo_done) = []
   \<and> map imp_grantId (am_impressions (cleanupExpiredGrants True 90000000 turbo_done)) = [None]"
proof (intro conjI)
  show "sumDailyGrantedHash 9 90000000 (cleanupExpiredGrants True 90000000 turbo_done)
     = sumDailyGrantedHash 9 90000000 turbo_done"
    using cleanup_safe [OF turbo_reaches(3), of 90000000 9 True] by simp
qed code_simp+

text \<open>A normal claim succeeds exactly when the user has an active NORMAL session whose cycle is due
  and 10 H/s still fit under the daily cap; otherwise the state is unchanged.\<close>

theorem claimNormal_iff:
  assumes "reaches am_init am_step (c, s)"
  shows "((\<exists>g n. fst (claimNormal u now s) = Inr (g, n)) \<longleftrightarrow>
      (\<exists>ses. getActiveSession u s = Some ses \<and> ses_mode ses = NORMAL \<and> ses_nextClaimAt ses \<le> now + 5000
         \<and> sumDailyGrantedHash u now s \<le> 990))
   \<and> ((\<exists>e. fst (claimNormal u now s) = Inl e) \<longrightarrow> snd (claimNormal u now s) = s)"
proof
  note I = am_invD(1) [OF am_reaches [OF assms]]
  show "(\<exists>g n. fst (claimNormal u now s) = Inr (g, n)) \<longleftrightarrow>
      (\<exists>ses. getActiveSession u s = Some ses \<and> ses_mode ses = NORMAL \<and> ses_nextClaimAt ses \<le> now + 5000
         \<and> sumDailyGrantedHash u now s \<le> 990)"
    using lockHit_count [OF I activeOf_findD(1,3)]
    by (auto simp: claimNormal_def transaction_def claimNormal_rest_def getActiveSession_def isClaimDue_def
        canGrantDaily_def hashRateForMode_def domain_constants bumpAndGrant_eq Let_def
        split: option.splits)
  show "(\<exists>e. fst (claimNormal u now s) = Inl e) \<longrightarrow> snd (claimNormal u now s) = s"
    unfolding claimNormal_def by (metis (lifting) prod.collapse transaction_Inl)
qed

theorem claimNormal_iff_witness:
  "(\<exists>g n. fst (claimNormal 7 175000 demo_two) = Inr (g, n)) \<and> snd (claimNormal 7 174999 demo_two) = demo_two"
proof
  have "(case getActiveSession 7 demo_two of None \<Rightarrow> False | Some ses \<Rightarrow> ses_mode ses = NORMAL
      \<and> ses_nextClaimAt ses \<le> 175000 + 5000) \<and> sumDailyGrantedHash 7 175000 demo_two \<le> 990" by code_simp
  then show "\<exists>g n. fst (claimNormal 7 175000 demo_two) = Inr (g, n)"
    using claimNormal_iff [OF am_demo_reaches(4), of 7 175000] by (auto split: option.splits)
  have "fst (claimNormal 7 174999 demo_two) = Inl CLAIM_NOT_DUE" by code_simp
  then show "snd (claimNormal 7 174999 demo_two) = demo_two"
    using claimNormal_iff [OF am_demo_reaches(4), of 7 174999] by blast
qed

end
