(* ===== verification/JsNumber.thy ===== *)
theory JsNumber
  imports Complex_Main
begin

section \<open>JavaScript numbers\<close>

text \<open>
  A JavaScript number is an IEEE 754 double.  Its finite values are rationals, and every
  arithmetic operation returns the exact result rounded to 53 significant bits, ties to even.
  \<open>fl\<close> is that rounding, without the limits of the exponent (overflow to infinity above
  1.8e308, gradual underflow below 2.3e-308): the amounts and hash rates of this program are far
  from both.  An operation of the source is \<open>fl\<close> of the operation on rationals.
\<close>

type_synonym number = rat

subsection \<open>The binary exponent\<close>

text \<open>The number of binary digits of a positive integer.\<close>

function bits :: "int \<Rightarrow> int" where
  "bits n = (if n \<le> 0 then 0 else bits (n div 2) + 1)"
  by pat_completeness auto
termination
  by (relation "measure nat") auto

declare bits.simps [simp del]

lemma bits_bounds: "0 < n \<Longrightarrow> (2::rat) powi (bits n - 1) \<le> of_int n \<and> of_int n < (2::rat) powi bits n"
proof (induction n rule: bits.induct)
  case (1 n)
  have b: "bits n = bits (n div 2) + 1" using "1.prems" by (simp add: bits.simps [of n])
  show ?case
  proof (cases "n = 1")
    case True
    have "bits 1 = 1" by (simp add: bits.simps)
    with True show ?thesis by simp
  next
    case False
    with "1.prems" have "0 < n div 2" by linarith
    with 1 have IH: "(2::rat) powi (bits (n div 2) - 1) \<le> of_int (n div 2)"
      "of_int (n div 2) < (2::rat) powi bits (n div 2)" by auto
    have p: "(2::rat) powi (k + 1) = 2 * 2 powi k" for k by (simp add: power_int_add)
    have "0 \<le> bits m" for m by (induction m rule: bits.induct) (simp add: bits.simps)
    then obtain k where k: "bits (n div 2) = int k" by (metis nonneg_int_cases)
    from IH(2) have "of_int (n div 2) < (of_int (2 ^ k) :: rat)" by (simp add: k)
    then have "n div 2 + 1 \<le> 2 ^ k" by (simp only: of_int_less_iff)
    then have "n < 2 * 2 ^ k" by linarith
    then have "of_int n < (of_int (2 * 2 ^ k) :: rat)" by (simp only: of_int_less_iff)
    then have u: "of_int n < (2::rat) powi bits n" by (simp add: b k power_int_add)
    have "2 * (n div 2) \<le> n" by linarith
    then have "of_int (2 * (n div 2)) \<le> (of_int n :: rat)" by (simp only: of_int_le_iff)
    moreover have "(2::rat) powi (bits n - 1) = 2 * 2 powi (bits (n div 2) - 1)"
      using p [of "bits (n div 2) - 1"] by (simp add: b)
    ultimately show ?thesis using IH(1) u by simp
  qed
qed

definition expo :: "rat \<Rightarrow> int" where
  "expo x = (let (n, d) = quotient_of x; e = bits n - bits d in if 2 powi e \<le> x then e else e - 1)"

lemma powi_diff: "(2::rat) powi (a - b) = 2 powi a / 2 powi b"
  by (simp add: power_int_diff)

lemma expo_bounds:
  assumes "0 < x"
  shows "2 powi expo x \<le> x" and "x < 2 powi (expo x + 1)"
proof -
  obtain n d where q: "quotient_of x = (n, d)" by (cases "quotient_of x")
  then have d: "0 < d" and x: "x = of_int n / of_int d"
    using quotient_of_denom_pos quotient_of_div by auto
  with assms have n: "0 < n" by (simp add: zero_less_divide_iff)
  define a b where "a = bits n" and "b = bits d"
  have nr: "(2::rat) powi (a - 1) \<le> of_int n" "of_int n < (2::rat) powi a"
    using bits_bounds [OF n] by (simp_all add: a_def)
  have dr: "(2::rat) powi (b - 1) \<le> of_int d" "of_int d < (2::rat) powi b"
    using bits_bounds [OF d] by (simp_all add: b_def)
  let ?e = "a - b"
  have up: "x < 2 powi (?e + 1)"
  proof -
    have "x \<le> of_int n / 2 powi (b - 1)"
      unfolding x using dr(1) n d by (intro divide_left_mono) (auto simp: zero_less_power_int)
    also have "\<dots> < 2 powi a / 2 powi (b - 1)"
      using nr(2) by (intro divide_strict_right_mono) (auto simp: zero_less_power_int)
    also have "\<dots> = 2 powi (a - (b - 1))" by (rule powi_diff [symmetric])
    also have "a - (b - 1) = ?e + 1" by simp
    finally show ?thesis .
  qed
  have lo: "2 powi (?e - 1) \<le> x"
  proof -
    have "?e - 1 = a - 1 - b" by simp
    then have "(2::rat) powi (?e - 1) = 2 powi (a - 1) / 2 powi b" by (simp only: powi_diff)
    also have "\<dots> \<le> of_int n / 2 powi b"
      using nr(1) by (intro divide_right_mono) auto
    also have "\<dots> \<le> x"
      unfolding x using dr(2) n d by (intro divide_left_mono) (auto simp: zero_less_power_int)
    finally show ?thesis .
  qed
  have e: "expo x = (if 2 powi ?e \<le> x then ?e else ?e - 1)"
    by (simp add: expo_def q a_def b_def)
  show "2 powi expo x \<le> x" using e lo by auto
  show "x < 2 powi (expo x + 1)" using e up by auto
qed

lemma powi_less_iff: "(2::rat) powi a < 2 powi b \<longleftrightarrow> a < b"
proof -
  have m: "(2::rat) powi a < 2 powi b" if "a < b" for a b
    using that by (intro power_int_strict_increasing) auto
  show ?thesis using m [of a b] m [of b a] by (metis linorder_neqE order_less_asym order_less_irrefl)
qed

lemma powi_le_iff: "(2::rat) powi a \<le> 2 powi b \<longleftrightarrow> a \<le> b"
  using powi_less_iff [of b a] by (simp add: linorder_not_less [symmetric])

lemma expo_mono: "0 < x \<Longrightarrow> x \<le> y \<Longrightarrow> expo x \<le> expo y"
  using expo_bounds [of x] expo_bounds [of y]
  by (metis add.commute add_le_cancel_left order.strict_trans1 order_less_le_trans powi_less_iff zless_add1_eq
      linorder_not_less order_le_less)

lemma expo_unique: "2 powi e \<le> x \<Longrightarrow> x < 2 powi (e + 1) \<Longrightarrow> expo x = e"
proof -
  assume a: "2 powi e \<le> x" "x < 2 powi (e + 1)"
  have "0 < (2::rat) powi e" by simp
  with a(1) have "0 < x" by linarith
  from expo_bounds [OF this] a have "(2::rat) powi e < 2 powi (expo x + 1)" "(2::rat) powi expo x < 2 powi (e + 1)"
    by linarith+
  then show ?thesis by (simp add: powi_less_iff)
qed

subsection \<open>Rounding\<close>

definition round_even :: "rat \<Rightarrow> int" where
  "round_even r = (let f = \<lfloor>r\<rfloor>; t = r - of_int f
     in if t < 1 / 2 then f else if t > 1 / 2 then f + 1 else if even f then f else f + 1)"

lemma round_even_err: "\<bar>of_int (round_even r) - r\<bar> \<le> 1 / 2"
  using floor_correct [of r] unfolding round_even_def Let_def by (auto simp: abs_le_iff)

lemma round_even_int [simp]: "round_even (of_int n) = n"
  by (simp add: round_even_def)

lemma round_even_mono:
  assumes "r \<le> s"
  shows "round_even r \<le> round_even s"
proof (cases "\<lfloor>r\<rfloor> = \<lfloor>s\<rfloor>")
  case True
  with assms show ?thesis by (auto simp: round_even_def Let_def)
next
  case False
  with floor_mono [OF assms] have "\<lfloor>r\<rfloor> + 1 \<le> \<lfloor>s\<rfloor>" by simp
  then show ?thesis by (auto simp: round_even_def Let_def)
qed

definition ulp :: "rat \<Rightarrow> rat" where
  "ulp x = 2 powi (expo x - 52)"

definition fl_pos :: "rat \<Rightarrow> rat" where
  "fl_pos x = of_int (round_even (x / ulp x)) * ulp x"

definition fl :: "rat \<Rightarrow> number" where
  "fl x = (if x = 0 then 0 else if 0 < x then fl_pos x else - fl_pos (- x))"

lemma ulp_pos [simp]: "0 < ulp x"
  by (simp add: ulp_def)

lemma fl_pos_bounds:
  assumes "0 < x"
  shows "2 powi expo x \<le> fl_pos x" and "fl_pos x \<le> 2 powi (expo x + 1)"
proof -
  have e: "(2::rat) powi expo x = of_int (2 ^ 52) * ulp x" "(2::rat) powi (expo x + 1) = of_int (2 ^ 53) * ulp x"
    unfolding ulp_def by (simp_all add: power_int_diff power_int_add)
  have "of_int (2 ^ 52) \<le> x / ulp x" "x / ulp x \<le> of_int (2 ^ 53)"
    using expo_bounds [OF assms] by (simp_all only: e pos_le_divide_eq pos_divide_le_eq ulp_pos less_imp_le)
  from round_even_mono [OF this(1)] round_even_mono [OF this(2)]
  have "(2::int) ^ 52 \<le> round_even (x / ulp x)" "round_even (x / ulp x) \<le> 2 ^ 53" by (simp_all only: round_even_int)
  then have "(of_int (2 ^ 52) :: rat) \<le> of_int (round_even (x / ulp x))" "of_int (round_even (x / ulp x)) \<le> (of_int (2 ^ 53) :: rat)"
    by (simp_all only: of_int_le_iff)
  then show "2 powi expo x \<le> fl_pos x" and "fl_pos x \<le> 2 powi (expo x + 1)"
    unfolding e fl_pos_def by (intro mult_right_mono; simp add: less_imp_le)+
qed

lemma fl_pos_mono:
  assumes "0 < x" and "x \<le> y"
  shows "fl_pos x \<le> fl_pos y"
proof (cases "expo x = expo y")
  case True
  then have u: "ulp x = ulp y" by (simp add: ulp_def)
  have "x / ulp y \<le> y / ulp y" using assms(2) by (intro divide_right_mono) (auto intro: less_imp_le)
  from round_even_mono [OF this] show ?thesis
    unfolding fl_pos_def u by (intro mult_right_mono) (auto intro: less_imp_le)
next
  case False
  with expo_mono [OF assms] have "expo x + 1 \<le> expo y" by simp
  then have "(2::rat) powi (expo x + 1) \<le> 2 powi expo y" by (simp add: powi_le_iff)
  with fl_pos_bounds(2) [OF assms(1)] fl_pos_bounds(1) [of y] assms show ?thesis by linarith
qed

lemma fl_pos_pos: "0 < x \<Longrightarrow> 0 < fl_pos x"
  using fl_pos_bounds(1) [of x] by (meson order_less_le_trans zero_less_power_int zero_less_numeral)

lemma fl_0 [simp]: "fl 0 = 0"
  by (simp add: fl_def)

lemma fl_minus: "fl (- x) = - fl x"
  by (auto simp: fl_def)

lemma fl_mono:
  assumes "x \<le> y"
  shows "fl x \<le> fl y"
proof (cases "0 < x")
  case True
  with assms fl_pos_mono show ?thesis by (simp add: fl_def)
next
  case False
  show ?thesis
  proof (cases "y < 0")
    case True
    with assms fl_pos_mono [of "- y" "- x"] show ?thesis by (simp add: fl_def)
  next
    case False
    then have "0 \<le> fl y" using fl_pos_pos [of y] by (auto simp: fl_def)
    moreover have "fl x \<le> 0" using \<open>\<not> 0 < x\<close> fl_pos_pos [of "- x"] by (auto simp: fl_def)
    ultimately show ?thesis by linarith
  qed
qed

lemma fl_nonneg: "0 \<le> x \<Longrightarrow> 0 \<le> fl x"
  using fl_mono [of 0 x] by simp

lemma fl_pos_exact:
  assumes "x = of_int m * 2 powi k" and "0 < m" and "m < 2 ^ 53"
  shows "fl_pos x = x"
proof -
  have x: "0 < x" using assms by simp
  have "x < 2 powi (k + 53)"
  proof -
    have "of_int m < (of_int (2 ^ 53) :: rat)" using assms(3) by (simp only: of_int_less_iff)
    then have "x < of_int (2 ^ 53) * 2 powi k" unfolding assms(1) by (intro mult_strict_right_mono) auto
    also have "\<dots> = 2 powi (k + 53)" by (simp add: power_int_add)
    finally show ?thesis .
  qed
  with expo_bounds(1) [OF x] have "(2::rat) powi expo x < 2 powi (k + 53)" by linarith
  then have e: "expo x - 52 \<le> k" by (simp add: powi_less_iff)
  define j where "j = nat (k - (expo x - 52))"
  have "x / ulp x = of_int m * 2 powi (k - (expo x - 52))"
    unfolding assms(1) ulp_def by (simp add: powi_diff)
  also have "\<dots> = of_int (m * 2 ^ j)" using e by (simp add: j_def power_int_def)
  finally have r: "x / ulp x = of_int (m * 2 ^ j)" .
  then have "fl_pos x = of_int (m * 2 ^ j) * ulp x" unfolding fl_pos_def by (simp only: r round_even_int)
  also have "\<dots> = x" using r by (metis divide_eq_eq order_less_irrefl ulp_pos)
  finally show ?thesis .
qed

text \<open>Numbers with 53 significant bits, integers up to \<open>2 ^ 53\<close> among them, are exact.\<close>

lemma fl_exact:
  assumes "x = of_int m * 2 powi k" and "\<bar>m\<bar> < 2 ^ 53"
  shows "fl x = x"
proof -
  consider "m = 0" | "0 < m" | "m < 0" by linarith
  then show ?thesis
  proof cases
    case 1
    with assms show ?thesis by simp
  next
    case 2
    with assms fl_pos_exact [OF assms(1)] show ?thesis by (simp add: fl_def)
  next
    case 3
    then have "fl_pos (- x) = - x" using assms by (intro fl_pos_exact [of _ "- m" k]) auto
    moreover have "x < 0" using 3 assms(1) by (simp add: mult_less_0_iff)
    ultimately show ?thesis by (simp add: fl_def)
  qed
qed

lemma fl_of_int: "\<bar>n\<bar> < 2 ^ 53 \<Longrightarrow> fl (of_int n) = of_int n"
  by (rule fl_exact [of _ n 0]) simp_all

text \<open>A rounded number is its own rounding.\<close>

lemma fl_pos_idem:
  assumes "0 < x"
  shows "fl (fl_pos x) = fl_pos x"
proof -
  let ?m = "round_even (x / ulp x)"
  have f: "fl_pos x = of_int ?m * 2 powi (expo x - 52)" by (simp add: fl_pos_def ulp_def)
  have "fl_pos x \<le> of_int (2 ^ 53) * ulp x"
    using fl_pos_bounds(2) [OF assms] unfolding ulp_def by (simp add: power_int_diff power_int_add)
  then have "(of_int ?m :: rat) \<le> of_int (2 ^ 53)" unfolding fl_pos_def by simp
  then have m: "?m \<le> 2 ^ 53" by (simp only: of_int_le_iff)
  have "0 < of_int ?m * ulp x" using fl_pos_pos [OF assms] unfolding fl_pos_def .
  then have p: "0 < ?m" using ulp_pos [of x] by (auto simp: zero_less_mult_iff)
  show ?thesis
  proof (cases "?m = 2 ^ 53")
    case True
    then have "fl_pos x = of_int 1 * 2 powi (expo x + 1)" unfolding f by (simp add: power_int_diff power_int_add)
    then show ?thesis by (rule fl_exact) simp
  next
    case False
    with m p have "\<bar>?m\<bar> < 2 ^ 53" by simp
    with f show ?thesis by (rule fl_exact)
  qed
qed

lemma fl_idem [simp]: "fl (fl x) = fl x"
proof -
  consider "x = 0" | "0 < x" | "0 < - x" by linarith
  then show ?thesis
  proof cases
    case 2
    then show ?thesis using fl_pos_idem [OF 2] by (simp add: fl_def)
  next
    case 3
    then have "fl x = - fl_pos (- x)" by (simp add: fl_def)
    then show ?thesis using fl_pos_idem [OF 3] by (simp add: fl_minus)
  qed simp
qed

text \<open>An operation whose exact result is an integer: a rounded integer is an integer.\<close>

definition fli :: "int \<Rightarrow> int" where
  "fli n = \<lfloor>fl (of_int n)\<rfloor>"

lemma fli_exact [simp]: "\<bar>n\<bar> < 2 ^ 53 \<Longrightarrow> fli n = n"
  by (simp add: fli_def fl_of_int)

lemma fl_pos_err:
  assumes "0 < x"
  shows "\<bar>fl_pos x - x\<bar> \<le> x / 2 ^ 53"
proof -
  have "fl_pos x - x = (of_int (round_even (x / ulp x)) - x / ulp x) * ulp x"
    unfolding fl_pos_def by (simp add: left_diff_distrib less_imp_neq [OF ulp_pos, symmetric])
  then have "\<bar>fl_pos x - x\<bar> = \<bar>of_int (round_even (x / ulp x)) - x / ulp x\<bar> * ulp x"
    using ulp_pos [of x] by (simp only: abs_mult abs_of_pos)
  also have "\<dots> \<le> 1 / 2 * ulp x" by (intro mult_right_mono round_even_err) (simp add: less_imp_le)
  also have "\<dots> = 2 powi expo x / 2 ^ 53" unfolding ulp_def by (simp add: power_int_diff)
  also have "\<dots> \<le> x / 2 ^ 53" using expo_bounds(1) [OF assms] by (intro divide_right_mono) auto
  finally show ?thesis .
qed

lemma fl_err: "\<bar>fl x - x\<bar> \<le> \<bar>x\<bar> / 2 ^ 53"
  using fl_pos_err [of x] fl_pos_err [of "- x"] by (auto simp: fl_def abs_if split: if_splits)

lemma fl_less:
  assumes "0 \<le> x" and "x + (x + y) / 2 ^ 53 < y"
  shows "fl x < fl y"
proof -
  let ?k = "9007199254740992 :: rat"
  have g: "?k * x + (x + y) < ?k * y" using assms(2) by (simp add: field_simps)
  with assms(1) have y: "0 \<le> y" by linarith
  have "?k * \<bar>fl x - x\<bar> \<le> x" "?k * \<bar>fl y - y\<bar> \<le> y"
    using fl_err [of x] fl_err [of y] assms(1) y by (simp_all add: field_simps)
  then have "?k * fl x - ?k * x \<le> x" "?k * y - ?k * fl y \<le> y"
    by (simp_all add: abs_if right_diff_distrib split: if_splits)
  with g have "?k * fl x < ?k * fl y" by linarith
  then show ?thesis by simp
qed

lemma fl_tenth: "fl (1 / 10) = 3602879701896397 / 36028797018963968"
  by code_simp

lemma fl_sum: "fl (fl (1 / 10) + fl (2 / 10)) \<noteq> fl (3 / 10)"
  by code_simp

end
