(* ===== verification/Store.thy ===== *)
theory Store
  imports Prelude JsNumber
begin

section \<open>The tables and runtime calls several components share\<close>

text \<open>
  The rows of \<open>server/prisma/schema.prisma\<close> that more than one component reads or writes, with the
  columns the modelled code uses.  A \<open>Decimal(20, 8)\<close> column holds the number of its 1e-8 units,
  a \<open>Float\<close> column a JavaScript number.  \<open>st_next\<close> supplies fresh row ids.  \<open>st_calls\<close> is the
  list of calls a handler makes to the in-memory mining engine and the sockets, in order: the
  engine is another component (\<open>MiningEngine\<close>), and these calls are what it receives.
\<close>

type_synonym dec8 = int

record user =
  usr_id :: int
  usr_name :: string
  usr_username :: "string option"
  usr_isBanned :: bool
  usr_polBalance :: dec8
  usr_blkBalance :: dec8
  usr_blkLocked :: dec8
  usr_walletAddress :: "string option"
  usr_miningPayoutMode :: string
  usr_refCode :: "string option"
  usr_referredBy :: "int option"

record game =
  game_id :: int
  game_slug :: string
  game_name :: string

record power_game =
  pg_id :: int
  pg_userId :: int
  pg_gameId :: int
  pg_hashRate :: number
  pg_playedAt :: millis
  pg_expiresAt :: millis

record timed_power =
  tp_userId :: int
  tp_hashRate :: number
  tp_isClaimed :: bool
  tp_expiresAt :: millis

record catalog_miner =
  cat_id :: int
  cat_name :: string
  cat_baseHashRate :: number
  cat_slotSize :: int
  cat_imageUrl :: "string option"

datatype machine_location = INVENTORY | RACK | WAREHOUSE

record snapshot =
  sn_minerId :: "int option"
  sn_minerName :: string
  sn_level :: int
  sn_hashRate :: number
  sn_slotSize :: int
  sn_imageUrl :: "string option"

text \<open>The four tables that hold a machine: the canonical row and its three possible children.\<close>

record owned_machine =
  om_id :: int
  om_userId :: int
  om_location :: machine_location
  om_snap :: snapshot

record inventory_item =
  inv_id :: int
  inv_userId :: int
  inv_snap :: snapshot
  inv_acquiredAt :: millis
  inv_expiresAt :: "millis option"
  inv_ownedMachineId :: "int option"

record user_miner =
  um_id :: int
  um_userId :: int
  um_minerId :: "int option"
  um_slotIndex :: int
  um_level :: int
  um_hashRate :: number
  um_slotSize :: int
  um_imageUrl :: "string option"
  um_isActive :: bool
  um_ownedMachineId :: "int option"

record audit_log =
  al_userId :: int
  al_action :: string
  al_details :: "(string \<times> string) list"

datatype runtime_call =
  BalanceDelta int number
| ReloadProfile int
| SetBaseHashRate int number
| EmitMachinesUpdate int

record store =
  st_users :: "user list"
  st_games :: "game list"
  st_gamePowers :: "power_game list"
  st_ytPowers :: "timed_power list"
  st_gpuPowers :: "timed_power list"
  st_v2Powers :: "timed_power list"
  st_miners :: "catalog_miner list"
  st_eventMiners :: "catalog_miner list"
  st_owned :: "owned_machine list"
  st_inventory :: "inventory_item list"
  st_userMiners :: "user_miner list"
  st_audit :: "audit_log list"
  st_calls :: "runtime_call list"
  st_next :: int

subsection \<open>Decimals and numbers\<close>

text \<open>\<open>Number(decimal)\<close> reads the decimal's digits as the nearest double.\<close>

definition toNumber :: "dec8 \<Rightarrow> number" where
  "toNumber d = fl (of_int d / 10 ^ 8)"

lemma toNumber_mono: "a \<le> b \<Longrightarrow> toNumber a \<le> toNumber b"
  unfolding toNumber_def by (intro fl_mono divide_right_mono) auto

lemma toNumber_0 [simp]: "toNumber 0 = 0"
  by (simp add: toNumber_def)

lemma toNumber_pos: "0 < a \<Longrightarrow> 0 < toNumber a"
  by (simp add: toNumber_def fl_def fl_pos_pos)

lemma toNumber_pos_iff: "0 < toNumber a \<longleftrightarrow> 0 < a"
  using toNumber_pos [of a] toNumber_mono [of a 0] by (cases "0 < a") auto

text \<open>
  Below \<open>2 ^ 51\<close> units (22.5 million coins) different decimals are different numbers, so that a
  comparison of numbers decides the comparison of the decimals.
\<close>

lemma toNumber_less:
  assumes "0 \<le> a" and "a < b" and "b \<le> 2 ^ 51"
  shows "toNumber a < toNumber b"
proof -
  have "a + b < 2 ^ 53 * (b - a)" using assms by simp
  then have "(of_int (a + b) :: rat) < of_int (2 ^ 53 * (b - a))" by (simp only: of_int_less_iff)
  then have "(of_int a :: rat) + of_int b < 2 ^ 53 * (of_int b - of_int a)" by simp
  then have "of_int a / 10 ^ 8 + (of_int a / 10 ^ 8 + of_int b / 10 ^ 8) / 2 ^ 53 < (of_int b :: rat) / 10 ^ 8"
    by (simp add: field_simps)
  with assms(1) show ?thesis unfolding toNumber_def by (intro fl_less) auto
qed

lemma toNumber_le_iff:
  assumes "0 \<le> a" "0 \<le> b" "a \<le> 2 ^ 51" "b \<le> 2 ^ 51"
  shows "toNumber a \<le> toNumber b \<longleftrightarrow> a \<le> b"
  using toNumber_less [of b a] toNumber_mono [of a b] assms by (meson linorder_not_less)

text \<open>
  The other direction is done outside the repository: Prisma prints the number in decimal and
  PostgreSQL rounds it to the column's 8 decimals.  Definitions that store a number take that
  conversion as the argument \<open>dec8_of\<close>; what is known of it is the locale's assumption.
\<close>

locale decimal_codec =
  fixes dec8_of :: "number \<Rightarrow> dec8"
  assumes nearest: "\<bar>of_int (dec8_of x) - x * 10 ^ 8\<bar> \<le> 1 / 2 + \<bar>x\<bar> / 10 ^ 8"
    and codec_mono: "x \<le> y \<Longrightarrow> dec8_of x \<le> dec8_of y"
    and codec_0: "dec8_of 0 = 0"
begin

lemma codec_nonneg: "0 \<le> x \<Longrightarrow> 0 \<le> dec8_of x"
  using codec_mono [of 0 x] codec_0 by simp

lemma codec_unit: "\<bar>x\<bar> < 10 ^ 7 \<Longrightarrow> \<bar>of_int (dec8_of x) - x * 10 ^ 8\<bar> < 1"
  using nearest [of x] by (simp add: field_simps)

lemma codec_exact:
  assumes "\<bar>x * 10 ^ 8 - of_int n\<bar> + \<bar>x\<bar> / 10 ^ 8 < 1 / 2"
  shows "dec8_of x = n"
proof -
  have "\<bar>of_int (dec8_of x) - (of_int n :: rat)\<bar> < 1" using nearest [of x] assms by linarith
  then have "of_int \<bar>dec8_of x - n\<bar> < (of_int 1 :: rat)" by simp
  then have "\<bar>dec8_of x - n\<bar> < 1" by (simp only: of_int_less_iff)
  then show ?thesis by simp
qed

end

text \<open>A concrete conversion: round half away from zero.\<close>

definition round8_away :: "number \<Rightarrow> dec8" where
  "round8_away x = (if 0 \<le> x then \<lfloor>x * 10 ^ 8 + 1 / 2\<rfloor> else - \<lfloor>- x * 10 ^ 8 + 1 / 2\<rfloor>)"

interpretation pg: decimal_codec round8_away
proof unfold_locales
  show "\<bar>of_int (round8_away x) - x * 10 ^ 8\<bar> \<le> 1 / 2 + \<bar>x\<bar> / 10 ^ 8" for x
  proof -
    have e: "\<bar>of_int \<lfloor>y + 1 / 2\<rfloor> - y\<bar> \<le> 1 / 2" for y :: rat
      using of_int_floor_le [of "y + 1 / 2"] floor_correct [of "y + 1 / 2"] unfolding abs_le_iff by linarith
    have "\<bar>of_int (round8_away x) - x * 10 ^ 8\<bar> \<le> 1 / 2"
      using e [of "x * 10 ^ 8"] e [of "- x * 10 ^ 8"]
      by (cases "0 \<le> x") (auto simp: round8_away_def abs_if split: if_splits)
    moreover have "0 \<le> \<bar>x\<bar> / 10 ^ 8" by simp
    ultimately show ?thesis by linarith
  qed
  show "round8_away x \<le> round8_away y" if "x \<le> y" for x y
  proof -
    have m: "\<lfloor>a * 10 ^ 8 + 1 / 2\<rfloor> \<le> \<lfloor>b * 10 ^ 8 + 1 / 2\<rfloor>" if "a \<le> b" for a b :: rat
      using that by (intro floor_mono) simp
    have z: "\<lfloor>(0::rat) * 10 ^ 8 + 1 / 2\<rfloor> = 0" by (intro floor_unique) auto
    have n: "0 \<le> \<lfloor>a * 10 ^ 8 + 1 / 2\<rfloor>" if "0 \<le> a" for a :: rat using m [OF that] z by linarith
    consider "0 \<le> x" | "x < 0" "0 \<le> y" | "y < 0" by linarith
    then show ?thesis
    proof cases
      case 1
      with m [of x y] that show ?thesis by (simp add: round8_away_def)
    next
      case 2
      then have "0 \<le> - x" by simp
      from n [OF this] n [OF 2(2)] 2 show ?thesis
        unfolding round8_away_def by (cases "0 \<le> x"; cases "0 \<le> y"; simp only: if_True if_False; linarith)
    next
      case 3
      then have "\<not> 0 \<le> x" "\<not> 0 \<le> y" "- y \<le> - x" using that by linarith+
      with m [of "- y" "- x"] show ?thesis by (simp only: round8_away_def if_False neg_le_iff_le)
    qed
  qed
  have "\<lfloor>1 / 2 :: rat\<rfloor> = 0" by (rule floor_unique) simp_all
  then show "round8_away 0 = 0" by (simp add: round8_away_def)
qed

subsection \<open>Operations on the shared tables\<close>

definition getUser :: "int \<Rightarrow> 'a store_scheme \<Rightarrow> user option" where
  "getUser userId s = find_first (\<lambda>u. usr_id u = userId) (st_users s)"

definition updUser :: "int \<Rightarrow> (user \<Rightarrow> user) \<Rightarrow> 'a store_scheme \<Rightarrow> 'a store_scheme" where
  "updUser userId f s = s\<lparr>st_users := update_where (\<lambda>u. usr_id u = userId) f (st_users s)\<rparr>"

definition addPol :: "int \<Rightarrow> dec8 \<Rightarrow> 'a store_scheme \<Rightarrow> 'a store_scheme" where
  "addPol userId d = updUser userId (\<lambda>u. u\<lparr>usr_polBalance := usr_polBalance u + d\<rparr>)"

definition addBlk :: "int \<Rightarrow> dec8 \<Rightarrow> 'a store_scheme \<Rightarrow> 'a store_scheme" where
  "addBlk userId d = updUser userId (\<lambda>u. u\<lparr>usr_blkBalance := usr_blkBalance u + d\<rparr>)"

definition logCall :: "runtime_call \<Rightarrow> 'a store_scheme \<Rightarrow> 'a store_scheme" where
  "logCall c s = s\<lparr>st_calls := st_calls s @ [c]\<rparr>"

definition logAudit :: "audit_log \<Rightarrow> 'a store_scheme \<Rightarrow> 'a store_scheme" where
  "logAudit a s = s\<lparr>st_audit := st_audit s @ [a]\<rparr>"

text \<open>\<open>tx.game.upsert\<close> by slug: the id of the row, created when missing.\<close>

definition upsertGame :: "string \<Rightarrow> string \<Rightarrow> 'a store_scheme \<Rightarrow> int \<times> 'a store_scheme" where
  "upsertGame slug nm s =
     (case find_first (\<lambda>g. game_slug g = slug) (st_games s) of
        Some g \<Rightarrow> (game_id g, s)
      | None \<Rightarrow> (st_next s,
          s\<lparr>st_games := st_games s @ [\<lparr>game_id = st_next s, game_slug = slug, game_name = nm\<rparr>],
            st_next := st_next s + 1\<rparr>))"

definition createPowerGame ::
  "int \<Rightarrow> int \<Rightarrow> number \<Rightarrow> millis \<Rightarrow> millis \<Rightarrow> 'a store_scheme \<Rightarrow> 'a store_scheme" where
  "createPowerGame userId gameId hr playedAt expiresAt s =
     s\<lparr>st_gamePowers := st_gamePowers s @ [\<lparr>pg_id = st_next s, pg_userId = userId, pg_gameId = gameId,
         pg_hashRate = hr, pg_playedAt = playedAt, pg_expiresAt = expiresAt\<rparr>],
       st_next := st_next s + 1\<rparr>"

definition polOf :: "int \<Rightarrow> 'a store_scheme \<Rightarrow> dec8 option" where
  "polOf userId s = map_option usr_polBalance (getUser userId s)"

definition blkOf :: "int \<Rightarrow> 'a store_scheme \<Rightarrow> dec8 option" where
  "blkOf userId s = map_option usr_blkBalance (getUser userId s)"

lemma find_update_key:
  assumes "\<And>r. key (f r) = key r"
  shows "find_first (\<lambda>r. key r = k) (update_where (\<lambda>r. key r = k') f rows) =
    map_option (\<lambda>r. if k = k' then f r else r) (find_first (\<lambda>r. key r = k) rows)"
  using assms by (induction rows) auto

lemma getUser_updUser:
  assumes "\<And>u. usr_id (f u) = usr_id u"
  shows "getUser u (updUser v f s) = map_option (\<lambda>r. if u = v then f r else r) (getUser u s)"
  using find_update_key [of usr_id f u v "st_users s"] assms by (simp add: getUser_def updUser_def)

lemma pol_addPol [simp]: "polOf u (addPol v d s) = map_option (\<lambda>b. if u = v then b + d else b) (polOf u s)"
  by (cases "getUser u s") (auto simp: polOf_def addPol_def getUser_updUser)

lemma blk_addPol [simp]: "blkOf u (addPol v d s) = blkOf u s"
  by (cases "getUser u s") (auto simp: blkOf_def addPol_def getUser_updUser)

lemma blk_addBlk [simp]: "blkOf u (addBlk v d s) = map_option (\<lambda>b. if u = v then b + d else b) (blkOf u s)"
  by (cases "getUser u s") (auto simp: blkOf_def addBlk_def getUser_updUser)

lemma pol_addBlk [simp]: "polOf u (addBlk v d s) = polOf u s"
  by (cases "getUser u s") (auto simp: polOf_def addBlk_def getUser_updUser)

end
