(* ===== verification/MiningEngine.thy ===== *)
theory MiningEngine
  imports Store "HOL-Library.AList"
begin

section \<open>The mining engine\<close>

text \<open>
  \<open>server/src/miningEngine.js\<close> and \<open>server/src/runtime/miningRuntime.js\<close>.  A JavaScript \<open>Map\<close> is
  the association list of its entries in insertion order, and \<open>AList.update\<close> is its \<open>set\<close>.  The
  map \<open>miners\<close> is the list of the miner objects (the key is the object's own \<open>id\<close>);
  \<open>minersByUserId\<close> holds the same objects, so it is modelled as the map from the user to the id
  of the object.  An operation takes the instant \<open>Date.now()\<close> returns, and the fresh uuid
  where it needs one.  Every arithmetic operation on numbers is rounded (\<open>fl\<close>).
\<close>

subsection \<open>State\<close>

record miner =
  mn_id :: string
  mn_userId :: int
  mn_walletAddress :: "string option"
  mn_username :: string
  mn_rigs :: number
  mn_baseHashRate :: number
  mn_active :: bool
  mn_boostMultiplier :: number
  mn_boostEndsAt :: millis
  mn_balance :: number
  mn_lastPersistedBalance :: "number option"
  mn_lifetimeMined :: number
  mn_connected :: bool
  mn_refCode :: "string option"
  mn_referralCount :: int
  mn_miningPayoutMode :: string

record block =
  bl_blockNumber :: int
  bl_reward :: number
  bl_minerCount :: int
  bl_timestamp :: millis
  bl_userRewards :: "(int \<times> number) list"

record engine =
  en_blockNumber :: int
  en_rewardBase :: number
  en_blockTarget :: number
  en_blockProgress :: number
  en_blockDurationMs :: millis
  en_blockStartedAt :: millis
  en_nextBlockAt :: millis
  en_tokenPrice :: number
  en_totalMinted :: number
  en_lastReward :: number
  en_roundWork :: "(string \<times> number) list"
  en_miners :: "miner list"
  en_minersByUserId :: "(int \<times> string) list"
  en_lastBlockAt :: millis
  en_activeMiners :: int
  en_currentNetworkHashRate :: number
  en_blockHistory :: "block list"

definition newEngine :: "millis \<Rightarrow> engine" where
  "newEngine now = \<lparr>en_blockNumber = 1, en_rewardBase = fl (30 / 100), en_blockTarget = 100,
     en_blockProgress = 0, en_blockDurationMs = 10 * 60 * 1000, en_blockStartedAt = now,
     en_nextBlockAt = now + 10 * 60 * 1000, en_tokenPrice = fl (35 / 100), en_totalMinted = 0,
     en_lastReward = 0, en_roundWork = [], en_miners = [], en_minersByUserId = [],
     en_lastBlockAt = now, en_activeMiners = 0, en_currentNetworkHashRate = 0, en_blockHistory = []\<rparr>"

text \<open>A profile handed to the engine: the fields it reads, absent ones \<open>None\<close>.\<close>

record miner_profile =
  mp_rigs :: "number option"
  mp_base_hash_rate :: "number option"
  mp_baseHashRate :: "number option"
  mp_balance :: "number option"
  mp_lifetimeMined :: "number option"
  mp_refCode :: "string option"
  mp_referralCount :: "int option"
  mp_mining_payout_mode :: "string option"
  mp_miningPayoutMode :: "string option"

subsection \<open>Lookups and simple updates\<close>

text \<open>\<open>x || d\<close> on an optional number: zero and \<open>undefined\<close> are falsy.\<close>

definition num_or :: "number option \<Rightarrow> number \<Rightarrow> number" where
  "num_or x d = (case x of Some v \<Rightarrow> if v = 0 then d else v | None \<Rightarrow> d)"

definition getMiner :: "string \<Rightarrow> engine \<Rightarrow> miner option" where
  "getMiner minerId e = find_first (\<lambda>m. mn_id m = minerId) (en_miners e)"

definition updMiner :: "string \<Rightarrow> (miner \<Rightarrow> miner) \<Rightarrow> engine \<Rightarrow> engine" where
  "updMiner minerId f e = e\<lparr>en_miners := update_where (\<lambda>m. mn_id m = minerId) f (en_miners e)\<rparr>"

definition findMinerByUserId :: "int \<Rightarrow> engine \<Rightarrow> miner option" where
  "findMinerByUserId userId e =
     (if userId = 0 then None
      else case map_of (en_minersByUserId e) userId of
        Some minerId \<Rightarrow> getMiner minerId e
      | None \<Rightarrow> None)"

definition payoutMode :: "miner_profile \<Rightarrow> string" where
  "payoutMode p = (if mp_mining_payout_mode p = Some ''blk'' \<or> mp_miningPayoutMode p = Some ''blk''
     then ''blk'' else ''pol'')"

text \<open>Both \<open>reloadMinerProfile\<close> and the rejoin take the larger of the two balances.\<close>

definition syncBalance :: "miner_profile \<Rightarrow> miner \<Rightarrow> miner" where
  "syncBalance p m = (let dbBalance = num_or (mp_balance p) 0
     in if mn_balance m < dbBalance
        then m\<lparr>mn_balance := dbBalance, mn_lastPersistedBalance := Some dbBalance\<rparr> else m)"

definition countOf :: "miner_profile \<Rightarrow> int" where
  "countOf p = (case mp_referralCount p of Some n \<Rightarrow> n | None \<Rightarrow> 0)"

definition reloadMinerProfile :: "int \<Rightarrow> miner_profile option \<Rightarrow> engine \<Rightarrow> engine" where
  "reloadMinerProfile userId loaded e =
     (case loaded of
        None \<Rightarrow> e
      | Some p \<Rightarrow>
          (case findMinerByUserId userId e of
             None \<Rightarrow> e
           | Some miner \<Rightarrow>
               updMiner (mn_id miner) (\<lambda>m. syncBalance p
                 (m\<lparr>mn_rigs := num_or (mp_rigs p) 1,
                    mn_baseHashRate := num_or (mp_base_hash_rate p) 0,
                    mn_refCode := mp_refCode p,
                    mn_referralCount := countOf p,
                    mn_miningPayoutMode := payoutMode p\<rparr>)) e))"

definition profileHashRate :: "miner_profile \<Rightarrow> number" where
  "profileHashRate p = num_or (mp_base_hash_rate p) (num_or (mp_baseHashRate p) 0)"

text \<open>The branch for a miner that is already there, and the object made for a new one.\<close>

definition rejoinMiner ::
  "string option \<Rightarrow> string option \<Rightarrow> miner_profile option \<Rightarrow> miner \<Rightarrow> miner" where
  "rejoinMiner username walletAddress profile m =
     (let m1 = (case username of Some u \<Rightarrow> if u = '''' then m else m\<lparr>mn_username := u\<rparr> | None \<Rightarrow> m);
          m2 = (case walletAddress of Some w \<Rightarrow> if w = '''' then m1 else m1\<lparr>mn_walletAddress := Some w\<rparr> | None \<Rightarrow> m1)
      in case profile of
           None \<Rightarrow> m2
         | Some p \<Rightarrow> syncBalance p
             (m2\<lparr>mn_rigs := num_or (mp_rigs p) 1,
                 mn_baseHashRate := profileHashRate p,
                 mn_refCode := mp_refCode p,
                 mn_referralCount := countOf p,
                 mn_miningPayoutMode := payoutMode p\<rparr>))"

definition newMiner ::
  "string \<Rightarrow> int \<Rightarrow> string option \<Rightarrow> string option \<Rightarrow> miner_profile option \<Rightarrow> miner" where
  "newMiner uuid userId username walletAddress profile =
     (let balance = (case profile of Some p \<Rightarrow> num_or (mp_balance p) 0 | None \<Rightarrow> 0)
      in \<lparr>mn_id = uuid, mn_userId = userId,
          mn_walletAddress = (case walletAddress of Some w \<Rightarrow> if w = '''' then None else Some w | None \<Rightarrow> None),
          mn_username = (case username of Some u \<Rightarrow> if u = '''' then ''Miner-'' @ take 5 uuid else u
                                        | None \<Rightarrow> ''Miner-'' @ take 5 uuid),
          mn_rigs = (case profile of Some p \<Rightarrow> num_or (mp_rigs p) 1 | None \<Rightarrow> 1),
          mn_baseHashRate = (case profile of Some p \<Rightarrow> profileHashRate p | None \<Rightarrow> 0),
          mn_active = True, mn_boostMultiplier = 1, mn_boostEndsAt = 0,
          mn_balance = balance, mn_lastPersistedBalance = Some balance,
          mn_lifetimeMined = (case profile of Some p \<Rightarrow> num_or (mp_lifetimeMined p) 0 | None \<Rightarrow> 0),
          mn_connected = True,
          mn_refCode = (case profile of Some p \<Rightarrow> mp_refCode p | None \<Rightarrow> None),
          mn_referralCount = (case profile of Some p \<Rightarrow> countOf p | None \<Rightarrow> 0),
          mn_miningPayoutMode = (case profile of Some p \<Rightarrow> payoutMode p | None \<Rightarrow> ''pol'')\<rparr>)"

definition createOrGetMiner ::
  "string \<Rightarrow> int \<Rightarrow> string option \<Rightarrow> string option \<Rightarrow> miner_profile option \<Rightarrow> engine \<Rightarrow> string \<times> engine" where
  "createOrGetMiner uuid userId username walletAddress profile e =
     (case findMinerByUserId userId e of
        Some existing \<Rightarrow>
          (mn_id existing, updMiner (mn_id existing) (rejoinMiner username walletAddress profile) e)
      | None \<Rightarrow>
          (uuid, e\<lparr>en_miners := en_miners e @ [newMiner uuid userId username walletAddress profile],
                   en_minersByUserId := AList.update userId uuid (en_minersByUserId e),
                   en_roundWork := AList.update uuid 0 (en_roundWork e)\<rparr>))"

definition setConnected :: "string \<Rightarrow> bool \<Rightarrow> engine \<Rightarrow> engine" where
  "setConnected minerId isConnected = updMiner minerId (\<lambda>m. m\<lparr>mn_connected := isConnected\<rparr>)"

definition setActive :: "string \<Rightarrow> bool \<Rightarrow> engine \<Rightarrow> engine" where
  "setActive minerId active = updMiner minerId (\<lambda>m. m\<lparr>mn_active := active\<rparr>)"

definition setWallet :: "string \<Rightarrow> string option \<Rightarrow> engine \<Rightarrow> engine" where
  "setWallet minerId walletAddress = updMiner minerId (\<lambda>m. m\<lparr>mn_walletAddress :=
     (case walletAddress of Some w \<Rightarrow> if w = '''' then None else Some w | None \<Rightarrow> None)\<rparr>)"

subsection \<open>Purchases inside the engine\<close>

datatype engine_error = MinerNotFound | InsufficientBalance

definition applyBoost :: "millis \<Rightarrow> string \<Rightarrow> engine \<Rightarrow> (engine_error, unit, engine) outcome" where
  "applyBoost now minerId e =
     (case getMiner minerId e of
        None \<Rightarrow> (Inl MinerNotFound, e)
      | Some miner \<Rightarrow>
          let boostCost = fl (35 / 100)
          in if mn_balance miner < boostCost then (Inl InsufficientBalance, e)
             else (Inr (), updMiner minerId (\<lambda>m. m\<lparr>mn_balance := fl (mn_balance m - boostCost),
                     mn_boostMultiplier := 5 / 4, mn_boostEndsAt := now + 30000\<rparr>) e))"

definition rigCost :: "miner \<Rightarrow> number" where
  "rigCost m = fl (2 + fl (fl (mn_rigs m - 1) * fl (8 / 10)))"

definition upgradeRig :: "string \<Rightarrow> engine \<Rightarrow> (engine_error, unit, engine) outcome" where
  "upgradeRig minerId e =
     (case getMiner minerId e of
        None \<Rightarrow> (Inl MinerNotFound, e)
      | Some miner \<Rightarrow>
          if mn_balance miner < rigCost miner then (Inl InsufficientBalance, e)
          else (Inr (), updMiner minerId (\<lambda>m. m\<lparr>mn_balance := fl (mn_balance m - rigCost m),
                  mn_rigs := fl (mn_rigs m + 1), mn_baseHashRate := fl (mn_baseHashRate m + 18)\<rparr>) e))"

subsection \<open>Ticks and blocks\<close>

definition getMinerHashRate :: "miner \<Rightarrow> number" where
  "getMinerHashRate m = (if \<not> mn_active m then 0 else fl (mn_baseHashRate m * mn_boostMultiplier m))"

definition js_sum :: "number list \<Rightarrow> number" where
  "js_sum xs = foldl (\<lambda>s x. fl (s + x)) 0 xs"

definition finalizeBlockDistribution :: "millis \<Rightarrow> engine \<Rightarrow> engine" where
  "finalizeBlockDistribution now e = e\<lparr>en_blockNumber := en_blockNumber e + 1, en_blockProgress := 0,
     en_lastBlockAt := now, en_blockStartedAt := now, en_nextBlockAt := now + en_blockDurationMs e\<rparr>"

text \<open>\<open>blockHistory.unshift(b); if (length > 12) length = 12\<close>\<close>

definition pushHistory :: "block \<Rightarrow> engine \<Rightarrow> engine" where
  "pushHistory b e = e\<lparr>en_blockHistory := take 12 (b # en_blockHistory e)\<rparr>"

record miner_reward =
  mr_minerId :: string
  mr_userId :: int
  mr_username :: string
  mr_walletAddress :: "string option"
  mr_rigs :: number
  mr_baseHashRate :: number
  mr_workAccumulated :: number
  mr_sharePercentage :: number
  mr_rewardAmount :: number
  mr_balanceAfter :: number
  mr_lifetimeMined :: number

text \<open>What the loop over \<open>roundWork\<close> builds: rewards, rewards by user, balances before the block.\<close>

record distribution =
  di_engine :: engine
  di_minerRewards :: "miner_reward list"
  di_userRewards :: "(int \<times> number) list"
  di_snapshot :: "(string \<times> number \<times> number) list"

text \<open>The object handed to \<open>persistBlockRewardsCallback\<close>.\<close>

record block_rewards =
  br_blockNumber :: int
  br_blockReward :: number
  br_totalWork :: number
  br_minerRewards :: "miner_reward list"
  br_now :: millis

definition creditReward :: "number \<Rightarrow> miner \<Rightarrow> miner" where
  "creditReward reward m =
     (let balance = fl (mn_balance m + reward)
      in m\<lparr>mn_balance := balance,
           mn_lastPersistedBalance := Some (fl ((case mn_lastPersistedBalance m of
               Some l \<Rightarrow> l | None \<Rightarrow> fl (balance - reward)) + reward)),
           mn_lifetimeMined := fl (mn_lifetimeMined m + reward)\<rparr>)"

definition clearWork :: "string \<Rightarrow> engine \<Rightarrow> engine" where
  "clearWork minerId e = e\<lparr>en_roundWork := AList.update minerId 0 (en_roundWork e)\<rparr>"

definition rewardMiner :: "number \<Rightarrow> number \<Rightarrow> distribution \<Rightarrow> string \<times> number \<Rightarrow> distribution" where
  "rewardMiner blockReward totalWork d entry =
     (let (minerId, work) = entry; e = di_engine d
      in case getMiner minerId e of
           None \<Rightarrow> d\<lparr>di_engine := clearWork minerId e\<rparr>
         | Some miner \<Rightarrow>
             if work \<le> 0 then d\<lparr>di_engine := clearWork minerId e\<rparr>
             else
               let share = fl (work / totalWork);
                   reward = fl (blockReward * share);
                   miner' = creditReward reward miner;
                   e' = updMiner minerId (creditReward reward) e;
                   e'' = e'\<lparr>en_totalMinted := fl (en_totalMinted e' + reward)\<rparr>
               in \<lparr>di_engine = clearWork minerId e'',
                   di_minerRewards = di_minerRewards d @
                     [\<lparr>mr_minerId = mn_id miner, mr_userId = mn_userId miner,
                       mr_username = mn_username miner, mr_walletAddress = mn_walletAddress miner,
                       mr_rigs = mn_rigs miner, mr_baseHashRate = mn_baseHashRate miner,
                       mr_workAccumulated = work, mr_sharePercentage = fl (share * 100),
                       mr_rewardAmount = reward, mr_balanceAfter = mn_balance miner',
                       mr_lifetimeMined = mn_lifetimeMined miner'\<rparr>],
                   di_userRewards = AList.update (mn_userId miner) reward (di_userRewards d),
                   di_snapshot = AList.update minerId (mn_balance miner, mn_lifetimeMined miner) (di_snapshot d)\<rparr>)"

text \<open>
  \<open>distributeRewards\<close> returns at once; the persistence of the block runs after it.  The result is
  what the engine waits for: the object handed to the callback with the balances to restore
  should it fail.
\<close>

type_synonym pending_block = "block_rewards \<times> (string \<times> number \<times> number) list"

definition distributeRewards :: "millis \<Rightarrow> engine \<Rightarrow> pending_block option \<times> engine" where
  "distributeRewards now e =
     (let minedBlockNumber = en_blockNumber e;
          totalWork = js_sum (map snd (en_roundWork e))
      in if totalWork \<le> 0 then
           (None, finalizeBlockDistribution now
             (pushHistory \<lparr>bl_blockNumber = minedBlockNumber, bl_reward = 0,
                bl_minerCount = en_activeMiners e, bl_timestamp = now, bl_userRewards = []\<rparr>
              (e\<lparr>en_roundWork := map (\<lambda>(minerId, _). (minerId, 0)) (en_roundWork e), en_lastReward := 0\<rparr>)))
         else
           let blockReward = en_rewardBase e;
               d = foldl (rewardMiner blockReward totalWork)
                     \<lparr>di_engine = e, di_minerRewards = [], di_userRewards = [], di_snapshot = []\<rparr>
                     (en_roundWork e);
               e1 = di_engine d;
               e2 = pushHistory \<lparr>bl_blockNumber = minedBlockNumber, bl_reward = blockReward,
                      bl_minerCount = en_activeMiners e1, bl_timestamp = now,
                      bl_userRewards = di_userRewards d\<rparr> e1
           in (if di_minerRewards d = [] then None
               else Some (\<lparr>br_blockNumber = minedBlockNumber, br_blockReward = blockReward,
                           br_totalWork = totalWork, br_minerRewards = di_minerRewards d, br_now = now\<rparr>,
                          di_snapshot d),
               finalizeBlockDistribution now (e2\<lparr>en_lastReward := blockReward\<rparr>)))"

text \<open>The \<open>catch\<close> of the persistence.\<close>

definition restoreMiner ::
  "miner_reward list \<Rightarrow> engine \<Rightarrow> string \<times> number \<times> number \<Rightarrow> engine" where
  "restoreMiner minerRewards e entry =
     (let (minerId, balance, lifetimeMined) = entry
      in case getMiner minerId e of
           None \<Rightarrow> e
         | Some miner \<Rightarrow>
             (case find_first (\<lambda>r. mr_minerId r = minerId) minerRewards of
                None \<Rightarrow> e
              | Some rewardEntry \<Rightarrow>
                  let e' = updMiner minerId (\<lambda>m. m\<lparr>mn_balance := balance, mn_lifetimeMined := lifetimeMined\<rparr>) e
                  in e'\<lparr>en_totalMinted := fl (en_totalMinted e' - mr_rewardAmount rewardEntry)\<rparr>))"

definition rollbackBlock :: "pending_block \<Rightarrow> engine \<Rightarrow> engine" where
  "rollbackBlock p e = foldl (restoreMiner (br_minerRewards (fst p))) e (snd p)"

text \<open>The loop body of \<open>tick\<close>; the accumulator is the engine, the hash rate and the active miners.\<close>

definition expireBoost :: "millis \<Rightarrow> miner \<Rightarrow> miner" where
  "expireBoost now m = (if 0 < mn_boostEndsAt m \<and> mn_boostEndsAt m \<le> now
     then m\<lparr>mn_boostMultiplier := 1, mn_boostEndsAt := 0\<rparr> else m)"

definition workOf :: "string \<Rightarrow> engine \<Rightarrow> number" where
  "workOf minerId e = (case map_of (en_roundWork e) minerId of Some w \<Rightarrow> w | None \<Rightarrow> 0)"

definition tickMiner :: "millis \<Rightarrow> engine \<times> number \<times> int \<Rightarrow> miner \<Rightarrow> engine \<times> number \<times> int" where
  "tickMiner now acc m0 =
     (let (e, totalHashRate, activeMiners) = acc;
          miner = expireBoost now m0;
          e1 = updMiner (mn_id miner) (expireBoost now) e;
          hashRate = getMinerHashRate miner;
          e2 = (if mn_miningPayoutMode miner \<noteq> ''blk''
                then e1\<lparr>en_roundWork := AList.update (mn_id miner)
                          (fl (workOf (mn_id miner) e1 + hashRate)) (en_roundWork e1)\<rparr>
                else e1)
      in (e2, fl (totalHashRate + hashRate), activeMiners + (if 0 < hashRate then 1 else 0)))"

definition tick :: "millis \<Rightarrow> engine \<Rightarrow> pending_block option \<times> engine" where
  "tick now e =
     (let (e1, totalHashRate, activeMiners) = foldl (tickMiner now) (e, 0, 0) (en_miners e);
          e2 = e1\<lparr>en_currentNetworkHashRate := totalHashRate, en_activeMiners := activeMiners\<rparr>;
          (pending, e3) = (if en_nextBlockAt e2 \<le> now then distributeRewards now e2 else (None, e2));
          elapsed = max 0 (now - en_blockStartedAt e3)
      in (pending, e3\<lparr>en_blockProgress := min (en_blockTarget e3)
            (fl (fl (of_int elapsed / of_int (en_blockDurationMs e3)) * en_blockTarget e3))\<rparr>))"

subsection \<open>What clients see\<close>

record leader =
  ld_id :: string
  ld_username :: string
  ld_rigs :: number
  ld_active :: bool
  ld_lifetimeMined :: number
  ld_currentHashRate :: number

text \<open>\<open>Array.prototype.sort\<close> is stable, so the comparison \<open>b - a\<close> is a stable sort by the opposite.\<close>

definition getLeaderboard :: "nat \<Rightarrow> engine \<Rightarrow> leader list" where
  "getLeaderboard limit e = take limit (sort_key (\<lambda>l. - ld_lifetimeMined l)
     (map (\<lambda>m. \<lparr>ld_id = mn_id m, ld_username = mn_username m, ld_rigs = mn_rigs m, ld_active = mn_active m,
        ld_lifetimeMined = mn_lifetimeMined m, ld_currentHashRate = getMinerHashRate m\<rparr>) (en_miners e)))"

record block_view =
  bv_blockNumber :: int
  bv_totalReward :: number
  bv_userReward :: number
  bv_minerCount :: int
  bv_timestamp :: millis

record miner_view =
  mv_id :: string
  mv_username :: string
  mv_walletAddress :: "string option"
  mv_rigs :: number
  mv_active :: bool
  mv_balance :: number
  mv_lifetimeMined :: number
  mv_connected :: bool
  mv_estimatedHashRate :: number
  mv_refCode :: "string option"
  mv_referralCount :: int

record public_state =
  ps_serverTime :: millis
  ps_tokenPrice :: number
  ps_blockReward :: number
  ps_blockNumber :: int
  ps_blockProgress :: number
  ps_blockCountdownSeconds :: int
  ps_totalMiners :: nat
  ps_activeMiners :: int
  ps_networkHashRate :: number
  ps_totalMinted :: number
  ps_lastReward :: number
  ps_blockHistory :: "block_view list"
  ps_leaderboard :: "leader list"
  ps_miner :: "miner_view option"

definition customizeBlock :: "int option \<Rightarrow> block \<Rightarrow> block_view" where
  "customizeBlock userId b = \<lparr>bv_blockNumber = bl_blockNumber b, bv_totalReward = bl_reward b,
     bv_userReward = (case userId of
        Some u \<Rightarrow> if u = 0 then 0 else (case map_of (bl_userRewards b) u of Some r \<Rightarrow> r | None \<Rightarrow> 0)
      | None \<Rightarrow> 0),
     bv_minerCount = bl_minerCount b, bv_timestamp = bl_timestamp b\<rparr>"

definition getPublicState :: "millis \<Rightarrow> string option \<Rightarrow> engine \<Rightarrow> public_state" where
  "getPublicState now minerId e =
     (let miner = (case minerId of Some i \<Rightarrow> getMiner i e | None \<Rightarrow> None);
          remainingMs = max 0 (en_nextBlockAt e - now)
      in \<lparr>ps_serverTime = now, ps_tokenPrice = en_tokenPrice e, ps_blockReward = en_rewardBase e,
          ps_blockNumber = en_blockNumber e, ps_blockProgress = en_blockProgress e,
          ps_blockCountdownSeconds = ceil_div remainingMs 1000,
          ps_totalMiners = length (en_miners e), ps_activeMiners = en_activeMiners e,
          ps_networkHashRate = en_currentNetworkHashRate e, ps_totalMinted = en_totalMinted e,
          ps_lastReward = en_lastReward e,
          ps_blockHistory = map (customizeBlock (map_option mn_userId miner)) (en_blockHistory e),
          ps_leaderboard = getLeaderboard 10 e,
          ps_miner = map_option (\<lambda>m. \<lparr>mv_id = mn_id m, mv_username = mn_username m,
            mv_walletAddress = mn_walletAddress m, mv_rigs = mn_rigs m, mv_active = mn_active m,
            mv_balance = mn_balance m, mv_lifetimeMined = mn_lifetimeMined m,
            mv_connected = mn_connected m, mv_estimatedHashRate = getMinerHashRate m,
            mv_refCode = mn_refCode m, mv_referralCount = mn_referralCount m\<rparr>) miner\<rparr>)"

subsection \<open>The runtime hook of the database code\<close>

text \<open>
  \<open>applyUserBalanceDelta\<close>: a credit or debit that the database already holds.  The expression
  \<open>lastPersistedBalance ?? balance - delta\<close> is read after the balance changed.
\<close>

definition applyUserBalanceDelta :: "int \<Rightarrow> number \<Rightarrow> engine \<Rightarrow> engine" where
  "applyUserBalanceDelta userId delta e =
     (case findMinerByUserId userId e of
        None \<Rightarrow> e
      | Some miner \<Rightarrow> updMiner (mn_id miner)
          (\<lambda>m. let balance = fl (mn_balance m + delta)
               in m\<lparr>mn_balance := balance,
                    mn_lastPersistedBalance := Some (fl ((case mn_lastPersistedBalance m of
                        Some l \<Rightarrow> l | None \<Rightarrow> fl (balance - delta)) + delta))\<rparr>) e)"

end
