(* ===== verification/MiningDb.thy ===== *)
theory MiningDb
  imports MiningEngine
begin

section \<open>The engine and the database\<close>

text \<open>
  \<open>server/models/minerProfileModel.js\<close>, the block tables of
  \<open>server/models/database/serverDatabaseModel.js\<close>, the bootstrap in \<open>server/server.js\<close> and the
  handlers of \<open>server/src/socket/registerMinerSocketHandlers.js\<close>.  The conversion of a number to a
  decimal column (\<open>dec8_of\<close>), the decoded access token, uuids and random referral codes are
  arguments.
\<close>

subsection \<open>Profiles\<close>

text \<open>The hash rate of a user: the rack machines and the powers that have not expired.\<close>

definition machineHashRate :: "int \<Rightarrow> 'a store_scheme \<Rightarrow> number" where
  "machineHashRate userId s =
     js_sum (map um_hashRate (filter (\<lambda>m. um_userId m = userId \<and> um_isActive m) (st_userMiners s)))"

definition gameHashRate :: "millis \<Rightarrow> int \<Rightarrow> 'a store_scheme \<Rightarrow> number" where
  "gameHashRate now userId s =
     js_sum (map pg_hashRate (filter (\<lambda>g. pg_userId g = userId \<and> now < pg_expiresAt g) (st_gamePowers s)))"

definition ytHashRate :: "millis \<Rightarrow> int \<Rightarrow> 'a store_scheme \<Rightarrow> number" where
  "ytHashRate now userId s =
     js_sum (map tp_hashRate (filter (\<lambda>p. tp_userId p = userId \<and> now < tp_expiresAt p) (st_ytPowers s)))"

definition gpuHashRate :: "millis \<Rightarrow> bool \<Rightarrow> int \<Rightarrow> 'a store_scheme \<Rightarrow> number" where
  "gpuHashRate now v2Ok userId s =
     fl (js_sum (map tp_hashRate (filter (\<lambda>p. tp_userId p = userId \<and> tp_isClaimed p \<and> now < tp_expiresAt p)
           (st_gpuPowers s)))
       + (if v2Ok then js_sum (map tp_hashRate (filter (\<lambda>p. tp_userId p = userId \<and> now < tp_expiresAt p)
           (st_v2Powers s))) else 0))"

definition syncUserBaseHashRate :: "millis \<Rightarrow> bool \<Rightarrow> int \<Rightarrow> 'a store_scheme \<Rightarrow> number" where
  "syncUserBaseHashRate now v2Ok userId s =
     fl (fl (fl (machineHashRate userId s + gameHashRate now userId s) + ytHashRate now userId s)
         + gpuHashRate now v2Ok userId s)"

record loaded_profile = miner_profile +
  lp_username :: "string option"
  lp_inventoryCount :: int
  lp_machine_hash_rate :: number
  lp_game_hash_rate :: number
  lp_youtube_hash_rate :: number
  lp_auto_mining_hash_rate :: number
  lp_lifetime_mined :: number

text \<open>A missing user makes \<open>dbUser.refCode\<close> throw: \<open>None\<close>.\<close>

definition getOrCreateMinerProfile ::
  "millis \<Rightarrow> bool \<Rightarrow> string \<Rightarrow> int \<Rightarrow> 'a store_scheme \<Rightarrow> (loaded_profile \<times> 'a store_scheme) option" where
  "getOrCreateMinerProfile now v2Ok newRefCode userId s =
     (case getUser userId s of
        None \<Rightarrow> None
      | Some u \<Rightarrow>
          let noCode = (usr_refCode u = None \<or> usr_refCode u = Some '''');
              s1 = (if noCode then updUser userId (\<lambda>u. u\<lparr>usr_refCode := Some newRefCode\<rparr>) s else s);
              code = (if noCode then Some newRefCode else usr_refCode u);
              rigs = length (filter (\<lambda>m. um_userId m = userId \<and> um_isActive m) (st_userMiners s1))
          in Some (\<lparr>mp_rigs = Some (of_nat rigs),
                mp_base_hash_rate = Some (syncUserBaseHashRate now v2Ok userId s1),
                mp_baseHashRate = None,
                mp_balance = Some (toNumber (usr_polBalance u)),
                mp_lifetimeMined = None,
                mp_refCode = code,
                mp_referralCount = Some (int (count_where (\<lambda>r. usr_referredBy r = Some userId) (st_users s1))),
                mp_mining_payout_mode = Some (if usr_miningPayoutMode u = ''blk'' then ''blk'' else ''pol''),
                mp_miningPayoutMode = Some (usr_miningPayoutMode u),
                lp_username = usr_username u,
                lp_inventoryCount = int (count_where (\<lambda>i. inv_userId i = userId) (st_inventory s1)),
                lp_machine_hash_rate = machineHashRate userId s1,
                lp_game_hash_rate = gameHashRate now userId s1,
                lp_youtube_hash_rate = ytHashRate now userId s1,
                lp_auto_mining_hash_rate = gpuHashRate now v2Ok userId s1,
                lp_lifetime_mined = 0\<rparr>, s1))"

subsection \<open>Persisting balances\<close>

text \<open>
  \<open>persistMinerProfile\<close> has one \<open>await\<close>: the delta is computed before the update is sent, and
  \<open>lastPersistedBalance\<close> is set from the balance of the object after it returned.  The two halves
  are two steps; \<open>persistMinerProfile\<close> is their composition when nothing runs in between.
\<close>

definition persistDelta :: "miner \<Rightarrow> number" where
  "persistDelta m = fl (mn_balance m - (case mn_lastPersistedBalance m of Some l \<Rightarrow> l | None \<Rightarrow> mn_balance m))"

definition persistStart :: "string \<Rightarrow> engine \<Rightarrow> (int \<times> number) option" where
  "persistStart minerId e =
     (case getMiner minerId e of
        None \<Rightarrow> None
      | Some m \<Rightarrow>
          if mn_userId m = 0 then None
          else if \<bar>persistDelta m\<bar> < fl (1 / 10 ^ 7) then None
          else Some (mn_userId m, persistDelta m))"

definition persistWrite ::
  "(number \<Rightarrow> dec8) \<Rightarrow> int \<Rightarrow> number \<Rightarrow> 'a store_scheme \<Rightarrow> 'a store_scheme option" where
  "persistWrite dec8_of userId delta s =
     (case getUser userId s of
        None \<Rightarrow> None
      | Some _ \<Rightarrow> Some (addPol userId (if 0 < delta then dec8_of delta else - dec8_of (- delta)) s))"

definition persistFinish :: "string \<Rightarrow> engine \<Rightarrow> engine" where
  "persistFinish minerId = updMiner minerId (\<lambda>m. m\<lparr>mn_lastPersistedBalance := Some (mn_balance m)\<rparr>)"

definition persistMinerProfile ::
  "(number \<Rightarrow> dec8) \<Rightarrow> string \<Rightarrow> engine \<times> 'a store_scheme \<Rightarrow> engine \<times> 'a store_scheme" where
  "persistMinerProfile dec8_of minerId w =
     (case persistStart minerId (fst w) of
        None \<Rightarrow> w
      | Some (userId, delta) \<Rightarrow>
          (case persistWrite dec8_of userId delta (snd w) of
             None \<Rightarrow> w
           | Some s \<Rightarrow> (persistFinish minerId (fst w), s)))"

text \<open>The timer of \<open>server/cron/miningCron.js\<close>; a rejected save does not stop the others.\<close>

definition persistAll :: "(number \<Rightarrow> dec8) \<Rightarrow> engine \<times> 'a store_scheme \<Rightarrow> engine \<times> 'a store_scheme" where
  "persistAll dec8_of w = foldl (\<lambda>w minerId. persistMinerProfile dec8_of minerId w) w (map mn_id (en_miners (fst w)))"

subsection \<open>Persisting a block\<close>

record rewards_log =
  rl_id :: int
  rl_userId :: int
  rl_blockNumber :: int
  rl_workAccumulated :: number
  rl_totalNetworkWork :: number
  rl_sharePercentage :: number
  rl_rewardAmount :: number
  rl_balanceAfterReward :: number
  rl_createdAt :: millis

record referral_earning =
  re_referrerId :: int
  re_referredId :: int
  re_amount :: number
  re_source :: string
  re_createdAt :: millis

record block_miner_reward =
  bm_userId :: int
  bm_work :: number
  bm_percentage :: number
  bm_rewardAmount :: number
  bm_createdAt :: millis

record block_distribution =
  bd_blockNumber :: int
  bd_reward :: number
  bd_minerCount :: int
  bd_totalWork :: number
  bd_createdAt :: millis
  bd_minerRewards :: "block_miner_reward list"

record notification =
  nt_userId :: int
  nt_title :: string
  nt_type :: string

record mining_store = store +
  ms_rewardsLog :: "rewards_log list"
  ms_referralEarnings :: "referral_earning list"
  ms_blocks :: "block_distribution list"
  ms_notifications :: "notification list"

datatype db_error = RecordNotFound | UniqueViolation

definition logReward :: "block_rewards \<Rightarrow> miner_reward \<Rightarrow> mining_store \<Rightarrow> mining_store" where
  "logReward b r s = s\<lparr>ms_rewardsLog := ms_rewardsLog s @
      [\<lparr>rl_id = st_next s, rl_userId = mr_userId r, rl_blockNumber = br_blockNumber b,
        rl_workAccumulated = mr_workAccumulated r, rl_totalNetworkWork = br_totalWork b,
        rl_sharePercentage = mr_sharePercentage r, rl_rewardAmount = mr_rewardAmount r,
        rl_balanceAfterReward = mr_balanceAfter r, rl_createdAt = br_now b\<rparr>],
     st_next := st_next s + 1\<rparr>"

definition commissionOf :: "miner_reward \<Rightarrow> number" where
  "commissionOf r = fl (mr_rewardAmount r * fl (1 / 100))"

text \<open>
  The referral commission: the row of the referrer must exist, or the update throws.  A referrer id
  of 0 is falsy.
\<close>

definition payReferral ::
  "(number \<Rightarrow> dec8) \<Rightarrow> block_rewards \<Rightarrow> miner_reward \<Rightarrow> mining_store
    \<Rightarrow> (db_error, (int \<times> number) list, mining_store) outcome" where
  "payReferral dec8_of b r s =
     (case getUser (mr_userId r) s of
        None \<Rightarrow> (Inr [], s)
      | Some user \<Rightarrow>
          (case usr_referredBy user of
             None \<Rightarrow> (Inr [], s)
           | Some referrer \<Rightarrow>
               if referrer = 0 \<or> mr_rewardAmount r \<le> 0 then (Inr [], s)
               else if getUser referrer s = None then (Inl RecordNotFound, s)
               else (Inr [(referrer, commissionOf r)],
                     (addPol referrer (dec8_of (commissionOf r)) s)\<lparr>ms_referralEarnings := ms_referralEarnings s @
                       [\<lparr>re_referrerId = referrer, re_referredId = mr_userId r, re_amount = commissionOf r,
                         re_source = ''mining_block_'' @ show_int (br_blockNumber b), re_createdAt = br_now b\<rparr>]\<rparr>)))"

text \<open>\<open>createNotification\<close> uses the client of its own, outside the transaction; see \<open>persistBlockRewards\<close>.\<close>

definition persistReward ::
  "(number \<Rightarrow> dec8) \<Rightarrow> block_rewards \<Rightarrow> miner_reward \<Rightarrow> mining_store
    \<Rightarrow> (db_error, (int \<times> number) list, mining_store) outcome" where
  "persistReward dec8_of b r s =
     (let s1 = logReward b r s
      in if getUser (mr_userId r) s1 = None then (Inl RecordNotFound, s1)
         else payReferral dec8_of b r (addPol (mr_userId r) (dec8_of (mr_rewardAmount r)) s1))"

fun persistRewards ::
  "(number \<Rightarrow> dec8) \<Rightarrow> block_rewards \<Rightarrow> miner_reward list \<Rightarrow> mining_store
    \<Rightarrow> (db_error, (int \<times> number) list, mining_store) outcome" where
  "persistRewards dec8_of b [] s = (Inr [], s)"
| "persistRewards dec8_of b (r # rs) s =
     (case persistReward dec8_of b r s of
        (Inl err, s1) \<Rightarrow> (Inl err, s1)
      | (Inr ds, s1) \<Rightarrow>
          (case persistRewards dec8_of b rs s1 of
             (Inl err, s2) \<Rightarrow> (Inl err, s2)
           | (Inr ds', s2) \<Rightarrow> (Inr (ds @ ds'), s2)))"

definition createBlock :: "block_rewards \<Rightarrow> mining_store \<Rightarrow> (db_error, unit, mining_store) outcome" where
  "createBlock b s =
     (if \<exists>r \<in> set (ms_blocks s). bd_blockNumber r = br_blockNumber b then (Inl UniqueViolation, s)
      else (Inr (), s\<lparr>ms_blocks := ms_blocks s @
        [\<lparr>bd_blockNumber = br_blockNumber b, bd_reward = br_blockReward b,
          bd_minerCount = int (length (br_minerRewards b)), bd_totalWork = br_totalWork b,
          bd_createdAt = br_now b,
          bd_minerRewards = map (\<lambda>r. \<lparr>bm_userId = mr_userId r, bm_work = mr_workAccumulated r,
            bm_percentage = mr_sharePercentage r, bm_rewardAmount = mr_rewardAmount r,
            bm_createdAt = br_now b\<rparr>) (br_minerRewards b)\<rparr>]\<rparr>))"

text \<open>
  The whole callback: the transaction, then the commissions into the engine.  The notifications of
  the rewards reached before an error are kept, as they are written outside the transaction.
\<close>

definition blockTransaction ::
  "(number \<Rightarrow> dec8) \<Rightarrow> block_rewards \<Rightarrow> mining_store \<Rightarrow> (db_error, (int \<times> number) list, mining_store) outcome" where
  "blockTransaction dec8_of b = transaction (\<lambda>s.
     case persistRewards dec8_of b (br_minerRewards b) s of
       (Inl err, s1) \<Rightarrow> (Inl err, s1)
     | (Inr deltas, s1) \<Rightarrow>
         (case createBlock b s1 of
            (Inl err, s2) \<Rightarrow> (Inl err, s2)
          | (Inr _, s2) \<Rightarrow> (Inr deltas, s2)))"

text \<open>How many rewards the loop completes before one throws.\<close>

fun rewardsDone :: "(number \<Rightarrow> dec8) \<Rightarrow> block_rewards \<Rightarrow> miner_reward list \<Rightarrow> mining_store \<Rightarrow> miner_reward list" where
  "rewardsDone dec8_of b [] s = []"
| "rewardsDone dec8_of b (r # rs) s =
     (case persistReward dec8_of b r s of
        (Inl _, _) \<Rightarrow> []
      | (Inr _, s1) \<Rightarrow> r # rewardsDone dec8_of b rs s1)"

definition persistBlockRewards ::
  "(number \<Rightarrow> dec8) \<Rightarrow> block_rewards \<Rightarrow> engine \<times> mining_store \<Rightarrow> (db_error, unit, engine \<times> mining_store) outcome" where
  "persistBlockRewards dec8_of b w =
     (let (e, s) = w;
          notified = map (\<lambda>r. \<lparr>nt_userId = mr_userId r,
              nt_title = ''Bloco #'' @ show_int (br_blockNumber b) @ '' Minerado'', nt_type = ''reward''\<rparr>)
            (filter (\<lambda>r. 0 < mr_rewardAmount r) (rewardsDone dec8_of b (br_minerRewards b) s));
          (r, s1) = blockTransaction dec8_of b s;
          s2 = s1\<lparr>ms_notifications := ms_notifications s1 @ notified\<rparr>
      in case r of
           Inl err \<Rightarrow> (Inl err, (e, s2))
         | Inr deltas \<Rightarrow> (Inr (), (foldl (\<lambda>e (userId, delta). applyUserBalanceDelta userId delta e) e deltas, s2)))"

subsection \<open>Loading the history\<close>

record log_block =
  lb_blockNumber :: int
  lb_minerCount :: int
  lb_timestamp :: millis
  lb_userRewards :: "(int \<times> number) list"

text \<open>\<open>orderBy: { blockNumber: "desc" }, take: n\<close>\<close>

definition blocksDesc :: "mining_store \<Rightarrow> nat \<Rightarrow> block list" where
  "blocksDesc s n = map (\<lambda>b. \<lparr>bl_blockNumber = bd_blockNumber b, bl_reward = bd_reward b,
        bl_minerCount = bd_minerCount b, bl_timestamp = bd_createdAt b,
        bl_userRewards = foldl (\<lambda>acc r. AList.update (bm_userId r) (bm_rewardAmount r) acc) [] (bd_minerRewards b)\<rparr>)
     (take n (sort_key (\<lambda>b. - bd_blockNumber b) (ms_blocks s)))"

text \<open>One row of the reward log added to the blocks rebuilt so far (a \<open>Map\<close> by block number).\<close>

definition addLogRow :: "nat \<Rightarrow> (int \<times> block) list \<Rightarrow> rewards_log \<Rightarrow> (int \<times> block) list" where
  "addLogRow remainingCount acc row =
     (if remainingCount \<le> length acc \<and> rl_blockNumber row \<notin> fst ` set acc then acc
      else
        let b = (case map_of acc (rl_blockNumber row) of
                   Some b \<Rightarrow> b
                 | None \<Rightarrow> \<lparr>bl_blockNumber = rl_blockNumber row, bl_reward = fl (1 / 10), bl_minerCount = 0,
                            bl_timestamp = rl_createdAt row, bl_userRewards = []\<rparr>)
        in AList.update (rl_blockNumber row)
             (b\<lparr>bl_userRewards := AList.update (rl_userId row) (rl_rewardAmount row) (bl_userRewards b),
                bl_minerCount := bl_minerCount b + 1\<rparr>) acc)"

definition loadRecentBlocks :: "nat \<Rightarrow> mining_store \<Rightarrow> block list" where
  "loadRecentBlocks limit s =
     (let formattedBlocks = blocksDesc s limit
      in if limit \<le> length formattedBlocks then formattedBlocks
         else
           let already = map bl_blockNumber formattedBlocks;
               remainingCount = limit - length formattedBlocks;
               recentLogs = take 5000 (sort_key (\<lambda>l. - rl_id l)
                 (filter (\<lambda>l. rl_blockNumber l \<notin> set already) (ms_rewardsLog s)));
               fallback = foldl (addLogRow remainingCount) [] recentLogs
           in take limit (sort_key (\<lambda>b. - bl_blockNumber b) (formattedBlocks @ map snd fallback)))"

text \<open>\<open>bootstrapEngine\<close>: the history and the next block number, then the users with a hash rate.\<close>

definition maxOr0 :: "int list \<Rightarrow> int" where
  "maxOr0 xs = (if xs = [] then 0 else Max (set xs))"

definition bootstrapHistory :: "mining_store \<Rightarrow> engine \<Rightarrow> engine" where
  "bootstrapHistory s e =
     (let blocks = loadRecentBlocks 12 s;
          e1 = (if blocks = [] then e else e\<lparr>en_blockHistory := blocks\<rparr>);
          currentMax = max (maxOr0 (map bd_blockNumber (ms_blocks s))) (maxOr0 (map rl_blockNumber (ms_rewardsLog s)))
      in e1\<lparr>en_blockNumber := currentMax + 1\<rparr>)"

text \<open>
  The object both \<open>syncEngineMiners\<close> and the handler of \<open>miner:join\<close> hand to the engine: six
  fields of the profile.
\<close>

definition joinProfile :: "loaded_profile \<Rightarrow> miner_profile" where
  "joinProfile p = \<lparr>mp_rigs = mp_rigs p, mp_base_hash_rate = mp_base_hash_rate p, mp_baseHashRate = None,
     mp_balance = mp_balance p, mp_lifetimeMined = Some (lp_lifetime_mined p), mp_refCode = mp_refCode p,
     mp_referralCount = mp_referralCount p, mp_mining_payout_mode = None, mp_miningPayoutMode = None\<rparr>"

definition joinName :: "loaded_profile \<Rightarrow> user \<Rightarrow> string" where
  "joinName p u = (case lp_username p of Some n \<Rightarrow> if n = '''' then usr_name u else n | None \<Rightarrow> usr_name u)"

definition syncUser ::
  "millis \<Rightarrow> bool \<Rightarrow> (int \<Rightarrow> string) \<Rightarrow> (int \<Rightarrow> string) \<Rightarrow> user \<Rightarrow> engine \<times> 'a store_scheme \<Rightarrow> engine \<times> 'a store_scheme" where
  "syncUser now v2Ok uuidOf refCodeOf user w =
     (case getOrCreateMinerProfile now v2Ok (refCodeOf (usr_id user)) (usr_id user) (snd w) of
        None \<Rightarrow> w
      | Some (p, s) \<Rightarrow>
          (if 0 < num_or (mp_base_hash_rate p) 0
           then snd (createOrGetMiner (uuidOf (usr_id user)) (usr_id user) (Some (joinName p user)) None
                  (Some (joinProfile p)) (fst w))
           else fst w, s))"

definition syncEngineMiners ::
  "millis \<Rightarrow> bool \<Rightarrow> (int \<Rightarrow> string) \<Rightarrow> (int \<Rightarrow> string) \<Rightarrow> engine \<times> 'a store_scheme \<Rightarrow> engine \<times> 'a store_scheme" where
  "syncEngineMiners now v2Ok uuidOf refCodeOf w =
     foldl (\<lambda>w u. syncUser now v2Ok uuidOf refCodeOf u w) w (filter (\<lambda>u. \<not> usr_isBanned u) (st_users (snd w)))"

subsection \<open>The socket handlers\<close>

datatype socket_error = InvalidSession | NotConnected | Refused engine_error

text \<open>\<open>miner:join\<close>: \<open>auth\<close> is the subject of the verified token, when there is a valid one.\<close>

definition minerJoin ::
  "millis \<Rightarrow> bool \<Rightarrow> string \<Rightarrow> string \<Rightarrow> int option \<Rightarrow> engine \<times> 'a store_scheme
    \<Rightarrow> (socket_error, string, engine \<times> 'a store_scheme) outcome" where
  "minerJoin now v2Ok uuid newRefCode auth w =
     (case auth of
        None \<Rightarrow> (Inl InvalidSession, w)
      | Some userId \<Rightarrow>
          if userId = 0 then (Inl InvalidSession, w)
          else case getUser userId (snd w) of
            None \<Rightarrow> (Inl InvalidSession, w)
          | Some user \<Rightarrow>
              (case getOrCreateMinerProfile now v2Ok newRefCode userId (snd w) of
                 None \<Rightarrow> (Inl InvalidSession, w)
               | Some (p, s) \<Rightarrow>
                   let (minerId, e) = createOrGetMiner uuid userId (Some (joinName p user)) None
                         (Some (joinProfile p)) (fst w)
                   in (Inr minerId, (setConnected minerId True e, s))))"

definition minerToggle ::
  "(number \<Rightarrow> dec8) \<Rightarrow> string option \<Rightarrow> bool \<Rightarrow> engine \<times> 'a store_scheme
    \<Rightarrow> (socket_error, unit, engine \<times> 'a store_scheme) outcome" where
  "minerToggle dec8_of socketMiner active w =
     (case socketMiner of
        None \<Rightarrow> (Inl NotConnected, w)
      | Some minerId \<Rightarrow> (Inr (), persistMinerProfile dec8_of minerId (setActive minerId active (fst w), snd w)))"

definition minerBoost ::
  "millis \<Rightarrow> string option \<Rightarrow> engine \<times> 'a store_scheme \<Rightarrow> (socket_error, unit, engine \<times> 'a store_scheme) outcome" where
  "minerBoost now socketMiner w =
     (case socketMiner of
        None \<Rightarrow> (Inl NotConnected, w)
      | Some minerId \<Rightarrow>
          (case applyBoost now minerId (fst w) of
             (Inl err, e) \<Rightarrow> (Inl (Refused err), (e, snd w))
           | (Inr _, e) \<Rightarrow> (Inr (), (e, snd w))))"

definition minerUpgradeRig ::
  "(number \<Rightarrow> dec8) \<Rightarrow> string option \<Rightarrow> engine \<times> 'a store_scheme
    \<Rightarrow> (socket_error, unit, engine \<times> 'a store_scheme) outcome" where
  "minerUpgradeRig dec8_of socketMiner w =
     (case socketMiner of
        None \<Rightarrow> (Inl NotConnected, w)
      | Some minerId \<Rightarrow>
          (case upgradeRig minerId (fst w) of
             (Inl err, e) \<Rightarrow> (Inl (Refused err), (e, snd w))
           | (Inr _, e) \<Rightarrow> (Inr (), persistMinerProfile dec8_of minerId (e, snd w))))"

definition minerWalletLink ::
  "(number \<Rightarrow> dec8) \<Rightarrow> string option \<Rightarrow> string option \<Rightarrow> engine \<times> 'a store_scheme
    \<Rightarrow> (socket_error, unit, engine \<times> 'a store_scheme) outcome" where
  "minerWalletLink dec8_of socketMiner walletAddress w =
     (case socketMiner of
        None \<Rightarrow> (Inl NotConnected, w)
      | Some minerId \<Rightarrow>
          (Inr (), persistMinerProfile dec8_of minerId (setWallet minerId walletAddress (fst w), snd w)))"

definition minerDisconnect ::
  "(number \<Rightarrow> dec8) \<Rightarrow> string option \<Rightarrow> engine \<times> 'a store_scheme \<Rightarrow> engine \<times> 'a store_scheme" where
  "minerDisconnect dec8_of socketMiner w =
     (case socketMiner of
        None \<Rightarrow> w
      | Some minerId \<Rightarrow>
          let (e, s) = persistMinerProfile dec8_of minerId w in (setConnected minerId False e, s))"

end
