(* ===== verification/MiningProofs.thy ===== *)
theory MiningProofs
  imports MiningDb
begin

section \<open>Lemmas about the mining engine\<close>

subsection \<open>Rounded sums\<close>

text \<open>The relative error of one operation.\<close>

definition ulp53 :: rat where
  "ulp53 = 1 / 2 ^ 53"

lemma ulp53_bounds: "0 \<le> ulp53" "0 \<le> 1 - ulp53" "1 - ulp53 \<le> 1" "0 \<le> 1 + ulp53" "1 \<le> 1 + ulp53"
  by (simp_all add: ulp53_def)

lemma fl_lower: "0 \<le> x \<Longrightarrow> x * (1 - ulp53) \<le> fl x"
  using fl_err [of x] by (simp add: ulp53_def abs_if field_simps split: if_splits)

lemma fl_upper: "0 \<le> x \<Longrightarrow> fl x \<le> x * (1 + ulp53)"
  using fl_err [of x] by (simp add: ulp53_def abs_if field_simps split: if_splits)

lemma foldl_fl_nonneg:
  assumes "\<forall>x \<in> set xs. 0 \<le> x" and "0 \<le> a"
  shows "0 \<le> foldl (\<lambda>s x. fl (s + x)) a xs"
  using assms
proof (induction xs arbitrary: a)
  case (Cons x xs)
  then have "0 \<le> fl (a + x)" by (intro fl_nonneg) simp
  with Cons show ?case by simp
qed simp

lemma foldl_fl_bounds:
  assumes "\<forall>x \<in> set xs. 0 \<le> x" and "0 \<le> a"
  shows "(a + sum_list xs) * (1 - ulp53) ^ length xs \<le> foldl (\<lambda>s x. fl (s + x)) a xs"
    and "foldl (\<lambda>s x. fl (s + x)) a xs \<le> (a + sum_list xs) * (1 + ulp53) ^ length xs"
proof -
  note p = ulp53_bounds(2,3)
  show "(a + sum_list xs) * (1 - ulp53) ^ length xs \<le> foldl (\<lambda>s x. fl (s + x)) a xs"
    using assms
  proof (induction xs arbitrary: a)
    case Nil
    then show ?case by simp
  next
    case (Cons x xs)
    then have n: "0 \<le> a + x" "0 \<le> fl (a + x)" "0 \<le> sum_list xs"
      by (auto intro: fl_nonneg sum_list_nonneg)
    have "(a + x + sum_list xs) * (1 - ulp53) \<le> (a + x) * (1 - ulp53) + sum_list xs"
      using n(3) mult_left_le [OF p(2) n(3)] by (simp only: distrib_right)
    also have "\<dots> \<le> fl (a + x) + sum_list xs" using fl_lower [OF n(1)] by simp
    finally have "(a + x + sum_list xs) * (1 - ulp53) * (1 - ulp53) ^ length xs
      \<le> (fl (a + x) + sum_list xs) * (1 - ulp53) ^ length xs"
      using p by (intro mult_right_mono zero_le_power)
    also have "\<dots> \<le> foldl (\<lambda>s x. fl (s + x)) (fl (a + x)) xs" using Cons n by auto
    finally show ?case by (simp add: mult.assoc add.assoc)
  qed
  show "foldl (\<lambda>s x. fl (s + x)) a xs \<le> (a + sum_list xs) * (1 + ulp53) ^ length xs"
    using assms
  proof (induction xs arbitrary: a)
    case Nil
    then show ?case by simp
  next
    case (Cons x xs)
    then have n: "0 \<le> a + x" "0 \<le> fl (a + x)" "0 \<le> sum_list xs"
      by (auto intro: fl_nonneg sum_list_nonneg)
    have "foldl (\<lambda>s x. fl (s + x)) (fl (a + x)) xs
      \<le> (fl (a + x) + sum_list xs) * (1 + ulp53) ^ length xs" using Cons n by auto
    also have "\<dots> \<le> (a + x + sum_list xs) * (1 + ulp53) * (1 + ulp53) ^ length xs"
    proof (intro mult_right_mono)
      have "fl (a + x) + sum_list xs \<le> (a + x) * (1 + ulp53) + sum_list xs * (1 + ulp53)"
        using fl_upper [OF n(1)] n(3) mult_left_mono [of 1 "1 + ulp53" "sum_list xs"] ulp53_bounds by simp
      then show "fl (a + x) + sum_list xs \<le> (a + x + sum_list xs) * (1 + ulp53)"
        by (simp only: distrib_right)
    qed (simp add: ulp53_bounds)
    finally show ?case by (simp add: mult.assoc add.assoc)
  qed
qed

lemma js_sum_bounds:
  assumes "\<forall>x \<in> set xs. 0 \<le> x"
  shows "sum_list xs * (1 - ulp53) ^ length xs \<le> js_sum xs"
    and "js_sum xs \<le> sum_list xs * (1 + ulp53) ^ length xs"
    and "0 \<le> js_sum xs"
  using foldl_fl_bounds [OF assms, of 0] foldl_fl_nonneg [OF assms, of 0] by (simp_all add: js_sum_def)

subsection \<open>Looking up miners\<close>

lemma getMiner_SomeD: "getMiner i e = Some m \<Longrightarrow> m \<in> set (en_miners e) \<and> mn_id m = i"
  unfolding getMiner_def by (rule find_first_Some_conj)

lemma getMiner_updMiner:
  assumes "\<And>m. mn_id (f m) = mn_id m"
  shows "getMiner i (updMiner j f e) = map_option (\<lambda>m. if i = j then f m else m) (getMiner i e)"
  using find_update_key [of mn_id f i j "en_miners e"] assms by (simp add: getMiner_def updMiner_def)

lemma getMiner_in:
  "unique_key mn_id (en_miners e) \<Longrightarrow> m \<in> set (en_miners e) \<Longrightarrow> getMiner (mn_id m) e = Some m"
  unfolding getMiner_def by (rule find_first_key)

lemma updMiner_simps [simp]:
  "en_blockNumber (updMiner i f e) = en_blockNumber e" "en_rewardBase (updMiner i f e) = en_rewardBase e"
  "en_blockTarget (updMiner i f e) = en_blockTarget e" "en_blockDurationMs (updMiner i f e) = en_blockDurationMs e"
  "en_blockStartedAt (updMiner i f e) = en_blockStartedAt e" "en_nextBlockAt (updMiner i f e) = en_nextBlockAt e"
  "en_totalMinted (updMiner i f e) = en_totalMinted e" "en_roundWork (updMiner i f e) = en_roundWork e"
  "en_minersByUserId (updMiner i f e) = en_minersByUserId e" "en_blockHistory (updMiner i f e) = en_blockHistory e"
  "en_activeMiners (updMiner i f e) = en_activeMiners e"
  "en_blockProgress (updMiner i f e) = en_blockProgress e"
  by (simp_all add: updMiner_def)

lemma creditReward_simps [simp]:
  "mn_id (creditReward r m) = mn_id m" "mn_userId (creditReward r m) = mn_userId m"
  "mn_baseHashRate (creditReward r m) = mn_baseHashRate m" "mn_active (creditReward r m) = mn_active m"
  "mn_boostMultiplier (creditReward r m) = mn_boostMultiplier m" "mn_boostEndsAt (creditReward r m) = mn_boostEndsAt m"
  "mn_balance (creditReward r m) = fl (mn_balance m + r)"
  "mn_lifetimeMined (creditReward r m) = fl (mn_lifetimeMined m + r)"
  "mn_miningPayoutMode (creditReward r m) = mn_miningPayoutMode m"
  by (simp_all add: creditReward_def Let_def)

lemma creditReward_persisted:
  "mn_lastPersistedBalance m = Some l \<Longrightarrow> mn_lastPersistedBalance (creditReward r m) = Some (fl (l + r))"
  by (simp add: creditReward_def Let_def)

subsection \<open>The reward loop\<close>

definition rewardOf :: "number \<Rightarrow> number \<Rightarrow> number \<Rightarrow> number" where
  "rewardOf R T w = fl (R * fl (w / T))"

lemma rewardOf_bounds:
  assumes "0 \<le> R" and "0 < T" and "0 \<le> w"
  shows "0 \<le> rewardOf R T w" and "rewardOf R T w * T \<le> R * (1 + ulp53)\<^sup>2 * w"
    and "R * (1 - ulp53)\<^sup>2 * w \<le> rewardOf R T w * T"
proof -
  have q: "0 \<le> w / T" using assms by simp
  have f: "0 \<le> fl (w / T)" using q by (rule fl_nonneg)
  have x: "0 \<le> R * fl (w / T)" using assms(1) f by simp
  show "0 \<le> rewardOf R T w" unfolding rewardOf_def using x by (rule fl_nonneg)
  have "rewardOf R T w \<le> R * fl (w / T) * (1 + ulp53)" unfolding rewardOf_def using x by (rule fl_upper)
  also have "\<dots> \<le> R * (w / T * (1 + ulp53)) * (1 + ulp53)"
    using assms(1) fl_upper [OF q] by (intro mult_right_mono mult_left_mono) (simp_all add: ulp53_bounds)
  finally have "rewardOf R T w * T \<le> R * (w / T * (1 + ulp53)) * (1 + ulp53) * T"
    using assms(2) by (intro mult_right_mono) simp_all
  also have "\<dots> = R * (1 + ulp53)\<^sup>2 * w" using assms(2) by (simp add: power2_eq_square mult.assoc mult.left_commute)
  finally show "rewardOf R T w * T \<le> R * (1 + ulp53)\<^sup>2 * w" .
  have "R * (1 - ulp53)\<^sup>2 * w = R * (w / T * (1 - ulp53)) * (1 - ulp53) * T"
    using assms(2) by (simp add: power2_eq_square mult.assoc mult.left_commute)
  also have "\<dots> \<le> R * fl (w / T) * (1 - ulp53) * T"
    using assms(1,2) fl_lower [OF q] ulp53_bounds(2) by (intro mult_right_mono mult_left_mono) simp_all
  also have "\<dots> \<le> rewardOf R T w * T"
    unfolding rewardOf_def using fl_lower [OF x] assms(2) by (intro mult_right_mono) simp_all
  finally show "R * (1 - ulp53)\<^sup>2 * w \<le> rewardOf R T w * T" .
qed

lemma rewardOf_pos: "0 < R \<Longrightarrow> 0 < T \<Longrightarrow> 0 < w \<Longrightarrow> 0 < rewardOf R T w"
  using fl_pos_pos [of "w / T"] fl_pos_pos [of "R * fl_pos (w / T)"] by (simp add: rewardOf_def fl_def)

definition credited :: "number \<Rightarrow> number \<Rightarrow> (string \<times> number) list \<Rightarrow> miner \<Rightarrow> miner" where
  "credited R T es m = (case map_of es (mn_id m) of
     Some w \<Rightarrow> if w \<le> 0 then m else creditReward (rewardOf R T w) m
   | None \<Rightarrow> m)"

lemma credited_id [simp]: "mn_id (credited R T es m) = mn_id m" "mn_userId (credited R T es m) = mn_userId m"
  by (auto simp: credited_def split: option.splits)

definition rewardRow :: "number \<Rightarrow> number \<Rightarrow> miner \<Rightarrow> number \<Rightarrow> miner_reward" where
  "rewardRow R T m w = \<lparr>mr_minerId = mn_id m, mr_userId = mn_userId m,
     mr_username = mn_username m, mr_walletAddress = mn_walletAddress m,
     mr_rigs = mn_rigs m, mr_baseHashRate = mn_baseHashRate m,
     mr_workAccumulated = w, mr_sharePercentage = fl (fl (w / T) * 100),
     mr_rewardAmount = rewardOf R T w, mr_balanceAfter = mn_balance (creditReward (rewardOf R T w) m),
     mr_lifetimeMined = mn_lifetimeMined (creditReward (rewardOf R T w) m)\<rparr>"

definition rewardRows :: "number \<Rightarrow> number \<Rightarrow> engine \<Rightarrow> (string \<times> number) list \<Rightarrow> miner_reward list" where
  "rewardRows R T e es = concat (map (\<lambda>(i, w). case getMiner i e of
     None \<Rightarrow> [] | Some m \<Rightarrow> if w \<le> 0 then [] else [rewardRow R T m w]) es)"

definition zeroWork :: "(string \<times> number) list \<Rightarrow> (string \<times> number) list \<Rightarrow> (string \<times> number) list" where
  "zeroWork es rw = foldl (\<lambda>rw i. AList.update i 0 rw) rw (map fst es)"

text \<open>What one round of the loop does to the three parts that matter.\<close>

lemma rewardMiner_parts:
  fixes d :: distribution
  assumes "unique_key mn_id (en_miners (di_engine d))"
  shows "en_miners (di_engine (rewardMiner R T d (i, w))) = map (credited R T [(i, w)]) (en_miners (di_engine d))"
    and "en_roundWork (di_engine (rewardMiner R T d (i, w))) = AList.update i 0 (en_roundWork (di_engine d))"
    and "di_minerRewards (rewardMiner R T d (i, w)) = di_minerRewards d @ rewardRows R T (di_engine d) [(i, w)]"
proof -
  let ?e = "di_engine d"
  have skip: "map (credited R T [(i, w)]) (en_miners ?e) = en_miners ?e" if "getMiner i ?e = None \<or> w \<le> 0"
    using that by (intro map_idI) (auto simp: credited_def getMiner_def dest: find_first_NoneD)
  have upd: "map (credited R T [(i, w)]) (en_miners ?e) = update_where (\<lambda>m. mn_id m = i) (creditReward (rewardOf R T w)) (en_miners ?e)"
    if "\<not> w \<le> 0"
    using that unfolding update_where_def by (intro map_cong) (auto simp: credited_def)
  show "en_miners (di_engine (rewardMiner R T d (i, w))) = map (credited R T [(i, w)]) (en_miners ?e)"
    using skip upd
    by (cases "getMiner i ?e"; cases "w \<le> 0")
      (simp_all add: rewardMiner_def clearWork_def updMiner_def Let_def rewardOf_def)
  show "en_roundWork (di_engine (rewardMiner R T d (i, w))) = AList.update i 0 (en_roundWork ?e)"
    by (cases "getMiner i ?e") (auto simp: rewardMiner_def clearWork_def Let_def)
  show "di_minerRewards (rewardMiner R T d (i, w)) = di_minerRewards d @ rewardRows R T ?e [(i, w)]"
    by (cases "getMiner i ?e") (auto simp: rewardMiner_def rewardRows_def rewardRow_def rewardOf_def Let_def)
qed

lemma getMiner_map:
  assumes "\<And>m. mn_id (f m) = mn_id m"
  shows "find_first (\<lambda>m. mn_id m = i) (map f ms) = map_option f (find_first (\<lambda>m. mn_id m = i) ms)"
  using assms by (induction ms) auto

lemma credited_step:
  assumes "i \<notin> fst ` set es"
  shows "credited R T es (credited R T [(i, w)] m) = credited R T ((i, w) # es) m"
proof (cases "mn_id m = i")
  case True
  with assms have "map_of es (mn_id m) = None" by (simp add: map_of_eq_None_iff)
  with True show ?thesis by (auto simp: credited_def)
next
  case False
  then show ?thesis by (auto simp: credited_def)
qed

lemma rewardRows_cong:
  assumes "\<And>i. i \<in> fst ` set es \<Longrightarrow> getMiner i e = getMiner i e'"
  shows "rewardRows R T e es = rewardRows R T e' es"
  using assms unfolding rewardRows_def by (intro arg_cong [where f = concat] map_cong) force+

lemma rewardMiner_unique:
  assumes "unique_key mn_id (en_miners (di_engine d))"
  shows "unique_key mn_id (en_miners (di_engine (rewardMiner R T d (i, w))))"
  using assms unfolding rewardMiner_parts(1) [OF assms] by (simp add: unique_key_def comp_def)

lemma rewardMiner_other:
  assumes "unique_key mn_id (en_miners (di_engine d))" and "j \<noteq> i"
  shows "getMiner j (di_engine (rewardMiner R T d (i, w))) = getMiner j (di_engine d)"
proof -
  have "map_option (credited R T [(i, w)]) (getMiner j (di_engine d)) = getMiner j (di_engine d)"
    using assms(2) by (cases "getMiner j (di_engine d)") (auto simp: credited_def dest: getMiner_SomeD)
  then show ?thesis unfolding getMiner_def rewardMiner_parts(1) [OF assms(1)] by (simp add: getMiner_map)
qed

lemma reward_loop:
  fixes d :: distribution
  assumes "distinct (map fst es)" and "unique_key mn_id (en_miners (di_engine d))"
  shows "en_miners (di_engine (foldl (rewardMiner R T) d es)) = map (credited R T es) (en_miners (di_engine d))
    \<and> en_roundWork (di_engine (foldl (rewardMiner R T) d es)) = zeroWork es (en_roundWork (di_engine d))
    \<and> di_minerRewards (foldl (rewardMiner R T) d es) = di_minerRewards d @ rewardRows R T (di_engine d) es"
  using assms
proof (induction es arbitrary: d)
  case Nil
  have "map (credited R T []) ms = ms" for ms by (intro map_idI) (simp add: credited_def)
  then show ?case by (simp add: zeroWork_def rewardRows_def)
next
  case (Cons x es)
  obtain i w where x: "x = (i, w)" by (cases x)
  let ?d = "rewardMiner R T d (i, w)"
  note p = rewardMiner_parts [OF Cons.prems(2), of R T i w]
  note IH = Cons.IH [of ?d, OF _ rewardMiner_unique [OF Cons.prems(2)]]
  from Cons.prems(1) have d: "distinct (map fst es)" and i: "i \<notin> fst ` set es" by (simp_all add: x)
  have 1: "map (credited R T es) (map (credited R T [(i, w)]) (en_miners (di_engine d)))
      = map (credited R T ((i, w) # es)) (en_miners (di_engine d))"
    unfolding list.map_comp using i by (intro map_cong) (auto simp: credited_step)
  have "getMiner j (di_engine ?d) = getMiner j (di_engine d)" if "j \<in> fst ` set es" for j
    using that i rewardMiner_other [OF Cons.prems(2), of j i] by auto
  from rewardRows_cong [OF this, of es R T]
  have 2: "rewardRows R T (di_engine ?d) es = rewardRows R T (di_engine d) es" by simp
  have 3: "rewardRows R T (di_engine d) ((i, w) # es)
      = rewardRows R T (di_engine d) [(i, w)] @ rewardRows R T (di_engine d) es"
    by (simp add: rewardRows_def)
  have 4: "zeroWork ((i, w) # es) rw = zeroWork es (AList.update i 0 rw)" for rw by (simp add: zeroWork_def)
  show ?case using IH [OF d] unfolding x foldl_Cons p 1 2 3 4 append_assoc .
qed

text \<open>The snapshot holds the balances from before the block, for the rewarded miners.\<close>

lemma reward_loop_snapshot:
  fixes d :: distribution
  assumes "distinct (map fst es)" and "unique_key mn_id (en_miners (di_engine d))"
  shows "map_of (di_snapshot (foldl (rewardMiner R T) d es)) i =
    (case map_of es i of
       Some w \<Rightarrow> (case getMiner i (di_engine d) of
           Some m \<Rightarrow> if w \<le> 0 then map_of (di_snapshot d) i else Some (mn_balance m, mn_lifetimeMined m)
         | None \<Rightarrow> map_of (di_snapshot d) i)
     | None \<Rightarrow> map_of (di_snapshot d) i)"
  using assms
proof (induction es arbitrary: d)
  case Nil
  then show ?case by simp
next
  case (Cons x es)
  obtain j w where x: "x = (j, w)" by (cases x)
  let ?d = "rewardMiner R T d (j, w)"
  have s: "map_of (di_snapshot ?d) i = (if i = j then (case getMiner j (di_engine d) of
        Some m \<Rightarrow> if w \<le> 0 then map_of (di_snapshot d) i else Some (mn_balance m, mn_lifetimeMined m)
      | None \<Rightarrow> map_of (di_snapshot d) i) else map_of (di_snapshot d) i)"
    by (cases "getMiner j (di_engine d)") (auto simp: rewardMiner_def Let_def update_conv')
  note IH = Cons.IH [of ?d, OF _ rewardMiner_unique [OF Cons.prems(2)]]
  from Cons.prems(1) have d: "distinct (map fst es)" by (simp add: x)
  show ?case
  proof (cases "i = j")
    case True
    with Cons.prems(1) have n: "map_of es i = None" by (simp add: x map_of_eq_None_iff)
    show ?thesis using IH [OF d] s True n by (simp add: x)
  next
    case False
    then show ?thesis using IH [OF d] s rewardMiner_other [OF Cons.prems(2) False, of R T w]
      by (simp add: x split: option.split)
  qed
qed

lemma zeroWork_keys:
  "fst ` set es \<subseteq> fst ` set rw \<Longrightarrow> map fst (zeroWork es rw) = map fst rw"
  unfolding zeroWork_def
proof (induction es arbitrary: rw)
  case Nil
  then show ?case by simp
next
  case (Cons x es)
  then have k: "map fst (AList.update (fst x) 0 rw) = map fst rw" by (simp add: update_keys)
  then have "fst ` set (AList.update (fst x) 0 rw) = fst ` set rw" by (metis list.set_map)
  with Cons k show ?case by simp
qed

lemma zeroWork_lookup: "map_of (zeroWork es rw) i = (if i \<in> fst ` set es then Some 0 else map_of rw i)"
  unfolding zeroWork_def
  by (induction es arbitrary: rw) (auto simp: update_conv')

lemma zeroWork_self:
  assumes "distinct (map fst rw)"
  shows "zeroWork rw rw = map (\<lambda>(i, _). (i, 0)) rw"
proof (rule nth_equalityI)
  have k: "map fst (zeroWork rw rw) = map fst rw" by (rule zeroWork_keys) simp
  then show l: "length (zeroWork rw rw) = length (map (\<lambda>(i, _). (i, 0)) rw)"
    by (metis length_map)
  fix n assume n: "n < length (zeroWork rw rw)"
  with l have n': "n < length rw" by simp
  obtain i v where z: "zeroWork rw rw ! n = (i, v)" by (cases "zeroWork rw rw ! n")
  have i: "i = fst (rw ! n)" using k n n' z by (metis fst_conv nth_map)
  have "distinct (map fst (zeroWork rw rw))" using assms k by simp
  moreover have "(i, v) \<in> set (zeroWork rw rw)" using n z by (metis nth_mem)
  ultimately have "map_of (zeroWork rw rw) i = Some v" by (simp add: map_of_is_SomeI)
  moreover have "i \<in> fst ` set rw" using i n' by simp
  ultimately have "v = 0" by (simp add: zeroWork_lookup)
  with z i n' show "zeroWork rw rw ! n = map (\<lambda>(i, _). (i, 0)) rw ! n" by (simp add: case_prod_beta)
qed

end
