(* ===== verification/MiningInv.thy ===== *)
theory MiningInv
  imports MiningProofs
begin

section \<open>The invariant of the mining engine\<close>

text \<open>
  The steps are the engine's methods as the handlers, the timer and the database code call them, in
  any order; the block that a tick closes may fail to persist at any later time, so the rollback of
  any pending block is a step of its own.
\<close>

subsection \<open>Keys: the two maps and the round work address the same miners\<close>

definition keys_ok :: "(string \<times> int) list \<Rightarrow> (int \<times> string) list \<Rightarrow> string list \<Rightarrow> bool" where
  "keys_ok ks byUser rk \<longleftrightarrow> distinct (map fst ks)
     \<and> (\<forall>(i, u) \<in> set ks. u \<noteq> 0 \<and> map_of byUser u = Some i)
     \<and> (\<forall>u i. map_of byUser u = Some i \<longrightarrow> (i, u) \<in> set ks)
     \<and> distinct rk \<and> set rk = fst ` set ks"

definition miner_keys :: "miner list \<Rightarrow> (string \<times> int) list" where
  "miner_keys ms = map (\<lambda>m. (mn_id m, mn_userId m)) ms"

lemma keys_ok_snoc:
  assumes "keys_ok ks bu rk" and "i \<notin> fst ` set ks" and "u \<noteq> 0" and "map_of bu u = None"
  shows "keys_ok (ks @ [(i, u)]) (AList.update u i bu) (rk @ [i])"
  using assms unfolding keys_ok_def by (auto simp: update_conv')

lemma miner_keys_map:
  assumes "\<And>m. mn_id (f m) = mn_id m" "\<And>m. mn_userId (f m) = mn_userId m"
  shows "miner_keys (map f ms) = miner_keys ms"
  using assms by (simp add: miner_keys_def)

lemma miner_keys_update:
  assumes "\<And>m. mn_id (f m) = mn_id m" "\<And>m. mn_userId (f m) = mn_userId m"
  shows "miner_keys (update_where P f ms) = miner_keys ms"
  using assms unfolding update_where_def by (intro miner_keys_map) auto

lemma update_fresh: "i \<notin> fst ` set rw \<Longrightarrow> AList.update i v rw = rw @ [(i, v)]"
  by (induction rw) auto

lemma zeroed_keys [simp]: "map (fst \<circ> (\<lambda>(i, _). (i, 0::number))) rw = map fst rw"
  by auto

subsection \<open>The invariant\<close>

definition miner_ok :: "miner \<Rightarrow> bool" where
  "miner_ok m \<longleftrightarrow> 0 \<le> mn_baseHashRate m \<and> (mn_boostMultiplier m = 1 \<or> mn_boostMultiplier m = 5 / 4)
     \<and> mn_lastPersistedBalance m \<noteq> None"

definition eng_wf :: "engine \<Rightarrow> bool" where
  "eng_wf e \<longleftrightarrow> keys_ok (miner_keys (en_miners e)) (en_minersByUserId e) (map fst (en_roundWork e))
     \<and> (\<forall>w \<in> snd ` set (en_roundWork e). 0 \<le> w)
     \<and> (\<forall>m \<in> set (en_miners e). miner_ok m)
     \<and> length (en_blockHistory e) \<le> 12
     \<and> en_rewardBase e = fl (30 / 100) \<and> en_blockDurationMs e = 600000 \<and> en_blockTarget e = 100
     \<and> en_nextBlockAt e = en_blockStartedAt e + 600000"

lemma eng_wf_unique: "eng_wf e \<Longrightarrow> unique_key mn_id (en_miners e)"
  unfolding eng_wf_def keys_ok_def unique_key_def miner_keys_def by (simp add: comp_def)

lemma eng_wf_work: "eng_wf e \<Longrightarrow> distinct (map fst (en_roundWork e))"
  unfolding eng_wf_def keys_ok_def by blast

lemma eng_wf_work_nonneg: "eng_wf e \<Longrightarrow> \<forall>w \<in> set (map snd (en_roundWork e)). 0 \<le> w"
  unfolding eng_wf_def by simp

lemma eng_wf_ids:
  assumes "eng_wf e"
  shows "fst ` set (en_roundWork e) = mn_id ` set (en_miners e)"
proof -
  have "set (map fst (en_roundWork e)) = fst ` set (miner_keys (en_miners e))"
    using assms unfolding eng_wf_def keys_ok_def by blast
  then show ?thesis by (simp add: miner_keys_def image_image)
qed

lemma eng_wf_getMiner:
  assumes "eng_wf e" and "i \<in> fst ` set (en_roundWork e)"
  obtains m where "getMiner i e = Some m"
proof -
  from assms(2) obtain m where "m \<in> set (en_miners e)" "mn_id m = i" unfolding eng_wf_ids [OF assms(1)] by blast
  with getMiner_in [OF eng_wf_unique [OF assms(1)]] that show ?thesis by blast
qed

lemma eng_wf_update:
  assumes "eng_wf e" and "\<And>m. mn_id (f m) = mn_id m" and "\<And>m. mn_userId (f m) = mn_userId m"
    and "\<And>m. miner_ok m \<Longrightarrow> miner_ok (f m)"
  shows "eng_wf (updMiner i f e)"
  using assms(1,4) miner_keys_update [of f "\<lambda>m. mn_id m = i" "en_miners e"] assms(2,3)
  unfolding eng_wf_def updMiner_def by (auto simp: set_update_where)

lemma findMiner_wf:
  assumes "eng_wf e" and "findMinerByUserId u e = None" and "u \<noteq> 0"
  shows "map_of (en_minersByUserId e) u = None"
proof (rule ccontr)
  assume "map_of (en_minersByUserId e) u \<noteq> None"
  then obtain i where i: "map_of (en_minersByUserId e) u = Some i" by blast
  with assms(1) have "(i, u) \<in> set (miner_keys (en_miners e))" unfolding eng_wf_def keys_ok_def by blast
  then obtain m where "m \<in> set (en_miners e)" "mn_id m = i" by (auto simp: miner_keys_def)
  with getMiner_in [OF eng_wf_unique [OF assms(1)]] have "getMiner i e = Some m" by blast
  with assms(2,3) i show False by (simp add: findMinerByUserId_def)
qed

subsection \<open>Every operation keeps it\<close>

lemma num_or_nonneg: "(\<And>v. x = Some v \<Longrightarrow> 0 \<le> v) \<Longrightarrow> 0 \<le> d \<Longrightarrow> 0 \<le> num_or x d"
  by (auto simp: num_or_def split: option.splits)

definition profile_ok :: "miner_profile \<Rightarrow> bool" where
  "profile_ok p \<longleftrightarrow> 0 \<le> num_or (mp_base_hash_rate p) 0 \<and> 0 \<le> num_or (mp_baseHashRate p) 0"

lemma profileHashRate_nonneg: "profile_ok p \<Longrightarrow> 0 \<le> profileHashRate p"
  by (auto simp: profile_ok_def profileHashRate_def num_or_def split: option.splits if_splits)

lemma syncBalance_simps [simp]:
  "mn_id (syncBalance p m) = mn_id m" "mn_userId (syncBalance p m) = mn_userId m"
  "mn_baseHashRate (syncBalance p m) = mn_baseHashRate m"
  "mn_boostMultiplier (syncBalance p m) = mn_boostMultiplier m"
  "mn_miningPayoutMode (syncBalance p m) = mn_miningPayoutMode m"
  by (simp_all add: syncBalance_def Let_def)

lemma syncBalance_ok: "miner_ok m \<Longrightarrow> miner_ok (syncBalance p m)"
  by (simp add: miner_ok_def) (simp add: syncBalance_def Let_def)

lemma reload_wf:
  assumes "eng_wf e" and "\<And>p. loaded = Some p \<Longrightarrow> profile_ok p"
  shows "eng_wf (reloadMinerProfile u loaded e)"
proof (cases loaded)
  case None
  with assms(1) show ?thesis by (simp add: reloadMinerProfile_def)
next
  case (Some p)
  with assms(2) have p: "0 \<le> num_or (mp_base_hash_rate p) 0" by (simp add: profile_ok_def)
  show ?thesis
  proof (cases "findMinerByUserId u e")
    case None
    with Some assms(1) show ?thesis by (simp add: reloadMinerProfile_def)
  next
    case (Some m)
    show ?thesis
      unfolding reloadMinerProfile_def \<open>loaded = Some p\<close> Some option.case
      by (rule eng_wf_update [OF assms(1)], simp, simp, rule syncBalance_ok, simp add: miner_ok_def p)
  qed
qed

lemma rejoinMiner_simps [simp]:
  "mn_id (rejoinMiner nm wa profile m) = mn_id m" "mn_userId (rejoinMiner nm wa profile m) = mn_userId m"
  by (simp_all add: rejoinMiner_def Let_def split: option.split)

lemma rejoinMiner_ok:
  assumes "miner_ok m" and "\<And>p. profile = Some p \<Longrightarrow> profile_ok p"
  shows "miner_ok (rejoinMiner nm wa profile m)"
proof -
  define m2 where "m2 = rejoinMiner nm wa None m"
  have m2: "miner_ok m2" using assms(1) by (auto simp: m2_def rejoinMiner_def Let_def miner_ok_def split: option.split)
  show ?thesis
  proof (cases profile)
    case None
    with m2 show ?thesis by (simp add: m2_def)
  next
    case (Some p)
    have "rejoinMiner nm wa profile m = syncBalance p (m2\<lparr>mn_rigs := num_or (mp_rigs p) 1,
        mn_baseHashRate := profileHashRate p, mn_refCode := mp_refCode p, mn_referralCount := countOf p,
        mn_miningPayoutMode := payoutMode p\<rparr>)"
      by (simp add: rejoinMiner_def m2_def Let_def Some)
    moreover have "0 \<le> profileHashRate p" using assms(2) Some profileHashRate_nonneg by blast
    moreover have "miner_ok (m2\<lparr>mn_rigs := num_or (mp_rigs p) 1,
        mn_baseHashRate := profileHashRate p, mn_refCode := mp_refCode p, mn_referralCount := countOf p,
        mn_miningPayoutMode := payoutMode p\<rparr>)"
      using m2 \<open>0 \<le> profileHashRate p\<close> by (simp add: miner_ok_def)
    ultimately show ?thesis by (simp only: syncBalance_ok)
  qed
qed

lemma createOrGet_wf:
  assumes "eng_wf e" and "u \<noteq> 0" and "uuid \<notin> mn_id ` set (en_miners e)"
    and "\<And>p. profile = Some p \<Longrightarrow> profile_ok p"
  shows "eng_wf (snd (createOrGetMiner uuid u nm wa profile e))"
proof (cases "findMinerByUserId u e")
  case None
  have w: "uuid \<notin> fst ` set (en_roundWork e)"
    using assms(3) eng_wf_ids [OF assms(1)] by simp
  have k: "keys_ok (miner_keys (en_miners e) @ [(uuid, u)]) (AList.update u uuid (en_minersByUserId e))
      (map fst (en_roundWork e) @ [uuid])"
    using assms findMiner_wf [OF assms(1) None assms(2)]
    by (intro keys_ok_snoc) (auto simp: eng_wf_def miner_keys_def)
  have a: "AList.update uuid 0 (en_roundWork e) = en_roundWork e @ [(uuid, 0)]"
    using w by (rule update_fresh)
  have "miner_ok (newMiner uuid u nm wa profile)"
    using assms(4) profileHashRate_nonneg by (auto simp: newMiner_def miner_ok_def Let_def split: option.split)
  moreover have "mn_id (newMiner uuid u nm wa profile) = uuid" "mn_userId (newMiner uuid u nm wa profile) = u"
    by (simp_all add: newMiner_def Let_def)
  ultimately show ?thesis
    using assms(1) k unfolding createOrGetMiner_def None option.case snd_conv eng_wf_def
    by (auto simp: a miner_keys_def)
next
  case (Some m)
  show ?thesis
    unfolding createOrGetMiner_def Some option.case snd_conv
    using assms(1,4) by (intro eng_wf_update) (auto intro: rejoinMiner_ok)
qed

lemma applyBoost_wf: "eng_wf e \<Longrightarrow> eng_wf (snd (applyBoost now i e))"
  unfolding applyBoost_def Let_def
  by (cases "getMiner i e") (auto intro!: eng_wf_update simp: miner_ok_def)

lemma upgradeRig_wf: "eng_wf e \<Longrightarrow> eng_wf (snd (upgradeRig i e))"
  unfolding upgradeRig_def Let_def
  by (cases "getMiner i e") (auto intro!: eng_wf_update fl_nonneg simp: miner_ok_def)

lemma applyDelta_wf: "eng_wf e \<Longrightarrow> eng_wf (applyUserBalanceDelta u d e)"
  unfolding applyUserBalanceDelta_def Let_def
  by (cases "findMinerByUserId u e") (auto intro!: eng_wf_update simp: miner_ok_def)

lemma creditReward_ok: "miner_ok m \<Longrightarrow> miner_ok (creditReward r m)"
  by (auto simp: miner_ok_def creditReward_persisted)

lemma credited_ok: "miner_ok m \<Longrightarrow> miner_ok (credited R T es m)"
  by (auto simp: credited_def creditReward_ok split: option.splits)

text \<open>The engine after a block with work, in one equation per field.\<close>

definition roundTotal :: "engine \<Rightarrow> number" where
  "roundTotal e = js_sum (map snd (en_roundWork e))"

definition blockRun :: "engine \<Rightarrow> distribution" where
  "blockRun e = foldl (rewardMiner (en_rewardBase e) (roundTotal e))
     \<lparr>di_engine = e, di_minerRewards = [], di_userRewards = [], di_snapshot = []\<rparr> (en_roundWork e)"

lemma rewardMiner_frame:
  "en_blockNumber (di_engine (rewardMiner R T d x)) = en_blockNumber (di_engine d)
   \<and> en_rewardBase (di_engine (rewardMiner R T d x)) = en_rewardBase (di_engine d)
   \<and> en_blockTarget (di_engine (rewardMiner R T d x)) = en_blockTarget (di_engine d)
   \<and> en_blockDurationMs (di_engine (rewardMiner R T d x)) = en_blockDurationMs (di_engine d)
   \<and> en_minersByUserId (di_engine (rewardMiner R T d x)) = en_minersByUserId (di_engine d)
   \<and> en_blockHistory (di_engine (rewardMiner R T d x)) = en_blockHistory (di_engine d)
   \<and> en_activeMiners (di_engine (rewardMiner R T d x)) = en_activeMiners (di_engine d)"
  unfolding rewardMiner_def clearWork_def Let_def
  by (cases x; cases "getMiner (fst x) (di_engine d)") auto

lemma reward_loop_frame:
  "en_blockNumber (di_engine (foldl (rewardMiner R T) d es)) = en_blockNumber (di_engine d)
   \<and> en_rewardBase (di_engine (foldl (rewardMiner R T) d es)) = en_rewardBase (di_engine d)
   \<and> en_blockTarget (di_engine (foldl (rewardMiner R T) d es)) = en_blockTarget (di_engine d)
   \<and> en_blockDurationMs (di_engine (foldl (rewardMiner R T) d es)) = en_blockDurationMs (di_engine d)
   \<and> en_minersByUserId (di_engine (foldl (rewardMiner R T) d es)) = en_minersByUserId (di_engine d)
   \<and> en_blockHistory (di_engine (foldl (rewardMiner R T) d es)) = en_blockHistory (di_engine d)
   \<and> en_activeMiners (di_engine (foldl (rewardMiner R T) d es)) = en_activeMiners (di_engine d)"
proof (induction es arbitrary: d)
  case (Cons x es)
  show ?case unfolding foldl_Cons using Cons.IH [of "rewardMiner R T d x"] rewardMiner_frame [of R T d x] by metis
qed simp

lemma blockRun_parts:
  assumes "eng_wf e"
  shows "en_miners (di_engine (blockRun e)) = map (credited (en_rewardBase e) (roundTotal e) (en_roundWork e)) (en_miners e)"
    and "en_roundWork (di_engine (blockRun e)) = map (\<lambda>(i, _). (i, 0)) (en_roundWork e)"
    and "di_minerRewards (blockRun e) = rewardRows (en_rewardBase e) (roundTotal e) e (en_roundWork e)"
  using reward_loop [OF eng_wf_work [OF assms],
      of "\<lparr>di_engine = e, di_minerRewards = [], di_userRewards = [], di_snapshot = []\<rparr>"]
    eng_wf_unique [OF assms] zeroWork_self [OF eng_wf_work [OF assms]]
  by (simp_all add: blockRun_def)

lemma distributeRewards_eq:
  "distributeRewards now e =
     (if roundTotal e \<le> 0 then
        (None, finalizeBlockDistribution now
          (pushHistory \<lparr>bl_blockNumber = en_blockNumber e, bl_reward = 0,
             bl_minerCount = en_activeMiners e, bl_timestamp = now, bl_userRewards = []\<rparr>
           (e\<lparr>en_roundWork := map (\<lambda>(minerId, _). (minerId, 0)) (en_roundWork e), en_lastReward := 0\<rparr>)))
      else
        (if di_minerRewards (blockRun e) = [] then None
         else Some (\<lparr>br_blockNumber = en_blockNumber e, br_blockReward = en_rewardBase e,
                      br_totalWork = roundTotal e, br_minerRewards = di_minerRewards (blockRun e), br_now = now\<rparr>,
                    di_snapshot (blockRun e)),
         finalizeBlockDistribution now
           (pushHistory \<lparr>bl_blockNumber = en_blockNumber e, bl_reward = en_rewardBase e,
              bl_minerCount = en_activeMiners (di_engine (blockRun e)), bl_timestamp = now,
              bl_userRewards = di_userRewards (blockRun e)\<rparr> (di_engine (blockRun e))
            \<lparr>en_lastReward := en_rewardBase e\<rparr>)))"
  unfolding distributeRewards_def roundTotal_def blockRun_def Let_def by (rule refl)

lemma blockRun_frame:
  "en_rewardBase (di_engine (blockRun e)) = en_rewardBase e"
  "en_blockTarget (di_engine (blockRun e)) = en_blockTarget e"
  "en_blockDurationMs (di_engine (blockRun e)) = en_blockDurationMs e"
  "en_minersByUserId (di_engine (blockRun e)) = en_minersByUserId e"
  "en_blockHistory (di_engine (blockRun e)) = en_blockHistory e"
  using reward_loop_frame [of "en_rewardBase e" "roundTotal e"
      "\<lparr>di_engine = e, di_minerRewards = [], di_userRewards = [], di_snapshot = []\<rparr>" "en_roundWork e"]
  unfolding blockRun_def by simp_all

lemma distributeRewards_paid:
  assumes "distributeRewards now e = (Some p, e')"
  shows "0 < roundTotal e"
    and "fst p = \<lparr>br_blockNumber = en_blockNumber e, br_blockReward = en_rewardBase e, br_totalWork = roundTotal e,
        br_minerRewards = di_minerRewards (blockRun e), br_now = now\<rparr>"
    and "snd p = di_snapshot (blockRun e)"
    and "en_miners e' = en_miners (di_engine (blockRun e))"
    and "en_roundWork e' = en_roundWork (di_engine (blockRun e))"
  using assms unfolding distributeRewards_eq
  by (auto simp: finalizeBlockDistribution_def pushHistory_def split: if_splits)

lemma distribute_wf:
  assumes "eng_wf e"
  shows "eng_wf (snd (distributeRewards now e))"
proof (cases "roundTotal e \<le> 0")
  case True
  with assms show ?thesis
    unfolding distributeRewards_eq eng_wf_def
    by (auto simp: finalizeBlockDistribution_def pushHistory_def)
next
  case False
  have m: "miner_keys (map (credited R T es) ms) = miner_keys ms" for R T es ms by (rule miner_keys_map) simp_all
  from False assms show ?thesis
    unfolding distributeRewards_eq
    by (auto simp: finalizeBlockDistribution_def pushHistory_def eng_wf_def m credited_ok blockRun_frame
        blockRun_parts(1,2) [OF assms])
qed

lemma restoreMiner_wf: "eng_wf e \<Longrightarrow> eng_wf (restoreMiner rs e x)"
proof -
  assume e: "eng_wf e"
  have t: "eng_wf (e\<lparr>en_totalMinted := n\<rparr>) = eng_wf e" for e n by (simp add: eng_wf_def)
  show ?thesis
    using e unfolding restoreMiner_def Let_def
    by (cases x; auto simp: t miner_ok_def intro!: eng_wf_update split: option.splits)
qed

lemma rollback_wf: "eng_wf e \<Longrightarrow> eng_wf (rollbackBlock p e)"
  unfolding rollbackBlock_def
proof (induction "snd p" arbitrary: e p)
  case (Cons x xs)
  obtain b where "p = (b, x # xs)" using Cons(2) by (cases p) auto
  with Cons(1) [of "(b, xs)"] Cons(3) show ?case by (simp add: restoreMiner_wf)
qed simp

lemma expireBoost_simps [simp]:
  "mn_id (expireBoost now m) = mn_id m" "mn_userId (expireBoost now m) = mn_userId m"
  "mn_baseHashRate (expireBoost now m) = mn_baseHashRate m" "mn_active (expireBoost now m) = mn_active m"
  "mn_miningPayoutMode (expireBoost now m) = mn_miningPayoutMode m"
  "mn_lastPersistedBalance (expireBoost now m) = mn_lastPersistedBalance m"
  by (simp_all add: expireBoost_def)

lemma hashRate_nonneg: "miner_ok m \<Longrightarrow> 0 \<le> getMinerHashRate m"
  by (auto simp: getMinerHashRate_def miner_ok_def intro!: fl_nonneg)

lemma expireBoost_ok: "miner_ok m \<Longrightarrow> miner_ok (expireBoost now m)"
  by (simp add: miner_ok_def) (simp add: expireBoost_def)

lemma addWork_wf:
  assumes "eng_wf e" and "i \<in> mn_id ` set (en_miners e)" and "0 \<le> w"
  shows "eng_wf (e\<lparr>en_roundWork := AList.update i w (en_roundWork e)\<rparr>)"
proof -
  have "i \<in> set (map fst (en_roundWork e))"
    using assms(2) eng_wf_ids [OF assms(1)] by simp
  then have k: "map fst (AList.update i w (en_roundWork e)) = map fst (en_roundWork e)" by (simp add: update_keys)
  have "snd ` set (AList.update i w xs) \<subseteq> insert w (snd ` set xs)" for xs :: "(string \<times> number) list"
    by (induction xs) auto
  with assms(1,3) have "\<forall>v \<in> snd ` set (AList.update i w (en_roundWork e)). 0 \<le> v"
    unfolding eng_wf_def by blast
  with k assms(1) show ?thesis by (simp add: eng_wf_def)
qed

lemma workOf_nonneg: "eng_wf e \<Longrightarrow> 0 \<le> workOf i e"
  unfolding workOf_def eng_wf_def by (force split: option.splits dest: map_of_SomeD)

lemma ids_update:
  assumes "\<And>m. mn_id (f m) = mn_id m"
  shows "mn_id ` set (update_where P f ms) = mn_id ` set ms"
  using map_update_where [of P mn_id f ms] assms by (metis list.set_map)

lemma tickMiner_wf:
  assumes "eng_wf e" and "m \<in> set ms" and "mn_id ` set ms \<subseteq> mn_id ` set (en_miners e)" and "miner_ok m"
  shows "eng_wf (fst (tickMiner now (e, h, a) m))"
    and "mn_id ` set (en_miners (fst (tickMiner now (e, h, a) m))) = mn_id ` set (en_miners e)"
proof -
  let ?e = "updMiner (mn_id m) (expireBoost now) e"
  have w: "eng_wf ?e" using assms(1) by (rule eng_wf_update) (simp_all add: expireBoost_ok)
  have i: "mn_id ` set (en_miners ?e) = mn_id ` set (en_miners e)"
    unfolding updMiner_def by (simp add: ids_update)
  have "mn_id m \<in> mn_id ` set (en_miners ?e)"
    unfolding i by (rule subsetD [OF assms(3) imageI [OF assms(2)]])
  moreover have "0 \<le> fl (workOf (mn_id m) ?e + getMinerHashRate (expireBoost now m))"
    using workOf_nonneg [OF w, of "mn_id m"] hashRate_nonneg [OF expireBoost_ok [OF assms(4)]]
    by (intro fl_nonneg add_nonneg_nonneg)
  ultimately have "eng_wf (?e\<lparr>en_roundWork := AList.update (mn_id m)
      (fl (workOf (mn_id m) ?e + getMinerHashRate (expireBoost now m))) (en_roundWork ?e)\<rparr>)"
    by (rule addWork_wf [OF w])
  with w show "eng_wf (fst (tickMiner now (e, h, a) m))" by (simp add: tickMiner_def Let_def)
  show "mn_id ` set (en_miners (fst (tickMiner now (e, h, a) m))) = mn_id ` set (en_miners e)"
    using i by (simp add: tickMiner_def Let_def)
qed

lemma tick_loop_wf:
  assumes "eng_wf (fst acc)" and "mn_id ` set ms \<subseteq> mn_id ` set (en_miners (fst acc))" and "\<forall>m \<in> set ms. miner_ok m"
  shows "eng_wf (fst (foldl (tickMiner now) acc ms))"
  using assms
proof (induction ms arbitrary: acc)
  case (Cons m ms)
  obtain e h a where acc: "acc = (e, h, a)" by (cases acc)
  from Cons.prems tickMiner_wf [of e m "m # ms" now h a] show ?case
    by (auto simp: acc intro!: Cons.IH)
qed simp

lemma tick_wf: "eng_wf e \<Longrightarrow> eng_wf (snd (tick now e))"
proof -
  assume e: "eng_wf e"
  obtain e1 h a where f: "foldl (tickMiner now) (e, 0, 0) (en_miners e) = (e1, h, a)"
    by (cases "foldl (tickMiner now) (e, 0, 0) (en_miners e)")
  have "eng_wf (fst (foldl (tickMiner now) (e, 0, 0) (en_miners e)))"
    using e by (intro tick_loop_wf) (auto simp: eng_wf_def)
  then have w: "eng_wf (e1\<lparr>en_currentNetworkHashRate := h, en_activeMiners := a\<rparr>)"
    unfolding f by (simp add: eng_wf_def)
  have p: "eng_wf (e\<lparr>en_blockProgress := x\<rparr>) = eng_wf e" for e x by (simp add: eng_wf_def)
  show ?thesis
    using w distribute_wf [OF w, of now] unfolding tick_def f Let_def
    by (auto simp: p split: prod.splits)
qed

subsection \<open>The state machine\<close>

inductive engine_step :: "engine \<Rightarrow> engine \<Rightarrow> bool" where
  es_tick: "engine_step e (snd (tick now e))"
| es_join: "u \<noteq> 0 \<Longrightarrow> uuid \<notin> mn_id ` set (en_miners e) \<Longrightarrow> profile_ok p \<Longrightarrow>
    engine_step e (snd (createOrGetMiner uuid u nm wa (Some p) e))"
| es_connected: "engine_step e (setConnected i b e)"
| es_active: "engine_step e (setActive i b e)"
| es_wallet: "engine_step e (setWallet i wa e)"
| es_boost: "engine_step e (snd (applyBoost now i e))"
| es_rig: "engine_step e (snd (upgradeRig i e))"
| es_reload: "profile_ok p \<Longrightarrow> engine_step e (reloadMinerProfile u (Some p) e)"
| es_delta: "engine_step e (applyUserBalanceDelta u d e)"
| es_rollback: "engine_step e (rollbackBlock pb e)"
| es_persisted: "engine_step e (persistFinish i e)"

definition engine_init :: "engine \<Rightarrow> bool" where
  "engine_init e \<longleftrightarrow> (\<exists>now s. e = newEngine now \<or> e = bootstrapHistory s (newEngine now))"

lemma loadRecentBlocks_length: "length (loadRecentBlocks n s) \<le> n"
  by (auto simp: loadRecentBlocks_def Let_def blocksDesc_def)

lemma newEngine_wf: "eng_wf (newEngine now)"
  by (simp add: eng_wf_def newEngine_def keys_ok_def miner_keys_def)

lemma bootstrap_wf: "eng_wf e \<Longrightarrow> eng_wf (bootstrapHistory s e)"
  using loadRecentBlocks_length [of 12 s] by (simp add: bootstrapHistory_def Let_def eng_wf_def)

lemma engine_step_wf:
  assumes "engine_step e e'" and "eng_wf e"
  shows "eng_wf e'"
  using assms
proof cases
  case es_connected
  with assms(2) show ?thesis by (auto simp: setConnected_def miner_ok_def intro!: eng_wf_update)
next
  case es_active
  with assms(2) show ?thesis by (auto simp: setActive_def miner_ok_def intro!: eng_wf_update)
next
  case es_wallet
  with assms(2) show ?thesis by (auto simp: setWallet_def miner_ok_def intro!: eng_wf_update)
next
  case es_persisted
  with assms(2) show ?thesis by (auto simp: persistFinish_def miner_ok_def intro!: eng_wf_update)
qed (use assms(2) in \<open>auto intro: tick_wf createOrGet_wf applyBoost_wf upgradeRig_wf reload_wf applyDelta_wf rollback_wf\<close>)

interpretation eng: machine engine_init engine_step eng_wf
  by unfold_locales (auto simp: engine_init_def newEngine_wf bootstrap_wf intro: engine_step_wf)

end
