(* ===== verification/MiningBlock.thy ===== *)
theory MiningBlock
  imports MiningInv
begin

section \<open>Lemmas about blocks and their persistence\<close>

subsection \<open>The two maps find the same object\<close>

lemma eng_wf_find:
  assumes "eng_wf e" and "m \<in> set (en_miners e)"
  shows "findMinerByUserId (mn_userId m) e = Some m"
proof -
  have "(mn_id m, mn_userId m) \<in> set (miner_keys (en_miners e))" using assms(2) by (simp add: miner_keys_def)
  with assms(1) have "mn_userId m \<noteq> 0 \<and> map_of (en_minersByUserId e) (mn_userId m) = Some (mn_id m)"
    unfolding eng_wf_def keys_ok_def by fast
  with getMiner_in [OF eng_wf_unique [OF assms(1)] assms(2)] show ?thesis by (simp add: findMinerByUserId_def)
qed

lemma eng_wf_users: "eng_wf e \<Longrightarrow> unique_key mn_userId (en_miners e)"
proof -
  assume e: "eng_wf e"
  have "inj_on mn_userId (set (en_miners e))"
    using eng_wf_find [OF e] by (intro inj_onI) (metis option.inject)
  moreover have "distinct (en_miners e)" using eng_wf_unique [OF e] by (simp add: unique_key_def distinct_map)
  ultimately show ?thesis by (simp add: unique_key_def distinct_map)
qed

subsection \<open>The sum of a block\<close>

lemma rewardOf_0 [simp]: "rewardOf R T 0 = 0"
  by (simp add: rewardOf_def)

lemma rewardRows_sum:
  assumes "\<forall>x \<in> set es. getMiner (fst x) e \<noteq> None" and "\<forall>w \<in> set (map snd es). 0 \<le> w"
  shows "sum_list (map mr_rewardAmount (rewardRows R T e es)) = sum_list (map (rewardOf R T) (map snd es))"
  using assms
proof (induction es)
  case Nil
  then show ?case by (simp add: rewardRows_def)
next
  case (Cons x es)
  obtain i w where x: "x = (i, w)" by (cases x)
  from Cons.prems obtain m where m: "getMiner i e = Some m" by (auto simp: x)
  have c: "rewardRows R T e ((i, w) # es) = (if w \<le> 0 then [] else [rewardRow R T m w]) @ rewardRows R T e es"
    by (simp add: rewardRows_def m)
  have z: "w \<le> 0 \<Longrightarrow> w = 0" using Cons.prems(2) by (simp add: x)
  have s: "sum_list (map mr_rewardAmount (rewardRows R T e es)) = sum_list (map (rewardOf R T) (map snd es))"
    using Cons by simp
  show ?case
  proof (cases "w \<le> 0")
    case True
    with z s c show ?thesis by (simp add: x)
  next
    case False
    with s c show ?thesis by (simp add: x rewardRow_def)
  qed
qed

lemma sum_rewardOf:
  assumes "0 \<le> R" and "0 < T" and "\<forall>w \<in> set ws. 0 \<le> w"
  shows "sum_list (map (rewardOf R T) ws) * T \<le> R * (1 + ulp53)\<^sup>2 * sum_list ws"
    and "R * (1 - ulp53)\<^sup>2 * sum_list ws \<le> sum_list (map (rewardOf R T) ws) * T"
  using assms(3)
proof (induction ws)
  case Nil
  { case 1 show ?case by simp }
  { case 2 show ?case by simp }
next
  case (Cons w ws)
  {
    case 1
    with Cons.IH(1) rewardOf_bounds(2) [OF assms(1,2), of w] show ?case by (simp add: distrib_left distrib_right)
  }
  {
    case 2
    with Cons.IH(2) rewardOf_bounds(3) [OF assms(1,2), of w] show ?case by (simp add: distrib_left distrib_right)
  }
qed

lemma block_sum:
  assumes "0 \<le> R" and "\<forall>w \<in> set ws. 0 \<le> w" and "0 < js_sum ws"
  shows "sum_list (map (rewardOf R (js_sum ws)) ws) * (1 - ulp53) ^ length ws \<le> R * (1 + ulp53)\<^sup>2"
    and "R * (1 - ulp53)\<^sup>2 \<le> sum_list (map (rewardOf R (js_sum ws)) ws) * (1 + ulp53) ^ length ws"
proof -
  let ?T = "js_sum ws" and ?S = "sum_list (map (rewardOf R (js_sum ws)) ws)" and ?n = "length ws"
  have "?S * (1 - ulp53) ^ ?n * ?T = (?S * ?T) * (1 - ulp53) ^ ?n" by simp
  also have "\<dots> \<le> R * (1 + ulp53)\<^sup>2 * sum_list ws * (1 - ulp53) ^ ?n"
    using sum_rewardOf(1) [OF assms(1,3,2)] ulp53_bounds(2) by (intro mult_right_mono zero_le_power)
  also have "\<dots> = R * (1 + ulp53)\<^sup>2 * (sum_list ws * (1 - ulp53) ^ ?n)" by simp
  also have "\<dots> \<le> R * (1 + ulp53)\<^sup>2 * ?T"
    using js_sum_bounds(1) [OF assms(2)] assms(1) by (intro mult_left_mono) simp_all
  finally show "?S * (1 - ulp53) ^ ?n \<le> R * (1 + ulp53)\<^sup>2" using assms(3) by simp
  have "R * (1 - ulp53)\<^sup>2 * ?T \<le> R * (1 - ulp53)\<^sup>2 * (sum_list ws * (1 + ulp53) ^ ?n)"
    using js_sum_bounds(2) [OF assms(2)] assms(1) by (intro mult_left_mono) simp_all
  also have "\<dots> = R * (1 - ulp53)\<^sup>2 * sum_list ws * (1 + ulp53) ^ ?n" by simp
  also have "\<dots> \<le> (?S * ?T) * (1 + ulp53) ^ ?n"
    using sum_rewardOf(2) [OF assms(1,3,2)] ulp53_bounds(4) by (intro mult_right_mono zero_le_power)
  also have "\<dots> = ?S * (1 + ulp53) ^ ?n * ?T" by simp
  finally show "R * (1 - ulp53)\<^sup>2 \<le> ?S * (1 + ulp53) ^ ?n" using assms(3) by simp
qed

subsection \<open>One miner through a block and through its rollback\<close>

lemma blockRun_getMiner:
  assumes "eng_wf e"
  shows "getMiner i (di_engine (blockRun e)) =
    map_option (credited (en_rewardBase e) (roundTotal e) (en_roundWork e)) (getMiner i e)"
  unfolding getMiner_def blockRun_parts(1) [OF assms] by (rule getMiner_map) simp

lemma blockRun_snapshot:
  assumes "eng_wf e" and "getMiner i e = Some m" and "map_of (en_roundWork e) i = Some w" and "0 < w"
  shows "map_of (di_snapshot (blockRun e)) i = Some (mn_balance m, mn_lifetimeMined m)"
  using reward_loop_snapshot [OF eng_wf_work [OF assms(1)],
      of "\<lparr>di_engine = e, di_minerRewards = [], di_userRewards = [], di_snapshot = []\<rparr>"]
    eng_wf_unique [OF assms(1)] assms(2-4) unfolding blockRun_def by simp

lemma rewardRows_find:
  assumes "distinct (map fst es)" and "getMiner i e = Some m" and "map_of es i = Some w" and "0 < w"
  shows "find_first (\<lambda>r. mr_minerId r = i) (rewardRows R T e es) = Some (rewardRow R T m w)"
  using assms(1,3)
proof (induction es)
  case Nil
  then show ?case by simp
next
  case (Cons x es)
  obtain j v where x: "x = (j, v)" by (cases x)
  have s: "rewardRows R T e ((j, v) # es) = (case getMiner j e of None \<Rightarrow> []
      | Some q \<Rightarrow> if v \<le> 0 then [] else [rewardRow R T q v]) @ rewardRows R T e es"
    by (simp add: rewardRows_def)
  from assms(2) have id: "mn_id m = i" by (auto dest: getMiner_SomeD)
  show ?case
  proof (cases "i = j")
    case True
    with Cons.prems(2) have "v = w" by (simp add: x)
    with True assms(2,4) s have "rewardRows R T e ((j, v) # es) = rewardRow R T m w # rewardRows R T e es" by simp
    with id show ?thesis by (simp add: x) (simp add: rewardRow_def)
  next
    case False
    then have "find_first (\<lambda>r. mr_minerId r = i) (case getMiner j e of None \<Rightarrow> []
      | Some q \<Rightarrow> if v \<le> 0 then [] else [rewardRow R T q v]) = None"
      by (auto simp: rewardRow_def dest: getMiner_SomeD split: option.split)
    with Cons False show ?thesis by (simp add: x s find_first_append)
  qed
qed

definition restored :: "miner_reward list \<Rightarrow> (string \<times> number \<times> number) list \<Rightarrow> miner \<Rightarrow> miner" where
  "restored rs snap m = (case map_of snap (mn_id m) of
     None \<Rightarrow> m
   | Some (b, l) \<Rightarrow> if find_first (\<lambda>r. mr_minerId r = mn_id m) rs = None then m
       else m\<lparr>mn_balance := b, mn_lifetimeMined := l\<rparr>)"

lemma getMiner_minted [simp]: "getMiner i (e\<lparr>en_totalMinted := t\<rparr>) = getMiner i e"
  by (simp add: getMiner_def)

lemma restoreMiner_get:
  "getMiner j (restoreMiner rs e (i, b, l)) = map_option (restored rs [(i, b, l)]) (getMiner j e)"
proof (cases "getMiner i e")
  case None
  have "restored rs [(i, b, l)] m = m" if "getMiner j e = Some m" for m
    using None that getMiner_SomeD [OF that] by (cases "i = j") (auto simp: restored_def)
  then have "map_option (restored rs [(i, b, l)]) (getMiner j e) = getMiner j e" by (cases "getMiner j e") auto
  with None show ?thesis by (simp add: restoreMiner_def)
next
  case (Some m)
  show ?thesis
  proof (cases "find_first (\<lambda>r. mr_minerId r = i) rs")
    case None
    then have "map_option (restored rs [(i, b, l)]) (getMiner j e) = getMiner j e"
      by (cases "getMiner j e") (auto simp: restored_def dest: getMiner_SomeD)
    with None Some show ?thesis by (simp add: restoreMiner_def)
  next
    case (Some r)
    with \<open>getMiner i e = Some m\<close> show ?thesis
      by (cases "getMiner j e") (auto simp: restoreMiner_def Let_def getMiner_updMiner restored_def dest!: getMiner_SomeD)
  qed
qed

lemma restored_id [simp]: "mn_id (restored rs snap m) = mn_id m"
  by (auto simp: restored_def split: option.split)

lemma rollback_get:
  assumes "distinct (map fst snap)"
  shows "getMiner j (foldl (restoreMiner rs) e snap) = map_option (restored rs snap) (getMiner j e)"
  using assms
proof (induction snap arbitrary: e)
  case Nil
  show ?case by (cases "getMiner j e") (simp_all add: restored_def)
next
  case (Cons x snap)
  obtain i b l where x: "x = (i, b, l)" by (cases x)
  from Cons.prems have n: "map_of snap i = None" by (simp add: x map_of_eq_None_iff)
  have "restored rs snap (restored rs [(i, b, l)] m) = restored rs ((i, b, l) # snap) m" for m
    using n by (cases "mn_id m = i") (auto simp: restored_def)
  then show ?case using Cons by (simp add: x restoreMiner_get option.map_comp comp_def)
qed

lemma snapshot_distinct: "distinct (map fst (di_snapshot d)) \<Longrightarrow> distinct (map fst (di_snapshot (foldl (rewardMiner R T) d es)))"
proof (induction es arbitrary: d)
  case (Cons x es)
  have "distinct (map fst (di_snapshot (rewardMiner R T d x)))"
    using Cons.prems by (cases x; cases "getMiner (fst x) (di_engine d)") (auto simp: rewardMiner_def Let_def distinct_update)
  with Cons.IH show ?case by simp
qed simp

lemma blockRun_snapshot_distinct: "distinct (map fst (di_snapshot (blockRun e)))"
  unfolding blockRun_def by (rule snapshot_distinct) simp

lemma rollback_miner:
  assumes "eng_wf e" and "distributeRewards now e = (Some p, e')"
    and "getMiner i e = Some m" and "map_of (en_roundWork e) i = Some w" and "0 < w"
    and "mn_lastPersistedBalance m = Some l"
  shows "\<exists>m'. getMiner i (rollbackBlock p e') = Some m' \<and> mn_userId m' = mn_userId m
    \<and> mn_balance m' = mn_balance m \<and> mn_lifetimeMined m' = mn_lifetimeMined m
    \<and> mn_lastPersistedBalance m' = Some (fl (l + rewardOf (en_rewardBase e) (roundTotal e) w))"
proof -
  note d = distributeRewards_paid [OF assms(2)]
  from assms(3) have id: "mn_id m = i" by (auto dest: getMiner_SomeD)
  let ?m = "credited (en_rewardBase e) (roundTotal e) (en_roundWork e) m"
  have g: "getMiner i e' = Some ?m"
    using blockRun_getMiner [OF assms(1), of i] assms(3) d(4) by (simp add: getMiner_def)
  have f: "find_first (\<lambda>r. mr_minerId r = i) (br_minerRewards (fst p)) \<noteq> None"
    using rewardRows_find [OF eng_wf_work [OF assms(1)] assms(3,4,5)] d(2) blockRun_parts(3) [OF assms(1)] by simp
  have "getMiner i (rollbackBlock p e') = Some (restored (br_minerRewards (fst p)) (snd p) ?m)"
    unfolding rollbackBlock_def using rollback_get [of "snd p"] blockRun_snapshot_distinct d(3) g by simp
  moreover have "restored (br_minerRewards (fst p)) (snd p) ?m
      = ?m\<lparr>mn_balance := mn_balance m, mn_lifetimeMined := mn_lifetimeMined m\<rparr>"
    using blockRun_snapshot [OF assms(1,3,4,5)] f d(3) id unfolding restored_def by (simp del: not_None_eq)
  moreover have "?m = creditReward (rewardOf (en_rewardBase e) (roundTotal e) w) m"
    using assms(4,5) id by (simp add: credited_def)
  ultimately show ?thesis using creditReward_persisted [OF assms(6)] by simp
qed

subsection \<open>Ticks without a block\<close>

lemma tickMiner_parts:
  fixes acc :: "engine \<times> number \<times> int"
  shows "workOf i (fst (tickMiner now acc m)) =
      (if mn_id m = i \<and> mn_miningPayoutMode m \<noteq> ''blk''
       then fl (workOf i (fst acc) + getMinerHashRate (expireBoost now m)) else workOf i (fst acc))"
    and "fst (snd (tickMiner now acc m)) = fl (fst (snd acc) + getMinerHashRate (expireBoost now m))"
    and "snd (snd (tickMiner now acc m)) = snd (snd acc) + of_bool (0 < getMinerHashRate (expireBoost now m))"
    and "en_nextBlockAt (fst (tickMiner now acc m)) = en_nextBlockAt (fst acc)"
proof -
  have w: "workOf i (updMiner j f e) = workOf i e" for i j f e by (simp add: workOf_def)
  show "workOf i (fst (tickMiner now acc m)) =
      (if mn_id m = i \<and> mn_miningPayoutMode m \<noteq> ''blk''
       then fl (workOf i (fst acc) + getMinerHashRate (expireBoost now m)) else workOf i (fst acc))"
    by (cases acc) (auto simp: tickMiner_def Let_def w, auto simp: workOf_def update_conv')
  show "fst (snd (tickMiner now acc m)) = fl (fst (snd acc) + getMinerHashRate (expireBoost now m))"
    "snd (snd (tickMiner now acc m)) = snd (snd acc) + of_bool (0 < getMinerHashRate (expireBoost now m))"
    "en_nextBlockAt (fst (tickMiner now acc m)) = en_nextBlockAt (fst acc)"
    by (cases acc; simp add: tickMiner_def Let_def)+
qed

text \<open>The work of a miner after a tick: a miner paid in BLK accrues none.\<close>

definition accrued :: "millis \<Rightarrow> miner option \<Rightarrow> number \<Rightarrow> number" where
  "accrued now m w = (case m of
     Some m \<Rightarrow> if mn_miningPayoutMode m \<noteq> ''blk'' then fl (w + getMinerHashRate (expireBoost now m)) else w
   | None \<Rightarrow> w)"

lemma accrued_None [simp]: "accrued now None w = w"
  by (simp add: accrued_def)

lemma accrued_Some:
  "accrued now (Some m) w =
     (if mn_miningPayoutMode m \<noteq> ''blk'' then fl (w + getMinerHashRate (expireBoost now m)) else w)"
  by (simp add: accrued_def)

lemma tick_loop:
  assumes "distinct (map mn_id ms)"
  shows "workOf i (fst (foldl (tickMiner now) acc ms)) =
     accrued now (find_first (\<lambda>m. mn_id m = i) ms) (workOf i (fst acc))
   \<and> fst (snd (foldl (tickMiner now) acc ms)) =
       foldl (\<lambda>s x. fl (s + x)) (fst (snd acc)) (map (\<lambda>m. getMinerHashRate (expireBoost now m)) ms)
   \<and> en_nextBlockAt (fst (foldl (tickMiner now) acc ms)) = en_nextBlockAt (fst acc)"
  using assms
proof (induction ms arbitrary: acc)
  case Nil
  then show ?case by simp
next
  case (Cons m ms)
  have n: "find_first (\<lambda>q. mn_id q = i) ms = None" if "mn_id m = i"
    using Cons.prems that unfolding find_first_None_iff by (metis distinct.simps(2) image_eqI list.set_map list.simps(9))
  have d: "distinct (map mn_id ms)" using Cons.prems by simp
  show ?case
    using n by (cases "mn_id m = i") (simp_all add: Cons.IH [OF d] tickMiner_parts accrued_Some)
qed

lemma tick_no_block:
  assumes "unique_key mn_id (en_miners e)" and "now < en_nextBlockAt e"
  shows "fst (tick now e) = None"
    and "workOf i (snd (tick now e)) = accrued now (getMiner i e) (workOf i e)"
    and "en_currentNetworkHashRate (snd (tick now e)) =
      js_sum (map (\<lambda>m. getMinerHashRate (expireBoost now m)) (en_miners e))"
proof -
  obtain e1 h a where f: "foldl (tickMiner now) (e, 0, 0) (en_miners e) = (e1, h, a)"
    by (cases "foldl (tickMiner now) (e, 0, 0) (en_miners e)")
  have l: "workOf i e1 = accrued now (getMiner i e) (workOf i e)"
    "h = js_sum (map (\<lambda>m. getMinerHashRate (expireBoost now m)) (en_miners e))"
    "en_nextBlockAt e1 = en_nextBlockAt e" for i
    using tick_loop [of "en_miners e" i now "(e, 0, 0)"] assms(1)
    unfolding f by (simp_all add: getMiner_def unique_key_def js_sum_def)
  from l(3) assms(2) show "fst (tick now e) = None" by (simp add: tick_def f Let_def)
  from l(3) assms(2) have t: "snd (tick now e) = (e1\<lparr>en_currentNetworkHashRate := h, en_activeMiners := a\<rparr>)
     \<lparr>en_blockProgress := min (en_blockTarget e1) (fl (fl (of_int (max 0 (now - en_blockStartedAt e1))
        / of_int (en_blockDurationMs e1)) * en_blockTarget e1))\<rparr>"
    by (simp add: tick_def f Let_def)
  show "workOf i (snd (tick now e)) = accrued now (getMiner i e) (workOf i e)"
    unfolding l(1) [symmetric] t by (simp add: workOf_def)
  show "en_currentNetworkHashRate (snd (tick now e)) =
      js_sum (map (\<lambda>m. getMinerHashRate (expireBoost now m)) (en_miners e))"
    unfolding t l(2) [symmetric] by simp
qed

end
