(* ===== verification/MiningPersist.thy ===== *)
theory MiningPersist
  imports MiningBlock
begin

section \<open>Lemmas about the database side of the engine\<close>

subsection \<open>Block rewards\<close>

lemma getUser_frame [simp]:
  "getUser u (s\<lparr>st_next := n\<rparr>) = getUser u s"
  "getUser u (t\<lparr>ms_rewardsLog := a\<rparr>) = getUser u t"
  "getUser u (t\<lparr>ms_referralEarnings := b\<rparr>) = getUser u t"
  "getUser u (t\<lparr>ms_blocks := c\<rparr>) = getUser u t"
  "getUser u (t\<lparr>ms_notifications := d\<rparr>) = getUser u t"
  by (simp_all add: getUser_def)

lemma polOf_frame [simp]:
  "polOf u (t\<lparr>ms_referralEarnings := b\<rparr>) = polOf u t"
  "polOf u (t\<lparr>ms_blocks := c\<rparr>) = polOf u t"
  "polOf u (t\<lparr>ms_notifications := d\<rparr>) = polOf u t"
  by (simp_all add: polOf_def)

lemma blocks_addPol [simp]: "ms_blocks (addPol u d s) = ms_blocks s"
  by (simp add: addPol_def updUser_def)

definition refOf :: "int \<Rightarrow> 'a store_scheme \<Rightarrow> int option option" where
  "refOf u s = map_option usr_referredBy (getUser u s)"

lemma refOf_addPol [simp]: "refOf u (addPol v d s) = refOf u s"
  by (cases "getUser u s") (auto simp: refOf_def addPol_def getUser_updUser)

text \<open>The referrer a reward pays a commission to.\<close>

definition referrerOf :: "'a store_scheme \<Rightarrow> miner_reward \<Rightarrow> int option" where
  "referrerOf s r = (case refOf (mr_userId r) s of
     Some (Some f) \<Rightarrow> if f = 0 \<or> mr_rewardAmount r \<le> 0 then None else Some f
   | _ \<Rightarrow> None)"

text \<open>What one reward adds to the balance of a user.\<close>

definition rewardCredit :: "(number \<Rightarrow> dec8) \<Rightarrow> 'a store_scheme \<Rightarrow> int \<Rightarrow> miner_reward \<Rightarrow> dec8" where
  "rewardCredit dec8_of s u r = (if mr_userId r = u then dec8_of (mr_rewardAmount r) else 0)
     + (if referrerOf s r = Some u then dec8_of (commissionOf r) else 0)"

lemma rewardCredit_cong: "(\<And>u. refOf u s = refOf u t) \<Longrightarrow> rewardCredit dec8_of s u r = rewardCredit dec8_of t u r"
  by (simp add: rewardCredit_def referrerOf_def)

lemma logReward_frame [simp]:
  "getUser u (logReward b r s) = getUser u s" "polOf u (logReward b r s) = polOf u s"
  "refOf u (logReward b r s) = refOf u s" "ms_blocks (logReward b r s) = ms_blocks s"
  by (simp_all add: logReward_def getUser_def polOf_def refOf_def)

lemma persistReward_spec:
  assumes "persistReward dec8_of b r s = (Inr ds, s')"
  shows "polOf u s' = map_option (\<lambda>x. x + rewardCredit dec8_of s u r) (polOf u s)"
    and "refOf v s' = refOf v s" and "ms_blocks s' = ms_blocks s"
proof -
  obtain usr where usr: "getUser (mr_userId r) s = Some usr"
    using assms by (auto simp: persistReward_def Let_def split: if_splits)
  define s1 where "s1 = addPol (mr_userId r) (dec8_of (mr_rewardAmount r)) (logReward b r s)"
  have p: "payReferral dec8_of b r s1 = (Inr ds, s')" using assms usr by (simp add: persistReward_def Let_def s1_def)
  have u1: "getUser (mr_userId r) s1 = Some (usr\<lparr>usr_polBalance := usr_polBalance usr + dec8_of (mr_rewardAmount r)\<rparr>)"
    by (simp add: s1_def addPol_def getUser_updUser usr)
  have pol1: "polOf u s1 = map_option (\<lambda>x. x + (if mr_userId r = u then dec8_of (mr_rewardAmount r) else 0)) (polOf u s)"
    by (cases "polOf u s") (auto simp: s1_def)
  have ref: "referrerOf s r = (case usr_referredBy usr of
      Some f \<Rightarrow> if f = 0 \<or> mr_rewardAmount r \<le> 0 then None else Some f | None \<Rightarrow> None)"
    by (simp add: referrerOf_def refOf_def usr)
  have f1: "refOf v s1 = refOf v s" "ms_blocks s1 = ms_blocks s" for v by (simp_all add: s1_def)
  consider "referrerOf s r = None" "s' = s1"
    | f where "referrerOf s r = Some f" "polOf u s' = polOf u (addPol f (dec8_of (commissionOf r)) s1)"
      "\<And>v. refOf v s' = refOf v s1" "ms_blocks s' = ms_blocks s1"
  proof (cases "usr_referredBy usr")
    case None
    with p u1 ref that show ?thesis by (simp add: payReferral_def)
  next
    case (Some f)
    show ?thesis
    proof (cases "f = 0 \<or> mr_rewardAmount r \<le> 0")
      case True
      with p u1 ref Some that show ?thesis by (auto simp: payReferral_def)
    next
      case False
      with p u1 Some have s': "s' = (addPol f (dec8_of (commissionOf r)) s1)\<lparr>ms_referralEarnings :=
          ms_referralEarnings s1 @ [\<lparr>re_referrerId = f, re_referredId = mr_userId r, re_amount = commissionOf r,
            re_source = ''mining_block_'' @ show_int (br_blockNumber b), re_createdAt = br_now b\<rparr>]\<rparr>"
        by (auto simp: payReferral_def split: if_splits)
      have "refOf v s' = refOf v s1" for v unfolding s' by (simp add: refOf_def) (simp add: refOf_def [symmetric])
      with s' False Some ref that(2) [of f] show ?thesis by simp
    qed
  qed
  then have "polOf u s' = map_option (\<lambda>x. x + rewardCredit dec8_of s u r) (polOf u s)
    \<and> refOf v s' = refOf v s \<and> ms_blocks s' = ms_blocks s"
  proof cases
    case 1
    then show ?thesis by (simp add: pol1 f1 rewardCredit_def)
  next
    case 2
    then show ?thesis by (cases "polOf u s") (auto simp: pol1 f1 rewardCredit_def)
  qed
  then show "polOf u s' = map_option (\<lambda>x. x + rewardCredit dec8_of s u r) (polOf u s)"
    and "refOf v s' = refOf v s" and "ms_blocks s' = ms_blocks s" by blast+
qed

lemma persistRewards_spec:
  assumes "persistRewards dec8_of b rs s = (Inr ds, s')"
  shows "polOf u s' = map_option (\<lambda>x. x + sum_list (map (rewardCredit dec8_of s u) rs)) (polOf u s)
    \<and> ms_blocks s' = ms_blocks s"
  using assms
proof (induction rs arbitrary: s ds)
  case Nil
  then show ?case by (cases "polOf u s") auto
next
  case (Cons r rs)
  obtain ds1 s1 ds2 where 1: "persistReward dec8_of b r s = (Inr ds1, s1)" and 2: "persistRewards dec8_of b rs s1 = (Inr ds2, s')"
    using Cons.prems by (auto split: prod.splits sum.splits)
  have c: "rewardCredit dec8_of s1 u = rewardCredit dec8_of s u"
    by (rule ext) (rule rewardCredit_cong, rule persistReward_spec(2) [OF 1])
  from Cons.IH [OF 2] persistReward_spec(1) [OF 1, of u] persistReward_spec(3) [OF 1] show ?case
    by (cases "polOf u s") (simp_all add: c)
qed

lemma blockTransaction_ok:
  assumes "blockTransaction dec8_of b s = (Inr ds, s')"
  shows "polOf u s' = map_option (\<lambda>x. x + sum_list (map (rewardCredit dec8_of s u) (br_minerRewards b))) (polOf u s)"
    and "br_blockNumber b \<notin> bd_blockNumber ` set (ms_blocks s)"
    and "\<exists>d. ms_blocks s' = ms_blocks s @ [d] \<and> bd_blockNumber d = br_blockNumber b
      \<and> map bm_rewardAmount (bd_minerRewards d) = map mr_rewardAmount (br_minerRewards b)"
proof -
  from assms obtain ds1 s1 where 1: "persistRewards dec8_of b (br_minerRewards b) s = (Inr ds1, s1)"
    and 2: "createBlock b s1 = (Inr (), s')"
    unfolding blockTransaction_def transaction_Inr_iff by (auto split: prod.splits sum.splits)
  note p = persistRewards_spec [OF 1, of u]
  from 2 have n: "br_blockNumber b \<notin> bd_blockNumber ` set (ms_blocks s1)"
    by (force simp: createBlock_def split: if_splits)
  from 2 have u: "getUser u s' = getUser u s1" by (auto simp: createBlock_def split: if_splits)
  from p u show "polOf u s' = map_option (\<lambda>x. x + sum_list (map (rewardCredit dec8_of s u) (br_minerRewards b))) (polOf u s)"
    by (simp add: polOf_def)
  from p n show "br_blockNumber b \<notin> bd_blockNumber ` set (ms_blocks s)" by simp
  from 2 p show "\<exists>d. ms_blocks s' = ms_blocks s @ [d] \<and> bd_blockNumber d = br_blockNumber b
      \<and> map bm_rewardAmount (bd_minerRewards d) = map mr_rewardAmount (br_minerRewards b)"
    by (auto simp: createBlock_def comp_def split: if_splits)
qed

subsection \<open>The block history\<close>

lemma sorted_wrt_strict:
  fixes f :: "'b \<Rightarrow> int"
  assumes "sorted_wrt (\<lambda>x y. f y \<le> f x) ys" and "distinct (map f ys)"
  shows "sorted_wrt (\<lambda>x y. f y < f x) ys"
  using assms
proof (induction ys)
  case (Cons y ys)
  have "f x \<noteq> f y" if "x \<in> set ys" for x
  proof -
    have "f x \<in> f ` set ys" using that by (rule imageI)
    moreover have "f y \<notin> f ` set ys" using Cons.prems(2) by simp
    ultimately show ?thesis by (metis (no_types))
  qed
  with Cons show ?case by (auto simp: order.strict_iff_order)
qed simp

lemma sort_desc_strict:
  fixes f :: "'b \<Rightarrow> int"
  assumes "distinct (map f xs)"
  shows "sorted_wrt (\<lambda>x y. f y < f x) (sort_key (\<lambda>x. - f x) xs)"
proof -
  let ?ys = "sort_key (\<lambda>x. - f x) xs"
  have "inj_on f (set xs)" "distinct xs" using assms by (simp_all add: distinct_map)
  then have "distinct (map f ?ys)" by (simp add: distinct_map)
  moreover have "sorted_wrt (\<lambda>x y. f y \<le> f x) ?ys"
    using sorted_sort_key [of "\<lambda>x. - f x" xs] by (simp add: sorted_map)
  ultimately show ?thesis by (intro sorted_wrt_strict)
qed

definition log_acc_ok :: "(int \<times> block) list \<Rightarrow> bool" where
  "log_acc_ok acc \<longleftrightarrow> distinct (map fst acc) \<and> (\<forall>(k, b) \<in> set acc. bl_blockNumber b = k)"

lemma addLogRow_ok:
  assumes "log_acc_ok acc"
  shows "log_acc_ok (addLogRow n acc row)" and "fst ` set (addLogRow n acc row) \<subseteq> insert (rl_blockNumber row) (fst ` set acc)"
proof -
  have s: "set (AList.update k v xs) \<subseteq> insert (k, v) (set xs)" for k :: int and v :: block and xs
    by (induction xs) auto
  define k where "k = rl_blockNumber row"
  define b where "b = (case map_of acc k of Some b \<Rightarrow> b
    | None \<Rightarrow> \<lparr>bl_blockNumber = k, bl_reward = fl (1 / 10), bl_minerCount = 0,
               bl_timestamp = rl_createdAt row, bl_userRewards = []\<rparr>)"
  define b' where "b' = b\<lparr>bl_userRewards := AList.update (rl_userId row) (rl_rewardAmount row) (bl_userRewards b),
                bl_minerCount := bl_minerCount b + 1\<rparr>"
  have e: "addLogRow n acc row = (if n \<le> length acc \<and> k \<notin> fst ` set acc then acc else AList.update k b' acc)"
    unfolding addLogRow_def Let_def k_def b_def b'_def by (rule refl)
  have "bl_blockNumber b = k"
    using assms unfolding b_def log_acc_ok_def by (auto split: option.split dest!: map_of_SomeD)
  then have "bl_blockNumber b' = k" by (simp add: b'_def)
  then have "log_acc_ok (AList.update k b' acc)"
    using assms s [of k b' acc] unfolding log_acc_ok_def by (auto simp: distinct_update)
  with assms show "log_acc_ok (addLogRow n acc row)" by (simp add: e)
  have "fst ` set (AList.update k b' acc) \<subseteq> insert k (fst ` set acc)" using s [of k b' acc] by force
  then show "fst ` set (addLogRow n acc row) \<subseteq> insert (rl_blockNumber row) (fst ` set acc)"
    by (auto simp: e k_def [symmetric])
qed

lemma addLogRows_ok:
  assumes "log_acc_ok acc"
  shows "log_acc_ok (foldl (addLogRow n) acc rows)
    \<and> fst ` set (foldl (addLogRow n) acc rows) \<subseteq> fst ` set acc \<union> rl_blockNumber ` set rows"
  using assms
proof (induction rows arbitrary: acc)
  case (Cons row rows)
  show ?case
    using Cons.IH [OF addLogRow_ok(1) [OF Cons.prems, of n row]] addLogRow_ok(2) [OF Cons.prems, of n row]
    unfolding foldl_Cons list.set(2) image_insert by blast
qed simp

lemma blocksDesc_numbers:
  "map bl_blockNumber (blocksDesc s n) = map bd_blockNumber (take n (sort_key (\<lambda>b. - bd_blockNumber b) (ms_blocks s)))"
  by (simp add: blocksDesc_def comp_def)

lemma loadRecentBlocks_sorted:
  assumes "unique_key bd_blockNumber (ms_blocks s)"
  shows "sorted_wrt (>) (map bl_blockNumber (loadRecentBlocks n s))"
proof -
  let ?B = "blocksDesc s n"
  have st: "sorted_wrt (>) (map bl_blockNumber ?B)"
    using sort_desc_strict [of bd_blockNumber "ms_blocks s"] assms
    unfolding blocksDesc_numbers unique_key_def by (auto simp: sorted_wrt_map intro: sorted_wrt_take)
  have "distinct ns" if "sorted_wrt (>) ns" for ns :: "int list" using that by (induction ns) auto
  with st have d: "distinct (map bl_blockNumber ?B)" by blast
  show ?thesis
  proof (cases "n \<le> length ?B")
    case True
    with st show ?thesis by (simp add: loadRecentBlocks_def Let_def)
  next
    case False
    define logs where "logs = take 5000 (sort_key (\<lambda>l. - rl_id l)
      (filter (\<lambda>l. rl_blockNumber l \<notin> set (map bl_blockNumber ?B)) (ms_rewardsLog s)))"
    define fb where "fb = foldl (addLogRow (n - length ?B)) [] logs"
    have fb: "log_acc_ok fb" "fst ` set fb \<subseteq> rl_blockNumber ` set logs"
      using addLogRows_ok [of "[]" "n - length ?B" logs] by (simp_all add: fb_def log_acc_ok_def)
    have "set logs \<subseteq> {l. rl_blockNumber l \<notin> set (map bl_blockNumber ?B)}"
      unfolding logs_def by (rule subset_trans [OF set_take_subset]) (simp add: subset_iff)
    then have "rl_blockNumber l \<notin> set (map bl_blockNumber ?B)" if "l \<in> set logs" for l
      using that by (rule_tac CollectD) (erule subsetD)
    then have "x \<notin> set (map bl_blockNumber ?B)" if "x \<in> fst ` set fb" for x
      using subsetD [OF fb(2) that] by (metis imageE)
    then have dj: "fst ` set fb \<inter> set (map bl_blockNumber ?B) = {}" by (simp add: disjoint_iff)
    have m: "map bl_blockNumber (map snd fb) = map fst fb" using fb(1) by (auto simp: log_acc_ok_def)
    have "distinct (map bl_blockNumber (?B @ map snd fb))"
      unfolding map_append m distinct_append using d fb(1) dj by (auto simp: log_acc_ok_def)
    from sort_desc_strict [OF this]
    have "sorted_wrt (\<lambda>x y. bl_blockNumber y < bl_blockNumber x)
      (take n (sort_key (\<lambda>b. - bl_blockNumber b) (?B @ map snd fb)))" by (rule sorted_wrt_take)
    moreover have "loadRecentBlocks n s = take n (sort_key (\<lambda>b. - bl_blockNumber b) (?B @ map snd fb))"
      using False unfolding loadRecentBlocks_def Let_def logs_def fb_def by (simp only: if_False)
    ultimately show ?thesis by (simp add: sorted_wrt_map)
  qed
qed

subsection \<open>Persisting a balance\<close>

lemma persisted_delta: "persistStart i (persistFinish i e) = None"
proof (cases "getMiner i e")
  case None
  then have "getMiner i (persistFinish i e) = None" by (simp add: persistFinish_def getMiner_updMiner)
  then show ?thesis by (simp add: persistStart_def)
next
  case (Some m)
  then have g: "getMiner i (persistFinish i e) = Some (m\<lparr>mn_lastPersistedBalance := Some (mn_balance m)\<rparr>)"
    by (simp add: persistFinish_def getMiner_updMiner)
  have "(0::rat) < fl (1 / 10 ^ 7)" by (simp add: fl_def fl_pos_pos)
  then show ?thesis by (simp add: persistStart_def g persistDelta_def)
qed

lemma persistMinerProfile_idem:
  "persistMinerProfile dec8_of i (persistMinerProfile dec8_of i w) = persistMinerProfile dec8_of i w"
proof (cases "persistStart i (fst w)")
  case None
  then show ?thesis by (simp add: persistMinerProfile_def)
next
  case (Some x)
  then show ?thesis
    by (cases x; cases "persistWrite dec8_of (fst x) (snd x) (snd w)")
      (simp_all add: persistMinerProfile_def persisted_delta)
qed

end
