(* ===== verification/MiningProps.thy ===== *)
theory MiningProps
  imports MiningPersist
begin

section \<open>The mining engine: properties\<close>

text \<open>A run with one user: a join with 10 H/s and a balance of 1, and one tick after a second.\<close>

definition demo_profile :: miner_profile where
  "demo_profile = \<lparr>mp_rigs = Some 1, mp_base_hash_rate = Some 10, mp_baseHashRate = None, mp_balance = Some 1,
     mp_lifetimeMined = Some 0, mp_refCode = Some ''abc'', mp_referralCount = Some 0,
     mp_mining_payout_mode = None, mp_miningPayoutMode = None\<rparr>"

definition demo_joined :: engine where
  "demo_joined = snd (createOrGetMiner ''m1'' 7 (Some ''ana'') None (Some demo_profile) (newEngine 0))"

definition demo_ticked :: engine where
  "demo_ticked = snd (tick 1000 demo_joined)"

definition demo_block :: pending_block where
  "demo_block = the (fst (distributeRewards 600000 demo_ticked))"

definition demo_paid :: engine where
  "demo_paid = snd (distributeRewards 600000 demo_ticked)"

text \<open>The states of the run, evaluated once.\<close>

lemma demo_joined_code [code]:
  "demo_joined = \<lparr>en_blockNumber = 1, en_rewardBase = 5404319552844595 / 18014398509481984,
    en_blockTarget = 100, en_blockProgress = 0, en_blockDurationMs = 600000, en_blockStartedAt = 0,
    en_nextBlockAt = 600000, en_tokenPrice = 3152519739159347 / 9007199254740992, en_totalMinted = 0,
    en_lastReward = 0, en_roundWork = [(''m1'', 0)], en_miners = [\<lparr>mn_id = ''m1'', mn_userId = 7,
    mn_walletAddress = None, mn_username = ''ana'', mn_rigs = 1, mn_baseHashRate = 10, mn_active = True,
    mn_boostMultiplier = 1, mn_boostEndsAt = 0, mn_balance = 1, mn_lastPersistedBalance = Some 1,
    mn_lifetimeMined = 0, mn_connected = True, mn_refCode = Some ''abc'', mn_referralCount = 0,
    mn_miningPayoutMode = ''pol''\<rparr>], en_minersByUserId = [(7, ''m1'')], en_lastBlockAt = 0,
    en_activeMiners = 0, en_currentNetworkHashRate = 0, en_blockHistory = []\<rparr>"
  by code_simp

lemma demo_ticked_code [code]:
  "demo_ticked = \<lparr>en_blockNumber = 1, en_rewardBase = 5404319552844595 / 18014398509481984,
    en_blockTarget = 100, en_blockProgress = 3002399751580331 / 18014398509481984, en_blockDurationMs =
    600000, en_blockStartedAt = 0, en_nextBlockAt = 600000, en_tokenPrice = 3152519739159347 /
    9007199254740992, en_totalMinted = 0, en_lastReward = 0, en_roundWork = [(''m1'', 10)], en_miners =
    [\<lparr>mn_id = ''m1'', mn_userId = 7, mn_walletAddress = None, mn_username = ''ana'', mn_rigs = 1,
    mn_baseHashRate = 10, mn_active = True, mn_boostMultiplier = 1, mn_boostEndsAt = 0, mn_balance = 1,
    mn_lastPersistedBalance = Some 1, mn_lifetimeMined = 0, mn_connected = True, mn_refCode = Some ''abc'',
    mn_referralCount = 0, mn_miningPayoutMode = ''pol''\<rparr>], en_minersByUserId = [(7, ''m1'')],
    en_lastBlockAt = 0, en_activeMiners = 1, en_currentNetworkHashRate = 10, en_blockHistory = []\<rparr>"
  by code_simp

lemma demo_block_code [code]:
  "demo_block = (\<lparr>br_blockNumber = 1, br_blockReward = 5404319552844595 / 18014398509481984,
    br_totalWork = 10, br_minerRewards = [\<lparr>mr_minerId = ''m1'', mr_userId = 7, mr_username = ''ana'',
    mr_walletAddress = None, mr_rigs = 1, mr_baseHashRate = 10, mr_workAccumulated = 10, mr_sharePercentage =
    100, mr_rewardAmount = 5404319552844595 / 18014398509481984, mr_balanceAfter = 5854679515581645 /
    4503599627370496, mr_lifetimeMined = 5404319552844595 / 18014398509481984\<rparr>], br_now =
    600000\<rparr>, [(''m1'', 1, 0)])"
  by code_simp

lemma demo_paid_code [code]:
  "demo_paid = \<lparr>en_blockNumber = 2, en_rewardBase = 5404319552844595 / 18014398509481984,
    en_blockTarget = 100, en_blockProgress = 0, en_blockDurationMs = 600000, en_blockStartedAt = 600000,
    en_nextBlockAt = 1200000, en_tokenPrice = 3152519739159347 / 9007199254740992, en_totalMinted =
    5404319552844595 / 18014398509481984, en_lastReward = 5404319552844595 / 18014398509481984, en_roundWork =
    [(''m1'', 0)], en_miners = [\<lparr>mn_id = ''m1'', mn_userId = 7, mn_walletAddress = None, mn_username =
    ''ana'', mn_rigs = 1, mn_baseHashRate = 10, mn_active = True, mn_boostMultiplier = 1, mn_boostEndsAt = 0,
    mn_balance = 5854679515581645 / 4503599627370496, mn_lastPersistedBalance = Some (5854679515581645 /
    4503599627370496), mn_lifetimeMined = 5404319552844595 / 18014398509481984, mn_connected = True,
    mn_refCode = Some ''abc'', mn_referralCount = 0, mn_miningPayoutMode = ''pol''\<rparr>], en_minersByUserId
    = [(7, ''m1'')], en_lastBlockAt = 600000, en_activeMiners = 1, en_currentNetworkHashRate = 10,
    en_blockHistory = [\<lparr>bl_blockNumber = 1, bl_reward = 5404319552844595 / 18014398509481984,
    bl_minerCount = 1, bl_timestamp = 600000, bl_userRewards = [(7, 5404319552844595 /
    18014398509481984)]\<rparr>]\<rparr>"
  by code_simp

lemma demo_rewards:
  "br_minerRewards (fst demo_block) = [\<lparr>mr_minerId = ''m1'', mr_userId = 7, mr_username = ''ana'', mr_walletAddress = None,
     mr_rigs = 1, mr_baseHashRate = 10, mr_workAccumulated = 10, mr_sharePercentage = 100,
     mr_rewardAmount = 5404319552844595 / 18014398509481984, mr_balanceAfter = 5854679515581645 / 4503599627370496,
     mr_lifetimeMined = 5404319552844595 / 18014398509481984\<rparr>]"
  by (simp add: demo_block_code)

definition demo_miner :: miner where
  "demo_miner = newMiner ''m1'' 7 (Some ''ana'') None (Some demo_profile)"

lemma demo_reaches: "reaches engine_init engine_step demo_joined" "reaches engine_init engine_step demo_ticked"
proof -
  have 0: "reaches engine_init engine_step (newEngine 0)"
    by (rule reaches.start) (auto simp: engine_init_def)
  show 1: "reaches engine_init engine_step demo_joined"
    unfolding demo_joined_def
    by (rule reaches.move [OF 0], rule es_join) (simp_all add: newEngine_def profile_ok_def demo_profile_def num_or_def)
  show "reaches engine_init engine_step demo_ticked"
    unfolding demo_ticked_def by (rule reaches.move [OF 1], rule es_tick)
qed

lemma demo_distribute: "distributeRewards 600000 demo_ticked = (Some demo_block, demo_paid)"
proof -
  have "fst (distributeRewards 600000 demo_ticked) \<noteq> None" by code_simp
  then show ?thesis by (simp add: demo_block_def demo_paid_def prod_eq_iff)
qed

lemma demo_lookup: "getMiner ''m1'' demo_ticked = Some demo_miner" "map_of (en_roundWork demo_ticked) ''m1'' = Some 10"
  by code_simp+

text \<open>
  C4: in every state the engine can reach there is one miner object per user and per id, the lookup
  by user finds that object, the round work has exactly one non-negative entry per miner, and the
  history keeps at most 12 blocks.
\<close>

lemma one_miner_per_user:
  assumes "reaches engine_init engine_step e"
  shows "distinct (map mn_userId (en_miners e)) \<and> distinct (map mn_id (en_miners e))
    \<and> (\<forall>m \<in> set (en_miners e). findMinerByUserId (mn_userId m) e = Some m)
    \<and> distinct (map fst (en_roundWork e)) \<and> fst ` set (en_roundWork e) = mn_id ` set (en_miners e)
    \<and> (\<forall>w \<in> snd ` set (en_roundWork e). 0 \<le> w) \<and> length (en_blockHistory e) \<le> 12"
proof -
  have e: "eng_wf e" using assms by (rule eng.reaches_inv)
  then have "\<forall>w \<in> snd ` set (en_roundWork e). 0 \<le> w" "length (en_blockHistory e) \<le> 12"
    unfolding eng_wf_def by blast+
  with eng_wf_users [OF e] eng_wf_unique [OF e] eng_wf_find [OF e] eng_wf_work [OF e] eng_wf_ids [OF e]
  show ?thesis unfolding unique_key_def by blast
qed

lemma one_miner_per_user_witness:
  "map mn_userId (en_miners demo_ticked) = [7] \<and> distinct (map mn_userId (en_miners demo_ticked))"
proof
  show "map mn_userId (en_miners demo_ticked) = [7]" by code_simp
  show "distinct (map mn_userId (en_miners demo_ticked))" using one_miner_per_user [OF demo_reaches(2)] by blast
qed

text \<open>
  C5: a block that pays pays its base reward: the rewards of the miners sum to it within the
  rounding of one operation per miner (\<open>ulp53\<close> is \<open>2 ^ - 53\<close>), every reward is positive, and the
  round work starts again from zero.
\<close>

lemma block_pays_base_reward:
  assumes "reaches engine_init engine_step e" and "distributeRewards now e = (Some (b, snap), e')"
  shows "(let n = length (en_roundWork e); paid = sum_list (map mr_rewardAmount (br_minerRewards b))
    in paid * (1 - ulp53) ^ n \<le> en_rewardBase e * (1 + ulp53)\<^sup>2
     \<and> en_rewardBase e * (1 - ulp53)\<^sup>2 \<le> paid * (1 + ulp53) ^ n)
     \<and> (\<forall>r \<in> set (br_minerRewards b). 0 < mr_rewardAmount r)
     \<and> (\<forall>w \<in> snd ` set (en_roundWork e'). w = 0)"
proof -
  have e: "eng_wf e" using assms(1) by (rule eng.reaches_inv)
  note d = distributeRewards_paid [OF assms(2)]
  have R: "0 < en_rewardBase e" using e by (simp add: eng_wf_def fl_def fl_pos_pos)
  have r: "br_minerRewards b = rewardRows (en_rewardBase e) (roundTotal e) e (en_roundWork e)"
    using d(2) blockRun_parts(3) [OF e] by simp
  have "\<forall>x \<in> set (en_roundWork e). getMiner (fst x) e \<noteq> None"
    using eng_wf_getMiner [OF e] by (metis imageI option.distinct(1))
  then have s: "sum_list (map mr_rewardAmount (br_minerRewards b))
      = sum_list (map (rewardOf (en_rewardBase e) (js_sum (map snd (en_roundWork e)))) (map snd (en_roundWork e)))"
    unfolding r roundTotal_def by (rule rewardRows_sum) (rule eng_wf_work_nonneg [OF e])
  have p: "\<forall>r \<in> set (br_minerRewards b). 0 < mr_rewardAmount r"
    unfolding r using rewardOf_pos [OF R d(1)]
    by (auto simp: rewardRows_def rewardRow_def split: option.splits if_splits)
  have "\<forall>w \<in> snd ` set (en_roundWork e'). w = 0"
    unfolding d(5) blockRun_parts(2) [OF e] by auto
  with block_sum [OF less_imp_le [OF R] eng_wf_work_nonneg [OF e] d(1) [unfolded roundTotal_def]] p show ?thesis
    by (simp add: s Let_def)
qed

lemma block_pays_base_reward_witness:
  "map mr_rewardAmount (br_minerRewards (fst demo_block)) = [fl (30 / 100)]
   \<and> 0 < mr_rewardAmount (hd (br_minerRewards (fst demo_block)))"
proof
  show "map mr_rewardAmount (br_minerRewards (fst demo_block)) = [fl (30 / 100)]" by code_simp
  have "hd (br_minerRewards (fst demo_block)) \<in> set (br_minerRewards (fst demo_block))" by (simp add: demo_rewards)
  then show "0 < mr_rewardAmount (hd (br_minerRewards (fst demo_block)))"
    using block_pays_base_reward [OF demo_reaches(2), of 600000 "fst demo_block" "snd demo_block" demo_paid]
      demo_distribute unfolding prod.collapse by blast
qed

text \<open>
  Each miner with work in the round is credited the base reward times its share of the work,
  in balance, persisted balance and lifetime total alike, and a miner without work is left as it is.
\<close>

lemma block_credits_miner:
  assumes "reaches engine_init engine_step e" and "distributeRewards now e = (Some p, e')"
    and "getMiner i e = Some m" and "map_of (en_roundWork e) i = Some w"
  shows "getMiner i e' = Some (if w = 0 then m else
    (let reward = fl (en_rewardBase e * fl (w / js_sum (map snd (en_roundWork e))))
     in m\<lparr>mn_balance := fl (mn_balance m + reward),
          mn_lastPersistedBalance := map_option (\<lambda>l. fl (l + reward)) (mn_lastPersistedBalance m),
          mn_lifetimeMined := fl (mn_lifetimeMined m + reward)\<rparr>))"
proof -
  have e: "eng_wf e" using assms(1) by (rule eng.reaches_inv)
  have g: "getMiner i e' = Some (credited (en_rewardBase e) (roundTotal e) (en_roundWork e) m)"
    using blockRun_getMiner [OF e, of i] distributeRewards_paid(4) [OF assms(2)] assms(3) by (simp add: getMiner_def)
  from assms(4) have "(i, w) \<in> set (en_roundWork e)" by (rule map_of_SomeD)
  with e have w: "0 \<le> w" unfolding eng_wf_def by force
  from assms(3) have id: "mn_id m = i" and "m \<in> set (en_miners e)" by (auto dest: getMiner_SomeD)
  with e obtain l where "mn_lastPersistedBalance m = Some l" unfolding eng_wf_def miner_ok_def by blast
  with g w id assms(4) show ?thesis
    by (simp add: credited_def creditReward_def rewardOf_def roundTotal_def Let_def)
qed

lemma block_credits_miner_witness:
  "\<exists>m. getMiner ''m1'' demo_paid = Some m \<and> mn_balance m = fl (1 + fl (30 / 100))"
proof -
  have b: "en_rewardBase demo_ticked = fl (30 / 100)" "js_sum (map snd (en_roundWork demo_ticked)) = 10"
    "mn_balance demo_miner = 1" "fl (fl (30 / 100) * fl (10 / 10)) = fl (30 / 100)"
    by code_simp+
  show ?thesis
    using block_credits_miner [OF demo_reaches(2) demo_distribute demo_lookup] by (simp add: Let_def b(1,2,3) b(4) [simplified])
qed

text \<open>
  C6: when the persistence of a block fails, the rollback gives a miner its balance and lifetime
  total of before the block, but not its persisted balance, which keeps the reward the database
  never got.  For a miner whose balance was fully persisted, the next save therefore
  decrements the database by the reward.
\<close>

lemma rollback_leaves_debit:
  assumes "reaches engine_init engine_step e" and "distributeRewards now e = (Some p, e')"
    and "getMiner i e = Some m" and "map_of (en_roundWork e) i = Some w" and "0 < w"
    and "mn_lastPersistedBalance m = Some (mn_balance m)"
    and "reward = fl (en_rewardBase e * fl (w / js_sum (map snd (en_roundWork e))))"
    and "fl (1 / 10 ^ 7) \<le> fl (fl (mn_balance m + reward) - mn_balance m)" and "mn_userId m \<noteq> 0"
  shows "(\<exists>m'. getMiner i (rollbackBlock p e') = Some m' \<and> mn_balance m' = mn_balance m
        \<and> mn_lifetimeMined m' = mn_lifetimeMined m)
    \<and> persistStart i (rollbackBlock p e') = Some (mn_userId m, - fl (fl (mn_balance m + reward) - mn_balance m))"
proof -
  have e: "eng_wf e" using assms(1) by (rule eng.reaches_inv)
  from rollback_miner [OF e assms(2-6)] obtain m' where m': "getMiner i (rollbackBlock p e') = Some m'"
    "mn_userId m' = mn_userId m" "mn_balance m' = mn_balance m" "mn_lifetimeMined m' = mn_lifetimeMined m"
    "mn_lastPersistedBalance m' = Some (fl (mn_balance m + reward))"
    unfolding assms(7) rewardOf_def roundTotal_def by blast
  have p: "persistDelta m' = - fl (fl (mn_balance m + reward) - mn_balance m)"
    using fl_minus [of "fl (mn_balance m + reward) - mn_balance m"] m' by (simp add: persistDelta_def)
  have "0 < fl (1 / 10 ^ 7 :: rat)" by (simp add: fl_def fl_pos_pos)
  with assms(8) have "\<not> \<bar>persistDelta m'\<bar> < fl (1 / 10 ^ 7)" unfolding p by linarith
  then show ?thesis using m' assms(9) by (simp add: persistStart_def p)
qed

lemma rollback_leaves_debit_witness:
  "\<exists>d. persistStart ''m1'' (rollbackBlock demo_block demo_paid) = Some (7, - d) \<and> 29 / 100 < d"
proof -
  let ?r = "5404319552844595 / 18014398509481984 :: number"
  have r: "?r = fl (en_rewardBase demo_ticked * fl (10 / js_sum (map snd (en_roundWork demo_ticked))))"
    by code_simp
  have m: "mn_lastPersistedBalance demo_miner = Some (mn_balance demo_miner)" "mn_userId demo_miner = 7" "mn_balance demo_miner = 1"
    by code_simp+
  have d: "fl (fl (1 + ?r) - 1) = 1351079888211149 / 4503599627370496" by code_simp
  have "fl (1 / 10 ^ 7) \<le> (1351079888211149 / 4503599627370496 :: number)" by code_simp
  then have c: "fl (1 / 10 ^ 7) \<le> fl (fl (mn_balance demo_miner + ?r) - mn_balance demo_miner)"
    unfolding m d .
  have "persistStart ''m1'' (rollbackBlock demo_block demo_paid)
    = Some (mn_userId demo_miner, - fl (fl (mn_balance demo_miner + ?r) - mn_balance demo_miner))"
    using rollback_leaves_debit [OF demo_reaches(2) demo_distribute demo_lookup _ m(1) r c] m(2) by simp
  then show ?thesis unfolding m d by (intro exI [of _ "1351079888211149 / 4503599627370496"]) simp
qed

text \<open>
  C7: the callback that persists a block either changes nothing but the notifications already
  sent, in the database as in the engine, or it adds to every user exactly its own reward and
  the 1% commissions on the rewards of the users it referred, and records the block under a number
  no earlier block has.
\<close>

lemma persist_block_rewards:
  assumes "persistBlockRewards dec8_of b (e, s) = (r, (e', s'))"
  shows "case r of
      Inl _ \<Rightarrow> e' = e \<and> s' = s\<lparr>ms_notifications := ms_notifications s'\<rparr>
    | Inr _ \<Rightarrow> polOf u s' = map_option (\<lambda>x. x + sum_list (map (rewardCredit dec8_of s u) (br_minerRewards b))) (polOf u s)
        \<and> br_blockNumber b \<notin> bd_blockNumber ` set (ms_blocks s)
        \<and> (\<exists>d. ms_blocks s' = ms_blocks s @ [d] \<and> bd_blockNumber d = br_blockNumber b
             \<and> map bm_rewardAmount (bd_minerRewards d) = map mr_rewardAmount (br_minerRewards b))"
proof -
  obtain q s1 where t: "blockTransaction dec8_of b s = (q, s1)" by (cases "blockTransaction dec8_of b s")
  show ?thesis
  proof (cases q)
    case (Inl err)
    with t have "s1 = s" unfolding blockTransaction_def by (simp add: transaction_Inl)
    with assms t Inl show ?thesis by (auto simp: persistBlockRewards_def Let_def)
  next
    case (Inr ds)
    with assms t obtain n where s': "s' = s1\<lparr>ms_notifications := n\<rparr>" and r: "r = Inr ()"
      by (auto simp: persistBlockRewards_def Let_def)
    note ok = blockTransaction_ok [OF t [unfolded Inr]]
    have "ms_blocks s' = ms_blocks s1" "polOf u s' = polOf u s1" unfolding s' by simp_all
    with ok(1) [of u] ok(2,3) show ?thesis unfolding r by simp
  qed
qed

definition demo_user :: "int \<Rightarrow> int option \<Rightarrow> string \<Rightarrow> user" where
  "demo_user i ref mode = \<lparr>usr_id = i, usr_name = ''u'', usr_username = None, usr_isBanned = False, usr_polBalance = 100000000,
     usr_blkBalance = 0, usr_blkLocked = 0, usr_walletAddress = None, usr_miningPayoutMode = mode,
     usr_refCode = Some ''c'', usr_referredBy = ref\<rparr>"

definition demo_db :: "user list \<Rightarrow> mining_store" where
  "demo_db us = \<lparr>st_users = us, st_games = [], st_gamePowers = [], st_ytPowers = [], st_gpuPowers = [], st_v2Powers = [],
     st_miners = [], st_eventMiners = [], st_owned = [], st_inventory = [], st_userMiners = [], st_audit = [],
     st_calls = [], st_next = 1, ms_rewardsLog = [], ms_referralEarnings = [], ms_blocks = [], ms_notifications = []\<rparr>"

lemma persist_block_rewards_witness:
  "polOf 3 (snd (snd (persistBlockRewards round8_away (fst demo_block)
     (demo_paid, demo_db [demo_user 7 (Some 3) ''pol'', demo_user 3 None ''pol''])))) = Some 100300000"
proof -
  let ?s = "demo_db [demo_user 7 (Some 3) ''pol'', demo_user 3 None ''pol'']"
  let ?w = "persistBlockRewards round8_away (fst demo_block) (demo_paid, ?s)"
  have "\<not> Option.is_none (case fst (persistRewards round8_away (fst demo_block) (br_minerRewards (fst demo_block)) ?s) of
      Inr ds \<Rightarrow> Some ds | Inl _ \<Rightarrow> None)"
    unfolding demo_rewards by code_simp
  then have "fst ?w = Inr ()"
    by (auto simp: persistBlockRewards_def blockTransaction_def transaction_def createBlock_def Let_def demo_db_def
        dest: persistRewards_spec split: prod.splits sum.splits)
  then have "?w = (Inr (), (fst (snd ?w), snd (snd ?w)))" by (simp add: prod_eq_iff)
  from persist_block_rewards [OF this, of 3]
  have "polOf 3 (snd (snd ?w)) = map_option (\<lambda>x. x + sum_list (map (rewardCredit round8_away ?s 3)
      (br_minerRewards (fst demo_block)))) (polOf 3 ?s)" by simp
  moreover have "polOf 3 ?s = Some 100000000" by code_simp
  moreover have "sum_list (map (rewardCredit round8_away ?s 3) (br_minerRewards (fst demo_block))) = 300000"
    unfolding demo_rewards by code_simp
  ultimately show ?thesis by simp
qed

text \<open>
  The block history loaded at startup has at most the requested number of blocks, their numbers
  strictly descending: a block rebuilt from the reward log never repeats one that is stored.
\<close>

lemma load_recent_blocks:
  assumes "unique_key bd_blockNumber (ms_blocks s)"
  shows "length (loadRecentBlocks n s) \<le> n \<and> sorted_wrt (>) (map bl_blockNumber (loadRecentBlocks n s))"
  using loadRecentBlocks_length loadRecentBlocks_sorted [OF assms] by blast

definition demo_history :: mining_store where
  "demo_history = (demo_db [])\<lparr>
     ms_blocks := [\<lparr>bd_blockNumber = 5, bd_reward = 3 / 10, bd_minerCount = 1, bd_totalWork = 1, bd_createdAt = 50,
        bd_minerRewards = []\<rparr>],
     ms_rewardsLog := map (\<lambda>k. \<lparr>rl_id = k, rl_userId = 7, rl_blockNumber = k, rl_workAccumulated = 1,
        rl_totalNetworkWork = 1, rl_sharePercentage = 100, rl_rewardAmount = 1 / 10, rl_balanceAfterReward = 1,
        rl_createdAt = k\<rparr>) [3, 4, 5]\<rparr>"

lemma load_recent_blocks_witness:
  "map bl_blockNumber (loadRecentBlocks 2 demo_history) = [5, 4]
   \<and> sorted_wrt (>) (map bl_blockNumber (loadRecentBlocks 2 demo_history))"
proof
  show "map bl_blockNumber (loadRecentBlocks 2 demo_history) = [5, 4]" by code_simp
  have "unique_key bd_blockNumber (ms_blocks demo_history)" by (simp add: demo_history_def unique_key_def)
  from load_recent_blocks [OF this] show "sorted_wrt (>) (map bl_blockNumber (loadRecentBlocks 2 demo_history))" by blast
qed

text \<open>
  A tick that closes no block adds to the work of every miner paid in POL its hash rate, the
  boost counted only until it ends, and nothing to a miner paid in BLK; the network hash rate is
  the sum over all miners.
\<close>

lemma tick_accrues_work:
  assumes "reaches engine_init engine_step e" and "now < en_nextBlockAt e" and "m \<in> set (en_miners e)"
  shows "fst (tick now e) = None
    \<and> workOf (mn_id m) (snd (tick now e)) =
        (if mn_miningPayoutMode m = ''blk'' then workOf (mn_id m) e
         else fl (workOf (mn_id m) e + (if \<not> mn_active m then 0
           else fl (mn_baseHashRate m * (if 0 < mn_boostEndsAt m \<and> mn_boostEndsAt m \<le> now then 1 else mn_boostMultiplier m)))))
    \<and> en_currentNetworkHashRate (snd (tick now e)) =
        js_sum (map (\<lambda>m. getMinerHashRate (expireBoost now m)) (en_miners e))"
proof -
  have e: "eng_wf e" using assms(1) by (rule eng.reaches_inv)
  note t = tick_no_block [OF eng_wf_unique [OF e] assms(2)]
  have "getMiner (mn_id m) e = Some m" by (rule getMiner_in [OF eng_wf_unique [OF e] assms(3)])
  then have "workOf (mn_id m) (snd (tick now e)) = accrued now (Some m) (workOf (mn_id m) e)"
    by (simp add: t(2))
  moreover have "getMinerHashRate (expireBoost now m) = (if \<not> mn_active m then 0
      else fl (mn_baseHashRate m * (if 0 < mn_boostEndsAt m \<and> mn_boostEndsAt m \<le> now then 1 else mn_boostMultiplier m)))"
    by (simp add: getMinerHashRate_def expireBoost_def)
  ultimately show ?thesis using t(1,3) by (simp add: accrued_Some)
qed

lemma tick_accrues_work_witness: "workOf ''m1'' (snd (tick 1000 demo_joined)) = 10"
proof -
  have m: "demo_miner \<in> set (en_miners demo_joined)" "1000 < en_nextBlockAt demo_joined"
    by (simp_all add: demo_joined_def demo_miner_def createOrGetMiner_def findMinerByUserId_def newEngine_def)
  have f: "mn_id demo_miner = ''m1''" "mn_miningPayoutMode demo_miner = ''pol''" "mn_active demo_miner"
    "mn_boostEndsAt demo_miner = 0" "fl (workOf ''m1'' demo_joined + fl (mn_baseHashRate demo_miner * mn_boostMultiplier demo_miner)) = 10"
    by code_simp+
  show ?thesis using tick_accrues_work [OF demo_reaches(1) m(2,1)] f by simp
qed

text \<open>
  After a successful \<open>miner:join\<close> the engine pays the user in POL, whatever payout mode the
  account has, because the profile handed to the engine carries no payout mode; the same
  object is used when the users are loaded at startup.
\<close>

lemma join_resets_payout_mode:
  assumes "reaches engine_init engine_step (fst w)" and "uuid \<notin> mn_id ` set (en_miners (fst w))"
    and "minerJoin now v2Ok uuid newRefCode auth w = (Inr minerId, (e', s'))"
  shows "\<exists>m. getMiner minerId e' = Some m \<and> mn_miningPayoutMode m = ''pol''"
proof -
  from assms(3) obtain userId user p e
    where c: "createOrGetMiner uuid userId (Some (joinName p user)) None (Some (joinProfile p)) (fst w) = (minerId, e)"
      and e': "e' = setConnected minerId True e"
    unfolding minerJoin_def Let_def by (auto split: option.splits if_splits prod.splits)
  have pol: "payoutMode (joinProfile p) = ''pol''" by (simp add: payoutMode_def joinProfile_def)
  have "\<exists>m. getMiner minerId e = Some m \<and> mn_miningPayoutMode m = ''pol''"
  proof (cases "findMinerByUserId userId (fst w)")
    case None
    then have "minerId = uuid" "en_miners e = en_miners (fst w) @ [newMiner uuid userId (Some (joinName p user)) None (Some (joinProfile p))]"
      using c by (auto simp: createOrGetMiner_def)
    moreover have "find_first (\<lambda>m. mn_id m = uuid) (en_miners (fst w)) = None"
      using assms(2) unfolding find_first_None_iff by (metis imageI)
    ultimately show ?thesis by (simp add: getMiner_def find_first_append newMiner_def Let_def pol)
  next
    case (Some m)
    then have "getMiner (mn_id m) (fst w) = Some m"
      by (auto simp: findMinerByUserId_def dest: getMiner_SomeD split: option.splits if_splits)
    moreover have "minerId = mn_id m" "e = updMiner (mn_id m) (rejoinMiner (Some (joinName p user)) None (Some (joinProfile p))) (fst w)"
      using c Some by (auto simp: createOrGetMiner_def)
    ultimately show ?thesis by (simp add: getMiner_updMiner rejoinMiner_def Let_def pol)
  qed
  then show ?thesis unfolding e' by (auto simp: setConnected_def getMiner_updMiner)
qed

lemma join_resets_payout_mode_witness:
  "\<exists>m. getMiner ''m9'' (fst (snd (minerJoin 0 True ''m9'' ''r'' (Some 7) (newEngine 0, demo_db [demo_user 7 None ''blk'']))))
     = Some m \<and> mn_miningPayoutMode m = ''pol''"
proof -
  let ?w = "minerJoin 0 True ''m9'' ''r'' (Some 7) (newEngine 0, demo_db [demo_user 7 None ''blk''])"
  have "fst ?w = Inr ''m9''" by code_simp
  then have 1: "?w = (Inr ''m9'', (fst (snd ?w), snd (snd ?w)))" by (simp add: prod_eq_iff)
  have 2: "reaches engine_init engine_step (fst (newEngine 0, demo_db [demo_user 7 None ''blk'']))"
    by (rule reaches.start) (auto simp: engine_init_def)
  show ?thesis by (rule join_resets_payout_mode [OF 2 _ 1]) (simp add: newEngine_def)
qed

text \<open>
  C8: saving a balance twice in a row is saving it once; but two saves of the same miner that both
  start before either returns (the timer and a socket handler) both send the same delta, and the
  database ends with it applied twice while the engine holds the whole balance as persisted.
\<close>

lemma overlapping_saves_apply_twice:
  assumes "persistStart i e = Some (u, d)"
    and "persistWrite dec8_of u d s = Some s1" and "persistWrite dec8_of u d s1 = Some s2"
  shows "persistMinerProfile dec8_of i (persistMinerProfile dec8_of i (e, s)) = (persistFinish i e, s1)
    \<and> polOf u s2 = map_option (\<lambda>x. x + 2 * (if 0 < d then dec8_of d else - dec8_of (- d))) (polOf u s)
    \<and> persistStart i (persistFinish i (persistFinish i e)) = None"
proof -
  let ?x = "if 0 < d then dec8_of d else - dec8_of (- d)"
  have w: "s' = addPol u ?x t" if "persistWrite dec8_of u d t = Some s'" for s' t
    using that by (auto simp: persistWrite_def split: option.splits)
  have "persistMinerProfile dec8_of i (e, s) = (persistFinish i e, s1)"
    using assms(1,2) by (simp add: persistMinerProfile_def)
  with persistMinerProfile_idem [of dec8_of i "(e, s)"]
  have 1: "persistMinerProfile dec8_of i (persistMinerProfile dec8_of i (e, s)) = (persistFinish i e, s1)" by simp
  have 2: "polOf u s2 = map_option (\<lambda>x. x + 2 * ?x) (polOf u s)"
    unfolding w [OF assms(3)] w [OF assms(2)] by (cases "polOf u s") simp_all
  from 1 2 persisted_delta show ?thesis by blast
qed

lemma overlapping_saves_apply_twice_witness:
  "\<exists>s2 :: mining_store. polOf 7 s2 = Some 30000000"
proof -
  let ?e = "snd (applyBoost 2000 ''m1'' demo_joined)" and ?s = "demo_db [demo_user 7 None ''pol'']"
  let ?d = "- 3152519739159347 / 9007199254740992 :: number"
  let ?s1 = "addPol 7 (- 35000000) ?s"
  have 1: "persistStart ''m1'' ?e = Some (7, ?d)" by code_simp
  have x: "(if 0 < ?d then round8_away ?d else - round8_away (- ?d)) = - 35000000" by code_simp
  have u: "getUser 7 ?s = Some (demo_user 7 None ''pol'')" by (simp add: getUser_def demo_db_def demo_user_def)
  then have u1: "getUser 7 ?s1 \<noteq> None" by (simp add: addPol_def getUser_updUser)
  have 2: "persistWrite round8_away 7 ?d ?s = Some ?s1"
    unfolding persistWrite_def x using u by simp
  have 3: "persistWrite round8_away 7 ?d ?s1 = Some (addPol 7 (- 35000000) ?s1)"
    unfolding persistWrite_def x using u1 by (auto split: option.split)
  have "polOf 7 (addPol 7 (- 35000000) ?s1) = map_option (\<lambda>x. x + 2 * (- 35000000)) (polOf 7 ?s)"
    using overlapping_saves_apply_twice [OF 1 2 3] unfolding x by blast
  moreover have "polOf 7 ?s = Some 100000000" by code_simp
  ultimately show ?thesis by (intro exI [of _ "addPol 7 (- 35000000) ?s1"]) simp
qed

end
