(* ===== verification/Minigame.thy ===== *)
theory Minigame
  imports MiningDb
begin

section \<open>The Hash Tap Sprint minigame\<close>

text \<open>
  \<open>server/services/minigameService.js\<close> and \<open>server/utils/minigameConstants.js\<close>.  Every handler
  locks the row of the user, so the handlers of one user run one after the other: a handler is a
  function of the tables and of its instant.  A refusal is a returned value, not an exception: what
  the handler wrote before it is committed.
\<close>

definition MINIGAME_GAME_SLUG :: string where "MINIGAME_GAME_SLUG = ''hash-tap-sprint''"
definition MINIGAME_DURATION_MS :: millis where "MINIGAME_DURATION_MS = 69000"
definition MINIGAME_COOLDOWN_MS :: millis where "MINIGAME_COOLDOWN_MS = 180000"
definition MINIGAME_REWARD_HASHRATE :: number where "MINIGAME_REWARD_HASHRATE = 25"
definition MINIGAME_COMPLETE_EARLY_MS :: millis where "MINIGAME_COMPLETE_EARLY_MS = 1500"
definition MINIGAME_COMPLETE_LATE_MS :: millis where "MINIGAME_COMPLETE_LATE_MS = 120000"

datatype session_status = ACTIVE | COMPLETED | EXPIRED

record minigame_session =
  mg_id :: int
  mg_userId :: int
  mg_status :: session_status
  mg_startedAt :: millis
  mg_endsAt :: millis
  mg_completedAt :: "millis option"
  mg_rewardGranted :: bool

record mg_store = store +
  mg_sessions :: "minigame_session list"

definition computeCooldownEndsAt :: "millis option \<Rightarrow> millis \<Rightarrow> millis option" where
  "computeCooldownEndsAt completedAt now =
     (case completedAt of
        None \<Rightarrow> None
      | Some t \<Rightarrow> let end = t + MINIGAME_COOLDOWN_MS in if now < end then Some end else None)"

definition isWithinCompleteWindow :: "millis \<Rightarrow> millis \<Rightarrow> bool" where
  "isWithinCompleteWindow endsAt now \<longleftrightarrow>
     endsAt - MINIGAME_COMPLETE_EARLY_MS \<le> now \<and> now \<le> endsAt + MINIGAME_COMPLETE_LATE_MS"

definition secondsLeft :: "millis \<Rightarrow> millis \<Rightarrow> int" where
  "secondsLeft end now = max 0 (ceil_div (end - now) 1000)"

definition getOrCreateMinigameGameId :: "mg_store \<Rightarrow> int \<times> mg_store" where
  "getOrCreateMinigameGameId = upsertGame MINIGAME_GAME_SLUG ''Hash Tap Sprint''"

definition expireStaleActiveSessions :: "int \<Rightarrow> millis \<Rightarrow> mg_store \<Rightarrow> mg_store" where
  "expireStaleActiveSessions userId now s =
     (let threshold = now - MINIGAME_COMPLETE_LATE_MS
      in s\<lparr>mg_sessions := update_where
            (\<lambda>r. mg_userId r = userId \<and> mg_status r = ACTIVE \<and> mg_endsAt r \<le> threshold)
            (\<lambda>r. r\<lparr>mg_status := EXPIRED\<rparr>) (mg_sessions s)\<rparr>)"

text \<open>
  \<open>findFirst\<close> ordered by \<open>completedAt\<close> descending; PostgreSQL puts a missing instant first.
\<close>

definition isRewarded :: "int \<Rightarrow> minigame_session \<Rightarrow> bool" where
  "isRewarded userId r \<longleftrightarrow> mg_userId r = userId \<and> mg_status r = COMPLETED \<and> mg_rewardGranted r"

definition lastRewarded :: "int \<Rightarrow> mg_store \<Rightarrow> minigame_session option" where
  "lastRewarded userId s =
     (case find_first (\<lambda>r. isRewarded userId r \<and> mg_completedAt r = None) (mg_sessions s) of
        Some r \<Rightarrow> Some r
      | None \<Rightarrow> find_latest (\<lambda>r. the (mg_completedAt r)) (isRewarded userId) (mg_sessions s))"

definition activeSession :: "int \<Rightarrow> mg_store \<Rightarrow> minigame_session option" where
  "activeSession userId s = find_latest mg_id (\<lambda>r. mg_userId r = userId \<and> mg_status r = ACTIVE) (mg_sessions s)"

definition cooldownOf :: "int \<Rightarrow> millis \<Rightarrow> mg_store \<Rightarrow> millis option" where
  "cooldownOf userId now s = computeCooldownEndsAt
     (case lastRewarded userId s of Some r \<Rightarrow> mg_completedAt r | None \<Rightarrow> None) now"

record minigame_status =
  gs_allowNewStart :: bool
  gs_cooldownEndsAt :: "millis option"
  gs_cooldownSecondsRemaining :: int
  gs_activeSession :: "(int \<times> millis \<times> millis \<times> session_status) option"
  gs_rewardHashRate :: number
  gs_durationSeconds :: int

definition getMinigameStatus :: "int \<Rightarrow> millis \<Rightarrow> mg_store \<Rightarrow> minigame_status \<times> mg_store" where
  "getMinigameStatus userId now s0 =
     (let s = expireStaleActiveSessions userId now s0;
          cd = cooldownOf userId now s;
          active = activeSession userId s
      in (\<lparr>gs_allowNewStart = (cd = None \<and> active = None),
           gs_cooldownEndsAt = cd,
           gs_cooldownSecondsRemaining = (case cd of Some end \<Rightarrow> secondsLeft end now | None \<Rightarrow> 0),
           gs_activeSession = map_option (\<lambda>r. (mg_id r, mg_startedAt r, mg_endsAt r, mg_status r)) active,
           gs_rewardHashRate = MINIGAME_REWARD_HASHRATE,
           gs_durationSeconds = MINIGAME_DURATION_MS div 1000\<rparr>, s))"

datatype minigame_error =
  COOLDOWN_ACTIVE millis int
| INVALID_SESSION
| SESSION_NOT_FOUND
| SESSION_NOT_ACTIVE
| TOO_EARLY
| SESSION_EXPIRED

record minigame_started =
  sk_reused :: bool
  sk_id :: int
  sk_startedAt :: millis
  sk_endsAt :: millis
  sk_durationSeconds :: int
  sk_rewardHashRate :: number

definition startedOf :: "bool \<Rightarrow> minigame_session \<Rightarrow> minigame_started" where
  "startedOf reused r = \<lparr>sk_reused = reused, sk_id = mg_id r, sk_startedAt = mg_startedAt r, sk_endsAt = mg_endsAt r,
     sk_durationSeconds = MINIGAME_DURATION_MS div 1000, sk_rewardHashRate = MINIGAME_REWARD_HASHRATE\<rparr>"

definition startMinigameSession ::
  "int \<Rightarrow> millis \<Rightarrow> mg_store \<Rightarrow> (minigame_error, minigame_started, mg_store) outcome" where
  "startMinigameSession userId now s0 =
     (let s = expireStaleActiveSessions userId now s0
      in case cooldownOf userId now s of
           Some cd \<Rightarrow> (Inl (COOLDOWN_ACTIVE cd (secondsLeft cd now)), s)
         | None \<Rightarrow>
             (case activeSession userId s of
                Some existing \<Rightarrow> (Inr (startedOf True existing), s)
              | None \<Rightarrow>
                  let row = \<lparr>mg_id = st_next s, mg_userId = userId, mg_status = ACTIVE, mg_startedAt = now,
                             mg_endsAt = now + MINIGAME_DURATION_MS, mg_completedAt = None, mg_rewardGranted = False\<rparr>
                  in (Inr (startedOf False row), s\<lparr>mg_sessions := mg_sessions s @ [row], st_next := st_next s + 1\<rparr>)))"

text \<open>\<open>env\<close>: the number read from the environment, \<open>None\<close> when it is not finite.\<close>

definition powerDaysFromEnv :: "rat option \<Rightarrow> int" where
  "powerDaysFromEnv env = max 1 (min 365 \<lfloor>case env of Some n \<Rightarrow> n | None \<Rightarrow> 7\<rfloor>)"

record minigame_completed =
  ck_idempotent :: bool
  ck_rewardHashRate :: number
  ck_powerDays :: int
  ck_nextPlayAllowedAt :: "millis option"
  ck_cooldownSecondsRemaining :: int

text \<open>The rewarded branch: the power, the session, the audit row.\<close>

definition grantReward :: "int \<Rightarrow> int \<Rightarrow> int \<Rightarrow> millis \<Rightarrow> mg_store \<Rightarrow> mg_store" where
  "grantReward userId sid days now s =
     (let (gameId, s1) = getOrCreateMinigameGameId s;
          expiresAt = now + days * 86400000;
          s2 = createPowerGame userId gameId MINIGAME_REWARD_HASHRATE now expiresAt s1;
          s3 = s2\<lparr>mg_sessions := update_where (\<lambda>r. mg_id r = sid)
                 (\<lambda>r. r\<lparr>mg_status := COMPLETED, mg_completedAt := Some now, mg_rewardGranted := True\<rparr>) (mg_sessions s2)\<rparr>
      in logAudit \<lparr>al_userId = userId, al_action = ''minigame_complete'',
           al_details = [(''sessionId'', show_int sid), (''expiresAt'', show_int expiresAt)]\<rparr> s3)"

definition completeInTransaction ::
  "rat option \<Rightarrow> int \<Rightarrow> int \<Rightarrow> millis \<Rightarrow> mg_store \<Rightarrow> (minigame_error, minigame_completed, mg_store) outcome" where
  "completeInTransaction env userId sid now s0 =
     (let s = expireStaleActiveSessions userId now s0
      in case find_first (\<lambda>r. mg_id r = sid \<and> mg_userId r = userId) (mg_sessions s) of
           None \<Rightarrow> (Inl SESSION_NOT_FOUND, s)
         | Some row \<Rightarrow>
             if mg_status row = COMPLETED \<and> mg_rewardGranted row then
               let cd = computeCooldownEndsAt (mg_completedAt row) now
               in (Inr \<lparr>ck_idempotent = True, ck_rewardHashRate = MINIGAME_REWARD_HASHRATE,
                        ck_powerDays = powerDaysFromEnv env, ck_nextPlayAllowedAt = cd,
                        ck_cooldownSecondsRemaining = (case cd of Some end \<Rightarrow> secondsLeft end now | None \<Rightarrow> 0)\<rparr>, s)
             else if mg_status row \<noteq> ACTIVE then (Inl SESSION_NOT_ACTIVE, s)
             else if \<not> isWithinCompleteWindow (mg_endsAt row) now then
               if now < mg_endsAt row - MINIGAME_COMPLETE_EARLY_MS then (Inl TOO_EARLY, s)
               else (Inl SESSION_EXPIRED, s\<lparr>mg_sessions := update_where (\<lambda>r. mg_id r = mg_id row)
                       (\<lambda>r. r\<lparr>mg_status := EXPIRED\<rparr>) (mg_sessions s)\<rparr>)
             else
               let cd = now + MINIGAME_COOLDOWN_MS
               in (Inr \<lparr>ck_idempotent = False, ck_rewardHashRate = MINIGAME_REWARD_HASHRATE,
                        ck_powerDays = powerDaysFromEnv env, ck_nextPlayAllowedAt = Some cd,
                        ck_cooldownSecondsRemaining = secondsLeft cd now\<rparr>,
                   grantReward userId (mg_id row) (powerDaysFromEnv env) now s))"

text \<open>
  \<open>sessionId\<close>: the argument as a number; 0 stands for everything that is not one.  After a new
  reward the hash rate of the user's miner in the engine is set from the tables.
\<close>

definition completeMinigameSession ::
  "rat option \<Rightarrow> bool \<Rightarrow> int \<Rightarrow> rat \<Rightarrow> millis \<Rightarrow> mg_store \<Rightarrow> (minigame_error, minigame_completed, mg_store) outcome" where
  "completeMinigameSession env v2Ok userId sessionId now s =
     (let sid = \<lfloor>sessionId\<rfloor>
      in if sid = 0 then (Inl INVALID_SESSION, s)
         else case completeInTransaction env userId sid now s of
           (Inl err, t) \<Rightarrow> (Inl err, t)
         | (Inr r, t) \<Rightarrow>
             (Inr r, if ck_idempotent r then t
                     else logCall (EmitMachinesUpdate userId)
                       (logCall (SetBaseHashRate userId (syncUserBaseHashRate now v2Ok userId t)) t)))"

end
