(* ===== verification/MinigameProofs.thy ===== *)
theory MinigameProofs
  imports Minigame
begin

section \<open>The minigame: invariant and properties\<close>

lemmas minigame_consts = MINIGAME_DURATION_MS_def MINIGAME_COOLDOWN_MS_def
  MINIGAME_COMPLETE_EARLY_MS_def MINIGAME_COMPLETE_LATE_MS_def

text \<open>One row: its window, and what its status says of the reward.\<close>

definition round_ok :: "millis \<Rightarrow> int \<Rightarrow> minigame_session \<Rightarrow> bool" where
  "round_ok c n r \<longleftrightarrow> mg_id r < n \<and> mg_startedAt r \<le> c \<and> mg_endsAt r = mg_startedAt r + 69000
     \<and> (mg_rewardGranted r \<longleftrightarrow> mg_status r = COMPLETED)
     \<and> (mg_status r \<noteq> COMPLETED \<longrightarrow> mg_completedAt r = None)
     \<and> (mg_status r = COMPLETED \<longrightarrow> (\<exists>t. mg_completedAt r = Some t \<and> mg_startedAt r + 67500 \<le> t \<and> t \<le> c))"

text \<open>Two different rows of one user.\<close>

definition rounds_apart :: "minigame_session \<Rightarrow> minigame_session \<Rightarrow> bool" where
  "rounds_apart r q \<longleftrightarrow> (mg_status r \<noteq> ACTIVE \<or> mg_status q \<noteq> ACTIVE)
     \<and> (mg_status r = COMPLETED \<and> mg_status q = ACTIVE \<longrightarrow> the (mg_completedAt r) + 180000 \<le> mg_startedAt q)
     \<and> (mg_status r = COMPLETED \<and> mg_status q = COMPLETED \<longrightarrow>
          247500 \<le> \<bar>the (mg_completedAt r) - the (mg_completedAt q)\<bar>)"

definition rounds_ok :: "millis \<Rightarrow> int \<Rightarrow> minigame_session list \<Rightarrow> bool" where
  "rounds_ok c n rows \<longleftrightarrow> unique_key mg_id rows \<and> (\<forall>r \<in> set rows. round_ok c n r)
     \<and> (\<forall>r \<in> set rows. \<forall>q \<in> set rows. mg_userId r = mg_userId q \<and> mg_id r \<noteq> mg_id q \<longrightarrow> rounds_apart r q)"

definition powers_ok :: "mg_store \<Rightarrow> bool" where
  "powers_ok s \<longleftrightarrow>
     (\<forall>u. count_where (\<lambda>p. pg_userId p = u) (st_gamePowers s) = count_where (isRewarded u) (mg_sessions s))
     \<and> (\<forall>p \<in> set (st_gamePowers s). pg_hashRate p = 25 \<and> pg_playedAt p < pg_expiresAt p
          \<and> pg_expiresAt p \<le> pg_playedAt p + 365 * 86400000)"

definition mg_inv :: "millis \<Rightarrow> mg_store \<Rightarrow> bool" where
  "mg_inv c s \<longleftrightarrow> rounds_ok c (st_next s) (mg_sessions s) \<and> powers_ok s"

lemma round_ok_later: "round_ok c n r \<Longrightarrow> c \<le> d \<Longrightarrow> n \<le> k \<Longrightarrow> round_ok d k r"
  unfolding round_ok_def by fastforce

lemma rounds_ok_later: "rounds_ok c n rows \<Longrightarrow> c \<le> d \<Longrightarrow> n \<le> k \<Longrightarrow> rounds_ok d k rows"
  unfolding rounds_ok_def using round_ok_later by blast

lemma mg_inv_later: "mg_inv c s \<Longrightarrow> c \<le> d \<Longrightarrow> mg_inv d s"
  unfolding mg_inv_def using rounds_ok_later by blast

subsection \<open>The three changes of the session table\<close>

text \<open>Changing rows in place keeps the invariant when each pair stays as it should.\<close>

lemma rounds_ok_update:
  assumes "rounds_ok c n rows" and "\<And>r. mg_id (f r) = mg_id r" and "\<And>r. mg_userId (f r) = mg_userId r"
    and "\<And>r. r \<in> set rows \<Longrightarrow> P r \<Longrightarrow> round_ok c n (f r)"
    and "\<And>r q. r \<in> set rows \<Longrightarrow> q \<in> set rows \<Longrightarrow> mg_userId r = mg_userId q \<Longrightarrow> mg_id r \<noteq> mg_id q \<Longrightarrow>
      rounds_apart (if P r then f r else r) (if P q then f q else q)"
  shows "rounds_ok c n (update_where P f rows)"
proof -
  define g where "g = (\<lambda>r. if P r then f r else r)"
  have k: "mg_id (g r) = mg_id r" "mg_userId (g r) = mg_userId r" for r
    using assms(2,3) by (simp_all add: g_def)
  have s: "set (update_where P f rows) = g ` set rows" by (simp add: update_where_def g_def)
  have "unique_key mg_id (update_where P f rows)" using assms(1,2) by (simp add: rounds_ok_def)
  moreover have "round_ok c n (g r)" if "r \<in> set rows" for r
    using assms(1,4) that by (simp add: g_def rounds_ok_def)
  moreover have "rounds_apart (g r) (g q)"
    if "r \<in> set rows" "q \<in> set rows" "mg_userId (g r) = mg_userId (g q)" "mg_id (g r) \<noteq> mg_id (g q)" for r q
    using assms(5) [OF that(1,2) that(3,4) [unfolded k]] by (simp add: g_def)
  ultimately show ?thesis unfolding rounds_ok_def s by blast
qed

lemma rounds_apartD:
  "rounds_ok c n rows \<Longrightarrow> r \<in> set rows \<Longrightarrow> q \<in> set rows \<Longrightarrow> mg_userId r = mg_userId q \<Longrightarrow> mg_id r \<noteq> mg_id q
    \<Longrightarrow> rounds_apart r q"
  unfolding rounds_ok_def by blast

lemma rounds_ok_expire:
  assumes "rounds_ok c n rows" and "\<And>r. r \<in> set rows \<Longrightarrow> P r \<Longrightarrow> mg_status r = ACTIVE"
  shows "rounds_ok c n (update_where P (\<lambda>r. r\<lparr>mg_status := EXPIRED\<rparr>) rows)"
  using assms(1)
proof (rule rounds_ok_update)
  fix r assume "r \<in> set rows" "P r"
  with assms show "round_ok c n (r\<lparr>mg_status := EXPIRED\<rparr>)"
    unfolding rounds_ok_def by (auto simp: round_ok_def)
next
  fix r q assume "r \<in> set rows" "q \<in> set rows" "mg_userId r = mg_userId q" "mg_id r \<noteq> mg_id q"
  from rounds_apartD [OF assms(1) this]
  show "rounds_apart (if P r then r\<lparr>mg_status := EXPIRED\<rparr> else r) (if P q then q\<lparr>mg_status := EXPIRED\<rparr> else q)"
    by (simp add: rounds_apart_def)
qed simp_all

lemma expireStale_sessions:
  "mg_sessions (expireStaleActiveSessions u now s) =
     update_where (\<lambda>r. mg_userId r = u \<and> mg_status r = ACTIVE \<and> mg_endsAt r \<le> now - 120000)
       (\<lambda>r. r\<lparr>mg_status := EXPIRED\<rparr>) (mg_sessions s)"
  "st_next (expireStaleActiveSessions u now s) = st_next s"
  "st_gamePowers (expireStaleActiveSessions u now s) = st_gamePowers s"
  "st_games (expireStaleActiveSessions u now s) = st_games s"
  by (simp_all add: expireStaleActiveSessions_def minigame_consts)

lemma mg_inv_expire: "mg_inv c s \<Longrightarrow> mg_inv c (expireStaleActiveSessions u now s)"
proof -
  assume i: "mg_inv c s"
  have "rounds_ok c (st_next s) (mg_sessions (expireStaleActiveSessions u now s))"
    unfolding expireStale_sessions using i by (intro rounds_ok_expire) (simp_all add: mg_inv_def)
  moreover have "count_where (isRewarded v) (mg_sessions (expireStaleActiveSessions u now s))
      = count_where (isRewarded v) (mg_sessions s)" for v
    unfolding expireStale_sessions by (intro count_where_update_eq) (auto simp: isRewarded_def)
  ultimately show ?thesis using i by (simp add: mg_inv_def powers_ok_def expireStale_sessions(2-))
qed

text \<open>After the expiry no session of the user is both active and past its last instant.\<close>

lemma expired_none:
  assumes "r \<in> set (mg_sessions (expireStaleActiveSessions u now s))" and "mg_userId r = u" and "mg_status r = ACTIVE"
  shows "now - 120000 < mg_endsAt r"
  using assms(1) unfolding expireStale_sessions set_update_where
proof (elim UnE imageE)
  assume "r \<in> {q \<in> set (mg_sessions s). \<not> (mg_userId q = u \<and> mg_status q = ACTIVE \<and> mg_endsAt q \<le> now - 120000)}"
  with assms(2,3) show ?thesis by (simp add: not_le)
next
  fix q assume "r = q\<lparr>mg_status := EXPIRED\<rparr>"
  with assms(3) show ?thesis by simp
qed

lemma cooldown_None:
  assumes "rounds_ok c n (mg_sessions s)" and "cooldownOf u now s = None"
    and "r \<in> set (mg_sessions s)" and "mg_userId r = u" and "mg_status r = COMPLETED"
  shows "the (mg_completedAt r) + 180000 \<le> now"
proof -
  have row: "round_ok c n q" if "q \<in> set (mg_sessions s)" for q using assms(1) that unfolding rounds_ok_def by blast
  have rw: "isRewarded u r" using row [OF assms(3)] assms(4,5) by (simp add: isRewarded_def round_ok_def)
  have "find_first (\<lambda>r. isRewarded u r \<and> mg_completedAt r = None) (mg_sessions s) = None"
    unfolding find_first_None_iff by (auto simp: isRewarded_def round_ok_def dest!: row)
  then have l: "lastRewarded u s = find_latest (\<lambda>r. the (mg_completedAt r)) (isRewarded u) (mg_sessions s)"
    by (simp add: lastRewarded_def)
  obtain q where q: "lastRewarded u s = Some q"
    using rw assms(3) find_latest_None_iff [of "\<lambda>r. the (mg_completedAt r)" "isRewarded u" "mg_sessions s"] l
    by (cases "lastRewarded u s") auto
  note d = find_latest_SomeD [OF q [unfolded l]]
  from row [OF d(1)] d(2) obtain t where t: "mg_completedAt q = Some t" by (auto simp: isRewarded_def round_ok_def)
  with assms(2) q have "t + 180000 \<le> now"
    by (auto simp: cooldownOf_def computeCooldownEndsAt_def minigame_consts Let_def split: if_splits)
  with d(3) [OF assms(3) rw] t show ?thesis by simp
qed

lemma activeSession_None:
  "activeSession u s = None \<Longrightarrow> r \<in> set (mg_sessions s) \<Longrightarrow> mg_userId r = u \<Longrightarrow> mg_status r \<noteq> ACTIVE"
  by (auto simp: activeSession_def find_latest_None_iff)

lemma mg_inv_start:
  assumes "mg_inv c s0" and "c \<le> now"
  shows "mg_inv now (snd (startMinigameSession u now s0))"
proof -
  define s where "s = expireStaleActiveSessions u now s0"
  have i: "mg_inv now s" unfolding s_def by (rule mg_inv_expire) (rule mg_inv_later [OF assms])
  show ?thesis
  proof (cases "cooldownOf u now s = None \<and> activeSession u s = None")
    case False
    with i show ?thesis by (auto simp: startMinigameSession_def Let_def s_def [symmetric] split: option.split)
  next
    case True
    let ?row = "\<lparr>mg_id = st_next s, mg_userId = u, mg_status = ACTIVE, mg_startedAt = now, mg_endsAt = now + 69000,
        mg_completedAt = None, mg_rewardGranted = False\<rparr>"
    have r: "rounds_ok now (st_next s) (mg_sessions s)" using i by (simp add: mg_inv_def)
    have new: "rounds_apart r ?row \<and> rounds_apart ?row r" if "r \<in> set (mg_sessions s)" "mg_userId r = u" for r
      using activeSession_None [OF conjunct2 [OF True] that] cooldown_None [OF r conjunct1 [OF True] that]
      by (auto simp: rounds_apart_def)
    have ids: "mg_id q < st_next s" if "q \<in> set (mg_sessions s)" for q
      using r that by (auto simp: rounds_ok_def round_ok_def)
    have later: "rounds_ok now (st_next s + 1) (mg_sessions s)" by (rule rounds_ok_later [OF r]) simp_all
    have "rounds_ok now (st_next s + 1) (mg_sessions s @ [?row])"
      using later new ids unfolding rounds_ok_def
      by (auto simp: round_ok_def dest: ids)
    then have "mg_inv now (s\<lparr>mg_sessions := mg_sessions s @ [?row], st_next := st_next s + 1\<rparr>)"
      using i by (auto simp: mg_inv_def powers_ok_def isRewarded_def)
    moreover have "snd (startMinigameSession u now s0) = s\<lparr>mg_sessions := mg_sessions s @ [?row], st_next := st_next s + 1\<rparr>"
      using True by (simp add: startMinigameSession_def Let_def s_def [symmetric] minigame_consts)
    ultimately show ?thesis by simp
  qed
qed

lemma powerDays_bounds: "1 \<le> powerDaysFromEnv env" "powerDaysFromEnv env \<le> 365"
  by (simp_all add: powerDaysFromEnv_def)

lemma upsertGame_frame:
  fixes s :: mg_store
  shows "mg_sessions (snd (upsertGame slug nm s)) = mg_sessions s"
    "st_gamePowers (snd (upsertGame slug nm s)) = st_gamePowers s"
    "st_next s \<le> st_next (snd (upsertGame slug nm s))"
  by (auto simp: upsertGame_def split: option.split)

lemma grantReward_parts:
  "mg_sessions (grantReward u sid days now s) = update_where (\<lambda>r. mg_id r = sid)
     (\<lambda>r. r\<lparr>mg_status := COMPLETED, mg_completedAt := Some now, mg_rewardGranted := True\<rparr>) (mg_sessions s)"
  "\<exists>i g. st_gamePowers (grantReward u sid days now s) = st_gamePowers s @ [\<lparr>pg_id = i, pg_userId = u, pg_gameId = g,
     pg_hashRate = 25, pg_playedAt = now, pg_expiresAt = now + days * 86400000\<rparr>]"
  "st_next s \<le> st_next (grantReward u sid days now s)"
  using upsertGame_frame [where s = s and slug = MINIGAME_GAME_SLUG and nm = "''Hash Tap Sprint''"]
  by (auto simp: grantReward_def getOrCreateMinigameGameId_def createPowerGame_def logAudit_def
      MINIGAME_REWARD_HASHRATE_def Let_def split: prod.split)

lemma mg_inv_reward:
  assumes "mg_inv now s" and "row \<in> set (mg_sessions s)" and "mg_status row = ACTIVE"
    and "mg_endsAt row - 1500 \<le> now" and "1 \<le> days" and "days \<le> 365"
  shows "mg_inv now (grantReward (mg_userId row) (mg_id row) days now s)"
proof -
  let ?f = "\<lambda>r. r\<lparr>mg_status := COMPLETED, mg_completedAt := Some now, mg_rewardGranted := True\<rparr> :: minigame_session"
  let ?t = "grantReward (mg_userId row) (mg_id row) days now s"
  note g = grantReward_parts [where u = "mg_userId row" and sid = "mg_id row" and days = days and now = now and s = s]
  have r: "rounds_ok now (st_next ?t) (mg_sessions s)"
    using assms(1) g(3) by (auto simp: mg_inv_def intro: rounds_ok_later)
  have key: "q = row" if "q \<in> set (mg_sessions s)" "mg_id q = mg_id row" for q
    using r assms(2) that unfolding rounds_ok_def by (blast dest: unique_key_eqD)
  have rk: "round_ok now (st_next ?t) row" using r assms(2) by (auto simp: rounds_ok_def)
  have "rounds_ok now (st_next ?t) (mg_sessions ?t)"
    unfolding g(1) using r
  proof (rule rounds_ok_update)
    fix q assume "q \<in> set (mg_sessions s)" "mg_id q = mg_id row"
    then have "q = row" by (rule key)
    with rk assms(3,4) show "round_ok now (st_next ?t) (?f q)" by (auto simp: round_ok_def)
  next
    fix q p assume qp: "q \<in> set (mg_sessions s)" "p \<in> set (mg_sessions s)" "mg_userId q = mg_userId p" "mg_id q \<noteq> mg_id p"
    note a = rounds_apartD [OF r qp] rounds_apartD [OF r qp(2,1) qp(3) [symmetric] qp(4) [symmetric]]
    have "mg_startedAt row + 67500 \<le> now" using rk assms(4) by (simp add: round_ok_def)
    then show "rounds_apart (if mg_id q = mg_id row then ?f q else q) (if mg_id p = mg_id row then ?f p else p)"
      using a key [OF qp(1)] key [OF qp(2)] qp(4) assms(3) by (auto simp: rounds_apart_def)
  qed simp_all
  moreover have "powers_ok ?t"
  proof -
    obtain i gid where p: "st_gamePowers ?t = st_gamePowers s @ [\<lparr>pg_id = i, pg_userId = mg_userId row, pg_gameId = gid,
        pg_hashRate = 25, pg_playedAt = now, pg_expiresAt = now + days * 86400000\<rparr>]" using g(2) by blast
    have "count_where (isRewarded u) (mg_sessions ?t) = count_where (isRewarded u) (mg_sessions s) + of_bool (mg_userId row = u)" for u
      using count_where_update_key [of mg_id "mg_sessions s" row "isRewarded u" ?f] r assms(2,3)
      unfolding g(1) by (simp add: rounds_ok_def isRewarded_def)
    with assms(1,5,6) show ?thesis by (auto simp: powers_ok_def mg_inv_def p)
  qed
  ultimately show ?thesis by (simp add: mg_inv_def)
qed

text \<open>How a completion goes, given the row and the tables after the expiry.\<close>

lemma completeInTransaction_cases:
  obtains (refused) err where "completeInTransaction env u sid now s0 = (Inl err, expireStaleActiveSessions u now s0)"
    "err \<noteq> SESSION_EXPIRED"
  | (again) r where "completeInTransaction env u sid now s0 = (Inr r, expireStaleActiveSessions u now s0)" "ck_idempotent r"
  | (paid) row r where "row \<in> set (mg_sessions (expireStaleActiveSessions u now s0))" "mg_id row = sid" "mg_userId row = u"
    "mg_status row = ACTIVE" "mg_endsAt row - 1500 \<le> now" "now < mg_endsAt row + 120000"
    "completeInTransaction env u sid now s0 =
       (Inr r, grantReward u sid (powerDaysFromEnv env) now (expireStaleActiveSessions u now s0))" "\<not> ck_idempotent r"
proof -
  define s where "s = expireStaleActiveSessions u now s0"
  show thesis
  proof (cases "find_first (\<lambda>r. mg_id r = sid \<and> mg_userId r = u) (mg_sessions s)")
    case None
    then show thesis using refused by (simp add: completeInTransaction_def Let_def s_def)
  next
    case (Some row)
    note d = find_first_Some_conj [OF Some]
    consider "mg_status row = COMPLETED \<and> mg_rewardGranted row" | "\<not> (mg_status row = COMPLETED \<and> mg_rewardGranted row)" "mg_status row \<noteq> ACTIVE"
      | "mg_status row = ACTIVE" "now < mg_endsAt row - 1500" | "mg_status row = ACTIVE" "mg_endsAt row - 1500 \<le> now" by force
    then show thesis
    proof cases
      case 1
      with Some show thesis using again by (simp add: completeInTransaction_def Let_def s_def)
    next
      case 2
      with Some show thesis using refused by (auto simp: completeInTransaction_def Let_def s_def)
    next
      case 3
      with Some show thesis using refused
        by (simp add: completeInTransaction_def Let_def s_def isWithinCompleteWindow_def minigame_consts)
    next
      case 4
      with d have late: "now < mg_endsAt row + 120000" using expired_none [of row u now s0] by (simp add: s_def)
      have e: "completeInTransaction env u sid now s0 = (Inr \<lparr>ck_idempotent = False, ck_rewardHashRate = MINIGAME_REWARD_HASHRATE,
          ck_powerDays = powerDaysFromEnv env, ck_nextPlayAllowedAt = Some (now + MINIGAME_COOLDOWN_MS),
          ck_cooldownSecondsRemaining = secondsLeft (now + MINIGAME_COOLDOWN_MS) now\<rparr>,
          grantReward u sid (powerDaysFromEnv env) now s)"
        using Some 4 d late
        by (simp add: completeInTransaction_def Let_def s_def isWithinCompleteWindow_def minigame_consts)
      show thesis by (rule paid [OF _ _ _ 4 late e [unfolded s_def]]) (use d in \<open>simp_all add: s_def\<close>)
    qed
  qed
qed

lemma mg_inv_complete:
  assumes "mg_inv c s" and "c \<le> now"
  shows "mg_inv now (snd (completeInTransaction env u sid now s))"
proof -
  have i: "mg_inv now (expireStaleActiveSessions u now s)"
    by (rule mg_inv_expire) (rule mg_inv_later [OF assms])
  show ?thesis
  proof (cases rule: completeInTransaction_cases [of env u sid now s])
    case (paid row r)
    with mg_inv_reward [OF i paid(1,4,5) powerDays_bounds] show ?thesis by simp
  qed (use i in simp_all)
qed

lemma mg_inv_calls: "mg_inv c (logCall x s) = mg_inv c s"
  by (simp add: mg_inv_def powers_ok_def logCall_def)

lemma mg_inv_completeSession:
  assumes "mg_inv c s" and "c \<le> now"
  shows "mg_inv now (snd (completeMinigameSession env v2Ok u sessionId now s))"
  using mg_inv_complete [OF assms, of env u "\<lfloor>sessionId\<rfloor>"] mg_inv_later [OF assms]
  by (auto simp: completeMinigameSession_def Let_def mg_inv_calls split: prod.split sum.split)

subsection \<open>The state machine\<close>

type_synonym mg_state = "millis \<times> mg_store"

definition mg_init :: "mg_state \<Rightarrow> bool" where
  "mg_init w \<longleftrightarrow> mg_sessions (snd w) = [] \<and> st_gamePowers (snd w) = []"

inductive mg_step :: "mg_state \<Rightarrow> mg_state \<Rightarrow> bool" where
  mg_status: "c \<le> now \<Longrightarrow> mg_step (c, s) (now, snd (getMinigameStatus u now s))"
| mg_start: "c \<le> now \<Longrightarrow> mg_step (c, s) (now, snd (startMinigameSession u now s))"
| mg_complete: "c \<le> now \<Longrightarrow> mg_step (c, s) (now, snd (completeMinigameSession env v2Ok u sessionId now s))"

inductive_cases mg_stepE: "mg_step w w'"

lemma getStatus_state: "snd (getMinigameStatus u now s) = expireStaleActiveSessions u now s"
  by (simp add: getMinigameStatus_def Let_def)

interpretation mg: machine mg_init mg_step "\<lambda>(c, s). mg_inv c s"
proof
  show "case w of (c, s) \<Rightarrow> mg_inv c s" if "mg_init w" for w
    using that by (cases w) (simp add: mg_init_def mg_inv_def rounds_ok_def powers_ok_def)
  show "case w' of (c, s) \<Rightarrow> mg_inv c s" if "case w of (c, s) \<Rightarrow> mg_inv c s" "mg_step w w'" for w w'
    using that(2,1)
    by (cases rule: mg_stepE)
      (auto simp: getStatus_state intro: mg_inv_expire mg_inv_later mg_inv_start mg_inv_completeSession)
qed

end
