(* ===== verification/MinigameProps.thy ===== *)
theory MinigameProps
  imports MinigameProofs
begin

section \<open>The minigame: properties\<close>

text \<open>A run: user 7 starts at 0, completes at 69 s, and starts again once the cooldown is over.\<close>

definition mini_empty :: mg_store where
  "mini_empty = \<lparr>st_users = [], st_games = [], st_gamePowers = [], st_ytPowers = [], st_gpuPowers = [], st_v2Powers = [],
     st_miners = [], st_eventMiners = [], st_owned = [], st_inventory = [], st_userMiners = [], st_audit = [],
     st_calls = [], st_next = 1, mg_sessions = []\<rparr>"

definition mini_started :: mg_store where "mini_started = snd (startMinigameSession 7 0 mini_empty)"
definition mini_done :: mg_store where "mini_done = snd (completeMinigameSession None True 7 1 69000 mini_started)"
definition mini_again :: mg_store where "mini_again = snd (startMinigameSession 7 249000 mini_done)"
definition mini_twice :: mg_store where "mini_twice = snd (completeMinigameSession None True 7 4 318000 mini_again)"

text \<open>The states of the run, evaluated once.\<close>

lemma mini_started_code [code]:
  "mini_started = \<lparr>st_users = [], st_games = [], st_gamePowers = [], st_ytPowers = [], st_gpuPowers =
    [], st_v2Powers = [], st_miners = [], st_eventMiners = [], st_owned = [], st_inventory = [], st_userMiners
    = [], st_audit = [], st_calls = [], st_next = 2, mg_sessions = [\<lparr>mg_id = 1, mg_userId = 7,
    mg_status = ACTIVE, mg_startedAt = 0, mg_endsAt = 69000, mg_completedAt = None, mg_rewardGranted =
    False\<rparr>]\<rparr>"
  by code_simp

lemma mini_done_code [code]:
  "mini_done = \<lparr>st_users = [], st_games = [\<lparr>game_id = 2, game_slug = ''hash-tap-sprint'',
    game_name = ''Hash Tap Sprint''\<rparr>], st_gamePowers = [\<lparr>pg_id = 3, pg_userId = 7, pg_gameId =
    2, pg_hashRate = 25, pg_playedAt = 69000, pg_expiresAt = 604869000\<rparr>], st_ytPowers = [],
    st_gpuPowers = [], st_v2Powers = [], st_miners = [], st_eventMiners = [], st_owned = [], st_inventory =
    [], st_userMiners = [], st_audit = [\<lparr>al_userId = 7, al_action = ''minigame_complete'', al_details =
    [(''sessionId'', ''1''), (''expiresAt'', ''604869000'')]\<rparr>], st_calls = [SetBaseHashRate 7 25,
    EmitMachinesUpdate 7], st_next = 4, mg_sessions = [\<lparr>mg_id = 1, mg_userId = 7, mg_status =
    COMPLETED, mg_startedAt = 0, mg_endsAt = 69000, mg_completedAt = Some 69000, mg_rewardGranted =
    True\<rparr>]\<rparr>"
  by code_simp

lemma mini_again_code [code]:
  "mini_again = \<lparr>st_users = [], st_games = [\<lparr>game_id = 2, game_slug = ''hash-tap-sprint'',
    game_name = ''Hash Tap Sprint''\<rparr>], st_gamePowers = [\<lparr>pg_id = 3, pg_userId = 7, pg_gameId =
    2, pg_hashRate = 25, pg_playedAt = 69000, pg_expiresAt = 604869000\<rparr>], st_ytPowers = [],
    st_gpuPowers = [], st_v2Powers = [], st_miners = [], st_eventMiners = [], st_owned = [], st_inventory =
    [], st_userMiners = [], st_audit = [\<lparr>al_userId = 7, al_action = ''minigame_complete'', al_details =
    [(''sessionId'', ''1''), (''expiresAt'', ''604869000'')]\<rparr>], st_calls = [SetBaseHashRate 7 25,
    EmitMachinesUpdate 7], st_next = 5, mg_sessions = [\<lparr>mg_id = 1, mg_userId = 7, mg_status =
    COMPLETED, mg_startedAt = 0, mg_endsAt = 69000, mg_completedAt = Some 69000, mg_rewardGranted =
    True\<rparr>, \<lparr>mg_id = 4, mg_userId = 7, mg_status = ACTIVE, mg_startedAt = 249000, mg_endsAt =
    318000, mg_completedAt = None, mg_rewardGranted = False\<rparr>]\<rparr>"
  by code_simp

lemma completeSession_tables:
  assumes "\<lfloor>sessionId\<rfloor> = sid" and "sid \<noteq> 0"
  shows "mg_sessions (snd (completeMinigameSession env v2Ok u sessionId now s)) =
      mg_sessions (snd (completeInTransaction env u sid now s))"
    and "st_gamePowers (snd (completeMinigameSession env v2Ok u sessionId now s)) =
      st_gamePowers (snd (completeInTransaction env u sid now s))"
  using assms by (auto simp: completeMinigameSession_def Let_def logCall_def split: prod.split sum.split)

lemma mini_twice_tables:
  "mg_sessions mini_twice =
    [\<lparr>mg_id = 1, mg_userId = 7, mg_status = COMPLETED, mg_startedAt = 0, mg_endsAt = 69000,
       mg_completedAt = Some 69000, mg_rewardGranted = True\<rparr>,
     \<lparr>mg_id = 4, mg_userId = 7, mg_status = COMPLETED, mg_startedAt = 249000, mg_endsAt = 318000,
       mg_completedAt = Some 318000, mg_rewardGranted = True\<rparr>]"
  "length (st_gamePowers mini_twice) = 2"
  unfolding mini_twice_def completeSession_tables [of 4 4, simplified] by code_simp+

lemma mini_reaches:
  "reaches mg_init mg_step (0, mini_started)" "reaches mg_init mg_step (69000, mini_done)"
  "reaches mg_init mg_step (318000, mini_twice)"
proof -
  have 0: "reaches mg_init mg_step (0, mini_empty)"
    by (rule reaches.start) (simp add: mg_init_def mini_empty_def)
  show 1: "reaches mg_init mg_step (0, mini_started)"
    unfolding mini_started_def by (rule reaches.move [OF 0], rule mg_step.mg_start) simp
  show 2: "reaches mg_init mg_step (69000, mini_done)"
    unfolding mini_done_def by (rule reaches.move [OF 1], rule mg_step.mg_complete) simp
  have 3: "reaches mg_init mg_step (249000, mini_again)"
    unfolding mini_again_def by (rule reaches.move [OF 2], rule mg_step.mg_start) simp
  show "reaches mg_init mg_step (318000, mini_twice)"
    unfolding mini_twice_def by (rule reaches.move [OF 3], rule mg_step.mg_complete) simp
qed

text \<open>
  C9: in every reachable state two different sessions of a user are never both active, and two
  rewarded completions of a user are at least 247.5 seconds apart: the 180 seconds of cooldown
  and a round of 69 seconds that may be completed 1.5 seconds early.
\<close>

lemma minigame_rewards_spaced:
  assumes "reaches mg_init mg_step (c, s)" and "r \<in> set (mg_sessions s)" and "q \<in> set (mg_sessions s)"
    and "mg_userId r = mg_userId q" and "mg_id r \<noteq> mg_id q"
  shows "\<not> (mg_status r = ACTIVE \<and> mg_status q = ACTIVE)
    \<and> (case (mg_completedAt r, mg_completedAt q) of
         (Some t, Some t') \<Rightarrow> 247500 \<le> \<bar>t - t'\<bar> | _ \<Rightarrow> True)"
proof -
  have i: "rounds_ok c (st_next s) (mg_sessions s)" using mg.reaches_inv [OF assms(1)] by (simp add: mg_inv_def)
  have a: "rounds_apart r q" by (rule rounds_apartD [OF i assms(2-5)])
  have "round_ok c (st_next s) r" "round_ok c (st_next s) q" using i assms(2,3) by (simp_all add: rounds_ok_def)
  then have "mg_status p = COMPLETED" if "mg_completedAt p = Some t" "p = r \<or> p = q" for p t
    using that by (auto simp: round_ok_def)
  with a show ?thesis by (auto simp: rounds_apart_def split: option.split)
qed

lemma minigame_rewards_spaced_witness:
  "\<exists>r q. r \<in> set (mg_sessions mini_twice) \<and> q \<in> set (mg_sessions mini_twice)
    \<and> mg_completedAt r = Some 69000 \<and> mg_completedAt q = Some 318000 \<and> 247500 \<le> \<bar>69000 - 318000 :: int\<bar>"
proof -
  let ?r = "mg_sessions mini_twice ! 0" and ?q = "mg_sessions mini_twice ! 1"
  have v: "length (mg_sessions mini_twice) = 2" "mg_completedAt ?r = Some 69000" "mg_completedAt ?q = Some 318000"
    "mg_userId ?r = mg_userId ?q" "mg_id ?r \<noteq> mg_id ?q" by (simp_all add: mini_twice_tables)
  then have m: "?r \<in> set (mg_sessions mini_twice)" "?q \<in> set (mg_sessions mini_twice)" by (auto intro: nth_mem)
  have "247500 \<le> \<bar>69000 - 318000 :: int\<bar>"
    using minigame_rewards_spaced [OF mini_reaches(3) m v(4,5)] v(2,3) by simp
  with m v(2,3) show ?thesis by blast
qed

text \<open>
  Every session is rewarded at most once: starting from no powers, the powers of a user are
  as many as its rewarded sessions, each of 25 H/s and of at most 365 days, however often a
  completion is repeated.
\<close>

lemma minigame_reward_once:
  assumes "reaches mg_init mg_step (c, s)"
  shows "count_where (\<lambda>p. pg_userId p = u) (st_gamePowers s) = count_where (isRewarded u) (mg_sessions s)
    \<and> (\<forall>p \<in> set (st_gamePowers s). pg_hashRate p = MINIGAME_REWARD_HASHRATE
         \<and> pg_expiresAt p \<le> pg_playedAt p + 365 * MS_PER_DAY)"
  using mg.reaches_inv [OF assms]
  by (simp add: mg_inv_def powers_ok_def MINIGAME_REWARD_HASHRATE_def MS_PER_DAY_def)

lemma minigame_reward_once_witness:
  "count_where (\<lambda>p. pg_userId p = 7) (st_gamePowers mini_twice) = 2"
proof -
  have "count_where (isRewarded 7) (mg_sessions mini_twice) = 2" by (simp add: mini_twice_tables isRewarded_def)
  with minigame_reward_once [OF mini_reaches(3), of 7] show ?thesis by simp
qed

text \<open>
  A completion grants a reward exactly when the session is the user's own, active, and the
  instant lies from 1.5 seconds before its end to less than 120 seconds after it; a repeated
  completion answers without a second reward; and no completion ever answers
  \<open>SESSION_EXPIRED\<close>: the expiry that runs first turns that case into \<open>SESSION_NOT_ACTIVE\<close>.
\<close>

lemma minigame_complete_cases:
  "case fst (completeInTransaction env u sid now s) of
     Inl err \<Rightarrow> err \<noteq> SESSION_EXPIRED \<and> snd (completeInTransaction env u sid now s) = expireStaleActiveSessions u now s
   | Inr r \<Rightarrow>
       if ck_idempotent r then snd (completeInTransaction env u sid now s) = expireStaleActiveSessions u now s
       else \<exists>row \<in> set (mg_sessions (expireStaleActiveSessions u now s)). mg_id row = sid \<and> mg_userId row = u \<and> mg_status row = ACTIVE
         \<and> mg_endsAt row - MINIGAME_COMPLETE_EARLY_MS \<le> now \<and> now < mg_endsAt row + MINIGAME_COMPLETE_LATE_MS"
  by (cases rule: completeInTransaction_cases [of env u sid now s]) (auto simp: minigame_consts)

end
