(* ===== verification/MachineStore.thy ===== *)
theory MachineStore
  imports MiningDb
begin

section \<open>Machine instances\<close>

text \<open>
  The tables that hold the machines of the users and the statements the controllers run on them:
  \<open>server/services/userOwnedMachineService.js\<close>, \<open>server/utils/rackMinerRelease.js\<close>,
  \<open>server/utils/machineInstanceState.js\<close> and the queries of \<open>server/models/inventoryModel.js\<close>,
  \<open>vaultModel.js\<close> and \<open>machineModel.js\<close>.

  A machine is one row of \<open>user_inventory\<close>, \<open>user_miners\<close> (installed) or \<open>user_vault\<close>; that child row
  points to a canonical row of \<open>user_owned_machines\<close>.  The statements check the constraints of the
  schema: \<open>P2002\<close> is Prisma's unique violation, \<open>P2003\<close> a foreign key, \<open>P2025\<close> a missing row.  A
  column that receives an id the database has just issued needs no unique check.
\<close>

datatype db_failure = P2002 | P2003 | P2025

record vault_item =
  vt_id :: int
  vt_userId :: int
  vt_snap :: snapshot
  vt_storedAt :: millis
  vt_ownedMachineId :: "int option"

record user_room =
  rm_id :: int
  rm_userId :: int
  rm_roomNumber :: int
  rm_pricePaid :: dec8

record user_rack =
  rk_id :: int
  rk_userId :: int
  rk_roomId :: int
  rk_position :: int
  rk_userMinerId :: "int option"
  rk_blockedByMinerId :: "int option"
  rk_installedAt :: "millis option"

record mc_store = store +
  mc_vault :: "vault_item list"
  mc_rooms :: "user_room list"
  mc_racks :: "user_rack list"
  mc_notifications :: "notification list"

subsection \<open>Location transitions\<close>

definition ALLOWED_TRANSITIONS :: "(machine_location \<times> machine_location) list" where
  "ALLOWED_TRANSITIONS =
     [(INVENTORY, RACK), (RACK, INVENTORY), (INVENTORY, WAREHOUSE), (RACK, WAREHOUSE),
      (WAREHOUSE, INVENTORY), (WAREHOUSE, RACK)]"

definition isValidMachineLocationTransition :: "machine_location \<Rightarrow> machine_location \<Rightarrow> bool" where
  "isValidMachineLocationTransition from_l to_l \<longleftrightarrow>
     from_l = to_l \<or> list_ex (\<lambda>(a, b). a = from_l \<and> b = to_l) ALLOWED_TRANSITIONS"

subsection \<open>Small expressions\<close>

text \<open>\<open>a || b\<close> on optional strings, \<open>a ?? b\<close>, and \<open>slotSize || 1\<close>.\<close>

definition or_string :: "string option \<Rightarrow> string option \<Rightarrow> string option" where
  "or_string a b = (if a = None \<or> a = Some '''' then b else a)"

definition or_null :: "'x option \<Rightarrow> 'x option \<Rightarrow> 'x option" where
  "or_null a b = (case a of None \<Rightarrow> b | Some x \<Rightarrow> Some x)"

definition slotSizeOf :: "snapshot \<Rightarrow> int" where
  "slotSizeOf sn = (if sn_slotSize sn = 0 then 1 else sn_slotSize sn)"

text \<open>The joined catalog row of a machine (\<open>include: { miner: true }\<close>).\<close>

definition catalogOf :: "int option \<Rightarrow> 'a store_scheme \<Rightarrow> catalog_miner option" where
  "catalogOf minerId s =
     (case minerId of None \<Rightarrow> None | Some i \<Rightarrow> find_first (\<lambda>c. cat_id c = i) (st_miners s))"

definition catalogImage :: "int option \<Rightarrow> 'a store_scheme \<Rightarrow> string option" where
  "catalogImage minerId s = (case catalogOf minerId s of None \<Rightarrow> None | Some c \<Rightarrow> cat_imageUrl c)"

definition catalogName :: "int option \<Rightarrow> 'a store_scheme \<Rightarrow> string option" where
  "catalogName minerId s = map_option cat_name (catalogOf minerId s)"

definition rackSnapshot :: "user_miner \<Rightarrow> string \<Rightarrow> string option \<Rightarrow> snapshot" where
  "rackSnapshot m displayName img =
     \<lparr>sn_minerId = um_minerId m, sn_minerName = displayName, sn_level = um_level m,
      sn_hashRate = um_hashRate m, sn_slotSize = um_slotSize m, sn_imageUrl = img\<rparr>"

subsection \<open>Statements\<close>

definition minerKnown :: "int option \<Rightarrow> 'a store_scheme \<Rightarrow> bool" where
  "minerKnown minerId s \<longleftrightarrow> minerId = None \<or> catalogOf minerId s \<noteq> None"

definition ownedKnown :: "int \<Rightarrow> 'a store_scheme \<Rightarrow> bool" where
  "ownedKnown om s \<longleftrightarrow> list_ex (\<lambda>r. om_id r = om) (st_owned s)"

definition createOwned :: "int \<Rightarrow> machine_location \<Rightarrow> snapshot \<Rightarrow> (db_failure, int, 'a store_scheme) program" where
  "createOwned userId loc snap s =
     (if \<not> minerKnown (sn_minerId snap) s then (Inl P2003, s)
      else (Inr (st_next s),
        s\<lparr>st_owned := st_owned s @ [\<lparr>om_id = st_next s, om_userId = userId, om_location = loc, om_snap = snap\<rparr>],
          st_next := st_next s + 1\<rparr>))"

definition createInventory ::
  "int \<Rightarrow> snapshot \<Rightarrow> millis \<Rightarrow> millis option \<Rightarrow> int \<Rightarrow> (db_failure, inventory_item, 'a store_scheme) program" where
  "createInventory userId snap acquiredAt expiresAt om s =
     (if list_ex (\<lambda>i. inv_ownedMachineId i = Some om) (st_inventory s) then (Inl P2002, s)
      else if \<not> minerKnown (sn_minerId snap) s \<or> \<not> ownedKnown om s then (Inl P2003, s)
      else let row = \<lparr>inv_id = st_next s, inv_userId = userId, inv_snap = snap, inv_acquiredAt = acquiredAt,
                      inv_expiresAt = expiresAt, inv_ownedMachineId = Some om\<rparr>
           in (Inr row, s\<lparr>st_inventory := st_inventory s @ [row], st_next := st_next s + 1\<rparr>))"

definition createUserMiner :: "int \<Rightarrow> int \<Rightarrow> snapshot \<Rightarrow> int \<Rightarrow> (db_failure, int, 'a store_scheme) program" where
  "createUserMiner userId slotIndex snap om s =
     (if list_ex (\<lambda>m. um_userId m = userId \<and> um_slotIndex m = slotIndex) (st_userMiners s)
         \<or> list_ex (\<lambda>m. um_ownedMachineId m = Some om) (st_userMiners s) then (Inl P2002, s)
      else if \<not> minerKnown (sn_minerId snap) s \<or> \<not> ownedKnown om s then (Inl P2003, s)
      else (Inr (st_next s),
        s\<lparr>st_userMiners := st_userMiners s @
            [\<lparr>um_id = st_next s, um_userId = userId, um_minerId = sn_minerId snap, um_slotIndex = slotIndex,
              um_level = sn_level snap, um_hashRate = sn_hashRate snap, um_slotSize = sn_slotSize snap,
              um_imageUrl = sn_imageUrl snap, um_isActive = True, um_ownedMachineId = Some om\<rparr>],
          st_next := st_next s + 1\<rparr>))"

definition createVault :: "int \<Rightarrow> snapshot \<Rightarrow> millis \<Rightarrow> int \<Rightarrow> (db_failure, unit, mc_store) program" where
  "createVault userId snap storedAt om s =
     (if list_ex (\<lambda>v. vt_ownedMachineId v = Some om) (mc_vault s) then (Inl P2002, s)
      else if \<not> minerKnown (sn_minerId snap) s \<or> \<not> ownedKnown om s then (Inl P2003, s)
      else (Inr (), s\<lparr>mc_vault := mc_vault s @ [\<lparr>vt_id = st_next s, vt_userId = userId, vt_snap = snap,
                        vt_storedAt = storedAt, vt_ownedMachineId = Some om\<rparr>], st_next := st_next s + 1\<rparr>))"

definition deleteInventory :: "(inventory_item \<Rightarrow> bool) \<Rightarrow> (db_failure, unit, 'a store_scheme) program" where
  "deleteInventory P s =
     (if list_ex P (st_inventory s) then (Inr (), s\<lparr>st_inventory := delete_where P (st_inventory s)\<rparr>)
      else (Inl P2025, s))"

definition deleteVault :: "int \<Rightarrow> int \<Rightarrow> (db_failure, unit, mc_store) program" where
  "deleteVault userId vaultId s =
     (if list_ex (\<lambda>v. vt_id v = vaultId \<and> vt_userId v = userId) (mc_vault s)
      then (Inr (), s\<lparr>mc_vault := delete_where (\<lambda>v. vt_id v = vaultId \<and> vt_userId v = userId) (mc_vault s)\<rparr>)
      else (Inl P2025, s))"

text \<open>\<open>user_racks.user_miner_id\<close> is an optional relation: deleting the machine sets it to null.\<close>

definition deleteUserMiner :: "int \<Rightarrow> (db_failure, unit, mc_store) program" where
  "deleteUserMiner minerId s =
     (if list_ex (\<lambda>m. um_id m = minerId) (st_userMiners s)
      then (Inr (), s\<lparr>st_userMiners := delete_where (\<lambda>m. um_id m = minerId) (st_userMiners s),
                     mc_racks := update_where (\<lambda>k. rk_userMinerId k = Some minerId) (\<lambda>k. k\<lparr>rk_userMinerId := None\<rparr>) (mc_racks s)\<rparr>)
      else (Inl P2025, s))"

text \<open>\<open>onDelete: Restrict\<close> in the three child tables.\<close>

definition deleteOwned :: "int \<Rightarrow> (db_failure, unit, mc_store) program" where
  "deleteOwned om s =
     (if \<not> ownedKnown om s then (Inl P2025, s)
      else if list_ex (\<lambda>i. inv_ownedMachineId i = Some om) (st_inventory s)
         \<or> list_ex (\<lambda>m. um_ownedMachineId m = Some om) (st_userMiners s)
         \<or> list_ex (\<lambda>v. vt_ownedMachineId v = Some om) (mc_vault s) then (Inl P2003, s)
      else (Inr (), s\<lparr>st_owned := delete_where (\<lambda>r. om_id r = om) (st_owned s)\<rparr>))"

definition updateRack :: "int \<Rightarrow> (user_rack \<Rightarrow> user_rack) \<Rightarrow> (db_failure, unit, mc_store) program" where
  "updateRack rackId f s =
     (if list_ex (\<lambda>k. rk_id k = rackId) (mc_racks s)
      then (Inr (), s\<lparr>mc_racks := update_where (\<lambda>k. rk_id k = rackId) f (mc_racks s)\<rparr>)
      else (Inl P2025, s))"

subsection \<open>The owned-machine service\<close>

definition ensureOwnedMachineForInventoryTx :: "inventory_item \<Rightarrow> (db_failure, int, 'a store_scheme) program" where
  "ensureOwnedMachineForInventoryTx row =
     (case inv_ownedMachineId row of
        Some om \<Rightarrow> ret om
      | None \<Rightarrow> and_then (createOwned (inv_userId row) INVENTORY (inv_snap row)) (\<lambda>om s.
          if list_ex (\<lambda>i. inv_id i = inv_id row) (st_inventory s)
          then (Inr om, s\<lparr>st_inventory := update_where (\<lambda>i. inv_id i = inv_id row)
                 (\<lambda>i. i\<lparr>inv_ownedMachineId := Some om\<rparr>) (st_inventory s)\<rparr>)
          else (Inl P2025, s)))"

definition ensureOwnedMachineForUserMinerTx ::
  "user_miner \<Rightarrow> string \<Rightarrow> (db_failure, int, 'a store_scheme) program" where
  "ensureOwnedMachineForUserMinerTx m displayName =
     (case um_ownedMachineId m of
        Some om \<Rightarrow> ret om
      | None \<Rightarrow> and_then (createOwned (um_userId m) RACK (rackSnapshot m displayName (um_imageUrl m))) (\<lambda>om s.
          if list_ex (\<lambda>r. um_id r = um_id m) (st_userMiners s)
          then (Inr om, s\<lparr>st_userMiners := update_where (\<lambda>r. um_id r = um_id m)
                 (\<lambda>r. r\<lparr>um_ownedMachineId := Some om\<rparr>) (st_userMiners s)\<rparr>)
          else (Inl P2025, s)))"

definition ensureOwnedMachineForVaultTx :: "vault_item \<Rightarrow> (db_failure, int, mc_store) program" where
  "ensureOwnedMachineForVaultTx row =
     (case vt_ownedMachineId row of
        Some om \<Rightarrow> ret om
      | None \<Rightarrow> and_then (createOwned (vt_userId row) WAREHOUSE (vt_snap row)) (\<lambda>om s.
          if list_ex (\<lambda>v. vt_id v = vt_id row) (mc_vault s)
          then (Inr om, s\<lparr>mc_vault := update_where (\<lambda>v. vt_id v = vt_id row)
                 (\<lambda>v. v\<lparr>vt_ownedMachineId := Some om\<rparr>) (mc_vault s)\<rparr>)
          else (Inl P2025, s)))"

definition createInventoryWithOwnedMachineTx ::
  "int \<Rightarrow> snapshot \<Rightarrow> millis \<Rightarrow> millis option \<Rightarrow> (db_failure, inventory_item, 'a store_scheme) program" where
  "createInventoryWithOwnedMachineTx userId snap acquiredAt expiresAt =
     and_then (createOwned userId INVENTORY snap) (createInventory userId snap acquiredAt expiresAt)"

fun bulkCreateInventoryWithOwnedMachinesTx ::
  "int \<Rightarrow> snapshot \<Rightarrow> nat \<Rightarrow> millis \<Rightarrow> (db_failure, unit, 'a store_scheme) program" where
  "bulkCreateInventoryWithOwnedMachinesTx userId template 0 now = ret ()"
| "bulkCreateInventoryWithOwnedMachinesTx userId template (Suc n) now =
     and_then (createInventoryWithOwnedMachineTx userId template now None)
       (\<lambda>_. bulkCreateInventoryWithOwnedMachinesTx userId template n now)"

definition syncOwnedMachineSnapshotTx ::
  "int \<Rightarrow> machine_location \<Rightarrow> snapshot \<Rightarrow> (db_failure, unit, 'a store_scheme) program" where
  "syncOwnedMachineSnapshotTx om loc snap s =
     (if \<not> ownedKnown om s then (Inl P2025, s)
      else if \<not> minerKnown (sn_minerId snap) s then (Inl P2003, s)
      else (Inr (), s\<lparr>st_owned := update_where (\<lambda>r. om_id r = om)
              (\<lambda>r. r\<lparr>om_location := loc, om_snap := snap\<rparr>) (st_owned s)\<rparr>))"

subsection \<open>Releasing racks\<close>

definition releaseUserMinerFromRacksTx :: "int \<Rightarrow> (db_failure, unit, mc_store) program" where
  "releaseUserMinerFromRacksTx userMinerId s =
     (let racks1 = update_where (\<lambda>k. rk_userMinerId k = Some userMinerId)
                     (\<lambda>k. k\<lparr>rk_userMinerId := None, rk_installedAt := None\<rparr>) (mc_racks s);
          racks2 = update_where (\<lambda>k. rk_blockedByMinerId k = Some userMinerId)
                     (\<lambda>k. k\<lparr>rk_blockedByMinerId := None\<rparr>) racks1
      in (Inr (), s\<lparr>mc_racks := racks2\<rparr>))"

subsection \<open>Queries of the models\<close>

definition listInventory :: "int \<Rightarrow> 'a store_scheme \<Rightarrow> inventory_item list" where
  "listInventory userId s = sort_key inv_acquiredAt (filter (\<lambda>i. inv_userId i = userId) (st_inventory s))"

definition getInventoryItem :: "int \<Rightarrow> int \<Rightarrow> 'a store_scheme \<Rightarrow> inventory_item option" where
  "getInventoryItem userId inventoryId s =
     find_first (\<lambda>i. inv_id i = inventoryId \<and> inv_userId i = userId) (st_inventory s)"

definition listVault :: "int \<Rightarrow> mc_store \<Rightarrow> vault_item list" where
  "listVault userId s = sort_key vt_storedAt (filter (\<lambda>v. vt_userId v = userId) (mc_vault s))"

definition getVaultItem :: "int \<Rightarrow> int \<Rightarrow> mc_store \<Rightarrow> vault_item option" where
  "getVaultItem userId vaultId s =
     find_first (\<lambda>v. vt_id v = vaultId \<and> vt_userId v = userId) (mc_vault s)"

definition listUserMachines ::
  "int \<Rightarrow> 'a store_scheme \<Rightarrow> (user_miner \<times> string option \<times> string option) list" where
  "listUserMachines userId s =
     map (\<lambda>m. (m, catalogName (um_minerId m) s, catalogImage (um_minerId m) s))
       (sort_key um_slotIndex (filter (\<lambda>m. um_userId m = userId) (st_userMiners s)))"

definition getMachineById :: "int \<Rightarrow> int \<Rightarrow> 'a store_scheme \<Rightarrow> user_miner option" where
  "getMachineById userId machineId s =
     find_first (\<lambda>m. um_id m = machineId \<and> um_userId m = userId) (st_userMiners s)"

text \<open>Prisma refuses an empty catalog id: user_vault and the rack path keep it only when it exists.\<close>

definition safeVaultMinerId :: "int option \<Rightarrow> 'a store_scheme \<Rightarrow> int option" where
  "safeVaultMinerId minerId s =
     (case minerId of
        None \<Rightarrow> None
      | Some i \<Rightarrow> if i < 1 then None else if catalogOf minerId s \<noteq> None then Some i else None)"

end
