(* ===== verification/Rooms.thy ===== *)
theory Rooms
  imports MachineStore
begin

section \<open>Rooms and racks\<close>

text \<open>
  \<open>server/controllers/roomsController.js\<close>.  A handler first reads the tables and validates the
  request (\<open>...Plan\<close>: the rows it read, or the refusal), then runs one transaction on what it
  read (\<open>...Tx\<close>).  Another request can commit between the two, so they are two definitions; the
  handler alone is their composition.  The engine is running.  The values of the environment
  (racks per room, number of rooms, prices; \<open>None\<close> is NaN) are the record \<open>room_config\<close>.
\<close>

record room_config =
  rc_racksPerRoom :: nat
  rc_roomMax :: int
  rc_prices :: "number option list"

datatype mc_error =
  InvalidRackId
| InvalidInventoryId
| RackNotFound
| RACK_OCCUPIED
| ItemNotFound
| NO_SPACE
| ADJACENT_RACK_OCCUPIED
| RACK_EMPTY
| MAX_ROOMS_REACHED
| InvalidPriceConfig
| RoomUserNotFound
| INSUFFICIENT_BALANCE
| MachineNotFound
| InvalidSlotPosition
| OddSlot
| VAULT_RACK_LINK
| VAULT_NOT_FOUND
| ServerError

text \<open>\<open>catch (err)\<close> of a handler: any database failure is answered with status 500.\<close>

definition answered :: "(db_failure, 'a, 's) outcome \<Rightarrow> (mc_error, 'a, 's) outcome" where
  "answered r = (case r of (Inl _, s) \<Rightarrow> (Inl ServerError, s) | (Inr a, s) \<Rightarrow> (Inr a, s))"

definition notify :: "int \<Rightarrow> string \<Rightarrow> string \<Rightarrow> mc_store \<Rightarrow> mc_store" where
  "notify userId title typ s =
     s\<lparr>mc_notifications := mc_notifications s @ [\<lparr>nt_userId = userId, nt_title = title, nt_type = typ\<rparr>]\<rparr>"

text \<open>\<open>Number(x)\<close> with \<open>Number.isInteger\<close> and \<open>> 0\<close>; \<open>None\<close> is NaN or an infinity.\<close>

definition positiveId :: "rat option \<Rightarrow> int option" where
  "positiveId q =
     (case q of None \<Rightarrow> None | Some x \<Rightarrow> if of_int \<lfloor>x\<rfloor> = x \<and> 0 < x then Some \<lfloor>x\<rfloor> else None)"

definition rackSlotIndex :: "room_config \<Rightarrow> int \<Rightarrow> int \<Rightarrow> int" where
  "rackSlotIndex cfg roomNumber position = 1000 + (roomNumber - 1) * int (rc_racksPerRoom cfg) + position"

definition rackOccupied :: "user_rack \<Rightarrow> bool" where
  "rackOccupied k \<longleftrightarrow> rk_userMinerId k \<noteq> None \<or> rk_blockedByMinerId k \<noteq> None"

subsection \<open>Listing\<close>

definition roomsOf :: "int \<Rightarrow> mc_store \<Rightarrow> user_room list" where
  "roomsOf userId s = sort_key rm_roomNumber (filter (\<lambda>r. rm_userId r = userId) (mc_rooms s))"

definition racksOf :: "int \<Rightarrow> mc_store \<Rightarrow> user_rack list" where
  "racksOf roomId s = sort_key rk_position (filter (\<lambda>k. rk_roomId k = roomId) (mc_racks s))"

definition priceOf :: "room_config \<Rightarrow> int \<Rightarrow> number option" where
  "priceOf cfg roomNumber =
     (let i = nat (roomNumber - 1) in if i < length (rc_prices cfg) then rc_prices cfg ! i else Some 0)"

record rack_view =
  rv_id :: int
  rv_position :: int
  rv_installedAt :: "millis option"
  rv_blockedBy :: "int option"
  rv_miner :: "(user_miner \<times> string option) option"

datatype room_view =
  Unlocked user_room "rack_view list"
| Locked int "number option"

definition viewRack :: "mc_store \<Rightarrow> user_rack \<Rightarrow> rack_view" where
  "viewRack s k =
     \<lparr>rv_id = rk_id k, rv_position = rk_position k, rv_installedAt = rk_installedAt k,
      rv_blockedBy = rk_blockedByMinerId k,
      rv_miner = (case rk_userMinerId k of
          None \<Rightarrow> None
        | Some i \<Rightarrow> map_option (\<lambda>m. (m, catalogName (um_minerId m) s))
            (find_first (\<lambda>m. um_id m = i) (st_userMiners s)))\<rparr>"

record rooms_list =
  rl_rooms :: "room_view list"
  rl_totalRacks :: int
  rl_occupiedRacks :: int
  rl_freeRacks :: int

definition listRooms :: "room_config \<Rightarrow> int \<Rightarrow> mc_store \<Rightarrow> rooms_list" where
  "listRooms cfg userId s =
     (let rooms = roomsOf userId s;
          view = (\<lambda>n. case find_first (\<lambda>r. rm_roomNumber r = n) rooms of
                    Some r \<Rightarrow> Unlocked r (map (viewRack s) (racksOf (rm_id r) s))
                  | None \<Rightarrow> Locked n (priceOf cfg n));
          total = sum_list (map (\<lambda>r. int (length (racksOf (rm_id r) s))) rooms);
          occupied = sum_list (map (\<lambda>r. int (count_where rackOccupied (racksOf (rm_id r) s))) rooms)
      in \<lparr>rl_rooms = map view [1..rc_roomMax cfg], rl_totalRacks = total,
          rl_occupiedRacks = occupied, rl_freeRacks = total - occupied\<rparr>)"

record slots_summary =
  ss_totalRacks :: int
  ss_occupiedRacks :: int
  ss_freeRacks :: int
  ss_inventoryCount :: int

definition getSlotsSummary :: "int \<Rightarrow> mc_store \<Rightarrow> slots_summary" where
  "getSlotsSummary userId s =
     (let total = int (count_where (\<lambda>k. rk_userId k = userId) (mc_racks s));
          occupied = int (count_where (\<lambda>k. rk_userId k = userId \<and> rk_userMinerId k \<noteq> None) (mc_racks s))
      in \<lparr>ss_totalRacks = total, ss_occupiedRacks = occupied, ss_freeRacks = total - occupied,
          ss_inventoryCount = int (count_where (\<lambda>i. inv_userId i = userId) (st_inventory s))\<rparr>)"

subsection \<open>Buying a room\<close>

definition buyRoomPlan :: "room_config \<Rightarrow> int \<Rightarrow> mc_store \<Rightarrow> mc_error + int \<times> number" where
  "buyRoomPlan cfg userId s =
     (let nextRoom = int (length (roomsOf userId s)) + 1
      in if rc_roomMax cfg < nextRoom then Inl MAX_ROOMS_REACHED
         else case priceOf cfg nextRoom of
           None \<Rightarrow> Inl InvalidPriceConfig
         | Some price \<Rightarrow>
             if price < 0 then Inl InvalidPriceConfig
             else case getUser userId s of
               None \<Rightarrow> Inl RoomUserNotFound
             | Some u \<Rightarrow>
                 if toNumber (usr_polBalance u) < price then Inl INSUFFICIENT_BALANCE
                 else Inr (nextRoom, price))"

definition chargePol :: "(number \<Rightarrow> dec8) \<Rightarrow> int \<Rightarrow> number \<Rightarrow> (db_failure, unit, mc_store) program" where
  "chargePol dec8_of userId price s =
     (if 0 < price then
        (case getUser userId s of
           None \<Rightarrow> (Inl P2025, s)
         | Some _ \<Rightarrow> (Inr (), addPol userId (- dec8_of price) s))
      else (Inr (), s))"

definition createRoom :: "(number \<Rightarrow> dec8) \<Rightarrow> int \<Rightarrow> int \<Rightarrow> number \<Rightarrow> (db_failure, int, mc_store) program" where
  "createRoom dec8_of userId roomNumber price s =
     (if list_ex (\<lambda>r. rm_userId r = userId \<and> rm_roomNumber r = roomNumber) (mc_rooms s) then (Inl P2002, s)
      else if getUser userId s = None then (Inl P2003, s)
      else (Inr (st_next s), s\<lparr>mc_rooms := mc_rooms s @ [\<lparr>rm_id = st_next s, rm_userId = userId,
              rm_roomNumber = roomNumber, rm_pricePaid = dec8_of price\<rparr>], st_next := st_next s + 1\<rparr>))"

definition newRacks :: "int \<Rightarrow> int \<Rightarrow> int \<Rightarrow> nat \<Rightarrow> user_rack list" where
  "newRacks firstId userId roomId n =
     map (\<lambda>i. \<lparr>rk_id = firstId + int i, rk_userId = userId, rk_roomId = roomId, rk_position = int i,
              rk_userMinerId = None, rk_blockedByMinerId = None, rk_installedAt = None\<rparr>) [0..<n]"

definition createRacks :: "int \<Rightarrow> int \<Rightarrow> nat \<Rightarrow> (db_failure, unit, mc_store) program" where
  "createRacks userId roomId n s =
     (Inr (), s\<lparr>mc_racks := mc_racks s @ newRacks (st_next s) userId roomId n, st_next := st_next s + int n\<rparr>)"

definition buyRoomTx ::
  "(number \<Rightarrow> dec8) \<Rightarrow> room_config \<Rightarrow> int \<Rightarrow> int \<Rightarrow> number \<Rightarrow> (db_failure, int, mc_store) program" where
  "buyRoomTx dec8_of cfg userId nextRoom price =
     and_then (chargePol dec8_of userId price) (\<lambda>_.
     and_then (createRoom dec8_of userId nextRoom price) (\<lambda>roomId.
     and_then (createRacks userId roomId (rc_racksPerRoom cfg)) (\<lambda>_. ret roomId)))"

definition buyRoom ::
  "(number \<Rightarrow> dec8) \<Rightarrow> room_config \<Rightarrow> int \<Rightarrow> mc_store \<Rightarrow> (mc_error, int \<times> int, mc_store) outcome" where
  "buyRoom dec8_of cfg userId s =
     (case buyRoomPlan cfg userId s of
        Inl e \<Rightarrow> (Inl e, s)
      | Inr (nextRoom, price) \<Rightarrow>
          (case answered (transaction (buyRoomTx dec8_of cfg userId nextRoom price) s) of
             (Inl e, t) \<Rightarrow> (Inl e, t)
           | (Inr roomId, t) \<Rightarrow>
               (Inr (nextRoom, roomId),
                notify userId ''Sala Desbloqueada!'' ''success''
                  (if 0 < price then logCall (BalanceDelta userId (- price)) t else t))))"

definition maquina :: string where
  "maquina = [CHR ''M'', CHR 0xE1, CHR ''q'', CHR ''u'', CHR ''i'', CHR ''n'', CHR ''a'']"

subsection \<open>Installing a machine\<close>

record install_plan =
  ip_rack :: user_rack
  ip_item :: inventory_item
  ip_adjacent :: "user_rack option"
  ip_slotIndex :: int

definition installMinerPlan ::
  "room_config \<Rightarrow> int \<Rightarrow> rat option \<Rightarrow> rat option \<Rightarrow> mc_store \<Rightarrow> mc_error + install_plan" where
  "installMinerPlan cfg userId rackIdArg inventoryIdArg s =
     (case positiveId rackIdArg of None \<Rightarrow> Inl InvalidRackId | Some rackId \<Rightarrow>
      case positiveId inventoryIdArg of None \<Rightarrow> Inl InvalidInventoryId | Some inventoryId \<Rightarrow>
      case find_first (\<lambda>k. rk_id k = rackId \<and> rk_userId k = userId) (mc_racks s) of None \<Rightarrow> Inl RackNotFound | Some rack \<Rightarrow>
      if rackOccupied rack then Inl RACK_OCCUPIED
      else case getInventoryItem userId inventoryId s of None \<Rightarrow> Inl ItemNotFound | Some item \<Rightarrow>
      let slotSize = slotSizeOf (inv_snap item);
          adjacent = (if 2 \<le> slotSize
            then find_first (\<lambda>k. rk_roomId k = rk_roomId rack \<and> rk_position k = rk_position rack + (slotSize - 1)) (mc_racks s)
            else None)
      in if 2 \<le> slotSize \<and> adjacent = None then Inl NO_SPACE
         else if (case adjacent of Some k \<Rightarrow> rackOccupied k | None \<Rightarrow> False) then Inl ADJACENT_RACK_OCCUPIED
         else case find_first (\<lambda>r. rm_id r = rk_roomId rack) (mc_rooms s) of
           None \<Rightarrow> Inl ServerError
         | Some room \<Rightarrow> Inr \<lparr>ip_rack = rack, ip_item = item, ip_adjacent = adjacent,
                             ip_slotIndex = rackSlotIndex cfg (rm_roomNumber room) (rk_position rack)\<rparr>)"

definition blockAdjacent :: "user_rack option \<Rightarrow> int \<Rightarrow> (db_failure, unit, mc_store) program" where
  "blockAdjacent adjacent minerId =
     (case adjacent of
        None \<Rightarrow> ret ()
      | Some k \<Rightarrow> updateRack (rk_id k) (\<lambda>k. k\<lparr>rk_blockedByMinerId := Some minerId\<rparr>))"

definition installMinerTx :: "int \<Rightarrow> install_plan \<Rightarrow> millis \<Rightarrow> (db_failure, unit, mc_store) program" where
  "installMinerTx userId p now =
     (let item = ip_item p
      in and_then (ensureOwnedMachineForInventoryTx item) (\<lambda>om.
         and_then (createUserMiner userId (ip_slotIndex p) (inv_snap item) om) (\<lambda>minerId.
         and_then (updateRack (rk_id (ip_rack p))
                     (\<lambda>k. k\<lparr>rk_userMinerId := Some minerId, rk_installedAt := Some now\<rparr>)) (\<lambda>_.
         and_then (blockAdjacent (ip_adjacent p) minerId) (\<lambda>_.
         and_then (syncOwnedMachineSnapshotTx om RACK (inv_snap item)) (\<lambda>_.
         deleteInventory (\<lambda>i. inv_id i = inv_id item)))))))"

definition installMiner ::
  "room_config \<Rightarrow> int \<Rightarrow> rat option \<Rightarrow> rat option \<Rightarrow> millis \<Rightarrow> mc_store \<Rightarrow> (mc_error, unit, mc_store) outcome" where
  "installMiner cfg userId rackIdArg inventoryIdArg now s =
     (case installMinerPlan cfg userId rackIdArg inventoryIdArg s of
        Inl e \<Rightarrow> (Inl e, s)
      | Inr p \<Rightarrow>
          (case answered (transaction (installMinerTx userId p now) s) of
             (Inl e, t) \<Rightarrow> (Inl e, t)
           | (Inr _, t) \<Rightarrow> (Inr (), notify userId (maquina @ '' Instalada'') ''success''
                 (logCall (ReloadProfile userId) t))))"

subsection \<open>Uninstalling a machine\<close>

text \<open>The name an uninstalled machine gets: the rack row has none, only the catalog does.\<close>

definition uninstalledName :: "user_miner \<Rightarrow> mc_store \<Rightarrow> string" where
  "uninstalledName m s =
     (case catalogName (um_minerId m) s of
        Some n \<Rightarrow> if n = '''' then maquina else n
      | None \<Rightarrow> if um_minerId m = None \<or> um_minerId m = Some 0 then maquina @ '' custom'' else maquina)"

definition uninstallMinerPlan ::
  "int \<Rightarrow> rat option \<Rightarrow> mc_store \<Rightarrow> mc_error + (user_rack \<times> user_miner \<times> snapshot)" where
  "uninstallMinerPlan userId rackIdArg s =
     (case positiveId rackIdArg of None \<Rightarrow> Inl InvalidRackId | Some rackId \<Rightarrow>
      case find_first (\<lambda>k. rk_id k = rackId \<and> rk_userId k = userId) (mc_racks s) of None \<Rightarrow> Inl RackNotFound | Some rack \<Rightarrow>
      case rk_userMinerId rack of None \<Rightarrow> Inl RACK_EMPTY | Some minerId \<Rightarrow>
      case find_first (\<lambda>m. um_id m = minerId) (st_userMiners s) of None \<Rightarrow> Inl RACK_EMPTY | Some m \<Rightarrow>
        Inr (rack, m, rackSnapshot m (uninstalledName m s) (or_null (um_imageUrl m) (catalogImage (um_minerId m) s))))"

definition uninstallMinerTx ::
  "int \<Rightarrow> user_rack \<Rightarrow> user_miner \<Rightarrow> snapshot \<Rightarrow> millis \<Rightarrow> (db_failure, unit, mc_store) program" where
  "uninstallMinerTx userId rack m snap now =
     and_then (updateRack (rk_id rack) (\<lambda>k. k\<lparr>rk_userMinerId := None, rk_installedAt := None\<rparr>)) (\<lambda>_.
     and_then (modify (\<lambda>s. s\<lparr>mc_racks := update_where
                  (\<lambda>k. rk_roomId k = rk_roomId rack \<and> rk_blockedByMinerId k = Some (um_id m))
                  (\<lambda>k. k\<lparr>rk_blockedByMinerId := None\<rparr>) (mc_racks s)\<rparr>)) (\<lambda>_.
     and_then (ensureOwnedMachineForUserMinerTx m (sn_minerName snap)) (\<lambda>om.
     and_then (createInventory userId snap now None om) (\<lambda>_.
     and_then (syncOwnedMachineSnapshotTx om INVENTORY snap) (\<lambda>_.
     deleteUserMiner (um_id m))))))"

definition uninstallMiner ::
  "int \<Rightarrow> rat option \<Rightarrow> millis \<Rightarrow> mc_store \<Rightarrow> (mc_error, unit, mc_store) outcome" where
  "uninstallMiner userId rackIdArg now s =
     (case uninstallMinerPlan userId rackIdArg s of
        Inl e \<Rightarrow> (Inl e, s)
      | Inr (rack, m, snap) \<Rightarrow>
          (case answered (transaction (uninstallMinerTx userId rack m snap now) s) of
             (Inl e, t) \<Rightarrow> (Inl e, t)
           | (Inr _, t) \<Rightarrow> (Inr (), logCall (ReloadProfile userId) t)))"

end
