(* ===== verification/Vault.thy ===== *)
theory Vault
  imports Rooms
begin

section \<open>The vault and the legacy slot grid\<close>

text \<open>
  \<open>server/controllers/vaultController.js\<close>, \<open>machinesController.js\<close> and
  \<open>inventoryController.js\<close>.  The bodies of the vault requests have passed the schemas of
  \<open>server/utils/vaultSchemas.js\<close>.  The slot grid has 80 slots; the racks of \<open>Rooms\<close> start at slot
  1000.  As there, a handler is a plan made from what it read and a transaction.
\<close>

subsection \<open>Expressions of the controllers\<close>

text \<open>\<open>m.miner?.name || "Miner"\<close>.\<close>

definition displayName :: "user_miner \<Rightarrow> 'a store_scheme \<Rightarrow> string" where
  "displayName m s =
     (case catalogName (um_minerId m) s of None \<Rightarrow> ''Miner'' | Some n \<Rightarrow> if n = '''' then ''Miner'' else n)"

definition machineImage :: "user_miner \<Rightarrow> 'a store_scheme \<Rightarrow> string option" where
  "machineImage m s = or_string (um_imageUrl m) (catalogImage (um_minerId m) s)"

definition displaySnapshot :: "user_miner \<Rightarrow> 'a store_scheme \<Rightarrow> snapshot" where
  "displaySnapshot m s = rackSnapshot m (displayName m s) (machineImage m s)"

definition targetSlots :: "int \<Rightarrow> int \<Rightarrow> int list" where
  "targetSlots slotIndex slotSize = [slotIndex..slotIndex + slotSize - 1]"

definition machinesAt :: "int \<Rightarrow> int list \<Rightarrow> 'a store_scheme \<Rightarrow> user_miner list" where
  "machinesAt userId slots s =
     filter (\<lambda>m. um_userId m = userId \<and> um_slotIndex m \<in> set slots) (st_userMiners s)"

text \<open>
  A machine in the way goes to the inventory: its racks are released, an inventory row is created
  with a new canonical row, and the rack row is deleted.
\<close>

definition displaceTx :: "int \<Rightarrow> millis \<Rightarrow> user_miner \<times> snapshot \<Rightarrow> (db_failure, unit, mc_store) program" where
  "displaceTx userId now = (\<lambda>(m, snap).
     and_then (releaseUserMinerFromRacksTx (um_id m)) (\<lambda>_.
     and_then (createInventoryWithOwnedMachineTx userId snap now None) (\<lambda>_.
     deleteUserMiner (um_id m))))"

text \<open>A two-slot machine that starts one slot before an odd slot (read inside the transaction).\<close>

definition displacePrevious ::
  "int \<Rightarrow> millis \<Rightarrow> int \<Rightarrow> (user_miner \<Rightarrow> bool) \<Rightarrow> (db_failure, unit, mc_store) program" where
  "displacePrevious userId now slotIndex P s =
     (if slotIndex mod 2 = 1 then
        (case find_first (\<lambda>m. um_userId m = userId \<and> um_slotIndex m = slotIndex - 1 \<and> P m) (st_userMiners s) of
           Some m \<Rightarrow> if um_slotSize m = 2 then displaceTx userId now (m, displaySnapshot m s) s else (Inr (), s)
         | None \<Rightarrow> (Inr (), s))
      else (Inr (), s))"

subsection \<open>Moving to the vault\<close>

datatype vault_source = FromInventory | FromRack

datatype vault_plan =
  StoreItem inventory_item
| StoreMiner user_miner string "string option"

definition moveToVaultPlan :: "int \<Rightarrow> vault_source \<Rightarrow> int \<Rightarrow> mc_store \<Rightarrow> mc_error + vault_plan" where
  "moveToVaultPlan userId source itemId s =
     (case source of
        FromInventory \<Rightarrow>
          (case getInventoryItem userId itemId s of None \<Rightarrow> Inl ItemNotFound | Some i \<Rightarrow> Inr (StoreItem i))
      | FromRack \<Rightarrow>
          (case find_first (\<lambda>m. um_id m = itemId \<and> um_userId m = userId) (st_userMiners s) of
             None \<Rightarrow> Inl MachineNotFound
           | Some m \<Rightarrow> Inr (StoreMiner m (displayName m s) (machineImage m s))))"

definition safeSnapshot :: "snapshot \<Rightarrow> mc_store \<Rightarrow> snapshot" where
  "safeSnapshot snap s = snap\<lparr>sn_minerId := safeVaultMinerId (sn_minerId snap) s\<rparr>"

definition moveToVaultTx :: "int \<Rightarrow> vault_plan \<Rightarrow> millis \<Rightarrow> (db_failure, unit, mc_store) program" where
  "moveToVaultTx userId p now s =
     (case p of
        StoreItem item \<Rightarrow>
          (let snap = safeSnapshot (inv_snap item) s
           in and_then (ensureOwnedMachineForInventoryTx item) (\<lambda>om.
              and_then (createVault userId snap now om) (\<lambda>_.
              and_then (syncOwnedMachineSnapshotTx om WAREHOUSE snap) (\<lambda>_.
              deleteInventory (\<lambda>i. inv_id i = inv_id item \<and> inv_userId i = userId)))) s)
      | StoreMiner m name img \<Rightarrow>
          (let snap = safeSnapshot (rackSnapshot m name img) s
           in and_then (ensureOwnedMachineForUserMinerTx m name) (\<lambda>om.
              and_then (releaseUserMinerFromRacksTx (um_id m)) (\<lambda>_.
              and_then (createVault userId snap now om) (\<lambda>_.
              and_then (syncOwnedMachineSnapshotTx om WAREHOUSE snap) (\<lambda>_.
              deleteUserMiner (um_id m))))) s))"

definition vaultAnswered :: "(db_failure, 'a, 's) outcome \<Rightarrow> (mc_error, 'a, 's) outcome" where
  "vaultAnswered r =
     (case r of
        (Inl f, s) \<Rightarrow> (Inl (case f of P2003 \<Rightarrow> VAULT_RACK_LINK | P2025 \<Rightarrow> VAULT_NOT_FOUND | P2002 \<Rightarrow> ServerError), s)
      | (Inr a, s) \<Rightarrow> (Inr a, s))"

definition moveToVault ::
  "int \<Rightarrow> vault_source \<Rightarrow> int \<Rightarrow> millis \<Rightarrow> mc_store \<Rightarrow> (mc_error, unit, mc_store) outcome" where
  "moveToVault userId source itemId now s =
     (case moveToVaultPlan userId source itemId s of
        Inl e \<Rightarrow> (Inl e, s)
      | Inr p \<Rightarrow>
          (case vaultAnswered (transaction (moveToVaultTx userId p now) s) of
             (Inl e, t) \<Rightarrow> (Inl e, t)
           | (Inr _, t) \<Rightarrow> (Inr (), notify userId ''Miner stored'' ''info'' (logCall (ReloadProfile userId) t))))"

subsection \<open>Retrieving from the vault\<close>

datatype vault_destination = ToInventory | ToRack int

record retrieve_plan =
  rp_item :: vault_item
  rp_displaced :: "(user_miner \<times> snapshot) list"

definition retrievePlan :: "int \<Rightarrow> vault_destination \<Rightarrow> int \<Rightarrow> mc_store \<Rightarrow> mc_error + retrieve_plan" where
  "retrievePlan userId dest vaultId s =
     (case getVaultItem userId vaultId s of None \<Rightarrow> Inl ItemNotFound | Some item \<Rightarrow>
      case dest of
        ToInventory \<Rightarrow> Inr \<lparr>rp_item = item, rp_displaced = []\<rparr>
      | ToRack slotIndex \<Rightarrow>
          let slotSize = slotSizeOf (vt_snap item)
          in if slotIndex < 0 \<or> 80 \<le> slotIndex then Inl InvalidSlotPosition
             else if slotSize = 2 \<and> slotIndex mod 2 \<noteq> 0 then Inl OddSlot
             else Inr \<lparr>rp_item = item, rp_displaced = map (\<lambda>m. (m, displaySnapshot m s))
                          (machinesAt userId (targetSlots slotIndex slotSize) s)\<rparr>)"

definition retrieveTx ::
  "int \<Rightarrow> vault_destination \<Rightarrow> retrieve_plan \<Rightarrow> millis \<Rightarrow> (db_failure, unit, mc_store) program" where
  "retrieveTx userId dest p now s =
     (let item = rp_item p; snap = safeSnapshot (vt_snap item) s;
          done = deleteVault userId (vt_id item)
      in case dest of
           ToInventory \<Rightarrow>
             and_then (ensureOwnedMachineForVaultTx item) (\<lambda>om.
             and_then (createInventory userId snap now None om) (\<lambda>_.
             and_then (syncOwnedMachineSnapshotTx om INVENTORY snap) (\<lambda>_. done))) s
         | ToRack slotIndex \<Rightarrow>
             and_then (for_each (displaceTx userId now) (rp_displaced p)) (\<lambda>_.
             and_then (ensureOwnedMachineForVaultTx item) (\<lambda>om.
             and_then (createUserMiner userId slotIndex (snap\<lparr>sn_slotSize := slotSizeOf snap\<rparr>) om) (\<lambda>_.
             and_then (syncOwnedMachineSnapshotTx om RACK snap) (\<lambda>_. done)))) s)"

definition retrieveFromVault ::
  "int \<Rightarrow> vault_destination \<Rightarrow> int \<Rightarrow> millis \<Rightarrow> mc_store \<Rightarrow> (mc_error, unit, mc_store) outcome" where
  "retrieveFromVault userId dest vaultId now s =
     (case retrievePlan userId dest vaultId s of
        Inl e \<Rightarrow> (Inl e, s)
      | Inr p \<Rightarrow>
          (case answered (transaction (retrieveTx userId dest p now) s) of
             (Inl e, t) \<Rightarrow> (Inl e, t)
           | (Inr _, t) \<Rightarrow> (Inr (), notify userId ''Miner retrieved'' ''success''
                 (if dest = ToInventory then t else logCall (ReloadProfile userId) t))))"

subsection \<open>The legacy slot grid: machines\<close>

definition updateMachineActive :: "int \<Rightarrow> bool \<Rightarrow> (db_failure, unit, mc_store) program" where
  "updateMachineActive machineId isActive s =
     (if list_ex (\<lambda>m. um_id m = machineId) (st_userMiners s)
      then (Inr (), s\<lparr>st_userMiners := update_where (\<lambda>m. um_id m = machineId)
              (\<lambda>m. m\<lparr>um_isActive := isActive\<rparr>) (st_userMiners s)\<rparr>)
      else (Inl P2025, s))"

definition toggleMachine :: "int \<Rightarrow> int \<Rightarrow> bool \<Rightarrow> mc_store \<Rightarrow> (mc_error, unit, mc_store) outcome" where
  "toggleMachine userId machineId isActive s =
     (case getMachineById userId machineId s of
        None \<Rightarrow> (Inl MachineNotFound, s)
      | Some _ \<Rightarrow>
          (case answered (updateMachineActive machineId isActive s) of
             (Inl e, t) \<Rightarrow> (Inl e, t)
           | (Inr _, t) \<Rightarrow> (Inr (), logCall (ReloadProfile userId) t)))"

definition removeMachineTx :: "int \<Rightarrow> user_miner \<Rightarrow> snapshot \<Rightarrow> millis \<Rightarrow> (db_failure, unit, mc_store) program" where
  "removeMachineTx userId m snap now =
     and_then (releaseUserMinerFromRacksTx (um_id m)) (\<lambda>_.
     and_then (ensureOwnedMachineForUserMinerTx m (sn_minerName snap)) (\<lambda>om.
     and_then (createInventory userId snap now None om) (\<lambda>_.
     and_then (syncOwnedMachineSnapshotTx om INVENTORY snap) (\<lambda>_.
     deleteUserMiner (um_id m)))))"

definition removeMachine :: "int \<Rightarrow> int \<Rightarrow> millis \<Rightarrow> mc_store \<Rightarrow> (mc_error, unit, mc_store) outcome" where
  "removeMachine userId machineId now s =
     (case getMachineById userId machineId s of
        None \<Rightarrow> (Inl MachineNotFound, s)
      | Some m \<Rightarrow>
          (case answered (transaction (removeMachineTx userId m (displaySnapshot m s) now) s) of
             (Inl e, t) \<Rightarrow> (Inl e, t)
           | (Inr _, t) \<Rightarrow> (Inr (), logCall (ReloadProfile userId) t)))"

text \<open>\<open>targetSlotIndex\<close> is raw JSON: \<open>None\<close> when it is not an integer.\<close>

definition moveMachinePlan ::
  "int \<Rightarrow> int \<Rightarrow> int option \<Rightarrow> mc_store \<Rightarrow> mc_error + (user_miner \<times> int \<times> (user_miner \<times> snapshot) list)" where
  "moveMachinePlan userId machineId target s =
     (case target of None \<Rightarrow> Inl InvalidSlotPosition | Some slot \<Rightarrow>
      if slot < 0 \<or> 80 \<le> slot then Inl InvalidSlotPosition
      else case getMachineById userId machineId s of None \<Rightarrow> Inl MachineNotFound | Some m \<Rightarrow>
      if um_slotSize m = 2 \<and> slot mod 2 \<noteq> 0 then Inl OddSlot
      else Inr (m, slot, map (\<lambda>x. (x, displaySnapshot x s))
             (filter (\<lambda>x. um_id x \<noteq> machineId) (machinesAt userId (targetSlots slot (um_slotSize m)) s))))"

definition updateSlot :: "int \<Rightarrow> int \<Rightarrow> (db_failure, unit, mc_store) program" where
  "updateSlot machineId slot s =
     (case find_first (\<lambda>m. um_id m = machineId) (st_userMiners s) of
        None \<Rightarrow> (Inl P2025, s)
      | Some m \<Rightarrow>
          if list_ex (\<lambda>x. um_id x \<noteq> machineId \<and> um_userId x = um_userId m \<and> um_slotIndex x = slot) (st_userMiners s)
          then (Inl P2002, s)
          else (Inr (), s\<lparr>st_userMiners := update_where (\<lambda>x. um_id x = machineId)
                  (\<lambda>x. x\<lparr>um_slotIndex := slot\<rparr>) (st_userMiners s)\<rparr>))"

definition moveMachineTx ::
  "int \<Rightarrow> int \<Rightarrow> int \<Rightarrow> (user_miner \<times> snapshot) list \<Rightarrow> millis \<Rightarrow> (db_failure, unit, mc_store) program" where
  "moveMachineTx userId machineId slot displaced now =
     and_then (for_each (displaceTx userId now) displaced) (\<lambda>_.
     and_then (displacePrevious userId now slot (\<lambda>m. um_id m \<noteq> machineId)) (\<lambda>_.
     updateSlot machineId slot))"

definition moveMachine ::
  "int \<Rightarrow> int \<Rightarrow> int option \<Rightarrow> millis \<Rightarrow> mc_store \<Rightarrow> (mc_error, unit, mc_store) outcome" where
  "moveMachine userId machineId target now s =
     (case moveMachinePlan userId machineId target s of
        Inl e \<Rightarrow> (Inl e, s)
      | Inr (m, slot, displaced) \<Rightarrow>
          (case answered (transaction (moveMachineTx userId machineId slot displaced now) s) of
             (Inl e, t) \<Rightarrow> (Inl e, t)
           | (Inr _, t) \<Rightarrow> (Inr (), logCall (ReloadProfile userId) t)))"

subsection \<open>The legacy slot grid: inventory\<close>

definition DEFAULT_MINER_IMAGE_URL :: string where
  "DEFAULT_MINER_IMAGE_URL = ''/machines/reward1.png''"

definition slotNumber :: "rat option \<Rightarrow> int option" where
  "slotNumber q =
     (case q of None \<Rightarrow> None | Some x \<Rightarrow> if of_int \<lfloor>x\<rfloor> = x \<and> 0 \<le> x \<and> x < 80 then Some \<lfloor>x\<rfloor> else None)"

definition installItemPlan ::
  "int \<Rightarrow> rat option \<Rightarrow> int \<Rightarrow> mc_store \<Rightarrow> mc_error + (inventory_item \<times> int \<times> (user_miner \<times> snapshot) list)" where
  "installItemPlan userId slotArg inventoryId s =
     (case slotNumber slotArg of None \<Rightarrow> Inl InvalidSlotPosition | Some slot \<Rightarrow>
      case getInventoryItem userId inventoryId s of None \<Rightarrow> Inl ItemNotFound | Some item \<Rightarrow>
      let slotSize = slotSizeOf (inv_snap item)
      in if slotSize = 2 \<and> slot mod 2 \<noteq> 0 then Inl OddSlot
         else Inr (item, slot, map (\<lambda>m. (m, displaySnapshot m s)) (machinesAt userId (targetSlots slot slotSize) s)))"

definition installItemTx ::
  "int \<Rightarrow> inventory_item \<Rightarrow> int \<Rightarrow> (user_miner \<times> snapshot) list \<Rightarrow> millis \<Rightarrow> (db_failure, unit, mc_store) program" where
  "installItemTx userId item slot displaced now =
     (let snap = (inv_snap item)\<lparr>sn_imageUrl := or_string (sn_imageUrl (inv_snap item)) (Some DEFAULT_MINER_IMAGE_URL)\<rparr>
      in and_then (for_each (displaceTx userId now) displaced) (\<lambda>_.
         and_then (displacePrevious userId now slot (\<lambda>m. True)) (\<lambda>_.
         and_then (ensureOwnedMachineForInventoryTx item) (\<lambda>om.
         and_then (createUserMiner userId slot (snap\<lparr>sn_slotSize := slotSizeOf snap\<rparr>) om) (\<lambda>_.
         and_then (syncOwnedMachineSnapshotTx om RACK snap) (\<lambda>_.
         deleteInventory (\<lambda>i. inv_id i = inv_id item \<and> inv_userId i = userId)))))))"

definition installInventoryItem ::
  "int \<Rightarrow> rat option \<Rightarrow> int \<Rightarrow> millis \<Rightarrow> mc_store \<Rightarrow> (mc_error, unit, mc_store) outcome" where
  "installInventoryItem userId slotArg inventoryId now s =
     (case installItemPlan userId slotArg inventoryId s of
        Inl e \<Rightarrow> (Inl e, s)
      | Inr (item, slot, displaced) \<Rightarrow>
          (case answered (transaction (installItemTx userId item slot displaced now) s) of
             (Inl e, t) \<Rightarrow> (Inl e, t)
           | (Inr _, t) \<Rightarrow> (Inr (), notify userId (maquina @ '' Instalada'') ''success''
                 (logCall (ReloadProfile userId) t))))"

definition removeItemTx :: "int \<Rightarrow> int \<Rightarrow> (db_failure, unit, mc_store) program" where
  "removeItemTx userId inventoryId s =
     (case getInventoryItem userId inventoryId s of
        None \<Rightarrow> (Inl P2025, s)
      | Some row \<Rightarrow>
          and_then (deleteInventory (\<lambda>i. inv_id i = inventoryId \<and> inv_userId i = userId)) (\<lambda>_.
            case inv_ownedMachineId row of None \<Rightarrow> ret () | Some om \<Rightarrow> deleteOwned om) s)"

text \<open>The missing row is answered with 404; every other failure with 500.\<close>

definition removeInventoryItem :: "int \<Rightarrow> int \<Rightarrow> mc_store \<Rightarrow> (mc_error, unit, mc_store) outcome" where
  "removeInventoryItem userId inventoryId s =
     (case transaction (removeItemTx userId inventoryId) s of
        (Inl f, t) \<Rightarrow> (Inl (if getInventoryItem userId inventoryId s = None then ItemNotFound else ServerError), t)
      | (Inr _, t) \<Rightarrow> (Inr (), t))"

end
