(* ===== verification/MachineReg.thy ===== *)
theory MachineReg
  imports Vault
begin

section \<open>The registry of machines\<close>

text \<open>
  What the statements of \<open>MachineStore\<close> do to the child rows seen as one multiset: a child is its
  canonical id, its owner and the table it is in.  \<open>reg_ok\<close> says that no canonical row has two
  children and that the canonical row of a child has the child's owner and location.
\<close>

type_synonym child = "int option \<times> int \<times> machine_location"

definition children :: "mc_store \<Rightarrow> child multiset" where
  "children s =
     image_mset (\<lambda>i. (inv_ownedMachineId i, inv_userId i, INVENTORY)) (mset (st_inventory s))
   + image_mset (\<lambda>m. (um_ownedMachineId m, um_userId m, RACK)) (mset (st_userMiners s))
   + image_mset (\<lambda>v. (vt_ownedMachineId v, vt_userId v, WAREHOUSE)) (mset (mc_vault s))"

definition owners :: "mc_store \<Rightarrow> int multiset" where
  "owners s = image_mset (\<lambda>c. fst (snd c)) (children s)"

definition backed :: "owned_machine list \<Rightarrow> child \<Rightarrow> bool" where
  "backed rows c \<longleftrightarrow> (\<forall>om. fst c = Some om \<longrightarrow>
     (\<exists>m \<in> set rows. om_id m = om \<and> om_userId m = fst (snd c) \<and> om_location m = snd (snd c)))"

definition reg_ok :: "child multiset \<Rightarrow> owned_machine list \<Rightarrow> bool" where
  "reg_ok C rows \<longleftrightarrow> (\<forall>om. size (filter_mset (\<lambda>c. fst c = Some om) C) \<le> 1) \<and> (\<forall>c \<in># C. backed rows c)"

definition ids_ok :: "mc_store \<Rightarrow> bool" where
  "ids_ok s \<longleftrightarrow>
     (unique_key inv_id (st_inventory s) \<and> unique_key um_id (st_userMiners s) \<and> unique_key vt_id (mc_vault s)
       \<and> unique_key om_id (st_owned s) \<and> unique_key rk_id (mc_racks s))
   \<and> ((\<forall>r \<in> set (st_inventory s). inv_id r < st_next s) \<and> (\<forall>r \<in> set (st_userMiners s). um_id r < st_next s)
       \<and> (\<forall>r \<in> set (mc_vault s). vt_id r < st_next s) \<and> (\<forall>r \<in> set (st_owned s). om_id r < st_next s)
       \<and> (\<forall>r \<in> set (mc_racks s). rk_id r < st_next s))"

subsection \<open>Multisets of rows addressed by a key\<close>

lemma mset_delete_key:
  assumes "unique_key key rows" and "r \<in> set rows"
  shows "mset rows = add_mset r (mset (delete_where (\<lambda>q. key q = key r) rows))"
  using assms unfolding unique_key_def
proof (induction rows)
  case Nil
  then show ?case by simp
next
  case (Cons q rows)
  show ?case
  proof (cases "q = r")
    case True
    with Cons.prems have "\<And>p. p \<in> set rows \<Longrightarrow> key p \<noteq> key r"
      by (metis distinct.simps(2) image_eqI list.simps(9) set_map)
    then have "delete_where (\<lambda>p. key p = key r) rows = rows"
      by (simp add: delete_where_def)
    with True show ?thesis by simp
  next
    case False
    with Cons.prems have "r \<in> set rows" "key q \<noteq> key r" by auto
    with Cons show ?thesis by simp
  qed
qed

lemma mset_update_key:
  assumes "unique_key key rows" and "r \<in> set rows"
  shows "mset (update_where (\<lambda>q. key q = key r) f rows)
       = add_mset (f r) (mset (delete_where (\<lambda>q. key q = key r) rows))"
  using assms unfolding unique_key_def
proof (induction rows)
  case Nil
  then show ?case by simp
next
  case (Cons q rows)
  show ?case
  proof (cases "q = r")
    case True
    with Cons.prems have n: "\<And>p. p \<in> set rows \<Longrightarrow> key p \<noteq> key r"
      by (metis distinct.simps(2) image_eqI list.simps(9) set_map)
    then have "delete_where (\<lambda>p. key p = key r) rows = rows"
      by (simp add: delete_where_def)
    with True n show ?thesis by (simp add: update_where_none)
  next
    case False
    with Cons.prems have "r \<in> set rows" "key q \<noteq> key r" by auto
    with Cons show ?thesis by simp
  qed
qed

lemma delete_where_cong: "(\<And>r. r \<in> set rows \<Longrightarrow> P r = Q r) \<Longrightarrow> delete_where P rows = delete_where Q rows"
  by (induction rows) auto

subsection \<open>Laws of the registry\<close>

lemma filter_mset_none: "(\<And>x. x \<in># M \<Longrightarrow> \<not> P x) \<Longrightarrow> filter_mset P M = {#}"
  by (induction M) auto

lemma backed_mono: "backed rows c \<Longrightarrow> set rows \<subseteq> set rows' \<Longrightarrow> backed rows' c"
  unfolding backed_def by (meson subsetD)

lemma reg_ok_subset: "reg_ok C rows \<Longrightarrow> D \<subseteq># C \<Longrightarrow> reg_ok D rows"
  unfolding reg_ok_def by (meson mset_subset_eqD multiset_filter_mono order_trans size_mset_mono)

lemma reg_ok_owned_unique:
  assumes "reg_ok (add_mset (Some om, u, l) D) rows" and "c \<in># D"
  shows "fst c \<noteq> Some om"
proof
  assume f: "fst c = Some om"
  obtain E where D: "D = add_mset c E" using assms(2) by (metis mset_add)
  have "size (filter_mset (\<lambda>c. fst c = Some om) (add_mset (Some om, u, l) D)) \<le> 1"
    using assms(1) unfolding reg_ok_def by blast
  with D f show False by simp
qed

lemma reg_ok_transfer:
  assumes "reg_ok (add_mset (Some om, u, l) D) rows"
  shows "reg_ok (add_mset (Some om, u, l') D)
    (update_where (\<lambda>r. om_id r = om) (\<lambda>r. r\<lparr>om_location := l', om_snap := sn\<rparr>) rows)"
    (is "reg_ok ?C ?R")
  unfolding reg_ok_def
proof (intro conjI allI ballI)
  fix o' show "size (filter_mset (\<lambda>c. fst c = Some o') ?C) \<le> 1"
  proof -
    have "size (filter_mset (\<lambda>c. fst c = Some o') (add_mset (Some om, u, l) D)) \<le> 1"
      using assms unfolding reg_ok_def by blast
    then show ?thesis by (simp split: if_splits)
  qed
next
  fix c assume c: "c \<in># ?C"
  obtain m where m: "m \<in> set rows" "om_id m = om" "om_userId m = u"
    using assms unfolding reg_ok_def backed_def by auto
  have k: "m\<lparr>om_location := l', om_snap := sn\<rparr> \<in> set ?R"
    using m unfolding set_update_where by auto
  show "backed ?R c"
  proof (cases "c = (Some om, u, l')")
    case True
    have "om_id (m\<lparr>om_location := l', om_snap := sn\<rparr>) = om \<and> om_userId (m\<lparr>om_location := l', om_snap := sn\<rparr>) = u
      \<and> om_location (m\<lparr>om_location := l', om_snap := sn\<rparr>) = l'" using m by simp
    with k True show ?thesis unfolding backed_def by (simp only: fst_conv snd_conv option.inject) blast
  next
    case False
    with c have cD: "c \<in># D" by auto
    with assms have b: "backed rows c" unfolding reg_ok_def by auto
    have n: "fst c \<noteq> Some om" using reg_ok_owned_unique [OF assms cD] .
    show ?thesis unfolding backed_def
    proof (intro allI impI)
      fix o' assume o': "fst c = Some o'"
      then obtain r where r: "r \<in> set rows" "om_id r = o'" "om_userId r = fst (snd c)" "om_location r = snd (snd c)"
        using b unfolding backed_def by auto
      with n o' have "r \<in> set ?R" unfolding set_update_where by auto
      with r show "\<exists>m\<in>set ?R. om_id m = o' \<and> om_userId m = fst (snd c) \<and> om_location m = snd (snd c)" by blast
    qed
  qed
qed

lemma reg_ok_new:
  assumes "reg_ok C rows" and "n \<notin> om_id ` set rows"
  shows "reg_ok (add_mset (Some n, u, l) C) (rows @ [\<lparr>om_id = n, om_userId = u, om_location = l, om_snap = sn\<rparr>])"
  unfolding reg_ok_def
proof (intro conjI allI ballI)
  have fresh: "fst c \<noteq> Some n" if "c \<in># C" for c
    using assms that unfolding reg_ok_def backed_def by force
  fix o' show "size (filter_mset (\<lambda>c. fst c = Some o') (add_mset (Some n, u, l) C)) \<le> 1"
  proof (cases "o' = n")
    case True
    have "filter_mset (\<lambda>c. fst c = Some n) C = {#}" using fresh by (rule filter_mset_none)
    with True show ?thesis by simp
  next
    case False
    with assms(1) show ?thesis unfolding reg_ok_def by simp
  qed
next
  fix c assume "c \<in># add_mset (Some n, u, l) C"
  with assms(1) show "backed (rows @ [\<lparr>om_id = n, om_userId = u, om_location = l, om_snap = sn\<rparr>]) c"
    unfolding reg_ok_def by (auto intro: backed_mono simp: backed_def)
qed

lemma reg_ok_append_owned: "reg_ok C rows \<Longrightarrow> reg_ok C (rows @ others)"
  unfolding reg_ok_def by (auto intro: backed_mono)

lemma reg_ok_delete_owned:
  assumes "reg_ok C rows" and "\<And>c. c \<in># C \<Longrightarrow> fst c \<noteq> Some om"
  shows "reg_ok C (delete_where (\<lambda>r. om_id r = om) rows)"
  unfolding reg_ok_def
proof (intro conjI allI ballI)
  fix o' show "size (filter_mset (\<lambda>c. fst c = Some o') C) \<le> 1" using assms(1) unfolding reg_ok_def by blast
next
  fix c assume c: "c \<in># C"
  with assms have "backed rows c" "fst c \<noteq> Some om" unfolding reg_ok_def by auto
  then show "backed (delete_where (\<lambda>r. om_id r = om) rows) c" unfolding backed_def by force
qed

end
