(* ===== verification/MachineLaws.thy ===== *)
theory MachineLaws
  imports MachineReg
begin

section \<open>What each statement keeps\<close>

text \<open>
  For every statement of \<open>MachineStore\<close>: its effect on the registry, and that the rows other requests
  have read stay what they were (\<open>later\<close>, with the ids of the rows the transaction is about to
  delete excepted).
\<close>

definition registered :: "mc_store \<Rightarrow> bool" where
  "registered s \<longleftrightarrow> ids_ok s \<and> reg_ok (children s) (st_owned s)"

definition same_machine :: "user_miner \<Rightarrow> user_miner \<Rightarrow> bool" where
  "same_machine q r \<longleftrightarrow> um_id q = um_id r \<and> um_userId q = um_userId r \<and> um_ownedMachineId q = um_ownedMachineId r"

definition later :: "int set \<Rightarrow> int set \<Rightarrow> int set \<Rightarrow> mc_store \<Rightarrow> mc_store \<Rightarrow> bool" where
  "later I U V s t \<longleftrightarrow>
     st_next s \<le> st_next t
   \<and> (\<forall>r \<in> set (st_inventory t). inv_id r \<in> I \<or> r \<in> set (st_inventory s) \<or> st_next s \<le> inv_id r)
   \<and> (\<forall>r \<in> set (st_userMiners t). um_id r \<in> U \<or> (\<exists>q \<in> set (st_userMiners s). same_machine q r) \<or> st_next s \<le> um_id r)
   \<and> (\<forall>r \<in> set (mc_vault t). vt_id r \<in> V \<or> r \<in> set (mc_vault s) \<or> st_next s \<le> vt_id r)
   \<and> (\<forall>k \<in> set (mc_racks t). (\<exists>q \<in> set (mc_racks s). rk_id q = rk_id k \<and> rk_userId q = rk_userId k
          \<and> rk_roomId q = rk_roomId k) \<or> st_next s \<le> rk_id k)"

lemma later_refl [simp]: "later I U V s s"
  unfolding later_def same_machine_def by blast

lemma laterI:
  assumes "st_next s \<le> st_next t"
    and "\<And>r. r \<in> set (st_inventory t) \<Longrightarrow> inv_id r \<in> I \<or> r \<in> set (st_inventory s) \<or> st_next s \<le> inv_id r"
    and "\<And>r. r \<in> set (st_userMiners t) \<Longrightarrow> um_id r \<in> U \<or> (\<exists>q \<in> set (st_userMiners s). same_machine q r) \<or> st_next s \<le> um_id r"
    and "\<And>r. r \<in> set (mc_vault t) \<Longrightarrow> vt_id r \<in> V \<or> r \<in> set (mc_vault s) \<or> st_next s \<le> vt_id r"
    and "\<And>k. k \<in> set (mc_racks t) \<Longrightarrow> (\<exists>q \<in> set (mc_racks s). rk_id q = rk_id k \<and> rk_userId q = rk_userId k
          \<and> rk_roomId q = rk_roomId k) \<or> st_next s \<le> rk_id k"
  shows "later I U V s t"
  using assms unfolding later_def by blast

lemma later_trans:
  assumes a: "later I U V s t" and b: "later I U V t u"
  shows "later I U V s u"
proof (rule laterI)
  have n: "st_next s \<le> st_next t" "st_next t \<le> st_next u" using a b unfolding later_def by auto
  then show "st_next s \<le> st_next u" by simp
  show "inv_id r \<in> I \<or> r \<in> set (st_inventory s) \<or> st_next s \<le> inv_id r" if "r \<in> set (st_inventory u)" for r
    using that a b n(1) unfolding later_def by (meson order_trans)
  show "vt_id r \<in> V \<or> r \<in> set (mc_vault s) \<or> st_next s \<le> vt_id r" if "r \<in> set (mc_vault u)" for r
    using that a b n(1) unfolding later_def by (meson order_trans)
  show "um_id r \<in> U \<or> (\<exists>q \<in> set (st_userMiners s). same_machine q r) \<or> st_next s \<le> um_id r"
    if r: "r \<in> set (st_userMiners u)" for r
  proof -
    consider "um_id r \<in> U" | "st_next t \<le> um_id r" | q where "q \<in> set (st_userMiners t)" "same_machine q r"
      using b r unfolding later_def by blast
    then show ?thesis
    proof cases
      case 3
      then have "um_id q \<in> U \<or> (\<exists>p \<in> set (st_userMiners s). same_machine p q) \<or> st_next s \<le> um_id q"
        using a unfolding later_def by blast
      with 3(2) show ?thesis unfolding same_machine_def by auto
    qed (use n in auto)
  qed
  show "(\<exists>q \<in> set (mc_racks s). rk_id q = rk_id k \<and> rk_userId q = rk_userId k \<and> rk_roomId q = rk_roomId k)
      \<or> st_next s \<le> rk_id k" if k: "k \<in> set (mc_racks u)" for k
  proof -
    consider "st_next t \<le> rk_id k"
      | q where "q \<in> set (mc_racks t)" "rk_id q = rk_id k" "rk_userId q = rk_userId k" "rk_roomId q = rk_roomId k"
      using b k unfolding later_def by blast
    then show ?thesis
    proof cases
      case 2
      then have "(\<exists>p \<in> set (mc_racks s). rk_id p = rk_id q \<and> rk_userId p = rk_userId q \<and> rk_roomId p = rk_roomId q)
        \<or> st_next s \<le> rk_id q" using a unfolding later_def by blast
      with 2 show ?thesis by auto
    qed (use n in auto)
  qed
qed

lemma later_mono: "later I U V s t \<Longrightarrow> I \<subseteq> I' \<Longrightarrow> U \<subseteq> U' \<Longrightarrow> V \<subseteq> V' \<Longrightarrow> later I' U' V' s t"
  unfolding later_def by (meson subsetD)

text \<open>When the excepted rows are gone, nothing is excepted.\<close>

lemma later_close:
  assumes "later I U V s t"
    and "\<And>r. r \<in> set (st_inventory t) \<Longrightarrow> inv_id r \<notin> I" and "\<And>r. r \<in> set (st_userMiners t) \<Longrightarrow> um_id r \<notin> U"
    and "\<And>r. r \<in> set (mc_vault t) \<Longrightarrow> vt_id r \<notin> V"
  shows "later {} {} {} s t"
  using assms unfolding later_def by blast

subsection \<open>Statements that touch one table\<close>

lemma createOwned_InrD:
  assumes "createOwned u l sn s = (Inr om, t)"
  shows "om = st_next s
    \<and> t = s\<lparr>st_owned := st_owned s @ [\<lparr>om_id = st_next s, om_userId = u, om_location = l, om_snap = sn\<rparr>],
              st_next := st_next s + 1\<rparr>"
  using assms unfolding createOwned_def by (auto split: if_splits)

lemma createInventory_InrD:
  assumes "createInventory u sn a x om s = (Inr row, t)"
  shows "t = s\<lparr>st_inventory := st_inventory s @ [\<lparr>inv_id = st_next s, inv_userId = u, inv_snap = sn,
        inv_acquiredAt = a, inv_expiresAt = x, inv_ownedMachineId = Some om\<rparr>], st_next := st_next s + 1\<rparr>"
    and "row = \<lparr>inv_id = st_next s, inv_userId = u, inv_snap = sn, inv_acquiredAt = a, inv_expiresAt = x,
        inv_ownedMachineId = Some om\<rparr>"
  using assms unfolding createInventory_def by (auto simp: Let_def split: if_splits)

lemma createUserMiner_InrD:
  assumes "createUserMiner u slot sn om s = (Inr i, t)"
  shows "i = st_next s"
    and "t = s\<lparr>st_userMiners := st_userMiners s @
            [\<lparr>um_id = st_next s, um_userId = u, um_minerId = sn_minerId sn, um_slotIndex = slot,
              um_level = sn_level sn, um_hashRate = sn_hashRate sn, um_slotSize = sn_slotSize sn,
              um_imageUrl = sn_imageUrl sn, um_isActive = True, um_ownedMachineId = Some om\<rparr>],
          st_next := st_next s + 1\<rparr>"
  using assms unfolding createUserMiner_def by (auto split: if_splits)

lemma createVault_InrD:
  assumes "createVault u sn a om s = (Inr x, t)"
  shows "t = s\<lparr>mc_vault := mc_vault s @ [\<lparr>vt_id = st_next s, vt_userId = u, vt_snap = sn,
                        vt_storedAt = a, vt_ownedMachineId = Some om\<rparr>], st_next := st_next s + 1\<rparr>"
  using assms unfolding createVault_def by (auto split: if_splits)

lemma sync_InrD:
  assumes "syncOwnedMachineSnapshotTx om l sn s = (Inr x, t)"
  shows "t = s\<lparr>st_owned := update_where (\<lambda>r. om_id r = om) (\<lambda>r. r\<lparr>om_location := l, om_snap := sn\<rparr>) (st_owned s)\<rparr>"
  using assms unfolding syncOwnedMachineSnapshotTx_def by (auto split: if_splits)

lemma updateRack_InrD:
  assumes "updateRack i f s = (Inr x, t)"
  shows "t = s\<lparr>mc_racks := update_where (\<lambda>k. rk_id k = i) f (mc_racks s)\<rparr>"
  using assms unfolding updateRack_def by (auto split: if_splits)

lemma release_InrD:
  assumes "releaseUserMinerFromRacksTx i s = (Inr x, t)"
  shows "t = s\<lparr>mc_racks := update_where (\<lambda>k. rk_blockedByMinerId k = Some i) (\<lambda>k. k\<lparr>rk_blockedByMinerId := None\<rparr>)
    (update_where (\<lambda>k. rk_userMinerId k = Some i) (\<lambda>k. k\<lparr>rk_userMinerId := None, rk_installedAt := None\<rparr>) (mc_racks s))\<rparr>"
  using assms unfolding releaseUserMinerFromRacksTx_def by (simp add: Let_def)

lemma children_inventory_snoc:
  "children (s\<lparr>st_inventory := st_inventory s @ [r], st_next := n\<rparr>)
   = add_mset (inv_ownedMachineId r, inv_userId r, INVENTORY) (children s)"
  by (simp add: children_def)

lemma children_userMiners_snoc:
  "children (s\<lparr>st_userMiners := st_userMiners s @ [r], st_next := n\<rparr>)
   = add_mset (um_ownedMachineId r, um_userId r, RACK) (children s)"
  by (simp add: children_def)

lemma children_vault_snoc:
  "children (s\<lparr>mc_vault := mc_vault s @ [r], st_next := n\<rparr>)
   = add_mset (vt_ownedMachineId r, vt_userId r, WAREHOUSE) (children s)"
  by (simp add: children_def)

lemma children_owned [simp]: "children (s\<lparr>st_owned := rows\<rparr>) = children s"
  by (simp add: children_def)

lemma children_owned_next [simp]: "children (s\<lparr>st_owned := rows, st_next := n\<rparr>) = children s"
  by (simp add: children_def)

lemma children_racks [simp]: "children (s\<lparr>mc_racks := rows\<rparr>) = children s"
  by (simp add: children_def)

lemma unique_key_fresh: "\<forall>r \<in> set rows. key r < (n::int) \<Longrightarrow> n \<notin> key ` set rows"
  by auto

text \<open>\<open>quiet\<close>: the statement leaves the registry alone.\<close>

definition quiet :: "mc_store \<Rightarrow> mc_store \<Rightarrow> bool" where
  "quiet s t \<longleftrightarrow> (ids_ok s \<longrightarrow> ids_ok t) \<and> st_inventory t = st_inventory s \<and> mc_vault t = mc_vault s
     \<and> st_userMiners t = st_userMiners s \<and> st_owned t = st_owned s \<and> st_next t = st_next s
     \<and> later {} {} {} s t"

lemma quiet_children: "quiet s t \<Longrightarrow> children t = children s"
  by (simp add: quiet_def children_def)

lemma quiet_refl [simp]: "quiet s s"
  by (simp add: quiet_def)

lemma quiet_trans: "quiet s t \<Longrightarrow> quiet t u \<Longrightarrow> quiet s u"
  unfolding quiet_def by (auto intro: later_trans)

lemma quiet_racks:
  assumes "\<And>k. rk_id (f k) = rk_id k" and "\<And>k. rk_userId (f k) = rk_userId k"
    and "\<And>k. rk_roomId (f k) = rk_roomId k"
  shows "quiet s (s\<lparr>mc_racks := update_where P f (mc_racks s)\<rparr>)"
proof -
  have o: "\<exists>q \<in> set (mc_racks s). rk_id q = rk_id k \<and> rk_userId q = rk_userId k \<and> rk_roomId q = rk_roomId k"
    if "k \<in> set (update_where P f (mc_racks s))" for k
    using that assms by (auto dest!: update_where_origin)
  show ?thesis
    unfolding quiet_def ids_ok_def later_def same_machine_def using assms o by (auto dest!: o)
qed

lemma updateRack_quiet:
  assumes "updateRack i f s = (Inr x, t)" and "\<And>k. rk_id (f k) = rk_id k" and "\<And>k. rk_userId (f k) = rk_userId k"
    and "\<And>k. rk_roomId (f k) = rk_roomId k"
  shows "quiet s t"
  using updateRack_InrD [OF assms(1)] assms(2-4) by (simp add: quiet_racks)

lemma release_quiet:
  assumes "releaseUserMinerFromRacksTx i s = (Inr x, t)"
  shows "quiet s t"
proof -
  let ?f = "\<lambda>k. k\<lparr>rk_userMinerId := None, rk_installedAt := None\<rparr>"
  let ?u = "s\<lparr>mc_racks := update_where (\<lambda>k. rk_userMinerId k = Some i) ?f (mc_racks s)\<rparr>"
  let ?t = "?u\<lparr>mc_racks := update_where (\<lambda>k. rk_blockedByMinerId k = Some i) (\<lambda>k. k\<lparr>rk_blockedByMinerId := None\<rparr>) (mc_racks ?u)\<rparr>"
  have "quiet s ?u" by (rule quiet_racks) simp_all
  moreover have "quiet ?u ?t" by (rule quiet_racks) simp_all
  ultimately have "quiet s ?t" by (rule quiet_trans)
  moreover have "t = ?t" using release_InrD [OF assms] by simp
  ultimately show ?thesis by simp
qed

end
