(* ===== verification/MachineTx.thy ===== *)
theory MachineTx
  imports MachineLaws
begin

section \<open>Taking a machine out of one table and putting it into another\<close>

subsection \<open>Children, one row at a time\<close>

lemma children_inventory_split:
  assumes "unique_key inv_id (st_inventory s)" and "r \<in> set (st_inventory s)"
  shows "children s = add_mset (inv_ownedMachineId r, inv_userId r, INVENTORY)
    (children (s\<lparr>st_inventory := delete_where (\<lambda>q. inv_id q = inv_id r) (st_inventory s)\<rparr>))"
  unfolding children_def by (subst mset_delete_key [OF assms]) simp

lemma children_inventory_update:
  assumes "unique_key inv_id (st_inventory s)" and "r \<in> set (st_inventory s)"
  shows "children (s\<lparr>st_inventory := update_where (\<lambda>q. inv_id q = inv_id r) f (st_inventory s)\<rparr>)
    = add_mset (inv_ownedMachineId (f r), inv_userId (f r), INVENTORY)
        (children (s\<lparr>st_inventory := delete_where (\<lambda>q. inv_id q = inv_id r) (st_inventory s)\<rparr>))"
  unfolding children_def by (simp add: mset_update_key [OF assms])

lemma children_userMiners_split:
  assumes "unique_key um_id (st_userMiners s)" and "r \<in> set (st_userMiners s)"
  shows "children s = add_mset (um_ownedMachineId r, um_userId r, RACK)
    (children (s\<lparr>st_userMiners := delete_where (\<lambda>q. um_id q = um_id r) (st_userMiners s)\<rparr>))"
  unfolding children_def by (subst mset_delete_key [OF assms]) simp

lemma children_userMiners_update:
  assumes "unique_key um_id (st_userMiners s)" and "r \<in> set (st_userMiners s)"
  shows "children (s\<lparr>st_userMiners := update_where (\<lambda>q. um_id q = um_id r) f (st_userMiners s)\<rparr>)
    = add_mset (um_ownedMachineId (f r), um_userId (f r), RACK)
        (children (s\<lparr>st_userMiners := delete_where (\<lambda>q. um_id q = um_id r) (st_userMiners s)\<rparr>))"
  unfolding children_def by (simp add: mset_update_key [OF assms])

lemma children_vault_split:
  assumes "unique_key vt_id (mc_vault s)" and "r \<in> set (mc_vault s)"
  shows "children s = add_mset (vt_ownedMachineId r, vt_userId r, WAREHOUSE)
    (children (s\<lparr>mc_vault := delete_where (\<lambda>q. vt_id q = vt_id r) (mc_vault s)\<rparr>))"
  unfolding children_def by (subst mset_delete_key [OF assms]) simp

lemma children_vault_update:
  assumes "unique_key vt_id (mc_vault s)" and "r \<in> set (mc_vault s)"
  shows "children (s\<lparr>mc_vault := update_where (\<lambda>q. vt_id q = vt_id r) f (mc_vault s)\<rparr>)
    = add_mset (vt_ownedMachineId (f r), vt_userId (f r), WAREHOUSE)
        (children (s\<lparr>mc_vault := delete_where (\<lambda>q. vt_id q = vt_id r) (mc_vault s)\<rparr>))"
  unfolding children_def by (simp add: mset_update_key [OF assms])

lemma ids_okD:
  assumes "ids_ok s"
  shows "unique_key inv_id (st_inventory s)" "unique_key um_id (st_userMiners s)" "unique_key vt_id (mc_vault s)"
    "unique_key om_id (st_owned s)" "unique_key rk_id (mc_racks s)"
    "r \<in> set (st_inventory s) \<Longrightarrow> inv_id r < st_next s" "m \<in> set (st_userMiners s) \<Longrightarrow> um_id m < st_next s"
    "v \<in> set (mc_vault s) \<Longrightarrow> vt_id v < st_next s" "k \<in> set (mc_racks s) \<Longrightarrow> rk_id k < st_next s"
    "st_next s \<notin> om_id ` set (st_owned s)"
  using assms unfolding ids_ok_def by (auto dest: unique_key_fresh)

subsection \<open>Deleting the row the machine came from\<close>

lemma deleteInventory_law:
  assumes d: "deleteInventory P s = (Inr x, t)" and i: "ids_ok s" and P: "\<And>q. P q \<Longrightarrow> inv_id q = i"
  obtains r where "r \<in> set (st_inventory s)" "inv_id r = i" "P r"
    "children s = add_mset (inv_ownedMachineId r, inv_userId r, INVENTORY) (children t)"
    "\<And>q. q \<in> set (st_inventory t) \<Longrightarrow> inv_id q \<noteq> i"
    "t = s\<lparr>st_inventory := delete_where (\<lambda>q. inv_id q = i) (st_inventory s)\<rparr>" "ids_ok t" "later {} {} {} s t"
proof -
  have ex: "\<exists>r \<in> set (st_inventory s). P r" and t: "t = s\<lparr>st_inventory := delete_where P (st_inventory s)\<rparr>"
    using d unfolding deleteInventory_def by (auto simp: list_ex_iff split: if_splits)
  then obtain r where r: "r \<in> set (st_inventory s)" "P r" by blast
  note u = ids_okD(1) [OF i]
  have c: "delete_where P (st_inventory s) = delete_where (\<lambda>q. inv_id q = i) (st_inventory s)"
    using u r P by (intro delete_where_cong) (metis unique_key_eqD)
  have t': "t = s\<lparr>st_inventory := delete_where (\<lambda>q. inv_id q = i) (st_inventory s)\<rparr>" using t c by simp
  show ?thesis
  proof (rule that [OF r(1) P [OF r(2)] r(2) _ _ t'])
    show "children s = add_mset (inv_ownedMachineId r, inv_userId r, INVENTORY) (children t)"
      using children_inventory_split [OF u r(1)] P [OF r(2)] t' by simp
    show "\<And>q. q \<in> set (st_inventory t) \<Longrightarrow> inv_id q \<noteq> i" using t' by simp
    show "ids_ok t" using i t' unfolding ids_ok_def by (auto intro: unique_key_delete)
    show "later {} {} {} s t" using t' unfolding later_def same_machine_def by auto
  qed
qed

lemma deleteVault_law:
  assumes d: "deleteVault userId i s = (Inr x, t)" and ok: "ids_ok s"
  obtains r where "r \<in> set (mc_vault s)" "vt_id r = i" "vt_userId r = userId"
    "children s = add_mset (vt_ownedMachineId r, vt_userId r, WAREHOUSE) (children t)"
    "\<And>q. q \<in> set (mc_vault t) \<Longrightarrow> vt_id q \<noteq> i"
    "t = s\<lparr>mc_vault := delete_where (\<lambda>q. vt_id q = i) (mc_vault s)\<rparr>" "ids_ok t" "later {} {} {} s t"
proof -
  let ?P = "\<lambda>v. vt_id v = i \<and> vt_userId v = userId"
  have ex: "\<exists>r \<in> set (mc_vault s). ?P r" and t: "t = s\<lparr>mc_vault := delete_where ?P (mc_vault s)\<rparr>"
    using d unfolding deleteVault_def by (auto simp: list_ex_iff split: if_splits)
  then obtain r where r: "r \<in> set (mc_vault s)" "?P r" by blast
  note u = ids_okD(3) [OF ok]
  have c: "delete_where ?P (mc_vault s) = delete_where (\<lambda>q. vt_id q = i) (mc_vault s)"
    using u r by (intro delete_where_cong) (metis unique_key_eqD)
  have t': "t = s\<lparr>mc_vault := delete_where (\<lambda>q. vt_id q = i) (mc_vault s)\<rparr>" using t c by simp
  have rc: "vt_id r = i" "vt_userId r = userId" using r(2) by auto
  show ?thesis
  proof (rule that [OF r(1) rc _ _ t'])
    show "children s = add_mset (vt_ownedMachineId r, vt_userId r, WAREHOUSE) (children t)"
      using children_vault_split [OF u r(1)] rc t' by simp
    show "\<And>q. q \<in> set (mc_vault t) \<Longrightarrow> vt_id q \<noteq> i" using t' by simp
    show "ids_ok t" using ok t' unfolding ids_ok_def by (auto intro: unique_key_delete)
    show "later {} {} {} s t" using t' unfolding later_def same_machine_def by auto
  qed
qed

lemma deleteUserMiner_law:
  assumes d: "deleteUserMiner i s = (Inr x, t)" and ok: "ids_ok s"
  obtains r where "r \<in> set (st_userMiners s)" "um_id r = i"
    "children s = add_mset (um_ownedMachineId r, um_userId r, RACK) (children t)"
    "st_userMiners t = delete_where (\<lambda>q. um_id q = i) (st_userMiners s)"
    "st_inventory t = st_inventory s" "mc_vault t = mc_vault s" "st_owned t = st_owned s" "st_next t = st_next s"
    "ids_ok t" "later {} {} {} s t"
proof -
  let ?s1 = "s\<lparr>st_userMiners := delete_where (\<lambda>m. um_id m = i) (st_userMiners s)\<rparr>"
  have ex: "\<exists>r \<in> set (st_userMiners s). um_id r = i"
    and t: "t = ?s1\<lparr>mc_racks := update_where (\<lambda>k. rk_userMinerId k = Some i) (\<lambda>k. k\<lparr>rk_userMinerId := None\<rparr>) (mc_racks ?s1)\<rparr>"
    using d unfolding deleteUserMiner_def by (auto simp: list_ex_iff split: if_splits)
  then obtain r where r: "r \<in> set (st_userMiners s)" "um_id r = i" by blast
  have q: "quiet ?s1 t" unfolding t by (rule quiet_racks) simp_all
  have i1: "ids_ok ?s1" using ok unfolding ids_ok_def by (auto intro: unique_key_delete)
  have l1: "later {} {} {} s ?s1" unfolding later_def same_machine_def by auto
  show ?thesis
  proof (rule that [OF r])
    show "children s = add_mset (um_ownedMachineId r, um_userId r, RACK) (children t)"
      using children_userMiners_split [OF ids_okD(2) [OF ok] r(1)] r(2) quiet_children [OF q] by simp
    show "ids_ok t" using q i1 unfolding quiet_def by blast
    show "later {} {} {} s t" using q l1 unfolding quiet_def by (blast intro: later_trans)
  qed (simp_all add: t)
qed

subsection \<open>Making sure a child has a canonical row\<close>

lemma registered_new_child:
  assumes r: "reg_ok (children s) (st_owned s)" and n: "n \<notin> om_id ` set (st_owned s)"
    and s: "children s = add_mset (None, u, l) D"
    and t: "children t = add_mset (Some n, u, l) D"
      "st_owned t = st_owned s @ [\<lparr>om_id = n, om_userId = u, om_location = l', om_snap = sn\<rparr>]" and l: "l' = l"
  shows "reg_ok (children t) (st_owned t) \<and> owners t = owners s"
proof -
  have "reg_ok D (st_owned s)" using r s by (metis mset_subset_eq_add_right add_mset_add_single reg_ok_subset union_commute)
  then show ?thesis using reg_ok_new [OF _ n] s t l by (simp add: owners_def)
qed

lemma ensure_inventory:
  assumes ok: "registered s" and e: "ensureOwnedMachineForInventoryTx item s = (Inr om, t)"
    and read: "\<And>q. q \<in> set (st_inventory s) \<Longrightarrow> inv_id q = inv_id item \<Longrightarrow> q = item"
    and present: "q0 \<in> set (st_inventory t)" "inv_id q0 = inv_id item"
  shows "registered t" and "owners t = owners s"
    and "st_userMiners t = st_userMiners s" and "mc_vault t = mc_vault s" and "mc_racks t = mc_racks s"
    and "later {inv_id item} {} {} s t" and "inv_ownedMachineId q0 = Some om \<and> inv_userId q0 = inv_userId item"
proof -
  have "registered t \<and> owners t = owners s \<and> st_userMiners t = st_userMiners s \<and> mc_vault t = mc_vault s
    \<and> mc_racks t = mc_racks s \<and> later {inv_id item} {} {} s t \<and> inv_ownedMachineId q0 = Some om
    \<and> inv_userId q0 = inv_userId item"
  proof (cases "inv_ownedMachineId item")
    case (Some o')
    then have "t = s" "om = o'" using e unfolding ensureOwnedMachineForInventoryTx_def by auto
    with Some read [OF _ present(2)] present(1) ok show ?thesis by simp
  next
    case None
    let ?n = "st_next s" and ?u = "inv_userId item"
    let ?f = "\<lambda>i. i\<lparr>inv_ownedMachineId := Some ?n\<rparr>"
    let ?own = "\<lparr>om_id = ?n, om_userId = ?u, om_location = INVENTORY, om_snap = inv_snap item\<rparr>"
    have t: "t = s\<lparr>st_owned := st_owned s @ [?own], st_next := ?n + 1,
        st_inventory := update_where (\<lambda>i. inv_id i = inv_id item) ?f (st_inventory s)\<rparr>" and om: "om = ?n"
      using e None unfolding ensureOwnedMachineForInventoryTx_def
      by (auto simp: and_then_Inr_iff split: if_splits dest!: createOwned_InrD)
    have i: "ids_ok s" using ok unfolding registered_def by blast
    note u = ids_okD(1) [OF i]
    have row: "item \<in> set (st_inventory s)" "q0 = ?f item"
    proof -
      have "\<exists>q \<in> set (st_inventory s). q0 = (if inv_id q = inv_id item then ?f q else q)"
        using present(1) unfolding t update_where_def by auto
      then obtain q where q: "q \<in> set (st_inventory s)" "q0 = (if inv_id q = inv_id item then ?f q else q)" by blast
      then have "inv_id q = inv_id item" using present(2) by (auto split: if_splits)
      with read [OF q(1)] q show "item \<in> set (st_inventory s)" "q0 = ?f item" by auto
    qed
    let ?D = "children (s\<lparr>st_inventory := delete_where (\<lambda>q. inv_id q = inv_id item) (st_inventory s)\<rparr>)"
    have cs: "children s = add_mset (None, ?u, INVENTORY) ?D"
      using children_inventory_split [OF u row(1)] None by simp
    have ct: "children t = add_mset (Some ?n, ?u, INVENTORY) ?D"
      using children_inventory_update [OF u row(1), of ?f] unfolding t by (simp add: children_def)
    have "reg_ok (children t) (st_owned t) \<and> owners t = owners s"
      using ok cs ct ids_okD(10) [OF i] unfolding registered_def
      by (intro registered_new_child [where n = ?n and l' = INVENTORY and sn = "inv_snap item"]) (auto simp: t)
    moreover have "ids_ok t"
      using i unfolding t ids_ok_def by (auto dest!: update_where_origin)
    moreover have "later {inv_id item} {} {} s t"
      unfolding t later_def same_machine_def by (auto simp: set_update_where)
    ultimately show ?thesis using row om unfolding registered_def by (simp add: t)
  qed
  then show "registered t" "owners t = owners s" "st_userMiners t = st_userMiners s" "mc_vault t = mc_vault s"
    "mc_racks t = mc_racks s" "later {inv_id item} {} {} s t"
    "inv_ownedMachineId q0 = Some om \<and> inv_userId q0 = inv_userId item" by blast+
qed

lemma ensure_miner:
  assumes ok: "registered s" and e: "ensureOwnedMachineForUserMinerTx m nm s = (Inr om, t)"
    and read: "\<And>q. q \<in> set (st_userMiners s) \<Longrightarrow> um_id q = um_id m \<Longrightarrow> same_machine q m"
    and present: "q0 \<in> set (st_userMiners t)" "um_id q0 = um_id m"
  shows "registered t" and "owners t = owners s"
    and "st_inventory t = st_inventory s" and "mc_vault t = mc_vault s" and "mc_racks t = mc_racks s"
    and "later {} {um_id m} {} s t" and "um_ownedMachineId q0 = Some om \<and> um_userId q0 = um_userId m"
proof -
  have "registered t \<and> owners t = owners s \<and> st_inventory t = st_inventory s \<and> mc_vault t = mc_vault s
    \<and> mc_racks t = mc_racks s \<and> later {} {um_id m} {} s t \<and> um_ownedMachineId q0 = Some om
    \<and> um_userId q0 = um_userId m"
  proof (cases "um_ownedMachineId m")
    case (Some o')
    then have "t = s" "om = o'" using e unfolding ensureOwnedMachineForUserMinerTx_def by auto
    with Some read [OF _ present(2)] present(1) ok show ?thesis by (simp add: same_machine_def)
  next
    case None
    let ?n = "st_next s" and ?u = "um_userId m"
    let ?f = "\<lambda>i. i\<lparr>um_ownedMachineId := Some ?n\<rparr>"
    let ?sn = "rackSnapshot m nm (um_imageUrl m)"
    let ?own = "\<lparr>om_id = ?n, om_userId = ?u, om_location = RACK, om_snap = ?sn\<rparr>"
    have t: "t = s\<lparr>st_owned := st_owned s @ [?own], st_next := ?n + 1,
        st_userMiners := update_where (\<lambda>i. um_id i = um_id m) ?f (st_userMiners s)\<rparr>" and om: "om = ?n"
      using e None unfolding ensureOwnedMachineForUserMinerTx_def
      by (auto simp: and_then_Inr_iff split: if_splits dest!: createOwned_InrD)
    have i: "ids_ok s" using ok unfolding registered_def by blast
    note u = ids_okD(2) [OF i]
    have "\<exists>q \<in> set (st_userMiners s). q0 = (if um_id q = um_id m then ?f q else q)"
      using present(1) unfolding t update_where_def by auto
    then obtain q where q: "q \<in> set (st_userMiners s)" "q0 = (if um_id q = um_id m then ?f q else q)" by blast
    then have qi: "um_id q = um_id m" using present(2) by (auto split: if_splits)
    then have sm: "um_userId q = ?u" "um_ownedMachineId q = None"
      using read [OF q(1)] None unfolding same_machine_def by auto
    let ?D = "children (s\<lparr>st_userMiners := delete_where (\<lambda>q. um_id q = um_id m) (st_userMiners s)\<rparr>)"
    have cs: "children s = add_mset (None, ?u, RACK) ?D"
      using children_userMiners_split [OF u q(1)] sm qi by simp
    have ct: "children t = add_mset (Some ?n, ?u, RACK) ?D"
      using children_userMiners_update [OF u q(1), of ?f] sm qi unfolding t by (simp add: children_def)
    have "reg_ok (children t) (st_owned t) \<and> owners t = owners s"
      using ok cs ct ids_okD(10) [OF i] unfolding registered_def
      by (intro registered_new_child [where n = ?n and l' = RACK and sn = ?sn]) (auto simp: t)
    moreover have "ids_ok t"
      using i unfolding t ids_ok_def by (auto dest!: update_where_origin)
    moreover have "later {} {um_id m} {} s t"
      unfolding t later_def same_machine_def by (auto simp: set_update_where)
    ultimately show ?thesis using q qi sm om unfolding registered_def by (simp add: t)
  qed
  then show "registered t" "owners t = owners s" "st_inventory t = st_inventory s" "mc_vault t = mc_vault s"
    "mc_racks t = mc_racks s" "later {} {um_id m} {} s t"
    "um_ownedMachineId q0 = Some om \<and> um_userId q0 = um_userId m" by blast+
qed

lemma ensure_vault:
  assumes ok: "registered s" and e: "ensureOwnedMachineForVaultTx item s = (Inr om, t)"
    and read: "\<And>q. q \<in> set (mc_vault s) \<Longrightarrow> vt_id q = vt_id item \<Longrightarrow> q = item"
    and present: "q0 \<in> set (mc_vault t)" "vt_id q0 = vt_id item"
  shows "registered t" and "owners t = owners s"
    and "st_userMiners t = st_userMiners s" and "st_inventory t = st_inventory s" and "mc_racks t = mc_racks s"
    and "later {} {} {vt_id item} s t" and "vt_ownedMachineId q0 = Some om \<and> vt_userId q0 = vt_userId item"
proof -
  have "registered t \<and> owners t = owners s \<and> st_userMiners t = st_userMiners s \<and> st_inventory t = st_inventory s
    \<and> mc_racks t = mc_racks s \<and> later {} {} {vt_id item} s t \<and> vt_ownedMachineId q0 = Some om
    \<and> vt_userId q0 = vt_userId item"
  proof (cases "vt_ownedMachineId item")
    case (Some o')
    then have "t = s" "om = o'" using e unfolding ensureOwnedMachineForVaultTx_def by auto
    with Some read [OF _ present(2)] present(1) ok show ?thesis by simp
  next
    case None
    let ?n = "st_next s" and ?u = "vt_userId item"
    let ?f = "\<lambda>i. i\<lparr>vt_ownedMachineId := Some ?n\<rparr>"
    let ?own = "\<lparr>om_id = ?n, om_userId = ?u, om_location = WAREHOUSE, om_snap = vt_snap item\<rparr>"
    have t: "t = s\<lparr>st_owned := st_owned s @ [?own], st_next := ?n + 1,
        mc_vault := update_where (\<lambda>i. vt_id i = vt_id item) ?f (mc_vault s)\<rparr>" and om: "om = ?n"
      using e None unfolding ensureOwnedMachineForVaultTx_def
      by (auto simp: and_then_Inr_iff split: if_splits dest!: createOwned_InrD)
    have i: "ids_ok s" using ok unfolding registered_def by blast
    note u = ids_okD(3) [OF i]
    have "\<exists>q \<in> set (mc_vault s). q0 = (if vt_id q = vt_id item then ?f q else q)"
      using present(1) unfolding t update_where_def by auto
    then obtain q where q: "q \<in> set (mc_vault s)" "q0 = (if vt_id q = vt_id item then ?f q else q)" by blast
    then have "vt_id q = vt_id item" using present(2) by (auto split: if_splits)
    with read [OF q(1)] q have row: "item \<in> set (mc_vault s)" "q0 = ?f item" by auto
    let ?D = "children (s\<lparr>mc_vault := delete_where (\<lambda>q. vt_id q = vt_id item) (mc_vault s)\<rparr>)"
    have cs: "children s = add_mset (None, ?u, WAREHOUSE) ?D"
      using children_vault_split [OF u row(1)] None by simp
    have ct: "children t = add_mset (Some ?n, ?u, WAREHOUSE) ?D"
      using children_vault_update [OF u row(1), of ?f] unfolding t by (simp add: children_def)
    have "reg_ok (children t) (st_owned t) \<and> owners t = owners s"
      using ok cs ct ids_okD(10) [OF i] unfolding registered_def
      by (intro registered_new_child [where n = ?n and l' = WAREHOUSE and sn = "vt_snap item"]) (auto simp: t)
    moreover have "ids_ok t"
      using i unfolding t ids_ok_def by (auto dest!: update_where_origin)
    moreover have "later {} {} {vt_id item} s t"
      unfolding t later_def same_machine_def by (auto simp: set_update_where)
    ultimately show ?thesis using row om unfolding registered_def by (simp add: t)
  qed
  then show "registered t" "owners t = owners s" "st_userMiners t = st_userMiners s" "st_inventory t = st_inventory s"
    "mc_racks t = mc_racks s" "later {} {} {vt_id item} s t"
    "vt_ownedMachineId q0 = Some om \<and> vt_userId q0 = vt_userId item" by blast+
qed

subsection \<open>Putting it into another table\<close>

text \<open>After a create and a sync, with the old child still there, deleting the old child is a transfer.\<close>

lemma transfer:
  assumes ok: "reg_ok (children s1) rows"
    and created: "children s2 = add_mset (Some om, u, l') (children s1)"
    and deleted: "children s2 = add_mset (Some om, u, l) (children t)" and l: "l' \<noteq> l"
    and synced: "st_owned t = update_where (\<lambda>r. om_id r = om) (\<lambda>r. r\<lparr>om_location := l', om_snap := sn\<rparr>) rows"
  shows "reg_ok (children t) (st_owned t)" and "owners t = owners s1"
proof -
  have "add_mset (Some om, u, l') (children s1) = add_mset (Some om, u, l) (children t)"
    using created deleted by simp
  then obtain D where D: "children s1 = add_mset (Some om, u, l) D" "children t = add_mset (Some om, u, l') D"
    using l unfolding add_eq_conv_ex by auto
  show "reg_ok (children t) (st_owned t)"
    using reg_ok_transfer [of om u l D rows l' sn] ok D synced by simp
  show "owners t = owners s1" using D by (simp add: owners_def)
qed

lemma createInventory_law:
  assumes c: "createInventory u sn a x om s = (Inr row, t)"
  shows "children t = add_mset (Some om, u, INVENTORY) (children s)" and "ids_ok s \<Longrightarrow> ids_ok t"
    and "later {} {} {} s t" and "st_userMiners t = st_userMiners s" and "mc_vault t = mc_vault s"
    and "mc_racks t = mc_racks s" and "st_owned t = st_owned s" and "st_miners t = st_miners s"
  using createInventory_InrD(1) [OF c]
  by (auto simp: children_inventory_snoc ids_ok_def later_def same_machine_def)

lemma createUserMiner_law:
  assumes c: "createUserMiner u slot sn om s = (Inr i, t)"
  shows "children t = add_mset (Some om, u, RACK) (children s)" and "ids_ok s \<Longrightarrow> ids_ok t"
    and "later {} {} {} s t" and "st_inventory t = st_inventory s" and "mc_vault t = mc_vault s"
    and "mc_racks t = mc_racks s" and "st_owned t = st_owned s" and "st_miners t = st_miners s"
  using createUserMiner_InrD(2) [OF c]
  by (auto simp: children_userMiners_snoc ids_ok_def later_def same_machine_def)

lemma createVault_law:
  assumes c: "createVault u sn a om s = (Inr i, t)"
  shows "children t = add_mset (Some om, u, WAREHOUSE) (children s)" and "ids_ok s \<Longrightarrow> ids_ok t"
    and "later {} {} {} s t" and "st_inventory t = st_inventory s" and "st_userMiners t = st_userMiners s"
    and "mc_racks t = mc_racks s" and "st_owned t = st_owned s" and "st_miners t = st_miners s"
  using createVault_InrD [OF c]
  by (auto simp: children_vault_snoc ids_ok_def later_def same_machine_def)

lemma sync_law:
  assumes c: "syncOwnedMachineSnapshotTx om l sn s = (Inr i, t)"
  shows "children t = children s" and "ids_ok s \<Longrightarrow> ids_ok t"
    and "later {} {} {} s t" and "st_inventory t = st_inventory s" and "st_userMiners t = st_userMiners s"
    and "mc_vault t = mc_vault s" and "mc_racks t = mc_racks s"
    and "st_owned t = update_where (\<lambda>r. om_id r = om) (\<lambda>r. r\<lparr>om_location := l, om_snap := sn\<rparr>) (st_owned s)"
  using sync_InrD [OF c]
  by (auto simp: ids_ok_def later_def same_machine_def dest!: update_where_origin)

end
