(* ===== verification/MachineMoves.thy ===== *)
theory MachineMoves
  imports MachineTx
begin

section \<open>Every transaction keeps the registry\<close>

subsection \<open>Rows a request has read\<close>

text \<open>
  The row may be gone when the transaction runs; if a row with its id is there, it is the same row
  (for an installed machine: the same machine, perhaps in another slot).
\<close>

definition read_item :: "mc_store \<Rightarrow> inventory_item \<Rightarrow> bool" where
  "read_item s i \<longleftrightarrow> inv_id i < st_next s \<and> (\<forall>q \<in> set (st_inventory s). inv_id q = inv_id i \<longrightarrow> q = i)"

definition read_miner :: "mc_store \<Rightarrow> user_miner \<Rightarrow> bool" where
  "read_miner s m \<longleftrightarrow> um_id m < st_next s \<and> (\<forall>q \<in> set (st_userMiners s). um_id q = um_id m \<longrightarrow> same_machine q m)"

definition read_vault :: "mc_store \<Rightarrow> vault_item \<Rightarrow> bool" where
  "read_vault s v \<longleftrightarrow> vt_id v < st_next s \<and> (\<forall>q \<in> set (mc_vault s). vt_id q = vt_id v \<longrightarrow> q = v)"

definition read_rack :: "mc_store \<Rightarrow> user_rack \<Rightarrow> bool" where
  "read_rack s k \<longleftrightarrow> rk_id k < st_next s \<and> (\<forall>q \<in> set (mc_racks s). rk_id q = rk_id k \<longrightarrow>
     rk_userId q = rk_userId k \<and> rk_roomId q = rk_roomId k)"

lemma same_machine_sym: "same_machine q r \<Longrightarrow> same_machine r q"
  by (simp add: same_machine_def)

lemma read_item_now: "ids_ok s \<Longrightarrow> i \<in> set (st_inventory s) \<Longrightarrow> read_item s i"
  unfolding read_item_def using ids_okD(1) [of s] ids_okD(6) [of s i] by (auto dest: unique_key_eqD)

lemma read_miner_now: "ids_ok s \<Longrightarrow> m \<in> set (st_userMiners s) \<Longrightarrow> read_miner s m"
  unfolding read_miner_def same_machine_def
  using ids_okD(2) [of s] ids_okD(7) [of s m] by (auto dest: unique_key_eqD)

lemma read_vault_now: "ids_ok s \<Longrightarrow> v \<in> set (mc_vault s) \<Longrightarrow> read_vault s v"
  unfolding read_vault_def using ids_okD(3) [of s] ids_okD(8) [of s v] by (auto dest: unique_key_eqD)

lemma read_rack_now: "ids_ok s \<Longrightarrow> k \<in> set (mc_racks s) \<Longrightarrow> read_rack s k"
  unfolding read_rack_def using ids_okD(5) [of s] ids_okD(9) [of s k] by (auto dest: unique_key_eqD)

lemma read_item_later: "later I U V s t \<Longrightarrow> inv_id i \<notin> I \<Longrightarrow> read_item s i \<Longrightarrow> read_item t i"
  unfolding later_def read_item_def by (metis leD order_less_le_trans)

lemma read_vault_later: "later I U V s t \<Longrightarrow> vt_id i \<notin> V \<Longrightarrow> read_vault s i \<Longrightarrow> read_vault t i"
  unfolding later_def read_vault_def by (metis leD order_less_le_trans)

lemma read_miner_later: "later I U V s t \<Longrightarrow> um_id m \<notin> U \<Longrightarrow> read_miner s m \<Longrightarrow> read_miner t m"
  unfolding later_def read_miner_def same_machine_def by (metis leD order_less_le_trans)

lemma read_rack_later: "later I U V s t \<Longrightarrow> read_rack s k \<Longrightarrow> read_rack t k"
  unfolding later_def read_rack_def by (metis leD order_less_le_trans)

subsection \<open>The three kinds of move\<close>

text \<open>What a committed transaction guarantees: the registry, the number of machines of every owner, the rows of others.\<close>

definition conserves :: "mc_store \<Rightarrow> mc_store \<Rightarrow> bool" where
  "conserves s t \<longleftrightarrow> registered t \<and> owners t = owners s \<and> later {} {} {} s t"

lemma conserves_trans: "conserves s t \<Longrightarrow> conserves t u \<Longrightarrow> conserves s u"
  unfolding conserves_def by (auto intro: later_trans)

lemma conserves_quiet: "registered s \<Longrightarrow> quiet s t \<Longrightarrow> conserves s t"
  using quiet_children [of s t] unfolding conserves_def registered_def quiet_def owners_def by auto

definition creates :: "int \<Rightarrow> int \<Rightarrow> machine_location \<Rightarrow> mc_store \<Rightarrow> mc_store \<Rightarrow> bool" where
  "creates om u l s t \<longleftrightarrow> children t = add_mset (Some om, u, l) (children s) \<and> (ids_ok s \<longrightarrow> ids_ok t)
     \<and> later {} {} {} s t \<and> st_owned t = st_owned s"

lemma creates_inventory: "createInventory u sn a x om s = (Inr row, t) \<Longrightarrow> creates om u INVENTORY s t"
  unfolding creates_def using createInventory_law [of u sn a x om s row t] by blast

lemma creates_userMiner: "createUserMiner u slot sn om s = (Inr i, t) \<Longrightarrow> creates om u RACK s t"
  unfolding creates_def using createUserMiner_law [of u slot sn om s i t] by blast

lemma creates_vault: "createVault u sn a om s = (Inr i, t) \<Longrightarrow> creates om u WAREHOUSE s t"
  unfolding creates_def using createVault_law [of u sn a om s i t] by blast

lemma move_core:
  assumes s1: "registered s1" and q1: "quiet s1 s1'" and c: "creates om u l' s1' s2" and q2: "quiet s2 s3"
    and y: "syncOwnedMachineSnapshotTx om l' sn s3 = (Inr y, s4)"
    and d: "children s4 = add_mset (Some om, u, l) (children t)" and l: "l' \<noteq> l"
    and o: "st_owned t = st_owned s4" and i: "ids_ok s4 \<Longrightarrow> ids_ok t"
  shows "registered t" and "owners t = owners s1"
proof -
  have "children s1' = children s1" "st_owned s1' = st_owned s1" "ids_ok s1'"
    using q1 s1 quiet_children [OF q1] unfolding quiet_def registered_def by auto
  moreover from this c have "children s2 = add_mset (Some om, u, l') (children s1)" "st_owned s2 = st_owned s1" "ids_ok s2"
    unfolding creates_def by auto
  moreover from this q2 have "children s3 = children s2" "st_owned s3 = st_owned s2" "ids_ok s3"
    using quiet_children [OF q2] unfolding quiet_def by auto
  ultimately have c4: "children s4 = add_mset (Some om, u, l') (children s1)"
    and o4: "st_owned t = update_where (\<lambda>r. om_id r = om) (\<lambda>r. r\<lparr>om_location := l', om_snap := sn\<rparr>) (st_owned s1)"
    and i4: "ids_ok s4"
    using sync_law [OF y] o by auto
  have r1: "reg_ok (children s1) (st_owned s1)" using s1 unfolding registered_def by blast
  show "registered t" using transfer(1) [OF r1 c4 d l o4] i [OF i4] unfolding registered_def by blast
  show "owners t = owners s1" using transfer(2) [OF r1 c4 d l o4] .
qed

lemma from_inventory:
  assumes ok: "registered s" and read: "read_item s item"
    and e: "ensureOwnedMachineForInventoryTx item s = (Inr om, s1)" and q1: "quiet s1 s1'"
    and c: "creates om u l' s1' s2" and c': "st_inventory s2 = st_inventory s1'" and q2: "quiet s2 s3"
    and y: "syncOwnedMachineSnapshotTx om l' sn s3 = (Inr y, s4)"
    and d: "deleteInventory P s4 = (Inr x, t)" and P: "\<And>q. P q \<Longrightarrow> inv_id q = inv_id item"
    and l: "l' \<noteq> INVENTORY" and u: "inv_userId item = u"
  shows "conserves s t"
proof -
  have same: "st_inventory s4 = st_inventory s1" using q1 q2 c' sync_law(4) [OF y] unfolding quiet_def by simp
  have later14: "later {} {} {} s1 s4"
    using q1 q2 c sync_law(3) [OF y] unfolding quiet_def creates_def by (meson later_trans)
  obtain r where rd: "r \<in> set (st_inventory s1)" "inv_id r = inv_id item"
  proof -
    have "\<exists>r \<in> set (st_inventory s4). P r"
      using d unfolding deleteInventory_def by (auto simp: list_ex_iff split: if_splits)
    then show ?thesis using that same P by auto
  qed
  note en = ensure_inventory [OF ok e _ rd] 
  have rq: "\<And>q. q \<in> set (st_inventory s) \<Longrightarrow> inv_id q = inv_id item \<Longrightarrow> q = item"
    using read unfolding read_item_def by blast
  note s1 = en(1) [OF rq]
  have i4: "ids_ok s4"
    using s1 q1 c q2 sync_law(2) [OF y] unfolding registered_def quiet_def creates_def by blast
  show ?thesis
  proof (rule deleteInventory_law [OF d i4 P])
    fix r' assume r': "r' \<in> set (st_inventory s4)" "inv_id r' = inv_id item"
      and d4: "children s4 = add_mset (inv_ownedMachineId r', inv_userId r', INVENTORY) (children t)"
      and gone: "\<And>q. q \<in> set (st_inventory t) \<Longrightarrow> inv_id q \<noteq> inv_id item"
      and t: "t = s4\<lparr>st_inventory := delete_where (\<lambda>q. inv_id q = inv_id item) (st_inventory s4)\<rparr>"
      and it: "ids_ok t" and lt: "later {} {} {} s4 t"
    have "r' \<in> set (st_inventory s1)" using r'(1) same by simp
    from ensure_inventory(7) [OF ok e rq this r'(2)] have d4': "children s4 = add_mset (Some om, u, INVENTORY) (children t)"
      using d4 u by simp
    have o: "st_owned t = st_owned s4" by (simp add: t)
    note mv = move_core [OF s1 q1 c q2 y d4' l o it]
    have "later {inv_id item} {} {} s t"
      using en(6) [OF rq] later_mono [OF later14] later_mono [OF lt] by (meson later_trans empty_subsetI)
    then have "later {} {} {} s t" by (rule later_close) (use gone in auto)
    then show ?thesis using mv en(2) [OF rq] unfolding conserves_def by simp
  qed
qed

lemma from_miner:
  assumes ok: "registered s" and read: "read_miner s m"
    and e: "ensureOwnedMachineForUserMinerTx m nm s = (Inr om, s1)" and q1: "quiet s1 s1'"
    and c: "creates om u l' s1' s2" and c': "st_userMiners s2 = st_userMiners s1'" and q2: "quiet s2 s3"
    and y: "syncOwnedMachineSnapshotTx om l' sn s3 = (Inr y, s4)"
    and d: "deleteUserMiner (um_id m) s4 = (Inr x, t)"
    and l: "l' \<noteq> RACK" and u: "um_userId m = u"
  shows "conserves s t"
proof -
  have same: "st_userMiners s4 = st_userMiners s1" using q1 q2 c' sync_law(5) [OF y] unfolding quiet_def by simp
  have later14: "later {} {} {} s1 s4"
    using q1 q2 c sync_law(3) [OF y] unfolding quiet_def creates_def by (meson later_trans)
  obtain r where rd: "r \<in> set (st_userMiners s1)" "um_id r = um_id m"
  proof -
    have "\<exists>r \<in> set (st_userMiners s4). um_id r = um_id m"
      using d unfolding deleteUserMiner_def by (auto simp: list_ex_iff split: if_splits)
    then show ?thesis using that same by auto
  qed
  have rq: "\<And>q. q \<in> set (st_userMiners s) \<Longrightarrow> um_id q = um_id m \<Longrightarrow> same_machine q m"
    using read unfolding read_miner_def by blast
  note en = ensure_miner [OF ok e rq rd]
  have i4: "ids_ok s4"
    using en(1) q1 c q2 sync_law(2) [OF y] unfolding registered_def quiet_def creates_def by blast
  show ?thesis
  proof (rule deleteUserMiner_law [OF d i4])
    fix r' assume r': "r' \<in> set (st_userMiners s4)" "um_id r' = um_id m"
      and d4: "children s4 = add_mset (um_ownedMachineId r', um_userId r', RACK) (children t)"
      and t: "st_userMiners t = delete_where (\<lambda>q. um_id q = um_id m) (st_userMiners s4)"
      and o: "st_owned t = st_owned s4" and it: "ids_ok t" and lt: "later {} {} {} s4 t"
    have "r' \<in> set (st_userMiners s1)" using r'(1) same by simp
    from ensure_miner(7) [OF ok e rq this r'(2)] have d4': "children s4 = add_mset (Some om, u, RACK) (children t)"
      using d4 u by simp
    note mv = move_core [OF en(1) q1 c q2 y d4' l o it]
    have "later {} {um_id m} {} s t"
      using en(6) later_mono [OF later14] later_mono [OF lt] by (meson later_trans empty_subsetI)
    then have "later {} {} {} s t" by (rule later_close) (auto simp: t)
    then show ?thesis using mv en(2) unfolding conserves_def by simp
  qed
qed

lemma from_vault:
  assumes ok: "registered s" and read: "read_vault s item"
    and e: "ensureOwnedMachineForVaultTx item s = (Inr om, s1)"
    and c: "creates om u l' s1 s2" and c': "mc_vault s2 = mc_vault s1"
    and y: "syncOwnedMachineSnapshotTx om l' sn s2 = (Inr y, s4)"
    and d: "deleteVault u (vt_id item) s4 = (Inr x, t)"
    and l: "l' \<noteq> WAREHOUSE" and u: "vt_userId item = u"
  shows "conserves s t"
proof -
  have same: "mc_vault s4 = mc_vault s1" using c' sync_law(6) [OF y] by simp
  have later14: "later {} {} {} s1 s4"
    using c sync_law(3) [OF y] unfolding creates_def by (meson later_trans)
  obtain r where rd: "r \<in> set (mc_vault s1)" "vt_id r = vt_id item"
  proof -
    have "\<exists>r \<in> set (mc_vault s4). vt_id r = vt_id item"
      using d unfolding deleteVault_def by (auto simp: list_ex_iff split: if_splits)
    then show ?thesis using that same by auto
  qed
  have rq: "\<And>q. q \<in> set (mc_vault s) \<Longrightarrow> vt_id q = vt_id item \<Longrightarrow> q = item"
    using read unfolding read_vault_def by blast
  note en = ensure_vault [OF ok e rq rd]
  have i4: "ids_ok s4"
    using en(1) c sync_law(2) [OF y] unfolding registered_def creates_def by blast
  show ?thesis
  proof (rule deleteVault_law [OF d i4])
    fix r' assume r': "r' \<in> set (mc_vault s4)" "vt_id r' = vt_id item"
      and d4: "children s4 = add_mset (vt_ownedMachineId r', vt_userId r', WAREHOUSE) (children t)"
      and gone: "\<And>q. q \<in> set (mc_vault t) \<Longrightarrow> vt_id q \<noteq> vt_id item"
      and t: "t = s4\<lparr>mc_vault := delete_where (\<lambda>q. vt_id q = vt_id item) (mc_vault s4)\<rparr>"
      and it: "ids_ok t" and lt: "later {} {} {} s4 t"
    have "r' \<in> set (mc_vault s1)" using r'(1) same by simp
    from ensure_vault(7) [OF ok e rq this r'(2)] have d4': "children s4 = add_mset (Some om, u, WAREHOUSE) (children t)"
      using d4 u by simp
    have o: "st_owned t = st_owned s4" by (simp add: t)
    note mv = move_core [OF en(1) quiet_refl c quiet_refl y d4' l o it]
    have "later {} {} {vt_id item} s t"
      using en(6) later_mono [OF later14] later_mono [OF lt] by (meson later_trans empty_subsetI)
    then have "later {} {} {} s t" by (rule later_close) (use gone in auto)
    then show ?thesis using mv en(2) unfolding conserves_def by simp
  qed
qed

end
