(* ===== verification/MachineRacks.thy ===== *)
theory MachineRacks
  imports MachineMoves
begin

section \<open>Racks and the machines they refer to\<close>

text \<open>
  \<open>user_racks\<close> refers to installed machines twice: the machine a rack holds, and the machine of
  another rack that blocks it.  Only the first is a foreign key.  \<open>racks_ok\<close>: both refer to machines
  that exist, the first to a machine of the rack's owner, and a machine blocks racks only in the
  room that holds it.
\<close>

definition racks_ok :: "mc_store \<Rightarrow> bool" where
  "racks_ok s \<longleftrightarrow>
     (\<forall>k \<in> set (mc_racks s). \<forall>i. rk_userMinerId k = Some i \<longrightarrow>
        (\<exists>m \<in> set (st_userMiners s). um_id m = i \<and> um_userId m = rk_userId k))
   \<and> (\<forall>k \<in> set (mc_racks s). \<forall>i. rk_blockedByMinerId k = Some i \<longrightarrow> (\<exists>m \<in> set (st_userMiners s). um_id m = i))
   \<and> (\<forall>k \<in> set (mc_racks s). \<forall>q \<in> set (mc_racks s). \<forall>i. rk_userMinerId k = Some i \<longrightarrow>
        rk_blockedByMinerId q = Some i \<longrightarrow> rk_roomId q = rk_roomId k)"

lemma racks_okD:
  assumes "racks_ok s"
  shows "k \<in> set (mc_racks s) \<Longrightarrow> rk_userMinerId k = Some i \<Longrightarrow> \<exists>m \<in> set (st_userMiners s). um_id m = i \<and> um_userId m = rk_userId k"
    and "k \<in> set (mc_racks s) \<Longrightarrow> rk_blockedByMinerId k = Some i \<Longrightarrow> \<exists>m \<in> set (st_userMiners s). um_id m = i"
    and "k \<in> set (mc_racks s) \<Longrightarrow> q \<in> set (mc_racks s) \<Longrightarrow> rk_userMinerId k = Some i \<Longrightarrow>
        rk_blockedByMinerId q = Some i \<Longrightarrow> rk_roomId q = rk_roomId k"
  using assms unfolding racks_ok_def by blast+

lemma racks_okI:
  assumes "\<And>k i. k \<in> set (mc_racks s) \<Longrightarrow> rk_userMinerId k = Some i \<Longrightarrow> \<exists>m \<in> set (st_userMiners s). um_id m = i \<and> um_userId m = rk_userId k"
    and "\<And>k i. k \<in> set (mc_racks s) \<Longrightarrow> rk_blockedByMinerId k = Some i \<Longrightarrow> \<exists>m \<in> set (st_userMiners s). um_id m = i"
    and "\<And>k q i. k \<in> set (mc_racks s) \<Longrightarrow> q \<in> set (mc_racks s) \<Longrightarrow> rk_userMinerId k = Some i \<Longrightarrow>
        rk_blockedByMinerId q = Some i \<Longrightarrow> rk_roomId q = rk_roomId k"
  shows "racks_ok s"
  using assms unfolding racks_ok_def by blast

definition unblocked :: "int \<Rightarrow> mc_store \<Rightarrow> bool" where
  "unblocked i s \<longleftrightarrow> (\<forall>k \<in> set (mc_racks s). rk_blockedByMinerId k \<noteq> Some i)"

text \<open>The machine blocks racks of this room only.\<close>

definition blocks_only :: "int \<Rightarrow> int \<Rightarrow> mc_store \<Rightarrow> bool" where
  "blocks_only i roomId s \<longleftrightarrow> (\<forall>k \<in> set (mc_racks s). rk_blockedByMinerId k = Some i \<longrightarrow> rk_roomId k = roomId)"

text \<open>References only disappear, except those to machines created since.\<close>

definition rack_step :: "mc_store \<Rightarrow> mc_store \<Rightarrow> bool" where
  "rack_step s t \<longleftrightarrow> st_next s \<le> st_next t \<and> (\<forall>k \<in> set (mc_racks t). \<forall>i. i < st_next s \<longrightarrow> rk_blockedByMinerId k = Some i \<longrightarrow>
     (\<exists>q \<in> set (mc_racks s). rk_roomId q = rk_roomId k \<and> rk_blockedByMinerId q = Some i))"

lemma rack_step_refl [simp]: "rack_step s s"
  unfolding rack_step_def by blast

lemma rack_step_trans:
  assumes a: "rack_step s t" and b: "rack_step t u"
  shows "rack_step s u"
  unfolding rack_step_def
proof (intro conjI ballI allI impI)
  show "st_next s \<le> st_next u" using a b unfolding rack_step_def by simp
  fix k i assume k: "k \<in> set (mc_racks u)" "i < st_next s" "rk_blockedByMinerId k = Some i"
  have "i < st_next t" using a k(2) unfolding rack_step_def by simp
  with b k obtain q where q: "q \<in> set (mc_racks t)" "rk_roomId q = rk_roomId k" "rk_blockedByMinerId q = Some i"
    unfolding rack_step_def by blast
  with a k(2) obtain p where "p \<in> set (mc_racks s)" "rk_roomId p = rk_roomId q" "rk_blockedByMinerId p = Some i"
    unfolding rack_step_def by blast
  with q show "\<exists>q\<in>set (mc_racks s). rk_roomId q = rk_roomId k \<and> rk_blockedByMinerId q = Some i" by auto
qed

lemma rack_step_same: "mc_racks t = mc_racks s \<Longrightarrow> st_next s \<le> st_next t \<Longrightarrow> rack_step s t"
  unfolding rack_step_def by auto

lemma blocks_only_step: "blocks_only i r s \<Longrightarrow> rack_step s t \<Longrightarrow> i < st_next s \<Longrightarrow> blocks_only i r t"
  unfolding blocks_only_def rack_step_def by metis

lemma unblocked_step: "unblocked i s \<Longrightarrow> rack_step s t \<Longrightarrow> i < st_next s \<Longrightarrow> unblocked i t"
  unfolding unblocked_def rack_step_def by metis

subsection \<open>Statements\<close>

text \<open>Machines may be added or change everything but id and owner.\<close>

definition more_machines :: "mc_store \<Rightarrow> mc_store \<Rightarrow> bool" where
  "more_machines s t \<longleftrightarrow> (\<lambda>m. (um_id m, um_userId m)) ` set (st_userMiners s) \<subseteq> (\<lambda>m. (um_id m, um_userId m)) ` set (st_userMiners t)"

lemma racks_ok_more:
  assumes "racks_ok s" and "more_machines s t" and "mc_racks t = mc_racks s"
  shows "racks_ok t"
proof -
  have a: "\<exists>m' \<in> set (st_userMiners t). um_id m' = um_id m \<and> um_userId m' = um_userId m"
    if "m \<in> set (st_userMiners s)" for m
    using that assms(2) unfolding more_machines_def by (auto dest!: subsetD [where c = "(um_id m, um_userId m)"])
  show ?thesis
  proof (rule racks_okI)
    fix k i assume "k \<in> set (mc_racks t)" "rk_userMinerId k = Some i"
    with racks_okD(1) [OF assms(1), of k i] assms(3)
    obtain m where "m \<in> set (st_userMiners s)" "um_id m = i" "um_userId m = rk_userId k" by auto
    with a show "\<exists>m \<in> set (st_userMiners t). um_id m = i \<and> um_userId m = rk_userId k" by metis
  next
    fix k i assume "k \<in> set (mc_racks t)" "rk_blockedByMinerId k = Some i"
    with racks_okD(2) [OF assms(1), of k i] assms(3)
    obtain m where "m \<in> set (st_userMiners s)" "um_id m = i" by auto
    with a show "\<exists>m \<in> set (st_userMiners t). um_id m = i" by metis
  next
    fix k q i assume "k \<in> set (mc_racks t)" "q \<in> set (mc_racks t)" "rk_userMinerId k = Some i" "rk_blockedByMinerId q = Some i"
    with racks_okD(3) [OF assms(1), of k q i] assms(3) show "rk_roomId q = rk_roomId k" by simp
  qed
qed

text \<open>An update of the racks that only clears references.\<close>

definition clears :: "(user_rack \<Rightarrow> user_rack) \<Rightarrow> bool" where
  "clears f \<longleftrightarrow> (\<forall>k. rk_id (f k) = rk_id k \<and> rk_userId (f k) = rk_userId k \<and> rk_roomId (f k) = rk_roomId k
     \<and> (rk_userMinerId (f k) = None \<or> rk_userMinerId (f k) = rk_userMinerId k)
     \<and> (rk_blockedByMinerId (f k) = None \<or> rk_blockedByMinerId (f k) = rk_blockedByMinerId k))"

lemma clears_origin:
  assumes "clears f" and "k \<in> set (update_where P f rows)"
  obtains q where "q \<in> set rows" "rk_userId q = rk_userId k" "rk_roomId q = rk_roomId k"
    "\<And>i. rk_userMinerId k = Some i \<Longrightarrow> rk_userMinerId q = Some i"
    "\<And>i. rk_blockedByMinerId k = Some i \<Longrightarrow> rk_blockedByMinerId q = Some i"
proof -
  obtain q where q: "q \<in> set rows" "k = q \<or> k = f q" using assms(2) by (auto dest!: update_where_origin)
  show ?thesis
    by (rule that [OF q(1)]) (use q(2) assms(1) in \<open>auto simp: clears_def\<close>, metis option.distinct(1), metis option.distinct(1))
qed

lemma racks_ok_clear:
  assumes ok: "racks_ok s" and f: "clears f" and t: "mc_racks t = update_where P f (mc_racks s)"
    and m: "st_userMiners t = st_userMiners s"
  shows "racks_ok t"
proof (rule racks_okI; unfold m t)
  fix k i assume k: "k \<in> set (update_where P f (mc_racks s))" and i: "rk_userMinerId k = Some i"
  obtain q where "q \<in> set (mc_racks s)" "rk_userId q = rk_userId k" "rk_userMinerId q = Some i"
    using clears_origin [OF f k] i by metis
  with racks_okD(1) [OF ok, of q i] show "\<exists>m\<in>set (st_userMiners s). um_id m = i \<and> um_userId m = rk_userId k" by simp
next
  fix k i assume k: "k \<in> set (update_where P f (mc_racks s))" and i: "rk_blockedByMinerId k = Some i"
  obtain q where "q \<in> set (mc_racks s)" "rk_blockedByMinerId q = Some i"
    using clears_origin [OF f k] i by metis
  with racks_okD(2) [OF ok, of q i] show "\<exists>m\<in>set (st_userMiners s). um_id m = i" by simp
next
  fix k q i assume k: "k \<in> set (update_where P f (mc_racks s))" and q: "q \<in> set (update_where P f (mc_racks s))"
    and i: "rk_userMinerId k = Some i" and j: "rk_blockedByMinerId q = Some i"
  obtain k' where "k' \<in> set (mc_racks s)" "rk_roomId k' = rk_roomId k" "rk_userMinerId k' = Some i"
    using clears_origin [OF f k] i by metis
  moreover obtain q' where "q' \<in> set (mc_racks s)" "rk_roomId q' = rk_roomId q" "rk_blockedByMinerId q' = Some i"
    using clears_origin [OF f q] j by metis
  ultimately show "rk_roomId q = rk_roomId k" using racks_okD(3) [OF ok, of k' q' i] by simp
qed

lemma rack_step_clear:
  assumes "clears f" and "mc_racks t = update_where P f (mc_racks s)" and "st_next t = st_next s"
  shows "rack_step s t"
  unfolding rack_step_def assms(2,3)
proof (intro conjI ballI allI impI)
  fix k i assume "k \<in> set (update_where P f (mc_racks s))" "rk_blockedByMinerId k = Some i"
  then show "\<exists>q\<in>set (mc_racks s). rk_roomId q = rk_roomId k \<and> rk_blockedByMinerId q = Some i"
    using clears_origin [OF assms(1)] by metis
qed simp

text \<open>Deleting a machine that blocks nothing.\<close>

lemma racks_ok_delete:
  assumes ok: "racks_ok s" and d: "deleteUserMiner i s = (Inr x, t)" and b: "unblocked i s"
  shows "racks_ok t" and "rack_step s t"
proof -
  let ?f = "\<lambda>k. k\<lparr>rk_userMinerId := None :: int option\<rparr>" and ?P = "\<lambda>k. rk_userMinerId k = Some i"
  let ?u = "s\<lparr>mc_racks := update_where ?P ?f (mc_racks s)\<rparr>"
  have f: "clears ?f" by (simp add: clears_def)
  have t: "t = ?u\<lparr>st_userMiners := delete_where (\<lambda>m. um_id m = i) (st_userMiners s)\<rparr>"
    using d unfolding deleteUserMiner_def by (auto split: if_splits)
  have u: "racks_ok ?u" by (rule racks_ok_clear [OF ok f]) simp_all
  have h: "rk_userMinerId k \<noteq> Some i" "rk_blockedByMinerId k \<noteq> Some i" if "k \<in> set (mc_racks ?u)" for k
    using that b by (auto simp: set_update_where unblocked_def)
  have rt: "mc_racks t = mc_racks ?u" "st_userMiners t = delete_where (\<lambda>m. um_id m = i) (st_userMiners s)"
    "st_userMiners ?u = st_userMiners s" by (simp_all add: t)
  show "racks_ok t"
  proof (rule racks_okI; unfold rt(1,2))
    fix k j assume k: "k \<in> set (mc_racks ?u)" and j: "rk_userMinerId k = Some j"
    from racks_okD(1) [OF u k j] h(1) [OF k] j
    show "\<exists>m\<in>set (delete_where (\<lambda>m. um_id m = i) (st_userMiners s)). um_id m = j \<and> um_userId m = rk_userId k"
      unfolding rt(3) by auto
  next
    fix k j assume k: "k \<in> set (mc_racks ?u)" and j: "rk_blockedByMinerId k = Some j"
    from racks_okD(2) [OF u k j] h(2) [OF k] j
    show "\<exists>m\<in>set (delete_where (\<lambda>m. um_id m = i) (st_userMiners s)). um_id m = j" unfolding rt(3) by auto
  next
    fix k q j assume "k \<in> set (mc_racks ?u)" "q \<in> set (mc_racks ?u)" "rk_userMinerId k = Some j" "rk_blockedByMinerId q = Some j"
    then show "rk_roomId q = rk_roomId k" by (rule racks_okD(3) [OF u])
  qed
  show "rack_step s t" by (rule rack_step_clear [OF f]) (simp_all add: t)
qed

lemma release_law:
  assumes r: "releaseUserMinerFromRacksTx i s = (Inr x, t)"
  shows "racks_ok s \<Longrightarrow> racks_ok t" and "rack_step s t" and "unblocked i t" and "st_next t = st_next s"
proof -
  let ?f = "\<lambda>k. k\<lparr>rk_userMinerId := None :: int option, rk_installedAt := None :: millis option\<rparr>"
  let ?g = "\<lambda>k. k\<lparr>rk_blockedByMinerId := None :: int option\<rparr>"
  let ?u = "s\<lparr>mc_racks := update_where (\<lambda>k. rk_userMinerId k = Some i) ?f (mc_racks s)\<rparr>"
  have t: "t = ?u\<lparr>mc_racks := update_where (\<lambda>k. rk_blockedByMinerId k = Some i) ?g (mc_racks ?u)\<rparr>"
    using release_InrD [OF r] by simp
  have f: "clears ?f" and g: "clears ?g" by (simp_all add: clears_def)
  show "racks_ok t" if "racks_ok s"
  proof -
    have "racks_ok ?u" by (rule racks_ok_clear [OF that f]) simp_all
    then show ?thesis by (rule racks_ok_clear [OF _ g]) (simp_all add: t)
  qed
  have "rack_step s ?u" by (rule rack_step_clear [OF f]) simp_all
  moreover have "rack_step ?u t" by (rule rack_step_clear [OF g]) (simp_all add: t)
  ultimately show "rack_step s t" by (rule rack_step_trans)
  show "unblocked i t" unfolding unblocked_def t by (auto simp: set_update_where)
  show "st_next t = st_next s" by (simp add: t)
qed

end
