(* ===== verification/MachineTasks.thy ===== *)
theory MachineTasks
  imports MachineRacks
begin

section \<open>Requests that interleave\<close>

text \<open>
  A request reads and validates (it becomes a task that carries what it read), and later its
  transaction runs.  Between the two any other transaction may commit.  \<open>TGrant\<close> stands for the
  components that give a user a machine through \<open>createInventoryWithOwnedMachineTx\<close>.
\<close>

datatype mc_task =
  TBuyRoom int int number
| TInstall int install_plan
| TUninstall int user_rack user_miner snapshot
| TStore int vault_plan
| TRetrieve int vault_destination retrieve_plan
| TRemove int user_miner snapshot
| TMove int int int "(user_miner \<times> snapshot) list"
| TInstallItem int inventory_item int "(user_miner \<times> snapshot) list"
| TRemoveItem int int
| TToggle int bool
| TGrant int snapshot "millis option"
| TCleanup

text \<open>\<open>server/cron/gamePowerCleanup.js\<close>: inventory rows past their expiry are deleted, the canonical rows stay.\<close>

definition cleanupExpiredInventory :: "millis \<Rightarrow> (db_failure, unit, mc_store) program" where
  "cleanupExpiredInventory now s = (Inr (), s\<lparr>st_inventory := delete_where
     (\<lambda>i. case inv_expiresAt i of None \<Rightarrow> False | Some e \<Rightarrow> e < now) (st_inventory s)\<rparr>)"

definition forget :: "(db_failure, 'a, mc_store) program \<Rightarrow> (db_failure, unit, mc_store) program" where
  "forget m = and_then m (\<lambda>_. ret ())"

fun runTask :: "(number \<Rightarrow> dec8) \<Rightarrow> room_config \<Rightarrow> millis \<Rightarrow> mc_task \<Rightarrow> (db_failure, unit, mc_store) program" where
  "runTask dec8_of cfg now (TBuyRoom u n price) = forget (buyRoomTx dec8_of cfg u n price)"
| "runTask dec8_of cfg now (TInstall u p) = installMinerTx u p now"
| "runTask dec8_of cfg now (TUninstall u k m sn) = uninstallMinerTx u k m sn now"
| "runTask dec8_of cfg now (TStore u p) = moveToVaultTx u p now"
| "runTask dec8_of cfg now (TRetrieve u d p) = retrieveTx u d p now"
| "runTask dec8_of cfg now (TRemove u m sn) = removeMachineTx u m sn now"
| "runTask dec8_of cfg now (TMove u i slot ds) = moveMachineTx u i slot ds now"
| "runTask dec8_of cfg now (TInstallItem u item slot ds) = installItemTx u item slot ds now"
| "runTask dec8_of cfg now (TRemoveItem u i) = removeItemTx u i"
| "runTask dec8_of cfg now (TToggle i a) = updateMachineActive i a"
| "runTask dec8_of cfg now (TGrant u sn x) = forget (createInventoryWithOwnedMachineTx u sn now x)"
| "runTask dec8_of cfg now TCleanup = cleanupExpiredInventory now"

inductive planned :: "room_config \<Rightarrow> mc_store \<Rightarrow> mc_task \<Rightarrow> bool" for cfg :: room_config and s :: mc_store where
  "buyRoomPlan cfg u s = Inr (n, price) \<Longrightarrow> planned cfg s (TBuyRoom u n price)"
| "installMinerPlan cfg u a b s = Inr p \<Longrightarrow> planned cfg s (TInstall u p)"
| "uninstallMinerPlan u a s = Inr (k, m, sn) \<Longrightarrow> planned cfg s (TUninstall u k m sn)"
| "moveToVaultPlan u src i s = Inr p \<Longrightarrow> planned cfg s (TStore u p)"
| "retrievePlan u d i s = Inr p \<Longrightarrow> planned cfg s (TRetrieve u d p)"
| "getMachineById u i s = Some m \<Longrightarrow> planned cfg s (TRemove u m (displaySnapshot m s))"
| "moveMachinePlan u i a s = Inr (m, slot, ds) \<Longrightarrow> planned cfg s (TMove u i slot ds)"
| "installItemPlan u a i s = Inr (item, slot, ds) \<Longrightarrow> planned cfg s (TInstallItem u item slot ds)"
| "planned cfg s (TRemoveItem u i)"
| "getMachineById u i s = Some m \<Longrightarrow> planned cfg s (TToggle i a)"
| "planned cfg s (TGrant u sn x)"
| "planned cfg s TCleanup"

text \<open>The tables and the tasks under way.\<close>

type_synonym mc_world = "mc_store \<times> mc_task list"

inductive mc_step :: "(number \<Rightarrow> dec8) \<Rightarrow> room_config \<Rightarrow> mc_world \<Rightarrow> mc_world \<Rightarrow> bool"
  for dec8_of :: "number \<Rightarrow> dec8" and cfg :: room_config
where
  mc_read: "planned cfg s task \<Longrightarrow> mc_step dec8_of cfg (s, ts) (s, task # ts)"
| mc_commit: "task \<in> set ts \<Longrightarrow>
     mc_step dec8_of cfg (s, ts) (snd (transaction (runTask dec8_of cfg now task) s), remove1 task ts)"

text \<open>A database with users, a catalog and games, where nobody has a machine or a room yet.\<close>

definition mc_init :: "mc_world \<Rightarrow> bool" where
  "mc_init w \<longleftrightarrow> st_inventory (fst w) = [] \<and> st_userMiners (fst w) = [] \<and> mc_vault (fst w) = [] \<and> st_owned (fst w) = []
     \<and> mc_rooms (fst w) = [] \<and> mc_racks (fst w) = [] \<and> snd w = []"

subsection \<open>What a task knows\<close>

definition displaced_ok :: "mc_store \<Rightarrow> int \<Rightarrow> (user_miner \<times> snapshot) list \<Rightarrow> bool" where
  "displaced_ok s u ds \<longleftrightarrow> (\<forall>d \<in> set ds. read_miner s (fst d) \<and> um_userId (fst d) = u)"

fun task_ok :: "mc_store \<Rightarrow> mc_task \<Rightarrow> bool" where
  "task_ok s (TInstall u p) \<longleftrightarrow> read_item s (ip_item p) \<and> inv_userId (ip_item p) = u
     \<and> read_rack s (ip_rack p) \<and> rk_userId (ip_rack p) = u
     \<and> (\<forall>k. ip_adjacent p = Some k \<longrightarrow> read_rack s k \<and> rk_roomId k = rk_roomId (ip_rack p))"
| "task_ok s (TUninstall u k m sn) \<longleftrightarrow> read_miner s m \<and> um_userId m = u \<and> blocks_only (um_id m) (rk_roomId k) s"
| "task_ok s (TStore u (StoreItem i)) \<longleftrightarrow> read_item s i \<and> inv_userId i = u"
| "task_ok s (TStore u (StoreMiner m nm img)) \<longleftrightarrow> read_miner s m \<and> um_userId m = u"
| "task_ok s (TRetrieve u d p) \<longleftrightarrow> read_vault s (rp_item p) \<and> vt_userId (rp_item p) = u \<and> displaced_ok s u (rp_displaced p)"
| "task_ok s (TRemove u m sn) \<longleftrightarrow> read_miner s m \<and> um_userId m = u"
| "task_ok s (TMove u i slot ds) \<longleftrightarrow> displaced_ok s u ds"
| "task_ok s (TInstallItem u item slot ds) \<longleftrightarrow> read_item s item \<and> inv_userId item = u \<and> displaced_ok s u ds"
| "task_ok s _ \<longleftrightarrow> True"

definition sound :: "mc_store \<Rightarrow> mc_store \<Rightarrow> bool" where
  "sound s t \<longleftrightarrow> conserves s t \<and> racks_ok t \<and> rack_step s t"

definition mc_ok :: "mc_store \<Rightarrow> bool" where
  "mc_ok s \<longleftrightarrow> registered s \<and> racks_ok s"

lemma sound_trans: "sound s t \<Longrightarrow> sound t u \<Longrightarrow> sound s u"
  unfolding sound_def by (auto intro: conserves_trans rack_step_trans)

lemma sound_refl: "mc_ok s \<Longrightarrow> sound s s"
  unfolding sound_def mc_ok_def conserves_def by simp

lemma sound_ok: "sound s t \<Longrightarrow> mc_ok t"
  unfolding sound_def mc_ok_def conserves_def by simp

lemma displaced_later: "later {} {} {} s t \<Longrightarrow> displaced_ok s u ds \<Longrightarrow> displaced_ok t u ds"
  unfolding displaced_ok_def by (auto intro: read_miner_later)

lemma blocks_only_miner:
  "blocks_only (um_id m) r s \<Longrightarrow> rack_step s t \<Longrightarrow> read_miner s m \<Longrightarrow> blocks_only (um_id m) r t"
  by (rule blocks_only_step) (auto simp: read_miner_def)

lemma task_ok_step:
  assumes "task_ok s task" and "later {} {} {} s t" and "rack_step s t"
  shows "task_ok t task"
  using assms
  by (cases "(s, task)" rule: task_ok.cases)
    (auto intro: read_item_later read_miner_later read_vault_later read_rack_later displaced_later blocks_only_miner)

text \<open>A task knows what it needs when it has just read.\<close>

lemma displaced_ok_now:
  assumes "ids_ok s"
  shows "displaced_ok s u (map (\<lambda>m. (m, f m)) (filter Q (machinesAt u slots s)))"
    and "displaced_ok s u (map (\<lambda>m. (m, f m)) (machinesAt u slots s))" and "displaced_ok s u []"
  unfolding displaced_ok_def machinesAt_def using assms by (auto intro: read_miner_now)

lemma planned_ok:
  assumes "mc_ok s" and p: "planned cfg s task"
  shows "task_ok s task"
proof -
  have i: "ids_ok s" and r: "racks_ok s" using assms(1) unfolding mc_ok_def registered_def by auto
  note now = read_item_now [OF i] read_miner_now [OF i] read_vault_now [OF i] read_rack_now [OF i]
  note ff = find_first_Some_conj
  show ?thesis using p
  proof cases
    case (2 u a b p)
    then show ?thesis
      by (auto simp: installMinerPlan_def getInventoryItem_def Let_def split: option.splits if_splits dest!: ff intro!: now)
  next
    case (3 u a k m sn)
    then have k: "k \<in> set (mc_racks s)" "rk_userId k = u" "rk_userMinerId k = Some (um_id m)" and m: "m \<in> set (st_userMiners s)"
      by (auto simp: uninstallMinerPlan_def split: option.splits dest!: ff)
    obtain q where "q \<in> set (st_userMiners s)" "um_id q = um_id m" "um_userId q = u"
      using racks_okD(1) [OF r k(1,3)] k(2) by auto
    with m unique_key_eqD [OF ids_okD(2) [OF i]] have "um_userId m = u" by metis
    moreover have "blocks_only (um_id m) (rk_roomId k) s"
      unfolding blocks_only_def using racks_okD(3) [OF r k(1) _ k(3)] by blast
    ultimately show ?thesis using 3 m now by simp
  next
    case (4 u src j p)
    then show ?thesis
      by (auto simp: moveToVaultPlan_def getInventoryItem_def split: option.splits vault_source.splits dest!: ff intro!: now)
  next
    case (5 u d j p)
    then show ?thesis
      by (auto simp: retrievePlan_def getVaultItem_def Let_def
          split: option.splits vault_destination.splits if_splits dest!: ff intro!: now displaced_ok_now [OF i])
  next
    case (6 u j m)
    then show ?thesis by (auto simp: getMachineById_def dest!: ff intro!: now)
  next
    case (7 u j a m slot ds)
    then show ?thesis
      by (auto simp: moveMachinePlan_def Let_def split: option.splits if_splits intro!: displaced_ok_now [OF i])
  next
    case (8 u a j item slot ds)
    then show ?thesis
      by (auto simp: installItemPlan_def getInventoryItem_def Let_def split: option.splits if_splits dest!: ff intro!: now displaced_ok_now [OF i])
  qed simp_all
qed

end
