(* ===== verification/MachineSound.thy ===== *)
theory MachineSound
  imports MachineTasks
begin

section \<open>Every committed transaction is sound\<close>

subsection \<open>Statements that leave the racks alone\<close>

definition calm :: "mc_store \<Rightarrow> mc_store \<Rightarrow> bool" where
  "calm s t \<longleftrightarrow> mc_racks t = mc_racks s \<and> more_machines s t \<and> st_next s \<le> st_next t"

lemma more_machines_refl: "st_userMiners t = st_userMiners s \<Longrightarrow> more_machines s t"
  by (simp add: more_machines_def)

lemma more_machines_trans: "more_machines s t \<Longrightarrow> more_machines t u \<Longrightarrow> more_machines s u"
  unfolding more_machines_def by (rule subset_trans)

lemma calm_trans: "calm s t \<Longrightarrow> calm t u \<Longrightarrow> calm s u"
  unfolding calm_def using more_machines_trans [of s t u] by simp

lemma calm_racks: "calm s t \<Longrightarrow> racks_ok s \<Longrightarrow> racks_ok t \<and> rack_step s t"
  unfolding calm_def using racks_ok_more rack_step_same by blast

lemma calm_createOwned: "createOwned u l sn s = (Inr om, t) \<Longrightarrow> calm s t"
  by (auto simp: calm_def more_machines_def dest!: createOwned_InrD)

lemma calm_createInventory: "createInventory u sn a x om s = (Inr row, t) \<Longrightarrow> calm s t"
  by (auto simp: calm_def more_machines_def dest!: createInventory_InrD(1))

lemma calm_createUserMiner: "createUserMiner u slot sn om s = (Inr i, t) \<Longrightarrow> calm s t"
  by (auto simp: calm_def more_machines_def dest!: createUserMiner_InrD(2))

lemma calm_createVault: "createVault u sn a om s = (Inr i, t) \<Longrightarrow> calm s t"
  by (auto simp: calm_def more_machines_def dest!: createVault_InrD)

lemma calm_sync: "syncOwnedMachineSnapshotTx om l sn s = (Inr i, t) \<Longrightarrow> calm s t"
  by (auto simp: calm_def more_machines_def dest!: sync_InrD)

lemma calm_deleteInventory: "deleteInventory P s = (Inr i, t) \<Longrightarrow> calm s t"
  by (auto simp: calm_def more_machines_def deleteInventory_def split: if_splits)

lemma calm_deleteVault: "deleteVault u i s = (Inr x, t) \<Longrightarrow> calm s t"
  by (auto simp: calm_def more_machines_def deleteVault_def split: if_splits)

lemma image_update_where:
  assumes "\<And>r. g (f r) = g r"
  shows "g ` set (update_where P f rows) = g ` set rows"
  using assms by (induction rows) auto

lemma more_machines_update:
  assumes "\<And>m. um_id (f m) = um_id m" and "\<And>m. um_userId (f m) = um_userId m"
    and "st_userMiners t = update_where P f (st_userMiners s)"
  shows "more_machines s t"
  unfolding more_machines_def assms(3) using assms(1,2) by (subst image_update_where) auto

lemma calm_ensureInventory: "ensureOwnedMachineForInventoryTx item s = (Inr om, t) \<Longrightarrow> calm s t"
  unfolding ensureOwnedMachineForInventoryTx_def
  by (auto simp: calm_def more_machines_def and_then_Inr_iff split: option.splits if_splits dest!: createOwned_InrD)

lemma calm_ensureVault: "ensureOwnedMachineForVaultTx item s = (Inr om, t) \<Longrightarrow> calm s t"
  unfolding ensureOwnedMachineForVaultTx_def
  by (auto simp: calm_def more_machines_def and_then_Inr_iff split: option.splits if_splits dest!: createOwned_InrD)

lemma calm_ensureMiner:
  assumes e: "ensureOwnedMachineForUserMinerTx m nm s = (Inr om, t)"
  shows "calm s t"
proof (cases "um_ownedMachineId m")
  case None
  with e have "st_userMiners t = update_where (\<lambda>r. um_id r = um_id m)
      (\<lambda>r. r\<lparr>um_ownedMachineId := Some (st_next s)\<rparr>) (st_userMiners s)"
    "mc_racks t = mc_racks s" "st_next s \<le> st_next t"
    unfolding ensureOwnedMachineForUserMinerTx_def
    by (auto simp: and_then_Inr_iff split: if_splits dest!: createOwned_InrD)
  then show ?thesis
    using more_machines_update [of "\<lambda>r. r\<lparr>um_ownedMachineId := Some (st_next s)\<rparr>" t "\<lambda>r. um_id r = um_id m" s]
    unfolding calm_def by simp
next
  case (Some o')
  with e show ?thesis unfolding ensureOwnedMachineForUserMinerTx_def by (auto simp: calm_def more_machines_refl)
qed

lemmas calm_statements = calm_createOwned calm_createInventory calm_createUserMiner calm_createVault calm_sync
  calm_deleteInventory calm_deleteVault calm_ensureInventory calm_ensureVault calm_ensureMiner

text \<open>A machine that is deleted after its racks were released.\<close>

lemma delete_after_release:
  assumes "racks_ok s" and "rack_step s0 s" and "unblocked i s0" and "i < st_next s0" and "deleteUserMiner i s = (Inr x, t)"
  shows "racks_ok t" and "rack_step s t"
  using racks_ok_delete [OF assms(1,5)] unblocked_step [OF assms(3,2,4)] by auto

subsection \<open>Displacing\<close>

lemma displace_sound:
  assumes ok: "mc_ok s" and d: "displaceTx u now (m, sn) s = (Inr x, t)" and m: "read_miner s m" and u: "um_userId m = u"
  shows "sound s t"
proof -
  obtain s1 s2 s3 om row where
    r: "releaseUserMinerFromRacksTx (um_id m) s = (Inr (), s1)"
    and o: "createOwned u INVENTORY sn s1 = (Inr om, s2)"
    and c: "createInventory u sn now None om s2 = (Inr row, s3)"
    and e: "deleteUserMiner (um_id m) s3 = (Inr (), t)"
    using d unfolding displaceTx_def createInventoryWithOwnedMachineTx_def by (auto simp: and_then_Inr_iff)
  have q: "quiet s s1" using r by (rule release_quiet)
  have i1: "ids_ok s1" and g1: "reg_ok (children s1) (st_owned s1)"
    using ok q quiet_children [OF q] unfolding mc_ok_def registered_def quiet_def by auto
  note s2 = createOwned_InrD [OF o]
  note cl = createInventory_law [OF c]
  have c3: "children s3 = add_mset (Some (st_next s1), u, INVENTORY) (children s1)" using cl(1) s2 by simp
  have g3: "reg_ok (children s3) (st_owned s3)"
    unfolding c3 cl(7) using reg_ok_new [OF g1 ids_okD(10) [OF i1]] s2 by simp
  have i2: "ids_ok s2" using i1 s2 unfolding ids_ok_def by auto
  have i3: "ids_ok s3" using cl(2) i2 .
  have l: "later {} {} {} s s3"
  proof -
    have "later {} {} {} s1 s2" using s2 unfolding later_def same_machine_def by auto
    then show ?thesis using q cl(3) unfolding quiet_def by (blast intro: later_trans)
  qed
  have um3: "st_userMiners s3 = st_userMiners s" using q s2 cl(4) unfolding quiet_def by simp
  obtain rw where rw: "rw \<in> set (st_userMiners s3)" "um_id rw = um_id m"
    "children s3 = add_mset (um_ownedMachineId rw, um_userId rw, RACK) (children t)"
    "st_owned t = st_owned s3" "ids_ok t" "later {} {} {} s3 t"
    using deleteUserMiner_law [OF e i3] by metis
  have ru: "um_userId rw = u" using m u rw(1,2) um3 unfolding read_miner_def same_machine_def by auto
  have "registered t" unfolding registered_def
    using rw(4,5) reg_ok_subset [OF g3, of "children t"] rw(3) by simp
  moreover have "owners t = owners s"
    using c3 rw(3) ru quiet_children [OF q] unfolding owners_def
    by (metis (no_types, lifting) add_mset_add_mset_same_iff fst_conv image_mset_add_mset snd_conv)
  moreover have "later {} {} {} s t" using l rw(6) by (rule later_trans)
  moreover have "racks_ok t \<and> rack_step s t"
  proof -
    have a: "racks_ok s1" "rack_step s s1" "unblocked (um_id m) s1" "st_next s1 = st_next s"
      using release_law [OF r] ok unfolding mc_ok_def by auto
    have b: "racks_ok s3" "rack_step s1 s3"
      using calm_racks [OF calm_trans [OF calm_createOwned [OF o] calm_createInventory [OF c]] a(1)] by auto
    have "um_id m < st_next s1" using m a(4) unfolding read_miner_def by simp
    from delete_after_release [OF b a(3) this e] show ?thesis using a(2) b(2) by (blast intro: rack_step_trans)
  qed
  ultimately show ?thesis unfolding sound_def conserves_def by blast
qed

lemma displace_all_sound:
  assumes "mc_ok s" and "for_each (displaceTx u now) ds s = (Inr x, t)" and "displaced_ok s u ds"
  shows "sound s t"
  using assms
proof (induction ds arbitrary: s)
  case Nil
  then show ?case by (auto simp: sound_refl)
next
  case (Cons d ds)
  obtain m sn where d: "d = (m, sn)" by (cases d)
  from Cons.prems(2) obtain s1 where s1: "displaceTx u now d s = (Inr (), s1)" "for_each (displaceTx u now) ds s1 = (Inr x, t)"
    by (auto simp: and_then_Inr_iff)
  have "sound s s1" using displace_sound [OF Cons.prems(1) s1(1) [unfolded d]] Cons.prems(3) d
    unfolding displaced_ok_def by simp
  moreover from this have "displaced_ok s1 u ds"
    using Cons.prems(3) displaced_later [of s s1 u ds] unfolding sound_def conserves_def displaced_ok_def by simp
  ultimately show ?case using Cons.IH [OF sound_ok s1(2)] by (blast intro: sound_trans)
qed

lemma displace_previous_sound:
  assumes ok: "mc_ok s" and d: "displacePrevious u now slot P s = (Inr x, t)"
  shows "sound s t"
proof -
  have i: "ids_ok s" using ok unfolding mc_ok_def registered_def by blast
  show ?thesis
    using d sound_refl [OF ok] unfolding displacePrevious_def
    by (auto split: if_splits option.splits intro!: displace_sound [OF ok] read_miner_now [OF i] dest!: find_first_Some_conj)
qed

subsection \<open>Moves out of the inventory\<close>

lemma rack_refs_old:
  assumes "racks_ok s" and "ids_ok s" and "k \<in> set (mc_racks s)"
  shows "rk_userMinerId k \<noteq> Some (st_next s)" and "rk_blockedByMinerId k \<noteq> Some (st_next s)"
  using racks_okD(1,2) [OF assms(1,3)] ids_okD(7) [OF assms(2)] by fastforce+

lemma link_racks:
  assumes ok: "racks_ok s" and i: "ids_ok s" and c: "createUserMiner u slot sn om s = (Inr mid, s1)"
    and r: "updateRack (rk_id k) (\<lambda>k. k\<lparr>rk_userMinerId := Some mid, rk_installedAt := Some now\<rparr>) s1 = (Inr x, s2)"
    and b: "blockAdjacent adj mid s2 = (Inr y, s3)"
    and k: "read_rack s k" "rk_userId k = u" and a: "\<And>q. adj = Some q \<Longrightarrow> read_rack s q \<and> rk_roomId q = rk_roomId k"
  shows "racks_ok s3 \<and> rack_step s s3" and "quiet s1 s3"
proof -
  let ?f = "\<lambda>k. k\<lparr>rk_userMinerId := Some mid, rk_installedAt := Some now\<rparr>"
  let ?g = "\<lambda>k. k\<lparr>rk_blockedByMinerId := Some mid\<rparr>"
  note n = createUserMiner_InrD [OF c]
  have c1: "racks_ok s1" "rack_step s s1" "mc_racks s1 = mc_racks s"
    using calm_racks [OF calm_createUserMiner [OF c] ok] createUserMiner_law(6) [OF c] by auto
  have q2: "quiet s1 s2" using updateRack_quiet [OF r] by simp
  have q3: "quiet s2 s3" using b updateRack_quiet [of _ ?g s2 y s3] unfolding blockAdjacent_def by (auto split: option.splits)
  show "quiet s1 s3" using q2 q3 by (rule quiet_trans)
  have s2: "mc_racks s2 = update_where (\<lambda>q. rk_id q = rk_id k) ?f (mc_racks s)"
    using updateRack_InrD [OF r] c1(3) by simp
  have s3: "mc_racks s3 = mc_racks s2 \<or> (\<exists>q. adj = Some q \<and> mc_racks s3 = update_where (\<lambda>p. rk_id p = rk_id q) ?g (mc_racks s2))"
    using b unfolding blockAdjacent_def by (cases adj) (auto dest!: updateRack_InrD)
  have um: "st_userMiners s3 = st_userMiners s1" "st_next s3 = st_next s1" using q2 q3 unfolding quiet_def by auto
  have origin: "\<exists>p \<in> set (mc_racks s). rk_id p = rk_id q \<and> rk_userId p = rk_userId q \<and> rk_roomId p = rk_roomId q
      \<and> (rk_userMinerId q = rk_userMinerId p \<or> rk_userMinerId q = Some mid \<and> rk_id q = rk_id k)
      \<and> (rk_blockedByMinerId q = rk_blockedByMinerId p \<or> rk_blockedByMinerId q = Some mid \<and> rk_roomId q = rk_roomId k)"
    if q: "q \<in> set (mc_racks s3)" for q
  proof -
    have o2: "\<exists>p \<in> set (mc_racks s). rk_id p = rk_id q \<and> rk_userId p = rk_userId q \<and> rk_roomId p = rk_roomId q
      \<and> rk_blockedByMinerId q = rk_blockedByMinerId p
      \<and> (rk_userMinerId q = rk_userMinerId p \<or> rk_userMinerId q = Some mid \<and> rk_id q = rk_id k)" if "q \<in> set (mc_racks s2)" for q
      using that unfolding s2 set_update_where by auto
    show ?thesis
    proof (cases "q \<in> set (mc_racks s2)")
      case True
      from o2 [OF this] show ?thesis by blast
    next
      case False
      with q s3 obtain z p where z: "adj = Some z" and p: "p \<in> set (mc_racks s2)" "rk_id p = rk_id z" "q = ?g p"
        unfolding set_update_where by (auto simp: set_update_where)
      obtain p' where p': "p' \<in> set (mc_racks s)" "rk_id p' = rk_id p" "rk_userId p' = rk_userId p" "rk_roomId p' = rk_roomId p"
        "rk_userMinerId p = rk_userMinerId p' \<or> rk_userMinerId p = Some mid \<and> rk_id p = rk_id k"
        using o2 [OF p(1)] by auto
      have "rk_roomId p' = rk_roomId k" using a [OF z] p' p(2) unfolding read_rack_def by auto
      with p p' show ?thesis by (intro bexI [OF _ p'(1)]) auto
    qed
  qed
  have new: "mid = st_next s" "\<exists>m \<in> set (st_userMiners s1). um_id m = mid \<and> um_userId m = u" using n by auto
  note old = rack_refs_old [OF ok i]
  have "racks_ok s3"
  proof (rule racks_okI; (unfold um(1))?)
    fix q j assume q: "q \<in> set (mc_racks s3)" and j: "rk_userMinerId q = Some j"
    obtain p where p: "p \<in> set (mc_racks s)" "rk_userId p = rk_userId q" "rk_id p = rk_id q"
      "rk_userMinerId q = rk_userMinerId p \<or> rk_userMinerId q = Some mid \<and> rk_id q = rk_id k" using origin [OF q] by blast
    from p(4) show "\<exists>m\<in>set (st_userMiners s1). um_id m = j \<and> um_userId m = rk_userId q"
    proof
      assume "rk_userMinerId q = rk_userMinerId p"
      with racks_okD(1) [OF c1(1), of p j] j p(1,2) c1(3) show ?thesis by simp
    next
      assume "rk_userMinerId q = Some mid \<and> rk_id q = rk_id k"
      with k p j new(2) show ?thesis unfolding read_rack_def by auto
    qed
  next
    fix q j assume q: "q \<in> set (mc_racks s3)" and j: "rk_blockedByMinerId q = Some j"
    obtain p where p: "p \<in> set (mc_racks s)"
      "rk_blockedByMinerId q = rk_blockedByMinerId p \<or> rk_blockedByMinerId q = Some mid" using origin [OF q] by blast
    then show "\<exists>m\<in>set (st_userMiners s1). um_id m = j"
      using racks_okD(2) [OF c1(1), of p j] j c1(3) new(2) by auto
  next
    fix q z j assume q: "q \<in> set (mc_racks s3)" "z \<in> set (mc_racks s3)" "rk_userMinerId q = Some j" "rk_blockedByMinerId z = Some j"
    obtain p where p: "p \<in> set (mc_racks s)" "rk_roomId p = rk_roomId q" "rk_id p = rk_id q"
      "rk_userMinerId q = rk_userMinerId p \<or> rk_userMinerId q = Some mid \<and> rk_id q = rk_id k" using origin [OF q(1)] by blast
    obtain w where w: "w \<in> set (mc_racks s)" "rk_roomId w = rk_roomId z"
      "rk_blockedByMinerId z = rk_blockedByMinerId w \<or> rk_blockedByMinerId z = Some mid \<and> rk_roomId z = rk_roomId k"
      using origin [OF q(2)] by blast
    show "rk_roomId z = rk_roomId q"
    proof (cases "j = mid")
      case True
      then have "rk_roomId z = rk_roomId k" "rk_id q = rk_id k" using w p q old(1) [OF p(1)] old(2) [OF w(1)] new(1) by auto
      moreover have "rk_roomId p = rk_roomId k" using k(1) p(1,3) calculation(2) unfolding read_rack_def by auto
      ultimately show ?thesis using p(2) by simp
    next
      case False
      with p w q have "rk_userMinerId p = Some j" "rk_blockedByMinerId w = Some j" by auto
      from racks_okD(3) [OF ok p(1) w(1) this] p(2) w(2) show ?thesis by simp
    qed
  qed
  moreover have "rack_step s s3"
    unfolding rack_step_def
  proof (intro conjI ballI allI impI)
    show "st_next s \<le> st_next s3" using um(2) n by simp
    fix q j assume q: "q \<in> set (mc_racks s3)" "j < st_next s" "rk_blockedByMinerId q = Some j"
    then show "\<exists>p\<in>set (mc_racks s). rk_roomId p = rk_roomId q \<and> rk_blockedByMinerId p = Some j"
      using origin [OF q(1)] new(1) by force
  qed
  ultimately show "racks_ok s3 \<and> rack_step s s3" ..
qed

end
