(* ===== verification/MachineInv.thy ===== *)
theory MachineInv
  imports MachineSound
begin

section \<open>The machine tables under any interleaving\<close>

lemma ids_ok_ensureInventory:
  assumes i: "ids_ok s" and e: "ensureOwnedMachineForInventoryTx item s = (Inr om, t)"
  shows "ids_ok t"
proof (cases "inv_ownedMachineId item")
  case None
  then have t: "t = s\<lparr>st_owned := st_owned s @ [\<lparr>om_id = st_next s, om_userId = inv_userId item,
        om_location = INVENTORY, om_snap = inv_snap item\<rparr>], st_next := st_next s + 1,
        st_inventory := update_where (\<lambda>i. inv_id i = inv_id item)
          (\<lambda>i. i\<lparr>inv_ownedMachineId := Some (st_next s)\<rparr>) (st_inventory s)\<rparr>"
    using e unfolding ensureOwnedMachineForInventoryTx_def
    by (auto simp: and_then_Inr_iff split: if_splits dest!: createOwned_InrD)
  show ?thesis using i unfolding t ids_ok_def by (auto dest!: update_where_origin)
next
  case (Some o')
  with i e show ?thesis unfolding ensureOwnedMachineForInventoryTx_def by auto
qed

lemma read_rack_calm: "calm s t \<Longrightarrow> read_rack s k \<Longrightarrow> read_rack t k"
  unfolding calm_def read_rack_def by auto

lemma read_miner_quiet: "quiet s t \<Longrightarrow> read_miner s m \<Longrightarrow> read_miner t m"
  unfolding quiet_def read_miner_def by auto

lemma registered_quiet: "registered s \<Longrightarrow> quiet s t \<Longrightarrow> registered t"
  using conserves_quiet unfolding conserves_def by blast

lemma sound_calm: "mc_ok s \<Longrightarrow> conserves s t \<Longrightarrow> calm s t \<Longrightarrow> sound s t"
  unfolding sound_def mc_ok_def using calm_racks by blast

subsection \<open>Rooms\<close>

lemma install_sound:
  assumes ok: "mc_ok s" and r: "installMinerTx u p now s = (Inr x, t)" and k: "task_ok s (TInstall u p)"
  shows "sound s t"
proof -
  obtain om s1 mid s2 s3 s4 s5 where
    e: "ensureOwnedMachineForInventoryTx (ip_item p) s = (Inr om, s1)"
    and c: "createUserMiner u (ip_slotIndex p) (inv_snap (ip_item p)) om s1 = (Inr mid, s2)"
    and h: "updateRack (rk_id (ip_rack p)) (\<lambda>k. k\<lparr>rk_userMinerId := Some mid, rk_installedAt := Some now\<rparr>) s2 = (Inr (), s3)"
    and b: "blockAdjacent (ip_adjacent p) mid s3 = (Inr (), s4)"
    and y: "syncOwnedMachineSnapshotTx om RACK (inv_snap (ip_item p)) s4 = (Inr (), s5)"
    and d: "deleteInventory (\<lambda>i. inv_id i = inv_id (ip_item p)) s5 = (Inr (), t)"
    using r unfolding installMinerTx_def by (auto simp: Let_def and_then_Inr_iff)
  have reg: "registered s" and rk: "racks_ok s" using ok unfolding mc_ok_def by auto
  have s1: "racks_ok s1" "rack_step s s1" "ids_ok s1"
    using calm_racks [OF calm_ensureInventory [OF e] rk] ids_ok_ensureInventory [OF _ e] reg
    unfolding registered_def by auto
  have rr: "read_rack s1 (ip_rack p)" "rk_userId (ip_rack p) = u"
    "\<And>q. ip_adjacent p = Some q \<Longrightarrow> read_rack s1 q \<and> rk_roomId q = rk_roomId (ip_rack p)"
    using k calm_ensureInventory [OF e] by (auto intro: read_rack_calm)
  note link = link_racks [OF s1(1,3) c h b rr]
  have "conserves s t"
    by (rule from_inventory [OF reg _ e quiet_refl creates_userMiner [OF c] createUserMiner_law(4) [OF c] link(2) y d])
      (use k in auto)
  moreover have "racks_ok t \<and> rack_step s4 t"
    using calm_racks [OF calm_trans [OF calm_sync [OF y] calm_deleteInventory [OF d]]] link(1) by blast
  ultimately show ?thesis unfolding sound_def using link(1) s1(2) by (blast intro: rack_step_trans)
qed

lemma uninstall_sound:
  assumes ok: "mc_ok s" and r: "uninstallMinerTx u k m sn now s = (Inr x, t)" and kn: "task_ok s (TUninstall u k m sn)"
  shows "sound s t"
proof -
  let ?f = "\<lambda>k. k\<lparr>rk_userMinerId := None :: int option, rk_installedAt := None :: millis option\<rparr>"
  let ?g = "\<lambda>k. k\<lparr>rk_blockedByMinerId := None :: int option\<rparr>"
  let ?P = "\<lambda>q. rk_roomId q = rk_roomId k \<and> rk_blockedByMinerId q = Some (um_id m)"
  obtain s1 s2 om s3 row s4 s5 where
    h: "updateRack (rk_id k) ?f s = (Inr (), s1)"
    and s2: "s2 = s1\<lparr>mc_racks := update_where ?P ?g (mc_racks s1)\<rparr>"
    and e: "ensureOwnedMachineForUserMinerTx m (sn_minerName sn) s2 = (Inr om, s3)"
    and c: "createInventory u sn now None om s3 = (Inr row, s4)"
    and y: "syncOwnedMachineSnapshotTx om INVENTORY sn s4 = (Inr (), s5)"
    and d: "deleteUserMiner (um_id m) s5 = (Inr (), t)"
    using r unfolding uninstallMinerTx_def by (auto simp: and_then_Inr_iff)
  have reg: "registered s" and rk: "racks_ok s" using ok unfolding mc_ok_def by auto
  have f: "clears ?f" and g: "clears ?g" by (simp_all add: clears_def)
  note u1 = updateRack_InrD [OF h]
  have r1: "racks_ok s1" "rack_step s s1" "st_next s1 = st_next s"
    using racks_ok_clear [OF rk f, of s1] rack_step_clear [OF f, of s1 _ s] u1 by auto
  have r2: "racks_ok s2" "rack_step s1 s2" "st_next s2 = st_next s1"
    using racks_ok_clear [OF r1(1) g, of s2] rack_step_clear [OF g, of s2 _ s1] s2 by auto
  have q: "quiet s s2"
  proof -
    have "quiet s s1" by (rule updateRack_quiet [OF h]) simp_all
    moreover have "quiet s1 s2" unfolding s2 by (rule quiet_racks) simp_all
    ultimately show ?thesis by (rule quiet_trans)
  qed
  have m: "read_miner s2 m" "um_userId m = u" using kn read_miner_quiet [OF q] by auto
  have "blocks_only (um_id m) (rk_roomId k) s1"
    using kn r1(2) by (auto intro: blocks_only_miner)
  then have nb: "unblocked (um_id m) s2"
    unfolding unblocked_def blocks_only_def s2 by (auto simp: set_update_where)
  have "conserves s2 t"
    by (rule from_miner [OF registered_quiet [OF reg q] m(1) e quiet_refl creates_inventory [OF c]
        createInventory_law(4) [OF c] quiet_refl y d _ m(2)]) simp
  then have "conserves s t" using conserves_trans [OF conserves_quiet [OF reg q]] by blast
  moreover have r5: "racks_ok s5 \<and> rack_step s2 s5"
    using calm_racks [OF calm_trans [OF calm_ensureMiner [OF e] calm_trans [OF calm_createInventory [OF c] calm_sync [OF y]]] r2(1)] .
  moreover have "um_id m < st_next s2" using m(1) unfolding read_miner_def by simp
  ultimately show ?thesis
    unfolding sound_def using delete_after_release [of s5 s2 "um_id m" "()" t] nb d r1(2) r2(2)
    by (blast intro: rack_step_trans)
qed

lemma unique_newRacks: "unique_key rk_id (newRacks n u roomId k)"
  unfolding unique_key_def newRacks_def by (simp add: comp_def distinct_map inj_on_def)

lemma buyRoom_sound:
  assumes ok: "mc_ok s" and r: "buyRoomTx dec8_of cfg u n price s = (Inr x, t)"
  shows "sound s t"
proof -
  obtain s1 s2 rid where c: "chargePol dec8_of u price s = (Inr (), s1)"
    and m: "createRoom dec8_of u n price s1 = (Inr rid, s2)"
    and k: "createRacks u rid (rc_racksPerRoom cfg) s2 = (Inr (), t)"
    using r unfolding buyRoomTx_def by (auto simp: and_then_Inr_iff)
  let ?new = "newRacks (st_next s + 1) u rid (rc_racksPerRoom cfg)"
  have t: "st_inventory t = st_inventory s" "st_userMiners t = st_userMiners s" "mc_vault t = mc_vault s"
    "st_owned t = st_owned s" "mc_racks t = mc_racks s @ ?new"
    "st_next t = st_next s + 1 + int (rc_racksPerRoom cfg)"
    using c m k unfolding chargePol_def createRoom_def createRacks_def
    by (auto simp: addPol_def updUser_def split: if_splits option.splits)
  have new: "st_next s < rk_id q \<and> rk_id q < st_next t \<and> rk_userMinerId q = None \<and> rk_blockedByMinerId q = None"
    if "q \<in> set ?new" for q using that t(6) unfolding newRacks_def by auto
  have reg: "registered s" and rk: "racks_ok s" using ok unfolding mc_ok_def by auto
  have i: "ids_ok s" using reg unfolding registered_def by blast
  have "rk_id q < st_next s" if "q \<in> set (mc_racks s)" for q using ids_okD(9) [OF i that] .
  with new have dj: "rk_id ` set (mc_racks s) \<inter> rk_id ` set ?new = {}" by fastforce
  have ch: "children t = children s" using t by (simp add: children_def)
  have "ids_ok t"
    using i new dj unique_newRacks [of "st_next s + 1" u rid "rc_racksPerRoom cfg"]
    unfolding ids_ok_def t(1-5) unique_key_def by (auto simp: t(6))
  then have "registered t" using reg ch t(4) unfolding registered_def by simp
  moreover have "later {} {} {} s t" unfolding later_def same_machine_def t(1-5) using t(6) new by fastforce
  moreover have "racks_ok t"
    by (rule racks_okI; unfold t(2,5)) (use rk new in \<open>auto dest: racks_okD\<close>)
  moreover have "rack_step s t" unfolding rack_step_def t(5) using t(6) new by auto
  ultimately show ?thesis unfolding sound_def conserves_def by (simp add: owners_def ch)
qed

subsection \<open>The vault\<close>

lemma store_sound:
  assumes ok: "mc_ok s" and r: "moveToVaultTx u p now s = (Inr x, t)" and k: "task_ok s (TStore u p)"
  shows "sound s t"
proof (cases p)
  case (StoreItem item)
  let ?sn = "safeSnapshot (inv_snap item) s"
  obtain om s1 s2 s3 where
    e: "ensureOwnedMachineForInventoryTx item s = (Inr om, s1)"
    and c: "createVault u ?sn now om s1 = (Inr (), s2)"
    and y: "syncOwnedMachineSnapshotTx om WAREHOUSE ?sn s2 = (Inr (), s3)"
    and d: "deleteInventory (\<lambda>i. inv_id i = inv_id item \<and> inv_userId i = u) s3 = (Inr (), t)"
    using r unfolding moveToVaultTx_def StoreItem by (auto simp: Let_def and_then_Inr_iff)
  have reg: "registered s" using ok unfolding mc_ok_def by blast
  have "conserves s t"
    by (rule from_inventory [OF reg _ e quiet_refl creates_vault [OF c] createVault_law(4) [OF c] quiet_refl y d])
      (use k StoreItem in auto)
  then show ?thesis
    by (rule sound_calm [OF ok]) (use e c y d in \<open>blast intro: calm_trans calm_statements\<close>)
next
  case (StoreMiner m nm img)
  let ?sn = "safeSnapshot (rackSnapshot m nm img) s"
  obtain om s1 s1' s2 s3 where
    e: "ensureOwnedMachineForUserMinerTx m nm s = (Inr om, s1)"
    and l: "releaseUserMinerFromRacksTx (um_id m) s1 = (Inr (), s1')"
    and c: "createVault u ?sn now om s1' = (Inr (), s2)"
    and y: "syncOwnedMachineSnapshotTx om WAREHOUSE ?sn s2 = (Inr (), s3)"
    and d: "deleteUserMiner (um_id m) s3 = (Inr (), t)"
    using r unfolding moveToVaultTx_def StoreMiner by (auto simp: Let_def and_then_Inr_iff)
  have reg: "registered s" and rk: "racks_ok s" and m: "read_miner s m" "um_userId m = u"
    using ok k StoreMiner unfolding mc_ok_def by auto
  have "conserves s t"
    by (rule from_miner [OF reg m(1) e release_quiet [OF l] creates_vault [OF c] createVault_law(5) [OF c] quiet_refl y d _ m(2)]) simp
  moreover have s1: "racks_ok s1 \<and> rack_step s s1" using calm_racks [OF calm_ensureMiner [OF e] rk] .
  moreover have s1': "racks_ok s1'" "rack_step s1 s1'" "unblocked (um_id m) s1'" "st_next s1' = st_next s1"
    using release_law [OF l] s1 by auto
  moreover have "racks_ok s3 \<and> rack_step s1' s3"
    using calm_racks [OF calm_trans [OF calm_createVault [OF c] calm_sync [OF y]] s1'(1)] .
  moreover have "um_id m < st_next s1'"
    using m(1) calm_ensureMiner [OF e] s1'(4) unfolding read_miner_def calm_def by simp
  ultimately show ?thesis
    unfolding sound_def using delete_after_release [of s3 s1' "um_id m" "()" t] d by (blast intro: rack_step_trans)
qed

lemma retrieve_sound:
  assumes ok: "mc_ok s" and r: "retrieveTx u dest p now s = (Inr x, t)" and k: "task_ok s (TRetrieve u dest p)"
  shows "sound s t"
proof (cases dest)
  case ToInventory
  let ?sn = "safeSnapshot (vt_snap (rp_item p)) s"
  obtain om s1 row s2 s3 where
    e: "ensureOwnedMachineForVaultTx (rp_item p) s = (Inr om, s1)"
    and c: "createInventory u ?sn now None om s1 = (Inr row, s2)"
    and y: "syncOwnedMachineSnapshotTx om INVENTORY ?sn s2 = (Inr (), s3)"
    and d: "deleteVault u (vt_id (rp_item p)) s3 = (Inr (), t)"
    using r unfolding retrieveTx_def ToInventory by (auto simp: Let_def and_then_Inr_iff)
  have reg: "registered s" using ok unfolding mc_ok_def by blast
  have "conserves s t"
    by (rule from_vault [OF reg _ e creates_inventory [OF c] createInventory_law(5) [OF c] y d]) (use k in auto)
  then show ?thesis
    by (rule sound_calm [OF ok]) (use e c y d in \<open>blast intro: calm_trans calm_statements\<close>)
next
  case (ToRack slot)
  let ?sn = "safeSnapshot (vt_snap (rp_item p)) s"
  obtain s0 om s1 mid s2 s3 where
    f: "for_each (displaceTx u now) (rp_displaced p) s = (Inr (), s0)"
    and e: "ensureOwnedMachineForVaultTx (rp_item p) s0 = (Inr om, s1)"
    and c: "createUserMiner u slot (?sn\<lparr>sn_slotSize := slotSizeOf ?sn\<rparr>) om s1 = (Inr mid, s2)"
    and y: "syncOwnedMachineSnapshotTx om RACK ?sn s2 = (Inr (), s3)"
    and d: "deleteVault u (vt_id (rp_item p)) s3 = (Inr (), t)"
    using r unfolding retrieveTx_def ToRack by (auto simp: Let_def and_then_Inr_iff)
  have s0: "sound s s0" using displace_all_sound [OF ok f] k by simp
  have rv: "read_vault s0 (rp_item p)"
    using k s0 unfolding sound_def conserves_def by (auto intro: read_vault_later)
  have reg: "registered s0" using sound_ok [OF s0] unfolding mc_ok_def by blast
  have "conserves s0 t"
    by (rule from_vault [OF reg rv e creates_userMiner [OF c] createUserMiner_law(5) [OF c] y d]) (use k in auto)
  then have "sound s0 t"
    by (rule sound_calm [OF sound_ok [OF s0]]) (use e c y d in \<open>blast intro: calm_trans calm_statements\<close>)
  with s0 show ?thesis by (rule sound_trans)
qed

subsection \<open>The slot grid\<close>

lemma remove_sound:
  assumes ok: "mc_ok s" and r: "removeMachineTx u m sn now s = (Inr x, t)" and k: "task_ok s (TRemove u m sn)"
  shows "sound s t"
proof -
  obtain s0 om s1 row s2 s3 where
    l: "releaseUserMinerFromRacksTx (um_id m) s = (Inr (), s0)"
    and e: "ensureOwnedMachineForUserMinerTx m (sn_minerName sn) s0 = (Inr om, s1)"
    and c: "createInventory u sn now None om s1 = (Inr row, s2)"
    and y: "syncOwnedMachineSnapshotTx om INVENTORY sn s2 = (Inr (), s3)"
    and d: "deleteUserMiner (um_id m) s3 = (Inr (), t)"
    using r unfolding removeMachineTx_def by (auto simp: and_then_Inr_iff)
  have reg: "registered s" and rk: "racks_ok s" and m: "read_miner s m" "um_userId m = u"
    using ok k unfolding mc_ok_def by auto
  note q = release_quiet [OF l]
  have s0: "racks_ok s0" "rack_step s s0" "unblocked (um_id m) s0" using release_law [OF l] rk by auto
  note m0 = read_miner_quiet [OF q m(1)]
  have "conserves s0 t"
    by (rule from_miner [OF registered_quiet [OF reg q] m0 e quiet_refl creates_inventory [OF c]
        createInventory_law(4) [OF c] quiet_refl y d _ m(2)]) simp
  then have "conserves s t" using conserves_trans [OF conserves_quiet [OF reg q]] by blast
  moreover have "racks_ok s3 \<and> rack_step s0 s3"
    using calm_racks [OF calm_trans [OF calm_ensureMiner [OF e] calm_trans [OF calm_createInventory [OF c] calm_sync [OF y]]] s0(1)] .
  moreover have "um_id m < st_next s0" using m0 unfolding read_miner_def by simp
  ultimately show ?thesis
    unfolding sound_def using delete_after_release [of s3 s0 "um_id m" "()" t] d s0 by (blast intro: rack_step_trans)
qed

lemma same_machines_sound:
  assumes ok: "mc_ok s" and t: "t = s\<lparr>st_userMiners := update_where P f (st_userMiners s)\<rparr>"
    and f: "\<And>m. um_id (f m) = um_id m" "\<And>m. um_userId (f m) = um_userId m" "\<And>m. um_ownedMachineId (f m) = um_ownedMachineId m"
  shows "sound s t"
proof -
  have "children t = children s"
    unfolding children_def t using map_update_where [of P "\<lambda>m. (um_ownedMachineId m, um_userId m, RACK)" f "st_userMiners s"] f
    by (simp flip: mset_map)
  moreover have "ids_ok s \<Longrightarrow> ids_ok t"
    unfolding t ids_ok_def using f by (auto dest!: update_where_origin)
  moreover have "later {} {} {} s t"
    unfolding t later_def same_machine_def using f by (auto dest!: update_where_origin)
  ultimately have "conserves s t"
    using ok unfolding conserves_def mc_ok_def registered_def owners_def by (simp add: t)
  moreover have "calm s t"
    unfolding calm_def using more_machines_update [of f t P s] f by (simp add: t)
  ultimately show ?thesis by (rule sound_calm [OF ok])
qed

lemma move_sound:
  assumes ok: "mc_ok s" and r: "moveMachineTx u i slot ds now s = (Inr x, t)" and k: "task_ok s (TMove u i slot ds)"
  shows "sound s t"
proof -
  obtain s0 s1 where f: "for_each (displaceTx u now) ds s = (Inr (), s0)"
    and p: "displacePrevious u now slot (\<lambda>m. um_id m \<noteq> i) s0 = (Inr (), s1)"
    and l: "updateSlot i slot s1 = (Inr (), t)"
    using r unfolding moveMachineTx_def by (auto simp: and_then_Inr_iff)
  have s0: "sound s s0" using displace_all_sound [OF ok f] k by simp
  have s1: "sound s0 s1" using displace_previous_sound [OF sound_ok [OF s0] p] .
  have "t = s1\<lparr>st_userMiners := update_where (\<lambda>x. um_id x = i) (\<lambda>x. x\<lparr>um_slotIndex := slot\<rparr>) (st_userMiners s1)\<rparr>"
    using l unfolding updateSlot_def by (auto split: option.splits if_splits)
  then have "sound s1 t" by (rule same_machines_sound [OF sound_ok [OF s1]]) simp_all
  with s0 s1 show ?thesis by (blast intro: sound_trans)
qed

lemma installItem_sound:
  assumes ok: "mc_ok s" and r: "installItemTx u item slot ds now s = (Inr x, t)" and k: "task_ok s (TInstallItem u item slot ds)"
  shows "sound s t"
proof -
  let ?sn = "(inv_snap item)\<lparr>sn_imageUrl := or_string (sn_imageUrl (inv_snap item)) (Some DEFAULT_MINER_IMAGE_URL)\<rparr>"
  obtain s0 s0' om s1 mid s2 s3 where f: "for_each (displaceTx u now) ds s = (Inr (), s0)"
    and p: "displacePrevious u now slot (\<lambda>m. True) s0 = (Inr (), s0')"
    and e: "ensureOwnedMachineForInventoryTx item s0' = (Inr om, s1)"
    and c: "createUserMiner u slot (?sn\<lparr>sn_slotSize := slotSizeOf ?sn\<rparr>) om s1 = (Inr mid, s2)"
    and y: "syncOwnedMachineSnapshotTx om RACK ?sn s2 = (Inr (), s3)"
    and d: "deleteInventory (\<lambda>i. inv_id i = inv_id item \<and> inv_userId i = u) s3 = (Inr (), t)"
    using r unfolding installItemTx_def Let_def by (auto simp: and_then_Inr_iff)
  have s0: "sound s s0" using displace_all_sound [OF ok f] k by simp
  have s0': "sound s0 s0'" using displace_previous_sound [OF sound_ok [OF s0] p] .
  have ss: "sound s s0'" using s0 s0' by (rule sound_trans)
  have ri: "read_item s0' item" using k ss unfolding sound_def conserves_def by (auto intro: read_item_later)
  have reg: "registered s0'" using sound_ok [OF ss] unfolding mc_ok_def by blast
  have "conserves s0' t"
    by (rule from_inventory [OF reg ri e quiet_refl creates_userMiner [OF c] createUserMiner_law(4) [OF c] quiet_refl y d])
      (use k in auto)
  then have "sound s0' t"
    by (rule sound_calm [OF sound_ok [OF ss]]) (use e c y d in \<open>blast intro: calm_trans calm_statements\<close>)
  with ss show ?thesis by (rule sound_trans)
qed

end
