(* ===== verification/MachineProps.thy ===== *)
theory MachineProps
  imports MachineInv
begin

section \<open>Properties of the machine instances\<close>

subsection \<open>The invariant of the interleaved requests\<close>

definition mc_world_ok :: "mc_world \<Rightarrow> bool" where
  "mc_world_ok w \<longleftrightarrow> mc_ok (fst w) \<and> (\<forall>task \<in> set (snd w). task_ok (fst w) task)"

text \<open>How many machines a user has, and what a transaction adds to that number.\<close>

definition machinesOf :: "int \<Rightarrow> mc_store \<Rightarrow> int" where
  "machinesOf u s = int (count_where (\<lambda>i. inv_userId i = u) (st_inventory s)
     + count_where (\<lambda>m. um_userId m = u) (st_userMiners s) + count_where (\<lambda>v. vt_userId v = u) (mc_vault s))"

definition expiredOf :: "int \<Rightarrow> millis \<Rightarrow> mc_store \<Rightarrow> int" where
  "expiredOf u now s = int (count_where (\<lambda>i. inv_userId i = u \<and>
     (case inv_expiresAt i of None \<Rightarrow> False | Some e \<Rightarrow> e < now)) (st_inventory s))"

fun gain :: "mc_task \<Rightarrow> int \<Rightarrow> millis \<Rightarrow> mc_store \<Rightarrow> int" where
  "gain (TGrant u sn x) v now s = of_bool (u = v)"
| "gain (TRemoveItem u i) v now s = - of_bool (u = v)"
| "gain TCleanup v now s = - expiredOf v now s"
| "gain _ v now s = 0"

lemma count_image_rows: "count (image_mset f (mset rows)) u = count_where (\<lambda>r. f r = u) rows"
  by (induction rows) auto

lemma machinesOf_owners: "machinesOf u s = int (count (owners s) u)"
  unfolding machinesOf_def owners_def children_def
  by (simp add: image_mset.compositionality comp_def count_image_rows)

lemma machinesOf_owners_eq: "owners t = owners s \<Longrightarrow> machinesOf u t = machinesOf u s"
  by (simp add: machinesOf_owners)

definition result_ok :: "mc_task \<Rightarrow> millis \<Rightarrow> mc_store \<Rightarrow> mc_store \<Rightarrow> bool" where
  "result_ok task now s t \<longleftrightarrow> mc_ok t \<and> later {} {} {} s t \<and> rack_step s t
     \<and> (\<forall>v. machinesOf v t = machinesOf v s + gain task v now s)"

lemma result_ok_sound: "sound s t \<Longrightarrow> (\<And>v. gain task v now s = 0) \<Longrightarrow> result_ok task now s t"
  unfolding result_ok_def using sound_ok [of s t]
  by (auto simp: sound_def conserves_def intro: machinesOf_owners_eq)

lemma grant_result:
  assumes ok: "mc_ok s" and r: "createInventoryWithOwnedMachineTx u sn now x s = (Inr row, t)"
  shows "result_ok (TGrant u sn x) now s t"
proof -
  obtain om s1 where o: "createOwned u INVENTORY sn s = (Inr om, s1)" and c: "createInventory u sn now x om s1 = (Inr row, t)"
    using r unfolding createInventoryWithOwnedMachineTx_def by (auto simp: and_then_Inr_iff)
  note s1 = createOwned_InrD [OF o]
  note cl = createInventory_law [OF c]
  have i: "ids_ok s" and g: "reg_ok (children s) (st_owned s)" and rk: "racks_ok s"
    using ok unfolding mc_ok_def registered_def by auto
  have ct: "children t = add_mset (Some (st_next s), u, INVENTORY) (children s)" using cl(1) s1 by simp
  have "reg_ok (children t) (st_owned t)"
    unfolding ct cl(7) using reg_ok_new [OF g ids_okD(10) [OF i]] s1 by simp
  moreover have "ids_ok t"
  proof (rule cl(2))
    show "ids_ok s1" using i s1 unfolding ids_ok_def by auto
  qed
  moreover have "later {} {} {} s t"
  proof -
    have "later {} {} {} s s1" using s1 unfolding later_def same_machine_def by auto
    with cl(3) show ?thesis by (blast intro: later_trans)
  qed
  moreover have "racks_ok t \<and> rack_step s t"
    using calm_racks [OF calm_trans [OF calm_createOwned [OF o] calm_createInventory [OF c]] rk] .
  ultimately show ?thesis
    unfolding result_ok_def mc_ok_def registered_def machinesOf_owners by (auto simp: owners_def ct)
qed

lemma removeItem_result:
  assumes ok: "mc_ok s" and r: "removeItemTx u i s = (Inr x, t)"
  shows "result_ok (TRemoveItem u i) now s t"
proof -
  let ?P = "\<lambda>q :: inventory_item. inv_id q = i \<and> inv_userId q = u"
  obtain row s1 where d: "deleteInventory ?P s = (Inr (), s1)"
    and o: "t = s1 \<or> (\<exists>om. deleteOwned om s1 = (Inr (), t))"
    using r unfolding removeItemTx_def by (auto simp: and_then_Inr_iff split: option.splits)
  have i: "ids_ok s" and g: "reg_ok (children s) (st_owned s)" and rk: "racks_ok s"
    using ok unfolding mc_ok_def registered_def by auto
  obtain q :: inventory_item where q: "?P q" and c: "children s = add_mset (inv_ownedMachineId q, inv_userId q, INVENTORY) (children s1)"
    and own: "st_owned s1 = st_owned s" and i1: "ids_ok s1" and l: "later {} {} {} s s1"
  proof (rule deleteInventory_law [OF d i, of i])
    fix q :: inventory_item assume a: "?P q" "children s = add_mset (inv_ownedMachineId q, inv_userId q, INVENTORY) (children s1)"
      "s1 = s\<lparr>st_inventory := delete_where (\<lambda>q. inv_id q = i) (st_inventory s)\<rparr>" "ids_ok s1" "later {} {} {} s s1"
    show thesis using a(3) by (intro that [of q] a(1,2,4,5)) simp_all
  qed simp
  have g1: "reg_ok (children s1) (st_owned s1)" unfolding own by (rule reg_ok_subset [OF g]) (simp add: c)
  have o': "children t = children s1 \<and> reg_ok (children t) (st_owned t) \<and> ids_ok t \<and> later {} {} {} s1 t
      \<and> mc_racks t = mc_racks s1 \<and> st_userMiners t = st_userMiners s1 \<and> st_next t = st_next s1"
    using o
  proof (elim disjE exE)
    fix om assume x: "deleteOwned om s1 = (Inr (), t)"
    then have t: "t = s1\<lparr>st_owned := delete_where (\<lambda>r. om_id r = om) (st_owned s1)\<rparr>"
      and n: "\<And>c. c \<in># children s1 \<Longrightarrow> fst c \<noteq> Some om"
      unfolding deleteOwned_def by (auto simp: list_ex_iff children_def split: if_splits)
    show ?thesis using reg_ok_delete_owned [OF g1 n] i1
      unfolding t later_def same_machine_def ids_ok_def by (auto intro: unique_key_delete)
  qed (use g1 i1 in simp)
  have "racks_ok t \<and> rack_step s t"
    using calm_racks [OF calm_trans [OF calm_deleteInventory [OF d], of t] rk] o'
    by (auto simp: calm_def more_machines_refl)
  moreover have "later {} {} {} s t" using l o' by (blast intro: later_trans)
  ultimately show ?thesis
    using o' q c unfolding result_ok_def mc_ok_def registered_def machinesOf_owners by (auto simp: owners_def)
qed

lemma count_where_split: "count_where P rows = count_where (\<lambda>r. P r \<and> \<not> Q r) rows + count_where (\<lambda>r. P r \<and> Q r) rows"
  by (induction rows) auto

lemma count_delete: "count_where P (delete_where Q rows) = count_where (\<lambda>r. P r \<and> \<not> Q r) rows"
  by (induction rows) auto

lemma cleanup_result:
  assumes ok: "mc_ok s" and r: "cleanupExpiredInventory now s = (Inr x, t)"
  shows "result_ok TCleanup now s t"
proof -
  let ?Q = "\<lambda>i. case inv_expiresAt i of None \<Rightarrow> False | Some e \<Rightarrow> e < now"
  have t: "t = s\<lparr>st_inventory := delete_where ?Q (st_inventory s)\<rparr>"
    using r unfolding cleanupExpiredInventory_def by simp
  have i: "ids_ok s" and g: "reg_ok (children s) (st_owned s)" and rk: "racks_ok s"
    using ok unfolding mc_ok_def registered_def by auto
  have "mset (delete_where ?Q (st_inventory s)) \<subseteq># mset (st_inventory s)"
    unfolding delete_where_def by (simp add: mset_filter)
  then have "children t \<subseteq># children s" unfolding children_def t by (simp add: image_mset_subseteq_mono)
  then have "reg_ok (children t) (st_owned t)" using reg_ok_subset [OF g] by (simp add: t)
  moreover have "ids_ok t" using i unfolding t ids_ok_def by (auto intro: unique_key_delete)
  moreover have "later {} {} {} s t" unfolding t later_def same_machine_def by auto
  moreover have "racks_ok t \<and> rack_step s t"
    by (rule calm_racks [OF _ rk]) (simp add: t calm_def more_machines_refl)
  moreover have "machinesOf v t = machinesOf v s - expiredOf v now s" for v
    unfolding machinesOf_def expiredOf_def t
    using count_where_split [of "\<lambda>i. inv_userId i = v" "st_inventory s" ?Q] by (simp add: count_delete)
  ultimately show ?thesis unfolding result_ok_def mc_ok_def registered_def by simp
qed

lemma runTask_result:
  assumes ok: "mc_ok s" and k: "task_ok s task" and r: "runTask dec8_of cfg now task s = (Inr x, t)"
  shows "result_ok task now s t"
proof (cases task)
  case (TBuyRoom u n price)
  with r show ?thesis
    by (auto simp: forget_def and_then_Inr_iff intro!: result_ok_sound buyRoom_sound [OF ok])
next
  case (TGrant u sn e)
  with r obtain row where "createInventoryWithOwnedMachineTx u sn now e s = (Inr row, t)"
    by (auto simp: forget_def and_then_Inr_iff)
  from grant_result [OF ok this] TGrant show ?thesis by simp
next
  case (TRemoveItem u i)
  with r removeItem_result [OF ok, of u i x t] show ?thesis by simp
next
  case TCleanup
  with r cleanup_result [OF ok] show ?thesis by simp
next
  case (TToggle i a)
  with r have "t = s\<lparr>st_userMiners := update_where (\<lambda>m. um_id m = i) (\<lambda>m. m\<lparr>um_isActive := a\<rparr>) (st_userMiners s)\<rparr>"
    by (auto simp: updateMachineActive_def split: if_splits)
  then have "sound s t" by (rule same_machines_sound [OF ok]) simp_all
  then show ?thesis by (rule result_ok_sound) (simp add: TToggle)
qed (use ok r k in \<open>auto intro!: result_ok_sound
    intro: install_sound uninstall_sound store_sound retrieve_sound remove_sound move_sound installItem_sound\<close>)

lemma mc_step_ok:
  assumes "mc_world_ok w" and "mc_step dec8_of cfg w v"
  shows "mc_world_ok v"
  using assms(2)
proof cases
  case (mc_read s task ts)
  with assms(1) show ?thesis by (auto simp: mc_world_ok_def intro: planned_ok)
next
  case (mc_commit task ts s now)
  let ?r = "transaction (runTask dec8_of cfg now task) s"
  have s: "mc_ok s" "\<And>x. x \<in> set ts \<Longrightarrow> task_ok s x" using assms(1) mc_commit(1) unfolding mc_world_ok_def by auto
  have "mc_ok (snd ?r) \<and> (\<forall>x \<in> set ts. task_ok (snd ?r) x)"
  proof (cases "runTask dec8_of cfg now task s")
    case (Pair y t)
    show ?thesis
    proof (cases y)
      case (Inl e)
      with Pair s show ?thesis by (simp add: transaction_def)
    next
      case (Inr x)
      with Pair have rt: "runTask dec8_of cfg now task s = (Inr x, t)" by simp
      have "result_ok task now s t" by (rule runTask_result [OF s(1) s(2) [OF mc_commit(3)] rt])
      with rt s(2) show ?thesis unfolding result_ok_def by (auto simp: transaction_def intro: task_ok_step)
    qed
  qed
  with mc_commit(2) show ?thesis
    unfolding mc_world_ok_def using set_remove1_subset [of task ts] by (simp add: subset_iff)
qed

lemma mc_init_ok: "mc_init w \<Longrightarrow> mc_world_ok w"
  unfolding mc_init_def mc_world_ok_def mc_ok_def registered_def ids_ok_def racks_ok_def reg_ok_def children_def
  by simp

interpretation mc: machine mc_init "mc_step dec8_of cfg" mc_world_ok for dec8_of :: "number \<Rightarrow> dec8" and cfg :: room_config
  by unfold_locales (auto intro: mc_init_ok mc_step_ok)

end
