(* ===== verification/MachineClaims.thy ===== *)
theory MachineClaims
  imports MachineProps
begin

section \<open>Claims about the machine instances\<close>

definition rack_exclusive :: "mc_store \<Rightarrow> bool" where
  "rack_exclusive s \<longleftrightarrow> list_all (\<lambda>k. rk_userMinerId k = None \<or> rk_blockedByMinerId k = None) (mc_racks s)"

lemma mc_reach_ok:
  assumes "reaches mc_init (mc_step dec8_of cfg) (s, ts)"
  shows "mc_ok s" and "registered s" and "ids_ok s" and "racks_ok s" and "task \<in> set ts \<Longrightarrow> task_ok s task"
  using mc.reaches_inv [OF assms] unfolding mc_world_ok_def mc_ok_def registered_def by auto

lemma notify_tables [simp]:
  "st_inventory (notify u a b s) = st_inventory s" "st_userMiners (notify u a b s) = st_userMiners s"
  "mc_racks (notify u a b s) = mc_racks s" "st_owned (notify u a b s) = st_owned s" "mc_vault (notify u a b s) = mc_vault s"
  "st_miners (notify u a b s) = st_miners s" "st_next (notify u a b s) = st_next s" "mc_rooms (notify u a b s) = mc_rooms s"
  "st_users (notify u a b s) = st_users s"
  by (simp_all add: notify_def)

lemma logCall_tables [simp]:
  "st_inventory (logCall c s) = st_inventory s" "st_userMiners (logCall c s) = st_userMiners s"
  "mc_racks (logCall c s') = mc_racks s'" "st_owned (logCall c s) = st_owned s" "mc_vault (logCall c s') = mc_vault s'"
  "st_miners (logCall c s) = st_miners s" "st_next (logCall c s) = st_next s" "mc_rooms (logCall c s') = mc_rooms s'"
  "st_users (logCall c s) = st_users s"
  by (simp_all add: logCall_def)

subsection \<open>A small run\<close>

text \<open>Two racks per room; the user buys the first room, is given a machine of two slots and installs it.\<close>

definition demo_cfg :: room_config where
  "demo_cfg = \<lparr>rc_racksPerRoom = 2, rc_roomMax = 4, rc_prices = [Some 0, Some 100, Some 500, Some 750]\<rparr>"

definition demo_rig :: snapshot where
  "demo_rig = \<lparr>sn_minerId = Some 5, sn_minerName = ''Rig'', sn_level = 1, sn_hashRate = 100, sn_slotSize = 2, sn_imageUrl = None\<rparr>"

definition demo_chip :: snapshot where
  "demo_chip = \<lparr>sn_minerId = None, sn_minerName = ''Chip'', sn_level = 1, sn_hashRate = 10, sn_slotSize = 1, sn_imageUrl = None\<rparr>"

definition rooms_start :: mc_store where
  "rooms_start = \<lparr>st_users = [\<lparr>usr_id = 1, usr_name = ''Ana'', usr_username = None, usr_isBanned = False,
       usr_polBalance = 15000000000, usr_blkBalance = 0, usr_blkLocked = 0, usr_walletAddress = None,
       usr_miningPayoutMode = ''pol'', usr_refCode = None, usr_referredBy = None\<rparr>],
     st_games = [], st_gamePowers = [], st_ytPowers = [], st_gpuPowers = [], st_v2Powers = [],
     st_miners = [\<lparr>cat_id = 5, cat_name = ''Rig'', cat_baseHashRate = 100, cat_slotSize = 2, cat_imageUrl = None\<rparr>],
     st_eventMiners = [], st_owned = [], st_inventory = [], st_userMiners = [], st_audit = [], st_calls = [], st_next = 10,
     mc_vault = [], mc_rooms = [], mc_racks = [], mc_notifications = []\<rparr>"

definition commit :: "mc_task \<Rightarrow> mc_store \<Rightarrow> mc_store" where
  "commit task s = snd (transaction (runTask round8_away demo_cfg 0 task) s)"

definition rooms_bought :: mc_store where
  "rooms_bought = commit (TBuyRoom 1 1 0) rooms_start"

definition rooms_rig :: mc_store where
  "rooms_rig = commit (TGrant 1 demo_rig (Some 500)) rooms_bought"

definition rooms_both :: mc_store where
  "rooms_both = commit (TGrant 1 demo_chip None) rooms_rig"

definition the_plan :: "'e + 'p \<Rightarrow> 'p" where
  "the_plan r = (case r of Inr p \<Rightarrow> p)"

definition task_rig :: mc_task where
  "task_rig = TInstall 1 (the_plan (installMinerPlan demo_cfg 1 (Some 11) (Some 14) rooms_both))"

definition task_chip :: mc_task where
  "task_chip = TInstall 1 (the_plan (installMinerPlan demo_cfg 1 (Some 12) (Some 16) rooms_both))"

definition rooms_installed :: mc_store where
  "rooms_installed = commit task_rig rooms_both"

definition rooms_raced :: mc_store where
  "rooms_raced = commit task_chip rooms_installed"

subsection \<open>The registry\<close>

lemma refs_children:
  "size (filter_mset (\<lambda>c. fst c = Some om) (children s))
   = count_where (\<lambda>i. inv_ownedMachineId i = Some om) (st_inventory s)
   + count_where (\<lambda>m. um_ownedMachineId m = Some om) (st_userMiners s)
   + count_where (\<lambda>v. vt_ownedMachineId v = Some om) (mc_vault s)"
proof -
  have c: "count_where P rows = size (filter_mset P (mset rows))" for P :: "'r \<Rightarrow> bool" and rows
    by (induction rows) auto
  show ?thesis unfolding children_def c by (simp add: filter_mset_image_mset)
qed

text \<open>
  C10: whatever requests interleave, a canonical machine row is the canonical row of at most one
  row of the inventory, the racks and the vault together, and it carries the owner and the location
  of that row.
\<close>

lemma machine_rows_consistent:
  assumes "reaches mc_init (mc_step dec8_of cfg) (s, ts)"
  shows "count_where (\<lambda>i. inv_ownedMachineId i = Some om) (st_inventory s)
       + count_where (\<lambda>m. um_ownedMachineId m = Some om) (st_userMiners s)
       + count_where (\<lambda>v. vt_ownedMachineId v = Some om) (mc_vault s) \<le> 1
    \<and> list_all (\<lambda>i. backed (st_owned s) (inv_ownedMachineId i, inv_userId i, INVENTORY)) (st_inventory s)
    \<and> list_all (\<lambda>m. backed (st_owned s) (um_ownedMachineId m, um_userId m, RACK)) (st_userMiners s)
    \<and> list_all (\<lambda>v. backed (st_owned s) (vt_ownedMachineId v, vt_userId v, WAREHOUSE)) (mc_vault s)"
proof -
  have r: "reg_ok (children s) (st_owned s)" using mc_reach_ok(2) [OF assms] unfolding registered_def by blast
  have "size (filter_mset (\<lambda>c. fst c = Some om) (children s)) \<le> 1" using r unfolding reg_ok_def by blast
  moreover have "backed (st_owned s) c" if "c \<in># children s" for c using r that unfolding reg_ok_def by blast
  ultimately show ?thesis unfolding refs_children unfolding children_def list_all_iff by auto
qed

lemma do_task:
  assumes "reaches mc_init (mc_step round8_away demo_cfg) (s, ts)" and "planned demo_cfg s task"
  shows "reaches mc_init (mc_step round8_away demo_cfg) (s, task # ts)"
    and "reaches mc_init (mc_step round8_away demo_cfg) (commit task s, ts)"
proof -
  show r: "reaches mc_init (mc_step round8_away demo_cfg) (s, task # ts)"
    using reaches.move [OF assms(1)] assms(2) by (blast intro: mc_step.mc_read)
  have "mc_step round8_away demo_cfg (s, task # ts) (commit task s, remove1 task (task # ts))"
    unfolding commit_def by (rule mc_step.mc_commit) simp
  then show "reaches mc_init (mc_step round8_away demo_cfg) (commit task s, ts)"
    using reaches.move [OF r] by simp
qed

lemma commit_task:
  assumes "reaches mc_init (mc_step round8_away demo_cfg) (s, ts)" and "task \<in> set ts"
  shows "reaches mc_init (mc_step round8_away demo_cfg) (commit task s, remove1 task ts)"
  unfolding commit_def using reaches.move [OF assms(1)] assms(2) by (blast intro: mc_step.mc_commit)

lemma planned_installs:
  "planned demo_cfg rooms_both task_rig" "planned demo_cfg rooms_both task_chip"
proof -
  have "installMinerPlan demo_cfg 1 (Some 11) (Some 14) rooms_both = Inr (the_plan (installMinerPlan demo_cfg 1 (Some 11) (Some 14) rooms_both))"
    "installMinerPlan demo_cfg 1 (Some 12) (Some 16) rooms_both = Inr (the_plan (installMinerPlan demo_cfg 1 (Some 12) (Some 16) rooms_both))"
    by code_simp+
  then show "planned demo_cfg rooms_both task_rig" "planned demo_cfg rooms_both task_chip"
    unfolding task_rig_def task_chip_def by (blast intro: planned.intros)+
qed

lemma rooms_reaches:
  "reaches mc_init (mc_step round8_away demo_cfg) (rooms_both, [])"
  "reaches mc_init (mc_step round8_away demo_cfg) (rooms_installed, [])"
  "reaches mc_init (mc_step round8_away demo_cfg) (rooms_both, [task_rig])"
  "reaches mc_init (mc_step round8_away demo_cfg) (rooms_raced, [])"
proof -
  let ?R = "reaches mc_init (mc_step round8_away demo_cfg)"
  have 0: "?R (rooms_start, [])" by (rule reaches.start) (simp add: mc_init_def rooms_start_def)
  have "buyRoomPlan demo_cfg 1 rooms_start = Inr (1, 0)" by code_simp
  then have 1: "?R (rooms_bought, [])" unfolding rooms_bought_def by (intro do_task(2) [OF 0] planned.intros)
  have 2: "?R (rooms_rig, [])" unfolding rooms_rig_def by (intro do_task(2) [OF 1] planned.intros)
  show 3: "?R (rooms_both, [])" unfolding rooms_both_def by (intro do_task(2) [OF 2] planned.intros)
  show 4: "?R (rooms_both, [task_rig])" by (rule do_task(1) [OF 3 planned_installs(1)])
  show "?R (rooms_installed, [])" unfolding rooms_installed_def by (rule do_task(2) [OF 3 planned_installs(1)])
  have 5: "?R (rooms_both, [task_chip, task_rig])" by (rule do_task(1) [OF 4 planned_installs(2)])
  have "task_chip \<noteq> task_rig" by code_simp
  then have "?R (rooms_installed, [task_chip])"
    using commit_task [OF 5, of task_rig] by (simp add: rooms_installed_def)
  from commit_task [OF this, of task_chip] show "?R (rooms_raced, [])" by (simp add: rooms_raced_def)
qed

lemma machine_rows_consistent_witness:
  "list_all (\<lambda>m. backed (st_owned rooms_installed) (um_ownedMachineId m, um_userId m, RACK)) (st_userMiners rooms_installed)
    \<and> length (st_userMiners rooms_installed) = 1"
proof
  show "list_all (\<lambda>m. backed (st_owned rooms_installed) (um_ownedMachineId m, um_userId m, RACK)) (st_userMiners rooms_installed)"
    using machine_rows_consistent [OF rooms_reaches(2), of 0] by blast
  show "length (st_userMiners rooms_installed) = 1" by code_simp
qed

text \<open>
  C11: no committed transaction loses or duplicates a machine: a user has as many machines as
  before, in the inventory, the racks and the vault together, except one more after a grant, one
  less after removing an inventory item, and without the temporary machines past their expiry after
  the cleanup; a transaction that fails changes nothing.
\<close>

lemma machines_conserved:
  assumes "reaches mc_init (mc_step dec8_of cfg) (s, ts)" and "task \<in> set ts"
  shows "case transaction (runTask dec8_of cfg now task) s of
      (Inl e, t) \<Rightarrow> t = s
    | (Inr x, t) \<Rightarrow> machinesOf u t = machinesOf u s + gain task u now s"
proof (cases "transaction (runTask dec8_of cfg now task) s")
  case (Pair r t)
  show ?thesis
  proof (cases r)
    case (Inl e)
    with Pair transaction_Inl [of "runTask dec8_of cfg now task" s e t] show ?thesis by simp
  next
    case (Inr x)
    with Pair have "runTask dec8_of cfg now task s = (Inr x, t)" by (simp add: transaction_Inr_iff)
    from runTask_result [OF mc_reach_ok(1,5) [OF assms(1)] this] assms(2) Inr Pair
    show ?thesis unfolding result_ok_def by simp
  qed
qed

lemma machines_conserved_witness:
  "machinesOf 1 (snd (transaction (runTask round8_away demo_cfg 7 task_rig) rooms_both)) = 2"
proof -
  have g: "gain task_rig 1 7 rooms_both = 0" by (simp add: task_rig_def)
  have n: "machinesOf 1 rooms_both = 2" by code_simp
  have "isl (fst (transaction (runTask round8_away demo_cfg 7 task_rig) rooms_both)) = False" by code_simp
  with machines_conserved [OF rooms_reaches(3), where task = task_rig and now = 7 and u = 1] g n show ?thesis
    by (auto split: prod.splits sum.splits)
qed

text \<open>
  C12: whatever requests interleave, a rack never refers to a machine that is gone: the machine it
  holds is installed and belongs to the owner of the rack, and the machine that blocks it is
  installed and, if a rack holds that machine, in the same room.
\<close>

lemma racks_never_dangle:
  assumes "reaches mc_init (mc_step dec8_of cfg) (s, ts)" and "k \<in> set (mc_racks s)"
  shows "(case rk_userMinerId k of None \<Rightarrow> True
      | Some i \<Rightarrow> list_ex (\<lambda>m. um_id m = i \<and> um_userId m = rk_userId k) (st_userMiners s))
    \<and> (case rk_blockedByMinerId k of None \<Rightarrow> True
      | Some i \<Rightarrow> list_ex (\<lambda>m. um_id m = i) (st_userMiners s)
          \<and> list_all (\<lambda>q. rk_userMinerId q = Some i \<longrightarrow> rk_roomId q = rk_roomId k) (mc_racks s))"
  using racks_okD [OF mc_reach_ok(4) [OF assms(1)]] assms(2)
  by (auto simp: list_ex_iff list_all_iff split: option.split)

lemma racks_never_dangle_witness:
  "list_ex (\<lambda>k. rk_userMinerId k = Some 17) (mc_racks rooms_installed)
    \<and> list_ex (\<lambda>m. um_id m = 17 \<and> um_userId m = 1) (st_userMiners rooms_installed)"
proof -
  have k: "list_ex (\<lambda>k. rk_userMinerId k = Some 17 \<and> rk_userId k = 1) (mc_racks rooms_installed)" by code_simp
  then obtain k where "k \<in> set (mc_racks rooms_installed)" "rk_userMinerId k = Some 17" "rk_userId k = 1"
    by (auto simp: list_ex_iff)
  with racks_never_dangle [OF rooms_reaches(2), of k] k show ?thesis by (auto simp: list_ex_iff)
qed


subsection \<open>Racks that are both occupied and blocked\<close>

lemma update_where_map: "update_where P f rows = map (\<lambda>r. if P r then f r else r) rows"
  by (simp add: update_where_def)

lemma installMinerPlan_InrD:
  assumes "installMinerPlan cfg u a b s = Inr p"
  shows "\<exists>i. positiveId a = Some i \<and> find_first (\<lambda>k. rk_id k = i \<and> rk_userId k = u) (mc_racks s) = Some (ip_rack p)"
    and "\<exists>j. positiveId b = Some j \<and> getInventoryItem u j s = Some (ip_item p)"
    and "\<not> rackOccupied (ip_rack p)"
    and "ip_adjacent p = Some q \<Longrightarrow> q \<in> set (mc_racks s) \<and> \<not> rackOccupied q \<and> rk_roomId q = rk_roomId (ip_rack p)
        \<and> rk_position q \<noteq> rk_position (ip_rack p)"
  using assms unfolding installMinerPlan_def
  by (auto simp: Let_def split: option.splits if_splits dest!: find_first_Some_conj)

definition linkRack :: "install_plan \<Rightarrow> int \<Rightarrow> millis \<Rightarrow> user_rack \<Rightarrow> user_rack" where
  "linkRack p mid now k =
     (let k1 = (if rk_id k = rk_id (ip_rack p) then k\<lparr>rk_userMinerId := Some mid, rk_installedAt := Some now\<rparr> else k)
      in case ip_adjacent p of
           None \<Rightarrow> k1
         | Some q \<Rightarrow> if rk_id k1 = rk_id q then k1\<lparr>rk_blockedByMinerId := Some mid\<rparr> else k1)"

definition installedRow :: "install_plan \<Rightarrow> int \<Rightarrow> int \<Rightarrow> int \<Rightarrow> user_miner" where
  "installedRow p u mid om = (let sn = inv_snap (ip_item p) in
     \<lparr>um_id = mid, um_userId = u, um_minerId = sn_minerId sn, um_slotIndex = ip_slotIndex p,
      um_level = sn_level sn, um_hashRate = sn_hashRate sn, um_slotSize = sn_slotSize sn,
      um_imageUrl = sn_imageUrl sn, um_isActive = True, um_ownedMachineId = Some om\<rparr>)"

lemma ownedKnown_image: "ownedKnown om s \<longleftrightarrow> om \<in> om_id ` set (st_owned s)"
  unfolding ownedKnown_def list_ex_iff by auto

text \<open>The tables after an install.\<close>

lemma delete_where_update: "(\<And>r. P r \<Longrightarrow> P (f r)) \<Longrightarrow> delete_where P (update_where P f rows) = delete_where P rows"
  by (induction rows) auto

lemma install_tables:
  assumes "installMinerTx u p now s = (Inr x, t)"
  obtains om mid where "mid = (if inv_ownedMachineId (ip_item p) = None then st_next s + 1 else st_next s)"
    "inv_ownedMachineId (ip_item p) = Some om \<or> inv_ownedMachineId (ip_item p) = None \<and> om = st_next s"
    "st_userMiners t = st_userMiners s @ [installedRow p u mid om]"
    "mc_racks t = map (linkRack p mid now) (mc_racks s)"
    "st_inventory t = delete_where (\<lambda>i. inv_id i = inv_id (ip_item p)) (st_inventory s)"
    "ownedKnown om t" "minerKnown (sn_minerId (inv_snap (ip_item p))) s" "st_miners t = st_miners s" "st_next t = mid + 1"
    "mc_rooms t = mc_rooms s" "mc_vault t = mc_vault s" "st_users t = st_users s"
proof -
  let ?it = "ip_item p" and ?D = "\<lambda>i. inv_id i = inv_id (ip_item p)"
  obtain om s1 mid s2 s3 s4 s5 where
    e: "ensureOwnedMachineForInventoryTx ?it s = (Inr om, s1)"
    and c: "createUserMiner u (ip_slotIndex p) (inv_snap ?it) om s1 = (Inr mid, s2)"
    and h: "updateRack (rk_id (ip_rack p)) (\<lambda>k. k\<lparr>rk_userMinerId := Some mid, rk_installedAt := Some now\<rparr>) s2 = (Inr (), s3)"
    and b: "blockAdjacent (ip_adjacent p) mid s3 = (Inr (), s4)"
    and y: "syncOwnedMachineSnapshotTx om RACK (inv_snap ?it) s4 = (Inr (), s5)"
    and d: "deleteInventory ?D s5 = (Inr (), t)"
    using assms unfolding installMinerTx_def by (auto simp: Let_def and_then_Inr_iff)
  have e1: "st_userMiners s1 = st_userMiners s" "mc_racks s1 = mc_racks s" "mc_vault s1 = mc_vault s" "mc_rooms s1 = mc_rooms s"
    "st_miners s1 = st_miners s" "st_users s1 = st_users s"
    "delete_where ?D (st_inventory s1) = delete_where ?D (st_inventory s)"
    "inv_ownedMachineId ?it = Some om \<and> st_next s1 = st_next s
      \<or> inv_ownedMachineId ?it = None \<and> om = st_next s \<and> st_next s1 = st_next s + 1"
    using e unfolding ensureOwnedMachineForInventoryTx_def
    by (auto simp: and_then_Inr_iff delete_where_update split: option.splits if_splits dest!: createOwned_InrD)
  note c2 = createUserMiner_InrD [OF c] and h3 = updateRack_InrD [OF h] and y5 = sync_InrD [OF y]
  have k: "minerKnown (sn_minerId (inv_snap ?it)) s1" and ko: "ownedKnown om s1"
    using c unfolding createUserMiner_def by (auto split: if_splits)
  have b4: "s4 = s3\<lparr>mc_racks := mc_racks s4\<rparr>" "mc_racks s4 = map (linkRack p mid now) (mc_racks s)"
    using b h3 c2 e1(2) unfolding blockAdjacent_def linkRack_def
    by (auto simp: update_where_map Let_def split: option.splits dest!: updateRack_InrD)
  have t: "t = s5\<lparr>st_inventory := delete_where ?D (st_inventory s5)\<rparr>"
    using d unfolding deleteInventory_def by (auto split: if_splits)
  show ?thesis
  proof (rule that [of mid om])
    show "mid = (if inv_ownedMachineId ?it = None then st_next s + 1 else st_next s)" using e1(8) c2 by auto
    show "inv_ownedMachineId ?it = Some om \<or> inv_ownedMachineId ?it = None \<and> om = st_next s" using e1(8) by auto
    show "st_userMiners t = st_userMiners s @ [installedRow p u mid om]"
      unfolding t y5 by (subst b4(1)) (simp add: h3 c2 e1 installedRow_def Let_def)
    show "mc_racks t = map (linkRack p mid now) (mc_racks s)" unfolding t y5 using b4(2) by simp
    show "st_inventory t = delete_where ?D (st_inventory s)"
      unfolding t y5 by (subst b4(1)) (simp add: h3 c2 e1)
    have "st_owned s4 = st_owned s1" by (subst b4(1)) (simp add: h3 c2)
    moreover have "om_id ` set (st_owned t) = om_id ` set (st_owned s4)"
      unfolding t y5 by (simp add: image_update_where)
    ultimately show "ownedKnown om t" using ko unfolding ownedKnown_image by simp
    show "minerKnown (sn_minerId (inv_snap ?it)) s" using k e1(5) by (simp add: minerKnown_def catalogOf_def split: option.splits)
    show "st_miners t = st_miners s" "mc_rooms t = mc_rooms s" "mc_vault t = mc_vault s" "st_users t = st_users s"
      unfolding t y5 by (subst b4(1), simp add: h3 c2 e1)+
    show "st_next t = mid + 1" unfolding t y5 by (subst b4(1)) (simp add: h3 c2 e1)
  qed
qed

lemma installMiner_InrD:
  assumes "installMiner cfg u a b now s = (Inr x, t)"
  obtains p t' where "installMinerPlan cfg u a b s = Inr p" "installMinerTx u p now s = (Inr (), t')"
    "t = notify u (maquina @ '' Instalada'') ''success'' (logCall (ReloadProfile u) t')"
  using assms unfolding installMiner_def answered_def
  by (auto simp: transaction_def split: sum.splits prod.splits)

lemma installMiner_InlD:
  assumes "installMiner cfg u a b now s = (Inl e, t)"
  shows "t = s"
  using assms unfolding installMiner_def answered_def
  by (auto simp: transaction_def split: sum.splits prod.splits)

text \<open>
  A rack is never both occupied and blocked as long as the installs run one after the other;
  but two installs validated before either committed, a two-slot machine into a rack and another
  machine into the next one, both commit and leave the second rack occupied and blocked at once.
\<close>

lemma rack_exclusive_unless_race:
  assumes "reaches mc_init (mc_step dec8_of cfg) (s, ts)" and "rack_exclusive s"
  shows "rack_exclusive (snd (installMiner cfg u a b now s))
    \<and> (\<exists>s'. reaches mc_init (mc_step round8_away demo_cfg) (s', []) \<and> \<not> rack_exclusive s')"
proof
  have i: "ids_ok s" by (rule mc_reach_ok(3) [OF assms(1)])
  show "rack_exclusive (snd (installMiner cfg u a b now s))"
  proof (cases "installMiner cfg u a b now s")
    case (Pair r t)
    show ?thesis
    proof (cases r)
      case (Inl e)
      with Pair assms(2) installMiner_InlD show ?thesis by fastforce
    next
      case (Inr x)
      with Pair obtain p t' where p: "installMinerPlan cfg u a b s = Inr p" and tx: "installMinerTx u p now s = (Inr (), t')"
        and t: "t = notify u (maquina @ '' Instalada'') ''success'' (logCall (ReloadProfile u) t')"
        using installMiner_InrD by blast
      obtain mid where r: "mc_racks t' = map (linkRack p mid now) (mc_racks s)" using install_tables [OF tx] by metis
      have h: "ip_rack p \<in> set (mc_racks s)" "\<not> rackOccupied (ip_rack p)"
        using installMinerPlan_InrD(1,3) [OF p] by (auto dest!: find_first_Some_conj)
      note adj = installMinerPlan_InrD(4) [OF p]
      have u: "q = k" if "q \<in> set (mc_racks s)" "k \<in> set (mc_racks s)" "rk_id q = rk_id k" for q k
        using unique_key_eqD [OF ids_okD(5) [OF i] that] .
      have "rk_userMinerId (linkRack p mid now k) = None \<or> rk_blockedByMinerId (linkRack p mid now k) = None"
        if k: "k \<in> set (mc_racks s)" for k :: user_rack
      proof -
        have o: "rk_userMinerId k = None \<or> rk_blockedByMinerId k = None"
          using bspec [OF assms(2) [unfolded rack_exclusive_def list_all_iff] k] .
        have a: "k = ip_rack p" if "rk_id k = rk_id (ip_rack p)" using u k h(1) that by blast
        have b: "k = q" if "rk_id k = rk_id q" "ip_adjacent p = Some q" for q using u k adj that by blast
        show ?thesis using o a b h adj unfolding linkRack_def rackOccupied_def
          by (auto simp: Let_def split: option.split)
      qed
      then show ?thesis using Pair t r unfolding rack_exclusive_def list_all_iff by simp
    qed
  qed
  have "\<not> rack_exclusive rooms_raced" by code_simp
  then show "\<exists>s'. reaches mc_init (mc_step round8_away demo_cfg) (s', []) \<and> \<not> rack_exclusive s'"
    using rooms_reaches(4) by blast
qed

lemma rack_exclusive_unless_race_witness:
  "rack_exclusive (snd (installMiner demo_cfg 1 (Some 11) (Some 14) 0 rooms_both))"
proof -
  have "rack_exclusive rooms_both" by code_simp
  from rack_exclusive_unless_race [OF rooms_reaches(1) this] show ?thesis by blast
qed

end
