(* ===== verification/RoomClaims.thy ===== *)
theory RoomClaims
  imports MachineClaims
begin

section \<open>Claims about rooms, the round trip of a machine and displaced machines\<close>

lemma getUser_users: "st_users s = st_users t \<Longrightarrow> getUser u s = getUser u t"
  by (simp add: getUser_def)

lemma polOf_users: "st_users s = st_users t \<Longrightarrow> polOf u s = polOf u t"
  by (simp add: polOf_def getUser_def)

lemma chargePol_InrD:
  assumes "chargePol dec8_of u price s = (Inr x, t)"
  shows "polOf v t = (if v = u \<and> 0 < price then map_option (\<lambda>b. b - dec8_of price) (polOf v s) else polOf v s)"
    and "mc_rooms t = mc_rooms s" "mc_racks t = mc_racks s" "st_next t = st_next s" "getUser u t = None \<longleftrightarrow> getUser u s = None"
proof -
  have t: "t = (if 0 < price then addPol u (- dec8_of price) s else s)"
    using assms unfolding chargePol_def by (auto split: if_splits option.splits)
  show "polOf v t = (if v = u \<and> 0 < price then map_option (\<lambda>b. b - dec8_of price) (polOf v s) else polOf v s)"
    by (cases "polOf v s") (simp_all add: t)
  show "mc_rooms t = mc_rooms s" "mc_racks t = mc_racks s" "st_next t = st_next s"
    by (simp_all add: t addPol_def updUser_def)
  show "getUser u t = None \<longleftrightarrow> getUser u s = None"
    by (simp add: t addPol_def getUser_updUser)
qed

lemma chargePol_total: "getUser u s \<noteq> None \<Longrightarrow> \<exists>t. chargePol dec8_of u price s = (Inr (), t)"
  unfolding chargePol_def by (auto split: option.split)

text \<open>
  C13: buying a room either changes nothing, or it is the next room of the user within the allowed
  number, its price is covered by the balance and deducted from this user only, the room is created
  with the configured number of empty racks, and a second transaction for the same room (a
  request validated at the same time) fails and charges nothing.
\<close>

lemma buy_room:
  "case buyRoom dec8_of cfg u s of
     (Inl e, t) \<Rightarrow> t = s \<and> (buyRoomPlan cfg u s = Inl e \<or> e = ServerError)
   | (Inr (n, rid), t) \<Rightarrow>
       \<exists>price b. n = int (length (roomsOf u s)) + 1 \<and> n \<le> rc_roomMax cfg \<and> priceOf cfg n = Some price \<and> 0 \<le> price
         \<and> polOf u s = Some b \<and> price \<le> toNumber b
         \<and> polOf v t = (if v = u \<and> 0 < price then map_option (\<lambda>b. b - dec8_of price) (polOf v s) else polOf v s)
         \<and> mc_rooms t = mc_rooms s @ [\<lparr>rm_id = rid, rm_userId = u, rm_roomNumber = n, rm_pricePaid = dec8_of price\<rparr>]
         \<and> mc_racks t = mc_racks s @ newRacks (rid + 1) u rid (rc_racksPerRoom cfg)
         \<and> transaction (buyRoomTx dec8_of cfg u n price) t = (Inl P2002, t)"
proof (cases "buyRoomPlan cfg u s")
  case (Inl e)
  then show ?thesis by (simp add: buyRoom_def)
next
  case (Inr np)
  obtain n price where np: "np = (n, price)" by (cases np)
  with Inr have n: "n = int (length (roomsOf u s)) + 1" "n \<le> rc_roomMax cfg" "priceOf cfg n = Some price" "0 \<le> price"
    and us: "\<exists>b. polOf u s = Some b \<and> price \<le> toNumber b"
    unfolding buyRoomPlan_def by (auto simp: Let_def polOf_def split: if_splits option.splits)
  show ?thesis
  proof (cases "buyRoomTx dec8_of cfg u n price s")
    case (Pair r t)
    show ?thesis
    proof (cases r)
      case (Inl f)
      with Pair Inr np show ?thesis by (simp add: buyRoom_def answered_def transaction_def)
    next
      case (Inr rid)
      with Pair obtain s1 s2 where c: "chargePol dec8_of u price s = (Inr (), s1)"
        and m: "createRoom dec8_of u n price s1 = (Inr rid, s2)"
        and k: "createRacks u rid (rc_racksPerRoom cfg) s2 = (Inr (), t)"
        unfolding buyRoomTx_def by (auto simp: and_then_Inr_iff)
      have t: "mc_rooms t = mc_rooms s @ [\<lparr>rm_id = rid, rm_userId = u, rm_roomNumber = n, rm_pricePaid = dec8_of price\<rparr>]"
        "mc_racks t = mc_racks s @ newRacks (rid + 1) u rid (rc_racksPerRoom cfg)" "st_users t = st_users s1"
        using m k chargePol_InrD(2-4) [OF c] unfolding createRoom_def createRacks_def
        by (auto split: if_splits)
      let ?e = "notify u ''Sala Desbloqueada!'' ''success'' (if 0 < price then logCall (BalanceDelta u (- price)) t else t)"
      have out: "buyRoom dec8_of cfg u s = (Inr (n, rid), ?e)"
        using Pair Inr \<open>buyRoomPlan cfg u s = Inr np\<close> np by (simp add: buyRoom_def answered_def transaction_def)
      have e: "mc_rooms ?e = mc_rooms t" "mc_racks ?e = mc_racks t" "st_users ?e = st_users t" by simp_all
      have again: "transaction (buyRoomTx dec8_of cfg u n price) ?e = (Inl P2002, ?e)"
      proof -
        have "getUser u ?e \<noteq> None"
          using us chargePol_InrD(5) [OF c] getUser_users [of ?e s1 u] e(3) t(3) by (auto simp: polOf_def)
        then obtain s' where s': "chargePol dec8_of u price ?e = (Inr (), s')" using chargePol_total by blast
        have "mc_rooms s' = mc_rooms t" using chargePol_InrD(2) [OF s'] e(1) by simp
        then have "createRoom dec8_of u n price s' = (Inl P2002, s')" unfolding createRoom_def using t(1) by simp
        with s' show ?thesis by (simp add: buyRoomTx_def and_then_def transaction_def)
      qed
      have "polOf v ?e = (if v = u \<and> 0 < price then map_option (\<lambda>b. b - dec8_of price) (polOf v s) else polOf v s)"
        using chargePol_InrD(1) [OF c, of v] polOf_users [of ?e s1 v] e(3) t(3) by simp
      with out n us t e again show ?thesis by auto
    qed
  qed
qed

subsection \<open>Displaced machines\<close>

lemma displace_children:
  assumes i: "ids_ok s" and m: "m \<in> set (st_userMiners s)" and d: "displaceTx u now (m, sn) s = (Inr x, t)"
  shows "\<exists>D. children s = add_mset (um_ownedMachineId m, um_userId m, RACK) D
    \<and> children t = add_mset (Some (st_next s), u, INVENTORY) D"
    and "st_owned t = st_owned s @ [\<lparr>om_id = st_next s, om_userId = u, om_location = INVENTORY, om_snap = sn\<rparr>]"
proof -
  obtain s1 s2 s3 om row where
    r: "releaseUserMinerFromRacksTx (um_id m) s = (Inr (), s1)"
    and o: "createOwned u INVENTORY sn s1 = (Inr om, s2)"
    and c: "createInventory u sn now None om s2 = (Inr row, s3)"
    and e: "deleteUserMiner (um_id m) s3 = (Inr (), t)"
    using d unfolding displaceTx_def createInventoryWithOwnedMachineTx_def by (auto simp: and_then_Inr_iff)
  have q: "quiet s s1" using r by (rule release_quiet)
  note s2 = createOwned_InrD [OF o] and cl = createInventory_law [OF c]
  have i2: "ids_ok s2"
  proof -
    have "ids_ok s1" using q i unfolding quiet_def by blast
    then show ?thesis using s2 unfolding ids_ok_def by auto
  qed
  have c3: "children s3 = add_mset (Some (st_next s), u, INVENTORY) (children s)"
    using cl(1) s2 quiet_children [OF q] q unfolding quiet_def by simp
  have um3: "st_userMiners s3 = st_userMiners s" using q s2 cl(4) unfolding quiet_def by simp
  obtain rw where rw: "rw \<in> set (st_userMiners s3)" "um_id rw = um_id m"
    "children s3 = add_mset (um_ownedMachineId rw, um_userId rw, RACK) (children t)" "st_owned t = st_owned s3"
    using deleteUserMiner_law [OF e cl(2) [OF i2]] by metis
  have "rw = m" using rw(1,2) um3 m unique_key_eqD [OF ids_okD(2) [OF i]] by auto
  with rw c3 have "add_mset (Some (st_next s), u, INVENTORY) (children s) = add_mset (um_ownedMachineId m, um_userId m, RACK) (children t)"
    by simp
  then show "\<exists>D. children s = add_mset (um_ownedMachineId m, um_userId m, RACK) D
    \<and> children t = add_mset (Some (st_next s), u, INVENTORY) D" unfolding add_eq_conv_ex by auto
  show "st_owned t = st_owned s @ [\<lparr>om_id = st_next s, om_userId = u, om_location = INVENTORY, om_snap = sn\<rparr>]"
    using rw(4) cl(7) s2 q unfolding quiet_def by simp
qed

text \<open>
  A machine that another one displaces from its slot is given a new canonical row, and its old
  canonical row stays behind: it still says RACK, and no row of the inventory, the racks or the vault
  belongs to it any more.
\<close>

lemma displaced_machine_orphaned:
  assumes "reaches mc_init (mc_step dec8_of cfg) (s, ts)" and "m \<in> set (st_userMiners s)"
    and "um_ownedMachineId m = Some om" and "displaceTx u now (m, sn) s = (Inr x, t)"
  shows "list_ex (\<lambda>r. om_id r = om \<and> om_location r = RACK) (st_owned t)
    \<and> count_where (\<lambda>i. inv_ownedMachineId i = Some om) (st_inventory t)
    + count_where (\<lambda>m. um_ownedMachineId m = Some om) (st_userMiners t)
    + count_where (\<lambda>v. vt_ownedMachineId v = Some om) (mc_vault t) = 0"
proof -
  have i: "ids_ok s" and g: "reg_ok (children s) (st_owned s)"
    using mc_reach_ok(2) [OF assms(1)] unfolding registered_def by auto
  obtain D where D: "children s = add_mset (Some om, um_userId m, RACK) D"
    "children t = add_mset (Some (st_next s), u, INVENTORY) D"
    using displace_children(1) [OF i assms(2,4)] assms(3) by auto
  have "backed (st_owned s) (Some om, um_userId m, RACK)" using g D(1) unfolding reg_ok_def by auto
  then obtain r where r: "r \<in> set (st_owned s)" "om_id r = om" "om_location r = RACK" unfolding backed_def by auto
  then have "list_ex (\<lambda>r. om_id r = om \<and> om_location r = RACK) (st_owned t)"
    using displace_children(2) [OF i assms(2,4)] by (auto simp: list_ex_iff)
  moreover have n: "fst c \<noteq> Some om" if "c \<in># children t" for c
  proof -
    have "st_next s \<noteq> om" using ids_okD(10) [OF i] r by auto
    with that D(2) reg_ok_owned_unique [of om "um_userId m" RACK D "st_owned s" c] g D(1) show ?thesis by auto
  qed
  have "size (filter_mset (\<lambda>c. fst c = Some om) (children t)) = 0" by (simp add: filter_mset_none n)
  ultimately show ?thesis unfolding refs_children by simp
qed

lemma displaced_machine_orphaned_witness:
  "\<exists>t. displaceTx 1 0 (hd (st_userMiners rooms_installed), demo_rig) rooms_installed = (Inr (), t)
    \<and> list_ex (\<lambda>r. om_id r = 13 \<and> om_location r = RACK) (st_owned t)"
proof -
  let ?m = "hd (st_userMiners rooms_installed)"
  have "isl (fst (displaceTx 1 0 (?m, demo_rig) rooms_installed)) = False" by code_simp
  then obtain t where t: "displaceTx 1 0 (?m, demo_rig) rooms_installed = (Inr (), t)"
    by (cases "displaceTx 1 0 (?m, demo_rig) rooms_installed"; cases "fst (displaceTx 1 0 (?m, demo_rig) rooms_installed)") auto
  have m: "?m \<in> set (st_userMiners rooms_installed)" "um_ownedMachineId ?m = Some 13" by code_simp+
  from displaced_machine_orphaned [OF rooms_reaches(2) m t] t show ?thesis by blast
qed

subsection \<open>Installing and uninstalling\<close>

lemma uninstalled_rack:
  assumes i: "ids_ok s" and r: "racks_ok s" and p: "installMinerPlan cfg u a b s = Inr p" and mid: "st_next s \<le> mid"
    and k: "k \<in> set (mc_racks s)"
  shows "(let k1 = linkRack p mid now k;
              k2 = (if rk_id k1 = rk_id (ip_rack p) then k1\<lparr>rk_userMinerId := None, rk_installedAt := None\<rparr> else k1);
              k3 = (if rk_roomId k2 = rk_roomId (ip_rack p) \<and> rk_blockedByMinerId k2 = Some mid
                    then k2\<lparr>rk_blockedByMinerId := None\<rparr> else k2);
              k4 = (if rk_userMinerId k3 = Some mid then k3\<lparr>rk_userMinerId := None\<rparr> else k3)
          in k4\<lparr>rk_installedAt := None\<rparr>) = k\<lparr>rk_installedAt := None\<rparr>"
proof -
  have h: "ip_rack p \<in> set (mc_racks s)" "\<not> rackOccupied (ip_rack p)"
    using installMinerPlan_InrD(1,3) [OF p] by (auto dest!: find_first_Some_conj)
  note adj = installMinerPlan_InrD(4) [OF p]
  have u: "q = k" if "q \<in> set (mc_racks s)" "rk_id k = rk_id q" for q
    using unique_key_eqD [OF ids_okD(5) [OF i] that(1) k] that(2) by simp
  have fresh: "rk_userMinerId k \<noteq> Some mid" "rk_blockedByMinerId k \<noteq> Some mid"
    using racks_okD(1,2) [OF r k] ids_okD(7) [OF i] mid by fastforce+
  have a: "k = ip_rack p" if "rk_id k = rk_id (ip_rack p)" using u h(1) that by blast
  have b: "k = q" if "rk_id k = rk_id q" "ip_adjacent p = Some q" for q using u adj that by blast
  consider (rack) "rk_id k = rk_id (ip_rack p)" | (adjacent) q where "rk_id k \<noteq> rk_id (ip_rack p)" "ip_adjacent p = Some q" "rk_id k = rk_id q"
    | (other) "rk_id k \<noteq> rk_id (ip_rack p)" "\<And>q. ip_adjacent p = Some q \<Longrightarrow> rk_id k \<noteq> rk_id q" by blast
  then show ?thesis
  proof cases
    case rack
    then have e: "k = ip_rack p" and o: "rk_userMinerId k = None" "rk_blockedByMinerId k = None"
      using a h(2) unfolding rackOccupied_def by auto
    have l: "linkRack p mid now k = k\<lparr>rk_userMinerId := Some mid, rk_installedAt := Some now\<rparr>"
      using rack b adj e unfolding linkRack_def by (auto simp: Let_def split: option.split)
    show ?thesis unfolding l using rack o by (simp add: Let_def)
  next
    case adjacent
    then have e: "k = q" and o: "rk_userMinerId k = None" "rk_blockedByMinerId k = None" "rk_roomId k = rk_roomId (ip_rack p)"
      using b adj [of q] unfolding rackOccupied_def by auto
    have l: "linkRack p mid now k = k\<lparr>rk_blockedByMinerId := Some mid\<rparr>"
      using adjacent unfolding linkRack_def by (simp add: Let_def)
    show ?thesis unfolding l using adjacent(1) o by (simp add: Let_def)
  next
    case other
    then have l: "linkRack p mid now k = k" unfolding linkRack_def by (auto simp: Let_def split: option.split)
    show ?thesis unfolding l using other(1) fresh by (simp add: Let_def)
  qed
qed

text \<open>The racks after an uninstall, one rack at a time.\<close>

definition unlinkRack :: "user_rack \<Rightarrow> int \<Rightarrow> user_rack \<Rightarrow> user_rack" where
  "unlinkRack rack mid k =
     (let k2 = (if rk_id k = rk_id rack then k\<lparr>rk_userMinerId := None, rk_installedAt := None\<rparr> else k);
          k3 = (if rk_roomId k2 = rk_roomId rack \<and> rk_blockedByMinerId k2 = Some mid
                then k2\<lparr>rk_blockedByMinerId := None\<rparr> else k2)
      in if rk_userMinerId k3 = Some mid then k3\<lparr>rk_userMinerId := None\<rparr> else k3)"

text \<open>An uninstall succeeds when its machine is there and its canonical row is free to be used.\<close>

lemma uninstall_tables:
  assumes rack: "\<exists>k \<in> set (mc_racks t). rk_id k = rk_id rack" and om: "um_ownedMachineId m = Some om"
    and free: "\<And>i. i \<in> set (st_inventory t) \<Longrightarrow> inv_ownedMachineId i \<noteq> Some om"
    and known: "ownedKnown om t" "minerKnown (sn_minerId sn) t" and m: "m \<in> set (st_userMiners t)"
  shows "\<exists>v. uninstallMinerTx u rack m sn now t = (Inr (), v)
    \<and> st_userMiners v = delete_where (\<lambda>q. um_id q = um_id m) (st_userMiners t)
    \<and> st_inventory v = st_inventory t @ [\<lparr>inv_id = st_next t, inv_userId = u, inv_snap = sn, inv_acquiredAt = now,
        inv_expiresAt = None, inv_ownedMachineId = Some om\<rparr>]
    \<and> mc_racks v = map (unlinkRack rack (um_id m)) (mc_racks t)"
proof -
  let ?f = "\<lambda>k. k\<lparr>rk_userMinerId := None :: int option, rk_installedAt := None :: millis option\<rparr>"
  let ?g = "\<lambda>k. k\<lparr>rk_blockedByMinerId := None :: int option\<rparr>"
  let ?P = "\<lambda>q. rk_roomId q = rk_roomId rack \<and> rk_blockedByMinerId q = Some (um_id m)"
  let ?r1 = "update_where (\<lambda>k. rk_id k = rk_id rack) ?f (mc_racks t)"
  let ?r2 = "update_where ?P ?g ?r1"
  let ?row = "\<lparr>inv_id = st_next t, inv_userId = u, inv_snap = sn, inv_acquiredAt = now, inv_expiresAt = None,
    inv_ownedMachineId = Some om\<rparr>"
  let ?t2 = "t\<lparr>mc_racks := ?r2\<rparr>"
  let ?t3 = "?t2\<lparr>st_inventory := st_inventory t @ [?row], st_next := st_next t + 1\<rparr>"
  let ?t4 = "?t3\<lparr>st_owned := update_where (\<lambda>r. om_id r = om) (\<lambda>r. r\<lparr>om_location := INVENTORY, om_snap := sn\<rparr>) (st_owned t)\<rparr>"
  let ?v = "?t4\<lparr>st_userMiners := delete_where (\<lambda>q. um_id q = um_id m) (st_userMiners t),
    mc_racks := update_where (\<lambda>k. rk_userMinerId k = Some (um_id m)) (\<lambda>k. k\<lparr>rk_userMinerId := None\<rparr>) ?r2\<rparr>"
  have 1: "updateRack (rk_id rack) ?f t = (Inr (), t\<lparr>mc_racks := ?r1\<rparr>)"
    using rack unfolding updateRack_def by (auto simp: list_ex_iff)
  have k: "ownedKnown om ?t2" "minerKnown (sn_minerId sn) ?t2" "ownedKnown om ?t3" "minerKnown (sn_minerId sn) ?t3"
    using known by (simp_all add: ownedKnown_def minerKnown_def catalogOf_def split: option.splits)
  have 2: "createInventory u sn now None om ?t2 = (Inr ?row, ?t3)"
    using free k(1,2) unfolding createInventory_def by (auto simp: list_ex_iff Let_def)
  have 3: "syncOwnedMachineSnapshotTx om INVENTORY sn ?t3 = (Inr (), ?t4)"
    using k(3,4) unfolding syncOwnedMachineSnapshotTx_def by simp
  have 4: "deleteUserMiner (um_id m) ?t4 = (Inr (), ?v)"
    using m unfolding deleteUserMiner_def by (auto simp: list_ex_iff)
  have "uninstallMinerTx u rack m sn now t = (Inr (), ?v)"
    unfolding uninstallMinerTx_def ensureOwnedMachineForUserMinerTx_def om
    using 1 2 3 4 by (simp add: and_then_def modify_def ret_def)
  moreover have "mc_racks ?v = map (unlinkRack rack (um_id m)) (mc_racks t)"
    unfolding update_where_map unlinkRack_def by (simp add: Let_def comp_def cong: map_cong)
  ultimately show ?thesis by (intro exI [of _ ?v]) simp
qed

text \<open>
  C14: a machine that is installed and then uninstalled comes back to the inventory of its owner with
  the same catalog entry, level, hash rate, size and canonical row, and the racks and the installed
  machines are as before.  What does not come back is its expiry: a temporary machine (the faucet
  gives one for 24 hours) returns as a permanent one; and its name becomes the one of the catalog.
\<close>

lemma install_uninstall:
  assumes "reaches mc_init (mc_step dec8_of cfg) (s, ts)" and "installMiner cfg u a b now s = (Inr (), t)"
  shows "\<exists>item om v. item \<in> set (st_inventory s) \<and> Some (inv_id item) = positiveId b \<and> inv_userId item = u
    \<and> (inv_ownedMachineId item = Some om \<or> inv_ownedMachineId item = None)
    \<and> uninstallMiner u a now' t = (Inr (), v)
    \<and> st_userMiners v = st_userMiners s
    \<and> map (\<lambda>k. k\<lparr>rk_installedAt := None\<rparr>) (mc_racks v) = map (\<lambda>k. k\<lparr>rk_installedAt := None\<rparr>) (mc_racks s)
    \<and> st_inventory v = delete_where (\<lambda>i. inv_id i = inv_id item) (st_inventory s)
        @ [item\<lparr>inv_id := st_next t, inv_acquiredAt := now', inv_expiresAt := None, inv_ownedMachineId := Some om,
             inv_snap := (inv_snap item)\<lparr>sn_minerName := uninstalledName (last (st_userMiners t)) t,
               sn_imageUrl := or_null (sn_imageUrl (inv_snap item)) (catalogImage (sn_minerId (inv_snap item)) t)\<rparr>\<rparr>]"
proof -
  note ok = mc_reach_ok [OF assms(1)]
  obtain p t' where p: "installMinerPlan cfg u a b s = Inr p" and tx: "installMinerTx u p now s = (Inr (), t')"
    and t: "t = notify u (maquina @ '' Instalada'') ''success'' (logCall (ReloadProfile u) t')"
    using installMiner_InrD [OF assms(2)] by blast
  let ?it = "ip_item p" and ?rack = "ip_rack p"
  obtain i j where i: "positiveId a = Some i" "find_first (\<lambda>k. rk_id k = i \<and> rk_userId k = u) (mc_racks s) = Some ?rack"
    and j: "positiveId b = Some j" "getInventoryItem u j s = Some ?it" and no: "\<not> rackOccupied ?rack"
    using installMinerPlan_InrD(1-3) [OF p] by blast
  have rk: "?rack \<in> set (mc_racks s)" "rk_id ?rack = i" "rk_userId ?rack = u" using i(2) by (auto dest!: find_first_Some_conj)
  have it: "?it \<in> set (st_inventory s)" "inv_id ?it = j" "inv_userId ?it = u"
    using j(2) unfolding getInventoryItem_def by (auto dest!: find_first_Some_conj)
  note adj = installMinerPlan_InrD(4) [OF p]
  obtain om mid where mid: "mid = (if inv_ownedMachineId ?it = None then st_next s + 1 else st_next s)"
    and om: "inv_ownedMachineId ?it = Some om \<or> inv_ownedMachineId ?it = None \<and> om = st_next s"
    and um: "st_userMiners t' = st_userMiners s @ [installedRow p u mid om]"
    and racks: "mc_racks t' = map (linkRack p mid now) (mc_racks s)"
    and inv: "st_inventory t' = delete_where (\<lambda>i. inv_id i = inv_id ?it) (st_inventory s)"
    and kn: "ownedKnown om t'" "minerKnown (sn_minerId (inv_snap ?it)) s" "st_miners t' = st_miners s"
    using install_tables [OF tx] by metis
  let ?M = "installedRow p u mid om"
  have M: "um_id ?M = mid" "um_ownedMachineId ?M = Some om" "um_minerId ?M = sn_minerId (inv_snap ?it)"
    by (simp_all add: installedRow_def Let_def)
  have le: "st_next s \<le> mid" using mid by simp
  have t_tables: "mc_racks t = mc_racks t'" "st_userMiners t = st_userMiners t'" "st_inventory t = st_inventory t'"
    "st_owned t = st_owned t'" "st_miners t = st_miners t'" using t by simp_all
  \<comment> \<open>what the uninstall reads\<close>
  have old: "um_id q \<noteq> mid" if "q \<in> set (st_userMiners s)" for q using ids_okD(7) [OF ok(3) that] le by simp
  then have fM: "find_first (\<lambda>m. um_id m = mid) (st_userMiners t) = Some ?M"
    unfolding t_tables um find_first_append using M(1) by (auto simp: find_first_None_iff split: option.split dest!: find_first_Some_conj)
  let ?R = "linkRack p mid now ?rack"
  have R: "rk_id ?R = i" "rk_userId ?R = u" "rk_userMinerId ?R = Some mid" "rk_roomId ?R = rk_roomId ?rack"
    using rk unfolding linkRack_def by (auto simp: Let_def split: option.split)
  have ids: "rk_id (linkRack p mid now k) = rk_id k" for k
    unfolding linkRack_def by (auto simp: Let_def split: option.split)
  have fR: "find_first (\<lambda>k. rk_id k = i \<and> rk_userId k = u) (mc_racks t) = Some ?R"
  proof (rule find_first_unique)
    show "?R \<in> set (mc_racks t)" using rk(1) unfolding t_tables racks by simp
    show "rk_id ?R = i \<and> rk_userId ?R = u" using R by simp
    fix q assume "q \<in> set (mc_racks t)" "rk_id q = i \<and> rk_userId q = u"
    then obtain k where "k \<in> set (mc_racks s)" "q = linkRack p mid now k" "rk_id k = i"
      unfolding t_tables racks using ids by auto
    then show "q = ?R" using unique_key_eqD [OF ids_okD(5) [OF ok(3)] _ rk(1)] rk(2) by auto
  qed
  let ?sn = "rackSnapshot ?M (uninstalledName ?M t) (or_null (um_imageUrl ?M) (catalogImage (um_minerId ?M) t))"
  have plan: "uninstallMinerPlan u a t = Inr (?R, ?M, ?sn)"
    unfolding uninstallMinerPlan_def using i(1) fR R(3) fM by simp
  \<comment> \<open>the canonical row of the machine is free for an inventory row\<close>
  have tok: "mc_ok t'"
  proof -
    have "task_ok s (TInstall u p)" by (rule planned_ok [OF ok(1)]) (rule planned.intros(2) [OF p])
    from sound_ok [OF install_sound [OF ok(1) tx this]] show ?thesis .
  qed
  have free: "inv_ownedMachineId q \<noteq> Some om" if "q \<in> set (st_inventory t)" for q
  proof
    assume q: "inv_ownedMachineId q = Some om"
    have "size (filter_mset (\<lambda>c. fst c = Some om) (children t')) \<le> 1"
      using tok unfolding mc_ok_def registered_def reg_ok_def by blast
    moreover have "0 < count_where (\<lambda>i. inv_ownedMachineId i = Some om) (st_inventory t')"
      using that q unfolding t_tables by (rule count_where_pos)
    moreover have "0 < count_where (\<lambda>m. um_ownedMachineId m = Some om) (st_userMiners t')"
      by (rule count_where_pos [of ?M]) (simp_all add: um M)
    ultimately show False unfolding refs_children by simp
  qed
  have known: "ownedKnown om t" "minerKnown (sn_minerId ?sn) t"
    using kn M(3) t_tables by (simp_all add: ownedKnown_def minerKnown_def catalogOf_def rackSnapshot_def split: option.splits)
  obtain v where v: "uninstallMinerTx u ?R ?M ?sn now' t = (Inr (), v)"
    and v_um: "st_userMiners v = delete_where (\<lambda>q. um_id q = um_id ?M) (st_userMiners t)"
    and v_inv: "st_inventory v = st_inventory t @ [\<lparr>inv_id = st_next t, inv_userId = u, inv_snap = ?sn, inv_acquiredAt = now',
        inv_expiresAt = None, inv_ownedMachineId = Some om\<rparr>]"
    and v_racks: "mc_racks v = map (unlinkRack ?R (um_id ?M)) (mc_racks t)"
  proof -
    have "\<exists>k \<in> set (mc_racks t). rk_id k = rk_id ?R" using rk(1) unfolding t_tables racks by auto
    moreover have "?M \<in> set (st_userMiners t)" by (simp add: t_tables um)
    ultimately show thesis using uninstall_tables [OF _ M(2) free known, where u = u and now = now'] that by blast
  qed
  let ?w = "logCall (ReloadProfile u) v"
  have out: "uninstallMiner u a now' t = (Inr (), ?w)"
    unfolding uninstallMiner_def plan using v by (simp add: transaction_def answered_def)
  have "st_userMiners v = st_userMiners s"
    unfolding v_um t_tables um using old M(1) by (simp add: delete_where_def)
  moreover have "map (\<lambda>k. k\<lparr>rk_installedAt := None\<rparr>) (mc_racks v) = map (\<lambda>k. k\<lparr>rk_installedAt := None\<rparr>) (mc_racks s)"
    unfolding v_racks t_tables racks M(1) map_map
  proof (rule map_cong [OF refl])
    fix k assume k: "k \<in> set (mc_racks s)"
    show "((\<lambda>k. k\<lparr>rk_installedAt := None\<rparr>) \<circ> (unlinkRack ?R mid \<circ> linkRack p mid now)) k = k\<lparr>rk_installedAt := None\<rparr>"
      using uninstalled_rack [OF ok(3,4) p le k, of now] R(1,4) rk(2) by (simp add: unlinkRack_def Let_def)
  qed
  moreover have "st_inventory v = delete_where (\<lambda>i. inv_id i = inv_id ?it) (st_inventory s)
      @ [?it\<lparr>inv_id := st_next t, inv_acquiredAt := now', inv_expiresAt := None, inv_ownedMachineId := Some om,
           inv_snap := (inv_snap ?it)\<lparr>sn_minerName := uninstalledName (last (st_userMiners t)) t,
             sn_imageUrl := or_null (sn_imageUrl (inv_snap ?it)) (catalogImage (sn_minerId (inv_snap ?it)) t)\<rparr>\<rparr>]"
  proof -
    have "last (st_userMiners t) = ?M" by (simp add: t_tables um)
    then show ?thesis unfolding v_inv t_tables inv using it(3)
      by (simp add: rackSnapshot_def installedRow_def Let_def)
  qed
  ultimately show ?thesis using it j(1) om out
    by (intro exI [of _ ?it] exI [of _ om] exI [of _ ?w]) auto
qed

lemma install_uninstall_witness:
  "\<exists>t v. installMiner demo_cfg 1 (Some 11) (Some 14) 0 rooms_both = (Inr (), t)
    \<and> uninstallMiner 1 (Some 11) 9 t = (Inr (), v) \<and> inv_expiresAt (last (st_inventory v)) = None
    \<and> inv_expiresAt (hd (st_inventory rooms_both)) = Some 500"
proof -
  have "isl (fst (installMiner demo_cfg 1 (Some 11) (Some 14) 0 rooms_both)) = False" by code_simp
  then obtain t where t: "installMiner demo_cfg 1 (Some 11) (Some 14) 0 rooms_both = (Inr (), t)"
    by (cases "installMiner demo_cfg 1 (Some 11) (Some 14) 0 rooms_both";
        cases "fst (installMiner demo_cfg 1 (Some 11) (Some 14) 0 rooms_both)") auto
  have "inv_expiresAt (hd (st_inventory rooms_both)) = Some 500" by code_simp
  with install_uninstall [OF rooms_reaches(1) t, where now' = 9] t show ?thesis by auto
qed

end
