(* ===== verification/Calendar.thy ===== *)
theory Calendar
  imports Prelude
begin

section \<open>Calendar keys\<close>

text \<open>
  The date functions of JavaScript that \<open>server/utils/checkinDate.js\<close>,
  \<open>server/services/miniPass/miniPassPeriod.js\<close> and
  \<open>server/services/dailyTasks/dailyTaskPeriod.js\<close> use, for instants from 1970 on.  A day is the
  number of days since 1970-01-01.  The rules of the zone America/Sao_Paulo are not in the
  repository: the day a Brazilian calendar shows at an instant is the argument \<open>brazilDay\<close>.
\<close>

subsection \<open>The proleptic Gregorian calendar\<close>

text \<open>The day of January 1st, as ECMAScript's \<open>DayFromYear\<close>.\<close>

definition jan1 :: "int \<Rightarrow> int" where
  "jan1 y = 365 * (y - 1970) + (y - 1969) div 4 - (y - 1901) div 100 + (y - 1601) div 400"

definition leapYear :: "int \<Rightarrow> bool" where
  "leapYear y \<longleftrightarrow> y mod 4 = 0 \<and> (y mod 100 \<noteq> 0 \<or> y mod 400 = 0)"

lemma div_step: "0 < (c::int) \<Longrightarrow> (z + 1) div c = z div c + of_bool (c dvd z + 1)"
proof -
  assume c: "0 < c"
  have "z + 1 = c * (z div c) + (z mod c + 1)" by simp
  then have "(z + 1) div c = z div c + (z mod c + 1) div c" using c by (metis div_mult_self2 order_less_irrefl add.commute)
  moreover have "(z mod c + 1) div c = of_bool (c dvd z + 1)"
  proof (cases "z mod c + 1 = c")
    case True
    then have "c dvd z + 1" by (metis \<open>z + 1 = c * (z div c) + (z mod c + 1)\<close> dvd_add_right_iff dvd_refl dvd_triv_left)
    with True c show ?thesis by simp
  next
    case False
    have b: "0 \<le> z mod c" "z mod c < c" using c by simp_all
    with False have "(z mod c + 1) div c = 0" by simp
    moreover have "\<not> c dvd z + 1"
    proof
      assume "c dvd z + 1"
      then have "c dvd z mod c + 1" by (metis \<open>z + 1 = c * (z div c) + (z mod c + 1)\<close> dvd_add_right_iff dvd_triv_left)
      with b False show False by (simp add: zdvd_not_zless)
    qed
    ultimately show ?thesis by simp
  qed
  ultimately show ?thesis by simp
qed

lemma jan1_step: "jan1 y + 365 \<le> jan1 (y + 1)" "jan1 (y + 1) \<le> jan1 y + 366"
proof -
  have a: "(y + 1 - 1969) div 4 = (y - 1969) div 4 + of_bool (4 dvd y - 1968)"
    using div_step [of 4 "y - 1969"] by (simp add: algebra_simps)
  have b: "(y + 1 - 1901) div 100 = (y - 1901) div 100 + of_bool (100 dvd y - 1900)"
    using div_step [of 100 "y - 1901"] by (simp add: algebra_simps)
  have c: "(y + 1 - 1601) div 400 = (y - 1601) div 400 + of_bool (400 dvd y - 1600)"
    using div_step [of 400 "y - 1601"] by (simp add: algebra_simps)
  have d: "4 dvd y - 1968" if "100 dvd y - 1900"
  proof -
    from that obtain k where "y - 1900 = 100 * k" by (rule dvdE)
    then have "y - 1968 = 4 * (25 * k - 17)" by simp
    then show ?thesis by (metis dvd_triv_left)
  qed
  have e: "100 dvd y - 1900" if "400 dvd y - 1600"
  proof -
    from that obtain k where "y - 1600 = 400 * k" by (rule dvdE)
    then have "y - 1900 = 100 * (4 * k - 3)" by simp
    then show ?thesis by (metis dvd_triv_left)
  qed
  have m: "jan1 (y + 1) = jan1 y + 365 + of_bool (4 dvd y - 1968) - of_bool (100 dvd y - 1900) + of_bool (400 dvd y - 1600)"
    unfolding jan1_def using a b c by (simp add: algebra_simps)
  show "jan1 y + 365 \<le> jan1 (y + 1)" "jan1 (y + 1) \<le> jan1 y + 366"
    unfolding m using d e by (auto simp: of_bool_def)
qed

lemma jan1_mono: "y \<le> z \<Longrightarrow> jan1 y \<le> jan1 z"
proof (induction "nat (z - y)" arbitrary: z)
  case (Suc n)
  then have "jan1 y \<le> jan1 (z - 1)" by simp
  with jan1_step(1) [of "z - 1"] show ?case by simp
qed simp

text \<open>\<open>YearFromTime\<close>: the greatest year that has begun.\<close>

function yearFrom :: "int \<Rightarrow> int \<Rightarrow> int" where
  "yearFrom y d = (if jan1 (y + 1) \<le> d then yearFrom (y + 1) d else y)"
  by pat_completeness auto
termination
proof (relation "measure (\<lambda>(y, d). nat (d - jan1 y))", goal_cases)
  case (2 y d)
  with jan1_step(1) [of y] show ?case by simp
qed simp

declare yearFrom.simps [simp del]

definition yearOf :: "int \<Rightarrow> int" where
  "yearOf d = yearFrom (1970 + d div 366) d"

lemma yearFrom_bounds: "jan1 y \<le> d \<Longrightarrow> jan1 (yearFrom y d) \<le> d \<and> d < jan1 (yearFrom y d + 1)"
proof (induction y d rule: yearFrom.induct)
  case (1 y d)
  then show ?case by (cases "jan1 (y + 1) \<le> d") (simp_all add: yearFrom.simps [of y d])
qed

lemma jan1_le: "0 \<le> k \<Longrightarrow> jan1 (1970 + k) \<le> 366 * k"
proof (induction k rule: int_ge_induct)
  case base
  then show ?case by (simp add: jan1_def)
next
  case (step k)
  with jan1_step(2) [of "1970 + k"] show ?case by (simp add: algebra_simps)
qed

lemma yearOf_bounds:
  assumes "0 \<le> d"
  shows "jan1 (yearOf d) \<le> d" and "d < jan1 (yearOf d + 1)"
proof -
  have "jan1 (1970 + d div 366) \<le> 366 * (d div 366)" using assms by (intro jan1_le) (simp add: pos_imp_zdiv_nonneg_iff)
  also have "\<dots> \<le> d" by (metis minus_mod_eq_mult_div diff_le_eq le_add_same_cancel1 pos_mod_sign zero_less_numeral)
  finally show "jan1 (yearOf d) \<le> d" "d < jan1 (yearOf d + 1)"
    unfolding yearOf_def using yearFrom_bounds by blast+
qed

lemma yearOf_unique: "0 \<le> d \<Longrightarrow> jan1 y \<le> d \<Longrightarrow> d < jan1 (y + 1) \<Longrightarrow> yearOf d = y"
  using yearOf_bounds [of d] jan1_mono [of "y + 1" "yearOf d"] jan1_mono [of "yearOf d + 1" y] by (smt (verit))

definition monthLengths :: "int \<Rightarrow> int list" where
  "monthLengths y = [31, if leapYear y then 29 else 28, 31, 30, 31, 30, 31, 31, 30, 31, 30, 31]"

fun monthDay :: "int \<Rightarrow> int list \<Rightarrow> int \<Rightarrow> int \<times> int" where
  "monthDay m [] doy = (m, doy + 1)"
| "monthDay m (l # ls) doy = (if doy < l then (m, doy + 1) else monthDay (m + 1) ls (doy - l))"

subsection \<open>Keys\<close>

definition pad2 :: "int \<Rightarrow> string" where
  "pad2 n = (if n < 10 then CHR ''0'' # show_int n else show_int n)"

definition dateKey :: "int \<Rightarrow> string" where
  "dateKey d = (let y = yearOf d; (m, dd) = monthDay 1 (monthLengths y) (d - jan1 y)
     in show_int y @ ''-'' @ pad2 m @ ''-'' @ pad2 dd)"

definition dayOf :: "millis \<Rightarrow> int" where
  "dayOf t = t div MS_PER_DAY"

definition utcDayKey :: "millis \<Rightarrow> string" where
  "utcDayKey t = dateKey (dayOf t)"

text \<open>\<open>getUTCDay() || 7\<close>: 1970-01-01 was a Thursday.\<close>

definition weekdayNum :: "int \<Rightarrow> int" where
  "weekdayNum d = (let w = (d + 4) mod 7 in if w = 0 then 7 else w)"

definition isoWeek :: "int \<Rightarrow> int \<times> int" where
  "isoWeek d = (let thursday = d + 4 - weekdayNum d; y = yearOf thursday
     in (y, ceil_div (thursday - jan1 y + 1) 7))"

definition utcIsoWeekKey :: "millis \<Rightarrow> string" where
  "utcIsoWeekKey t = (let (y, weekNo) = isoWeek (dayOf t) in show_int y @ ''-W'' @ pad2 weekNo)"

definition getBrazilCheckinDateKey :: "(millis \<Rightarrow> int) \<Rightarrow> millis \<Rightarrow> string" where
  "getBrazilCheckinDateKey brazilDay t = dateKey (brazilDay t)"

subsection \<open>Printed numbers\<close>

definition digitVal :: "char \<Rightarrow> int" where
  "digitVal c = of_char c - 48"

definition parseDigits :: "string \<Rightarrow> int" where
  "parseDigits s = foldl (\<lambda>a c. 10 * a + digitVal c) 0 s"

definition isDigit :: "char \<Rightarrow> bool" where
  "isDigit c \<longleftrightarrow> 48 \<le> (of_char c :: int) \<and> (of_char c :: int) \<le> 57"

lemma of_char_digit: "0 \<le> n \<Longrightarrow> n < 10 \<Longrightarrow> (of_char (char_of (48 + n :: int)) :: int) = 48 + n"
  by simp


lemma parseDigits_snoc: "parseDigits (s @ [c]) = 10 * parseDigits s + digitVal c"
  by (simp add: parseDigits_def)

lemma digit_char:
  assumes "0 \<le> n" "n < (10::int)"
  shows "digitVal (char_of (48 + n)) = n" and "isDigit (char_of (48 + n))"
  using of_char_digit [OF assms] assms by (simp_all add: digitVal_def isDigit_def)

lemma show_pos_digits: "0 \<le> n \<Longrightarrow> parseDigits (show_pos n) = n \<and> (\<forall>c \<in> set (show_pos n). isDigit c) \<and> show_pos n \<noteq> []"
proof (induction n rule: show_pos.induct)
  case (1 n)
  show ?case
  proof (cases "n < 10")
    case True
    with 1(2) digit_char [of n] show ?thesis
      by (simp add: show_pos.simps [of n] parseDigits_def)
  next
    case False
    with 1 have ih: "parseDigits (show_pos (n div 10)) = n div 10" "\<forall>c \<in> set (show_pos (n div 10)). isDigit c"
      by (simp_all add: pos_imp_zdiv_nonneg_iff)
    have "show_pos n = show_pos (n div 10) @ [char_of (48 + n mod 10)]" using False by (simp add: show_pos.simps [of n])
    with ih digit_char [of "n mod 10"] show ?thesis by (simp add: parseDigits_snoc)
  qed
qed

lemma show_int_digits:
  assumes "0 \<le> n"
  shows "parseDigits (show_int n) = n" and "c \<in> set (show_int n) \<Longrightarrow> isDigit c"
  using show_pos_digits [OF assms] assms by (auto simp: show_int_def)

lemma pad2_digits:
  assumes "0 \<le> n"
  shows "parseDigits (pad2 n) = n" and "c \<in> set (pad2 n) \<Longrightarrow> isDigit c"
proof -
  have "parseDigits (CHR ''0'' # s) = parseDigits s" for s by (simp add: parseDigits_def digitVal_def)
  then show "parseDigits (pad2 n) = n" using show_int_digits [OF assms] by (simp add: pad2_def)
  show "isDigit c" if "c \<in> set (pad2 n)" using that show_int_digits [OF assms] by (auto simp: pad2_def isDigit_def split: if_splits)
qed

lemma split_at_dash:
  assumes "a @ CHR ''-'' # x = b @ CHR ''-'' # y" and "\<And>c. c \<in> set a \<union> set b \<Longrightarrow> isDigit c"
  shows "a = b \<and> x = y"
proof -
  have d: "\<not> isDigit (CHR ''-'')" by (simp add: isDigit_def)
  have tw: "takeWhile isDigit (s @ CHR ''-'' # z) = s" if "\<And>c. c \<in> set s \<Longrightarrow> isDigit c" for s z
    using that d by (induction s) auto
  have "takeWhile isDigit (a @ CHR ''-'' # x) = a" by (rule tw) (use assms(2) in blast)
  moreover have "takeWhile isDigit (b @ CHR ''-'' # y) = b" by (rule tw) (use assms(2) in blast)
  ultimately have "a = b" using assms(1) by simp
  with assms(1) show ?thesis by simp
qed

subsection \<open>Weeks\<close>

text \<open>The number of the week that starts on the Monday before or on the day.\<close>

definition weekOf :: "int \<Rightarrow> int" where
  "weekOf d = (d + 3) div 7"

lemma weekday_thursday: "d + 4 - weekdayNum d = 7 * weekOf d"
proof -
  have m: "(d + 4) mod 7 = ((d + 3) mod 7 + 1) mod 7" by presburger
  have "weekdayNum d = (d + 3) mod 7 + 1"
    unfolding weekdayNum_def Let_def m using pos_mod_bound [of 7 "d + 3"] pos_mod_sign [of 7 "d + 3"]
    by (cases "(d + 3) mod 7 = 6") auto
  then show ?thesis unfolding weekOf_def using mult_div_mod_eq [of 7 "d + 3"] by linarith
qed

lemma isoWeek_eq:
  "isoWeek d = (yearOf (7 * weekOf d), (7 * weekOf d - jan1 (yearOf (7 * weekOf d))) div 7 + 1)"
proof -
  have "ceil_div (x + 1) 7 = x div 7 + 1" for x unfolding ceil_div_def by presburger
  then show ?thesis unfolding isoWeek_def weekday_thursday by (simp add: Let_def)
qed

lemma isoWeek_iff: "isoWeek d = isoWeek e \<longleftrightarrow> weekOf d = weekOf e"
proof
  assume "isoWeek d = isoWeek e"
  then have y: "yearOf (7 * weekOf d) = yearOf (7 * weekOf e)"
    and "(7 * weekOf d - jan1 (yearOf (7 * weekOf d))) div 7 = (7 * weekOf e - jan1 (yearOf (7 * weekOf e))) div 7"
    unfolding isoWeek_eq by auto
  moreover have "(7 * w - j) div 7 = w + (- j) div 7" for w j :: int
    using div_mult_self2 [of 7 "- j" w] by (simp add: algebra_simps)
  ultimately show "weekOf d = weekOf e" by simp
qed (simp add: isoWeek_eq)

lemma isoWeek_nonneg:
  assumes "0 \<le> d"
  shows "0 \<le> fst (isoWeek d)" and "0 \<le> snd (isoWeek d)"
proof -
  have w: "0 \<le> 7 * weekOf d" using assms by (simp add: weekOf_def pos_imp_zdiv_nonneg_iff)
  note b = yearOf_bounds [OF w]
  show "0 \<le> snd (isoWeek d)" using b(1) by (simp add: isoWeek_eq pos_imp_zdiv_nonneg_iff)
  have "1969 \<le> yearOf (7 * weekOf d)"
  proof (rule ccontr)
    assume "\<not> 1969 \<le> yearOf (7 * weekOf d)"
    then have "jan1 (yearOf (7 * weekOf d) + 1) \<le> jan1 1969" by (intro jan1_mono) simp
    with b(2) w show False by (simp add: jan1_def)
  qed
  then show "0 \<le> fst (isoWeek d)" by (simp add: isoWeek_eq)
qed

end
