(* ===== verification/Rewards.thy ===== *)
theory Rewards
  imports MachineStore Calendar
begin

section \<open>Rewards of tasks and pass levels\<close>

text \<open>
  \<open>server/services/miniPass/miniPassRewardFulfillmentService.js\<close>, which delivers the rewards of the
  mini pass and of the daily tasks, and the tables of both.  A date column is an instant, a
  period key a string.  Decimal amounts are in 1e-8 units.
\<close>

record reward_spec =
  rw_kind :: string
  rw_minerId :: "int option"
  rw_eventMinerId :: "int option"
  rw_hashRate :: "number option"
  rw_hashRateDays :: "int option"
  rw_blkAmount :: "dec8 option"
  rw_polAmount :: "dec8 option"

record daily_def =
  dd_id :: int
  dd_slug :: string
  dd_taskType :: string
  dd_targetValue :: dec8
  dd_reward :: reward_spec
  dd_gameSlug :: "string option"
  dd_offerId :: "int option"
  dd_sortOrder :: int
  dd_isActive :: bool
  dd_validFrom :: "millis option"
  dd_validUntil :: "millis option"

record daily_progress =
  dp_id :: int
  dp_userId :: int
  dp_defId :: int
  dp_periodKey :: string
  dp_currentValue :: dec8
  dp_completedAt :: "millis option"
  dp_claimedAt :: "millis option"

record mp_mission =
  ms_id :: int
  ms_cadence :: string
  ms_missionType :: string
  ms_targetValue :: dec8
  ms_xpReward :: int
  ms_gameSlug :: "string option"
  ms_isActive :: bool
  ms_sortOrder :: int

record mp_level_reward =
  lr_id :: int
  lr_level :: int
  lr_reward :: reward_spec

record mp_season =
  se_id :: int
  se_startsAt :: millis
  se_endsAt :: millis
  se_maxLevel :: int
  se_xpPerLevel :: int
  se_buyLevelPricePol :: dec8
  se_completePassPricePol :: dec8
  se_isActive :: bool
  se_deletedAt :: "millis option"
  se_missions :: "mp_mission list"
  se_rewards :: "mp_level_reward list"

record mp_enrollment =
  en_userId :: int
  en_seasonId :: int
  en_totalXp :: int

record mp_xp_row =
  xp_userId :: int
  xp_seasonId :: int
  xp_amount :: int
  xp_source :: string
  xp_idempotencyKey :: string
  xp_missionId :: "int option"
  xp_periodKey :: "string option"

record mp_progress =
  mr_id :: int
  mr_userId :: int
  mr_missionId :: int
  mr_periodKey :: string
  mr_currentValue :: dec8
  mr_completedAt :: "millis option"

record mp_purchase =
  pu_id :: int
  pu_userId :: int
  pu_seasonId :: int
  pu_kind :: string
  pu_levelsAdded :: int
  pu_xpAdded :: int
  pu_pricePaid :: dec8

text \<open>A tick is the pair of a definition (or mission) and a dedupe key; a claim a user and a reward.\<close>

record quest_store = store +
  qs_defs :: "daily_def list"
  qs_progress :: "daily_progress list"
  qs_ticks :: "(int \<times> string) list"
  mp_seasons :: "mp_season list"
  mp_enrollments :: "mp_enrollment list"
  mp_ledger :: "mp_xp_row list"
  mp_progress :: "mp_progress list"
  mp_ticks :: "(int \<times> string) list"
  mp_claims :: "(int \<times> int) list"
  mp_purchases :: "mp_purchase list"

datatype reward_error =
  MINER_REQUIRED
| MINER_NOT_FOUND
| EVENT_MINER_REQUIRED
| EVENT_MINER_NOT_FOUND
| HASHRATE_INVALID
| BLK_INVALID
| POL_INVALID
| UNKNOWN_REWARD_KIND
| RewardDb db_failure

datatype reward_summary =
  SumNone
| SumShopMiner string
| SumEventMiner string
| SumHashrate number int
| SumBlk dec8
| SumPol dec8

definition MINI_PASS_GAME_SLUG :: string where "MINI_PASS_GAME_SLUG = ''mini-pass-bonus''"

definition getOrCreateMiniPassGameId :: "'a store_scheme \<Rightarrow> int \<times> 'a store_scheme" where
  "getOrCreateMiniPassGameId = upsertGame MINI_PASS_GAME_SLUG ''Mini Pass bonus''"

definition catalogSnapshot :: "int option \<Rightarrow> catalog_miner \<Rightarrow> snapshot" where
  "catalogSnapshot minerId c =
     \<lparr>sn_minerId = minerId, sn_minerName = cat_name c, sn_level = 1, sn_hashRate = cat_baseHashRate c,
      sn_slotSize = (if cat_slotSize c = 0 then 1 else cat_slotSize c),
      sn_imageUrl = or_string (cat_imageUrl c) (Some ''/machines/reward1.png'')\<rparr>"

text \<open>An id column that is null or 0 is falsy.\<close>

definition truthyId :: "int option \<Rightarrow> int option" where
  "truthyId i = (if i = Some 0 then None else i)"

definition giveMachine :: "int \<Rightarrow> snapshot \<Rightarrow> millis \<Rightarrow> (reward_error, unit, 'a store_scheme) program" where
  "giveMachine userId snap now =
     and_then (map_error RewardDb (createInventoryWithOwnedMachineTx userId snap now None)) (\<lambda>_. ret ())"

definition creditBalance ::
  "(int \<Rightarrow> dec8 \<Rightarrow> 'a store_scheme \<Rightarrow> 'a store_scheme) \<Rightarrow> int \<Rightarrow> dec8 \<Rightarrow> (reward_error, unit, 'a store_scheme) program" where
  "creditBalance add userId amt s =
     (case getUser userId s of None \<Rightarrow> (Inl (RewardDb P2025), s) | Some _ \<Rightarrow> (Inr (), add userId amt s))"

definition fulfillMiniPassLevelReward ::
  "int \<Rightarrow> reward_spec \<Rightarrow> millis \<Rightarrow> (reward_error, reward_summary, 'a store_scheme) program" where
  "fulfillMiniPassLevelReward userId reward now s =
     (let kind = toUpperCase (if rw_kind reward = '''' then ''NONE'' else rw_kind reward)
      in if kind = ''NONE'' then ret SumNone s
         else if kind = ''SHOP_MINER'' then
           (case truthyId (rw_minerId reward) of None \<Rightarrow> throw MINER_REQUIRED s | Some minerId \<Rightarrow>
            case find_first (\<lambda>c. cat_id c = minerId) (st_miners s) of None \<Rightarrow> throw MINER_NOT_FOUND s | Some c \<Rightarrow>
              and_then (giveMachine userId (catalogSnapshot (Some (cat_id c)) c) now) (\<lambda>_. ret (SumShopMiner (cat_name c))) s)
         else if kind = ''EVENT_MINER'' then
           (case truthyId (rw_eventMinerId reward) of None \<Rightarrow> throw EVENT_MINER_REQUIRED s | Some minerId \<Rightarrow>
            case find_first (\<lambda>c. cat_id c = minerId) (st_eventMiners s) of None \<Rightarrow> throw EVENT_MINER_NOT_FOUND s | Some c \<Rightarrow>
              and_then (giveMachine userId (catalogSnapshot None c) now) (\<lambda>_. ret (SumEventMiner (cat_name c))) s)
         else if kind = ''HASHRATE_TEMP'' then
           (let hr = (case rw_hashRate reward of None \<Rightarrow> 0 | Some h \<Rightarrow> h);
                days = max 1 (case truthyId (rw_hashRateDays reward) of None \<Rightarrow> 7 | Some d \<Rightarrow> d)
            in if \<not> 0 < hr then throw HASHRATE_INVALID s
               else let (gameId, s1) = getOrCreateMiniPassGameId s
                    in ret (SumHashrate hr days) (createPowerGame userId gameId hr now (now + days * 86400000) s1))
         else if kind = ''BLK'' then
           (let amt = (case rw_blkAmount reward of None \<Rightarrow> 0 | Some a \<Rightarrow> a)
            in if amt \<le> 0 then throw BLK_INVALID s
               else and_then (creditBalance addBlk userId amt) (\<lambda>_. ret (SumBlk amt)) s)
         else if kind = ''POL'' then
           (let amt = (case rw_polAmount reward of None \<Rightarrow> 0 | Some a \<Rightarrow> a)
            in if amt \<le> 0 then throw POL_INVALID s
               else and_then (creditBalance addPol userId amt) (\<lambda>_. ret (SumPol amt)) s)
         else throw UNKNOWN_REWARD_KIND s)"

definition syncMiningAfterMiniPassReward :: "millis \<Rightarrow> bool \<Rightarrow> int \<Rightarrow> 'a store_scheme \<Rightarrow> 'a store_scheme" where
  "syncMiningAfterMiniPassReward now v2Ok userId s =
     logCall (EmitMachinesUpdate userId) (logCall (SetBaseHashRate userId (syncUserBaseHashRate now v2Ok userId s)) s)"

definition applyPolDeltaInEngine :: "int \<Rightarrow> number \<Rightarrow> 'a store_scheme \<Rightarrow> 'a store_scheme" where
  "applyPolDeltaInEngine userId d s = (if d \<noteq> 0 then logCall (BalanceDelta userId d) s else s)"

text \<open>What both claim services do after their transaction.\<close>

definition afterReward :: "millis \<Rightarrow> bool \<Rightarrow> int \<Rightarrow> reward_summary \<Rightarrow> 'a store_scheme \<Rightarrow> 'a store_scheme" where
  "afterReward now v2Ok userId summary s =
     syncMiningAfterMiniPassReward now v2Ok userId
       (case summary of SumPol amt \<Rightarrow> applyPolDeltaInEngine userId (toNumber amt) s | _ \<Rightarrow> s)"

end
