(* ===== verification/DailyTasks.thy ===== *)
theory DailyTasks
  imports Rewards
begin

section \<open>Daily tasks\<close>

text \<open>
  \<open>server/services/dailyTasks/\<close>: the period, the progress counters with their dedupe ticks, the
  hooks the other services call, and the claim.  \<open>zone\<close> is the day the Brazilian calendar shows.
\<close>

definition getDailyTaskPeriodKey :: "(millis \<Rightarrow> int) \<Rightarrow> millis \<Rightarrow> string" where
  "getDailyTaskPeriodKey zone now = getBrazilCheckinDateKey zone now"

text \<open>The bisection of \<open>getNextDailyTaskResetAt\<close> over the instants \<open>lo\<close> and \<open>hi\<close>.\<close>

function resetSearch :: "(millis \<Rightarrow> string) \<Rightarrow> string \<Rightarrow> millis \<Rightarrow> millis \<Rightarrow> millis" where
  "resetSearch key today lo hi =
     (if hi - lo > 2 then
        let mid = (lo + hi) div 2
        in if key mid = today then resetSearch key today mid hi else resetSearch key today lo mid
      else hi)"
  by pat_completeness auto
termination
  by (relation "measure (\<lambda>(key, today, lo, hi). nat (hi - lo))") auto

declare resetSearch.simps [simp del]

definition getNextDailyTaskResetAt :: "(millis \<Rightarrow> int) \<Rightarrow> millis \<Rightarrow> millis" where
  "getNextDailyTaskResetAt zone now =
     resetSearch (getBrazilCheckinDateKey zone) (getBrazilCheckinDateKey zone now) now (now + 50 * 3600000)"

subsection \<open>Dedupe ticks\<close>

text \<open>
  A tick is created once per definition and key: the unique constraint of the table refuses the
  second.  \<open>with_tick\<close> is the transaction of the hooks: consume the tick, then run the body.
\<close>

definition consumeTick :: "int \<Rightarrow> string \<Rightarrow> (int \<times> string) list \<Rightarrow> bool \<times> (int \<times> string) list" where
  "consumeTick i k ticks = (if (i, k) \<in> set ticks then (False, ticks) else (True, ticks @ [(i, k)]))"

definition tryConsumeDedupe :: "int \<Rightarrow> string \<Rightarrow> quest_store \<Rightarrow> bool \<times> quest_store" where
  "tryConsumeDedupe defId dedupeKey s =
     (let (ok, ticks) = consumeTick defId dedupeKey (qs_ticks s) in (ok, s\<lparr>qs_ticks := ticks\<rparr>))"

definition with_tick :: "(int \<Rightarrow> string \<Rightarrow> 's \<Rightarrow> bool \<times> 's) \<Rightarrow> int \<Rightarrow> string \<Rightarrow> ('s \<Rightarrow> 's) \<Rightarrow> 's \<Rightarrow> 's" where
  "with_tick consume i k body s = (let (ok, s1) = consume i k s in if ok then body s1 else s1)"

subsection \<open>Progress\<close>

definition validAt :: "millis option \<Rightarrow> millis option \<Rightarrow> millis \<Rightarrow> bool" where
  "validAt vfrom vuntil now \<longleftrightarrow>
     (case vfrom of None \<Rightarrow> True | Some t \<Rightarrow> t \<le> now) \<and> (case vuntil of None \<Rightarrow> True | Some t \<Rightarrow> now \<le> t)"

definition activeDefinitions :: "string \<Rightarrow> millis \<Rightarrow> quest_store \<Rightarrow> daily_def list" where
  "activeDefinitions taskType now s = sort_key dd_sortOrder
     (filter (\<lambda>d. dd_isActive d \<and> dd_taskType d = taskType \<and> validAt (dd_validFrom d) (dd_validUntil d) now) (qs_defs s))"

definition isProgress :: "int \<Rightarrow> int \<Rightarrow> string \<Rightarrow> daily_progress \<Rightarrow> bool" where
  "isProgress userId defId periodKey p \<longleftrightarrow> dp_userId p = userId \<and> dp_defId p = defId \<and> dp_periodKey p = periodKey"

definition upsertProgress :: "int \<Rightarrow> int \<Rightarrow> string \<Rightarrow> dec8 \<Rightarrow> quest_store \<Rightarrow> quest_store" where
  "upsertProgress userId defId periodKey delta s =
     (case find_first (isProgress userId defId periodKey) (qs_progress s) of
        None \<Rightarrow> s\<lparr>qs_progress := qs_progress s @ [\<lparr>dp_id = st_next s, dp_userId = userId, dp_defId = defId,
                  dp_periodKey = periodKey, dp_currentValue = delta, dp_completedAt = None, dp_claimedAt = None\<rparr>],
                  st_next := st_next s + 1\<rparr>
      | Some _ \<Rightarrow> s\<lparr>qs_progress := update_where (isProgress userId defId periodKey)
                  (\<lambda>p. p\<lparr>dp_currentValue := dp_currentValue p + delta\<rparr>) (qs_progress s)\<rparr>)"

definition bumpOneTask :: "int \<Rightarrow> daily_def \<Rightarrow> string \<Rightarrow> dec8 \<Rightarrow> millis \<Rightarrow> quest_store \<Rightarrow> quest_store" where
  "bumpOneTask userId d periodKey delta now s =
     (if toNumber (dd_targetValue d) \<le> 0 then s
      else let s1 = upsertProgress userId (dd_id d) periodKey delta s
           in case find_first (isProgress userId (dd_id d) periodKey) (qs_progress s1) of
                None \<Rightarrow> s1
              | Some row \<Rightarrow>
                  if dp_claimedAt row \<noteq> None \<or> dp_completedAt row \<noteq> None then s1
                  else if toNumber (dp_currentValue row) < toNumber (dd_targetValue d) then s1
                  else s1\<lparr>qs_progress := update_where (\<lambda>p. dp_id p = dp_id row \<and> dp_completedAt p = None \<and> dp_claimedAt p = None)
                         (\<lambda>p. p\<lparr>dp_completedAt := Some now\<rparr>) (qs_progress s1)\<rparr>)"

text \<open>The filters of the loop; an empty slug is falsy.\<close>

definition defMatches :: "string \<Rightarrow> string option \<Rightarrow> int option \<Rightarrow> daily_def \<Rightarrow> bool" where
  "defMatches taskType gameSlug offerId d \<longleftrightarrow>
     (taskType = ''INTERNAL_OFFERWALL'' \<and> dd_offerId d \<noteq> None \<longrightarrow> offerId = dd_offerId d)
     \<and> (case dd_gameSlug d of None \<Rightarrow> True | Some slug \<Rightarrow> slug = '''' \<or> gameSlug = Some slug)"

definition bumpDef ::
  "(number \<Rightarrow> dec8) \<Rightarrow> (millis \<Rightarrow> int) \<Rightarrow> int \<Rightarrow> string \<Rightarrow> number \<Rightarrow> millis \<Rightarrow> daily_def \<Rightarrow> quest_store \<Rightarrow> quest_store" where
  "bumpDef dec8_of zone userId dedupeKey delta now d =
     with_tick tryConsumeDedupe (dd_id d) dedupeKey
       (bumpOneTask userId d (getDailyTaskPeriodKey zone now) (dec8_of delta) now)"

definition bumpDailyTasksForUser ::
  "(number \<Rightarrow> dec8) \<Rightarrow> (millis \<Rightarrow> int) \<Rightarrow> int \<Rightarrow> string \<Rightarrow> string \<Rightarrow> number \<Rightarrow> string option \<Rightarrow> int option \<Rightarrow> millis
     \<Rightarrow> quest_store \<Rightarrow> quest_store" where
  "bumpDailyTasksForUser dec8_of zone userId taskType dedupeKey delta gameSlug offerId now s =
     (if userId = 0 \<or> dedupeKey = '''' \<or> delta \<le> 0 then s
      else foldl (\<lambda>s d. if defMatches taskType gameSlug offerId d then bumpDef dec8_of zone userId dedupeKey delta now d s else s)
             s (activeDefinitions taskType now s))"

subsection \<open>Hooks\<close>

definition notifyDailyTaskLoginDay ::
  "(number \<Rightarrow> dec8) \<Rightarrow> (millis \<Rightarrow> int) \<Rightarrow> int \<Rightarrow> string \<Rightarrow> millis \<Rightarrow> quest_store \<Rightarrow> quest_store" where
  "notifyDailyTaskLoginDay dec8_of zone userId checkinDateKey now s =
     (if userId = 0 \<or> checkinDateKey = '''' then s
      else bumpDailyTasksForUser dec8_of zone userId ''LOGIN_DAY'' (''login-'' @ checkinDateKey) 1 None None now s)"

definition notifyDailyTaskBlkMined ::
  "(number \<Rightarrow> dec8) \<Rightarrow> (millis \<Rightarrow> int) \<Rightarrow> int \<Rightarrow> int \<Rightarrow> number \<Rightarrow> millis \<Rightarrow> quest_store \<Rightarrow> quest_store" where
  "notifyDailyTaskBlkMined dec8_of zone userId blkRewardLogId amountBlk now s =
     (if userId = 0 \<or> blkRewardLogId = 0 \<or> amountBlk \<le> 0 then s
      else bumpDailyTasksForUser dec8_of zone userId ''MINE_BLK'' (''blklog-'' @ show_int blkRewardLogId) amountBlk None None now s)"

definition notifyDailyTaskGamePlayed ::
  "(number \<Rightarrow> dec8) \<Rightarrow> (millis \<Rightarrow> int) \<Rightarrow> int \<Rightarrow> int \<Rightarrow> string option \<Rightarrow> millis \<Rightarrow> quest_store \<Rightarrow> quest_store" where
  "notifyDailyTaskGamePlayed dec8_of zone userId userPowerGameId gameSlug now s =
     (if userId = 0 \<or> userPowerGameId = 0 then s
      else bumpDailyTasksForUser dec8_of zone userId ''PLAY_GAMES'' (''game-'' @ show_int userPowerGameId) 1
             (or_string gameSlug None) None now s)"

definition notifyDailyTaskYoutubeWatch ::
  "(number \<Rightarrow> dec8) \<Rightarrow> (millis \<Rightarrow> int) \<Rightarrow> int \<Rightarrow> int \<Rightarrow> millis \<Rightarrow> quest_store \<Rightarrow> quest_store" where
  "notifyDailyTaskYoutubeWatch dec8_of zone userId historyId now s =
     (if userId = 0 \<or> historyId = 0 then s
      else bumpDailyTasksForUser dec8_of zone userId ''WATCH_YOUTUBE'' (''yt-'' @ show_int historyId) 1 None None now s)"

subsection \<open>Claiming\<close>

datatype daily_error = NotCompleted | AlreadyClaimed | TaskNotFound | Forbidden | ClaimFailed

text \<open>
  The part after the reads: the row is claimed by an update that requires it to be unclaimed still,
  so a claim that read before another one committed finds no row.
\<close>

definition claimLocked ::
  "int \<Rightarrow> daily_def \<Rightarrow> daily_progress \<Rightarrow> millis \<Rightarrow> (daily_error, reward_summary, quest_store) program" where
  "claimLocked userId d progress now s =
     (let P = (\<lambda>p. dp_id p = dp_id progress \<and> dp_claimedAt p = None \<and> dp_completedAt p \<noteq> None)
      in if count_where P (qs_progress s) \<noteq> 1 then (Inl AlreadyClaimed, s)
         else let s1 = s\<lparr>qs_progress := update_where P (\<lambda>p. p\<lparr>dp_claimedAt := Some now\<rparr>) (qs_progress s)\<rparr>
              in case fulfillMiniPassLevelReward userId (dd_reward d) now s1 of
                   (Inl _, s2) \<Rightarrow> (Inl ClaimFailed, s2)
                 | (Inr summary, s2) \<Rightarrow> (Inr summary, logAudit \<lparr>al_userId = userId, al_action = ''DAILY_TASK_CLAIM'',
                     al_details = [(''taskDefinitionId'', show_int (dd_id d)), (''periodKey'', dp_periodKey progress),
                       (''slug'', dd_slug d), (''rewardKind'', rw_kind (dd_reward d))]\<rparr> s2))"

definition claimRead ::
  "(millis \<Rightarrow> int) \<Rightarrow> bool \<Rightarrow> int \<Rightarrow> int \<Rightarrow> millis \<Rightarrow> quest_store \<Rightarrow> daily_error + (daily_def \<times> daily_progress)" where
  "claimRead zone checkinEnabled userId taskDefinitionId now s =
     (case getUser userId s of None \<Rightarrow> Inl Forbidden | Some u \<Rightarrow>
      if usr_isBanned u then Inl Forbidden
      else case find_first (\<lambda>d. dd_id d = taskDefinitionId \<and> dd_isActive d) (qs_defs s) of None \<Rightarrow> Inl TaskNotFound | Some d \<Rightarrow>
      if dd_taskType d = ''LOGIN_DAY'' \<and> \<not> checkinEnabled then Inl TaskNotFound
      else case find_first (isProgress userId taskDefinitionId (getDailyTaskPeriodKey zone now)) (qs_progress s) of
        None \<Rightarrow> Inl NotCompleted
      | Some p \<Rightarrow>
          if dp_completedAt p = None then Inl NotCompleted
          else if dp_claimedAt p \<noteq> None then Inl AlreadyClaimed
          else Inr (d, p))"

definition claimDailyTaskReward ::
  "(millis \<Rightarrow> int) \<Rightarrow> bool \<Rightarrow> bool \<Rightarrow> int \<Rightarrow> int \<Rightarrow> millis \<Rightarrow> quest_store \<Rightarrow> (daily_error, reward_summary, quest_store) outcome" where
  "claimDailyTaskReward zone v2Ok checkinEnabled userId taskDefinitionId now s =
     (case transaction (\<lambda>s. case claimRead zone checkinEnabled userId taskDefinitionId now s of
                         Inl e \<Rightarrow> (Inl e, s) | Inr (d, p) \<Rightarrow> claimLocked userId d p now s) s of
        (Inl e, t) \<Rightarrow> (Inl e, t)
      | (Inr summary, t) \<Rightarrow> (Inr summary, afterReward now v2Ok userId summary t))"

subsection \<open>Dashboard\<close>

datatype task_status = StatusAvailable | StatusInProgress | StatusCompleted | StatusClaimed

record daily_task_view =
  tv_id :: int
  tv_target :: number
  tv_current :: number
  tv_status :: task_status
  tv_reward :: "string \<times> reward_summary option"

definition filterDailyTaskDefsForSidebar :: "bool \<Rightarrow> bool \<Rightarrow> daily_def list \<Rightarrow> daily_def list" where
  "filterDailyTaskDefsForSidebar checkinOn offerwallOn defs =
     filter (\<lambda>d. if dd_taskType d = ''LOGIN_DAY'' then checkinOn
                 else if dd_taskType d = ''INTERNAL_OFFERWALL'' then offerwallOn else True) defs"

definition deriveStatus :: "daily_progress option \<Rightarrow> task_status" where
  "deriveStatus row =
     (case row of None \<Rightarrow> StatusAvailable
      | Some p \<Rightarrow> if dp_claimedAt p \<noteq> None then StatusClaimed
                  else if dp_completedAt p \<noteq> None then StatusCompleted
                  else if 0 < toNumber (dp_currentValue p) then StatusInProgress else StatusAvailable)"

text \<open>The kind and, for the kinds that have one, the amount.\<close>

definition rewardSummary :: "reward_spec \<Rightarrow> string \<times> reward_summary option" where
  "rewardSummary r =
     (let kind = toUpperCase (rw_kind r)
      in if kind = ''BLK'' \<and> rw_blkAmount r \<noteq> None then (kind, map_option SumBlk (rw_blkAmount r))
         else if kind = ''POL'' \<and> rw_polAmount r \<noteq> None then (kind, map_option SumPol (rw_polAmount r))
         else if kind = ''HASHRATE_TEMP'' then
           (kind, Some (SumHashrate (case rw_hashRate r of None \<Rightarrow> 0 | Some h \<Rightarrow> h) (case rw_hashRateDays r of None \<Rightarrow> 1 | Some n \<Rightarrow> n)))
         else if kind = ''SHOP_MINER'' \<or> kind = ''EVENT_MINER'' then (kind, None)
         else (if kind = '''' then ''NONE'' else kind, None))"

text \<open>The period key, the next reset and the tasks of the user.\<close>

definition getDailyTasksDashboard ::
  "(millis \<Rightarrow> int) \<Rightarrow> bool \<Rightarrow> bool \<Rightarrow> int \<Rightarrow> millis \<Rightarrow> quest_store \<Rightarrow> string \<times> millis \<times> daily_task_view list" where
  "getDailyTasksDashboard zone checkinOn offerwallOn userId now s =
     (let periodKey = getDailyTaskPeriodKey zone now;
          defsRaw = sort_key dd_sortOrder (filter (\<lambda>d. dd_isActive d \<and> validAt (dd_validFrom d) (dd_validUntil d) now) (qs_defs s))
      in (periodKey, getNextDailyTaskResetAt zone now,
          map (\<lambda>d. let row = find_first (isProgress userId (dd_id d) periodKey) (qs_progress s)
                   in \<lparr>tv_id = dd_id d, tv_target = toNumber (dd_targetValue d),
                       tv_current = (case row of None \<Rightarrow> 0 | Some p \<Rightarrow> toNumber (dp_currentValue p)),
                       tv_status = deriveStatus row, tv_reward = rewardSummary (dd_reward d)\<rparr>)
            (filterDailyTaskDefsForSidebar checkinOn offerwallOn defsRaw)))"

subsection \<open>The accounts are left alone\<close>

lemma foldl_frame:
  assumes "\<And>s x. g (f s x) = g s"
  shows "g (foldl f s xs) = g s"
  using assms by (induction xs arbitrary: s) auto

lemma bump_money:
  "st_users (bumpDailyTasksForUser d z u ty key del slug off now s) = st_users s"
  "st_gamePowers (bumpDailyTasksForUser d z u ty key del slug off now s) = st_gamePowers s"
proof -
  have p: "st_users (upsertProgress a b c e r) = st_users r" "st_gamePowers (upsertProgress a b c e r) = st_gamePowers r" for a b c e r
    by (simp_all add: upsertProgress_def split: option.splits)
  then have o: "st_users (bumpOneTask u x c e t r) = st_users r" "st_gamePowers (bumpOneTask u x c e t r) = st_gamePowers r" for x c e t r
    by (simp_all add: bumpOneTask_def Let_def split: option.splits)
  have b: "st_users (bumpDef d z u key del now x r) = st_users r" "st_gamePowers (bumpDef d z u key del now x r) = st_gamePowers r" for x r
    using o by (auto simp: bumpDef_def with_tick_def tryConsumeDedupe_def split: prod.splits)
  show "st_users (bumpDailyTasksForUser d z u ty key del slug off now s) = st_users s"
    unfolding bumpDailyTasksForUser_def by (simp add: b foldl_frame [where g = st_users])
  show "st_gamePowers (bumpDailyTasksForUser d z u ty key del slug off now s) = st_gamePowers s"
    unfolding bumpDailyTasksForUser_def by (simp add: b foldl_frame [where g = st_gamePowers])
qed

end
