(* ===== verification/MiniPass.thy ===== *)
theory MiniPass
  imports DailyTasks
begin

section \<open>Mini pass\<close>

text \<open>
  \<open>server/services/miniPass/\<close>: level arithmetic, mission periods, the experience ledger, the mission
  hooks the other services call, level rewards, the two purchases and the dashboard.
  Every operation reads the clock once, \<open>now\<close>.
\<close>

subsection \<open>Levels and periods\<close>

definition computePassLevel :: "int \<Rightarrow> int \<Rightarrow> int \<Rightarrow> int" where
  "computePassLevel totalXp xpPerLevel maxLevel =
     (let step = max 1 xpPerLevel; lvl = 1 + \<lfloor>fl (of_int (max 0 totalXp) / of_int step)\<rfloor>
      in min (max 1 maxLevel) (max 1 lvl))"

definition xpCapForSeason :: "int \<Rightarrow> int \<Rightarrow> int" where
  "xpCapForSeason maxLevel xpPerLevel = (let step = max 1 xpPerLevel in max 0 (fli ((max 1 maxLevel - 1) * step)))"

definition xpRemainingToCap :: "int \<Rightarrow> int \<Rightarrow> int \<Rightarrow> int" where
  "xpRemainingToCap totalXp maxLevel xpPerLevel =
     (let cap = xpCapForSeason maxLevel xpPerLevel in max 0 (fli (cap - max 0 totalXp)))"

definition EVENT_PERIOD_KEY :: string where "EVENT_PERIOD_KEY = ''__EVENT__''"

definition resolveMissionPeriodKey :: "(millis \<Rightarrow> int) \<Rightarrow> string \<Rightarrow> string \<Rightarrow> millis \<Rightarrow> string" where
  "resolveMissionPeriodKey zone cadence missionType now =
     (if cadence = ''EVENT'' then EVENT_PERIOD_KEY
      else if missionType = ''LOGIN_DAY'' then
        (if cadence = ''DAILY'' then getBrazilCheckinDateKey zone now
         else if cadence = ''WEEKLY'' then utcIsoWeekKey now
         else getBrazilCheckinDateKey zone now)
      else if cadence = ''DAILY'' then utcDayKey now
      else if cadence = ''WEEKLY'' then utcIsoWeekKey now
      else EVENT_PERIOD_KEY)"

definition isMiniPassSeasonLive :: "mp_season \<Rightarrow> millis \<Rightarrow> bool" where
  "isMiniPassSeasonLive season now \<longleftrightarrow>
     se_deletedAt season = None \<and> se_isActive season \<and> se_startsAt season \<le> now \<and> now \<le> se_endsAt season"

subsection \<open>Experience\<close>

datatype mp_error = MpNotFound | MpNotLive | MpNotEligible | MpForbidden | MpMisconfigured | MpAlreadyMax
  | MpInsufficient | MpFailed

datatype xp_result = XpInvalid | XpDuplicate | XpGranted

definition isEnrollment :: "int \<Rightarrow> int \<Rightarrow> mp_enrollment \<Rightarrow> bool" where
  "isEnrollment userId seasonId e \<longleftrightarrow> en_userId e = userId \<and> en_seasonId e = seasonId"

definition enroll :: "int \<Rightarrow> int \<Rightarrow> quest_store \<Rightarrow> quest_store" where
  "enroll userId seasonId s =
     (case find_first (isEnrollment userId seasonId) (mp_enrollments s) of
        Some _ \<Rightarrow> s
      | None \<Rightarrow> s\<lparr>mp_enrollments := mp_enrollments s @ [\<lparr>en_userId = userId, en_seasonId = seasonId, en_totalXp = 0\<rparr>]\<rparr>)"

definition totalXpOf :: "int \<Rightarrow> int \<Rightarrow> quest_store \<Rightarrow> int" where
  "totalXpOf userId seasonId s =
     max 0 (case find_first (isEnrollment userId seasonId) (mp_enrollments s) of None \<Rightarrow> 0 | Some e \<Rightarrow> en_totalXp e)"

text \<open>
  The grant.  The key of the ledger row is unique in the whole table; a second row with the same key
  is refused by the database, which the code catches.
\<close>

definition xpAudit :: "mp_xp_row \<Rightarrow> audit_log" where
  "xpAudit row = \<lparr>al_userId = xp_userId row, al_action = ''MINI_PASS_XP'',
     al_details = [(''seasonId'', show_int (xp_seasonId row)), (''amount'', show_int (xp_amount row)),
       (''source'', xp_source row), (''idempotencyKey'', xp_idempotencyKey row),
       (''missionId'', case xp_missionId row of None \<Rightarrow> ''null'' | Some i \<Rightarrow> show_int i),
       (''periodKey'', case xp_periodKey row of None \<Rightarrow> ''null'' | Some k \<Rightarrow> k)]\<rparr>"

definition applyMiniPassXp :: "mp_xp_row \<Rightarrow> millis \<Rightarrow> (mp_error, xp_result, quest_store) program" where
  "applyMiniPassXp row now s =
     (let userId = xp_userId row; seasonId = xp_seasonId row; n = xp_amount row
      in if userId = 0 \<or> seasonId = 0 \<or> xp_idempotencyKey row = '''' \<or> n \<le> 0 then ret XpInvalid s
         else case find_first (\<lambda>se. se_id se = seasonId \<and> se_deletedAt se = None) (mp_seasons s) of
           None \<Rightarrow> throw MpNotFound s
         | Some season \<Rightarrow>
             if \<not> isMiniPassSeasonLive season now then throw MpNotLive s
             else let s1 = enroll userId seasonId s
                  in if xp_idempotencyKey row \<in> xp_idempotencyKey ` set (mp_ledger s1) then ret XpDuplicate s1
                     else ret XpGranted (logAudit (xpAudit row)
                          (s1\<lparr>mp_ledger := mp_ledger s1 @ [row],
                             mp_enrollments := update_where (isEnrollment userId seasonId)
                               (\<lambda>e. e\<lparr>en_totalXp := en_totalXp e + n\<rparr>) (mp_enrollments s1)\<rparr>)))"

text \<open>
  A transaction in which a statement failed and the code went on.  What its commit does is the
  database's choice, \<open>keeps\<close>: PostgreSQL turns it into a rollback.
\<close>

definition caughtTransaction ::
  "bool \<Rightarrow> ('a \<Rightarrow> bool) \<Rightarrow> ('e, 'a, 's) program \<Rightarrow> ('e, 'a, 's) program" where
  "caughtTransaction keeps caught body s =
     (case transaction body s of
        (Inr a, t) \<Rightarrow> (Inr a, if caught a \<and> \<not> keeps then s else t)
      | (Inl e, t) \<Rightarrow> (Inl e, t))"

subsection \<open>Missions\<close>

definition loadLiveSeasonsWithMissions :: "string \<Rightarrow> millis \<Rightarrow> quest_store \<Rightarrow> mp_season list" where
  "loadLiveSeasonsWithMissions missionType now s =
     map (\<lambda>se. se\<lparr>se_missions := sort_key ms_sortOrder
            (filter (\<lambda>m. ms_isActive m \<and> ms_missionType m = missionType) (se_missions se))\<rparr>)
       (filter (\<lambda>se. se_deletedAt se = None \<and> se_isActive se \<and> se_startsAt se \<le> now \<and> now \<le> se_endsAt se) (mp_seasons s))"

definition missionDedupe :: "int \<Rightarrow> string \<Rightarrow> quest_store \<Rightarrow> bool \<times> quest_store" where
  "missionDedupe missionId dedupeKey s =
     (let (ok, ticks) = consumeTick missionId dedupeKey (mp_ticks s) in (ok, s\<lparr>mp_ticks := ticks\<rparr>))"

definition isMissionProgress :: "int \<Rightarrow> int \<Rightarrow> string \<Rightarrow> mp_progress \<Rightarrow> bool" where
  "isMissionProgress userId missionId periodKey p \<longleftrightarrow>
     mr_userId p = userId \<and> mr_missionId p = missionId \<and> mr_periodKey p = periodKey"

definition upsertMissionProgress :: "int \<Rightarrow> int \<Rightarrow> string \<Rightarrow> dec8 \<Rightarrow> quest_store \<Rightarrow> quest_store" where
  "upsertMissionProgress userId missionId periodKey d s =
     (case find_first (isMissionProgress userId missionId periodKey) (mp_progress s) of
        None \<Rightarrow> s\<lparr>mp_progress := mp_progress s @ [\<lparr>mr_id = st_next s, mr_userId = userId, mr_missionId = missionId,
                  mr_periodKey = periodKey, mr_currentValue = d, mr_completedAt = None\<rparr>], st_next := st_next s + 1\<rparr>
      | Some _ \<Rightarrow> s\<lparr>mp_progress := update_where (isMissionProgress userId missionId periodKey)
                  (\<lambda>p. p\<lparr>mr_currentValue := mr_currentValue p + d\<rparr>) (mp_progress s)\<rparr>)"

text \<open>
  The counter of a user; when it reaches the target for the first time in the period, the grant,
  whose key names the mission and the period.
\<close>

definition missionKey :: "int \<Rightarrow> string \<Rightarrow> string" where
  "missionKey missionId periodKey = ''mini-pass-mission-'' @ show_int missionId @ ''-'' @ periodKey"

definition missionXpRow :: "int \<Rightarrow> int \<Rightarrow> mp_mission \<Rightarrow> string \<Rightarrow> mp_xp_row" where
  "missionXpRow userId seasonId mission periodKey =
     \<lparr>xp_userId = userId, xp_seasonId = seasonId, xp_amount = max 0 (ms_xpReward mission), xp_source = ''MISSION'',
      xp_idempotencyKey = missionKey (ms_id mission) periodKey, xp_missionId = Some (ms_id mission),
      xp_periodKey = Some periodKey\<rparr>"

definition bumpMissionProgress ::
  "int \<Rightarrow> int \<Rightarrow> mp_mission \<Rightarrow> dec8 \<Rightarrow> string \<Rightarrow> millis \<Rightarrow> (mp_error, xp_result, quest_store) program" where
  "bumpMissionProgress userId seasonId mission d periodKey now s =
     (if toNumber (ms_targetValue mission) \<le> 0 then ret XpInvalid s
      else let s1 = upsertMissionProgress userId (ms_id mission) periodKey d s
           in case find_first (isMissionProgress userId (ms_id mission) periodKey) (mp_progress s1) of
                None \<Rightarrow> ret XpInvalid s1
              | Some row \<Rightarrow>
                  if mr_completedAt row \<noteq> None \<or> toNumber (mr_currentValue row) < toNumber (ms_targetValue mission)
                  then ret XpInvalid s1
                  else let P = (\<lambda>p. mr_id p = mr_id row \<and> mr_completedAt p = None);
                           s2 = s1\<lparr>mp_progress := update_where P (\<lambda>p. p\<lparr>mr_completedAt := Some now\<rparr>) (mp_progress s1)\<rparr>
                       in if count_where P (mp_progress s1) \<noteq> 1 \<or> ms_xpReward mission \<le> 0 then ret XpInvalid s2
                          else applyMiniPassXp (missionXpRow userId seasonId mission periodKey) now s2)"

text \<open>The transaction of the hooks for one mission.\<close>

definition missionTx ::
  "(millis \<Rightarrow> int) \<Rightarrow> bool \<Rightarrow> int \<Rightarrow> dec8 \<Rightarrow> string \<Rightarrow> millis \<Rightarrow> int \<Rightarrow> mp_mission \<Rightarrow> (mp_error, unit, quest_store) program" where
  "missionTx zone keeps userId d dedupeKey now seasonId mission =
     and_then (caughtTransaction keeps (\<lambda>r. r = XpDuplicate)
         (\<lambda>s. let (ok, s1) = missionDedupe (ms_id mission) dedupeKey s
              in if \<not> ok then ret XpInvalid s1
                 else bumpMissionProgress userId seasonId mission d
                        (resolveMissionPeriodKey zone (ms_cadence mission) (ms_missionType mission) now) now s1))
       (\<lambda>_. ret ())"

definition bumpMissions ::
  "(millis \<Rightarrow> int) \<Rightarrow> bool \<Rightarrow> int \<Rightarrow> string \<Rightarrow> (mp_mission \<Rightarrow> bool) \<Rightarrow> dec8 \<Rightarrow> string \<Rightarrow> millis \<Rightarrow> (mp_error, unit, quest_store) program" where
  "bumpMissions zone keeps userId missionType matches d dedupeKey now s =
     for_each (\<lambda>season. if \<not> isMiniPassSeasonLive season now then ret ()
                else for_each (missionTx zone keeps userId d dedupeKey now (se_id season)) (filter matches (se_missions season)))
       (loadLiveSeasonsWithMissions missionType now s) s"

definition notifyMiniPassGamePlayed ::
  "(number \<Rightarrow> dec8) \<Rightarrow> (millis \<Rightarrow> int) \<Rightarrow> bool \<Rightarrow> int \<Rightarrow> int \<Rightarrow> string option \<Rightarrow> millis \<Rightarrow> (mp_error, unit, quest_store) program" where
  "notifyMiniPassGamePlayed dec8_of zone keeps userId userPowerGameId gameSlug now =
     (if userId = 0 \<or> userPowerGameId = 0 then ret ()
      else bumpMissions zone keeps userId ''PLAY_GAMES''
             (\<lambda>m. ms_gameSlug m = None \<or> ms_gameSlug m = Some '''' \<or> ms_gameSlug m = gameSlug)
             (dec8_of 1) (''game-'' @ show_int userPowerGameId) now)"

definition notifyMiniPassBlkReward ::
  "(number \<Rightarrow> dec8) \<Rightarrow> (millis \<Rightarrow> int) \<Rightarrow> bool \<Rightarrow> int \<Rightarrow> int \<Rightarrow> number \<Rightarrow> millis \<Rightarrow> (mp_error, unit, quest_store) program" where
  "notifyMiniPassBlkReward dec8_of zone keeps userId blkRewardLogId amt now =
     (if userId = 0 \<or> blkRewardLogId = 0 \<or> amt \<le> 0 then ret ()
      else bumpMissions zone keeps userId ''MINE_BLK'' (\<lambda>_. True) (dec8_of amt) (''blklog-'' @ show_int blkRewardLogId) now)"

definition notifyMiniPassLoginDay ::
  "(number \<Rightarrow> dec8) \<Rightarrow> (millis \<Rightarrow> int) \<Rightarrow> bool \<Rightarrow> int \<Rightarrow> string \<Rightarrow> millis \<Rightarrow> (mp_error, unit, quest_store) program" where
  "notifyMiniPassLoginDay dec8_of zone keeps userId checkinDateKey now =
     (if userId = 0 \<or> checkinDateKey = '''' then ret ()
      else bumpMissions zone keeps userId ''LOGIN_DAY'' (\<lambda>_. True) (dec8_of 1) (''login-'' @ checkinDateKey) now)"

end
