(* ===== verification/MiniPassShop.thy ===== *)
theory MiniPassShop
  imports MiniPass
begin

section \<open>Level rewards, purchases and the dashboard of the mini pass\<close>

text \<open>
  \<open>miniPassClaimService.js\<close>, \<open>miniPassPurchaseService.js\<close> and \<open>miniPassDashboardService.js\<close>.
  A purchase reads the user, then makes its plan from the season and the enrolment, then writes: the
  reads take no lock on the user, so two requests can be interleaved between these parts.
  Audit details are kept but for printed decimal amounts; views keep the computed fields, not the
  titles copied from the tables.
\<close>

subsection \<open>Reading\<close>

definition allowedUser :: "int \<Rightarrow> quest_store \<Rightarrow> mp_error + user" where
  "allowedUser userId s =
     (case getUser userId s of None \<Rightarrow> Inl MpForbidden | Some u \<Rightarrow> if usr_isBanned u then Inl MpForbidden else Inr u)"

definition liveSeason :: "int \<Rightarrow> millis \<Rightarrow> quest_store \<Rightarrow> mp_error + mp_season" where
  "liveSeason seasonId now s =
     (case find_first (\<lambda>se. se_id se = seasonId \<and> se_deletedAt se = None \<and> se_isActive se) (mp_seasons s) of
        None \<Rightarrow> Inl MpNotFound
      | Some season \<Rightarrow> if isMiniPassSeasonLive season now then Inr season else Inl MpNotLive)"

definition stepOf :: "mp_season \<Rightarrow> int" where
  "stepOf season = max 1 (if se_xpPerLevel season = 0 then 1 else se_xpPerLevel season)"

definition topOf :: "mp_season \<Rightarrow> int" where
  "topOf season = max 1 (if se_maxLevel season = 0 then 1 else se_maxLevel season)"

definition levelOf :: "int \<Rightarrow> mp_season \<Rightarrow> quest_store \<Rightarrow> int" where
  "levelOf userId season s = computePassLevel (totalXpOf userId (se_id season) s) (stepOf season) (topOf season)"

subsection \<open>Claiming a level reward\<close>

definition claimLevelTx ::
  "int \<Rightarrow> int \<Rightarrow> int \<Rightarrow> millis \<Rightarrow> (mp_error, reward_summary option, quest_store) program" where
  "claimLevelTx userId seasonId levelRewardId now s =
     (case allowedUser userId s of Inl e \<Rightarrow> throw e s | Inr _ \<Rightarrow>
      case liveSeason seasonId now s of Inl e \<Rightarrow> throw e s | Inr season \<Rightarrow>
      case find_first (\<lambda>r. lr_id r = levelRewardId) (se_rewards season) of None \<Rightarrow> throw MpNotFound s | Some r \<Rightarrow>
        let s1 = enroll userId seasonId s
        in if levelOf userId season s1 < lr_level r then throw MpNotEligible s1
           else if (userId, lr_id r) \<in> set (mp_claims s1) then ret None s1
           else case fulfillMiniPassLevelReward userId (lr_reward r) now (s1\<lparr>mp_claims := mp_claims s1 @ [(userId, lr_id r)]\<rparr>) of
                  (Inl _, s2) \<Rightarrow> throw MpFailed s2
                | (Inr summary, s2) \<Rightarrow> ret (Some summary) (logAudit \<lparr>al_userId = userId, al_action = ''MINI_PASS_CLAIM'',
                    al_details = [(''seasonId'', show_int seasonId), (''levelRewardId'', show_int (lr_id r)),
                      (''level'', show_int (lr_level r)), (''rewardKind'', rw_kind (lr_reward r))]\<rparr> s2))"

text \<open>\<open>None\<close> answers a repeated claim.\<close>

definition claimMiniPassLevelReward ::
  "bool \<Rightarrow> bool \<Rightarrow> int \<Rightarrow> int \<Rightarrow> int \<Rightarrow> millis \<Rightarrow> (mp_error, reward_summary option, quest_store) program" where
  "claimMiniPassLevelReward keeps v2Ok userId seasonId levelRewardId now s =
     (case caughtTransaction keeps (\<lambda>r. r = None) (claimLevelTx userId seasonId levelRewardId now) s of
        (Inr (Some summary), t) \<Rightarrow> (Inr (Some summary), afterReward now v2Ok userId summary t)
      | r \<Rightarrow> r)"

subsection \<open>Purchases\<close>

text \<open>\<open>pp_price\<close> is the number the code computes; the decimal it becomes is the database's rounding.\<close>

record pass_plan =
  pp_kind :: string
  pp_key :: string
  pp_levels :: int
  pp_xp :: int
  pp_price :: number

definition levelsQuantity :: "int option \<Rightarrow> int" where
  "levelsQuantity quantity = min 50 (max 1 (case quantity of None \<Rightarrow> 1 | Some n \<Rightarrow> if n = 0 then 1 else n))"

definition purchaseLevelsPlan :: "user \<Rightarrow> int \<Rightarrow> int \<Rightarrow> millis \<Rightarrow> quest_store \<Rightarrow> mp_error + pass_plan" where
  "purchaseLevelsPlan user seasonId q now s =
     (case liveSeason seasonId now s of Inl e \<Rightarrow> Inl e | Inr season \<Rightarrow>
        let priceEach = toNumber (se_buyLevelPricePol season)
        in if priceEach \<le> 0 then Inl MpMisconfigured
           else let remaining = xpRemainingToCap (totalXpOf (usr_id user) seasonId s) (topOf season) (stepOf season)
                in if remaining \<le> 0 then Inl MpAlreadyMax
                   else let xpGrant = min (fli (q * stepOf season)) remaining;
                            levelsEffective = \<lceil>fl (of_int xpGrant / of_int (stepOf season))\<rceil>;
                            price = fl (priceEach * of_int levelsEffective)
                        in if toNumber (usr_polBalance user) < price then Inl MpInsufficient
                           else Inr \<lparr>pp_kind = ''BUY_LEVEL'', pp_key = ''mini-pass-buy-level-'', pp_levels = levelsEffective,
                                  pp_xp = xpGrant, pp_price = price\<rparr>)"

definition purchaseCompletePlan :: "user \<Rightarrow> int \<Rightarrow> millis \<Rightarrow> quest_store \<Rightarrow> mp_error + pass_plan" where
  "purchaseCompletePlan user seasonId now s =
     (case liveSeason seasonId now s of Inl e \<Rightarrow> Inl e | Inr season \<Rightarrow>
        if se_completePassPricePol season \<le> 0 then Inl MpMisconfigured
        else let need = xpRemainingToCap (totalXpOf (usr_id user) seasonId s) (topOf season) (stepOf season)
             in if need \<le> 0 then Inl MpAlreadyMax
                else let price = toNumber (se_completePassPricePol season)
                     in if toNumber (usr_polBalance user) < price then Inl MpInsufficient
                        else Inr \<lparr>pp_kind = ''COMPLETE_PASS'', pp_key = ''mini-pass-complete-'', pp_levels = 0,
                               pp_xp = need, pp_price = price\<rparr>)"

definition purchaseRow :: "int \<Rightarrow> int \<Rightarrow> int \<Rightarrow> dec8 \<Rightarrow> pass_plan \<Rightarrow> mp_purchase" where
  "purchaseRow i userId seasonId price p =
     \<lparr>pu_id = i, pu_userId = userId, pu_seasonId = seasonId, pu_kind = pp_kind p, pu_levelsAdded = pp_levels p,
      pu_xpAdded = pp_xp p, pu_pricePaid = price\<rparr>"

definition purchaseXpRow :: "int \<Rightarrow> int \<Rightarrow> int \<Rightarrow> pass_plan \<Rightarrow> mp_xp_row" where
  "purchaseXpRow i userId seasonId p =
     \<lparr>xp_userId = userId, xp_seasonId = seasonId, xp_amount = pp_xp p, xp_source = ''PURCHASE'',
      xp_idempotencyKey = pp_key p @ show_int i, xp_missionId = None, xp_periodKey = None\<rparr>"

text \<open>
  The writes: enrolment, charge, purchase row, grant.  The read that follows fails in a transaction
  in which the ledger row was refused, unless the database keeps such transactions.
\<close>

definition purchaseWrites ::
  "(number \<Rightarrow> dec8) \<Rightarrow> bool \<Rightarrow> int \<Rightarrow> int \<Rightarrow> millis \<Rightarrow> pass_plan \<Rightarrow> (mp_error, mp_purchase, quest_store) program" where
  "purchaseWrites dec8_of keeps userId seasonId now p s =
     (let price = dec8_of (pp_price p); s1 = addPol userId (- price) (enroll userId seasonId s);
          row = purchaseRow (st_next s1) userId seasonId price p;
          s2 = s1\<lparr>mp_purchases := mp_purchases s1 @ [row], st_next := st_next s1 + 1\<rparr>
      in and_then (applyMiniPassXp (purchaseXpRow (pu_id row) userId seasonId p) now)
           (\<lambda>r. if r = XpDuplicate \<and> \<not> keeps then throw MpFailed else ret row) s2)"

definition purchaseAudit :: "int \<Rightarrow> int \<Rightarrow> mp_purchase \<Rightarrow> audit_log" where
  "purchaseAudit userId seasonId row = \<lparr>al_userId = userId, al_action = ''MINI_PASS_PURCHASE'',
     al_details = [(''seasonId'', show_int seasonId), (''kind'', pu_kind row), (''purchaseId'', show_int (pu_id row))]\<rparr>"

text \<open>The commit of a plan and what follows it: the engine's copy of the balance and the audit row.\<close>

definition purchaseCommit ::
  "(number \<Rightarrow> dec8) \<Rightarrow> bool \<Rightarrow> int \<Rightarrow> int \<Rightarrow> millis \<Rightarrow> pass_plan \<Rightarrow> (mp_error, mp_purchase, quest_store) program" where
  "purchaseCommit dec8_of keeps userId seasonId now p s =
     (case transaction (purchaseWrites dec8_of keeps userId seasonId now p) s of
        (Inl e, t) \<Rightarrow> (Inl e, t)
      | (Inr row, t) \<Rightarrow> (Inr row, logAudit (purchaseAudit userId seasonId row)
                                (logCall (BalanceDelta userId (- toNumber (pu_pricePaid row))) t)))"

definition purchaseMiniPassLevels ::
  "(number \<Rightarrow> dec8) \<Rightarrow> bool \<Rightarrow> int \<Rightarrow> int \<Rightarrow> int option \<Rightarrow> millis \<Rightarrow> (mp_error, mp_purchase, quest_store) program" where
  "purchaseMiniPassLevels dec8_of keeps userId seasonId quantity now s =
     (case allowedUser userId s of Inl e \<Rightarrow> throw e s | Inr user \<Rightarrow>
      case purchaseLevelsPlan user seasonId (levelsQuantity quantity) now s of
        Inl e \<Rightarrow> throw e s
      | Inr p \<Rightarrow> purchaseCommit dec8_of keeps userId seasonId now p s)"

definition purchaseMiniPassComplete ::
  "(number \<Rightarrow> dec8) \<Rightarrow> bool \<Rightarrow> int \<Rightarrow> int \<Rightarrow> millis \<Rightarrow> (mp_error, mp_purchase, quest_store) program" where
  "purchaseMiniPassComplete dec8_of keeps userId seasonId now s =
     (case allowedUser userId s of Inl e \<Rightarrow> throw e s | Inr user \<Rightarrow>
      case purchaseCompletePlan user seasonId now s of
        Inl e \<Rightarrow> throw e s
      | Inr p \<Rightarrow> purchaseCommit dec8_of keeps userId seasonId now p s)"

subsection \<open>Dashboard\<close>

record mission_view =
  mv_id :: int
  mv_target :: number
  mv_current :: number
  mv_completed :: bool

record reward_view =
  rv_id :: int
  rv_level :: int
  rv_reward :: reward_spec
  rv_claimed :: bool
  rv_unlocked :: bool

record mp_dashboard =
  mb_totalXp :: int
  mb_level :: int
  mb_xpCap :: int
  mb_xpIntoLevel :: int
  mb_xpForNextLevel :: int
  mb_xpRemaining :: int
  mb_missions :: "mission_view list"
  mb_rewards :: "reward_view list"

definition mapMissionRow :: "mp_mission \<Rightarrow> mp_progress option \<Rightarrow> mission_view" where
  "mapMissionRow m prog = \<lparr>mv_id = ms_id m, mv_target = toNumber (ms_targetValue m),
     mv_current = (case prog of None \<Rightarrow> 0 | Some p \<Rightarrow> toNumber (mr_currentValue p)),
     mv_completed = (case prog of None \<Rightarrow> False | Some p \<Rightarrow> mr_completedAt p \<noteq> None)\<rparr>"

definition mapRewardRow :: "(int \<times> int) list \<Rightarrow> int \<Rightarrow> int \<Rightarrow> mp_level_reward \<Rightarrow> reward_view" where
  "mapRewardRow claims userId level r = \<lparr>rv_id = lr_id r, rv_level = lr_level r, rv_reward = lr_reward r,
     rv_claimed = ((userId, lr_id r) \<in> set claims), rv_unlocked = (lr_level r \<le> level)\<rparr>"

definition dashboardOf :: "(millis \<Rightarrow> int) \<Rightarrow> int \<Rightarrow> mp_season \<Rightarrow> millis \<Rightarrow> quest_store \<Rightarrow> mp_dashboard" where
  "dashboardOf zone userId season now s =
     (let totalXp = totalXpOf userId (se_id season) s; xpPerLevel = stepOf season; maxLevel = topOf season;
          level = computePassLevel totalXp xpPerLevel maxLevel; xpIntoLevel = totalXp mod xpPerLevel
      in \<lparr>mb_totalXp = totalXp, mb_level = level, mb_xpCap = xpCapForSeason maxLevel xpPerLevel,
          mb_xpIntoLevel = xpIntoLevel, mb_xpForNextLevel = (if maxLevel \<le> level then 0 else xpPerLevel - xpIntoLevel),
          mb_xpRemaining = xpRemainingToCap totalXp maxLevel xpPerLevel,
          mb_missions = map (\<lambda>m. mapMissionRow m (find_first (isMissionProgress userId (ms_id m)
              (resolveMissionPeriodKey zone (ms_cadence m) (ms_missionType m) now)) (mp_progress s)))
            (sort_key ms_sortOrder (filter ms_isActive (se_missions season))),
          mb_rewards = map (mapRewardRow (mp_claims s) userId level) (sort_key lr_level (se_rewards season))\<rparr>)"

definition getMiniPassSeasonDashboard ::
  "(millis \<Rightarrow> int) \<Rightarrow> int \<Rightarrow> int \<Rightarrow> millis \<Rightarrow> (mp_error, mp_dashboard, quest_store) program" where
  "getMiniPassSeasonDashboard zone userId seasonId now s =
     (case liveSeason seasonId now s of Inl e \<Rightarrow> throw e s | Inr season \<Rightarrow>
      case allowedUser userId s of Inl e \<Rightarrow> throw e s | Inr _ \<Rightarrow>
        let s1 = enroll userId seasonId s in ret (dashboardOf zone userId season now s1) s1)"

definition listLiveMiniPassSeasons :: "millis \<Rightarrow> quest_store \<Rightarrow> mp_season list" where
  "listLiveMiniPassSeasons now s = rev (sort_key se_id
     (filter (\<lambda>se. se_deletedAt se = None \<and> se_isActive se \<and> se_startsAt se \<le> now \<and> now \<le> se_endsAt se) (mp_seasons s)))"

end
