(* ===== verification/PassMath.thy ===== *)
theory PassMath
  imports MiniPassShop
begin

section \<open>Level arithmetic\<close>

text \<open>
  The level, cap and purchase arithmetic of the mini pass in exact integers: the divisions of the
  code are divisions of doubles, and below \<open>2 ^ 53\<close> their rounding cannot cross an integer.
\<close>

subsection \<open>Quotients of doubles\<close>

lemma quotient_err:
  assumes "0 \<le> a" and "a < 2 ^ 53" and "1 \<le> (b::int)"
  shows "\<bar>fl (of_int a / of_int b) - of_int a / of_int b\<bar> < 1 / of_int b"
proof -
  have b: "(0::rat) < of_int b" using assms(3) by simp
  have "(of_int a :: rat) < of_int (2 ^ 53)" using assms(2) by (simp only: of_int_less_iff)
  then have "of_int a / of_int b / 2 ^ 53 < 1 / (of_int b :: rat)" using b by (simp add: field_simps)
  moreover have "0 \<le> of_int a / (of_int b :: rat)" using assms(1) b by simp
  ultimately show ?thesis using fl_err [of "of_int a / of_int b"] by linarith
qed

lemma le_div_iff:
  assumes "1 \<le> (k::int)"
  shows "j \<le> x div k \<longleftrightarrow> j * k \<le> x"
proof
  assume "j \<le> x div k"
  then have "j * k \<le> x div k * k" using assms by (intro mult_right_mono) simp_all
  also have "\<dots> \<le> x" using assms minus_mod_eq_div_mult [of x k] pos_mod_sign [of k x] by linarith
  finally show "j * k \<le> x" .
next
  assume "j * k \<le> x"
  then have "j * k div k \<le> x div k" using assms by (intro zdiv_mono1) simp_all
  with assms show "j \<le> x div k" by simp
qed

lemma floor_fl_div:
  assumes "0 \<le> a" and "a < 2 ^ 53" and "1 \<le> b"
  shows "\<lfloor>fl (of_int a / of_int b)\<rfloor> = a div b"
proof (rule floor_unique)
  let ?q = "a div b"
  have b: "(0::rat) < of_int b" using assms(3) by simp
  have m: "a = b * ?q + a mod b" "0 \<le> a mod b" "a mod b < b" using assms(3) by simp_all
  have q0: "0 \<le> ?q" using assms by (simp add: pos_imp_zdiv_nonneg_iff)
  then have "?q * 1 \<le> ?q * b" using assms(3) by (intro mult_left_mono) simp_all
  then have qb: "?q \<le> b * ?q" by (simp add: mult.commute)
  have qa: "?q \<le> a" using qb m by linarith
  have "b * ?q \<le> a" using m by linarith
  then have "of_int (b * ?q) \<le> (of_int a :: rat)" by (simp only: of_int_le_iff)
  then have "of_int ?q \<le> (of_int a :: rat) / of_int b" using b by (simp add: field_simps)
  then have "fl (of_int ?q) \<le> fl (of_int a / of_int b)" by (rule fl_mono)
  then show "of_int ?q \<le> fl (of_int a / of_int b)" using q0 qa assms(2) by (simp add: fl_of_int)
  have "a + 1 \<le> b * ?q + b" using m by linarith
  then have "of_int (a + 1) \<le> (of_int (b * ?q + b) :: rat)" by (simp only: of_int_le_iff)
  then have "of_int a / of_int b + 1 / of_int b \<le> (of_int ?q + 1 :: rat)" using b by (simp add: field_simps)
  then show "fl (of_int a / of_int b) < of_int ?q + 1" using quotient_err [OF assms] by linarith
qed

lemma ceiling_fl_div:
  assumes "0 \<le> a" and "a < 2 ^ 53" and "1 \<le> b"
  shows "\<lceil>fl (of_int a / of_int b)\<rceil> = ceil_div a b"
proof (rule ceiling_unique)
  let ?c = "ceil_div a b"
  have b: "(0::rat) < of_int b" using assms(3) by simp
  have c: "a \<le> ?c * b" "?c * b < a + b" using ceil_div_bounds [of b a] assms(3) by simp_all
  have c0: "0 \<le> ?c" using c(1) assms by (metis mult_less_0_iff order_le_less_trans linorder_not_less zero_less_one order_less_le_trans)
  have ca: "?c \<le> a"
  proof (rule ccontr)
    assume "\<not> ?c \<le> a"
    then have "(a + 1) * b \<le> ?c * b" using assms(3) by (intro mult_right_mono) simp_all
    moreover have "a * 1 \<le> a * b" using assms by (intro mult_left_mono) simp_all
    ultimately show False using c(2) by (simp add: distrib_right)
  qed
  have "of_int a \<le> (of_int (?c * b) :: rat)" using c(1) by (simp only: of_int_le_iff)
  then have "of_int a / of_int b \<le> (of_int ?c :: rat)" using b by (simp add: field_simps)
  then have "fl (of_int a / of_int b) \<le> fl (of_int ?c)" by (rule fl_mono)
  then show "fl (of_int a / of_int b) \<le> of_int ?c" using c0 ca assms(2) by (simp add: fl_of_int)
  have "of_int (?c * b + 1) \<le> (of_int (a + b) :: rat)" using c(2) by (simp only: of_int_le_iff)
  then have "of_int ?c - 1 \<le> of_int a / (of_int b :: rat) - 1 / of_int b" using b by (simp add: field_simps)
  then show "of_int ?c - 1 < fl (of_int a / of_int b)" using quotient_err [OF assms] by linarith
qed

subsection \<open>Levels\<close>

lemma computePassLevel_eq:
  assumes "x < 2 ^ 53"
  shows "computePassLevel x k m = min (max 1 m) (1 + max 0 x div max 1 k)"
proof -
  have "\<lfloor>fl (of_int (max 0 x) / of_int (max 1 k))\<rfloor> = max 0 x div max 1 k"
    using assms by (intro floor_fl_div) auto
  moreover have "0 \<le> max 0 x div max 1 k" by (simp add: pos_imp_zdiv_nonneg_iff)
  ultimately show ?thesis by (simp add: computePassLevel_def Let_def)
qed

text \<open>A season whose cap is a safe integer.\<close>

definition safeSteps :: "int \<Rightarrow> int \<Rightarrow> bool" where
  "safeSteps k m \<longleftrightarrow> 1 \<le> k \<and> 1 \<le> m \<and> k < 2 ^ 47 \<and> m * k < 2 ^ 53"

lemma cap_eq: "safeSteps k m \<Longrightarrow> xpCapForSeason m k = (m - 1) * k"
proof -
  assume s: "safeSteps k m"
  then have "0 \<le> (m - 1) * k" "(m - 1) * k \<le> m * k" by (auto simp: safeSteps_def intro!: mult_nonneg_nonneg mult_right_mono)
  moreover from this s have "fli ((m - 1) * k) = (m - 1) * k"
    by (intro fli_exact) (simp only: safeSteps_def abs_of_nonneg, linarith)
  ultimately show ?thesis using s by (simp add: xpCapForSeason_def safeSteps_def)
qed

lemma remaining_eq:
  assumes "safeSteps k m" and "0 \<le> x" and "x < 2 ^ 53"
  shows "xpRemainingToCap x m k = max 0 ((m - 1) * k - x)"
proof -
  have "0 \<le> (m - 1) * k" "(m - 1) * k \<le> m * k" "m * k < 2 ^ 53"
    using assms(1) by (auto simp: safeSteps_def intro!: mult_nonneg_nonneg mult_right_mono)
  with assms show ?thesis by (simp add: xpRemainingToCap_def cap_eq)
qed

text \<open>The thresholds passed: the reference the level is compared with.\<close>

definition thresholds :: "int \<Rightarrow> int \<Rightarrow> int \<Rightarrow> int set" where
  "thresholds x k m = {j \<in> {1..<m}. j * k \<le> x}"

lemma card_thresholds:
  assumes "0 \<le> x" and "1 \<le> k" and "1 \<le> m"
  shows "int (card (thresholds x k m)) = min (m - 1) (x div k)"
proof -
  have "j * k \<le> x \<longleftrightarrow> j \<le> x div k" for j
    using le_div_iff [OF assms(2)] by simp
  then have "thresholds x k m = {1..min (m - 1) (x div k)}"
    unfolding thresholds_def by (intro set_eqI) (simp only: mem_Collect_eq atLeastLessThan_iff atLeastAtMost_iff, linarith)
  moreover have "0 \<le> min (m - 1) (x div k)" using assms by (simp add: pos_imp_zdiv_nonneg_iff)
  ultimately show ?thesis by simp
qed

lemma level_thresholds:
  assumes "0 \<le> x" and "x < 2 ^ 53" and "1 \<le> k" and "1 \<le> m"
  shows "computePassLevel x k m = 1 + int (card (thresholds x k m))"
  using assms by (simp add: computePassLevel_eq card_thresholds max_def)

lemma level_max_iff:
  assumes "safeSteps k m" and "0 \<le> x" and "x < 2 ^ 53"
  shows "computePassLevel x k m = m \<longleftrightarrow> xpRemainingToCap x m k = 0"
proof -
  have k: "1 \<le> k" "1 \<le> m" using assms(1) by (simp_all add: safeSteps_def)
  have "computePassLevel x k m = min m (1 + x div k)" using assms k by (simp add: computePassLevel_eq max_def)
  then have "computePassLevel x k m = m \<longleftrightarrow> m - 1 \<le> x div k" by linarith
  also have "\<dots> \<longleftrightarrow> (m - 1) * k \<le> x" by (rule le_div_iff [OF k(1)])
  finally show ?thesis using remaining_eq [OF assms] by auto
qed

subsection \<open>Buying levels\<close>

text \<open>
  \<open>g\<close> experience points for \<open>q\<close> levels, cut at the cap: the levels charged are the levels gained.
\<close>

lemma levels_gained:
  assumes s: "safeSteps k m" and x: "0 \<le> x" "x < (m - 1) * k" and q: "1 \<le> q" "q \<le> 50"
    and g: "g = min (q * k) ((m - 1) * k - x)"
  shows "computePassLevel (x + g) k m = computePassLevel x k m + ceil_div g k"
    and "1 \<le> ceil_div g k" and "ceil_div g k \<le> q"
proof -
  have k: "1 \<le> k" "1 \<le> m" and km: "(m - 1) * k < 2 ^ 53"
    using s mult_right_mono [of "m - 1" m k] unfolding safeSteps_def by linarith+
  have g1: "1 \<le> g" using x q k mult_mono [of 1 q 1 k] unfolding g by simp
  have gx: "x + g \<le> (m - 1) * k" "g \<le> q * k" unfolding g by simp_all
  have lv: "computePassLevel y k m = 1 + y div k" if "0 \<le> y" "y \<le> (m - 1) * k" for y
  proof -
    have "y div k \<le> (m - 1) * k div k" using that k by (intro zdiv_mono1) simp_all
    with that k km show ?thesis by (simp add: computePassLevel_eq max_def)
  qed
  have b: "g \<le> ceil_div g k * k" "ceil_div g k * k < g + k" using ceil_div_bounds [of k g] k by simp_all
  show "1 \<le> ceil_div g k" using ceil_div_pos [of k g] g1 k by simp
  have "(ceil_div g k - 1) * k < q * k" using b(2) gx(2) by (simp add: left_diff_distrib)
  then show "ceil_div g k \<le> q" using k by (simp add: mult_less_cancel_right)
  have "(x + g) div k = x div k + ceil_div g k"
  proof (cases "q * k \<le> (m - 1) * k - x")
    case True
    then have "g = q * k" by (simp add: g)
    moreover have "- (q * k) div k = - q" using k by (metis mult_minus_left nonzero_mult_div_cancel_right not_one_le_zero)
    moreover from calculation have "ceil_div g k = q" by (simp add: ceil_div_def)
    ultimately show ?thesis using k by simp
  next
    case False
    then have g': "g = (m - 1) * k - x" by (simp add: g)
    have "(- g) div k = (x + (1 - m) * k) div k" by (simp add: g' algebra_simps)
    also have "\<dots> = (1 - m) + x div k" using k by simp
    finally have "ceil_div g k = m - 1 - x div k" by (simp add: ceil_div_def)
    with g' k show ?thesis by simp
  qed
  with lv [of x] lv [of "x + g"] x gx g1 show "computePassLevel (x + g) k m = computePassLevel x k m + ceil_div g k"
    by simp
qed

lemma small_err:
  fixes a y e :: rat
  assumes "a \<le> y / 9007199254740992 + e / 10 ^ 8 / 9007199254740992" and "y \<le> 11 * 10 ^ 6" and "e \<le> 10 ^ 15"
  shows "a < 1 / (4 * 10 ^ 8)"
  using assms by (simp add: field_simps)

lemma close_err:
  fixes d f y e :: rat
  assumes "\<bar>d - f * 10 ^ 8\<bar> \<le> 1 / 2 + \<bar>f\<bar> / 10 ^ 8" and "\<bar>f\<bar> = f" and "f \<le> y + y / 9007199254740992"
    and "y \<le> 11 * 10 ^ 6" and "\<bar>f * 10 ^ 8 - e\<bar> < 1 / 4"
  shows "\<bar>d - e\<bar> < 1"
proof -
  have "f / 10 ^ 8 < 1 / 4" using assms(3,4) by (simp add: field_simps)
  with assms(1,2) have "\<bar>d - f * 10 ^ 8\<bar> < 3 / 4" by simp
  moreover have "\<bar>d - e\<bar> \<le> \<bar>d - f * 10 ^ 8\<bar> + \<bar>f * 10 ^ 8 - e\<bar>"
    using abs_triangle_ineq [of "d - f * 10 ^ 8" "f * 10 ^ 8 - e"] by simp
  ultimately show ?thesis using assms(5) by simp
qed

text \<open>
  The charge: the double product of the price and the levels, rounded to the column's decimals, is
  the exact product of the decimals up to 10 million coins.
\<close>

lemma charge_exact:
  assumes c: "decimal_codec dec8_of" and p: "0 \<le> p" and n: "0 \<le> n" and b: "p * n \<le> 10 ^ 15"
  shows "dec8_of (fl (toNumber p * of_int n)) = p * n"
proof -
  let ?e = "of_int (p * n) :: rat"
  let ?x = "fl (toNumber p * of_int n)"
  let ?K = "9007199254740992 :: rat"
  have e: "0 \<le> ?e" "?e \<le> 10 ^ 15"
    using p n b by (simp_all only: of_int_0_le_iff mult_nonneg_nonneg) (metis of_int_le_iff of_int_numeral of_int_power)
  have a: "\<bar>toNumber p - of_int p / 10 ^ 8\<bar> \<le> of_int p / 10 ^ 8 / ?K"
    using fl_err [of "of_int p / 10 ^ 8"] p by (simp add: toNumber_def)
  have "\<bar>toNumber p - of_int p / 10 ^ 8\<bar> * of_int n \<le> of_int p / 10 ^ 8 / ?K * of_int n"
    using n by (intro mult_right_mono a) simp
  moreover have "\<bar>toNumber p - of_int p / 10 ^ 8\<bar> * of_int n = \<bar>toNumber p * of_int n - ?e / 10 ^ 8\<bar>"
    using n by (simp add: abs_mult_pos left_diff_distrib)
  ultimately have y: "\<bar>toNumber p * of_int n - ?e / 10 ^ 8\<bar> \<le> ?e / 10 ^ 8 / ?K" by (simp add: field_simps)
  define y where "y = toNumber p * of_int n"
  have yb: "\<bar>y - ?e / 10 ^ 8\<bar> \<le> ?e / 10 ^ 8 / ?K" using y by (simp only: y_def)
  have y0: "0 \<le> y" using toNumber_mono [of 0 p] p n by (simp add: y_def)
  have yu: "y \<le> ?e / 10 ^ 8 + ?e / 10 ^ 8 / ?K" using yb by linarith
  have x: "\<bar>fl y - y\<bar> \<le> y / ?K" using fl_err [of y] y0 by simp
  have "\<bar>of_int (dec8_of (fl y)) - fl y * 10 ^ 8\<bar> \<le> 1 / 2 + \<bar>fl y\<bar> / 10 ^ 8"
    using c unfolding decimal_codec_def by blast
  moreover have "\<bar>fl y\<bar> = fl y" using fl_nonneg [OF y0] by simp
  moreover have "fl y \<le> y + y / ?K" using x by linarith
  moreover have "y \<le> 11 * 10 ^ 6" using yu e(2) by (simp add: field_simps)
  moreover have "\<bar>fl y * 10 ^ 8 - ?e\<bar> < 1 / 4"
  proof -
    have "\<bar>fl y - ?e / 10 ^ 8\<bar> \<le> \<bar>fl y - y\<bar> + \<bar>y - ?e / 10 ^ 8\<bar>" using abs_triangle_ineq [of "fl y - y" "y - ?e / 10 ^ 8"] by simp
    then have "\<bar>fl y - ?e / 10 ^ 8\<bar> \<le> y / ?K + ?e / 10 ^ 8 / ?K" using add_mono [OF x yb] by (rule order_trans)
    moreover have "y \<le> 11 * 10 ^ 6" using yu e(2) by (simp add: field_simps)
    ultimately have "\<bar>fl y - ?e / 10 ^ 8\<bar> < 1 / (4 * 10 ^ 8)" using e(2) by (rule small_err)
    then have "\<bar>fl y - ?e / 10 ^ 8\<bar> * 10 ^ 8 < 1 / 4" by simp
    moreover have "\<bar>z * 10 ^ 8 - u\<bar> = \<bar>z - u / 10 ^ 8\<bar> * 10 ^ 8" for z u :: rat by (simp add: abs_if field_simps)
    ultimately show ?thesis by (simp only:)
  qed
  ultimately have "\<bar>of_int (dec8_of (fl y)) - ?e\<bar> < 1" by (intro close_err)
  then have "\<bar>of_int (dec8_of (fl y) - p * n)\<bar> < (of_int 1 :: rat)" by simp
  then have "\<bar>dec8_of (fl y) - p * n\<bar> < 1" by (simp only: of_int_abs [symmetric] of_int_less_iff)
  then show ?thesis by (simp add: y_def)
qed

end
