(* ===== verification/QuestInv.thy ===== *)
theory QuestInv
  imports PassMath
begin

section \<open>The experience ledger\<close>

text \<open>
  What the operations of the mini pass keep: an enrolment's total is the sum of its ledger rows,
  ledger keys are unique, and no key of a purchase yet to be made is in the ledger.
\<close>

subsection \<open>Reward delivery leaves the quest tables alone\<close>

definition framed :: "'a store_scheme \<Rightarrow> 'a store_scheme \<Rightarrow> bool" where
  "framed s t \<longleftrightarrow> store.more t = store.more s \<and> st_next s \<le> st_next t
     \<and> map (\<lambda>u. (usr_id u, usr_isBanned u)) (st_users t) = map (\<lambda>u. (usr_id u, usr_isBanned u)) (st_users s)"

named_theorems frames \<open>operations that leave the extension of the store alone\<close>

lemma framed_refl [simp, intro]: "framed s s"
  by (simp add: framed_def)

lemma framed_trans: "framed s t \<Longrightarrow> framed t r \<Longrightarrow> framed s r"
  by (auto simp: framed_def)

lemma framed_createOwned [frames]: "createOwned u loc snap s = (Inr x, t) \<Longrightarrow> framed s t"
  by (auto simp: createOwned_def framed_def split: if_splits)

lemma framed_createInventory [frames]: "createInventory u snap a e om s = (Inr x, t) \<Longrightarrow> framed s t"
  by (auto simp: createInventory_def framed_def Let_def split: if_splits)

lemma framed_upsertGame [frames]: "upsertGame slug nm s = (i, t) \<Longrightarrow> framed s t"
  by (auto simp: upsertGame_def framed_def split: option.splits)

lemma framed_createPowerGame [frames]: "framed s (createPowerGame u g hr p e s)"
  by (simp add: createPowerGame_def framed_def)

lemma framed_updUser:
  "(\<And>u. usr_id (f u) = usr_id u \<and> usr_isBanned (f u) = usr_isBanned u) \<Longrightarrow> framed s (updUser v f s)"
  by (simp add: updUser_def framed_def map_update_where)

lemma framed_addPol [frames]: "framed s (addPol u d s)"
  unfolding addPol_def by (rule framed_updUser) simp

lemma framed_addBlk [frames]: "framed s (addBlk u d s)"
  unfolding addBlk_def by (rule framed_updUser) simp

lemma framed_log [frames]: "framed s (logCall c s)" "framed s (logAudit a s)"
  by (simp_all add: logCall_def logAudit_def framed_def)

lemma framed_giveMachine: "giveMachine u snap now s = (Inr x, t) \<Longrightarrow> framed s t"
  unfolding giveMachine_def createInventoryWithOwnedMachineTx_def
  by (auto simp: and_then_Inr_iff intro: framed_trans frames)

lemma framed_credit:
  "(\<And>s. framed s (add u amt s)) \<Longrightarrow> creditBalance add u amt s = (Inr x, t) \<Longrightarrow> framed s t"
  by (auto simp: creditBalance_def split: option.splits)

lemma framed_fulfill:
  assumes "fulfillMiniPassLevelReward u r now s = (Inr x, t)"
  shows "framed s t"
proof -
  have g: "framed s (createPowerGame u g hr p e s1)" if "upsertGame MINI_PASS_GAME_SLUG ''Mini Pass bonus'' s = (g, s1)" for g hr p e s1
    using that by (blast intro: framed_trans frames)
  show ?thesis
    using assms unfolding fulfillMiniPassLevelReward_def Let_def
    by (auto simp: and_then_Inr_iff getOrCreateMiniPassGameId_def
        intro: g framed_giveMachine framed_credit frames split: if_splits option.splits prod.splits)
qed

lemma framed_afterReward: "framed s (afterReward now v2Ok u x s)"
proof -
  have m: "framed a (syncMiningAfterMiniPassReward now v2Ok u a)" for a :: "'a store_scheme"
    unfolding syncMiningAfterMiniPassReward_def by (rule framed_trans [OF framed_log(1) framed_log(1)])
  have "framed s (case x of SumPol amt \<Rightarrow> applyPolDeltaInEngine u (toNumber amt) s | _ \<Rightarrow> s)"
    by (cases x) (simp_all add: applyPolDeltaInEngine_def framed_log)
  with m show ?thesis unfolding afterReward_def by (rule framed_trans [rotated])
qed

lemma more_quests:
  fixes s t :: quest_store
  assumes "store.more t = store.more s"
  shows "qs_defs t = qs_defs s" "qs_progress t = qs_progress s" "qs_ticks t = qs_ticks s" "mp_seasons t = mp_seasons s"
    "mp_enrollments t = mp_enrollments s" "mp_ledger t = mp_ledger s" "mp_progress t = mp_progress s" "mp_ticks t = mp_ticks s"
    "mp_claims t = mp_claims s" "mp_purchases t = mp_purchases s"
  using assms by (cases s; cases t; simp)+

lemma framed_next: "framed s t \<Longrightarrow> st_next s \<le> st_next t"
  by (simp add: framed_def)

lemmas framed_quests = more_quests [OF framed_def [THEN iffD1, THEN conjunct1]]

lemma framed_allowed:
  fixes s t :: quest_store
  assumes "framed s t"
  shows "(\<exists>e. allowedUser u t = Inl e) \<longleftrightarrow> (\<exists>e. allowedUser u s = Inl e)"
    and "(case getUser u t of None \<Rightarrow> True | Some x \<Rightarrow> usr_isBanned x) = (case getUser u s of None \<Rightarrow> True | Some x \<Rightarrow> usr_isBanned x)"
proof -
  have gen: "map_option usr_isBanned (find_first (\<lambda>x. usr_id x = u) xs) = map_option usr_isBanned (find_first (\<lambda>x. usr_id x = u) ys)"
    if "map (\<lambda>x. (usr_id x, usr_isBanned x)) xs = map (\<lambda>x. (usr_id x, usr_isBanned x)) ys" for xs ys :: "user list"
    using that
  proof (induction xs arbitrary: ys)
    case (Cons x xs)
    then show ?case by (cases ys) simp_all
  qed simp
  then have m: "map_option usr_isBanned (getUser u t) = map_option usr_isBanned (getUser u s)"
    unfolding getUser_def using assms by (intro gen) (simp only: framed_def)
  show "(case getUser u t of None \<Rightarrow> True | Some x \<Rightarrow> usr_isBanned x) = (case getUser u s of None \<Rightarrow> True | Some x \<Rightarrow> usr_isBanned x)"
    using m by (auto split: option.splits)
  then show "(\<exists>e. allowedUser u t = Inl e) \<longleftrightarrow> (\<exists>e. allowedUser u s = Inl e)"
    unfolding allowedUser_def by (auto split: option.splits)
qed

subsection \<open>Enrolments and ledger rows\<close>

definition xpOf :: "int \<Rightarrow> int \<Rightarrow> mp_xp_row list \<Rightarrow> int" where
  "xpOf userId seasonId = sum_where (\<lambda>r. xp_userId r = userId \<and> xp_seasonId r = seasonId) xp_amount"

definition ledger_ok :: "mp_enrollment list \<Rightarrow> mp_xp_row list \<Rightarrow> bool" where
  "ledger_ok ens led \<longleftrightarrow>
     unique_key (\<lambda>e. (en_userId e, en_seasonId e)) ens \<and> unique_key xp_idempotencyKey led
     \<and> (\<forall>e \<in> set ens. en_totalXp e = xpOf (en_userId e) (en_seasonId e) led)
     \<and> (\<forall>r \<in> set led. 0 < xp_amount r \<and> list_ex (isEnrollment (xp_userId r) (xp_seasonId r)) ens)"

lemma ledger_okD:
  assumes "ledger_ok ens led"
  shows "e \<in> set ens \<Longrightarrow> en_totalXp e = xpOf (en_userId e) (en_seasonId e) led"
    and "r \<in> set led \<Longrightarrow> 0 < xp_amount r"
    and "r \<in> set led \<Longrightarrow> list_ex (isEnrollment (xp_userId r) (xp_seasonId r)) ens"
    and "unique_key (\<lambda>e. (en_userId e, en_seasonId e)) ens" and "unique_key xp_idempotencyKey led"
  using assms by (auto simp: ledger_ok_def)

lemma xpOf_snoc: "xpOf u se (led @ [r]) = xpOf u se led + (if xp_userId r = u \<and> xp_seasonId r = se then xp_amount r else 0)"
  by (simp add: xpOf_def)

lemma xpOf_nonneg: "ledger_ok ens led \<Longrightarrow> 0 \<le> xpOf u se led"
  unfolding xpOf_def by (rule sum_where_nonneg) (auto dest: ledger_okD(2) intro: less_imp_le)

lemma xpOf_none: "ledger_ok ens led \<Longrightarrow> find_first (isEnrollment u se) ens = None \<Longrightarrow> xpOf u se led = 0"
  unfolding xpOf_def
  by (rule sum_where_none) (auto simp: find_first_None_iff list_ex_iff dest!: ledger_okD(3))

lemma ledger_enroll:
  assumes "ledger_ok ens led" and "find_first (isEnrollment u se) ens = None"
  shows "ledger_ok (ens @ [\<lparr>en_userId = u, en_seasonId = se, en_totalXp = 0\<rparr>]) led"
  using assms xpOf_none [OF assms] unfolding ledger_ok_def
  by (auto simp: find_first_None_iff isEnrollment_def list_ex_iff)

lemma ledger_grant:
  assumes ok: "ledger_ok ens led" and new: "xp_idempotencyKey r \<notin> xp_idempotencyKey ` set led"
    and pos: "0 < xp_amount r" and en: "list_ex (isEnrollment (xp_userId r) (xp_seasonId r)) ens"
  shows "ledger_ok (update_where (isEnrollment (xp_userId r) (xp_seasonId r))
            (\<lambda>e. e\<lparr>en_totalXp := en_totalXp e + xp_amount r\<rparr>) ens) (led @ [r])" (is "ledger_ok ?ens _")
  unfolding ledger_ok_def
proof (intro conjI ballI)
  have ex: "list_ex (isEnrollment u se) ?ens \<longleftrightarrow> list_ex (isEnrollment u se) ens" for u se
    by (induction ens) (auto simp: isEnrollment_def)
  show "unique_key (\<lambda>e. (en_userId e, en_seasonId e)) ?ens" using ledger_okD(4) [OF ok] by simp
  show "unique_key xp_idempotencyKey (led @ [r])" using ledger_okD(5) [OF ok] new by simp
  fix x assume x: "x \<in> set (led @ [r])"
  then show "0 < xp_amount x" using pos ledger_okD(2) [OF ok] by auto
  from x en ledger_okD(3) [OF ok] show "list_ex (isEnrollment (xp_userId x) (xp_seasonId x)) ?ens" unfolding ex by auto
next
  fix e assume "e \<in> set ?ens"
  then obtain e0 where "e0 \<in> set ens"
    and "e = (if isEnrollment (xp_userId r) (xp_seasonId r) e0 then e0\<lparr>en_totalXp := en_totalXp e0 + xp_amount r\<rparr> else e0)"
    by (auto simp: update_where_def)
  with ledger_okD(1) [OF ok, of e0] show "en_totalXp e = xpOf (en_userId e) (en_seasonId e) (led @ [r])"
    by (auto simp: xpOf_snoc isEnrollment_def)
qed

subsection \<open>The invariant\<close>

definition purchaseKeys :: "int \<Rightarrow> string set" where
  "purchaseKeys n = {k. \<exists>i \<ge> n. k = ''mini-pass-buy-level-'' @ show_int i \<or> k = ''mini-pass-complete-'' @ show_int i}"

definition mp_ok :: "quest_store \<Rightarrow> bool" where
  "mp_ok s \<longleftrightarrow> ledger_ok (mp_enrollments s) (mp_ledger s)
     \<and> xp_idempotencyKey ` set (mp_ledger s) \<inter> purchaseKeys (st_next s) = {}
     \<and> distinct (mp_claims s) \<and> distinct (mp_ticks s) \<and> unique_key pu_id (mp_purchases s)
     \<and> (\<forall>p \<in> set (mp_purchases s). pu_id p < st_next s) \<and> 0 < st_next s \<and> unique_key se_id (mp_seasons s)"

lemma purchaseKeys_mono: "n \<le> m \<Longrightarrow> purchaseKeys m \<subseteq> purchaseKeys n"
  unfolding purchaseKeys_def by (auto intro: order_trans)

lemma mission_not_purchase: "missionKey i p \<notin> purchaseKeys n"
  by (auto simp: missionKey_def purchaseKeys_def)

lemma mp_ok_framed: "mp_ok s \<Longrightarrow> framed s t \<Longrightarrow> mp_ok t"
proof -
  assume s: "mp_ok s" and f: "framed s t"
  note n = framed_next [OF f]
  show "mp_ok t"
    using s purchaseKeys_mono [OF n] n unfolding mp_ok_def framed_quests [OF f] by fastforce
qed

lemma totalXpOf_ledger: "mp_ok s \<Longrightarrow> totalXpOf u se s = xpOf u se (mp_ledger s)"
proof -
  assume "mp_ok s"
  then have ok: "ledger_ok (mp_enrollments s) (mp_ledger s)" by (simp add: mp_ok_def)
  show ?thesis
  proof (cases "find_first (isEnrollment u se) (mp_enrollments s)")
    case None
    then show ?thesis using xpOf_none [OF ok None] by (simp add: totalXpOf_def)
  next
    case (Some e)
    then have "e \<in> set (mp_enrollments s)" "en_userId e = u" "en_seasonId e = se"
      using find_first_Some_conj [OF Some] by (auto simp: isEnrollment_def)
    then have "en_totalXp e = xpOf u se (mp_ledger s)" using ledger_okD(1) [OF ok] by auto
    with xpOf_nonneg [OF ok] show ?thesis by (simp add: totalXpOf_def Some)
  qed
qed

lemma enroll_frame [simp]:
  "mp_ledger (enroll u se s) = mp_ledger s" "st_next (enroll u se s) = st_next s" "mp_claims (enroll u se s) = mp_claims s"
  "mp_ticks (enroll u se s) = mp_ticks s" "mp_purchases (enroll u se s) = mp_purchases s" "mp_seasons (enroll u se s) = mp_seasons s"
  "st_users (enroll u se s) = st_users s" "mp_progress (enroll u se s) = mp_progress s"
  by (simp_all add: enroll_def split: option.splits)

lemma enroll_has: "list_ex (isEnrollment u se) (mp_enrollments (enroll u se s))"
proof (cases "find_first (isEnrollment u se) (mp_enrollments s)")
  case None
  then show ?thesis by (simp add: enroll_def isEnrollment_def)
next
  case (Some e)
  with find_first_Some_conj [OF Some] show ?thesis by (auto simp: enroll_def list_ex_iff)
qed

lemma mp_ok_enroll: "mp_ok s \<Longrightarrow> mp_ok (enroll u se s)"
  unfolding mp_ok_def enroll_frame
  by (auto simp: enroll_def intro: ledger_enroll split: option.splits)

lemma totalXpOf_enroll: "mp_ok s \<Longrightarrow> totalXpOf v se' (enroll u se s) = totalXpOf v se' s"
  using mp_ok_enroll [of s u se] by (simp add: totalXpOf_ledger)

subsection \<open>The grant\<close>

lemma grant_cases:
  assumes "applyMiniPassXp row now s = (x, t)"
  obtains (thrown) e where "x = Inl e" "t = s"
    | (invalid) "x = Inr XpInvalid" "t = s"
    | (duplicate) "x = Inr XpDuplicate" "t = enroll (xp_userId row) (xp_seasonId row) s"
        "xp_idempotencyKey row \<in> xp_idempotencyKey ` set (mp_ledger s)"
    | (granted) ens where "x = Inr XpGranted" "xp_idempotencyKey row \<notin> xp_idempotencyKey ` set (mp_ledger s)" "0 < xp_amount row"
        "ens = mp_enrollments (enroll (xp_userId row) (xp_seasonId row) s)"
        "t = s\<lparr>mp_ledger := mp_ledger s @ [row], mp_enrollments := update_where (isEnrollment (xp_userId row) (xp_seasonId row))
               (\<lambda>e. e\<lparr>en_totalXp := en_totalXp e + xp_amount row\<rparr>) ens, st_audit := st_audit s @ [xpAudit row]\<rparr>"
proof (cases "xp_userId row = 0 \<or> xp_seasonId row = 0 \<or> xp_idempotencyKey row = '''' \<or> xp_amount row \<le> 0")
  case True
  with assms have "x = Inr XpInvalid" "t = s" by (auto simp: applyMiniPassXp_def)
  then show ?thesis by (rule invalid)
next
  case v: False
  show ?thesis
  proof (cases "find_first (\<lambda>se. se_id se = xp_seasonId row \<and> se_deletedAt se = None) (mp_seasons s)")
    case None
    with assms v show ?thesis by (intro thrown [of MpNotFound]) (auto simp: applyMiniPassXp_def)
  next
    case (Some season)
    show ?thesis
    proof (cases "isMiniPassSeasonLive season now")
      case False
      with assms v Some show ?thesis by (intro thrown [of MpNotLive]) (auto simp: applyMiniPassXp_def)
    next
      case l: True
      show ?thesis
      proof (cases "xp_idempotencyKey row \<in> xp_idempotencyKey ` set (mp_ledger s)")
        case True
        with assms v Some l show ?thesis by (intro duplicate) (auto simp: applyMiniPassXp_def Let_def)
      next
        case False
        have "\<exists>ens. enroll (xp_userId row) (xp_seasonId row) s = s\<lparr>mp_enrollments := ens\<rparr>"
        proof (cases "find_first (isEnrollment (xp_userId row) (xp_seasonId row)) (mp_enrollments s)")
          case (Some e)
          then have "enroll (xp_userId row) (xp_seasonId row) s = s\<lparr>mp_enrollments := mp_enrollments s\<rparr>" by (simp add: enroll_def)
          then show ?thesis ..
        qed (auto simp: enroll_def)
        then obtain ens where e: "enroll (xp_userId row) (xp_seasonId row) s = s\<lparr>mp_enrollments := ens\<rparr>" ..
        have "x = Inr XpGranted" and
          "t = logAudit (xpAudit row) (enroll (xp_userId row) (xp_seasonId row) s\<lparr>mp_ledger := mp_ledger s @ [row],
             mp_enrollments := update_where (isEnrollment (xp_userId row) (xp_seasonId row))
               (\<lambda>e. e\<lparr>en_totalXp := en_totalXp e + xp_amount row\<rparr>) (mp_enrollments (enroll (xp_userId row) (xp_seasonId row) s))\<rparr>)"
          using assms v Some l False by (simp_all add: applyMiniPassXp_def Let_def)
        with v False show ?thesis
          by (intro granted [of ens]) (simp_all add: logAudit_def e)
      qed
    qed
  qed
qed

lemma mp_ok_grant:
  assumes ok: "mp_ok s" and k: "xp_idempotencyKey row \<notin> purchaseKeys (st_next s)" and a: "applyMiniPassXp row now s = (x, t)"
  shows "mp_ok t"
  using a
proof (cases rule: grant_cases)
  case duplicate
  with mp_ok_enroll [OF ok] show ?thesis by simp
next
  case (granted ens)
  let ?e = "enroll (xp_userId row) (xp_seasonId row) s"
  have "ledger_ok (mp_enrollments ?e) (mp_ledger ?e)" using mp_ok_enroll [OF ok] by (simp add: mp_ok_def)
  from ledger_grant [OF this _ granted(3) enroll_has] granted(2)
  have "ledger_ok (mp_enrollments t) (mp_ledger t)" using granted(4,5) by simp
  with ok k show ?thesis unfolding granted(5) by (simp add: mp_ok_def)
qed (use ok in simp_all)

text \<open>Who gains what: one row of the ledger, or nothing.\<close>

lemma ledger_of_grant:
  assumes "applyMiniPassXp row now s = (x, t)"
  shows "mp_ledger t = (if x = Inr XpGranted then mp_ledger s @ [row] else mp_ledger s)"
    and "mp_progress t = mp_progress s" and "mp_ticks t = mp_ticks s" and "mp_claims t = mp_claims s"
    and "st_users t = st_users s" and "mp_purchases t = mp_purchases s" and "mp_seasons t = mp_seasons s" and "st_next t = st_next s"
    and "st_calls t = st_calls s"
  using assms by (cases rule: grant_cases; simp add: enroll_def split: option.splits)+

end
