(* ===== verification/QuestSteps.thy ===== *)
theory QuestSteps
  imports QuestInv
begin

section \<open>The operations of the mini pass as steps\<close>

text \<open>
  Every operation keeps \<open>mp_ok\<close>; the inductive relation \<open>mp_step\<close> lets them run in any order, a
  purchase's writes possibly long after the reads its plan was made from.
\<close>

lemma mp_ok_same:
  assumes "mp_ok s" and "mp_enrollments t = mp_enrollments s" "mp_ledger t = mp_ledger s" "mp_claims t = mp_claims s"
    "mp_ticks t = mp_ticks s" "mp_purchases t = mp_purchases s" "mp_seasons t = mp_seasons s" and n: "st_next s \<le> st_next t"
  shows "mp_ok t"
  using assms purchaseKeys_mono [OF n] unfolding mp_ok_def by fastforce

subsection \<open>Missions\<close>

lemma upsertMissionProgress_frame [simp]:
  "mp_ledger (upsertMissionProgress u m k d s) = mp_ledger s"
  "mp_enrollments (upsertMissionProgress u m k d s) = mp_enrollments s"
  "mp_claims (upsertMissionProgress u m k d s) = mp_claims s"
  "mp_ticks (upsertMissionProgress u m k d s) = mp_ticks s"
  "mp_purchases (upsertMissionProgress u m k d s) = mp_purchases s"
  "mp_seasons (upsertMissionProgress u m k d s) = mp_seasons s"
  "st_next s \<le> st_next (upsertMissionProgress u m k d s)"
  by (auto simp: upsertMissionProgress_def split: option.splits)

text \<open>A bump either leaves the ledger tables alone or ends in the grant.\<close>

lemma bump_cases:
  assumes "bumpMissionProgress u se m d k now s = (x, t)"
  obtains (quiet) "x = Inr XpInvalid" "mp_enrollments t = mp_enrollments s" "mp_ledger t = mp_ledger s" "mp_claims t = mp_claims s"
      "mp_ticks t = mp_ticks s" "mp_purchases t = mp_purchases s" "st_next s \<le> st_next t" "mp_seasons t = mp_seasons s"
    | (grant) s2 where "mp_enrollments s2 = mp_enrollments s" "mp_ledger s2 = mp_ledger s" "mp_claims s2 = mp_claims s"
      "mp_ticks s2 = mp_ticks s" "mp_purchases s2 = mp_purchases s" "st_next s \<le> st_next s2" "mp_seasons s2 = mp_seasons s"
      "applyMiniPassXp (missionXpRow u se m k) now s2 = (x, t)"
proof -
  let ?s1 = "upsertMissionProgress u (ms_id m) k d s"
  consider "toNumber (ms_targetValue m) \<le> 0" | "\<not> toNumber (ms_targetValue m) \<le> 0" "find_first (isMissionProgress u (ms_id m) k) (mp_progress ?s1) = None"
    | row where "\<not> toNumber (ms_targetValue m) \<le> 0" "find_first (isMissionProgress u (ms_id m) k) (mp_progress ?s1) = Some row" by blast
  then show ?thesis
  proof cases
    case 3
    define P where "P = (\<lambda>p :: mp_progress. mr_id p = mr_id row \<and> mr_completedAt p = None)"
    define s2 where "s2 = ?s1\<lparr>mp_progress := update_where P (\<lambda>p. p\<lparr>mr_completedAt := Some now\<rparr>) (mp_progress ?s1)\<rparr>"
    have s2: "mp_enrollments s2 = mp_enrollments s" "mp_ledger s2 = mp_ledger s" "mp_claims s2 = mp_claims s"
      "mp_ticks s2 = mp_ticks s" "mp_purchases s2 = mp_purchases s" "st_next s \<le> st_next s2" "mp_seasons s2 = mp_seasons s"
      by (simp_all add: s2_def)
    have b: "bumpMissionProgress u se m d k now s = (if mr_completedAt row \<noteq> None \<or> toNumber (mr_currentValue row) < toNumber (ms_targetValue m) then ret XpInvalid ?s1
        else if count_where P (mp_progress ?s1) \<noteq> 1 \<or> ms_xpReward m \<le> 0 then ret XpInvalid s2
        else applyMiniPassXp (missionXpRow u se m k) now s2)"
      using 3 by (simp add: bumpMissionProgress_def Let_def P_def s2_def)
    consider "(x, t) = ret XpInvalid ?s1" | "(x, t) = ret XpInvalid s2" | "applyMiniPassXp (missionXpRow u se m k) now s2 = (x, t)"
      using b unfolding assms by metis
    then show ?thesis
    proof cases
      case 1
      then show ?thesis by (intro quiet) (simp_all add: ret_def)
    next
      case 2
      with s2 show ?thesis by (intro quiet) (simp_all add: ret_def)
    next
      case 3
      with s2 show ?thesis by (intro grant)
    qed
  qed (use assms in \<open>intro quiet; simp add: bumpMissionProgress_def Let_def ret_def; auto\<close>)+
qed

lemma mp_ok_bump:
  assumes ok: "mp_ok s" and b: "bumpMissionProgress u se m d k now s = (x, t)"
  shows "mp_ok t"
  using b
proof (cases rule: bump_cases)
  case quiet
  with ok show ?thesis by (intro mp_ok_same [OF ok])
next
  case (grant s2)
  have "mp_ok s2" by (rule mp_ok_same [OF ok]) (use grant in simp_all)
  moreover have "xp_idempotencyKey (missionXpRow u se m k) \<notin> purchaseKeys (st_next s2)"
    by (simp add: missionXpRow_def mission_not_purchase)
  ultimately show ?thesis using grant(8) by (rule mp_ok_grant)
qed

lemma missionDedupe_cases:
  assumes "missionDedupe i k s = (ok, t)"
  shows "if ok then (i, k) \<notin> set (mp_ticks s) \<and> t = s\<lparr>mp_ticks := mp_ticks s @ [(i, k)]\<rparr> else (i, k) \<in> set (mp_ticks s) \<and> t = s"
  using assms by (auto simp: missionDedupe_def consumeTick_def Let_def split: if_splits prod.splits)

lemma mp_ok_dedupe: "mp_ok s \<Longrightarrow> missionDedupe i k s = (ok, t) \<Longrightarrow> mp_ok t"
  using missionDedupe_cases [of i k s ok t] by (auto simp: mp_ok_def split: if_splits)

definition missionBody ::
  "(millis \<Rightarrow> int) \<Rightarrow> int \<Rightarrow> dec8 \<Rightarrow> string \<Rightarrow> millis \<Rightarrow> int \<Rightarrow> mp_mission \<Rightarrow> (mp_error, xp_result, quest_store) program" where
  "missionBody zone u d key now se m s =
     (let (ok, s1) = missionDedupe (ms_id m) key s
      in if \<not> ok then ret XpInvalid s1
         else bumpMissionProgress u se m d (resolveMissionPeriodKey zone (ms_cadence m) (ms_missionType m) now) now s1)"

lemma missionTx_body:
  "missionTx zone keeps u d key now se m =
     and_then (caughtTransaction keeps (\<lambda>r. r = XpDuplicate) (missionBody zone u d key now se m)) (\<lambda>_. ret ())"
  unfolding missionTx_def missionBody_def ..

lemma stable_caught:
  assumes "\<And>s a t. Q s \<Longrightarrow> f s = (Inr a, t) \<Longrightarrow> Q t"
  shows "stable Q (caughtTransaction keeps c f)"
  using assms by (auto simp: stable_def caughtTransaction_def transaction_def split: prod.splits sum.splits)

lemma mp_ok_missionBody: "mp_ok s \<Longrightarrow> missionBody zone u d key now se m s = (x, t) \<Longrightarrow> mp_ok t"
  unfolding missionBody_def Let_def
  by (auto split: prod.splits if_splits intro: mp_ok_dedupe mp_ok_bump)

lemma stable_missionTx: "stable mp_ok (missionTx zone keeps u d key now se m)"
  unfolding missionTx_body by (intro stable_and_then stable_caught stable_ret) (rule mp_ok_missionBody)

lemma stable_bumpMissions: "stable mp_ok (bumpMissions zone keeps u mt matches d key now)"
proof (rule stableI)
  fix s assume "mp_ok s"
  have "stable mp_ok (for_each (\<lambda>season. if \<not> isMiniPassSeasonLive season now then ret ()
                else for_each (missionTx zone keeps u d key now (se_id season)) (filter matches (se_missions season))) seasons)" for seasons
    by (intro stable_for_each) (simp add: stable_for_each stable_missionTx)
  with \<open>mp_ok s\<close> show "mp_ok (snd (bumpMissions zone keeps u mt matches d key now s))"
    unfolding bumpMissions_def by (blast dest: stableD)
qed

lemma stable_hooks:
  "stable mp_ok (notifyMiniPassGamePlayed dec8_of zone keeps u g slug now)"
  "stable mp_ok (notifyMiniPassBlkReward dec8_of zone keeps u l amt now)"
  "stable mp_ok (notifyMiniPassLoginDay dec8_of zone keeps u day now)"
  unfolding notifyMiniPassGamePlayed_def notifyMiniPassBlkReward_def notifyMiniPassLoginDay_def
  by (simp_all add: stable_bumpMissions)

subsection \<open>Claims and purchases\<close>

definition claimAudit :: "int \<Rightarrow> int \<Rightarrow> mp_level_reward \<Rightarrow> audit_log" where
  "claimAudit userId seasonId r = \<lparr>al_userId = userId, al_action = ''MINI_PASS_CLAIM'',
     al_details = [(''seasonId'', show_int seasonId), (''levelRewardId'', show_int (lr_id r)),
       (''level'', show_int (lr_level r)), (''rewardKind'', rw_kind (lr_reward r))]\<rparr>"

lemma claimTx_cases:
  assumes "claimLevelTx u se l now s = (Inr x, t)"
  obtains (repeat) r :: mp_level_reward where "(u, lr_id r) \<in> set (mp_claims s)" "t = enroll u se s" "x = None"
    | (paid) season r sm s2 where "liveSeason se now s = Inr season" "find_first (\<lambda>r. lr_id r = l) (se_rewards season) = Some r"
      "(u, lr_id r) \<notin> set (mp_claims s)" "lr_level r \<le> levelOf u season (enroll u se s)" "x = Some sm"
      "fulfillMiniPassLevelReward u (lr_reward r) now (enroll u se s\<lparr>mp_claims := mp_claims s @ [(u, lr_id r)]\<rparr>) = (Inr sm, s2)"
      "t = logAudit (claimAudit u se r) s2"
proof -
  from assms obtain us season r where a: "allowedUser u s = Inr us" "liveSeason se now s = Inr season"
      "find_first (\<lambda>r. lr_id r = l) (se_rewards season) = Some r" "\<not> levelOf u season (enroll u se s) < lr_level r"
    unfolding claimLevelTx_def Let_def by (auto split: sum.splits option.splits if_splits)
  show ?thesis
  proof (cases "(u, lr_id r) \<in> set (mp_claims s)")
    case True
    with a assms show ?thesis by (intro repeat [of r]) (simp_all add: claimLevelTx_def)
  next
    case False
    obtain y s2 where f: "fulfillMiniPassLevelReward u (lr_reward r) now (enroll u se s\<lparr>mp_claims := mp_claims s @ [(u, lr_id r)]\<rparr>) = (y, s2)"
      by (cases "fulfillMiniPassLevelReward u (lr_reward r) now (enroll u se s\<lparr>mp_claims := mp_claims s @ [(u, lr_id r)]\<rparr>)")
    with a False assms show ?thesis
      by (cases y) (auto simp: claimLevelTx_def claimAudit_def intro!: paid)
  qed
qed

lemma mp_ok_claimTx:
  assumes ok: "mp_ok s" and c: "claimLevelTx u se l now s = (Inr x, t)"
  shows "mp_ok t"
  using c
proof (cases rule: claimTx_cases)
  case (repeat r)
  with mp_ok_enroll [OF ok] show ?thesis by simp
next
  case (paid season r sm s2)
  have "mp_ok (enroll u se s\<lparr>mp_claims := mp_claims s @ [(u, lr_id r)]\<rparr>)"
    using mp_ok_enroll [OF ok] paid(3) by (simp add: mp_ok_def)
  then show ?thesis unfolding paid(7) by (rule mp_ok_framed) (rule framed_trans [OF framed_fulfill [OF paid(6)] framed_log(2)])
qed

lemma stable_claim: "stable mp_ok (claimMiniPassLevelReward keeps v2Ok u se l now)"
proof (rule stableI)
  fix s assume s: "mp_ok s"
  have "stable mp_ok (caughtTransaction keeps (\<lambda>r. r = None) (claimLevelTx u se l now))"
    by (intro stable_caught) (rule mp_ok_claimTx)
  from stableD [OF this s] show "mp_ok (snd (claimMiniPassLevelReward keeps v2Ok u se l now s))"
    unfolding claimMiniPassLevelReward_def
    by (auto split: prod.splits sum.splits option.splits intro: mp_ok_framed framed_afterReward)
qed

definition planned_pass :: "pass_plan \<Rightarrow> bool" where
  "planned_pass p \<longleftrightarrow> pp_key p \<in> {''mini-pass-buy-level-'', ''mini-pass-complete-''}"

text \<open>Printed ids are distinct, so the key of a new purchase is new.\<close>

lemma show_int_inj: "0 \<le> i \<Longrightarrow> 0 \<le> j \<Longrightarrow> show_int i = show_int j \<Longrightarrow> i = j"
  using show_int_digits(1) by metis

lemma planned_key:
  assumes "planned_pass p" and "0 \<le> i" 
  shows "pp_key p @ show_int i \<in> purchaseKeys i" and "pp_key p @ show_int i \<notin> purchaseKeys (i + 1)"
proof -
  show "pp_key p @ show_int i \<in> purchaseKeys i" using assms(1) unfolding planned_pass_def purchaseKeys_def by auto
  have "show_int j \<noteq> show_int i" if "i + 1 \<le> j" for j using show_int_inj [of j i] that assms(2) by auto
  then show "pp_key p @ show_int i \<notin> purchaseKeys (i + 1)"
    using assms(1) unfolding planned_pass_def purchaseKeys_def by force
qed

subsection \<open>Purchases\<close>

lemma writes_cases:
  assumes "purchaseWrites dec8_of keeps u se now p s = (Inr row, t)"
  obtains x s2 where "row = purchaseRow (st_next s) u se (dec8_of (pp_price p)) p"
    "s2 = (addPol u (- dec8_of (pp_price p)) (enroll u se s))\<lparr>mp_purchases := mp_purchases s @ [row], st_next := st_next s + 1\<rparr>"
    "applyMiniPassXp (purchaseXpRow (st_next s) u se p) now s2 = (Inr x, t)" "x = XpDuplicate \<longrightarrow> keeps"
proof -
  have a: "st_next (addPol u d (enroll u se s)) = st_next s" "mp_purchases (addPol u d (enroll u se s)) = mp_purchases s" for d
    by (simp_all add: addPol_def updUser_def)
  obtain x where "row = purchaseRow (st_next s) u se (dec8_of (pp_price p)) p" and
      "applyMiniPassXp (purchaseXpRow (st_next s) u se p) now ((addPol u (- dec8_of (pp_price p)) (enroll u se s))
         \<lparr>mp_purchases := mp_purchases s @ [row], st_next := st_next s + 1\<rparr>) = (Inr x, t)" and "x = XpDuplicate \<longrightarrow> keeps"
    using assms a unfolding purchaseWrites_def Let_def
    by (auto simp: and_then_Inr_iff purchaseRow_def split: if_splits)
  then show ?thesis by (intro that [OF _ refl])
qed

lemma mp_ok_writes:
  assumes ok: "mp_ok s" and p: "planned_pass p" and w: "purchaseWrites dec8_of keeps u se now p s = (Inr row, t)"
  shows "mp_ok t"
proof -
  from w obtain x s2 where row: "row = purchaseRow (st_next s) u se (dec8_of (pp_price p)) p"
    and s2: "s2 = (addPol u (- dec8_of (pp_price p)) (enroll u se s))\<lparr>mp_purchases := mp_purchases s @ [row], st_next := st_next s + 1\<rparr>"
    and g: "applyMiniPassXp (purchaseXpRow (st_next s) u se p) now s2 = (Inr x, t)" by (rule writes_cases)
  let ?a = "addPol u (- dec8_of (pp_price p)) (enroll u se s)"
  have a: "mp_ok ?a" using mp_ok_enroll [OF ok] framed_addPol by (rule mp_ok_framed)
  have f: "st_next ?a = st_next s" "mp_purchases ?a = mp_purchases s" by (simp_all add: addPol_def updUser_def)
  have n: "st_next s \<noteq> i" if "i \<in> pu_id ` set (mp_purchases s)" for i using ok that by (auto simp: mp_ok_def)
  have "xp_idempotencyKey ` set (mp_ledger ?a) \<inter> purchaseKeys (st_next s + 1) = {}"
    using a purchaseKeys_mono [of "st_next s" "st_next s + 1"] unfolding mp_ok_def f by auto
  with a ok have "mp_ok s2" unfolding mp_ok_def f s2 by (auto simp: row purchaseRow_def f)
  moreover have "xp_idempotencyKey (purchaseXpRow (st_next s) u se p) \<notin> purchaseKeys (st_next s2)"
    using planned_key(2) [OF p, of "st_next s"] ok by (simp add: purchaseXpRow_def s2 mp_ok_def)
  ultimately show ?thesis using g by (rule mp_ok_grant)
qed

lemma stable_commit: "planned_pass p \<Longrightarrow> stable mp_ok (purchaseCommit dec8_of keeps u se now p)"
proof (rule stableI)
  fix s assume p: "planned_pass p" and s: "mp_ok s"
  have "stable mp_ok (transaction (purchaseWrites dec8_of keeps u se now p))"
    by (intro stable_transaction) (rule mp_ok_writes [OF _ p])
  from stableD [OF this s] show "mp_ok (snd (purchaseCommit dec8_of keeps u se now p s))"
    unfolding purchaseCommit_def
    by (auto split: prod.splits sum.splits intro: mp_ok_framed [OF _ framed_trans [OF framed_log(1) framed_log(2)]])
qed

lemma plan_planned:
  "purchaseLevelsPlan user se q now s = Inr p \<Longrightarrow> planned_pass p"
  "purchaseCompletePlan user se now s = Inr p \<Longrightarrow> planned_pass p"
  by (auto simp: purchaseLevelsPlan_def purchaseCompletePlan_def planned_pass_def Let_def split: sum.splits if_splits)

lemma stable_purchases:
  "stable mp_ok (purchaseMiniPassLevels dec8_of keeps u se q now)"
  "stable mp_ok (purchaseMiniPassComplete dec8_of keeps u se now)"
  unfolding stable_def purchaseMiniPassLevels_def purchaseMiniPassComplete_def
  by (auto simp: throw_def split: sum.splits intro!: stableD [OF stable_commit] dest: plan_planned)

lemma stable_dashboard: "stable mp_ok (getMiniPassSeasonDashboard zone u se now)"
  unfolding stable_def getMiniPassSeasonDashboard_def
  by (auto simp: throw_def ret_def Let_def mp_ok_enroll split: sum.splits)

subsection \<open>Any order\<close>

text \<open>
  \<open>Commit\<close> runs the writes of a plan some earlier state \<open>s0\<close> produced; the other rules are whole
  operations.  The parameters are those of the definitions.
\<close>

inductive mp_step :: "quest_store \<Rightarrow> quest_store \<Rightarrow> bool" where
  Game: "mp_step s (snd (notifyMiniPassGamePlayed dec8_of zone keeps u g slug now s))"
| Blk: "mp_step s (snd (notifyMiniPassBlkReward dec8_of zone keeps u l amt now s))"
| Login: "mp_step s (snd (notifyMiniPassLoginDay dec8_of zone keeps u day now s))"
| Claim: "mp_step s (snd (claimMiniPassLevelReward keeps v2Ok u se l now s))"
| CommitLevels: "purchaseLevelsPlan user se q now0 s0 = Inr p \<Longrightarrow> mp_step s (snd (purchaseCommit dec8_of keeps u se now p s))"
| CommitComplete: "purchaseCompletePlan user se now0 s0 = Inr p \<Longrightarrow> mp_step s (snd (purchaseCommit dec8_of keeps u se now p s))"
| Dashboard: "mp_step s (snd (getMiniPassSeasonDashboard zone u se now s))"

inductive_cases mp_stepE: "mp_step s t"

definition mp_init :: "quest_store \<Rightarrow> bool" where
  "mp_init s \<longleftrightarrow> mp_enrollments s = [] \<and> mp_ledger s = [] \<and> mp_claims s = [] \<and> mp_ticks s = [] \<and> mp_purchases s = [] \<and> 0 < st_next s
     \<and> unique_key se_id (mp_seasons s)"

interpretation mpass: machine mp_init mp_step mp_ok
proof unfold_locales
  show "mp_ok s" if "mp_init s" for s using that by (simp add: mp_init_def mp_ok_def ledger_ok_def)
  show "mp_ok t" if "mp_ok s" "mp_step s t" for s t
    using that(2,1)
    by cases (auto intro: stableD [OF stable_hooks(1)] stableD [OF stable_hooks(2)] stableD [OF stable_hooks(3)]
        stableD [OF stable_claim] stableD [OF stable_dashboard] stableD [OF stable_commit] plan_planned)
qed

end
