(* ===== verification/PassBuy.thy ===== *)
theory PassBuy
  imports QuestSteps
begin

section \<open>What a purchase does\<close>

lemma liveSeason_cong: "mp_seasons t = mp_seasons s \<Longrightarrow> liveSeason se now t = liveSeason se now s"
  by (simp add: liveSeason_def)

lemma season_found:
  assumes "mp_ok s" and "liveSeason se now s = Inr season"
  shows "find_first (\<lambda>x. se_id x = se \<and> se_deletedAt x = None) (mp_seasons s) = Some season"
    and "se_id season = se" and "isMiniPassSeasonLive season now"
proof -
  from assms(2) have f: "find_first (\<lambda>x. se_id x = se \<and> se_deletedAt x = None \<and> se_isActive x) (mp_seasons s) = Some season"
    and l: "isMiniPassSeasonLive season now"
    by (auto simp: liveSeason_def split: option.splits if_splits)
  note season = find_first_Some_conj [OF f]
  from season show "se_id season = se" by simp
  show "isMiniPassSeasonLive season now" by (rule l)
  show "find_first (\<lambda>x. se_id x = se \<and> se_deletedAt x = None) (mp_seasons s) = Some season"
    using season assms(1) by (intro find_first_unique) (auto simp: mp_ok_def dest: unique_key_eqD)
qed

lemma grant_succeeds:
  assumes "mp_ok s" and "liveSeason (xp_seasonId row) now s = Inr season" and "xp_userId row \<noteq> 0" and "xp_seasonId row \<noteq> 0"
    and "xp_idempotencyKey row \<noteq> ''''" and "0 < xp_amount row" and "xp_idempotencyKey row \<notin> xp_idempotencyKey ` set (mp_ledger s)"
  shows "\<exists>t. applyMiniPassXp row now s = (Inr XpGranted, t)"
  using assms season_found [OF assms(1,2)] by (simp add: applyMiniPassXp_def Let_def ret_def)

lemma show_int_nonempty: "0 \<le> i \<Longrightarrow> show_int i \<noteq> ''''"
  using show_pos_digits [of i] by (simp add: show_int_def)

text \<open>The commit of a plan succeeds in every state in which the season is live; it does not look at the balance.\<close>

lemma commit_effect:
  assumes ok: "mp_ok s" and p: "planned_pass p" "0 < pp_xp p" and u: "u \<noteq> 0" "se \<noteq> 0" and live: "liveSeason se now s = Inr season"
  shows "\<exists>row t. purchaseCommit dec8_of keeps u se now p s = (Inr row, t)
    \<and> row = purchaseRow (st_next s) u se (dec8_of (pp_price p)) p \<and> mp_ledger t = mp_ledger s @ [purchaseXpRow (st_next s) u se p]
    \<and> st_users t = st_users (addPol u (- dec8_of (pp_price p)) s) \<and> mp_seasons t = mp_seasons s \<and> mp_ok t"
proof -
  let ?row = "purchaseRow (st_next s) u se (dec8_of (pp_price p)) p"
  let ?a = "addPol u (- dec8_of (pp_price p)) (enroll u se s)"
  let ?s2 = "?a\<lparr>mp_purchases := mp_purchases s @ [?row], st_next := st_next s + 1\<rparr>"
  have a: "mp_ok ?a" using mp_ok_enroll [OF ok] framed_addPol by (rule mp_ok_framed)
  have f: "st_next ?a = st_next s" "mp_purchases ?a = mp_purchases s" "mp_ledger ?a = mp_ledger s" "mp_seasons ?a = mp_seasons s"
    "mp_enrollments ?a = mp_enrollments (enroll u se s)" "mp_claims ?a = mp_claims s" "mp_ticks ?a = mp_ticks s"
    "st_users ?a = st_users (addPol u (- dec8_of (pp_price p)) s)"
    by (simp_all add: addPol_def updUser_def)
  have n: "0 < st_next s" and np: "\<forall>q \<in> set (mp_purchases s). pu_id q < st_next s" using ok by (simp_all add: mp_ok_def)
  have k: "pp_key p @ show_int (st_next s) \<notin> xp_idempotencyKey ` set (mp_ledger s)"
    using planned_key(1) [OF p(1), of "st_next s"] ok n by (auto simp: mp_ok_def)
  have "xp_idempotencyKey ` set (mp_ledger ?a) \<inter> purchaseKeys (st_next s + 1) = {}"
    using a purchaseKeys_mono [of "st_next s" "st_next s + 1"] unfolding mp_ok_def f by auto
  with a np n have ok2: "mp_ok ?s2" unfolding mp_ok_def f by (auto simp: purchaseRow_def f)
  have "\<exists>t. applyMiniPassXp (purchaseXpRow (st_next s) u se p) now ?s2 = (Inr XpGranted, t)"
    using u p(2) k live
    by (intro grant_succeeds [OF ok2, where season = season]) (simp_all add: purchaseXpRow_def f liveSeason_def show_int_nonempty n less_imp_le)
  then obtain t where g: "applyMiniPassXp (purchaseXpRow (st_next s) u se p) now ?s2 = (Inr XpGranted, t)" ..
  have okt: "mp_ok t"
    using g planned_key(2) [OF p(1), of "st_next s"] n by (intro mp_ok_grant [OF ok2]) (auto simp: purchaseXpRow_def)
  have w: "purchaseWrites dec8_of keeps u se now p s = (Inr ?row, t)"
    using g by (simp add: purchaseWrites_def Let_def f and_then_Inr_iff purchaseRow_def)
  let ?t = "logAudit (purchaseAudit u se ?row) (logCall (BalanceDelta u (- toNumber (pu_pricePaid ?row))) t)"
  have fr: "framed t ?t" by (rule framed_trans [OF framed_log(1) framed_log(2)])
  have us: "st_users ?t = st_users t" by (simp add: logAudit_def logCall_def)
  have "purchaseCommit dec8_of keeps u se now p s = (Inr ?row, ?t)"
    using w by (simp add: purchaseCommit_def transaction_def)
  moreover have "mp_ledger ?t = mp_ledger s @ [purchaseXpRow (st_next s) u se p]"
    using ledger_of_grant(1) [OF g] unfolding framed_quests [OF fr] by (simp add: f)
  moreover have "st_users ?t = st_users (addPol u (- dec8_of (pp_price p)) s)"
    using ledger_of_grant(5) [OF g] unfolding us by (simp add: f)
  moreover have "mp_seasons ?t = mp_seasons s"
    using ledger_of_grant(7) [OF g] unfolding framed_quests [OF fr] by (simp add: f)
  moreover have "mp_ok ?t" by (rule mp_ok_framed [OF okt fr])
  ultimately show ?thesis by blast
qed

lemma polOf_same_users: "st_users t = st_users s \<Longrightarrow> polOf u t = polOf u s"
  by (simp add: polOf_def getUser_def)

lemma allowedUser_id: "allowedUser u s = Inr user \<Longrightarrow> usr_id user = u \<and> polOf u s = Some (usr_polBalance user)"
  by (auto simp: allowedUser_def polOf_def getUser_def split: option.splits if_splits dest: find_first_SomeD)

lemma fli_nonpos: "n \<le> 0 \<Longrightarrow> fli n \<le> 0"
  using fl_mono [of "of_int n" 0] by (simp add: fli_def floor_le_iff)

text \<open>The plan for levels, in exact integers.\<close>

lemma levels_plan:
  assumes pl: "purchaseLevelsPlan user se q now s = Inr p" and live: "liveSeason se now s = Inr season"
    and q: "1 \<le> q" "q \<le> 50" and safe: "safeSteps (se_xpPerLevel season) (se_maxLevel season)"
    and x: "x = totalXpOf (usr_id user) se s"
  defines "k \<equiv> se_xpPerLevel season" and "m \<equiv> se_maxLevel season"
  shows "x < (m - 1) * k" and "pp_xp p = min (q * k) ((m - 1) * k - x)" and "pp_levels p = ceil_div (pp_xp p) k"
    and "pp_price p = fl (toNumber (se_buyLevelPricePol season) * of_int (pp_levels p))"
    and "pp_price p \<le> toNumber (usr_polBalance user)" and "0 < se_buyLevelPricePol season" and "0 < pp_xp p"
proof -
  have k: "1 \<le> k" "1 \<le> m" "k < 2 ^ 47" "m * k < 2 ^ 53" and st: "stepOf season = k" "topOf season = m"
    using safe by (auto simp: safeSteps_def k_def m_def stepOf_def topOf_def)
  have x0: "0 \<le> x" by (simp add: x totalXpOf_def)
  have cap: "(m - 1) * k < 2 ^ 53" using k mult_right_mono [of "m - 1" m k] by linarith
  have c: "xpCapForSeason m k = (m - 1) * k" using safe by (intro cap_eq) (simp add: k_def m_def)
  from pl live have r: "0 < xpRemainingToCap x m k"
    by (auto simp: purchaseLevelsPlan_def Let_def x st split: if_splits)
  have x1: "x < (m - 1) * k"
  proof (rule ccontr)
    assume "\<not> x < (m - 1) * k"
    then have "fli ((m - 1) * k - x) \<le> 0" by (intro fli_nonpos) simp
    then have "xpRemainingToCap x m k = 0" using x0 by (simp add: xpRemainingToCap_def c)
    with r show False by simp
  qed
  then have rem: "xpRemainingToCap x m k = (m - 1) * k - x" using remaining_eq [of k m x] safe x0 cap by (simp add: k_def m_def)
  have qk: "fli (q * k) = q * k"
  proof (rule fli_exact)
    have "q * k \<le> 50 * k" using q k by (intro mult_right_mono) simp_all
    moreover have "0 \<le> q * k" using q k by simp
    ultimately show "\<bar>q * k\<bar> < 2 ^ 53" using k(3) by simp
  qed
  have g: "0 \<le> min (q * k) ((m - 1) * k - x)" "min (q * k) ((m - 1) * k - x) < 2 ^ 53" using q k x1 x0 cap by auto
  note ceil = ceiling_fl_div [OF g k(1)]
  show "x < (m - 1) * k" by (rule x1)
  show px: "pp_xp p = min (q * k) ((m - 1) * k - x)"
    using pl live r by (auto simp: purchaseLevelsPlan_def Let_def st rem qk simp flip: x split: if_splits)
  show lv: "pp_levels p = ceil_div (pp_xp p) k"
    unfolding px ceil [symmetric] using pl live r by (auto simp: purchaseLevelsPlan_def Let_def st rem qk simp flip: x split: if_splits)
  show "pp_price p = fl (toNumber (se_buyLevelPricePol season) * of_int (pp_levels p))"
    and "pp_price p \<le> toNumber (usr_polBalance user)"
    using pl live by (auto simp: purchaseLevelsPlan_def Let_def split: if_splits)
  show "0 < se_buyLevelPricePol season"
    using pl live toNumber_pos_iff [of "se_buyLevelPricePol season"] by (auto simp: purchaseLevelsPlan_def Let_def split: if_splits)
  show "0 < pp_xp p" unfolding px using q k x1 by (auto intro: mult_pos_pos)
qed

lemma cap_le_total:
  assumes "safeSteps k m" and "xpRemainingToCap x m k \<le> 0" and "0 \<le> x"
  shows "xpCapForSeason m k \<le> x"
proof (rule ccontr)
  assume a: "\<not> xpCapForSeason m k \<le> x"
  have "(m - 1) * k \<le> m * k" "m * k < 2 ^ 53" using assms(1) by (auto simp: safeSteps_def intro!: mult_right_mono)
  with a assms remaining_eq [OF assms(1,3)] show False unfolding cap_eq [OF assms(1)] by auto
qed


end
