(* ===== verification/PassClaims.thy ===== *)
theory PassClaims
  imports PassBuy
begin

section \<open>Properties of the mini pass\<close>

text \<open>
  Two users of 5 coins and a season of four levels of 100 points, a level for 3 coins, with a daily
  login mission worth 60 points and a reward of half a coin for level 2.
\<close>

definition pass_user :: "int \<Rightarrow> user" where
  "pass_user i = \<lparr>usr_id = i, usr_name = ''u'', usr_username = None, usr_isBanned = False, usr_polBalance = 500000000,
     usr_blkBalance = 0, usr_blkLocked = 0, usr_walletAddress = None, usr_miningPayoutMode = ''pol'', usr_refCode = None,
     usr_referredBy = None\<rparr>"

definition pass_reward :: reward_spec where
  "pass_reward = \<lparr>rw_kind = ''POL'', rw_minerId = None, rw_eventMinerId = None, rw_hashRate = None, rw_hashRateDays = None,
     rw_blkAmount = None, rw_polAmount = Some 50000000\<rparr>"

definition pass_mission :: mp_mission where
  "pass_mission = \<lparr>ms_id = 3, ms_cadence = ''DAILY'', ms_missionType = ''LOGIN_DAY'', ms_targetValue = 100000000, ms_xpReward = 60,
     ms_gameSlug = None, ms_isActive = True, ms_sortOrder = 0\<rparr>"

definition pass_season :: mp_season where
  "pass_season = \<lparr>se_id = 7, se_startsAt = 0, se_endsAt = 10 ^ 12, se_maxLevel = 4, se_xpPerLevel = 100,
     se_buyLevelPricePol = 300000000, se_completePassPricePol = 450000000, se_isActive = True, se_deletedAt = None,
     se_missions = [pass_mission], se_rewards = [\<lparr>lr_id = 9, lr_level = 2, lr_reward = pass_reward\<rparr>]\<rparr>"

definition pass_demo :: quest_store where
  "pass_demo = \<lparr>st_users = [pass_user 1, pass_user 2], st_games = [], st_gamePowers = [], st_ytPowers = [], st_gpuPowers = [],
     st_v2Powers = [], st_miners = [], st_eventMiners = [], st_owned = [], st_inventory = [], st_userMiners = [], st_audit = [],
     st_calls = [], st_next = 100, qs_defs = [], qs_progress = [], qs_ticks = [], mp_seasons = [pass_season], mp_enrollments = [],
     mp_ledger = [], mp_progress = [], mp_ticks = [], mp_claims = [], mp_purchases = []\<rparr>"

lemma pass_demo_ok: "mp_init pass_demo" "mp_ok pass_demo"
  by (simp_all add: mp_init_def mp_ok_def ledger_ok_def pass_demo_def unique_key_def)

subsection \<open>Levels\<close>

text \<open>
  C15: the level the code computes with a rounded division is one more than the number of thresholds
  \<open>xpPerLevel\<close>, \<open>2 * xpPerLevel\<close>, \dots below the maximum level that the total has reached, and the
  maximum is shown exactly when nothing remains to the cap.
\<close>

lemma pass_level_counts_thresholds:
  assumes "safeSteps k m" and "0 \<le> x" and "x < 2 ^ 53"
  shows "computePassLevel x k m = 1 + int (card {j \<in> {1..<m}. j * k \<le> x})
    \<and> (computePassLevel x k m = m \<longleftrightarrow> xpRemainingToCap x m k = 0)"
  using level_thresholds [of x k m] level_max_iff [OF assms] assms by (simp add: thresholds_def safeSteps_def)

lemma pass_level_counts_thresholds_witness: "computePassLevel 250 100 4 = 1 + int (card {j \<in> {1..<4}. j * 100 \<le> (250::int)})"
  using pass_level_counts_thresholds [of 100 4 250] by (simp add: safeSteps_def)

subsection \<open>The ledger\<close>

text \<open>
  C16: in every state the operations of the mini pass reach, in any order and with purchases committed
  from plans made in other states, the total of every user and season is the sum of the ledger rows,
  every row is positive, no key is in the ledger twice and no user has claimed a reward twice.
\<close>

lemma totals_are_ledger_sums:
  assumes "reaches mp_init mp_step s"
  shows "totalXpOf u se s = (\<Sum>r \<leftarrow> filter (\<lambda>r. xp_userId r = u \<and> xp_seasonId r = se) (mp_ledger s). xp_amount r)
    \<and> (\<forall>r. r \<in> set (mp_ledger s) \<longrightarrow> 0 < xp_amount r) \<and> distinct (map xp_idempotencyKey (mp_ledger s)) \<and> distinct (mp_claims s)"
proof -
  from assms have ok: "mp_ok s" by (rule mpass.reaches_inv)
  with totalXpOf_ledger [OF ok] show ?thesis
    by (auto simp: mp_ok_def ledger_ok_def unique_key_def xpOf_def sum_where_def)
qed

lemma totals_are_ledger_sums_witness:
  "totalXpOf 1 7 (snd (notifyMiniPassLoginDay round8_away (\<lambda>t. t div 86400000) False 1 ''2026-01-01'' 5000 pass_demo)) = 60"
proof -
  let ?s = "snd (notifyMiniPassLoginDay round8_away (\<lambda>t. t div 86400000) False 1 ''2026-01-01'' 5000 pass_demo)"
  have "reaches mp_init mp_step ?s"
    by (rule reaches.move, rule reaches.start, rule pass_demo_ok, rule mp_step.Login)
  note totals_are_ledger_sums [OF this, of 1 7]
  moreover have "(\<Sum>r \<leftarrow> filter (\<lambda>r. xp_userId r = 1 \<and> xp_seasonId r = 7) (mp_ledger ?s). xp_amount r) = 60" by code_simp
  ultimately show ?thesis by simp
qed

subsection \<open>Buying levels\<close>

text \<open>
  C17: a purchase of levels by an allowed user in a live season with a price either succeeds, and then
  charges exactly the price times the levels it adds, never more than the balance, raises the level by
  exactly these levels, and never passes the cap; or it changes nothing, because the pass is already
  full or because the rounded price is above the rounded balance.
\<close>

lemma buying_levels:
  assumes codec: "decimal_codec dec8_of" and ok: "mp_ok s" and ids: "u \<noteq> 0" "se \<noteq> 0"
    and user: "allowedUser u s = Inr user" and bal: "0 \<le> usr_polBalance user" "usr_polBalance user \<le> 10 ^ 15"
    and live: "liveSeason se now s = Inr season" and safe: "safeSteps (se_xpPerLevel season) (se_maxLevel season)"
    and price: "0 < se_buyLevelPricePol season" "se_buyLevelPricePol season * 50 \<le> 10 ^ 15"
  shows "case purchaseMiniPassLevels dec8_of keeps u se quantity now s of
      (Inr row, t) \<Rightarrow> pu_pricePaid row = se_buyLevelPricePol season * pu_levelsAdded row
        \<and> polOf u t = Some (usr_polBalance user - pu_pricePaid row) \<and> pu_pricePaid row \<le> usr_polBalance user
        \<and> 1 \<le> pu_levelsAdded row \<and> pu_levelsAdded row \<le> levelsQuantity quantity
        \<and> levelOf u season t = levelOf u season s + pu_levelsAdded row
        \<and> totalXpOf u se t = totalXpOf u se s + pu_xpAdded row
        \<and> totalXpOf u se t \<le> xpCapForSeason (se_maxLevel season) (se_xpPerLevel season)
    | (Inl e, t) \<Rightarrow> t = s \<and> (e = MpAlreadyMax \<and> xpCapForSeason (se_maxLevel season) (se_xpPerLevel season) \<le> totalXpOf u se s
        \<or> e = MpInsufficient)"
proof (cases "purchaseLevelsPlan user se (levelsQuantity quantity) now s")
  case (Inl e)
  have "0 < toNumber (se_buyLevelPricePol season)" using price(1) by (rule toNumber_pos)
  with Inl live have e: "e = MpAlreadyMax \<and> xpRemainingToCap (totalXpOf (usr_id user) se s) (topOf season) (stepOf season) \<le> 0 \<or> e = MpInsufficient"
    by (auto simp: purchaseLevelsPlan_def Let_def split: if_splits)
  have st: "topOf season = se_maxLevel season" "stepOf season = se_xpPerLevel season"
    using safe by (auto simp: topOf_def stepOf_def safeSteps_def)
  have full: "xpCapForSeason (se_maxLevel season) (se_xpPerLevel season) \<le> x"
    if "xpRemainingToCap x (se_maxLevel season) (se_xpPerLevel season) \<le> 0" "0 \<le> x" for x
    using that cap_le_total [OF safe] by simp
  have "0 \<le> totalXpOf u se s" by (simp add: totalXpOf_def)
  with e full [of "totalXpOf u se s"] Inl allowedUser_id [OF user] show ?thesis
    by (auto simp: purchaseMiniPassLevels_def user throw_def st)
next
  case (Inr p)
  have q: "1 \<le> levelsQuantity quantity" "levelsQuantity quantity \<le> 50" by (auto simp: levelsQuantity_def)
  have uid: "usr_id user = u" and b: "polOf u s = Some (usr_polBalance user)" using allowedUser_id [OF user] by auto
  note L = levels_plan [OF Inr live q safe, OF uid [THEN arg_cong, of "\<lambda>v. totalXpOf v se s", symmetric]]
  from commit_effect [OF ok plan_planned(1) [OF Inr] L(7) ids live, of dec8_of keeps] obtain row t where
    c: "purchaseCommit dec8_of keeps u se now p s = (Inr row, t)" and row: "row = purchaseRow (st_next s) u se (dec8_of (pp_price p)) p"
    and led: "mp_ledger t = mp_ledger s @ [purchaseXpRow (st_next s) u se p]"
    and us: "st_users t = st_users (addPol u (- dec8_of (pp_price p)) s)" and okt: "mp_ok t" by blast
  have x0: "0 \<le> totalXpOf u se s" by (simp add: totalXpOf_def)
  have xt: "totalXpOf u se t = totalXpOf u se s + pp_xp p"
    unfolding totalXpOf_ledger [OF okt] totalXpOf_ledger [OF ok] led by (simp add: xpOf_snoc purchaseXpRow_def)
  note G = levels_gained [OF safe x0 L(1) q L(2), folded L(3)]
  have "se_buyLevelPricePol season * pp_levels p \<le> se_buyLevelPricePol season * 50"
    using price G(3) q by (intro mult_left_mono) simp_all
  then have lv: "0 \<le> se_buyLevelPricePol season" "0 \<le> pp_levels p" "se_buyLevelPricePol season * pp_levels p \<le> 10 ^ 15"
    using price G(2) by linarith+
  have d: "dec8_of (pp_price p) = se_buyLevelPricePol season * pp_levels p"
    unfolding L(4) by (rule charge_exact [OF codec lv])
  have "dec8_of (pp_price p) \<le> dec8_of (toNumber (usr_polBalance user))"
    using codec L(5) unfolding decimal_codec_def by blast
  also have "\<dots> = usr_polBalance user"
    using charge_exact [OF codec bal(1), of 1] bal(2) by (simp add: toNumber_def)
  finally have afford: "dec8_of (pp_price p) \<le> usr_polBalance user" .
  have st: "topOf season = se_maxLevel season" "stepOf season = se_xpPerLevel season"
    using safe by (auto simp: topOf_def stepOf_def safeSteps_def)
  have lvl: "levelOf u season t = levelOf u season s + pp_levels p"
    using G(1) season_found(2) [OF ok live] by (simp add: levelOf_def st xt)
  have cap: "totalXpOf u se s + pp_xp p \<le> xpCapForSeason (se_maxLevel season) (se_xpPerLevel season)"
    unfolding L(2) cap_eq [OF safe] by simp
  have pol: "polOf u t = Some (usr_polBalance user - dec8_of (pp_price p))"
    using polOf_same_users [OF us, of u] b by simp
  show ?thesis
    using c d afford lvl cap pol xt G(2,3) by (simp add: purchaseMiniPassLevels_def user Inr row purchaseRow_def)
qed

lemma buying_levels_witness:
  "case purchaseMiniPassLevels round8_away False 1 7 (Some 1) 5000 pass_demo of
     (Inr row, t) \<Rightarrow> pu_pricePaid row = 300000000 * pu_levelsAdded row \<and> polOf 1 t = Some (500000000 - pu_pricePaid row)
   | (Inl e, t) \<Rightarrow> False"
proof -
  have u: "allowedUser 1 pass_demo = Inr (pass_user 1)" and l: "liveSeason 7 5000 pass_demo = Inr pass_season"
    by (simp_all add: allowedUser_def getUser_def liveSeason_def isMiniPassSeasonLive_def pass_demo_def pass_user_def pass_season_def)
  have f: "isl (fst (purchaseMiniPassLevels round8_away False 1 7 (Some 1) 5000 pass_demo)) = False" by code_simp
  have "decimal_codec round8_away" by (rule pg.decimal_codec_axioms)
  from buying_levels [OF this pass_demo_ok(2) _ _ u _ _ l, where keeps = False and quantity = "Some 1"] f
  show ?thesis by (auto simp: pass_user_def pass_season_def safeSteps_def split: prod.splits sum.splits)
qed

text \<open>
  The balance is read before anything is locked and not checked again: when two requests have read
  the user, the second commits after the first although the plan it makes is checked against the
  balance before the first charge, and both prices are taken.
\<close>

lemma concurrent_purchases_overdraw:
  assumes "mp_ok s" and "u \<noteq> 0" and "se \<noteq> 0" and user: "allowedUser u s = Inr user"
    and "purchaseLevelsPlan user se q now s = Inr p" and "0 < pp_xp p" and "purchaseCommit dec8_of keeps u se now p s = (Inr row1, s1)"
    and "purchaseLevelsPlan user se q' now s1 = Inr p'" and "0 < pp_xp p'"
  shows "\<exists>row2 s2. purchaseCommit dec8_of keeps u se now p' s1 = (Inr row2, s2)
    \<and> polOf u s2 = Some (usr_polBalance user - dec8_of (pp_price p) - dec8_of (pp_price p'))"
proof -
  from assms(5) obtain season where live: "liveSeason se now s = Inr season"
    by (auto simp: purchaseLevelsPlan_def split: sum.splits)
  from assms(8) obtain season1 where live1: "liveSeason se now s1 = Inr season1"
    by (auto simp: purchaseLevelsPlan_def split: sum.splits)
  from commit_effect [OF assms(1) plan_planned(1) [OF assms(5)] assms(6,2,3) live, of dec8_of keeps] assms(7)
  have us1: "st_users s1 = st_users (addPol u (- dec8_of (pp_price p)) s)" and ok1: "mp_ok s1" by auto
  from commit_effect [OF ok1 plan_planned(1) [OF assms(8)] assms(9,2,3) live1, of dec8_of keeps] obtain row2 s2 where
    c: "purchaseCommit dec8_of keeps u se now p' s1 = (Inr row2, s2)" and us2: "st_users s2 = st_users (addPol u (- dec8_of (pp_price p')) s1)"
    by blast
  have "polOf u s2 = Some (usr_polBalance user - dec8_of (pp_price p) - dec8_of (pp_price p'))"
    using polOf_same_users [OF us1, of u] polOf_same_users [OF us2, of u] allowedUser_id [OF user] by simp
  with c show ?thesis by blast
qed

text \<open>One level for 3 of 5 coins, bought twice at once: the balance is minus one coin.\<close>

lemma concurrent_purchases_overdraw_witness:
  "\<exists>p s1 s2. purchaseLevelsPlan (pass_user 1) 7 1 5000 pass_demo = Inr p
    \<and> s1 = snd (purchaseCommit round8_away False 1 7 5000 p pass_demo)
    \<and> s2 = snd (purchaseCommit round8_away False 1 7 5000 p s1) \<and> polOf 1 s2 = Some (- 100000000)"
proof -
  define p where "p = projr (purchaseLevelsPlan (pass_user 1) 7 1 5000 pass_demo)"
  define r where "r = purchaseCommit round8_away False 1 7 5000 p pass_demo"
  have u: "allowedUser 1 pass_demo = Inr (pass_user 1)"
    by (simp add: allowedUser_def getUser_def pass_demo_def pass_user_def)
  have p: "purchaseLevelsPlan (pass_user 1) 7 1 5000 pass_demo = Inr p" "0 < pp_xp p" "round8_away (pp_price p) = 300000000"
    unfolding p_def by code_simp+
  have r: "r = (Inr (projl (Inl (projr (fst r)))), snd r)" unfolding r_def p_def by code_simp
  have p2: "purchaseLevelsPlan (pass_user 1) 7 1 5000 (snd r) = Inr p" unfolding r_def p_def by code_simp
  from concurrent_purchases_overdraw [OF pass_demo_ok(2) _ _ u p(1,2) r [unfolded r_def] p2 [unfolded r_def] p(2)]
  have "polOf 1 (snd (purchaseCommit round8_away False 1 7 5000 p (snd r))) = Some (- 100000000)"
    by (auto simp: p(3) pass_user_def r_def)
  with p(1) show ?thesis unfolding r_def by blast
qed

end
