(* ===== verification/QuestOnce.thy ===== *)
theory QuestOnce
  imports PassBuy
begin

section \<open>What happens at most once\<close>

subsection \<open>Tick tables\<close>

text \<open>
  The interface of the dedupe tables: a tick can be consumed once.  The daily tasks and the missions
  each have such a table.
\<close>

locale tick_table =
  fixes consume :: "int \<Rightarrow> string \<Rightarrow> 's \<Rightarrow> bool \<times> 's"
    and used :: "'s \<Rightarrow> (int \<times> string) set"
  assumes consume_new: "(i, k) \<notin> used s \<Longrightarrow> \<exists>t. consume i k s = (True, t) \<and> used t = insert (i, k) (used s)"
    and consume_used: "(i, k) \<in> used s \<Longrightarrow> consume i k s = (False, s)"
begin

lemma with_tick_used: "(i, k) \<in> used s \<Longrightarrow> with_tick consume i k body s = s"
  using consume_used [of i k s] by (simp add: with_tick_def)

lemma with_tick_marks:
  assumes "\<And>s. used s \<subseteq> used (body s)"
  shows "insert (i, k) (used s) \<subseteq> used (with_tick consume i k body s)"
proof (cases "(i, k) \<in> used s")
  case True
  with with_tick_used [OF True] show ?thesis by auto
next
  case False
  from consume_new [OF this] obtain t where "consume i k s = (True, t)" "used t = insert (i, k) (used s)" by blast
  with assms [of t] show ?thesis by (simp add: with_tick_def)
qed

text \<open>A loop that consumes the tick of every item marks them all; a second loop over marked items does nothing.\<close>

lemma loop_marks:
  assumes "\<And>x s. used s \<subseteq> used (body x s)"
  shows "used s \<union> {(i x, k) | x. x \<in> set xs \<and> P x}
    \<subseteq> used (foldl (\<lambda>s x. if P x then with_tick consume (i x) k (body x) s else s) s xs)"
proof (induction xs arbitrary: s)
  case (Cons x xs)
  have "insert (i x, k) (used s) \<subseteq> used (with_tick consume (i x) k (body x) s)" by (rule with_tick_marks) (rule assms)
  with Cons.IH [of "with_tick consume (i x) k (body x) s"] Cons.IH [of s] show ?case by auto
qed simp

lemma loop_idle:
  assumes "\<And>x. x \<in> set xs \<Longrightarrow> P x \<Longrightarrow> (i x, k) \<in> used s"
  shows "foldl (\<lambda>s x. if P x then with_tick consume (i x) k (body x) s else s) s xs = s"
  using assms by (induction xs) (auto simp: with_tick_used)

end

interpretation daily_ticks: tick_table tryConsumeDedupe "\<lambda>s. set (qs_ticks s)"
  by unfold_locales (auto simp: tryConsumeDedupe_def consumeTick_def)

interpretation mission_ticks: tick_table missionDedupe "\<lambda>s. set (mp_ticks s)"
  by unfold_locales (auto simp: missionDedupe_def consumeTick_def)

lemma missionBody_tick:
  "missionBody zone u d key now se m s = (if (ms_id m, key) \<in> set (mp_ticks s) then (Inr XpInvalid, s)
     else bumpMissionProgress u se m d (resolveMissionPeriodKey zone (ms_cadence m) (ms_missionType m) now) now
            (snd (missionDedupe (ms_id m) key s)))"
  by (auto simp: missionBody_def missionDedupe_def consumeTick_def Let_def ret_def)

subsection \<open>The daily tasks\<close>

lemma bumpOneTask_frame: "qs_ticks (bumpOneTask u d k x now s) = qs_ticks s" "qs_defs (bumpOneTask u d k x now s) = qs_defs s"
  by (auto simp: bumpOneTask_def upsertProgress_def Let_def split: option.splits)

lemma bumpDef_defs: "qs_defs (bumpDef dec8_of zone u key x now d s) = qs_defs s"
  by (auto simp: bumpDef_def with_tick_def tryConsumeDedupe_def Let_def bumpOneTask_frame split: prod.splits)

lemma bumpLoop_defs:
  "qs_defs (foldl (\<lambda>s d. if P d then bumpDef dec8_of zone u key x now d s else s) s ds) = qs_defs s"
  by (induction ds arbitrary: s) (simp_all add: bumpDef_defs)

lemma activeDefinitions_cong: "qs_defs t = qs_defs s \<Longrightarrow> activeDefinitions ty now t = activeDefinitions ty now s"
  by (simp add: activeDefinitions_def)

lemma bump_twice:
  assumes sub: "set (activeDefinitions ty now' s) \<subseteq> set (activeDefinitions ty now s)" and "u \<noteq> 0" "0 < x" "key \<noteq> ''''"
  shows "bumpDailyTasksForUser dec8_of zone v ty key x g off now' (bumpDailyTasksForUser dec8_of zone u ty key x g off now s)
       = bumpDailyTasksForUser dec8_of zone u ty key x g off now s"
proof -
  let ?t = "bumpDailyTasksForUser dec8_of zone u ty key x g off now s"
  have t: "?t = foldl (\<lambda>s d. if defMatches ty g off d then bumpDef dec8_of zone u key x now d s else s) s (activeDefinitions ty now s)"
    using assms by (simp add: bumpDailyTasksForUser_def)
  have "set (qs_ticks s) \<union> {(dd_id d, key) |d. d \<in> set (activeDefinitions ty now s) \<and> defMatches ty g off d} \<subseteq> set (qs_ticks ?t)"
    unfolding t bumpDef_def by (rule daily_ticks.loop_marks) (simp add: bumpOneTask_frame)
  then have m: "(dd_id d, key) \<in> set (qs_ticks ?t)" if "d \<in> set (activeDefinitions ty now' s)" "defMatches ty g off d" for d
    using that sub by blast
  have defs: "qs_defs ?t = qs_defs s" unfolding t by (rule bumpLoop_defs)
  have "foldl (\<lambda>s d. if defMatches ty g off d then bumpDef dec8_of zone v key x now' d s else s) ?t (activeDefinitions ty now' s) = ?t"
    unfolding bumpDef_def by (rule daily_ticks.loop_idle) (rule m)
  then show ?thesis
    unfolding bumpDailyTasksForUser_def [of dec8_of zone v ty key x g off now' ?t] activeDefinitions_cong [OF defs] by simp
qed

text \<open>A daily claim, read or committed.\<close>

lemma claimDaily_cases:
  assumes "claimDailyTaskReward zone v2Ok ck u i now s = (Inr sm, t)"
  obtains d p s1 s2 where "claimRead zone ck u i now s = Inr (d, p)"
    "s1 = s\<lparr>qs_progress := update_where (\<lambda>r. dp_id r = dp_id p \<and> dp_claimedAt r = None \<and> dp_completedAt r \<noteq> None)
        (\<lambda>r. r\<lparr>dp_claimedAt := Some now\<rparr>) (qs_progress s)\<rparr>"
    "fulfillMiniPassLevelReward u (dd_reward d) now s1 = (Inr sm, s2)" "framed s2 t"
proof -
  obtain d p where r: "claimRead zone ck u i now s = Inr (d, p)"
    using assms by (auto simp: claimDailyTaskReward_def transaction_def split: sum.splits prod.splits)
  define P where "P = (\<lambda>r :: daily_progress. dp_id r = dp_id p \<and> dp_claimedAt r = None \<and> dp_completedAt r \<noteq> None)"
  define s1 where "s1 = s\<lparr>qs_progress := update_where P (\<lambda>r. r\<lparr>dp_claimedAt := Some now\<rparr>) (qs_progress s)\<rparr>"
  from assms r obtain t1 where c: "claimLocked u d p now s = (Inr sm, t1)" and t: "t = afterReward now v2Ok u sm t1"
    by (auto simp: claimDailyTaskReward_def transaction_def split: sum.splits prod.splits)
  obtain y s2 where f: "fulfillMiniPassLevelReward u (dd_reward d) now s1 = (y, s2)"
    by (cases "fulfillMiniPassLevelReward u (dd_reward d) now s1")
  from c f have y: "y = Inr sm" and "\<exists>a. t1 = logAudit a s2"
    by (auto simp: claimLocked_def Let_def P_def s1_def split: if_splits sum.splits)
  then obtain a where t1: "t1 = logAudit a s2" by blast
  have "framed s2 t" unfolding t t1 by (rule framed_trans [OF framed_log(2) framed_afterReward])
  with r f y show ?thesis by (intro that) (simp_all add: s1_def P_def)
qed

lemma claimed_row:
  assumes "find_first (isProgress u i k) rows = Some p" and "dp_completedAt p \<noteq> None" and "dp_claimedAt p = None"
  shows "find_first (isProgress u i k) (update_where (\<lambda>r. dp_id r = dp_id p \<and> dp_claimedAt r = None \<and> dp_completedAt r \<noteq> None)
      (\<lambda>r. r\<lparr>dp_claimedAt := Some now\<rparr>) rows) = Some (p\<lparr>dp_claimedAt := Some now\<rparr>)"
  using assms by (induction rows) (auto simp: isProgress_def split: if_splits)

lemma no_row_left:
  "count_where (\<lambda>r. dp_id r = i \<and> dp_claimedAt r = None \<and> dp_completedAt r \<noteq> None)
     (update_where (\<lambda>r. dp_id r = i \<and> dp_claimedAt r = None \<and> dp_completedAt r \<noteq> None) (\<lambda>r. r\<lparr>dp_claimedAt := Some now\<rparr>) rows) = 0"
  by (induction rows) auto

lemma claimRead_Inr:
  assumes "claimRead zone ck u i now s = Inr (d, p)"
  shows "(case getUser u s of None \<Rightarrow> True | Some x \<Rightarrow> usr_isBanned x) = False"
    and "find_first (\<lambda>d. dd_id d = i \<and> dd_isActive d) (qs_defs s) = Some d" and "\<not> (dd_taskType d = ''LOGIN_DAY'' \<and> \<not> ck)"
    and "find_first (isProgress u i (getDailyTaskPeriodKey zone now)) (qs_progress s) = Some p"
    and "dp_completedAt p \<noteq> None" and "dp_claimedAt p = None"
  using assms by (auto simp: claimRead_def split: option.splits if_splits)

subsection \<open>Reward claims are never lost\<close>

definition hasClaim :: "int \<times> int \<Rightarrow> quest_store \<Rightarrow> bool" where
  "hasClaim c s \<longleftrightarrow> c \<in> set (mp_claims s)"

lemma claims_stable_tx: "stable (hasClaim c) (missionTx zone keeps u d key now se m)"
proof -
  have b: "hasClaim c t" if c: "hasClaim c s" and t: "missionBody zone u d key now se m s = (Inr x, t)" for s x t
  proof (cases "(ms_id m, key) \<in> set (mp_ticks s)")
    case True
    with that show ?thesis by (simp add: missionBody_tick)
  next
    case False
    let ?s = "snd (missionDedupe (ms_id m) key s)"
    have e: "mp_claims ?s = mp_claims s" by (simp add: missionDedupe_def consumeTick_def)
    from t False have "bumpMissionProgress u se m d (resolveMissionPeriodKey zone (ms_cadence m) (ms_missionType m) now) now ?s = (Inr x, t)"
      by (simp add: missionBody_tick)
    then show ?thesis
      by (cases rule: bump_cases) (use c e ledger_of_grant(4) in \<open>auto simp: hasClaim_def\<close>)
  qed
  show ?thesis unfolding missionTx_body by (intro stable_and_then stable_caught stable_ret) (rule b)
qed

lemma claims_stable_missions: "stable (hasClaim c) (bumpMissions zone keeps u mt matches d key now)"
proof (rule stableI)
  fix s assume "hasClaim c s"
  have "stable (hasClaim c) (for_each (\<lambda>season. if \<not> isMiniPassSeasonLive season now then ret ()
                else for_each (missionTx zone keeps u d key now (se_id season)) (filter matches (se_missions season))) seasons)" for seasons
    by (intro stable_for_each) (simp add: stable_for_each claims_stable_tx)
  with \<open>hasClaim c s\<close> show "hasClaim c (snd (bumpMissions zone keeps u mt matches d key now s))"
    unfolding bumpMissions_def by (blast dest: stableD)
qed

lemma claims_stable_claim: "stable (hasClaim c) (claimMiniPassLevelReward keeps v2Ok u se l now)"
proof -
  have b: "hasClaim c t" if c: "hasClaim c s" and t: "claimLevelTx u se l now s = (Inr x, t)" for s x t
    using t
  proof (cases rule: claimTx_cases)
    case (repeat r)
    with c show ?thesis by (simp add: hasClaim_def)
  next
    case (paid season r sm s2)
    have "framed (enroll u se s\<lparr>mp_claims := mp_claims s @ [(u, lr_id r)]\<rparr>) t"
      unfolding paid(7) by (rule framed_trans [OF framed_fulfill [OF paid(6)] framed_log(2)])
    with c show ?thesis by (simp add: framed_quests hasClaim_def)
  qed
  show ?thesis
  proof (rule stableI)
    fix s assume s: "hasClaim c s"
    have "stable (hasClaim c) (caughtTransaction keeps (\<lambda>r. r = None) (claimLevelTx u se l now))"
      by (intro stable_caught) (rule b)
    from stableD [OF this s] show "hasClaim c (snd (claimMiniPassLevelReward keeps v2Ok u se l now s))"
      unfolding claimMiniPassLevelReward_def
      by (auto simp: hasClaim_def framed_quests [OF framed_afterReward] split: prod.splits sum.splits option.splits)
  qed
qed

lemma claims_stable_commit: "stable (hasClaim c) (purchaseCommit dec8_of keeps u se now p)"
proof -
  have b: "hasClaim c t" if c: "hasClaim c s" and t: "purchaseWrites dec8_of keeps u se now p s = (Inr x, t)" for s x t
    using t
  proof (cases rule: writes_cases)
    case (1 y s2)
    with c ledger_of_grant(4) [OF 1(3)] show ?thesis by (simp add: hasClaim_def addPol_def updUser_def)
  qed
  show ?thesis
  proof (rule stableI)
    fix s assume s: "hasClaim c s"
    have "stable (hasClaim c) (transaction (purchaseWrites dec8_of keeps u se now p))"
      by (intro stable_transaction) (rule b)
    from stableD [OF this s] show "hasClaim c (snd (purchaseCommit dec8_of keeps u se now p s))"
      unfolding purchaseCommit_def by (auto simp: hasClaim_def logAudit_def logCall_def split: prod.splits sum.splits)
  qed
qed

lemma claims_kept: "mp_step s t \<Longrightarrow> hasClaim c s \<Longrightarrow> hasClaim c t"
proof (induction rule: mp_step.induct)
  case (Dashboard s zone u se now)
  then show ?case
    by (auto simp: hasClaim_def getMiniPassSeasonDashboard_def throw_def ret_def Let_def split: sum.splits)
qed (auto simp: notifyMiniPassGamePlayed_def notifyMiniPassBlkReward_def notifyMiniPassLoginDay_def ret_def
    intro: stableD [OF claims_stable_missions] stableD [OF claims_stable_claim] stableD [OF claims_stable_commit])

lemma claims_path: "mp_step\<^sup>*\<^sup>* s t \<Longrightarrow> hasClaim c s \<Longrightarrow> hasClaim c t"
  by (induction rule: rtranclp_induct) (auto intro: claims_kept)

end
