(* ===== verification/DailySteps.thy ===== *)
theory DailySteps
  imports QuestOnce
begin

section \<open>The progress table of the daily tasks as a machine\<close>

text \<open>
  The transactions that write \<open>user_daily_task_progress\<close>, in any order: the bump of one task by any
  hook (with a definition read earlier), a whole claim, and the writes of a claim whose reads may be
  old.  Between them the rest of the program may change every other table: administrators edit
  definitions, users are banned, other components take fresh ids.
\<close>

inductive daily_step :: "(number \<Rightarrow> dec8) \<Rightarrow> (millis \<Rightarrow> int) \<Rightarrow> quest_store \<Rightarrow> quest_store \<Rightarrow> bool" for dec8_of zone where
  Bump: "daily_step dec8_of zone s (bumpDef dec8_of zone u key x now d s)"
| Claim: "daily_step dec8_of zone s (snd (claimDailyTaskReward zone v2Ok ck u i now s))"
| LateClaim: "daily_step dec8_of zone s (snd (transaction (claimLocked u d p now) s))"
| Elsewhere: "qs_progress t = qs_progress s \<Longrightarrow> st_next s \<le> st_next t \<Longrightarrow> daily_step dec8_of zone s t"

definition daily_init :: "quest_store \<Rightarrow> bool" where
  "daily_init s \<longleftrightarrow> qs_progress s = []"

text \<open>A call of a hook is a run of such bumps.\<close>

lemma bump_is_run: "(daily_step dec8_of zone)\<^sup>*\<^sup>* s (bumpDailyTasksForUser dec8_of zone u ty key x g off now s)"
proof -
  have "(daily_step dec8_of zone)\<^sup>*\<^sup>* s (foldl (\<lambda>s d. if P d then bumpDef dec8_of zone u key x now d s else s) s ds)" for P ds
    by (induction ds rule: rev_induct) (auto intro: rtranclp.rtrancl_into_rtrancl daily_step.Bump)
  then show ?thesis by (simp add: bumpDailyTasksForUser_def)
qed

lemma run_reaches: "(daily_step dec8_of zone)\<^sup>*\<^sup>* s t \<Longrightarrow> reaches daily_init (daily_step dec8_of zone) s
    \<Longrightarrow> reaches daily_init (daily_step dec8_of zone) t"
  by (induction rule: rtranclp_induct) (auto intro: reaches.move)

subsection \<open>What one transaction does to the rows\<close>

text \<open>
  Every transaction changes rows one by one by a function that keeps the key of the row and never
  clears a completion or a claim, and then may append a fresh unclaimed row.
\<close>

definition row_kept :: "daily_progress \<Rightarrow> daily_progress \<Rightarrow> bool" where
  "row_kept p q \<longleftrightarrow> dp_id q = dp_id p \<and> dp_userId q = dp_userId p \<and> dp_defId q = dp_defId p \<and> dp_periodKey q = dp_periodKey p
     \<and> (dp_completedAt p \<noteq> None \<longrightarrow> dp_completedAt q \<noteq> None) \<and> (dp_claimedAt p \<noteq> None \<longrightarrow> dp_claimedAt q \<noteq> None)"

definition rows_kept :: "quest_store \<Rightarrow> quest_store \<Rightarrow> bool" where
  "rows_kept s t \<longleftrightarrow> st_next s \<le> st_next t \<and> (\<exists>qs new. qs_progress t = qs @ new \<and> list_all2 row_kept (qs_progress s) qs
     \<and> (new = [] \<or> (\<exists>r. new = [r] \<and> dp_id r = st_next s \<and> st_next s < st_next t)))"

lemma rows_keptI:
  assumes "qs_progress t = qs @ new" and "list_all2 row_kept (qs_progress s) qs" and "st_next s \<le> st_next t"
    and "\<And>r. r \<in> set new \<Longrightarrow> new = [r] \<and> dp_id r = st_next s \<and> st_next s < st_next t"
  shows "rows_kept s t"
proof -
  have "new = [] \<or> (\<exists>r. new = [r] \<and> dp_id r = st_next s \<and> st_next s < st_next t)"
    using assms(4) by (cases new) auto
  with assms(1-3) show ?thesis unfolding rows_kept_def by blast
qed

lemma rows_keptE:
  assumes "rows_kept s t"
  obtains qs new where "qs_progress t = qs @ new" "list_all2 row_kept (qs_progress s) qs" "st_next s \<le> st_next t"
    "\<And>r. r \<in> set new \<Longrightarrow> new = [r] \<and> dp_id r = st_next s \<and> st_next s < st_next t"
proof -
  from assms obtain qs new where "qs_progress t = qs @ new" "list_all2 row_kept (qs_progress s) qs" "st_next s \<le> st_next t"
    and n: "new = [] \<or> (\<exists>r. new = [r] \<and> dp_id r = st_next s \<and> st_next s < st_next t)" unfolding rows_kept_def by blast
  moreover from n have "new = [r] \<and> dp_id r = st_next s \<and> st_next s < st_next t" if "r \<in> set new" for r using that by auto
  ultimately show thesis using that by blast
qed

lemma row_kept_refl [simp]: "row_kept p p"
  by (simp add: row_kept_def)

lemma list_all2_refl: "list_all2 row_kept ps ps"
  by (induction ps) auto

lemma list_all2_update:
  assumes "\<And>p. P p \<Longrightarrow> row_kept p (f p)"
  shows "list_all2 row_kept ps (update_where P f ps)"
  using assms by (induction ps) (auto simp: update_where_def)

lemma rows_kept_same: "qs_progress t = qs_progress s \<Longrightarrow> st_next s \<le> st_next t \<Longrightarrow> rows_kept s t"
  by (rule rows_keptI [where new = "[]"]) (auto intro: list_all2_refl)

lemma rows_kept_update:
  assumes "qs_progress t = update_where P f (qs_progress s)" and "st_next s \<le> st_next t" and "\<And>p. P p \<Longrightarrow> row_kept p (f p)"
  shows "rows_kept s t"
  by (rule rows_keptI [where new = "[]"]) (auto simp: assms(1,2) intro: list_all2_update assms(3))

lemma upsert_kept: "rows_kept s (upsertProgress u i k x s)"
proof (cases "find_first (isProgress u i k) (qs_progress s)")
  case None
  then show ?thesis by (intro rows_keptI [OF _ list_all2_refl]) (auto simp: upsertProgress_def)
next
  case (Some p)
  then show ?thesis
    by (intro rows_kept_update [where P = "isProgress u i k" and f = "\<lambda>p. p\<lparr>dp_currentValue := dp_currentValue p + x\<rparr>"])
      (auto simp: upsertProgress_def row_kept_def)
qed

lemma rows_kept_later:
  assumes "rows_kept s t" and "qs_progress r = qs_progress t" and "st_next t \<le> st_next r"
  shows "rows_kept s r"
  using assms(1)
proof (rule rows_keptE)
  fix qs new
  assume t: "qs_progress t = qs @ new" "list_all2 row_kept (qs_progress s) qs" "st_next s \<le> st_next t"
    "\<And>r. r \<in> set new \<Longrightarrow> new = [r] \<and> dp_id r = st_next s \<and> st_next s < st_next t"
  show ?thesis
  proof (rule rows_keptI [of r qs new])
    show "new = [x] \<and> dp_id x = st_next s \<and> st_next s < st_next r" if "x \<in> set new" for x
      using t(4) [OF that] assms(3) by auto
  qed (use t assms(2,3) in auto)
qed

text \<open>The completion that may follow the upsert.\<close>

lemma row_kept_trans: "row_kept p q \<Longrightarrow> row_kept q r \<Longrightarrow> row_kept p r"
  by (auto simp: row_kept_def)

lemma rows_kept_complete:
  assumes "rows_kept s t" and "qs_progress r = update_where P f (qs_progress t)" and "st_next r = st_next t"
    and "\<And>p. row_kept p (f p)"
  shows "rows_kept s r"
proof -
  obtain qs new where t: "qs_progress t = qs @ new" "list_all2 row_kept (qs_progress s) qs" "st_next s \<le> st_next t"
    "\<And>r. r \<in> set new \<Longrightarrow> new = [r] \<and> dp_id r = st_next s \<and> st_next s < st_next t" using rows_keptE [OF assms(1)] by blast
  have "list_all2 row_kept qs (update_where P f qs)" by (rule list_all2_update) (rule assms(4))
  then have "list_all2 row_kept (qs_progress s) (update_where P f qs)"
    using list_all2_trans [of row_kept row_kept row_kept] row_kept_trans t(2) by blast
  moreover have id: "dp_id (f q) = dp_id q" for q using assms(4) [of q] by (simp add: row_kept_def)
  ultimately show ?thesis
  proof (intro rows_keptI [of r "update_where P f qs" "update_where P f new"])
    show "update_where P f new = [x] \<and> dp_id x = st_next s \<and> st_next s < st_next r" if "x \<in> set (update_where P f new)" for x
    proof -
      from that obtain y where y: "y \<in> set new" "x = (if P y then f y else y)" by (auto simp: update_where_def)
      with t(4) [OF y(1)] show ?thesis using id assms(3) by (auto simp: update_where_def)
    qed
  qed (use t assms(2,3) in \<open>auto simp: update_where_def\<close>)
qed

lemma bumpOne_kept: "rows_kept s (bumpOneTask u d k x now s)"
proof -
  note up = upsert_kept [of s u "dd_id d" k x]
  show ?thesis
    unfolding bumpOneTask_def Let_def
    by (auto simp: up rows_kept_same row_kept_def split: option.splits intro!: rows_kept_complete [OF up])
qed

lemma bumpDef_kept: "rows_kept s (bumpDef dec8_of zone u key x now d s)"
proof -
  obtain ok ticks where c: "consumeTick (dd_id d) key (qs_ticks s) = (ok, ticks)" by force
  have "rows_kept s (bumpOneTask u d k y now (s\<lparr>qs_ticks := ticks\<rparr>))" for k y
    using bumpOne_kept [of "s\<lparr>qs_ticks := ticks\<rparr>" u d k y now] by (simp add: rows_kept_def)
  then show ?thesis by (auto simp: bumpDef_def with_tick_def tryConsumeDedupe_def c rows_kept_same)
qed

lemma claimLocked_kept:
  assumes "claimLocked u d p now s = (Inr sm, t)"
  shows "rows_kept s t"
proof -
  let ?P = "\<lambda>r. dp_id r = dp_id p \<and> dp_claimedAt r = None \<and> dp_completedAt r \<noteq> None"
  let ?s = "s\<lparr>qs_progress := update_where ?P (\<lambda>r. r\<lparr>dp_claimedAt := Some now\<rparr>) (qs_progress s)\<rparr>"
  obtain y s2 where f: "fulfillMiniPassLevelReward u (dd_reward d) now ?s = (y, s2)"
    by (cases "fulfillMiniPassLevelReward u (dd_reward d) now ?s")
  with assms have y: "y = Inr sm" and "\<exists>a. t = logAudit a s2"
    by (auto simp: claimLocked_def Let_def split: if_splits sum.splits)
  then have "framed ?s t" using framed_trans [OF framed_fulfill framed_log(2)] f by blast
  from framed_quests(2) [OF this] framed_next [OF this] show ?thesis
    by (intro rows_kept_update [where P = ?P and f = "\<lambda>r. r\<lparr>dp_claimedAt := Some now\<rparr>"]) (auto simp: row_kept_def)
qed

lemma late_kept: "rows_kept s (snd (transaction (claimLocked u d p now) s))"
  by (auto simp: transaction_def rows_kept_same intro: claimLocked_kept split: prod.splits sum.splits)

lemma claim_kept: "rows_kept s (snd (claimDailyTaskReward zone v2Ok ck u i now s))"
proof (cases "claimRead zone ck u i now s")
  case (Inl e)
  then show ?thesis by (simp add: claimDailyTaskReward_def transaction_def rows_kept_same)
next
  case (Inr dp)
  obtain d p where dp: "dp = (d, p)" by force
  obtain y t where c: "claimLocked u d p now s = (y, t)" by force
  show ?thesis
  proof (cases y)
    case (Inl e)
    with Inr dp c show ?thesis by (simp add: claimDailyTaskReward_def transaction_def rows_kept_same)
  next
    case (Inr sm)
    then have r: "snd (claimDailyTaskReward zone v2Ok ck u i now s) = afterReward now v2Ok u sm t"
      using \<open>claimRead zone ck u i now s = Inr dp\<close> dp c by (simp add: claimDailyTaskReward_def transaction_def)
    have "rows_kept s t" using claimLocked_kept c Inr by simp
    then show ?thesis unfolding r
      by (rule rows_kept_later) (rule framed_quests(2) [OF framed_afterReward], rule framed_next [OF framed_afterReward])
  qed
qed

lemma daily_step_kept: "daily_step dec8_of zone s t \<Longrightarrow> rows_kept s t"
  by (induction rule: daily_step.induct) (simp_all add: bumpDef_kept claim_kept late_kept rows_kept_same)

subsection \<open>The table stays well-formed, and a claimed row stays claimed\<close>

definition progress_ok :: "quest_store \<Rightarrow> bool" where
  "progress_ok s \<longleftrightarrow> unique_key dp_id (qs_progress s) \<and> (\<forall>p \<in> set (qs_progress s). dp_id p < st_next s)"

lemma list_all2_ids: "list_all2 row_kept ps qs \<Longrightarrow> map dp_id qs = map dp_id ps"
  by (induction rule: list_all2_induct) (auto simp: row_kept_def)

lemma progress_kept:
  assumes "rows_kept s t" and "progress_ok s"
  shows "progress_ok t"
proof -
  obtain qs new where t: "qs_progress t = qs @ new" "list_all2 row_kept (qs_progress s) qs" "st_next s \<le> st_next t"
    "\<And>r. r \<in> set new \<Longrightarrow> new = [r] \<and> dp_id r = st_next s \<and> st_next s < st_next t" using rows_keptE [OF assms(1)] by blast
  have e: "unique_key dp_id qs = unique_key dp_id (qs_progress s)" "dp_id ` set qs = dp_id ` set (qs_progress s)"
    using list_all2_ids [OF t(2)] by (simp_all add: unique_key_def flip: set_map)
  have "i < st_next s" if "i \<in> dp_id ` set qs" for i using that assms(2) unfolding e progress_ok_def by auto
  then have old: "i < st_next t" "i \<noteq> st_next s" if "i \<in> dp_id ` set qs" for i using that t(3) by fastforce+
  show ?thesis
  proof (cases new)
    case Nil
    with old e(1) assms(2) show ?thesis by (auto simp: progress_ok_def t(1))
  next
    case (Cons r rs)
    with t(4) [of r] have "new = [r]" "dp_id r = st_next s" "st_next s < st_next t" by auto
    with old e(1) assms(2) show ?thesis unfolding progress_ok_def t(1) by auto
  qed
qed

interpretation daily: machine daily_init "daily_step dec8_of zone" progress_ok for dec8_of zone
proof unfold_locales
  show "progress_ok s" if "daily_init s" for s using that by (simp add: daily_init_def progress_ok_def)
  show "progress_ok t" if "progress_ok s" "daily_step dec8_of zone s t" for s t
    using progress_kept [OF daily_step_kept [OF that(2)] that(1)] .
qed

text \<open>The row with id \<open>n\<close> is the one of user \<open>u\<close>, task \<open>i\<close> and period \<open>k\<close>; it is completed and claimed.\<close>

definition claimedRow :: "int \<Rightarrow> int \<Rightarrow> string \<Rightarrow> int \<Rightarrow> quest_store \<Rightarrow> bool" where
  "claimedRow u i k n s \<longleftrightarrow> n < st_next s \<and> (\<forall>q \<in> set (qs_progress s). dp_id q = n \<longrightarrow> dp_claimedAt q \<noteq> None)
     \<and> (\<exists>p. find_first (isProgress u i k) (qs_progress s) = Some p \<and> dp_completedAt p \<noteq> None \<and> dp_claimedAt p \<noteq> None)"

lemma find_kept:
  assumes "list_all2 row_kept ps qs" and "find_first (isProgress u i k) ps = Some p"
  shows "\<exists>q. find_first (isProgress u i k) qs = Some q \<and> row_kept p q"
  using assms by (induction rule: list_all2_induct) (auto simp: isProgress_def row_kept_def split: if_splits)

lemma claimed_kept:
  assumes "rows_kept s t" and "claimedRow u i k n s"
  shows "claimedRow u i k n t"
proof -
  obtain qs new where t: "qs_progress t = qs @ new" "list_all2 row_kept (qs_progress s) qs" "st_next s \<le> st_next t"
    "\<And>r. r \<in> set new \<Longrightarrow> new = [r] \<and> dp_id r = st_next s \<and> st_next s < st_next t" using rows_keptE [OF assms(1)] by blast
  from assms(2) obtain p where p: "find_first (isProgress u i k) (qs_progress s) = Some p"
    "dp_completedAt p \<noteq> None" "dp_claimedAt p \<noteq> None" and n: "n < st_next s"
    and all: "\<And>q. q \<in> set (qs_progress s) \<Longrightarrow> dp_id q = n \<Longrightarrow> dp_claimedAt q \<noteq> None" unfolding claimedRow_def by blast
  from find_kept [OF t(2) p(1)] p(2,3) obtain q where "find_first (isProgress u i k) qs = Some q"
    "dp_completedAt q \<noteq> None" "dp_claimedAt q \<noteq> None" by (auto simp: row_kept_def)
  moreover have "dp_claimedAt q \<noteq> None" if "q \<in> set qs" "dp_id q = n" for q
  proof -
    from t(2) that(1) obtain p where "p \<in> set (qs_progress s)" "row_kept p q"
      by (auto simp: list_all2_conv_all_nth in_set_conv_nth) (metis nth_mem)
    with all that(2) show ?thesis by (auto simp: row_kept_def)
  qed
  ultimately show ?thesis using t(1,3,4) n unfolding claimedRow_def by (auto simp: find_first_append)
qed

interpretation claimed: machine "claimedRow u i k n" "daily_step dec8_of zone" "claimedRow u i k n" for u i k n dec8_of zone
  by unfold_locales (auto intro: claimed_kept daily_step_kept)

lemma claimedRow_refuses:
  assumes "claimedRow u i (getDailyTaskPeriodKey zone now) n s"
  shows "\<exists>e. e \<in> {Forbidden, TaskNotFound, AlreadyClaimed} \<and> claimDailyTaskReward zone v2Ok ck u i now s = (Inl e, s)"
    and "dp_id p = n \<Longrightarrow> claimLocked v d p now' s = (Inl AlreadyClaimed, s)"
proof -
  have "\<exists>e. e \<in> {Forbidden, TaskNotFound, AlreadyClaimed} \<and> claimRead zone ck u i now s = Inl e"
    using assms unfolding claimedRow_def by (auto simp: claimRead_def split: option.splits)
  then show "\<exists>e. e \<in> {Forbidden, TaskNotFound, AlreadyClaimed} \<and> claimDailyTaskReward zone v2Ok ck u i now s = (Inl e, s)"
    by (auto simp: claimDailyTaskReward_def transaction_def)
  assume "dp_id p = n"
  then have "count_where (\<lambda>r. dp_id r = dp_id p \<and> dp_claimedAt r = None \<and> dp_completedAt r \<noteq> None) (qs_progress s) = 0"
    using assms unfolding claimedRow_def count_where_0_iff by blast
  then show "claimLocked v d p now' s = (Inl AlreadyClaimed, s)" by (simp add: claimLocked_def Let_def)
qed

end
