(* ===== verification/QuestClaims.thy ===== *)
theory QuestClaims
  imports PassClaims DailySteps
begin

section \<open>Properties of missions, claims and periods\<close>

text \<open>The example of the mini pass with one daily task: log in once, worth half a coin.\<close>

definition daily_login :: daily_def where
  "daily_login = \<lparr>dd_id = 5, dd_slug = ''login'', dd_taskType = ''LOGIN_DAY'', dd_targetValue = 100000000, dd_reward = pass_reward,
     dd_gameSlug = None, dd_offerId = None, dd_sortOrder = 0, dd_isActive = True, dd_validFrom = None, dd_validUntil = None\<rparr>"

definition daily_demo :: quest_store where
  "daily_demo = pass_demo\<lparr>qs_defs := [daily_login]\<rparr>"

definition utc_zone :: "millis \<Rightarrow> int" where
  "utc_zone t = t div 86400000"

subsection \<open>Missions\<close>

text \<open>
  C18: the key of a mission's grant names the mission and the period but not the user, and it is unique
  in the whole ledger: once one user has been paid for a mission in a period, no bump of that mission
  in that period by any user pays anyone.
\<close>

lemma mission_pays_one_user:
  assumes ok: "mp_ok s"
    and paid: "missionKey (ms_id m) (resolveMissionPeriodKey zone (ms_cadence m) (ms_missionType m) now) \<in> xp_idempotencyKey ` set (mp_ledger s)"
  shows "mp_ledger (snd (missionTx zone keeps u d key now se m s)) = mp_ledger s
    \<and> totalXpOf v se' (snd (missionTx zone keeps u d key now se m s)) = totalXpOf v se' s"
proof -
  have b: "mp_ledger t = mp_ledger s" if t: "missionBody zone u d key now se m s = (x, t)" for x t
  proof (cases "(ms_id m, key) \<in> set (mp_ticks s)")
    case True
    with t show ?thesis by (simp add: missionBody_tick)
  next
    case False
    let ?s = "snd (missionDedupe (ms_id m) key s)"
    have e: "mp_ledger ?s = mp_ledger s" by (simp add: missionDedupe_def consumeTick_def)
    from t False have "bumpMissionProgress u se m d (resolveMissionPeriodKey zone (ms_cadence m) (ms_missionType m) now) now ?s = (x, t)"
      by (simp add: missionBody_tick)
    then show ?thesis
    proof (cases rule: bump_cases)
      case quiet
      with e show ?thesis by simp
    next
      case (grant s2)
      from grant(8) show ?thesis
        by (cases rule: grant_cases) (use grant(2) e paid in \<open>auto simp: missionXpRow_def\<close>)
    qed
  qed
  have l: "mp_ledger (snd (missionTx zone keeps u d key now se m s)) = mp_ledger s"
    using b unfolding missionTx_body
    by (auto simp: and_then_def caughtTransaction_def transaction_def ret_def split: prod.splits sum.splits)
  moreover have "mp_ok (snd (missionTx zone keeps u d key now se m s))" using stable_missionTx ok by (rule stableD)
  ultimately show ?thesis by (simp add: totalXpOf_ledger ok)
qed

text \<open>User 1 completes the mission and gets 60 points; user 2 completes it by another signal and gets none.\<close>

lemma mission_pays_one_user_witness:
  "\<exists>s. totalXpOf 1 7 s = 60 \<and> totalXpOf 2 7 (snd (missionTx utc_zone False 2 100000000 ''b'' 5000 7 pass_mission s)) = 0"
proof -
  let ?s = "snd (missionTx utc_zone False 1 100000000 ''a'' 5000 7 pass_mission pass_demo)"
  have ok: "mp_ok ?s" using stable_missionTx pass_demo_ok(2) by (rule stableD)
  have "missionKey (ms_id pass_mission) (resolveMissionPeriodKey utc_zone (ms_cadence pass_mission) (ms_missionType pass_mission) 5000)
      \<in> xp_idempotencyKey ` set (mp_ledger ?s)" by code_simp
  from mission_pays_one_user [OF ok this, of False 2 100000000 "''b''" 7 2 7]
  have "totalXpOf 2 7 (snd (missionTx utc_zone False 2 100000000 ''b'' 5000 7 pass_mission ?s)) = totalXpOf 2 7 ?s" by blast
  moreover have "totalXpOf 2 7 ?s = 0" "totalXpOf 1 7 ?s = 60" by code_simp+
  ultimately show ?thesis by metis
qed

subsection \<open>Claims\<close>

text \<open>
  C19: a level reward is delivered at most once: after a claim delivered it, whatever operations of the
  mini pass run, another claim of the same user and reward delivers nothing: it answers an error or a
  repetition, and balances and machines stay as they are.
\<close>

lemma level_reward_once:
  assumes first: "claimMiniPassLevelReward keeps v2Ok u se l now s = (Inr (Some sm), t)" and later: "mp_step\<^sup>*\<^sup>* t r"
    and again: "claimMiniPassLevelReward keeps' v2Ok' u se l now' r = (x, r')"
  shows "(u, l) \<notin> set (mp_claims s) \<and> (x = Inr None \<or> isl x) \<and> st_users r' = st_users r \<and> st_inventory r' = st_inventory r
    \<and> st_gamePowers r' = st_gamePowers r"
proof -
  from first obtain s1 where c: "claimLevelTx u se l now s = (Inr (Some sm), s1)" and t: "t = afterReward now v2Ok u sm s1"
    by (auto simp: claimMiniPassLevelReward_def caughtTransaction_def transaction_def split: prod.splits sum.splits option.splits)
  from c have "(u, l) \<notin> set (mp_claims s) \<and> hasClaim (u, l) s1"
  proof (cases rule: claimTx_cases)
    case (paid season rw sm2 s2)
    have "lr_id rw = l" using find_first_Some_conj [OF paid(2)] by simp
    moreover have "framed (enroll u se s\<lparr>mp_claims := mp_claims s @ [(u, lr_id rw)]\<rparr>) s1"
      unfolding paid(7) by (rule framed_trans [OF framed_fulfill [OF paid(6)] framed_log(2)])
    ultimately show ?thesis using paid(3) by (simp add: hasClaim_def framed_quests)
  qed simp
  then have "hasClaim (u, l) t" unfolding t by (simp add: hasClaim_def framed_quests [OF framed_afterReward])
  with later have h: "hasClaim (u, l) r" by (rule claims_path)
  have tx: "y = None \<and> q = enroll u se r" if "claimLevelTx u se l now' r = (Inr y, q)" for y q
    using that
  proof (cases rule: claimTx_cases)
    case (paid season rw sm2 s2)
    then show ?thesis using find_first_Some_conj [OF paid(2)] h by (simp add: hasClaim_def)
  qed simp
  have en: "st_users (enroll u se r) = st_users r" "st_inventory (enroll u se r) = st_inventory r" "st_gamePowers (enroll u se r) = st_gamePowers r"
    by (simp_all add: enroll_def split: option.splits)
  show ?thesis
    using again tx en \<open>(u, l) \<notin> set (mp_claims s) \<and> hasClaim (u, l) s1\<close>
    by (auto simp: claimMiniPassLevelReward_def caughtTransaction_def transaction_def
        split: prod.splits sum.splits option.splits if_splits dest!: tx)
qed

definition pass_full :: quest_store where
  "pass_full = snd (purchaseMiniPassLevels round8_away False 1 7 (Some 1) 5000 pass_demo)"

lemma level_reward_once_witness:
  "\<exists>sm t r'. claimMiniPassLevelReward False True 1 7 9 5000 pass_full = (Inr (Some sm), t)
    \<and> claimMiniPassLevelReward False True 1 7 9 6000 t = (Inr None, r') \<and> st_users r' = st_users t"
proof -
  let ?r = "claimMiniPassLevelReward False True 1 7 9 5000 pass_full"
  have 1: "?r = (Inr (Some (SumPol 50000000)), snd ?r)" by code_simp
  obtain x r' where 2: "claimMiniPassLevelReward False True 1 7 9 6000 (snd ?r) = (x, r')" by (cases "claimMiniPassLevelReward False True 1 7 9 6000 (snd ?r)")
  have "fst (claimMiniPassLevelReward False True 1 7 9 6000 (snd ?r)) = Inr None" by code_simp
  then have x: "x = Inr None" by (simp add: 2)
  from level_reward_once [OF 1 rtranclp.rtrancl_refl 2] have "st_users r' = st_users (snd ?r)" by blast
  with 1 2 x show ?thesis by metis
qed

text \<open>
  C20: a daily reward is delivered at most once in a period.  In any state the program reaches, after a
  claim delivered the reward, let anything happen: more bumps of any task by any hook, other claims,
  the late writes of claims that read before, and changes of every other table.  Then another claim of
  the same user and task in the same period is refused and changes nothing, and so is any claim that
  read the row before the first one committed and writes only now.
\<close>

lemma daily_reward_once:
  assumes reached: "reaches daily_init (daily_step dec8_of zone) s"
    and first: "claimDailyTaskReward zone v2Ok ck u i now s = (Inr sm, t)"
    and later: "(daily_step dec8_of zone)\<^sup>*\<^sup>* t r"
    and period: "getDailyTaskPeriodKey zone now' = getDailyTaskPeriodKey zone now"
  shows "(\<exists>e. e \<in> {Forbidden, TaskNotFound, AlreadyClaimed} \<and> claimDailyTaskReward zone v2Ok' ck' u i now' r = (Inl e, r))
    \<and> (\<exists>d p. claimRead zone ck u i now s = Inr (d, p)
          \<and> (\<forall>d' p'. dp_id p' = dp_id p \<longrightarrow> claimLocked u d' p' now' r = (Inl AlreadyClaimed, r)))"
  using first
proof (cases rule: claimDaily_cases)
  case (1 d p s1 s2)
  note R = claimRead_Inr [OF 1(1)]
  have ok: "progress_ok s" using daily.reaches_inv [OF reached] .
  have fr: "framed s1 t" by (rule framed_trans [OF framed_fulfill [OF 1(3)] 1(4)])
  have rows: "qs_progress t = update_where (\<lambda>r. dp_id r = dp_id p \<and> dp_claimedAt r = None \<and> dp_completedAt r \<noteq> None)
        (\<lambda>r. r\<lparr>dp_claimedAt := Some now\<rparr>) (qs_progress s)"
    unfolding framed_quests(2) [OF fr] 1(2) by simp
  have p: "p \<in> set (qs_progress s)" using find_first_SomeD(1) [OF R(4)] .
  have "claimedRow u i (getDailyTaskPeriodKey zone now) (dp_id p) t"
    unfolding claimedRow_def
  proof (intro conjI ballI impI)
    show "dp_id p < st_next t" using ok p framed_next [OF fr] 1(2) by (fastforce simp: progress_ok_def)
    have same: "q = p" if "q \<in> set (qs_progress s)" "dp_id q = dp_id p" for q
      using ok that p by (auto simp: progress_ok_def dest: unique_key_eqD)
    show "dp_claimedAt q \<noteq> None" if "q \<in> set (qs_progress t)" "dp_id q = dp_id p" for q
    proof -
      from that(1) obtain x where x: "x \<in> set (qs_progress s)"
        "q = (if dp_id x = dp_id p \<and> dp_claimedAt x = None \<and> dp_completedAt x \<noteq> None then x\<lparr>dp_claimedAt := Some now\<rparr> else x)"
        by (auto simp: rows update_where_def)
      then have "x = p" using that(2) by (intro same) (auto split: if_splits)
      with x(2) R(5,6) show ?thesis by simp
    qed
    show "\<exists>q. find_first (isProgress u i (getDailyTaskPeriodKey zone now)) (qs_progress t) = Some q
        \<and> dp_completedAt q \<noteq> None \<and> dp_claimedAt q \<noteq> None"
      unfolding rows using claimed_row [OF R(4,5,6)] R(5) by auto
  qed
  then have "claimedRow u i (getDailyTaskPeriodKey zone now') (dp_id p) r"
    unfolding period using claimed.path_inv [OF later] by blast
  from claimedRow_refuses [OF this] 1(1) show ?thesis by blast
qed

definition daily_done :: quest_store where
  "daily_done = notifyDailyTaskLoginDay round8_away utc_zone 1 ''1970-01-01'' 5000 daily_demo"

text \<open>After the claim another login is counted, on a tick of its own; the second claim is refused.\<close>

lemma daily_reward_once_witness:
  "\<exists>sm t r. claimDailyTaskReward utc_zone True True 1 5 6000 daily_done = (Inr sm, t)
    \<and> r = bumpDailyTasksForUser round8_away utc_zone 1 ''LOGIN_DAY'' ''again'' 1 None None 6500 t
    \<and> map dp_currentValue (qs_progress r) = [200000000]
    \<and> (\<exists>e. claimDailyTaskReward utc_zone True True 1 5 7000 r = (Inl e, r))"
proof -
  let ?r = "claimDailyTaskReward utc_zone True True 1 5 6000 daily_done"
  let ?t = "bumpDailyTasksForUser round8_away utc_zone 1 ''LOGIN_DAY'' ''again'' 1 None None 6500 (snd ?r)"
  have 1: "?r = (Inr (SumPol 50000000), snd ?r)" by code_simp
  have "reaches daily_init (daily_step round8_away utc_zone) daily_demo"
    by (rule reaches.start) (simp add: daily_init_def daily_demo_def pass_demo_def)
  moreover have "daily_done = bumpDailyTasksForUser round8_away utc_zone 1 ''LOGIN_DAY'' (''login-'' @ ''1970-01-01'') 1 None None 5000 daily_demo"
    by (simp only: daily_done_def notifyDailyTaskLoginDay_def) simp
  ultimately have 2: "reaches daily_init (daily_step round8_away utc_zone) daily_done"
    using run_reaches [OF bump_is_run] by metis
  have 3: "getDailyTaskPeriodKey utc_zone 7000 = getDailyTaskPeriodKey utc_zone 6000" by code_simp
  have rows: "map (\<lambda>p. (dp_userId p, dp_defId p, dp_periodKey p, dp_currentValue p, dp_claimedAt p)) (qs_progress (snd ?r))
      = [(1, 5, ''1970-01-01'', 100000000, Some 6000)]" by code_simp
  have ticks: "qs_ticks (snd ?r) = [(5, ''login-1970-01-01'')]" by code_simp
  have defs: "qs_defs (snd ?r) = [daily_login]" by code_simp
  have key: "getDailyTaskPeriodKey utc_zone 6500 = ''1970-01-01''" by code_simp
  have one: "round8_away 1 = 100000000" "\<not> toNumber 100000000 \<le> 0" by code_simp+
  obtain p where p: "qs_progress (snd ?r) = [p]" "dp_userId p = 1" "dp_defId p = 5" "dp_periodKey p = ''1970-01-01''"
    "dp_currentValue p = 100000000" "dp_claimedAt p = Some 6000"
    using rows by (auto simp: map_eq_Cons_conv)
  have "?t = bumpDef round8_away utc_zone 1 ''again'' 1 6500 daily_login (snd ?r)"
    by (simp add: bumpDailyTasksForUser_def activeDefinitions_def defs) (simp add: daily_login_def validAt_def defMatches_def)
  then have "map dp_currentValue (qs_progress ?t) = [200000000]"
    using p by (simp add: bumpDef_def with_tick_def tryConsumeDedupe_def consumeTick_def ticks key one bumpOneTask_def
        upsertProgress_def isProgress_def update_where_def Let_def daily_login_def)
  note current = this
  have later: "(daily_step round8_away utc_zone)\<^sup>*\<^sup>* (snd ?r) ?t" by (rule bump_is_run)
  have "\<exists>e. claimDailyTaskReward utc_zone True True 1 5 7000 ?t = (Inl e, ?t)"
    using daily_reward_once [OF 2 1 later 3, where v2Ok' = True and ck' = True, THEN conjunct1] by (elim exE conjE) (rule exI)
  with 1 current show ?thesis
    by - (rule exI [of _ "SumPol 50000000"], rule exI [of _ "snd ?r"], rule exI [of _ ?t], intro conjI refl)
qed

text \<open>
  The tick of a daily task names the task and the day of the login but not the user: after one
  user's login of a day has been counted, the login of any other user on that day changes nothing.
\<close>

lemma second_login_ignored:
  assumes "set (activeDefinitions ''LOGIN_DAY'' now' s) \<subseteq> set (activeDefinitions ''LOGIN_DAY'' now s)" and "u \<noteq> 0" and "day \<noteq> ''''"
  shows "notifyDailyTaskLoginDay dec8_of zone v day now' (notifyDailyTaskLoginDay dec8_of zone u day now s)
    = notifyDailyTaskLoginDay dec8_of zone u day now s"
  using bump_twice [OF assms(1,2), of 1 "''login-'' @ day" dec8_of zone v None None] assms(2,3)
  by (simp add: notifyDailyTaskLoginDay_def)

lemma second_login_ignored_witness:
  "notifyDailyTaskLoginDay round8_away utc_zone 2 ''1970-01-01'' 6000 daily_done = daily_done"
proof -
  have "activeDefinitions ''LOGIN_DAY'' 6000 daily_demo = activeDefinitions ''LOGIN_DAY'' 5000 daily_demo" by code_simp
  with second_login_ignored [of 6000 daily_demo 5000 1 "''1970-01-01''" round8_away utc_zone 2] show ?thesis
    by (simp add: daily_done_def)
qed

subsection \<open>Periods\<close>

text \<open>
  C21: two instants have the same weekly key exactly when they lie in the same week from Monday to
  Sunday, also across a change of year.
\<close>

lemma week_key_equivalence:
  assumes "0 \<le> t" and "0 \<le> t'"
  shows "utcIsoWeekKey t = utcIsoWeekKey t' \<longleftrightarrow> (t div 86400000 + 3) div 7 = (t' div 86400000 + 3) div 7"
proof -
  have d: "0 \<le> dayOf t" "0 \<le> dayOf t'" using assms by (simp_all add: dayOf_def MS_PER_DAY_def pos_imp_zdiv_nonneg_iff)
  obtain y w y' w' where i: "isoWeek (dayOf t) = (y, w)" "isoWeek (dayOf t') = (y', w')" by fastforce
  with isoWeek_nonneg [OF d(1)] isoWeek_nonneg [OF d(2)] have n: "0 \<le> y" "0 \<le> w" "0 \<le> y'" "0 \<le> w'" by simp_all
  have "utcIsoWeekKey t = utcIsoWeekKey t' \<longleftrightarrow> show_int y @ CHR ''-'' # CHR ''W'' # pad2 w = show_int y' @ CHR ''-'' # CHR ''W'' # pad2 w'"
    by (simp add: utcIsoWeekKey_def i)
  also have "\<dots> \<longleftrightarrow> y = y' \<and> w = w'"
  proof
    assume "show_int y @ CHR ''-'' # CHR ''W'' # pad2 w = show_int y' @ CHR ''-'' # CHR ''W'' # pad2 w'"
    then have "show_int y = show_int y' \<and> CHR ''W'' # pad2 w = CHR ''W'' # pad2 w'"
      by (rule split_at_dash) (auto intro: show_int_digits(2) n)
    then show "y = y' \<and> w = w'" using show_int_digits(1) pad2_digits(1) n by (metis list.inject)
  qed simp
  also have "\<dots> \<longleftrightarrow> weekOf (dayOf t) = weekOf (dayOf t')" using isoWeek_iff [of "dayOf t" "dayOf t'"] i by simp
  finally show ?thesis by (simp add: weekOf_def dayOf_def MS_PER_DAY_def)
qed

text \<open>Thursday 31 December 2026 and Friday 1 January 2027.\<close>

lemma week_key_equivalence_witness: "utcIsoWeekKey 1798675200000 = utcIsoWeekKey 1798761600000"
  using week_key_equivalence [of 1798675200000 1798761600000] by simp

text \<open>
  The countdown's bisection ends with the next change of the day, to within two milliseconds:
  when the day shown 50 hours later is another one, the answer lies after now and shows another day,
  and an instant at most two milliseconds earlier, not before now, still shows today.
\<close>

lemma reset_search:
  "lo < hi \<Longrightarrow> key lo = today \<Longrightarrow> key hi \<noteq> today \<Longrightarrow>
    (\<exists>l. lo \<le> l \<and> l < resetSearch key today lo hi \<and> resetSearch key today lo hi \<le> l + 2 \<and> key l = today)
    \<and> resetSearch key today lo hi \<le> hi \<and> key (resetSearch key today lo hi) \<noteq> today"
proof (induction key today lo hi rule: resetSearch.induct)
  case (1 key today lo hi)
  define mid where "mid = (lo + hi) div 2"
  show ?case
  proof (cases "2 < hi - lo")
    case False
    with 1 show ?thesis by (auto simp: resetSearch.simps [of key today lo hi])
  next
    case True
    then have m: "lo < mid" "mid < hi" unfolding mid_def by linarith+
    show ?thesis
    proof (cases "key mid = today")
      case k: True
      have e: "resetSearch key today lo hi = resetSearch key today mid hi" using True k by (simp add: resetSearch.simps [of key today lo hi] Let_def mid_def)
      from "1.IH"(1) [OF True mid_def k m(2) k "1.prems"(3)] obtain l where
        "mid \<le> l \<and> l < resetSearch key today mid hi \<and> resetSearch key today mid hi \<le> l + 2 \<and> key l = today"
        "resetSearch key today mid hi \<le> hi" "key (resetSearch key today mid hi) \<noteq> today" by blast
      with m show ?thesis unfolding e by (intro conjI exI [of _ l]) auto
    next
      case k: False
      have e: "resetSearch key today lo hi = resetSearch key today lo mid" using True k by (simp add: resetSearch.simps [of key today lo hi] Let_def mid_def)
      from "1.IH"(2) [OF True mid_def k m(1) "1.prems"(2) k] m show ?thesis unfolding e by auto
    qed
  qed
qed

lemma next_reset_is_the_day_change:
  assumes "getBrazilCheckinDateKey zone (now + 180000000) \<noteq> getBrazilCheckinDateKey zone now"
  shows "now < getNextDailyTaskResetAt zone now \<and> getNextDailyTaskResetAt zone now \<le> now + 180000000
    \<and> getDailyTaskPeriodKey zone (getNextDailyTaskResetAt zone now) \<noteq> getDailyTaskPeriodKey zone now
    \<and> (\<exists>l. now \<le> l \<and> getNextDailyTaskResetAt zone now - 2 \<le> l \<and> l < getNextDailyTaskResetAt zone now
          \<and> getDailyTaskPeriodKey zone l = getDailyTaskPeriodKey zone now)"
  using reset_search [of now "now + 180000000" "getBrazilCheckinDateKey zone" "getBrazilCheckinDateKey zone now"] assms
  by (auto simp: getNextDailyTaskResetAt_def getDailyTaskPeriodKey_def)

lemma next_reset_is_the_day_change_witness: "getNextDailyTaskResetAt utc_zone 5000 \<le> 180005000"
proof -
  have "getBrazilCheckinDateKey utc_zone (5000 + 180000000) \<noteq> getBrazilCheckinDateKey utc_zone 5000" by code_simp
  from next_reset_is_the_day_change [OF this] show ?thesis by simp
qed

end
