(* ===== verification/Wallet.thy ===== *)
theory Wallet
  imports MiningDb
begin

section \<open>The wallet\<close>

text \<open>
  \<open>server/models/walletModel.js\<close>, \<open>controllers/walletController.js\<close>, the withdrawal handlers of
  \<open>controllers/adminController.js\<close>, \<open>cron/withdrawalsCron.js\<close> and \<open>services/depositVerifier.js\<close>: deposits,
  withdrawals and their review.  Amounts in request bodies are JSON numbers (\<open>None\<close> for a missing or
  zero one), hashes and addresses strings.  The chain is an argument.
\<close>

record wallet_tx =
  wt_id :: int
  wt_userId :: int
  wt_type :: string
  wt_amount :: dec8
  wt_address :: "string option"
  wt_txHash :: "string option"
  wt_failReason :: "string option"
  wt_status :: string
  wt_fundsReserved :: bool
  wt_verifyAttempts :: int
  wt_createdAt :: millis
  wt_completedAt :: "millis option"

text \<open>\<open>wl_payouts\<close> lists the coins sent on chain: withdrawal, address and amount.\<close>

record wallet_store = store +
  wl_txs :: "wallet_tx list"
  wl_rewardLogs :: "(int \<times> dec8) list"
  wl_notifications :: "notification list"
  wl_payouts :: "(int \<times> string \<times> dec8) list"

subsection \<open>The chain\<close>

text \<open>
  What a node answers: an error, nothing, or a value.  A receipt carries its logs; a log that parses
  as \<open>DepositReceived\<close> carries user, sender and amount (the parsing is the library's).  Values are
  in wei; \<open>parseFloat(formatEther(v))\<close> is \<open>etherOf\<close>.
\<close>

datatype 'a rpc = RpcError | RpcNone | RpcFound 'a

record chain_log =
  lg_address :: "string option"
  lg_deposit :: "(string \<times> string \<times> int) option"

record chain_receipt =
  cr_status :: int
  cr_block :: int
  cr_logs :: "chain_log list"

record chain_tx =
  ct_to :: "string option"
  ct_from :: "string option"
  ct_chainId :: int
  ct_value :: int

record chain =
  ch_tx :: "string \<Rightarrow> chain_tx rpc"
  ch_receipt :: "string \<Rightarrow> chain_receipt rpc"
  ch_head :: "int option"

record wallet_config =
  wc_depositAddress :: string
  wc_contract :: string
  wc_minDeposit :: number
  wc_confirmations :: int
  wc_autoSend :: bool

definition etherOf :: "int \<Rightarrow> number" where
  "etherOf v = fl (of_int v / 10 ^ 18)"

definition POLYGON_ID :: int where "POLYGON_ID = 137"
definition WITHDRAW_MIN_POL :: number where "WITHDRAW_MIN_POL = 10"
definition DEPOSIT_VERIFY_MAX_ATTEMPTS :: int where "DEPOSIT_VERIFY_MAX_ATTEMPTS = 96"

definition getMinDepositPol :: "number option \<Rightarrow> number" where
  "getMinDepositPol env = (case env of None \<Rightarrow> fl (1 / 100) | Some v \<Rightarrow> if 0 < v then v else fl (1 / 100))"

definition getRequiredBlockConfirmations :: "int option \<Rightarrow> int" where
  "getRequiredBlockConfirmations env = (case env of None \<Rightarrow> 3 | Some n \<Rightarrow> if 1 \<le> n then n else 3)"

subsection \<open>Hexadecimal strings\<close>

definition isHexChar :: "char \<Rightarrow> bool" where
  "isHexChar c = (let n = of_char c :: nat in (48 \<le> n \<and> n \<le> 57) \<or> (65 \<le> n \<and> n \<le> 70) \<or> (97 \<le> n \<and> n \<le> 102))"

text \<open>\<open>/^0x[0-9a-fA-F]{n}$/\<close>\<close>

definition isHexString :: "nat \<Rightarrow> string \<Rightarrow> bool" where
  "isHexString n s \<longleftrightarrow> take 2 s = ''0x'' \<and> length s = n + 2 \<and> list_all isHexChar (drop 2 s)"

subsection \<open>Queries\<close>

definition isPendingWithdrawal :: "int \<Rightarrow> wallet_tx \<Rightarrow> bool" where
  "isPendingWithdrawal userId t \<longleftrightarrow> wt_userId t = userId \<and> wt_type t = ''withdrawal'' \<and> wt_status t = ''pending''"

definition hasPendingWithdrawal :: "int \<Rightarrow> wallet_store \<Rightarrow> bool" where
  "hasPendingWithdrawal userId s \<longleftrightarrow> find_first (isPendingWithdrawal userId) (wl_txs s) \<noteq> None"

text \<open>\<open>orderBy: { createdAt: "desc" }\<close> with \<open>take\<close>.\<close>

definition latestTxs :: "nat \<Rightarrow> (wallet_tx \<Rightarrow> bool) \<Rightarrow> wallet_store \<Rightarrow> wallet_tx list" where
  "latestTxs n P s = take n (rev (sort_key wt_createdAt (filter P (wl_txs s))))"

definition getTransactions :: "int \<Rightarrow> nat \<Rightarrow> wallet_store \<Rightarrow> wallet_tx list" where
  "getTransactions userId limit s = latestTxs limit (\<lambda>t. wt_userId t = userId) s"

definition getDeposits :: "int \<Rightarrow> wallet_store \<Rightarrow> wallet_tx list" where
  "getDeposits userId s = latestTxs 100 (\<lambda>t. wt_userId t = userId \<and> wt_type t = ''deposit'') s"

definition getPendingWithdrawals :: "wallet_store \<Rightarrow> wallet_tx list" where
  "getPendingWithdrawals s =
     sort_key wt_createdAt (filter (\<lambda>t. wt_type t = ''withdrawal'' \<and> wt_status t \<in> {''pending'', ''approved''}) (wl_txs s))"

definition getApprovedWithdrawalsForAutoSend :: "wallet_store \<Rightarrow> wallet_tx list" where
  "getApprovedWithdrawalsForAutoSend s =
     sort_key wt_createdAt (filter (\<lambda>t. wt_type t = ''withdrawal'' \<and> wt_status t = ''approved'') (wl_txs s))"

record wallet_balance =
  wb_balance :: number
  wb_blkBalance :: number
  wb_blkLocked :: number
  wb_payoutMode :: string
  wb_lifetimeMined :: number
  wb_totalWithdrawn :: number
  wb_walletAddress :: "string option"

definition getUserBalance :: "int \<Rightarrow> wallet_store \<Rightarrow> wallet_balance" where
  "getUserBalance userId s =
     (case getUser userId s of
        None \<Rightarrow> \<lparr>wb_balance = 0, wb_blkBalance = 0, wb_blkLocked = 0, wb_payoutMode = ''pol'', wb_lifetimeMined = 0,
                 wb_totalWithdrawn = 0, wb_walletAddress = None\<rparr>
      | Some u \<Rightarrow> \<lparr>wb_balance = toNumber (usr_polBalance u), wb_blkBalance = toNumber (usr_blkBalance u),
                 wb_blkLocked = toNumber (usr_blkLocked u),
                 wb_payoutMode = (if usr_miningPayoutMode u = ''blk'' then ''blk'' else ''pol''),
                 wb_lifetimeMined = js_sum (map (\<lambda>l. toNumber (snd l)) (filter (\<lambda>l. fst l = userId) (wl_rewardLogs s))),
                 wb_totalWithdrawn = toNumber (sum_where (\<lambda>t. wt_userId t = userId \<and> wt_type t = ''withdrawal'' \<and> wt_status t = ''completed'')
                    wt_amount (wl_txs s)),
                 wb_walletAddress = usr_walletAddress u\<rparr>)"

subsection \<open>Profile\<close>

datatype wallet_error =
  BadRequest | BadSignature | DepositExists | NotConfigured | InvalidHash | TxNotFound | WrongDestination | WrongChain
| AmountTooLow | NotConfirmed | PendingExists | Insufficient | NotFoundTx | WrongStatus | AlreadyCredited | VerificationFailed
| HashClaimed | ServerError

text \<open>\<open>recovered\<close> is the address the signature recovers to.\<close>

definition updateAddress :: "string option \<Rightarrow> int \<Rightarrow> string \<Rightarrow> string \<Rightarrow> (wallet_error, unit, wallet_store) program" where
  "updateAddress recovered userId walletAddress signature s =
     (if walletAddress = '''' \<or> signature = '''' then throw BadRequest s
      else case recovered of None \<Rightarrow> throw ServerError s
      | Some r \<Rightarrow>
          if toLowerCase r \<noteq> toLowerCase walletAddress then throw BadSignature s
          else if getUser userId s = None then throw ServerError s
          else ret () (updUser userId (\<lambda>u. u\<lparr>usr_walletAddress := Some walletAddress\<rparr>) s))"

definition setMiningPayoutMode :: "int \<Rightarrow> string \<Rightarrow> (wallet_error, string, wallet_store) program" where
  "setMiningPayoutMode userId mode s =
     (let raw = trim (toLowerCase mode)
      in if raw \<noteq> ''pol'' then throw BadRequest s
         else if getUser userId s = None then throw ServerError s
         else ret raw (logCall (ReloadProfile userId) (updUser userId (\<lambda>u. u\<lparr>usr_miningPayoutMode := raw\<rparr>) s)))"

subsection \<open>Deposits confirmed at once\<close>

definition newTx :: "int \<Rightarrow> int \<Rightarrow> string \<Rightarrow> dec8 \<Rightarrow> string \<Rightarrow> millis \<Rightarrow> wallet_tx" where
  "newTx i userId typ amount status now =
     \<lparr>wt_id = i, wt_userId = userId, wt_type = typ, wt_amount = amount, wt_address = None, wt_txHash = None,
      wt_failReason = None, wt_status = status, wt_fundsReserved = False, wt_verifyAttempts = 0, wt_createdAt = now,
      wt_completedAt = None\<rparr>"

definition addTx :: "wallet_tx \<Rightarrow> wallet_store \<Rightarrow> wallet_store" where
  "addTx t s = s\<lparr>wl_txs := wl_txs s @ [t], st_next := st_next s + 1\<rparr>"

definition notifyWallet :: "int \<Rightarrow> string \<Rightarrow> wallet_store \<Rightarrow> wallet_store" where
  "notifyWallet userId title s =
     s\<lparr>wl_notifications := wl_notifications s @ [\<lparr>nt_userId = userId, nt_title = title, nt_type = ''success''\<rparr>]\<rparr>"

text \<open>The checks of the transaction against the chain; an error of the node while confirming is thrown as it is.\<close>

definition depositChecks :: "wallet_config \<Rightarrow> chain \<Rightarrow> number \<Rightarrow> string \<Rightarrow> wallet_error + unit" where
  "depositChecks cfg ch amount txHash =
     (if wc_depositAddress cfg = '''' then Inl NotConfigured
      else case ch_tx ch txHash of RpcError \<Rightarrow> Inl InvalidHash | RpcNone \<Rightarrow> Inl TxNotFound | RpcFound t \<Rightarrow>
        if (case ct_to t of None \<Rightarrow> True | Some a \<Rightarrow> toLowerCase a \<noteq> toLowerCase (wc_depositAddress cfg)) then Inl WrongDestination
        else if ct_chainId t \<noteq> POLYGON_ID then Inl WrongChain
        else if etherOf (ct_value t) < fl (amount * fl (999 / 1000)) then Inl AmountTooLow
        else case ch_receipt ch txHash of RpcError \<Rightarrow> Inl ServerError | RpcNone \<Rightarrow> Inl NotConfirmed | RpcFound r \<Rightarrow>
          if cr_status r \<noteq> 1 then Inl NotConfirmed else if ch_head ch = None then Inl ServerError else Inr ())"

definition depositWith :: "string \<Rightarrow> wallet_tx \<Rightarrow> bool" where
  "depositWith txHash t \<longleftrightarrow> wt_txHash t = Some txHash \<and> wt_type t = ''deposit''"

definition createDepositTx ::
  "(number \<Rightarrow> dec8) \<Rightarrow> wallet_config \<Rightarrow> chain \<Rightarrow> int \<Rightarrow> number \<Rightarrow> string \<Rightarrow> millis \<Rightarrow> (wallet_error, wallet_tx, wallet_store) program" where
  "createDepositTx dec8_of cfg ch userId amount txHash now s =
     (if find_first (depositWith txHash) (wl_txs s) \<noteq> None then throw DepositExists s
      else case depositChecks cfg ch amount txHash of Inl e \<Rightarrow> throw e s | Inr _ \<Rightarrow>
        let t = (newTx (st_next s) userId ''deposit'' (dec8_of amount) ''completed'' now)\<lparr>wt_txHash := Some txHash, wt_completedAt := Some now\<rparr>;
            s1 = addTx t s
        in if getUser userId s = None then throw ServerError s1
           else ret t (notifyWallet userId ''Deposito Confirmado'' (logCall (BalanceDelta userId amount)
                  (addPol userId (dec8_of amount) s1))))"

definition createDepositRequest ::
  "(number \<Rightarrow> dec8) \<Rightarrow> wallet_config \<Rightarrow> chain \<Rightarrow> int \<Rightarrow> number option \<Rightarrow> string \<Rightarrow> millis \<Rightarrow> (wallet_error, wallet_tx, wallet_store) program" where
  "createDepositRequest dec8_of cfg ch userId amount txHash now s =
     (case amount of None \<Rightarrow> throw BadRequest s
      | Some x \<Rightarrow> if txHash = '''' \<or> x = 0 then throw BadRequest s
                  else transaction (createDepositTx dec8_of cfg ch userId x txHash now) s)"

definition requestDeposit ::
  "(number \<Rightarrow> dec8) \<Rightarrow> wallet_config \<Rightarrow> chain \<Rightarrow> int \<Rightarrow> number option \<Rightarrow> string \<Rightarrow> millis \<Rightarrow> (wallet_error, wallet_tx, wallet_store) program" where
  "requestDeposit dec8_of cfg ch userId amount txHash now s =
     (case amount of None \<Rightarrow> throw BadRequest s
      | Some x \<Rightarrow> if txHash = '''' \<or> x = 0 \<or> x < wc_minDeposit cfg then throw BadRequest s
                  else createDepositRequest dec8_of cfg ch userId amount txHash now s)"

end
