(* ===== verification/WalletFlow.thy ===== *)
theory WalletFlow
  imports Wallet
begin

section \<open>Withdrawals and verified deposits\<close>

text \<open>
  An administrator's handler looks at a row and then writes; the verifier looks at the chain and the
  tables and then writes.  Each is split there, because others can commit in between.
\<close>

subsection \<open>Requesting a withdrawal\<close>

text \<open>
  \<open>polBalance.lt(amount)\<close> compares decimals.  For balances of up to 15 digits the comparison with a
  printed double is the comparison of the doubles.
\<close>

definition createWithdrawalTx ::
  "(number \<Rightarrow> dec8) \<Rightarrow> int \<Rightarrow> number \<Rightarrow> string \<Rightarrow> millis \<Rightarrow> (wallet_error, wallet_tx, wallet_store) program" where
  "createWithdrawalTx dec8_of userId amount address now s =
     (if hasPendingWithdrawal userId s then throw PendingExists s
      else case getUser userId s of None \<Rightarrow> throw ServerError s | Some u \<Rightarrow>
        if toNumber (usr_polBalance u) < amount then throw Insufficient s
        else let s1 = addPol userId (- dec8_of amount) s;
                 t = (newTx (st_next s) userId ''withdrawal'' (dec8_of amount) ''pending'' now)
                       \<lparr>wt_address := Some address, wt_fundsReserved := True\<rparr>
             in ret t (logCall (BalanceDelta userId (- amount)) (addTx t s1)))"

definition createWithdrawal ::
  "(number \<Rightarrow> dec8) \<Rightarrow> int \<Rightarrow> number \<Rightarrow> string \<Rightarrow> millis \<Rightarrow> (wallet_error, wallet_tx, wallet_store) program" where
  "createWithdrawal dec8_of userId amount address now = transaction (createWithdrawalTx dec8_of userId amount address now)"

definition requestWithdrawal ::
  "(number \<Rightarrow> dec8) \<Rightarrow> int \<Rightarrow> number option \<Rightarrow> string \<Rightarrow> millis \<Rightarrow> (wallet_error, wallet_tx, wallet_store) program" where
  "requestWithdrawal dec8_of userId amount address now s =
     (case amount of None \<Rightarrow> throw BadRequest s
      | Some x \<Rightarrow> if x = 0 \<or> \<not> isHexString 40 address \<or> x < WITHDRAW_MIN_POL then throw BadRequest s
                  else createWithdrawal dec8_of userId x address now s)"

subsection \<open>Changing the status\<close>

definition txById :: "int \<Rightarrow> wallet_store \<Rightarrow> wallet_tx option" where
  "txById i s = find_first (\<lambda>t. wt_id t = i) (wl_txs s)"

definition updTx :: "int \<Rightarrow> (wallet_tx \<Rightarrow> wallet_tx) \<Rightarrow> wallet_store \<Rightarrow> wallet_store" where
  "updTx i f s = s\<lparr>wl_txs := update_where (\<lambda>t. wt_id t = i) f (wl_txs s)\<rparr>"

definition addLocked :: "int \<Rightarrow> dec8 \<Rightarrow> 'a store_scheme \<Rightarrow> 'a store_scheme" where
  "addLocked userId d = updUser userId (\<lambda>u. u\<lparr>usr_blkLocked := usr_blkLocked u + d\<rparr>)"

definition updateTransactionStatus :: "int \<Rightarrow> string \<Rightarrow> string option \<Rightarrow> millis \<Rightarrow> wallet_store \<Rightarrow> wallet_store" where
  "updateTransactionStatus i status txHash now s =
     (case txById i s of None \<Rightarrow> s | Some t \<Rightarrow>
        let prevStatus = wt_status t;
            s1 = updTx i (\<lambda>r. r\<lparr>wt_status := status, wt_txHash := (if txHash = None \<or> txHash = Some '''' then wt_txHash t else txHash),
                    wt_completedAt := (if status = ''completed'' then Some now else wt_completedAt t)\<rparr>) s;
            failing = (status = ''failed'' \<and> prevStatus \<noteq> ''failed'' \<and> prevStatus \<noteq> ''completed'' \<and> wt_fundsReserved t)
        in if wt_type t = ''withdrawal'' then
             (if failing then logCall (BalanceDelta (wt_userId t) (toNumber (wt_amount t))) (addPol (wt_userId t) (wt_amount t) s1) else s1)
           else if wt_type t = ''blk_withdrawal'' then
             (if status = ''completed'' \<and> prevStatus \<noteq> ''completed'' \<and> wt_fundsReserved t then addLocked (wt_userId t) (- wt_amount t) s1
              else if failing then addBlk (wt_userId t) (wt_amount t) (addLocked (wt_userId t) (- wt_amount t) s1)
              else s1)
           else s1)"

subsection \<open>Review\<close>

text \<open>The row must be a withdrawal in one of the given states.\<close>

definition reviewable :: "string list \<Rightarrow> int option \<Rightarrow> wallet_store \<Rightarrow> wallet_error + int" where
  "reviewable states withdrawalId s =
     (case withdrawalId of None \<Rightarrow> Inl BadRequest | Some i \<Rightarrow>
      case txById i s of None \<Rightarrow> Inl NotFoundTx | Some t \<Rightarrow>
        if wt_type t \<noteq> ''withdrawal'' then Inl NotFoundTx
        else if wt_status t \<notin> set states then Inl WrongStatus
        else Inr i)"

definition approveWrite :: "int \<Rightarrow> (wallet_error, unit, wallet_store) program" where
  "approveWrite i s =
     (if txById i s = None then throw ServerError s else ret () (updTx i (\<lambda>t. t\<lparr>wt_status := ''approved''\<rparr>) s))"

definition approveWithdrawal :: "int option \<Rightarrow> (wallet_error, unit, wallet_store) program" where
  "approveWithdrawal withdrawalId s =
     (case reviewable [''pending''] withdrawalId s of Inl e \<Rightarrow> throw e s | Inr i \<Rightarrow> approveWrite i s)"

definition rejectWithdrawal :: "int option \<Rightarrow> millis \<Rightarrow> (wallet_error, unit, wallet_store) program" where
  "rejectWithdrawal withdrawalId now s =
     (case reviewable [''pending'', ''approved''] withdrawalId s of Inl e \<Rightarrow> throw e s
      | Inr i \<Rightarrow> ret () (updateTransactionStatus i ''failed'' None now s))"

definition isValidPolygonTxHash :: "string option \<Rightarrow> bool" where
  "isValidPolygonTxHash h = (case h of None \<Rightarrow> False | Some x \<Rightarrow> isHexString 64 (trim x))"

definition completeWithdrawal :: "int option \<Rightarrow> string option \<Rightarrow> millis \<Rightarrow> (wallet_error, unit, wallet_store) program" where
  "completeWithdrawal withdrawalId rawHash now s =
     (if withdrawalId = None \<or> \<not> isValidPolygonTxHash rawHash then throw BadRequest s
      else case reviewable [''pending'', ''approved''] withdrawalId s of Inl e \<Rightarrow> throw e s
      | Inr i \<Rightarrow> ret () (updateTransactionStatus i ''completed'' (map_option trim rawHash) now s))"

subsection \<open>Automatic sending\<close>

text \<open>\<open>send\<close> is the wallet: the hash of the transfer it made for a withdrawal, or an error.\<close>

definition autoSendOne :: "(wallet_tx \<Rightarrow> string option) \<Rightarrow> millis \<Rightarrow> wallet_tx \<Rightarrow> wallet_store \<Rightarrow> wallet_store" where
  "autoSendOne send now t s =
     (case wt_address t of None \<Rightarrow> s | Some a \<Rightarrow>
        if a = '''' then s
        else case send t of None \<Rightarrow> s
          | Some h \<Rightarrow> updateTransactionStatus (wt_id t) ''completed'' (Some h) now (s\<lparr>wl_payouts := wl_payouts s @ [(wt_id t, a, wt_amount t)]\<rparr>))"

definition processPendingWithdrawals :: "wallet_config \<Rightarrow> (wallet_tx \<Rightarrow> string option) \<Rightarrow> millis \<Rightarrow> wallet_store \<Rightarrow> wallet_store" where
  "processPendingWithdrawals cfg send now s =
     (if \<not> wc_autoSend cfg then s else fold (autoSendOne send now) (getApprovedWithdrawalsForAutoSend s) s)"

subsection \<open>Submitting a deposit\<close>

datatype submit_result = Submitted int | InVerification int

definition submitNew ::
  "(number \<Rightarrow> dec8) \<Rightarrow> int \<Rightarrow> string \<Rightarrow> number \<Rightarrow> millis \<Rightarrow> (wallet_error, submit_result, wallet_store) program" where
  "submitNew dec8_of userId h claimed now s =
     (if find_first (\<lambda>t. depositWith h t \<and> wt_status t \<in> {''completed'', ''pending_verification''} \<and> wt_userId t \<noteq> userId) (wl_txs s) \<noteq> None
      then throw HashClaimed s
      else let t = (newTx (st_next s) userId ''deposit'' (if 0 < claimed then dec8_of claimed else 0) ''pending_verification'' now)
                     \<lparr>wt_txHash := Some h\<rparr>
           in ret (Submitted (wt_id t)) (addTx t s))"

definition submitDeposit ::
  "(number \<Rightarrow> dec8) \<Rightarrow> wallet_config \<Rightarrow> int \<Rightarrow> string option \<Rightarrow> number option \<Rightarrow> millis
     \<Rightarrow> (wallet_error, submit_result, wallet_store) program" where
  "submitDeposit dec8_of cfg userId txHash claimedAmount now s =
     (case txHash of None \<Rightarrow> throw BadRequest s | Some raw \<Rightarrow>
      let h = toLowerCase (trim raw); claimed = (case claimedAmount of None \<Rightarrow> 0 | Some x \<Rightarrow> x)
      in if \<not> isHexString 64 h then throw BadRequest s
         else if claimed < 0 \<or> (0 < claimed \<and> claimed < wc_minDeposit cfg) then throw BadRequest s
         else case find_first (\<lambda>t. depositWith h t \<and> wt_userId t = userId) (wl_txs s) of
           Some t \<Rightarrow>
             if wt_status t = ''completed'' then throw AlreadyCredited s
             else if wt_status t = ''pending_verification'' then ret (InVerification (wt_id t)) s
             else if wt_status t = ''failed'' then throw VerificationFailed s
             else submitNew dec8_of userId h claimed now s
         | None \<Rightarrow> submitNew dec8_of userId h claimed now s)"

subsection \<open>The verifier\<close>

text \<open>
  What the verifier decides about a pending row from the chain and the tables: wait for the next
  round, give up with a reason, or credit the value found.
\<close>

datatype verdict = Retry | Fail string | Credit number

definition extractDepositReceivedFromReceipt :: "chain_receipt \<Rightarrow> string \<Rightarrow> (string \<times> string \<times> int) option" where
  "extractDepositReceivedFromReceipt receipt contractLower =
     (case find_first (\<lambda>l. (case lg_address l of None \<Rightarrow> False | Some a \<Rightarrow> a \<noteq> '''' \<and> toLowerCase a = toLowerCase contractLower)
              \<and> lg_deposit l \<noteq> None) (cr_logs receipt) of
        None \<Rightarrow> None
      | Some l \<Rightarrow> map_option (\<lambda>(u, snder, v). (toLowerCase u, toLowerCase snder, v)) (lg_deposit l))"

definition contractDepositMatchesLinkedWallet :: "string \<Rightarrow> string \<Rightarrow> string \<Rightarrow> bool" where
  "contractDepositMatchesLinkedWallet linked userId txFrom \<longleftrightarrow>
     linked \<noteq> '''' \<and> linked = toLowerCase userId \<and> toLowerCase userId = toLowerCase txFrom"

definition lowerOr :: "string option \<Rightarrow> string" where
  "lowerOr a = (case a of None \<Rightarrow> '''' | Some x \<Rightarrow> toLowerCase x)"

text \<open>The amount: the event's for the deposit contract, the value sent for the treasury.\<close>

definition verifiedAmount :: "wallet_config \<Rightarrow> wallet_store \<Rightarrow> wallet_tx \<Rightarrow> chain_receipt \<Rightarrow> chain_tx \<Rightarrow> string + number" where
  "verifiedAmount cfg s tx receipt onchain =
     (let contractRaw = toLowerCase (trim (wc_contract cfg)); treasury = toLowerCase (trim (wc_depositAddress cfg)); to_l = lowerOr (ct_to onchain);
          isContract = (contractRaw \<noteq> '''' \<and> to_l = contractRaw); isTreasury = (treasury \<noteq> '''' \<and> to_l = treasury)
      in if \<not> isContract \<and> \<not> isTreasury then Inl ''wrong_destination''
         else if isContract then
           (case extractDepositReceivedFromReceipt receipt contractRaw of
              None \<Rightarrow> Inl ''no_deposit_event''
            | Some (u, snder, v) \<Rightarrow>
                if ct_value onchain \<noteq> v then Inl ''value_event_mismatch''
                else let linked = (case getUser (wt_userId tx) s of None \<Rightarrow> '''' | Some usr \<Rightarrow> lowerOr (usr_walletAddress usr))
                     in if \<not> contractDepositMatchesLinkedWallet linked u (lowerOr (ct_from onchain)) then Inl ''wallet_mismatch''
                        else Inr (etherOf v))
         else Inr (etherOf (ct_value onchain)))"

definition verifyVerdict :: "wallet_config \<Rightarrow> chain \<Rightarrow> wallet_tx \<Rightarrow> wallet_store \<Rightarrow> verdict" where
  "verifyVerdict cfg ch tx s =
     (let h = (case wt_txHash tx of None \<Rightarrow> '''' | Some x \<Rightarrow> x) in
      if wt_verifyAttempts tx + 1 > DEPOSIT_VERIFY_MAX_ATTEMPTS then Fail ''verification_timeout''
      else case ch_receipt ch h of RpcError \<Rightarrow> Retry | RpcNone \<Rightarrow> Retry | RpcFound receipt \<Rightarrow>
        if cr_status receipt \<noteq> 1 then Fail ''tx_reverted''
        else case ch_tx ch h of RpcError \<Rightarrow> Retry | RpcNone \<Rightarrow> Retry | RpcFound onchain \<Rightarrow>
          if ct_chainId onchain \<noteq> POLYGON_ID then Fail ''wrong_chain''
          else case verifiedAmount cfg s tx receipt onchain of Inl reason \<Rightarrow> Fail reason | Inr amount \<Rightarrow>
            case ch_head ch of None \<Rightarrow> Retry | Some latestBlock \<Rightarrow>
              if latestBlock - cr_block receipt + 1 < wc_confirmations cfg then Retry
              else if amount < wc_minDeposit cfg then Fail ''amount_too_small''
              else if find_first (\<lambda>t. depositWith h t \<and> wt_status t = ''completed'' \<and> wt_id t \<noteq> wt_id tx) (wl_txs s) \<noteq> None
                   then Fail ''duplicate_txhash''
              else Credit amount)"

definition verifyWrite :: "(number \<Rightarrow> dec8) \<Rightarrow> wallet_tx \<Rightarrow> verdict \<Rightarrow> millis \<Rightarrow> wallet_store \<Rightarrow> wallet_store" where
  "verifyWrite dec8_of tx v now s =
     (let attempts = wt_verifyAttempts tx + 1; i = wt_id tx;
          retry = updTx i (\<lambda>t. t\<lparr>wt_verifyAttempts := attempts\<rparr>) s
      in case v of
           Retry \<Rightarrow> retry
         | Fail reason \<Rightarrow> updTx i (\<lambda>t. t\<lparr>wt_status := ''failed'', wt_verifyAttempts := attempts, wt_failReason := Some reason\<rparr>) s
         | Credit amount \<Rightarrow>
             if txById i s = None \<or> getUser (wt_userId tx) s = None then retry
             else notifyWallet (wt_userId tx) ''Deposito Confirmado!'' (logCall (BalanceDelta (wt_userId tx) amount)
                    (addPol (wt_userId tx) (dec8_of amount)
                      (updTx i (\<lambda>t. t\<lparr>wt_status := ''completed'', wt_amount := dec8_of amount, wt_completedAt := Some now,
                         wt_verifyAttempts := attempts\<rparr>) s))))"

definition verifyOnePendingDeposit :: "(number \<Rightarrow> dec8) \<Rightarrow> wallet_config \<Rightarrow> chain \<Rightarrow> millis \<Rightarrow> wallet_tx \<Rightarrow> wallet_store \<Rightarrow> wallet_store" where
  "verifyOnePendingDeposit dec8_of cfg ch now tx s = verifyWrite dec8_of tx (verifyVerdict cfg ch tx s) now s"

text \<open>One schedule of the parallel verifications of a round: one after the other.\<close>

definition runDepositVerifier :: "(number \<Rightarrow> dec8) \<Rightarrow> wallet_config \<Rightarrow> chain \<Rightarrow> millis \<Rightarrow> wallet_store \<Rightarrow> wallet_store" where
  "runDepositVerifier dec8_of cfg ch now s =
     fold (verifyOnePendingDeposit dec8_of cfg ch now)
       (take 50 (sort_key wt_createdAt (filter (\<lambda>t. wt_type t = ''deposit'' \<and> wt_status t = ''pending_verification'') (wl_txs s)))) s"

subsection \<open>Progress of a user's deposits\<close>

text \<open>The confirmations and the fate of a pending transfer; \<open>None\<close> while the node does not tell.\<close>

record deposit_view =
  dv_id :: int
  dv_amount :: number
  dv_status :: string
  dv_failReason :: "string option"
  dv_confirmations :: "int option"
  dv_required :: int
  dv_mined :: "bool option"
  dv_reverted :: "bool option"

definition depositView :: "wallet_config \<Rightarrow> chain \<Rightarrow> wallet_tx \<Rightarrow> deposit_view" where
  "depositView cfg ch d =
     (let (conf, mined, reverted) =
        (if wt_status d \<noteq> ''pending_verification'' then (None, None, None)
         else case (wt_txHash d, ch_head ch) of
           (Some h, Some latestBlock) \<Rightarrow>
             (if h = '''' then (None, None, None)
              else case ch_receipt ch h of RpcError \<Rightarrow> (None, None, None) | RpcNone \<Rightarrow> (Some 0, Some False, None)
               | RpcFound r \<Rightarrow> if cr_status r \<noteq> 1 then (Some 0, Some True, Some True)
                               else (Some (max 0 (latestBlock - cr_block r + 1)), Some True, Some False))
         | _ \<Rightarrow> (None, None, None))
      in \<lparr>dv_id = wt_id d, dv_amount = toNumber (wt_amount d), dv_status = wt_status d,
          dv_failReason = (if wt_status d = ''failed'' then wt_failReason d else None),
          dv_confirmations = conf, dv_required = wc_confirmations cfg, dv_mined = mined, dv_reverted = reverted\<rparr>)"

definition getPendingDeposits :: "wallet_config \<Rightarrow> chain \<Rightarrow> int \<Rightarrow> wallet_store \<Rightarrow> deposit_view list" where
  "getPendingDeposits cfg ch userId s =
     map (depositView cfg ch) (latestTxs 10 (\<lambda>t. wt_userId t = userId \<and> wt_type t = ''deposit''
       \<and> wt_status t \<in> {''pending_verification'', ''completed'', ''failed''}) s)"

subsection \<open>Gas for a transfer\<close>

text \<open>
  \<open>estimated\<close> is the node's answer for the transfer; a fifth is added, up to a cap, and 21000 is the
  answer when the node fails.
\<close>

definition postDepositEstimateGas ::
  "int option \<Rightarrow> string \<Rightarrow> string \<Rightarrow> string \<Rightarrow> string option \<Rightarrow> wallet_error + int" where
  "postDepositEstimateGas estimated fromA toA valueHex data =
     (let dataHex = (case data of None \<Rightarrow> None | Some d \<Rightarrow> if take 2 d = ''0x'' then Some d else None)
      in if \<not> isHexString 40 fromA \<or> \<not> isHexString 40 toA then Inl BadRequest
         else if length valueHex < 3 \<or> \<not> isHexString (length valueHex - 2) valueHex then Inl BadRequest
         else if (case dataHex of None \<Rightarrow> False | Some d \<Rightarrow> \<not> isHexString (length d - 2) d) then Inl BadRequest
         else case estimated of None \<Rightarrow> Inr 21000
           | Some e \<Rightarrow> let padded = e + e div 5 in Inr (if padded > 2500000 then 2500000 else padded))"

end
