(* ===== verification/WalletProofs.thy ===== *)
theory WalletProofs
  imports WalletFlow PassMath
begin

section \<open>The wallet as accounts\<close>

text \<open>
  The abstract view of the wallet: what a user can spend, what waits in withdrawals, what was paid out
  and what came in.  Every request, served alone, is a step of these accounts.
\<close>

record account =
  ac_available :: dec8
  ac_reserved :: dec8
  ac_paid :: dec8
  ac_deposited :: dec8

inductive acct_step :: "(int \<Rightarrow> account) \<Rightarrow> (int \<Rightarrow> account) \<Rightarrow> bool" where
  Idle: "acct_step m m"
| Deposit: "0 \<le> a \<Longrightarrow> acct_step m (m(u := (m u)\<lparr>ac_available := ac_available (m u) + a, ac_deposited := ac_deposited (m u) + a\<rparr>))"
| Reserve: "0 \<le> a \<Longrightarrow> a \<le> ac_available (m u)
    \<Longrightarrow> acct_step m (m(u := (m u)\<lparr>ac_available := ac_available (m u) - a, ac_reserved := ac_reserved (m u) + a\<rparr>))"
| Release: "0 \<le> a \<Longrightarrow> a \<le> ac_reserved (m u)
    \<Longrightarrow> acct_step m (m(u := (m u)\<lparr>ac_available := ac_available (m u) + a, ac_reserved := ac_reserved (m u) - a\<rparr>))"
| Payout: "0 \<le> a \<Longrightarrow> a \<le> ac_reserved (m u)
    \<Longrightarrow> acct_step m (m(u := (m u)\<lparr>ac_reserved := ac_reserved (m u) - a, ac_paid := ac_paid (m u) + a\<rparr>))"

inductive_cases acct_stepE: "acct_step m n"

definition isOpen :: "int \<Rightarrow> wallet_tx \<Rightarrow> bool" where
  "isOpen u t \<longleftrightarrow> wt_userId t = u \<and> wt_type t = ''withdrawal'' \<and> wt_status t \<in> {''pending'', ''approved''}"

definition isPaid :: "int \<Rightarrow> wallet_tx \<Rightarrow> bool" where
  "isPaid u t \<longleftrightarrow> wt_userId t = u \<and> wt_type t = ''withdrawal'' \<and> wt_status t = ''completed''"

definition isIncome :: "int \<Rightarrow> wallet_tx \<Rightarrow> bool" where
  "isIncome u t \<longleftrightarrow> wt_userId t = u \<and> wt_type t = ''deposit'' \<and> wt_status t = ''completed''"

definition accounts :: "wallet_store \<Rightarrow> int \<Rightarrow> account" where
  "accounts s u = \<lparr>ac_available = (case polOf u s of None \<Rightarrow> 0 | Some b \<Rightarrow> b),
     ac_reserved = sum_where (isOpen u) wt_amount (wl_txs s), ac_paid = sum_where (isPaid u) wt_amount (wl_txs s),
     ac_deposited = sum_where (isIncome u) wt_amount (wl_txs s)\<rparr>"

subsection \<open>Well-formed tables\<close>

definition wallet_ok :: "wallet_store \<Rightarrow> bool" where
  "wallet_ok s \<longleftrightarrow> unique_key wt_id (wl_txs s) \<and> (\<forall>t \<in> set (wl_txs s). wt_id t < st_next s)
     \<and> (\<forall>t \<in> set (wl_txs s). wt_type t = ''withdrawal'' \<longrightarrow> wt_fundsReserved t \<and> 0 \<le> wt_amount t \<and> polOf (wt_userId t) s \<noteq> None
          \<and> wt_status t \<in> {''pending'', ''approved'', ''completed'', ''failed''})"

lemma wallet_okD:
  assumes "wallet_ok s" and "t \<in> set (wl_txs s)"
  shows "wt_id t < st_next s" and "wt_type t = ''withdrawal'' \<Longrightarrow> wt_fundsReserved t"
    and "wt_type t = ''withdrawal'' \<Longrightarrow> 0 \<le> wt_amount t" and "wt_type t = ''withdrawal'' \<Longrightarrow> polOf (wt_userId t) s \<noteq> None"
    and "wt_type t = ''withdrawal'' \<Longrightarrow> wt_status t \<in> {''pending'', ''approved'', ''completed'', ''failed''}"
  using assms by (auto simp: wallet_ok_def)

lemma wallet_ok_unique: "wallet_ok s \<Longrightarrow> unique_key wt_id (wl_txs s)"
  by (simp add: wallet_ok_def)

lemma txById_D: "txById i s = Some t \<Longrightarrow> t \<in> set (wl_txs s) \<and> wt_id t = i"
  unfolding txById_def by (drule find_first_Some_conj) simp

lemma wl_txs_frame [simp]:
  "wl_txs (addPol u d s) = wl_txs s" "wl_txs (logCall c s) = wl_txs s" "wl_txs (notifyWallet u x s) = wl_txs s"
  "wl_txs (addTx t s) = wl_txs s @ [t]" "wl_txs (updTx i f s) = update_where (\<lambda>t. wt_id t = i) f (wl_txs s)"
  "st_next (addPol u d s) = st_next s" "st_next (logCall c s) = st_next s" "st_next (notifyWallet u x s) = st_next s"
  "st_next (addTx t s) = st_next s + 1" "st_next (updTx i f s) = st_next s"
  by (simp_all add: addPol_def updUser_def logCall_def notifyWallet_def addTx_def updTx_def)

lemma pol_frame [simp]:
  "polOf u (logCall c s) = polOf u s" "polOf u (notifyWallet v x s') = polOf u s'" "polOf u (addTx t s') = polOf u s'"
  "polOf u (updTx i f s') = polOf u s'"
  by (simp_all add: polOf_def getUser_def logCall_def notifyWallet_def addTx_def updTx_def)

lemma getUser_addTx [simp]: "getUser u (addTx t s) = getUser u s"
  by (simp add: getUser_def addTx_def)

lemma getUser_pol: "getUser u s = None \<longleftrightarrow> polOf u s = None"
  by (simp add: polOf_def)

text \<open>The sums after one row, addressed by its id, changed.\<close>

lemma sum_txs_update:
  assumes "wallet_ok s" and "t \<in> set (wl_txs s)"
  shows "sum_where P wt_amount (update_where (\<lambda>r. wt_id r = wt_id t) g (wl_txs s))
    = sum_where P wt_amount (wl_txs s) - (if P t then wt_amount t else 0) + (if P (g t) then wt_amount (g t) else 0)"
  using sum_where_update_key [OF wallet_ok_unique [OF assms(1)] assms(2)] .

lemma reserved_member:
  assumes "wallet_ok s" and "t \<in> set (wl_txs s)" and "isOpen u t"
  shows "0 \<le> wt_amount t" and "wt_amount t \<le> sum_where (isOpen u) wt_amount (wl_txs s)"
proof -
  show "0 \<le> wt_amount t" using assms wallet_okD(3) [OF assms(1,2)] by (simp add: isOpen_def)
  have nn: "\<And>r. r \<in> set (wl_txs s) \<Longrightarrow> isOpen u r \<Longrightarrow> 0 \<le> wt_amount r"
    using wallet_okD(3) [OF assms(1)] by (simp add: isOpen_def)
  have "wt_amount t \<le> sum_where (isOpen u) wt_amount rows" if "t \<in> set rows" "\<And>r. r \<in> set rows \<Longrightarrow> isOpen u r \<Longrightarrow> 0 \<le> wt_amount r" for rows
    using that
  proof (induction rows)
    case (Cons r rows)
    have s0: "0 \<le> sum_where (isOpen u) wt_amount rows" using Cons.prems(2) by (intro sum_where_nonneg) simp
    have r0: "isOpen u r \<Longrightarrow> 0 \<le> wt_amount r" using Cons.prems(2) by simp
    show ?case
    proof (cases "t = r")
      case True
      then show ?thesis using s0 assms(3) by simp
    next
      case False
      then have "t \<in> set rows" using Cons.prems(1) by simp
      then have "wt_amount t \<le> sum_where (isOpen u) wt_amount rows" using Cons.IH Cons.prems(2) by simp
      then show ?thesis using r0 by (cases "isOpen u r") simp_all
    qed
  qed simp
  then show "wt_amount t \<le> sum_where (isOpen u) wt_amount (wl_txs s)" using assms(2) nn .
qed

subsection \<open>The effect of the operations on the accounts\<close>

lemma accounts_frame:
  assumes "wl_txs t = wl_txs s" and "\<And>u. polOf u t = polOf u s"
  shows "accounts t = accounts s"
  using assms by (intro ext) (simp add: accounts_def)

lemma ok_frame:
  assumes "wallet_ok s" and "wl_txs t = wl_txs s" and "\<And>u. polOf u t = polOf u s" and "st_next s \<le> st_next t"
  shows "wallet_ok t"
  using assms unfolding wallet_ok_def by fastforce

text \<open>A row changes without changing what it counts for.\<close>

lemma quiet_update:
  assumes ok: "wallet_ok s" and t: "t \<in> set (wl_txs s)" and g: "wt_id (g t) = wt_id t" "wt_userId (g t) = wt_userId t"
    "wt_type (g t) = wt_type t" and w: "wt_type t = ''withdrawal'' \<Longrightarrow> wt_amount (g t) = wt_amount t \<and> wt_fundsReserved (g t)
        \<and> wt_status (g t) \<in> {''pending'', ''approved'', ''completed'', ''failed''}"
    and k: "\<And>r. wt_id (g r) = wt_id r"
  shows "wallet_ok (updTx (wt_id t) g s)"
proof -
  have r: "\<exists>q \<in> set (wl_txs s). r = q \<and> wt_id q \<noteq> wt_id t \<or> r = g t" if "r \<in> set (update_where (\<lambda>q. wt_id q = wt_id t) g (wl_txs s))" for r
    using that unique_key_eqD [OF wallet_ok_unique [OF ok] _ t] t unfolding set_update_where by auto
  have 1: "wt_id r < st_next s" if "r \<in> set (update_where (\<lambda>q. wt_id q = wt_id t) g (wl_txs s))" for r
    using r [OF that] wallet_okD(1) [OF ok] g(1) t by auto
  have 2: "wt_type r = ''withdrawal'' \<longrightarrow> wt_fundsReserved r \<and> 0 \<le> wt_amount r \<and> polOf (wt_userId r) s \<noteq> None
          \<and> wt_status r \<in> {''pending'', ''approved'', ''completed'', ''failed''}"
    if "r \<in> set (update_where (\<lambda>q. wt_id q = wt_id t) g (wl_txs s))" for r
    using r [OF that] wallet_okD [OF ok] g w t by (metis (no_types, lifting))
  show ?thesis
    unfolding wallet_ok_def wl_txs_frame pol_frame using wallet_ok_unique [OF ok] 1 2 by (simp add: k)
qed

lemma accounts_update:
  assumes ok: "wallet_ok s" and t: "t \<in> set (wl_txs s)"
  shows "accounts (updTx (wt_id t) g s) u = \<lparr>ac_available = ac_available (accounts s u),
     ac_reserved = ac_reserved (accounts s u) - (if isOpen u t then wt_amount t else 0) + (if isOpen u (g t) then wt_amount (g t) else 0),
     ac_paid = ac_paid (accounts s u) - (if isPaid u t then wt_amount t else 0) + (if isPaid u (g t) then wt_amount (g t) else 0),
     ac_deposited = ac_deposited (accounts s u) - (if isIncome u t then wt_amount t else 0) + (if isIncome u (g t) then wt_amount (g t) else 0)\<rparr>"
  by (simp add: accounts_def sum_txs_update [OF ok t])

lemma accounts_addPol:
  "polOf v s \<noteq> None \<Longrightarrow> accounts (addPol v a s) = (accounts s)(v := (accounts s v)\<lparr>ac_available := ac_available (accounts s v) + a\<rparr>)"
  by (intro ext) (auto simp: accounts_def split: option.split)

lemma accounts_calls [simp]: "accounts (logCall c s) = accounts s" "accounts (notifyWallet u x s) = accounts s"
  by (rule accounts_frame; simp)+

lemma ok_calls [simp]: "wallet_ok (logCall c s) = wallet_ok s" "wallet_ok (notifyWallet u x s) = wallet_ok s"
  by (simp_all add: wallet_ok_def)

lemma ok_addPol: "wallet_ok s \<Longrightarrow> wallet_ok (addPol v a s)"
  unfolding wallet_ok_def by auto

text \<open>An open withdrawal fails or completes.\<close>

lemma withdrawal_closed:
  assumes ok: "wallet_ok s" and i: "txById i s = Some t" and open_t: "isOpen (wt_userId t) t" and st: "st = ''failed'' \<or> st = ''completed''"
  shows "acct_step (accounts s) (accounts (updateTransactionStatus i st h now s))" and "wallet_ok (updateTransactionStatus i st h now s)"
proof -
  from txById_D [OF i] have t: "t \<in> set (wl_txs s)" and ti: "i = wt_id t" by auto
  have ty: "wt_type t = ''withdrawal''" and s0: "wt_status t = ''pending'' \<or> wt_status t = ''approved''" using open_t by (auto simp: isOpen_def)
  have fr: "wt_fundsReserved t" using wallet_okD(2) [OF ok t ty] .
  obtain b where b: "polOf (wt_userId t) s = Some b" using wallet_okD(4) [OF ok t ty] by auto
  define g where "g = (\<lambda>r :: wallet_tx. r\<lparr>wt_status := st, wt_txHash := (if h = None \<or> h = Some '''' then wt_txHash t else h),
                    wt_completedAt := (if st = ''completed'' then Some now else wt_completedAt t)\<rparr>)"
  let ?u = "wt_userId t" and ?s1 = "updTx (wt_id t) g s"
  have ok1: "wallet_ok ?s1" using st fr ty by (intro quiet_update [OF ok t]) (auto simp: g_def)
  have e: "updateTransactionStatus i st h now s = (if st = ''failed''
      then logCall (BalanceDelta ?u (toNumber (wt_amount t))) (addPol ?u (wt_amount t) ?s1) else ?s1)"
    using i ty s0 fr st by (auto simp: updateTransactionStatus_def Let_def g_def ti)
  have flags: "isOpen u t \<longleftrightarrow> u = ?u" "\<not> isPaid u t" "\<not> isIncome u t" "\<not> isOpen u (g t)" "isPaid u (g t) \<longleftrightarrow> st = ''completed'' \<and> u = ?u"
    "\<not> isIncome u (g t)" "wt_amount (g t) = wt_amount t" for u
    using s0 st ty by (auto simp: isOpen_def isPaid_def isIncome_def g_def)
  have m: "0 \<le> wt_amount t" "wt_amount t \<le> ac_reserved (accounts s ?u)"
    using reserved_member [OF ok t open_t] by (simp_all add: accounts_def)
  have a1: "accounts ?s1 = (accounts s)(?u := (accounts s ?u)\<lparr>ac_reserved := ac_reserved (accounts s ?u) - wt_amount t,
      ac_paid := ac_paid (accounts s ?u) + (if st = ''completed'' then wt_amount t else 0)\<rparr>)"
    by (intro ext) (simp add: accounts_update [OF ok t] flags)
  show "wallet_ok (updateTransactionStatus i st h now s)" unfolding e using ok1 by (simp add: ok_addPol)
  show "acct_step (accounts s) (accounts (updateTransactionStatus i st h now s))"
  proof (cases "st = ''failed''")
    case True
    have "accounts (updateTransactionStatus i st h now s) = (accounts s)(?u := (accounts s ?u)\<lparr>
        ac_available := ac_available (accounts s ?u) + wt_amount t, ac_reserved := ac_reserved (accounts s ?u) - wt_amount t\<rparr>)"
    proof -
      have "polOf ?u ?s1 \<noteq> None" using b by simp
      from accounts_addPol [OF this, of "wt_amount t"] show ?thesis
        using True unfolding e by (cases "accounts s ?u") (simp add: a1)
    qed
    then show ?thesis using acct_step.Release [of "wt_amount t" "accounts s" ?u, OF m] by simp
  next
    case False
    with st have "accounts (updateTransactionStatus i st h now s) = (accounts s)(?u := (accounts s ?u)\<lparr>
        ac_reserved := ac_reserved (accounts s ?u) - wt_amount t, ac_paid := ac_paid (accounts s ?u) + wt_amount t\<rparr>)"
      unfolding e by (simp add: a1)
    then show ?thesis using acct_step.Payout [of "wt_amount t" "accounts s" ?u, OF m] by simp
  qed
qed

lemma reviewable_InrD:
  "reviewable states w s = Inr i \<Longrightarrow> \<exists>t. txById i s = Some t \<and> wt_type t = ''withdrawal'' \<and> wt_status t \<in> set states"
  by (auto simp: reviewable_def split: option.splits if_splits)

text \<open>A new row.\<close>

lemma ok_add:
  assumes ok: "wallet_ok s" and i: "wt_id t = st_next s" and w: "wt_type t = ''withdrawal'' \<Longrightarrow> wt_fundsReserved t \<and> 0 \<le> wt_amount t
      \<and> polOf (wt_userId t) s \<noteq> None \<and> wt_status t \<in> {''pending'', ''approved'', ''completed'', ''failed''}"
  shows "wallet_ok (addTx t s)"
proof -
  have "wt_id t \<notin> wt_id ` set (wl_txs s)"
  proof
    assume "wt_id t \<in> wt_id ` set (wl_txs s)"
    then obtain x where "x \<in> set (wl_txs s)" "wt_id x = st_next s" using i by auto
    then show False using wallet_okD(1) [OF ok, of x] by simp
  qed
  then have u: "unique_key wt_id (wl_txs s @ [t])" using wallet_ok_unique [OF ok] by (simp add: unique_key_def)
  have "wt_id x < st_next s + 1" if "x \<in> set (wl_txs s @ [t])" for x
    using that wallet_okD(1) [OF ok, of x] i by auto
  moreover have "wt_type x = ''withdrawal'' \<longrightarrow> wt_fundsReserved x \<and> 0 \<le> wt_amount x \<and> polOf (wt_userId x) s \<noteq> None
      \<and> wt_status x \<in> {''pending'', ''approved'', ''completed'', ''failed''}" if "x \<in> set (wl_txs s @ [t])" for x
    using that wallet_okD [OF ok, of x] w by (cases "x = t") simp_all
  ultimately show ?thesis unfolding wallet_ok_def wl_txs_frame pol_frame using u by blast
qed

lemma accounts_add: "accounts (addTx t s) u = \<lparr>ac_available = ac_available (accounts s u),
     ac_reserved = ac_reserved (accounts s u) + (if isOpen u t then wt_amount t else 0),
     ac_paid = ac_paid (accounts s u) + (if isPaid u t then wt_amount t else 0),
     ac_deposited = ac_deposited (accounts s u) + (if isIncome u t then wt_amount t else 0)\<rparr>"
  by (simp add: accounts_def)

end
