(* ===== verification/WalletSteps.thy ===== *)
theory WalletSteps
  imports WalletProofs
begin

section \<open>The wallet's requests as steps of the accounts\<close>

text \<open>
  A request is served when the accounts make one of their steps and the tables stay well formed.
  Each operation is served; the step relation collects them and refines the accounts.
\<close>

definition served :: "wallet_store \<Rightarrow> wallet_store \<Rightarrow> bool" where
  "served s t \<longleftrightarrow> acct_step (accounts s) (accounts t) \<and> wallet_ok t"

lemma served_idle: "wallet_ok t \<Longrightarrow> accounts t = accounts s \<Longrightarrow> served s t"
  by (simp add: served_def acct_step.Idle)

lemma served_quiet:
  assumes ok: "wallet_ok s" and t: "t \<in> set (wl_txs s)" and g: "wt_id (g t) = wt_id t" "wt_userId (g t) = wt_userId t"
    "wt_type (g t) = wt_type t" and w: "wt_type t = ''withdrawal'' \<Longrightarrow> wt_amount (g t) = wt_amount t \<and> wt_fundsReserved (g t)
        \<and> wt_status (g t) \<in> {''pending'', ''approved'', ''completed'', ''failed''}"
    and k: "\<And>r. wt_id (g r) = wt_id r"
    and same: "\<And>u. isOpen u (g t) \<longleftrightarrow> isOpen u t" "\<And>u. isPaid u (g t) \<longleftrightarrow> isPaid u t" "\<And>u. \<not> isIncome u t" "\<And>u. \<not> isIncome u (g t)"
  shows "served s (updTx (wt_id t) g s)"
proof -
  have "wt_amount (g t) = wt_amount t" if "isOpen u t" for u
    using w that by (auto simp: isOpen_def)
  moreover have "wt_amount (g t) = wt_amount t" if "isPaid u t" for u
    using w that by (auto simp: isPaid_def)
  ultimately have "accounts (updTx (wt_id t) g s) u = accounts s u" for u
    by (cases "accounts s u") (auto simp: accounts_update [OF ok t] same)
  then show ?thesis using quiet_update [OF ok t g w k] by (intro served_idle) auto
qed

text \<open>Income: a deposit row that now counts, and the credit of its amount.\<close>

lemma accounts_income:
  assumes a: "0 \<le> a" and m: "\<And>u. accounts s1 u = (accounts s u)\<lparr>ac_deposited := ac_deposited (accounts s u) + (if u = v then a else 0)\<rparr>"
    and p: "polOf v s1 \<noteq> None"
  shows "acct_step (accounts s) (accounts (addPol v a s1))"
proof -
  have "accounts (addPol v a s1) = (accounts s)(v := (accounts s v)\<lparr>ac_available := ac_available (accounts s v) + a,
      ac_deposited := ac_deposited (accounts s v) + a\<rparr>)"
    unfolding accounts_addPol [OF p] by (rule ext, case_tac "accounts s v") (simp add: m)
  then show ?thesis using acct_step.Deposit [OF a, of "accounts s" v] by simp
qed

subsection \<open>Profile\<close>

lemma profile_served:
  assumes "\<And>x. usr_id (f x) = usr_id x" and "\<And>x. usr_polBalance (f x) = usr_polBalance x" and "wallet_ok s"
  shows "served s (updUser u f s)"
proof -
  have p: "polOf v (updUser u f s) = polOf v s" for v
    using assms(2) by (cases "getUser v s") (auto simp: polOf_def getUser_updUser [OF assms(1)])
  have w: "wl_txs (updUser u f s) = wl_txs s" "st_next (updUser u f s) = st_next s" by (simp_all add: updUser_def)
  show ?thesis using ok_frame [OF assms(3), of "updUser u f s"] accounts_frame [of "updUser u f s" s] p w by (intro served_idle) auto
qed

lemma served_refl: "wallet_ok s \<Longrightarrow> served s s"
  by (rule served_idle) simp_all

lemma served_call [simp]: "served s (logCall c t) = served s t"
  by (simp add: served_def)

lemma served_notify [simp]: "served s (notifyWallet u x t) = served s t"
  by (simp add: served_def)

lemma updateAddress_served: "wallet_ok s \<Longrightarrow> updateAddress rec u a sg s = (r, t) \<Longrightarrow> served s t"
  by (auto simp: updateAddress_def throw_def ret_def intro!: served_refl profile_served split: if_splits option.splits)

lemma payoutMode_served: "wallet_ok s \<Longrightarrow> setMiningPayoutMode u m s = (r, t) \<Longrightarrow> served s t"
  by (auto simp: setMiningPayoutMode_def throw_def ret_def Let_def intro!: served_refl profile_served split: if_splits)

subsection \<open>Deposits\<close>

context decimal_codec
begin

lemma createDepositTx_served:
  assumes ok: "wallet_ok s" and r: "createDepositTx dec8_of cfg ch u x h now s = (Inr row, t)" and x: "0 \<le> x"
  shows "served s t"
proof -
  let ?row = "(newTx (st_next s) u ''deposit'' (dec8_of x) ''completed'' now)\<lparr>wt_txHash := Some h, wt_completedAt := Some now\<rparr>"
  have t: "t = notifyWallet u ''Deposito Confirmado'' (logCall (BalanceDelta u x) (addPol u (dec8_of x) (addTx ?row s)))"
    and u: "polOf u s \<noteq> None"
    using r by (auto simp: createDepositTx_def throw_def ret_def Let_def getUser_addTx getUser_pol split: if_splits sum.splits)
  have "wallet_ok (addTx ?row s)" by (intro ok_add [OF ok]) (simp_all add: newTx_def)
  moreover have "acct_step (accounts s) (accounts (addPol u (dec8_of x) (addTx ?row s)))"
    using u by (intro accounts_income codec_nonneg x) (auto simp: accounts_add newTx_def isOpen_def isPaid_def isIncome_def)
  ultimately show ?thesis unfolding t by (simp add: served_def ok_addPol)
qed

lemma requestDeposit_served:
  assumes "wallet_ok s" and r: "requestDeposit dec8_of cfg ch u amount h now s = (r, t)" and m: "0 \<le> wc_minDeposit cfg"
  shows "served s t"
proof (cases r)
  case (Inl e)
  then have "t = s" using r transaction_Inl
    by (fastforce simp: requestDeposit_def createDepositRequest_def throw_def split: option.splits if_splits)
  then show ?thesis using assms(1) by (simp add: served_refl)
next
  case (Inr row)
  then obtain x where "amount = Some x" "\<not> x < wc_minDeposit cfg" "createDepositTx dec8_of cfg ch u x h now s = (Inr row, t)"
    using r by (auto simp: requestDeposit_def createDepositRequest_def throw_def transaction_Inr_iff split: option.splits if_splits)
  then show ?thesis using m createDepositTx_served [OF assms(1)] by simp
qed

end

subsection \<open>Withdrawals\<close>

text \<open>Balances of up to ten million coins, the size the comparison of doubles is exact for.\<close>

definition capped :: "wallet_store \<Rightarrow> bool" where
  "capped s \<longleftrightarrow> list_all (\<lambda>u. usr_polBalance u \<le> 10 ^ 15) (st_users s)"

lemma cappedD: "capped s \<Longrightarrow> polOf u s = Some b \<Longrightarrow> b \<le> 10 ^ 15"
  unfolding capped_def polOf_def getUser_def by (auto dest!: find_first_Some_conj simp: list_all_iff)

context decimal_codec
begin

lemma requestWithdrawal_served:
  assumes ok: "wallet_ok s" and cap: "capped s" and r: "requestWithdrawal dec8_of u amount addr now s = (r, t)"
  shows "served s t"
proof (cases r)
  case (Inl e)
  then have "t = s" using r transaction_Inl
    by (fastforce simp: requestWithdrawal_def createWithdrawal_def throw_def split: option.splits if_splits)
  then show ?thesis using ok by (simp add: served_refl)
next
  case (Inr row)
  obtain x where x10: "\<not> x < 10" and c: "createWithdrawalTx dec8_of u x addr now s = (Inr row, t)"
    using r unfolding Inr by (auto simp: requestWithdrawal_def createWithdrawal_def WITHDRAW_MIN_POL_def throw_def transaction_Inr_iff
        split: option.splits if_splits)
  have x: "0 < x" using x10 by simp
  let ?a = "dec8_of x"
  let ?row = "(newTx (st_next s) u ''withdrawal'' ?a ''pending'' now)\<lparr>wt_address := Some addr, wt_fundsReserved := True\<rparr>"
  obtain b where b: "polOf u s = Some b" "x \<le> toNumber b" and t: "t = logCall (BalanceDelta u (- x)) (addTx ?row (addPol u (- ?a) s))"
    using c by (auto simp: createWithdrawalTx_def throw_def ret_def Let_def polOf_def split: option.splits if_splits)
  have a0: "0 \<le> ?a" using x by (intro codec_nonneg) simp
  have b0: "0 \<le> b"
  proof (rule ccontr)
    assume "\<not> 0 \<le> b"
    then have "toNumber b \<le> 0" using toNumber_mono [of b 0] by simp
    then show False using b(2) x by simp
  qed
  have "dec8_of (toNumber b) = b"
    using charge_exact [OF decimal_codec_axioms b0, of 1] cappedD [OF cap b(1)] by (simp add: toNumber_def)
  then have ab: "?a \<le> ac_available (accounts s u)" using codec_mono [OF b(2)] b(1) by (simp add: accounts_def)
  have p: "polOf u s \<noteq> None" using b by simp
  have "wallet_ok t" unfolding t using a0 p by (simp, intro ok_add ok_addPol ok) (auto simp: newTx_def)
  moreover have "accounts t = (accounts s)(u := (accounts s u)\<lparr>ac_available := ac_available (accounts s u) - ?a,
      ac_reserved := ac_reserved (accounts s u) + ?a\<rparr>)"
    unfolding t by (rule ext, case_tac "accounts s u") (simp add: accounts_add accounts_addPol [OF p] newTx_def isOpen_def isPaid_def isIncome_def)
  ultimately show ?thesis using acct_step.Reserve [OF a0, of "accounts s" u, OF ab] by (simp add: served_def)
qed

end

lemma reviewable_open: "reviewable states w s = Inr i \<Longrightarrow> set states \<subseteq> {''pending'', ''approved''}
    \<Longrightarrow> \<exists>t. txById i s = Some t \<and> isOpen (wt_userId t) t"
  using reviewable_InrD [of states w s i] by (auto simp: isOpen_def)

lemma closed_served: "wallet_ok s \<Longrightarrow> txById i s = Some t \<Longrightarrow> isOpen (wt_userId t) t \<Longrightarrow> st = ''failed'' \<or> st = ''completed''
    \<Longrightarrow> served s (updateTransactionStatus i st h now s)"
  unfolding served_def by (intro conjI withdrawal_closed)

lemma approve_served: "wallet_ok s \<Longrightarrow> approveWithdrawal w s = (r, t) \<Longrightarrow> served s t"
proof -
  assume ok: "wallet_ok s" and r: "approveWithdrawal w s = (r, t)"
  show "served s t"
  proof (cases "reviewable [''pending''] w s")
    case (Inr i)
    then obtain x where x: "txById i s = Some x" "isOpen (wt_userId x) x" using reviewable_open [OF Inr] by auto
    then have t: "t = updTx (wt_id x) (\<lambda>t. t\<lparr>wt_status := ''approved''\<rparr>) s" and m: "x \<in> set (wl_txs s)"
      using r Inr txById_D [OF x(1)] by (auto simp: approveWithdrawal_def approveWrite_def ret_def)
    show ?thesis unfolding t using x(2) wallet_okD(2) [OF ok m]
      by (intro served_quiet [OF ok m]) (auto simp: isOpen_def isPaid_def isIncome_def)
  qed (use r ok in \<open>auto simp: approveWithdrawal_def throw_def served_refl\<close>)
qed

lemma reject_served: "wallet_ok s \<Longrightarrow> rejectWithdrawal w now s = (r, t) \<Longrightarrow> served s t"
  using reviewable_open [of "[''pending'', ''approved'']" w s]
  by (auto simp: rejectWithdrawal_def throw_def ret_def served_refl intro: closed_served split: sum.splits)

lemma complete_served: "wallet_ok s \<Longrightarrow> completeWithdrawal w h now s = (r, t) \<Longrightarrow> served s t"
  using reviewable_open [of "[''pending'', ''approved'']" w s]
  by (auto simp: completeWithdrawal_def throw_def ret_def served_refl intro: closed_served split: sum.splits if_splits)

text \<open>The row the sender works on is the current one.\<close>

lemma payout_log_ok: "wallet_ok s \<Longrightarrow> wallet_ok (s\<lparr>wl_payouts := x\<rparr>)"
  by (erule ok_frame) (simp_all add: polOf_def getUser_def)

lemma autoSend_served:
  assumes ok: "wallet_ok s" and m: "txById (wt_id x) s = Some x" and a: "wt_type x = ''withdrawal''" "wt_status x = ''approved''"
  shows "served s (autoSendOne send now x s)"
proof -
  have o: "isOpen (wt_userId x) x" using a by (simp add: isOpen_def)
  have "served (s\<lparr>wl_payouts := p\<rparr>) (updateTransactionStatus (wt_id x) ''completed'' h now (s\<lparr>wl_payouts := p\<rparr>))" for p h
    using m by (intro closed_served [OF payout_log_ok [OF ok] _ o]) (simp_all add: txById_def)
  moreover have "accounts (s\<lparr>wl_payouts := p\<rparr>) = accounts s" for p by (rule accounts_frame) (simp_all add: polOf_def getUser_def)
  ultimately have "served s (updateTransactionStatus (wt_id x) ''completed'' h now (s\<lparr>wl_payouts := p\<rparr>))" for p h
    by (simp add: served_def)
  then show ?thesis using served_refl [OF ok] by (auto simp: autoSendOne_def split: option.splits)
qed

subsection \<open>Submitted deposits\<close>

lemma submit_served:
  assumes ok: "wallet_ok s" and r: "submitDeposit dec8_of cfg u h c now s = (r, t)"
  shows "served s t"
proof -
  have n: "served s t" if "submitNew dec8_of u h c now s = (r, t)" for h c
  proof -
    let ?row = "(newTx (st_next s) u ''deposit'' (if 0 < c then dec8_of c else 0) ''pending_verification'' now)\<lparr>wt_txHash := Some h\<rparr>"
    have "t = s \<or> t = addTx ?row s" using that by (auto simp: submitNew_def throw_def ret_def Let_def split: if_splits)
    moreover have "wallet_ok (addTx ?row s)" by (intro ok_add [OF ok]) (simp_all add: newTx_def)
    moreover have "accounts (addTx ?row s) = accounts s"
      by (rule ext) (simp add: accounts_add newTx_def isOpen_def isPaid_def isIncome_def)
    ultimately show ?thesis using ok by (auto intro: served_refl served_idle)
  qed
  show ?thesis using r n ok
    by (auto simp: submitDeposit_def throw_def ret_def Let_def intro: served_refl split: option.splits if_splits)
qed

lemma verdict_min: "verifyVerdict cfg ch x s = Credit a \<Longrightarrow> wc_minDeposit cfg \<le> a"
  by (auto simp: verifyVerdict_def Let_def split: rpc.splits option.splits sum.splits if_splits)

context decimal_codec
begin

lemma verify_served:
  assumes ok: "wallet_ok s" and m: "txById (wt_id x) s = Some x" and x: "wt_type x = ''deposit''" "wt_status x = ''pending_verification''"
    and mn: "0 \<le> wc_minDeposit cfg"
  shows "served s (verifyOnePendingDeposit dec8_of cfg ch now x s)"
proof -
  have t: "x \<in> set (wl_txs s)" using txById_D [OF m] by simp
  define n where "n = wt_verifyAttempts x + 1"
  have retry: "served s (updTx (wt_id x) (\<lambda>t. t\<lparr>wt_verifyAttempts := n\<rparr>) s)"
    using x by (intro served_quiet [OF ok t]) (simp_all add: isOpen_def isPaid_def isIncome_def)
  have failed: "served s (updTx (wt_id x) (\<lambda>t. t\<lparr>wt_status := ''failed'', wt_verifyAttempts := n, wt_failReason := Some f\<rparr>) s)" for f
    using x by (intro served_quiet [OF ok t]) (simp_all add: isOpen_def isPaid_def isIncome_def)
  show ?thesis
  proof (cases "verifyVerdict cfg ch x s")
    case (Credit a)
    then have a: "0 \<le> dec8_of a" using verdict_min [OF Credit] mn by (intro codec_nonneg) simp
    let ?g = "\<lambda>t. t\<lparr>wt_status := ''completed'', wt_amount := dec8_of a, wt_completedAt := Some now, wt_verifyAttempts := n\<rparr>"
    let ?s1 = "updTx (wt_id x) ?g s"
    have "wallet_ok ?s1" using x by (intro quiet_update [OF ok t]) simp_all
    moreover have "acct_step (accounts s) (accounts (addPol (wt_userId x) (dec8_of a) ?s1))" if "polOf (wt_userId x) s \<noteq> None"
      using that x by (intro accounts_income a) (auto simp: accounts_update [OF ok t] isOpen_def isPaid_def isIncome_def)
    ultimately show ?thesis
      using retry by (auto simp: verifyOnePendingDeposit_def verifyWrite_def Credit Let_def served_def ok_addPol n_def getUser_pol)
  qed (use retry failed in \<open>simp_all add: verifyOnePendingDeposit_def verifyWrite_def Let_def n_def\<close>)
qed

end

text \<open>A row is left alone by the treatment of another.\<close>

lemma txById_updTx: "(\<And>r. wt_id (f r) = wt_id r) \<Longrightarrow> txById i (updTx j f s) = map_option (\<lambda>r. if i = j then f r else r) (txById i s)"
  unfolding txById_def wl_txs_frame by (rule find_update_key)

lemma txById_frame [simp]: "txById i (addPol u d s) = txById i s" "txById i (logCall c s) = txById i s"
  "txById i (notifyWallet u x s) = txById i s" "txById i (s\<lparr>wl_payouts := p\<rparr>) = txById i s"
  "txById i (addBlk u d s) = txById i s" "txById i (addLocked u d s) = txById i s"
  by (simp_all add: txById_def addBlk_def addLocked_def updUser_def)

lemma verify_other: "i \<noteq> wt_id x \<Longrightarrow> txById i (verifyOnePendingDeposit dec8_of cfg ch now x s) = txById i s"
  by (cases "verifyVerdict cfg ch x s") (simp_all add: verifyOnePendingDeposit_def verifyWrite_def Let_def txById_updTx option.map_ident)

lemma status_other: "i \<noteq> j \<Longrightarrow> txById i (updateTransactionStatus j st h now s) = txById i s"
  by (cases "txById j s") (simp_all add: updateTransactionStatus_def Let_def txById_updTx option.map_ident)

lemma send_other: "i \<noteq> wt_id x \<Longrightarrow> txById i (autoSendOne send now x s) = txById i s"
  by (auto simp: autoSendOne_def status_other split: option.split)

subsection \<open>The step relation\<close>

text \<open>
  One request or one row of a batch at a time: the row an automatic transfer or a verification works
  on is the current one.
\<close>

inductive wallet_step :: "(number \<Rightarrow> dec8) \<Rightarrow> wallet_config \<Rightarrow> wallet_store \<Rightarrow> wallet_store \<Rightarrow> bool"
  for dec8_of cfg where
  Address: "updateAddress recovered u a sig s = (r, t) \<Longrightarrow> wallet_step dec8_of cfg s t"
| PayoutMode: "setMiningPayoutMode u mode s = (r, t) \<Longrightarrow> wallet_step dec8_of cfg s t"
| Request: "requestDeposit dec8_of cfg ch u amount h now s = (r, t) \<Longrightarrow> wallet_step dec8_of cfg s t"
| Withdraw: "capped s \<Longrightarrow> requestWithdrawal dec8_of u amount a now s = (r, t) \<Longrightarrow> wallet_step dec8_of cfg s t"
| Approve: "approveWithdrawal w s = (r, t) \<Longrightarrow> wallet_step dec8_of cfg s t"
| Reject: "rejectWithdrawal w now s = (r, t) \<Longrightarrow> wallet_step dec8_of cfg s t"
| Complete: "completeWithdrawal w h now s = (r, t) \<Longrightarrow> wallet_step dec8_of cfg s t"
| Send: "txById (wt_id x) s = Some x \<Longrightarrow> wt_type x = ''withdrawal'' \<and> wt_status x = ''approved''
    \<Longrightarrow> wallet_step dec8_of cfg s (autoSendOne send now x s)"
| Submit: "submitDeposit dec8_of cfg u h c now s = (r, t) \<Longrightarrow> wallet_step dec8_of cfg s t"
| Verify: "txById (wt_id x) s = Some x \<Longrightarrow> wt_type x = ''deposit'' \<and> wt_status x = ''pending_verification''
    \<Longrightarrow> wallet_step dec8_of cfg s (verifyOnePendingDeposit dec8_of cfg ch now x s)"

context decimal_codec
begin

lemma step_served:
  assumes "wallet_step dec8_of cfg s t" and "wallet_ok s" and "0 \<le> wc_minDeposit cfg"
  shows "served s t"
  using assms
  by cases (auto intro: updateAddress_served payoutMode_served requestDeposit_served requestWithdrawal_served approve_served reject_served
      complete_served autoSend_served submit_served verify_served)

end

subsection \<open>Batches\<close>

lemma batch_steps:
  assumes step: "\<And>x s. current x s \<Longrightarrow> step s (f x s)" and other: "\<And>x y s. key y \<noteq> key x \<Longrightarrow> current y s \<Longrightarrow> current y (f x s)"
    and "distinct (map key xs)" and "\<And>x. x \<in> set xs \<Longrightarrow> current x s"
  shows "step\<^sup>*\<^sup>* s (fold f xs s)"
  using assms(3,4)
proof (induction xs arbitrary: s)
  case (Cons x xs)
  have "current y (f x s)" if "y \<in> set xs" for y
  proof (rule other)
    have "key y \<in> key ` set xs" "key x \<notin> key ` set xs" using that Cons.prems(1) by simp_all
    then show "key y \<noteq> key x" by metis
    show "current y s" using that Cons.prems(2) by simp
  qed
  then have "step\<^sup>*\<^sup>* (f x s) (fold f xs (f x s))" using Cons by simp
  moreover have "step s (f x s)" using Cons.prems(2) step by simp
  ultimately show ?case by (simp add: converse_rtranclp_into_rtranclp)
qed simp

lemma selected_rows:
  assumes "wallet_ok s"
  shows "distinct (map wt_id (sort_key wt_createdAt (filter P (wl_txs s))))"
    and "x \<in> set (sort_key wt_createdAt (filter P (wl_txs s))) \<Longrightarrow> txById (wt_id x) s = Some x \<and> P x"
proof -
  let ?xs = "sort_key wt_createdAt (filter P (wl_txs s))"
  have "distinct (wl_txs s)" "inj_on wt_id (set (wl_txs s))"
    using wallet_ok_unique [OF assms] by (simp_all add: unique_key_def distinct_map)
  then show "distinct (map wt_id ?xs)" by (auto simp: distinct_map intro: inj_on_subset)
  assume "x \<in> set ?xs"
  then have "x \<in> set (wl_txs s)" "P x" by auto
  then show "txById (wt_id x) s = Some x \<and> P x" using find_first_key [OF wallet_ok_unique [OF assms]] by (simp add: txById_def)
qed

lemma verifier_steps:
  assumes "wallet_ok s"
  shows "(wallet_step dec8_of cfg)\<^sup>*\<^sup>* s (runDepositVerifier dec8_of cfg ch now s)"
  unfolding runDepositVerifier_def
proof -
  let ?P = "\<lambda>t :: wallet_tx. wt_type t = ''deposit'' \<and> wt_status t = ''pending_verification''"
  let ?xs = "take 50 (sort_key wt_createdAt (filter ?P (wl_txs s)))"
  have "distinct (take 50 (map wt_id (sort_key wt_createdAt (filter ?P (wl_txs s)))))"
    by (intro distinct_take selected_rows(1) assms)
  then have d: "distinct (map wt_id ?xs)" by (simp only: take_map)
  have m: "txById (wt_id x) s = Some x \<and> ?P x" if "x \<in> set ?xs" for x
    using in_set_takeD [OF that] by (rule selected_rows(2) [OF assms])
  show "(wallet_step dec8_of cfg)\<^sup>*\<^sup>* s (fold (verifyOnePendingDeposit dec8_of cfg ch now) ?xs s)"
  proof (rule batch_steps [where key = wt_id and current = "\<lambda>x s. txById (wt_id x) s = Some x \<and> wt_type x = ''deposit'' \<and> wt_status x = ''pending_verification''"])
    show "wallet_step dec8_of cfg s (verifyOnePendingDeposit dec8_of cfg ch now x s)"
      if "txById (wt_id x) s = Some x \<and> wt_type x = ''deposit'' \<and> wt_status x = ''pending_verification''" for x s
      using that by (simp add: wallet_step.Verify)
  next
    fix x y :: wallet_tx and s
    assume ne: "wt_id y \<noteq> wt_id x" and "txById (wt_id y) s = Some y \<and> wt_type y = ''deposit'' \<and> wt_status y = ''pending_verification''"
    then show "txById (wt_id y) (verifyOnePendingDeposit dec8_of cfg ch now x s) = Some y \<and> wt_type y = ''deposit'' \<and> wt_status y = ''pending_verification''"
      unfolding verify_other [OF ne] by blast
  qed (rule d, rule m)
qed

lemma sender_steps:
  assumes "wallet_ok s"
  shows "(wallet_step dec8_of cfg)\<^sup>*\<^sup>* s (processPendingWithdrawals cfg send now s)"
proof -
  have "(wallet_step dec8_of cfg)\<^sup>*\<^sup>* s (fold (autoSendOne send now) (getApprovedWithdrawalsForAutoSend s) s)"
    unfolding getApprovedWithdrawalsForAutoSend_def
  proof (rule batch_steps [where key = wt_id and current = "\<lambda>x s. txById (wt_id x) s = Some x \<and> wt_type x = ''withdrawal'' \<and> wt_status x = ''approved''"])
    show "wallet_step dec8_of cfg s (autoSendOne send now x s)"
      if "txById (wt_id x) s = Some x \<and> wt_type x = ''withdrawal'' \<and> wt_status x = ''approved''" for x s
      using that by (simp add: wallet_step.Send)
  next
    fix x y :: wallet_tx and s
    assume ne: "wt_id y \<noteq> wt_id x" and "txById (wt_id y) s = Some y \<and> wt_type y = ''withdrawal'' \<and> wt_status y = ''approved''"
    then show "txById (wt_id y) (autoSendOne send now x s) = Some y \<and> wt_type y = ''withdrawal'' \<and> wt_status y = ''approved''"
      unfolding send_other [OF ne] by blast
  qed (rule selected_rows(1) [OF assms], rule selected_rows(2) [OF assms])
  then show ?thesis by (simp add: processPendingWithdrawals_def)
qed

subsection \<open>Refinement\<close>

text \<open>A machine whose steps, seen through a view of its state, are the steps of a specification.\<close>

locale simulation = machine init step inv
  for init step inv :: "_" +
  fixes astep :: "'a \<Rightarrow> 'a \<Rightarrow> bool"
    and view :: "'s \<Rightarrow> 'a"
  assumes sim: "inv s \<Longrightarrow> step s t \<Longrightarrow> astep (view s) (view t)"
begin

lemma path_sim: "step\<^sup>*\<^sup>* s t \<Longrightarrow> inv s \<Longrightarrow> astep\<^sup>*\<^sup>* (view s) (view t)"
proof (induction rule: rtranclp_induct)
  case (step t r)
  then show ?case using path_inv sim by (meson rtranclp.rtrancl_into_rtrancl)
qed simp

end

text \<open>A deployment: the column's decimals are a codec and the minimum deposit is not negative.\<close>

definition deployed :: "(number \<Rightarrow> dec8) \<Rightarrow> wallet_config \<Rightarrow> bool" where
  "deployed dec8_of cfg \<longleftrightarrow> decimal_codec dec8_of \<and> 0 \<le> wc_minDeposit cfg"

lemma deployed_step: "deployed dec8_of cfg \<and> wallet_ok s \<Longrightarrow> wallet_step dec8_of cfg s t \<Longrightarrow> served s t"
  unfolding deployed_def by (metis decimal_codec.step_served)

interpretation wallet: simulation "\<lambda>s. deployed dec8_of cfg \<and> wl_txs s = []" "wallet_step dec8_of cfg"
  "\<lambda>s. deployed dec8_of cfg \<and> wallet_ok s" acct_step accounts
  for dec8_of cfg
proof unfold_locales
  show "deployed dec8_of cfg \<and> wallet_ok s" if "deployed dec8_of cfg \<and> wl_txs s = []" for s
    using that by (simp add: wallet_ok_def)
  show "deployed dec8_of cfg \<and> wallet_ok t" if "deployed dec8_of cfg \<and> wallet_ok s" "wallet_step dec8_of cfg s t" for s t
    using deployed_step [OF that] that(1) by (simp add: served_def)
  show "acct_step (accounts s) (accounts t)" if "deployed dec8_of cfg \<and> wallet_ok s" "wallet_step dec8_of cfg s t" for s t
    using deployed_step [OF that] by (simp add: served_def)
qed

subsection \<open>What the accounts keep\<close>

definition worth :: "account \<Rightarrow> dec8" where
  "worth a = ac_available a + ac_reserved a + ac_paid a - ac_deposited a"

lemma acct_worth: "acct_step m n \<Longrightarrow> worth (n u) = worth (m u)"
  by (erule acct_stepE) (auto simp: worth_def)

lemma acct_nonneg: "acct_step m n \<Longrightarrow> (\<And>u. 0 \<le> ac_available (m u)) \<Longrightarrow> 0 \<le> ac_available (n u)"
  by (erule acct_stepE) auto

interpretation ledger: machine "\<lambda>m. \<forall>u. 0 \<le> ac_available (m u) \<and> worth (m u) = w u" acct_step
  "\<lambda>m. \<forall>u. 0 \<le> ac_available (m u) \<and> worth (m u) = w u"
  for w
  by unfold_locales (auto simp: acct_worth intro: acct_nonneg)

subsection \<open>Every deposit is settled\<close>

definition isUnverified :: "wallet_tx \<Rightarrow> bool" where
  "isUnverified t \<longleftrightarrow> wt_type t = ''deposit'' \<and> wt_status t = ''pending_verification''"

definition unverified :: "wallet_store \<Rightarrow> wallet_tx list" where
  "unverified s = filter isUnverified (wl_txs s)"

text \<open>A row after its verification: settled, or one attempt older.\<close>

definition aged :: "int \<Rightarrow> wallet_tx \<Rightarrow> bool" where
  "aged n t \<longleftrightarrow> (isUnverified t \<longrightarrow> n \<le> wt_verifyAttempts t \<and> n \<le> DEPOSIT_VERIFY_MAX_ATTEMPTS)"

lemma verify_row:
  assumes "txById (wt_id x) s = Some x"
  shows "\<exists>y. txById (wt_id x) (verifyOnePendingDeposit dec8_of cfg ch now x s) = Some y \<and> aged (wt_verifyAttempts x + 1) y"
proof (cases "verifyVerdict cfg ch x s")
  case Retry
  then have "wt_verifyAttempts x + 1 \<le> DEPOSIT_VERIFY_MAX_ATTEMPTS"
    by (auto simp: verifyVerdict_def Let_def split: if_splits)
  then show ?thesis using assms by (simp add: verifyOnePendingDeposit_def verifyWrite_def Let_def Retry txById_updTx aged_def)
next
  case (Fail r)
  then show ?thesis using assms by (simp add: verifyOnePendingDeposit_def verifyWrite_def Let_def txById_updTx aged_def isUnverified_def)
next
  case (Credit a)
  then have "wt_verifyAttempts x + 1 \<le> DEPOSIT_VERIFY_MAX_ATTEMPTS"
    by (auto simp: verifyVerdict_def Let_def split: if_splits)
  then show ?thesis
    using assms by (auto simp: verifyOnePendingDeposit_def verifyWrite_def Let_def Credit txById_updTx aged_def isUnverified_def)
qed

lemma verify_types: "map (\<lambda>t. (wt_id t, wt_type t)) (wl_txs (verifyOnePendingDeposit dec8_of cfg ch now x s)) = map (\<lambda>t. (wt_id t, wt_type t)) (wl_txs s)"
  by (auto simp: verifyOnePendingDeposit_def verifyWrite_def Let_def map_update_where split: verdict.split)

lemma verify_fold_types: "map (\<lambda>t. (wt_id t, wt_type t)) (wl_txs (fold (verifyOnePendingDeposit dec8_of cfg ch now) xs s))
    = map (\<lambda>t. (wt_id t, wt_type t)) (wl_txs s)"
  by (induction xs arbitrary: s) (simp_all add: verify_types)

lemma verify_fold_other:
  "(\<And>z. z \<in> set zs \<Longrightarrow> wt_id z \<noteq> i) \<Longrightarrow> txById i (fold (verifyOnePendingDeposit dec8_of cfg ch now) zs s) = txById i s"
proof (induction zs arbitrary: s)
  case (Cons z zs)
  have "i \<noteq> wt_id z" using Cons.prems [of z] by auto
  then have "txById i (verifyOnePendingDeposit dec8_of cfg ch now z s) = txById i s" by (rule verify_other)
  moreover have "txById i (fold (verifyOnePendingDeposit dec8_of cfg ch now) zs r) = txById i r" for r
    by (rule Cons.IH) (use Cons.prems in simp)
  ultimately show ?case by simp
qed simp

lemma verify_fold_rows:
  assumes "distinct (map wt_id xs)" and "\<And>x. x \<in> set xs \<Longrightarrow> txById (wt_id x) s = Some x" and "x \<in> set xs"
  shows "\<exists>y. txById (wt_id x) (fold (verifyOnePendingDeposit dec8_of cfg ch now) xs s) = Some y \<and> aged (wt_verifyAttempts x + 1) y"
  using assms
proof (induction xs arbitrary: s)
  case (Cons z zs)
  let ?s1 = "verifyOnePendingDeposit dec8_of cfg ch now z s"
  have ne: "wt_id w \<noteq> wt_id z" if "w \<in> set zs" for w using Cons.prems(1) that by (metis distinct.simps(2) image_eqI list.set_map list.simps(9))
  show ?case
  proof (cases "x = z")
    case True
    then have "txById (wt_id x) (fold (verifyOnePendingDeposit dec8_of cfg ch now) zs ?s1) = txById (wt_id x) ?s1"
      using ne by (intro verify_fold_other) simp
    then show ?thesis using verify_row [of x s dec8_of cfg ch now] Cons.prems(2) [of x] True by simp
  next
    case False
    have "txById (wt_id w) ?s1 = Some w" if "w \<in> set zs" for w
      using verify_other [OF ne [OF that]] Cons.prems(2) [of w] that by simp
    then show ?thesis using Cons.IH [of ?s1] Cons.prems(1,3) False by simp
  qed
qed simp

text \<open>What a round leaves: no new rows to verify, and each row left has one attempt more.\<close>

definition waiting :: "int \<Rightarrow> wallet_store \<Rightarrow> bool" where
  "waiting n s \<longleftrightarrow> unique_key wt_id (wl_txs s) \<and> length (unverified s) \<le> 50 \<and> (\<forall>t \<in> set (unverified s). n \<le> wt_verifyAttempts t \<and> n \<le> DEPOSIT_VERIFY_MAX_ATTEMPTS)"

lemma txs_key_eqD:
  assumes "map (\<lambda>t. (wt_id t, wt_type t)) ys = map (\<lambda>t. (wt_id t, wt_type t)) xs" and "y \<in> set ys"
  shows "\<exists>x \<in> set xs. wt_id x = wt_id y \<and> wt_type x = wt_type y"
proof -
  have "(wt_id y, wt_type y) \<in> set (map (\<lambda>t. (wt_id t, wt_type t)) ys)" using assms(2) by simp
  then have "(wt_id y, wt_type y) \<in> set (map (\<lambda>t. (wt_id t, wt_type t)) xs)" by (simp only: assms(1))
  then obtain x where "x \<in> set xs" "(wt_id y, wt_type y) = (wt_id x, wt_type x)" by auto
  then show ?thesis by (intro bexI [of _ x]) simp_all
qed

lemma round_waiting:
  assumes "waiting n s"
  shows "waiting (n + 1) (runDepositVerifier dec8_of cfg ch now s)"
proof -
  let ?t = "runDepositVerifier dec8_of cfg ch now s" and ?xs = "sort_key wt_createdAt (unverified s)"
  have u: "unique_key wt_id (wl_txs s)" and l: "length (unverified s) \<le> 50" using assms by (simp_all add: waiting_def)
  have t: "?t = fold (verifyOnePendingDeposit dec8_of cfg ch now) ?xs s"
    using l by (simp add: runDepositVerifier_def unverified_def isUnverified_def [abs_def])
  have k: "map (\<lambda>t. (wt_id t, wt_type t)) (wl_txs ?t) = map (\<lambda>t. (wt_id t, wt_type t)) (wl_txs s)"
    unfolding t by (rule verify_fold_types)
  have "map wt_id (wl_txs ?t) = map fst (map (\<lambda>t. (wt_id t, wt_type t)) (wl_txs ?t))" by simp
  also have "\<dots> = map wt_id (wl_txs s)" unfolding k by simp
  finally have ut: "unique_key wt_id (wl_txs ?t)" using u by (simp add: unique_key_def)
  have ids: "distinct (map wt_id (unverified r))" if "unique_key wt_id (wl_txs r)" for r
    using that unfolding unique_key_def unverified_def by (rule distinct_map_filter)
  have "distinct (unverified s)" "inj_on wt_id (set (unverified s))" using ids [OF u] by (simp_all add: distinct_map)
  then have d: "distinct (map wt_id ?xs)" by (simp add: distinct_map)
  have cur: "txById (wt_id x) s = Some x" if "x \<in> set (wl_txs s)" for x
    unfolding txById_def by (rule find_first_key [OF u that])
  have rows: "\<exists>x \<in> set (unverified s). wt_id x = wt_id y \<and> aged (wt_verifyAttempts x + 1) y" if y: "y \<in> set (unverified ?t)" for y
  proof -
    have yt: "txById (wt_id y) ?t = Some y" unfolding txById_def using y by (intro find_first_key [OF ut]) (simp add: unverified_def)
    obtain x where x: "x \<in> set (wl_txs s)" "wt_id x = wt_id y"
      using txs_key_eqD [OF k, of y] y by (auto simp: unverified_def)
    have "x \<in> set (unverified s)"
    proof (rule ccontr)
      assume nx: "x \<notin> set (unverified s)"
      have "wt_id z \<noteq> wt_id x" if "z \<in> set ?xs" for z
      proof
        assume e: "wt_id z = wt_id x"
        have z: "z \<in> set (unverified s)" using that by simp
        then have "z \<in> set (wl_txs s)" by (simp add: unverified_def)
        from unique_key_eqD [OF u this x(1) e] z nx show False by simp
      qed
      then have "txById (wt_id x) ?t = txById (wt_id x) s" unfolding t by (rule verify_fold_other)
      then have "y = x" using cur [OF x(1)] yt x(2) by (metis option.inject)
      then have "y \<in> set (wl_txs s)" "y \<notin> set (unverified s)" using x(1) nx by blast+
      moreover have "isUnverified y" using y by (simp add: unverified_def)
      ultimately show False by (simp add: unverified_def)
    qed
    moreover from this have "\<exists>y. txById (wt_id x) ?t = Some y \<and> aged (wt_verifyAttempts x + 1) y"
      unfolding t using cur by (intro verify_fold_rows [OF d]) (simp_all add: unverified_def)
    ultimately show ?thesis using x(2) yt by (metis option.inject)
  qed
  have "wt_id ` set (unverified ?t) \<subseteq> wt_id ` set (unverified s)"
    using rows by (metis (no_types, lifting) image_eqI image_subsetI)
  then have "card (set (map wt_id (unverified ?t))) \<le> card (set (map wt_id (unverified s)))"
    by (intro card_mono) simp_all
  then have "length (unverified ?t) \<le> length (unverified s)"
    by (simp only: distinct_card [OF ids [OF u]] distinct_card [OF ids [OF ut]] length_map)
  moreover have "n + 1 \<le> wt_verifyAttempts y \<and> n + 1 \<le> DEPOSIT_VERIFY_MAX_ATTEMPTS" if y: "y \<in> set (unverified ?t)" for y
  proof -
    obtain x where "x \<in> set (unverified s)" "aged (wt_verifyAttempts x + 1) y" using rows [OF y] by auto
    moreover have "isUnverified y" using y by (simp add: unverified_def)
    ultimately have "n \<le> wt_verifyAttempts x" "wt_verifyAttempts x + 1 \<le> wt_verifyAttempts y" "wt_verifyAttempts x + 1 \<le> DEPOSIT_VERIFY_MAX_ATTEMPTS"
      using assms by (auto simp: waiting_def aged_def)
    then show ?thesis by linarith
  qed
  ultimately show ?thesis using ut l by (simp add: waiting_def)
qed

lemma rounds_waiting:
  "waiting n s \<Longrightarrow> waiting (n + int (length rounds)) (fold (\<lambda>(ch, now). runDepositVerifier dec8_of cfg ch now) rounds s)"
proof (induction rounds arbitrary: n s)
  case (Cons r rounds)
  obtain ch now where r: "r = (ch, now)" by fastforce
  have "waiting (n + 1 + int (length rounds)) (fold (\<lambda>(ch, now). runDepositVerifier dec8_of cfg ch now) rounds (runDepositVerifier dec8_of cfg ch now s))"
    by (intro Cons.IH round_waiting Cons.prems)
  then show ?case by (simp add: r algebra_simps)
qed simp

lemma waiting_over:
  assumes "waiting n s" and "DEPOSIT_VERIFY_MAX_ATTEMPTS < n"
  shows "unverified s = []"
proof (rule ccontr)
  assume "unverified s \<noteq> []"
  then obtain t where "t \<in> set (unverified s)" by (cases "unverified s") auto
  with assms show False by (auto simp: waiting_def)
qed

end
