(* ===== verification/WalletClaims.thy ===== *)
theory WalletClaims
  imports WalletSteps
begin

section \<open>Properties of the wallet\<close>

subsection \<open>A wallet to try the properties on\<close>

text \<open>
  Two users with a hundred coins; user 1 has a withdrawal of 20 coins waiting and a submitted deposit.
  The chain knows one transfer of 50 coins to the deposit address, whatever the case of its hash.
\<close>

definition wallet_user :: "int \<Rightarrow> user" where
  "wallet_user i = \<lparr>usr_id = i, usr_name = ''u'', usr_username = None, usr_isBanned = False, usr_polBalance = 10000000000,
     usr_blkBalance = 0, usr_blkLocked = 0, usr_walletAddress = None, usr_miningPayoutMode = ''pol'', usr_refCode = None,
     usr_referredBy = None\<rparr>"

definition demo_withdrawal :: wallet_tx where
  "demo_withdrawal = (newTx 5 1 ''withdrawal'' 2000000000 ''pending'' 10)\<lparr>wt_fundsReserved := True, wt_address := Some ''0xb''\<rparr>"

definition demo_deposit :: wallet_tx where
  "demo_deposit = (newTx 6 1 ''deposit'' 0 ''pending_verification'' 20)\<lparr>wt_txHash := Some ''0xab''\<rparr>"

definition wallet_demo :: wallet_store where
  "wallet_demo = \<lparr>st_users = [wallet_user 1, wallet_user 2], st_games = [], st_gamePowers = [], st_ytPowers = [], st_gpuPowers = [],
     st_v2Powers = [], st_miners = [], st_eventMiners = [], st_owned = [], st_inventory = [], st_userMiners = [], st_audit = [],
     st_calls = [], st_next = 100, wl_txs = [demo_withdrawal, demo_deposit], wl_rewardLogs = [], wl_notifications = [], wl_payouts = []\<rparr>"

definition demo_chain :: chain where
  "demo_chain = \<lparr>ch_tx = (\<lambda>h. if toLowerCase h = ''0xab'' then RpcFound \<lparr>ct_to = Some ''0xd'', ct_from = Some ''0xf'', ct_chainId = 137,
       ct_value = 50 * 10 ^ 18\<rparr> else RpcNone),
     ch_receipt = (\<lambda>h. if toLowerCase h = ''0xab'' then RpcFound \<lparr>cr_status = 1, cr_block = 10, cr_logs = []\<rparr> else RpcNone), ch_head = Some 20\<rparr>"

definition wallet_cfg :: wallet_config where
  "wallet_cfg = \<lparr>wc_depositAddress = ''0xd'', wc_contract = '''', wc_minDeposit = getMinDepositPol (Some 1),
     wc_confirmations = getRequiredBlockConfirmations None, wc_autoSend = False\<rparr>"

lemma wallet_demo_ok: "wallet_ok wallet_demo"
  by (simp add: wallet_ok_def wallet_demo_def demo_withdrawal_def demo_deposit_def newTx_def unique_key_def polOf_def getUser_def
      wallet_user_def)

lemma wallet_demo_pol: "polOf u wallet_demo = (if u = 1 \<or> u = 2 then Some 10000000000 else None)"
  by (simp add: polOf_def getUser_def wallet_demo_def wallet_user_def)

subsection \<open>Refinement\<close>

text \<open>
  As long as requests are served one after the other the wallet is a set of accounts: every request,
  and every row a batch works on, moves the requested amount once between what a user can spend, what
  waits in withdrawals and what was paid out, or brings a deposit in.  No sequence of them changes
  available + reserved + paid - deposited, or makes a balance negative.
\<close>

lemma wallet_refines_accounts:
  assumes "decimal_codec dec8_of" and "0 \<le> wc_minDeposit cfg" and ok: "wallet_ok s" and path: "(wallet_step dec8_of cfg)\<^sup>*\<^sup>* s t"
    and nn: "\<And>u. 0 \<le> ac_available (accounts s u)"
  shows "acct_step\<^sup>*\<^sup>* (accounts s) (accounts t) \<and> wallet_ok t
    \<and> 0 \<le> ac_available (accounts t u) \<and> worth (accounts t u) = worth (accounts s u)"
proof -
  have d: "deployed dec8_of cfg \<and> wallet_ok s" using assms by (simp add: deployed_def)
  have p: "acct_step\<^sup>*\<^sup>* (accounts s) (accounts t)" using wallet.path_sim [OF path d] .
  moreover have "wallet_ok t" using wallet.path_inv [OF path d] by simp
  moreover have "0 \<le> ac_available (accounts t u) \<and> worth (accounts t u) = worth (accounts s u)"
    using ledger.path_inv [OF p, of "\<lambda>u. worth (accounts s u)"] nn by simp
  ultimately show ?thesis by simp
qed

text \<open>User 2 asks for a withdrawal of 30 coins.\<close>

definition demo_address :: string where
  "demo_address = ''0x0123456789abcdefABCDEF0123456789abcdef01''"

lemma wallet_refines_accounts_witness:
  "case requestWithdrawal round8_away 2 (Some 30) demo_address 50 wallet_demo of (r, t) \<Rightarrow>
     r = Inr ((newTx 100 2 ''withdrawal'' 3000000000 ''pending'' 50)\<lparr>wt_address := Some demo_address, wt_fundsReserved := True\<rparr>)
     \<and> acct_step\<^sup>*\<^sup>* (accounts wallet_demo) (accounts t) \<and> worth (accounts t 2) = worth (accounts wallet_demo 2)"
proof -
  obtain r t where rt: "requestWithdrawal round8_away 2 (Some 30) demo_address 50 wallet_demo = (r, t)" by fastforce
  have "fst (requestWithdrawal round8_away 2 (Some 30) demo_address 50 wallet_demo)
      = Inr ((newTx 100 2 ''withdrawal'' 3000000000 ''pending'' 50)\<lparr>wt_address := Some demo_address, wt_fundsReserved := True\<rparr>)"
    by code_simp
  moreover have "capped wallet_demo" by (simp add: capped_def wallet_demo_def wallet_user_def)
  then have p: "(wallet_step round8_away wallet_cfg)\<^sup>*\<^sup>* wallet_demo t"
    using wallet_step.Withdraw [OF _ rt] by blast
  have m: "0 \<le> wc_minDeposit wallet_cfg" by (simp add: wallet_cfg_def getMinDepositPol_def)
  have "0 \<le> ac_available (accounts wallet_demo u)" for u by (simp add: accounts_def wallet_demo_pol)
  with wallet_refines_accounts [OF pg.decimal_codec_axioms m wallet_demo_ok p, of 2] rt show ?thesis
    using calculation by simp
qed

subsection \<open>A review and its race\<close>

text \<open>
  Approving a withdrawal looks at the row and writes afterwards.  When a rejection commits in
  between, the coins are returned and the row is approved all the same: it can be rejected again, and
  the coins are returned a second time.
\<close>

lemma approve_after_reject_refunds_twice:
  assumes ok: "wallet_ok s" and i: "txById i s = Some t" and w: "wt_type t = ''withdrawal''" "wt_status t = ''pending''"
    and b: "polOf (wt_userId t) s = Some b"
    and "rejectWithdrawal (Some i) now s = (r1, s1)" and "approveWrite i s1 = (r2, s2)" and "rejectWithdrawal (Some i) now' s2 = (r3, s3)"
  shows "reviewable [''pending''] (Some i) s = Inr i \<and> r1 = Inr () \<and> r2 = Inr () \<and> r3 = Inr ()
    \<and> polOf (wt_userId t) s2 = Some (b + wt_amount t) \<and> map_option wt_status (txById i s2) = Some ''approved''
    \<and> polOf (wt_userId t) s3 = Some (b + 2 * wt_amount t)"
proof -
  have fr: "wt_fundsReserved t" using wallet_okD(2) [OF ok _ w(1)] txById_D [OF i] by blast
  have 1: "reviewable [''pending''] (Some i) s = Inr i" using i w by (simp add: reviewable_def)
  have s1: "r1 = Inr ()" "polOf (wt_userId t) s1 = Some (b + wt_amount t)" "txById i s1 = Some (t\<lparr>wt_status := ''failed''\<rparr>)"
    using assms(6) i w b fr by (auto simp: rejectWithdrawal_def reviewable_def ret_def updateTransactionStatus_def Let_def txById_updTx)
  have s2: "r2 = Inr ()" "polOf (wt_userId t) s2 = Some (b + wt_amount t)" "txById i s2 = Some (t\<lparr>wt_status := ''approved''\<rparr>)"
    using assms(7) s1 by (auto simp: approveWrite_def ret_def txById_updTx)
  have "r3 = Inr ()" "polOf (wt_userId t) s3 = Some (b + wt_amount t + wt_amount t)"
    using assms(8) s2 w fr by (auto simp: rejectWithdrawal_def reviewable_def ret_def updateTransactionStatus_def Let_def)
  with 1 s1 s2 show ?thesis by simp
qed

lemma approve_after_reject_refunds_twice_witness:
  "polOf 1 (snd (rejectWithdrawal (Some 5) 60 (snd (approveWrite 5 (snd (rejectWithdrawal (Some 5) 50 wallet_demo)))))) = Some 14000000000"
proof -
  define s1 where "s1 = snd (rejectWithdrawal (Some 5) 50 wallet_demo)"
  define s2 where "s2 = snd (approveWrite 5 s1)"
  have i: "txById 5 wallet_demo = Some demo_withdrawal" by (simp add: txById_def wallet_demo_def demo_withdrawal_def newTx_def)
  have w: "wt_type demo_withdrawal = ''withdrawal''" "wt_status demo_withdrawal = ''pending''" "polOf (wt_userId demo_withdrawal) wallet_demo = Some 10000000000"
    "wt_userId demo_withdrawal = 1" "wt_amount demo_withdrawal = 2000000000"
    by (simp_all add: demo_withdrawal_def newTx_def wallet_demo_pol)
  show ?thesis
    using approve_after_reject_refunds_twice [OF wallet_demo_ok i w(1,2,3), of 50 _ s1 _ s2 60 _ "snd (rejectWithdrawal (Some 5) 60 s2)"]
    by (simp add: w s1_def s2_def prod_eq_iff)
qed

subsection \<open>Verifying a deposit twice\<close>

lemma verify_credit:
  assumes "txById (wt_id x) s \<noteq> None" and "polOf (wt_userId x) s = Some b"
  shows "polOf (wt_userId x) (verifyWrite dec8_of x (Credit a) now s) = Some (b + dec8_of a)"
    and "map_option wt_status (txById (wt_id x) (verifyWrite dec8_of x (Credit a) now s)) = Some ''completed''"
  using assms by (auto simp: verifyWrite_def Let_def getUser_pol txById_updTx)

text \<open>
  The verifier credits a deposit without looking at the row again.  When a second round, or the
  verification a submission starts, has read the pending row before the first one committed, the
  deposit is credited twice; a round that starts after the commit leaves the row and the balance alone.
\<close>

lemma overlapping_verifications_credit_twice:
  assumes ok: "wallet_ok s" and x: "txById (wt_id x) s = Some x" and b: "polOf (wt_userId x) s = Some b"
    and c: "verifyVerdict cfg ch x s = Credit a" "verifyVerdict cfg ch' x s = Credit a'"
    and s1: "s1 = verifyOnePendingDeposit dec8_of cfg ch now x s"
  shows "polOf (wt_userId x) s1 = Some (b + dec8_of a)
    \<and> polOf (wt_userId x) (verifyWrite dec8_of x (verifyVerdict cfg ch' x s) now' s1) = Some (b + dec8_of a + dec8_of a')
    \<and> map_option wt_status (txById (wt_id x) (runDepositVerifier dec8_of cfg ch' now' s1)) = Some ''completed''"
proof -
  have e: "s1 = verifyWrite dec8_of x (Credit a) now s" by (simp add: s1 verifyOnePendingDeposit_def c)
  have 1: "polOf (wt_userId x) s1 = Some (b + dec8_of a)" and st: "map_option wt_status (txById (wt_id x) s1) = Some ''completed''"
    using verify_credit [of x s b] x b unfolding e by simp_all
  have t1: "txById (wt_id x) s1 \<noteq> None" using st by auto
  have 2: "polOf (wt_userId x) (verifyWrite dec8_of x (verifyVerdict cfg ch' x s) now' s1) = Some (b + dec8_of a + dec8_of a')"
    unfolding c using verify_credit(1) [OF t1 1] .
  let ?xs = "take 50 (sort_key wt_createdAt (filter (\<lambda>t. wt_type t = ''deposit'' \<and> wt_status t = ''pending_verification'') (wl_txs s1)))"
  have u: "unique_key wt_id (wl_txs s1)"
    using wallet_ok_unique [OF ok] x b unfolding e by (auto simp: verifyWrite_def Let_def getUser_pol)
  obtain y where y: "txById (wt_id x) s1 = Some y" "wt_status y = ''completed''" using st by auto
  have ne: "wt_id z \<noteq> wt_id x" if "z \<in> set ?xs" for z
  proof
    assume "wt_id z = wt_id x"
    have z: "z \<in> set (wl_txs s1)" "wt_status z = ''pending_verification''" using in_set_takeD [OF that] by auto
    have "y \<in> set (wl_txs s1)" "wt_id z = wt_id y" using txById_D [OF y(1)] \<open>wt_id z = wt_id x\<close> by metis+
    with u z(1) have "z = y" by (rule unique_key_eqD)
    with y(2) z(2) show False by simp
  qed
  have "txById (wt_id x) (fold (verifyOnePendingDeposit dec8_of cfg ch' now') ?xs s1) = txById (wt_id x) s1"
    using ne by (rule verify_fold_other)
  with st 1 2 show ?thesis by (simp add: runDepositVerifier_def)
qed

lemma overlapping_verifications_credit_twice_witness:
  "polOf 1 (verifyWrite round8_away demo_deposit (verifyVerdict wallet_cfg demo_chain demo_deposit wallet_demo) 70
     (verifyOnePendingDeposit round8_away wallet_cfg demo_chain 60 demo_deposit wallet_demo)) = Some 20000000000"
proof -
  have x: "txById (wt_id demo_deposit) wallet_demo = Some demo_deposit"
    by (simp add: txById_def wallet_demo_def demo_withdrawal_def demo_deposit_def newTx_def)
  have u: "wt_userId demo_deposit = 1" by (simp add: demo_deposit_def newTx_def)
  have v: "verifyVerdict wallet_cfg demo_chain demo_deposit wallet_demo = Credit 50" by code_simp
  have c: "round8_away 50 = 5000000000" by code_simp
  show ?thesis
    using overlapping_verifications_credit_twice [OF wallet_demo_ok x _ v v refl, where dec8_of = round8_away and now = 60 and now' = 70]
    by (simp add: u wallet_demo_pol c)
qed

subsection \<open>One transfer, several deposits\<close>

text \<open>
  C22: a deposit confirmed at once is looked up by the hash as it was typed, and nothing ties the
  transfer to the user.  A node answers for a hash in any mixture of upper and lower case, so the same
  transfer is credited again, to the same or to another user, for every other spelling.
\<close>

lemma respelled_hash_credited_again:
  assumes r: "requestDeposit dec8_of cfg ch u (Some a) h now s = (Inr row, s1)"
    and same: "ch_tx ch h' = ch_tx ch h" "ch_receipt ch h' = ch_receipt ch h"
    and h: "h' \<noteq> h" "h' \<noteq> ''''" "find_first (depositWith h') (wl_txs s) = None"
    and b: "polOf u s = Some b" "polOf v s = Some c"
  shows "\<exists>row2 s2. requestDeposit dec8_of cfg ch v (Some a) h' now' s1 = (Inr row2, s2) \<and> wt_id row2 \<noteq> wt_id row
    \<and> polOf v s2 = Some (c + dec8_of a + (if u = v then dec8_of a else 0))"
proof -
  have f: "find_first P xs = None \<longleftrightarrow> (\<forall>t \<in> set xs. \<not> P t)" for P and xs :: "wallet_tx list"
    by (induction xs) auto
  have checks: "depositChecks cfg ch a h' = depositChecks cfg ch a h" unfolding depositChecks_def same by (rule refl)
  let ?row = "(newTx (st_next s) u ''deposit'' (dec8_of a) ''completed'' now)\<lparr>wt_txHash := Some h, wt_completedAt := Some now\<rparr>"
  have x: "a \<noteq> 0" "\<not> a < wc_minDeposit cfg" and t: "createDepositTx dec8_of cfg ch u a h now s = (Inr row, s1)"
    using r by (auto simp: requestDeposit_def createDepositRequest_def throw_def transaction_Inr_iff split: if_splits)
  have ck: "depositChecks cfg ch a h = Inr ()" and row: "row = ?row"
    and s1: "s1 = notifyWallet u ''Deposito Confirmado'' (logCall (BalanceDelta u a) (addPol u (dec8_of a) (addTx ?row s)))"
    using t by (auto simp: createDepositTx_def throw_def ret_def Let_def split: if_splits sum.splits)
  have "find_first (depositWith h') (wl_txs s1) = None"
    using h by (simp add: f s1 depositWith_def newTx_def)
  moreover have p: "polOf v s1 = Some (c + (if u = v then dec8_of a else 0))" using b by (simp add: s1)
  moreover have "st_next s1 = st_next s + 1" by (simp add: s1)
  moreover have "getUser v s1 \<noteq> None" using p by (simp add: getUser_pol)
  ultimately show ?thesis using x h(2) ck row
    by (auto simp: requestDeposit_def createDepositRequest_def transaction_def createDepositTx_def checks ret_def Let_def newTx_def)
qed

lemma respelled_hash_credited_again_witness:
  "\<exists>row s1 row2 s2. requestDeposit round8_away wallet_cfg demo_chain 1 (Some 50) ''0xAB'' 60 (wallet_demo\<lparr>wl_txs := []\<rparr>) = (Inr row, s1)
     \<and> requestDeposit round8_away wallet_cfg demo_chain 2 (Some 50) ''0xaB'' 70 s1 = (Inr row2, s2) \<and> polOf 2 s2 = Some 15000000000"
proof -
  let ?s = "wallet_demo\<lparr>wl_txs := []\<rparr>"
  define o1 where "o1 = requestDeposit round8_away wallet_cfg demo_chain 1 (Some 50) ''0xAB'' 60 ?s"
  have "isl (fst o1) = False" unfolding o1_def by code_simp
  then obtain row s1 where r: "requestDeposit round8_away wallet_cfg demo_chain 1 (Some 50) ''0xAB'' 60 ?s = (Inr row, s1)"
    unfolding o1_def by (metis isl_def old.sum.exhaust prod.collapse)
  have p: "polOf u ?s = (if u = 1 \<or> u = 2 then Some 10000000000 else None)" for u
    using wallet_demo_pol [of u] by (simp add: polOf_def getUser_def)
  have l: "toLowerCase ''0xaB'' = ''0xab''" "toLowerCase ''0xAB'' = ''0xab''" by code_simp+
  have c: "round8_away 50 = 5000000000" by code_simp
  show ?thesis
    using respelled_hash_credited_again [OF r, of "''0xaB''" 10000000000 2 10000000000 70] r
    by (auto simp: demo_chain_def l p c)
qed

subsection \<open>No deposit waits for ever\<close>

text \<open>
  C23: whatever the node answers, failures included, 97 rounds of the verifier settle every deposit of a
  queue of up to 50: each ends completed or failed.
\<close>

lemma deposits_are_settled:
  assumes "wallet_ok s" and "length (unverified s) \<le> 50" and "\<And>t. t \<in> set (unverified s) \<Longrightarrow> 0 \<le> wt_verifyAttempts t"
    and "97 \<le> length rounds"
  shows "unverified (fold (\<lambda>(ch, now). runDepositVerifier dec8_of cfg ch now) rounds s) = []"
proof -
  have "waiting 0 s" using assms(1-3) by (simp add: waiting_def wallet_ok_unique DEPOSIT_VERIFY_MAX_ATTEMPTS_def)
  then have "waiting (0 + int (length rounds)) (fold (\<lambda>(ch, now). runDepositVerifier dec8_of cfg ch now) rounds s)"
    by (rule rounds_waiting)
  moreover have "DEPOSIT_VERIFY_MAX_ATTEMPTS < 0 + int (length rounds)"
    using assms(4) unfolding DEPOSIT_VERIFY_MAX_ATTEMPTS_def by linarith
  ultimately show ?thesis by (rule waiting_over)
qed

text \<open>A node that never answers: the waiting deposit of the demo is given up.\<close>

definition dead_chain :: chain where
  "dead_chain = \<lparr>ch_tx = (\<lambda>h. RpcError), ch_receipt = (\<lambda>h. RpcError), ch_head = None\<rparr>"

lemma deposits_are_settled_witness:
  "unverified wallet_demo = [demo_deposit]
    \<and> unverified (fold (\<lambda>(ch, now). runDepositVerifier round8_away wallet_cfg ch now) (replicate 97 (dead_chain, 60)) wallet_demo) = []"
proof -
  have u: "unverified wallet_demo = [demo_deposit]"
    by (simp add: unverified_def isUnverified_def wallet_demo_def demo_withdrawal_def demo_deposit_def newTx_def)
  have a: "wt_verifyAttempts demo_deposit = 0" by (simp add: demo_deposit_def newTx_def)
  show ?thesis using deposits_are_settled [OF wallet_demo_ok, of "replicate 97 (dead_chain, 60)" round8_away wallet_cfg] by (simp add: u a)
qed

end
