(* ===== verification/Checkin.thy ===== *)
theory Checkin
  imports Wallet MiniPass DailyTasks "HOL-Library.List_Lexorder" "HOL-Library.Char_ord"
begin

section \<open>Daily check-in\<close>

text \<open>
  \<open>server/controllers/checkinController.js\<close>, \<open>services/checkinChain.js\<close>,
  \<open>services/checkinMilestoneService.js\<close>, \<open>utils/checkinStreak.js\<close> and \<open>utils/checkinDate.js\<close>: one row
  per user and Brazilian day, free or paid on chain, the streak of days and its milestones.  SHA-256 is
  the argument \<open>sha\<close> (hexadecimal digest of a string), the zone the argument \<open>brazilDay\<close>.
\<close>

record checkin_row =
  ck_id :: int
  ck_userId :: int
  ck_checkinDate :: string
  ck_createdAt :: millis
  ck_confirmedAt :: "millis option"
  ck_txHash :: string
  ck_status :: string
  ck_amount :: number

record streak_milestone =
  sm_id :: int
  sm_dayThreshold :: int
  sm_rewardType :: string
  sm_rewardValue :: dec8
  sm_validityDays :: int
  sm_active :: bool
  sm_sortOrder :: int

record streak_claim =
  sc_userId :: int
  sc_milestoneId :: int
  sc_streak :: int
  sc_createdAt :: millis

text \<open>The check-in tables beside those of the quests, which a confirmed check-in feeds.\<close>

record checkin_store =
  ci_db :: quest_store
  ci_rows :: "checkin_row list"
  ci_milestones :: "streak_milestone list"
  ci_claims :: "streak_claim list"
  ci_next :: int

datatype checkin_error =
  PaymentOff | BadHash | NoWallet | HashOfOther | HashOfOtherDay | BadPayment string | AlreadyToday | BalanceDisabled | CheckinServerError

subsection \<open>Days\<close>

text \<open>\<open>Date.UTC(Y, M - 1, D)\<close> as a day.\<close>

definition utcDay :: "int \<Rightarrow> int \<Rightarrow> int \<Rightarrow> int" where
  "utcDay y m d = jan1 y + sum_list (take (nat (m - 1)) (monthLengths y)) + d - 1"

definition addDaysToBrazilDateKey :: "(millis \<Rightarrow> int) \<Rightarrow> string \<Rightarrow> int \<Rightarrow> string" where
  "addDaysToBrazilDateKey brazilDay key deltaDays =
     (case splitOn (CHR ''-'') key of
        [y, m, d] \<Rightarrow>
          (let noonBrUtc = utcDay (parseDigits y) (parseDigits m) (parseDigits d) * MS_PER_DAY + 54000000
           in dateKey (brazilDay (noonBrUtc + deltaDays * 86400000)))
      | _ \<Rightarrow> ''Invalid Date'')"

subsection \<open>Streaks\<close>

partial_function (option) streakLoop :: "(millis \<Rightarrow> int) \<Rightarrow> string list \<Rightarrow> string \<Rightarrow> int \<Rightarrow> int option" where
  "streakLoop brazilDay dates cursor streak =
     (if cursor \<in> set dates then streakLoop brazilDay dates (addDaysToBrazilDateKey brazilDay cursor (- 1)) (streak + 1)
      else Some streak)"

declare streakLoop.simps [code]

definition isConfirmedOf :: "int \<Rightarrow> checkin_row \<Rightarrow> bool" where
  "isConfirmedOf userId r \<longleftrightarrow> ck_userId r = userId \<and> ck_status r = ''confirmed''"

definition confirmedDates :: "int \<Rightarrow> checkin_store \<Rightarrow> string list" where
  "confirmedDates userId s = map ck_checkinDate (filter (isConfirmedOf userId) (ci_rows s))"

text \<open>\<open>None\<close>: the loop does not end.\<close>

definition computeCheckinStreak :: "(millis \<Rightarrow> int) \<Rightarrow> millis \<Rightarrow> int \<Rightarrow> checkin_store \<Rightarrow> int option" where
  "computeCheckinStreak brazilDay now userId s =
     (let dates = confirmedDates userId s; today = getBrazilCheckinDateKey brazilDay now
      in if today \<in> set dates then streakLoop brazilDay dates today 0
         else let cursor = addDaysToBrazilDateKey brazilDay today (- 1)
              in if cursor \<notin> set dates then Some 0 else streakLoop brazilDay dates cursor 0)"

subsection \<open>Milestones\<close>

definition CHECKIN_BONUS_GAME_SLUG :: string where "CHECKIN_BONUS_GAME_SLUG = ''checkin-streak-bonus''"

text \<open>\<open>orderBy: [{ sortOrder: "asc" }, { dayThreshold: "asc" }]\<close> of the active ones.\<close>

definition activeMilestones :: "checkin_store \<Rightarrow> streak_milestone list" where
  "activeMilestones s = sort_key sm_sortOrder (sort_key sm_dayThreshold (filter sm_active (ci_milestones s)))"

definition claimsOf :: "int \<Rightarrow> checkin_store \<Rightarrow> streak_claim list" where
  "claimsOf userId s = filter (\<lambda>c. sc_userId c = userId) (ci_claims s)"

definition isClaimOf :: "int \<Rightarrow> int \<Rightarrow> streak_claim \<Rightarrow> bool" where
  "isClaimOf userId milestoneId c \<longleftrightarrow> sc_userId c = userId \<and> sc_milestoneId c = milestoneId"

text \<open>
  The transaction of one milestone: the unique index on user and milestone refuses a second claim, the
  reference to the user a claim of nobody.
\<close>

definition milestoneReward :: "(number \<Rightarrow> dec8) \<Rightarrow> int \<Rightarrow> streak_milestone \<Rightarrow> millis \<Rightarrow> quest_store \<Rightarrow> quest_store" where
  "milestoneReward dec8_of userId m now db =
     (let rewardType = toLowerCase (if sm_rewardType m = '''' then ''none'' else sm_rewardType m); value = toNumber (sm_rewardValue m)
      in if rewardType = ''pol'' \<and> 0 < value then addPol userId (dec8_of value) db
         else if rewardType = ''hashrate'' \<and> 0 < value then
           (let (gameId, db1) = upsertGame CHECKIN_BONUS_GAME_SLUG ''Check-in streak bonus'' db;
                days = max 1 (if sm_validityDays m = 0 then 7 else sm_validityDays m)
            in createPowerGame userId gameId value now (now + days * MS_PER_DAY) db1)
         else db)"

definition milestoneTx :: "(number \<Rightarrow> dec8) \<Rightarrow> int \<Rightarrow> int \<Rightarrow> streak_milestone \<Rightarrow> millis \<Rightarrow> checkin_store \<Rightarrow> bool \<times> checkin_store" where
  "milestoneTx dec8_of userId streak m now s =
     (if find_first (isClaimOf userId (sm_id m)) (ci_claims s) \<noteq> None \<or> getUser userId (ci_db s) = None then (False, s)
      else (True, s\<lparr>ci_db := milestoneReward dec8_of userId m now (ci_db s),
              ci_claims := ci_claims s @ [\<lparr>sc_userId = userId, sc_milestoneId = sm_id m, sc_streak = streak, sc_createdAt = now\<rparr>]\<rparr>))"

text \<open>The flag: some power was granted and the engine has to reload the miner.\<close>

definition grantMilestone :: "(number \<Rightarrow> dec8) \<Rightarrow> int \<Rightarrow> int \<Rightarrow> int list \<Rightarrow> millis \<Rightarrow> bool \<times> checkin_store \<Rightarrow> streak_milestone \<Rightarrow> bool \<times> checkin_store" where
  "grantMilestone dec8_of userId streak claimed now x m =
     (let (reload, s) = x
      in if streak < sm_dayThreshold m \<or> sm_id m \<in> set claimed then x
         else let (granted, t) = milestoneTx dec8_of userId streak m now s
              in (reload \<or> granted \<and> toLowerCase (sm_rewardType m) = ''hashrate'' \<and> 0 < sm_rewardValue m, t))"

definition grantMilestones :: "(number \<Rightarrow> dec8) \<Rightarrow> int \<Rightarrow> int \<Rightarrow> millis \<Rightarrow> checkin_store \<Rightarrow> checkin_store" where
  "grantMilestones dec8_of userId streak now s =
     (let (reload, t) = foldl (grantMilestone dec8_of userId streak (map sc_milestoneId (claimsOf userId s)) now) (False, s) (activeMilestones s)
      in if reload then t\<lparr>ci_db := logCall (ReloadProfile userId) (ci_db t)\<rparr> else t)"

definition applyStreakMilestoneRewards ::
  "(number \<Rightarrow> dec8) \<Rightarrow> (millis \<Rightarrow> int) \<Rightarrow> int \<Rightarrow> millis \<Rightarrow> checkin_store \<Rightarrow> checkin_store option" where
  "applyStreakMilestoneRewards dec8_of brazilDay userId now s =
     map_option (\<lambda>streak. grantMilestones dec8_of userId streak now s) (computeCheckinStreak brazilDay now userId s)"

record milestone_view =
  mv_id :: int
  mv_state :: string
  mv_rewardValue :: number
  mv_claimedAt :: "millis option"

definition buildMilestoneStatusForUser :: "int \<Rightarrow> int \<Rightarrow> checkin_store \<Rightarrow> milestone_view list" where
  "buildMilestoneStatusForUser userId streak s =
     map (\<lambda>m. let claim = find_first (isClaimOf userId (sm_id m)) (ci_claims s)
       in \<lparr>mv_id = sm_id m,
           mv_state = (if claim \<noteq> None then ''claimed'' else if sm_dayThreshold m \<le> streak then ''eligible'' else ''locked''),
           mv_rewardValue = toNumber (sm_rewardValue m), mv_claimedAt = map_option sc_createdAt claim\<rparr>) (activeMilestones s)"

end
