(* ===== verification/CheckinFlow.thy ===== *)
theory CheckinFlow
  imports Checkin
begin

section \<open>The check-in handlers\<close>

text \<open>
  A handler that asks the chain is split there: the payment is an argument of what it writes
  afterwards.  The hooks of a confirmed check-in run at once; \<open>None\<close> is a streak that does not end.
\<close>

record checkin_env =
  ce_sha :: "string \<Rightarrow> string"
  ce_brazilDay :: "millis \<Rightarrow> int"
  ce_dec8_of :: "number \<Rightarrow> dec8"
  ce_keeps :: bool
  ce_receiver :: string
  ce_minWei :: int

subsection \<open>Payments\<close>

definition ZERO_ADDR :: string where "ZERO_ADDR = ''0x0000000000000000000000000000000000000000''"

definition resolveCheckinReceiverFromEnv :: "string \<Rightarrow> string \<Rightarrow> string" where
  "resolveCheckinReceiverFromEnv checkinReceiver depositWallet =
     (case find_first (\<lambda>r. r \<noteq> '''' \<and> toLowerCase r \<noteq> ZERO_ADDR) [trim checkinReceiver, trim depositWallet] of
        Some r \<Rightarrow> r | None \<Rightarrow> '''')"

definition syntheticFreeTxHash :: "checkin_env \<Rightarrow> int \<Rightarrow> string \<Rightarrow> string" where
  "syntheticFreeTxHash env userId checkinDate =
     ''0x'' @ ce_sha env (''bm-free-checkin|'' @ show_int userId @ ''|'' @ checkinDate)"

definition isFreeSyntheticTx :: "checkin_env \<Rightarrow> string \<Rightarrow> int \<Rightarrow> string \<Rightarrow> bool" where
  "isFreeSyntheticTx env txHash userId checkinDate \<longleftrightarrow> txHash \<noteq> '''' \<and> txHash = syntheticFreeTxHash env userId checkinDate"

definition normalizeAddr :: "string option \<Rightarrow> string" where
  "normalizeAddr a = (case a of None \<Rightarrow> '''' | Some x \<Rightarrow> toLowerCase (trim x))"

text \<open>The two sources, and whether the first has a key; a receipt is whether it succeeded.\<close>

record checkin_tx =
  xt_from :: "string option"
  xt_to :: "string option"
  xt_value :: "int option"

record checkin_chain =
  cx_apiKey :: bool
  cx_scanTx :: "string \<Rightarrow> checkin_tx rpc"
  cx_rpcTx :: "string \<Rightarrow> checkin_tx rpc"
  cx_scanReceipt :: "string \<Rightarrow> bool rpc"
  cx_rpcReceipt :: "string \<Rightarrow> bool rpc"

definition getTxWithFallback :: "checkin_chain \<Rightarrow> string \<Rightarrow> checkin_tx rpc \<times> bool" where
  "getTxWithFallback ch h =
     (if cx_apiKey ch then (case cx_scanTx ch h of RpcError \<Rightarrow> (cx_rpcTx ch h, False) | r \<Rightarrow> (r, True)) else (cx_rpcTx ch h, False))"

definition getReceiptWithFallback :: "checkin_chain \<Rightarrow> string \<Rightarrow> bool \<Rightarrow> bool rpc" where
  "getReceiptWithFallback ch h scanned =
     (if scanned \<and> cx_apiKey ch then (case cx_scanReceipt ch h of RpcError \<Rightarrow> cx_rpcReceipt ch h | r \<Rightarrow> r) else cx_rpcReceipt ch h)"

datatype payment = PayUnavailable | PayPending | PayFailed string | PayConfirmed

definition evaluateCheckinTx :: "checkin_chain \<Rightarrow> string \<Rightarrow> string \<Rightarrow> string \<Rightarrow> int \<Rightarrow> payment" where
  "evaluateCheckinTx ch h userWalletLower receiverLower minValueWei =
     (case getTxWithFallback ch h of
        (RpcError, _) \<Rightarrow> PayUnavailable
      | (RpcNone, _) \<Rightarrow> PayPending
      | (RpcFound tx, scanned) \<Rightarrow>
          (let to_l = normalizeAddr (xt_to tx)
           in if normalizeAddr (xt_from tx) \<noteq> userWalletLower then PayFailed ''sender''
              else if to_l = '''' \<or> to_l = ZERO_ADDR then PayFailed ''recipient''
              else if to_l \<noteq> receiverLower then PayFailed ''destination''
              else case xt_value tx of None \<Rightarrow> PayFailed ''value''
              | Some v \<Rightarrow>
                  if v < minValueWei then PayFailed ''amount''
                  else case getReceiptWithFallback ch h scanned of
                    RpcError \<Rightarrow> PayUnavailable | RpcNone \<Rightarrow> PayPending
                  | RpcFound success \<Rightarrow> if success then PayConfirmed else PayFailed ''reverted''))"

definition paidAmount :: "checkin_env \<Rightarrow> number" where
  "paidAmount env = fl (fl (of_int (ce_minWei env)) / 10 ^ 18)"

subsection \<open>Rows\<close>

definition isRowOf :: "int \<Rightarrow> string \<Rightarrow> checkin_row \<Rightarrow> bool" where
  "isRowOf userId checkinDate r \<longleftrightarrow> ck_userId r = userId \<and> ck_checkinDate r = checkinDate"

definition getTodayRow :: "int \<Rightarrow> string \<Rightarrow> checkin_store \<Rightarrow> checkin_row option" where
  "getTodayRow userId today s = find_first (isRowOf userId today) (ci_rows s)"

definition updRow :: "int \<Rightarrow> (checkin_row \<Rightarrow> checkin_row) \<Rightarrow> checkin_store \<Rightarrow> checkin_store" where
  "updRow i f s = s\<lparr>ci_rows := update_where (\<lambda>r. ck_id r = i) f (ci_rows s)\<rparr>"

definition rowWithHash :: "string \<Rightarrow> checkin_store \<Rightarrow> checkin_row option" where
  "rowWithHash h s = find_first (\<lambda>r. ck_txHash r = h) (ci_rows s)"

text \<open>\<open>upsert\<close> with a hash: \<open>None\<close> when the unique index on \<open>tx_hash\<close> or the reference to the user fails.\<close>

definition upsertCheckin ::
  "int \<Rightarrow> string \<Rightarrow> string \<Rightarrow> millis \<Rightarrow> (checkin_row \<Rightarrow> checkin_row) \<Rightarrow> checkin_store \<Rightarrow> checkin_store option" where
  "upsertCheckin userId today h now f s =
     (let f' = (\<lambda>r. f (r\<lparr>ck_txHash := h\<rparr>)) in
      case getTodayRow userId today s of
        Some r \<Rightarrow>
          if (case rowWithHash h s of None \<Rightarrow> False | Some q \<Rightarrow> ck_id q \<noteq> ck_id r) then None else Some (updRow (ck_id r) f' s)
      | None \<Rightarrow>
          if rowWithHash h s \<noteq> None \<or> getUser userId (ci_db s) = None then None
          else Some (s\<lparr>ci_rows := ci_rows s @ [f' \<lparr>ck_id = ci_next s, ck_userId = userId, ck_checkinDate = today, ck_createdAt = now,
                  ck_confirmedAt = None, ck_txHash = h, ck_status = ''pending'', ck_amount = 0\<rparr>], ci_next := ci_next s + 1\<rparr>))"

definition markConfirmed :: "number \<Rightarrow> millis \<Rightarrow> checkin_row \<Rightarrow> checkin_row" where
  "markConfirmed amount now r = r\<lparr>ck_status := ''confirmed'', ck_confirmedAt := Some now, ck_amount := amount\<rparr>"

definition loadRecentHistory :: "int \<Rightarrow> checkin_store \<Rightarrow> (string \<times> millis option) list" where
  "loadRecentHistory userId s =
     map (\<lambda>r. (ck_checkinDate r, ck_confirmedAt r)) (take 21 (rev (sort_key ck_checkinDate (filter (isConfirmedOf userId) (ci_rows s)))))"

definition afterConfirm :: "checkin_env \<Rightarrow> int \<Rightarrow> string \<Rightarrow> millis \<Rightarrow> checkin_store \<Rightarrow> checkin_store option" where
  "afterConfirm env userId checkinDate now s =
     map_option (\<lambda>t. t\<lparr>ci_db := notifyDailyTaskLoginDay (ce_dec8_of env) (ce_brazilDay env) userId checkinDate now
         (snd (notifyMiniPassLoginDay (ce_dec8_of env) (ce_brazilDay env) (ce_keeps env) userId checkinDate now (ci_db t)))\<rparr>)
       (applyStreakMilestoneRewards (ce_dec8_of env) (ce_brazilDay env) userId now s)"

subsection \<open>Finishing pending rows\<close>

definition linkedWallet :: "int \<Rightarrow> checkin_store \<Rightarrow> string" where
  "linkedWallet userId s = (case getUser userId (ci_db s) of None \<Rightarrow> '''' | Some u \<Rightarrow> (case usr_walletAddress u of None \<Rightarrow> '''' | Some w \<Rightarrow> w))"

definition finalizeEval :: "checkin_env \<Rightarrow> checkin_chain \<Rightarrow> checkin_row \<Rightarrow> checkin_store \<Rightarrow> payment" where
  "finalizeEval env ch row s =
     (if ck_status row \<noteq> ''pending'' \<or> isFreeSyntheticTx env (ck_txHash row) (ck_userId row) (ck_checkinDate row)
         \<or> linkedWallet (ck_userId row) s = '''' \<or> ce_receiver env = '''' \<or> toLowerCase (ce_receiver env) = ZERO_ADDR
      then PayUnavailable
      else evaluateCheckinTx ch (ck_txHash row) (normalizeAddr (Some (linkedWallet (ck_userId row) s))) (normalizeAddr (Some (ce_receiver env)))
             (ce_minWei env))"

definition finalizeWrite :: "checkin_env \<Rightarrow> payment \<Rightarrow> checkin_row \<Rightarrow> millis \<Rightarrow> checkin_store \<Rightarrow> checkin_store option" where
  "finalizeWrite env p row now s =
     (case p of
        PayConfirmed \<Rightarrow> afterConfirm env (ck_userId row) (ck_checkinDate row) now (updRow (ck_id row) (markConfirmed (paidAmount env) now) s)
      | PayFailed _ \<Rightarrow> Some (updRow (ck_id row) (\<lambda>r. r\<lparr>ck_status := ''failed''\<rparr>) s)
      | _ \<Rightarrow> Some s)"

definition tryFinalizeCheckinRow :: "checkin_env \<Rightarrow> checkin_chain \<Rightarrow> checkin_row \<Rightarrow> millis \<Rightarrow> checkin_store \<Rightarrow> checkin_store option" where
  "tryFinalizeCheckinRow env ch row now s = finalizeWrite env (finalizeEval env ch row s) row now s"

definition tryFinalizeTodayCheckin :: "checkin_env \<Rightarrow> checkin_chain \<Rightarrow> int \<Rightarrow> millis \<Rightarrow> checkin_store \<Rightarrow> checkin_store option" where
  "tryFinalizeTodayCheckin env ch userId now s =
     (case getTodayRow userId (getBrazilCheckinDateKey (ce_brazilDay env) now) s of None \<Rightarrow> Some s
      | Some row \<Rightarrow> if ck_status row \<noteq> ''pending'' \<or> linkedWallet userId s = '''' then Some s else tryFinalizeCheckinRow env ch row now s)"

fun finalizeRows :: "checkin_env \<Rightarrow> checkin_chain \<Rightarrow> millis \<Rightarrow> checkin_row list \<Rightarrow> checkin_store \<Rightarrow> checkin_store option" where
  "finalizeRows env ch now [] s = Some s"
| "finalizeRows env ch now (row # rows) s =
     (if isFreeSyntheticTx env (ck_txHash row) (ck_userId row) (ck_checkinDate row) then finalizeRows env ch now rows s
      else case tryFinalizeCheckinRow env ch row now s of None \<Rightarrow> None | Some t \<Rightarrow> finalizeRows env ch now rows t)"

definition processStalePendingCheckins :: "checkin_env \<Rightarrow> checkin_chain \<Rightarrow> millis \<Rightarrow> checkin_store \<Rightarrow> checkin_store option" where
  "processStalePendingCheckins env ch now s =
     finalizeRows env ch now
       (take 40 (sort_key ck_createdAt (filter (\<lambda>r. ck_status r = ''pending'' \<and> now - 72 * 3600000 \<le> ck_createdAt r) (ci_rows s)))) s"

subsection \<open>Handlers\<close>

text \<open>\<open>CheckedIn\<close> carries the streak and the history where the handler answers them.\<close>

datatype checkin_answer =
  AlreadyCheckedIn "(int \<times> (string \<times> millis option) list) option"
| CheckedIn "(int \<times> (string \<times> millis option) list) option"
| CheckinPending

type_synonym checkin_result = "((checkin_error + checkin_answer) \<times> checkin_store) option"

definition streakAnd :: "checkin_env \<Rightarrow> int \<Rightarrow> millis \<Rightarrow> ((int \<times> (string \<times> millis option) list) option \<Rightarrow> checkin_answer) \<Rightarrow> checkin_store \<Rightarrow> checkin_result" where
  "streakAnd env userId now answer s =
     map_option (\<lambda>streak. (Inr (answer (Some (streak, loadRecentHistory userId s))), s))
       (computeCheckinStreak (ce_brazilDay env) now userId s)"

definition claimCheckin :: "checkin_env \<Rightarrow> int \<Rightarrow> millis \<Rightarrow> checkin_store \<Rightarrow> checkin_result" where
  "claimCheckin env userId now s =
     (let today = getBrazilCheckinDateKey (ce_brazilDay env) now; txHash = syntheticFreeTxHash env userId today
      in if map_option ck_status (getTodayRow userId today s) = Some ''confirmed'' then streakAnd env userId now AlreadyCheckedIn s
         else case upsertCheckin userId today txHash now (markConfirmed 0 now) s of
           None \<Rightarrow> Some (Inl CheckinServerError, s)
         | Some t \<Rightarrow> (case afterConfirm env userId today now t of None \<Rightarrow> None | Some t' \<Rightarrow> streakAnd env userId now CheckedIn t'))"

text \<open>\<open>confirmCheckin\<close> until it asks the chain: refused, answered, or the hash to evaluate.\<close>

definition confirmStart ::
  "checkin_env \<Rightarrow> int \<Rightarrow> string \<Rightarrow> millis \<Rightarrow> checkin_store \<Rightarrow> (checkin_error + checkin_answer + string) \<times> checkin_store" where
  "confirmStart env userId rawHash now s =
     (let txHash = trim rawHash; today = getBrazilCheckinDateKey (ce_brazilDay env) now
      in if ce_receiver env = '''' then (Inl PaymentOff, s)
         else if \<not> isHexString 64 txHash then (Inl BadHash, s)
         else if trim (linkedWallet userId s) = '''' then (Inl NoWallet, s)
         else if map_option ck_status (getTodayRow userId today s) = Some ''confirmed'' then (Inr (Inl (AlreadyCheckedIn None)), s)
         else case rowWithHash txHash s of
           Some dup \<Rightarrow>
             (if ck_userId dup \<noteq> userId then (Inl HashOfOther, s)
              else if ck_checkinDate dup \<noteq> today then (Inl HashOfOtherDay, s)
              else (Inr (Inr txHash), updRow (ck_id dup) (\<lambda>r. r\<lparr>ck_status := ''pending'', ck_confirmedAt := None\<rparr>) s))
         | None \<Rightarrow>
             (case upsertCheckin userId today txHash now
                 (\<lambda>r. if getTodayRow userId today s = None then r\<lparr>ck_amount := paidAmount env\<rparr>
                      else r\<lparr>ck_status := ''pending'', ck_confirmedAt := None\<rparr>) s of
                None \<Rightarrow> (Inl CheckinServerError, s) | Some t \<Rightarrow> (Inr (Inr txHash), t)))"

definition confirmFinish :: "checkin_env \<Rightarrow> payment \<Rightarrow> int \<Rightarrow> string \<Rightarrow> millis \<Rightarrow> checkin_store \<Rightarrow> checkin_result" where
  "confirmFinish env p userId today now s =
     (case p of
        PayUnavailable \<Rightarrow> Some (Inr CheckinPending, s)
      | PayPending \<Rightarrow> Some (Inr CheckinPending, s)
      | PayFailed reason \<Rightarrow>
          Some (Inl (BadPayment reason), s\<lparr>ci_rows := update_where (isRowOf userId today) (\<lambda>r. r\<lparr>ck_status := ''failed''\<rparr>) (ci_rows s)\<rparr>)
      | PayConfirmed \<Rightarrow>
          (case getTodayRow userId today s of None \<Rightarrow> Some (Inl CheckinServerError, s)
           | Some row \<Rightarrow> map_option (\<lambda>t. (Inr (CheckedIn None), t))
               (afterConfirm env userId today now (updRow (ck_id row) (markConfirmed (paidAmount env) now) s))))"

definition confirmCheckin :: "checkin_env \<Rightarrow> checkin_chain \<Rightarrow> int \<Rightarrow> string \<Rightarrow> millis \<Rightarrow> checkin_store \<Rightarrow> checkin_result" where
  "confirmCheckin env ch userId rawHash now s =
     (case confirmStart env userId rawHash now s of
        (Inl e, t) \<Rightarrow> Some (Inl e, t)
      | (Inr (Inl a), t) \<Rightarrow> Some (Inr a, t)
      | (Inr (Inr h), t) \<Rightarrow>
          confirmFinish env (evaluateCheckinTx ch h (normalizeAddr (Some (linkedWallet userId s))) (normalizeAddr (Some (ce_receiver env))) (ce_minWei env))
            userId (getBrazilCheckinDateKey (ce_brazilDay env) now) now t)"

text \<open>The payment by wallet stores the hash as it is sent.\<close>

definition checkinWallet :: "checkin_env \<Rightarrow> checkin_chain \<Rightarrow> int \<Rightarrow> string \<Rightarrow> millis \<Rightarrow> checkin_store \<Rightarrow> checkin_result" where
  "checkinWallet env ch userId txHash now s =
     (let today = getBrazilCheckinDateKey (ce_brazilDay env) now
      in if txHash = '''' then Some (Inl BadHash, s)
         else if linkedWallet userId s = '''' then Some (Inl NoWallet, s)
         else if map_option ck_status (getTodayRow userId today s) = Some ''confirmed'' then Some (Inl AlreadyToday, s)
         else case upsertCheckin userId today txHash now (\<lambda>r. r\<lparr>ck_status := ''pending'', ck_amount := fl (1 / 100)\<rparr>) s of
           None \<Rightarrow> Some (Inl CheckinServerError, s)
         | Some t \<Rightarrow>
             (case getTodayRow userId today t of None \<Rightarrow> Some (Inl CheckinServerError, t)
              | Some row \<Rightarrow>
                  (let p = finalizeEval env ch row t
                   in case finalizeWrite env p row now t of None \<Rightarrow> None
                      | Some t' \<Rightarrow> if p = PayConfirmed then streakAnd env userId now CheckedIn t' else Some (Inr CheckinPending, t'))))"

definition checkinBalance :: "checkin_store \<Rightarrow> checkin_result" where
  "checkinBalance s = Some (Inl BalanceDisabled, s)"

record checkin_status =
  cs_checkedIn :: bool
  cs_pending :: bool
  cs_failed :: bool
  cs_status :: "string option"
  cs_txHash :: "string option"
  cs_streak :: int
  cs_totalConfirmed :: int
  cs_recent :: "(string \<times> millis option) list"
  cs_walletLinked :: bool
  cs_paymentRequired :: bool
  cs_milestones :: "milestone_view list"
  cs_polBalance :: number

definition getStatus :: "checkin_env \<Rightarrow> checkin_chain \<Rightarrow> int \<Rightarrow> millis \<Rightarrow> checkin_store \<Rightarrow> (checkin_status \<times> checkin_store) option" where
  "getStatus env ch userId now s =
     (case (if ce_receiver env \<noteq> '''' then tryFinalizeTodayCheckin env ch userId now s else Some s) of None \<Rightarrow> None
      | Some t \<Rightarrow>
          (let today = getBrazilCheckinDateKey (ce_brazilDay env) now; row = getTodayRow userId today t; status = map_option ck_status row
           in case computeCheckinStreak (ce_brazilDay env) now userId t of None \<Rightarrow> None
             | Some streak \<Rightarrow> Some
                 (\<lparr>cs_checkedIn = (status = Some ''confirmed''),
                   cs_pending = (case row of None \<Rightarrow> False | Some r \<Rightarrow>
                     ck_status r = ''pending'' \<and> \<not> isFreeSyntheticTx env (ck_txHash r) userId today),
                   cs_failed = (status = Some ''failed''), cs_status = status, cs_txHash = map_option ck_txHash row, cs_streak = streak,
                   cs_totalConfirmed = int (length (filter (isConfirmedOf userId) (ci_rows t))), cs_recent = loadRecentHistory userId t,
                   cs_walletLinked = (linkedWallet userId s \<noteq> ''''), cs_paymentRequired = (ce_receiver env \<noteq> ''''),
                   cs_milestones = buildMilestoneStatusForUser userId streak t,
                   cs_polBalance = (case getUser userId (ci_db s) of None \<Rightarrow> 0 | Some u \<Rightarrow> toNumber (usr_polBalance u))\<rparr>, t)))"

end
