(* ===== verification/CheckinProofs.thy ===== *)
theory CheckinProofs
  imports CheckinFlow
begin

section \<open>Streaks are runs of days\<close>

text \<open>
  A key is read back as the day it was made of, so the loop of the streak walks back day by day; its
  tables keep their unique keys whatever requests do.
\<close>

subsection \<open>Reading keys\<close>

lemma splitOn_absent: "c \<notin> set a \<Longrightarrow> splitOn c a = [a]"
  by (induction a) auto

lemma splitOn_append: "c \<notin> set a \<Longrightarrow> splitOn c (a @ c # b) = a # splitOn c b"
  by (induction a) auto

lemma monthDay_sum: "monthDay m ls doy = (m', dd) \<Longrightarrow> sum_list (take (nat (m' - m)) ls) + dd - 1 = doy \<and> m \<le> m'"
proof (induction m ls doy rule: monthDay.induct)
  case (2 m l ls doy)
  show ?case
  proof (cases "doy < l")
    case False
    with 2 have ih: "sum_list (take (nat (m' - (m + 1))) ls) + dd - 1 = doy - l" "m + 1 \<le> m'" by auto
    then have "nat (m' - m) = Suc (nat (m' - (m + 1)))" by simp
    with ih show ?thesis by simp
  qed (use 2 in auto)
qed auto

lemma monthDay_pos: "monthDay m ls doy = (m', dd) \<Longrightarrow> 0 \<le> doy \<Longrightarrow> 1 \<le> dd"
  by (induction m ls doy rule: monthDay.induct) (auto split: if_splits)

lemma yearFrom_ge: "y \<le> yearFrom y d"
proof (induction y d rule: yearFrom.induct)
  case (1 y d)
  then show ?case by (cases "jan1 (y + 1) \<le> d") (simp_all add: yearFrom.simps [of y d])
qed

lemma yearOf_ge: "0 \<le> d \<Longrightarrow> 1970 \<le> yearOf d"
  using yearFrom_ge [of "1970 + d div 366" d] by (simp add: yearOf_def pos_imp_zdiv_nonneg_iff order_trans [rotated])

definition dayOfKey :: "string \<Rightarrow> int option" where
  "dayOfKey key = (case splitOn (CHR ''-'') key of
      [y, m, d] \<Rightarrow> Some (utcDay (parseDigits y) (parseDigits m) (parseDigits d)) | _ \<Rightarrow> None)"

lemma dash_not_digit: "(\<And>c. c \<in> set s \<Longrightarrow> isDigit c) \<Longrightarrow> CHR ''-'' \<notin> set s"
proof
  assume d: "\<And>c. c \<in> set s \<Longrightarrow> isDigit c" and "CHR ''-'' \<in> set s"
  then have "isDigit (CHR ''-'')" by blast
  then show False by (simp add: isDigit_def)
qed

lemma dayOfKey_dateKey:
  assumes "0 \<le> d"
  shows "dayOfKey (dateKey d) = Some d"
proof -
  let ?y = "yearOf d"
  obtain m dd where md: "monthDay 1 (monthLengths ?y) (d - jan1 ?y) = (m, dd)" by fastforce
  have y: "0 \<le> ?y" using yearOf_ge [OF assms] by simp
  have s: "sum_list (take (nat (m - 1)) (monthLengths ?y)) + dd - 1 = d - jan1 ?y" "1 \<le> m" using monthDay_sum [OF md] by simp_all
  have dd: "1 \<le> dd" using monthDay_pos [OF md] yearOf_bounds(1) [OF assms] by simp
  have "CHR ''-'' \<notin> set (show_int ?y)" "CHR ''-'' \<notin> set (pad2 m)" "CHR ''-'' \<notin> set (pad2 dd)"
    using show_int_digits(2) [OF y] pad2_digits(2) [of m] pad2_digits(2) [of dd] s(2) dd by (auto intro!: dash_not_digit)
  then have "splitOn (CHR ''-'') (dateKey d) = [show_int ?y, pad2 m, pad2 dd]"
    by (simp add: dateKey_def md splitOn_append splitOn_absent)
  moreover have "utcDay (parseDigits (show_int ?y)) (parseDigits (pad2 m)) (parseDigits (pad2 dd)) = d"
    using s dd show_int_digits(1) [OF y] pad2_digits(1) [of m] pad2_digits(1) [of dd] by (simp add: utcDay_def)
  ultimately show ?thesis by (simp add: dayOfKey_def)
qed

lemma dateKey_inj: "0 \<le> d \<Longrightarrow> 0 \<le> e \<Longrightarrow> dateKey d = dateKey e \<Longrightarrow> d = e"
  by (metis dayOfKey_dateKey option.inject)

text \<open>A zone in which 15:00 UTC is on the same date, as in Brazil.\<close>

definition noon_zone :: "(millis \<Rightarrow> int) \<Rightarrow> bool" where
  "noon_zone brazilDay \<longleftrightarrow> (\<forall>d. brazilDay (d * MS_PER_DAY + 54000000) = d)"

lemma addDays_dateKey:
  assumes "noon_zone brazilDay" and "0 \<le> d"
  shows "addDaysToBrazilDateKey brazilDay (dateKey d) k = dateKey (d + k)"
proof -
  obtain y m dd where s: "splitOn (CHR ''-'') (dateKey d) = [y, m, dd]" "utcDay (parseDigits y) (parseDigits m) (parseDigits dd) = d"
    using dayOfKey_dateKey [OF assms(2)] by (auto simp: dayOfKey_def split: list.splits)
  have "d * MS_PER_DAY + 54000000 + k * 86400000 = (d + k) * MS_PER_DAY + 54000000" by (simp add: MS_PER_DAY_def algebra_simps)
  then have "brazilDay (d * MS_PER_DAY + 54000000 + k * 86400000) = d + k" using assms(1) by (simp only: noon_zone_def)
  with s show ?thesis by (simp add: addDaysToBrazilDateKey_def Let_def)
qed

subsection \<open>The loop\<close>

text \<open>The days of a run that ends on \<open>final\<close>.\<close>

definition run_ending :: "string list \<Rightarrow> int \<Rightarrow> int \<Rightarrow> bool" where
  "run_ending dates final n \<longleftrightarrow> 0 \<le> n \<and> (\<forall>d \<in> {final - n<..final}. dateKey d \<in> set dates) \<and> dateKey (final - n) \<notin> set dates"

lemma streakLoop_run:
  assumes z: "noon_zone brazilDay" and dates: "\<And>x. x \<in> set dates \<Longrightarrow> \<exists>d \<ge> 1. x = dateKey d" and "0 \<le> final"
  shows "\<exists>n. streakLoop brazilDay dates (dateKey final) k = Some (k + n) \<and> run_ending dates final n"
  using assms(3)
proof (induction final arbitrary: k rule: int_ge_induct)
  case base
  have "dateKey 0 \<notin> set dates"
  proof
    assume "dateKey 0 \<in> set dates"
    then obtain d where "1 \<le> d" "dateKey 0 = dateKey d" using dates by blast
    then show False using dateKey_inj [of 0 d] by simp
  qed
  then show ?case by (intro exI [of _ 0]) (simp add: streakLoop.simps run_ending_def)
next
  case (step final)
  show ?case
  proof (cases "dateKey (final + 1) \<in> set dates")
    case True
    obtain n where n: "streakLoop brazilDay dates (dateKey final) (k + 1) = Some (k + 1 + n)" "run_ending dates final n"
      using step.IH [of "k + 1"] by blast
    have "addDaysToBrazilDateKey brazilDay (dateKey (final + 1)) (- 1) = dateKey final"
      using addDays_dateKey [OF z, of "final + 1" "- 1"] step.hyps by simp
    then have "streakLoop brazilDay dates (dateKey (final + 1)) k = Some (k + (n + 1))"
      using n True by (subst streakLoop.simps) simp
    moreover have "run_ending dates (final + 1) (n + 1)"
      unfolding run_ending_def
    proof (intro conjI ballI)
      show "dateKey d \<in> set dates" if "d \<in> {final + 1 - (n + 1)<..final + 1}" for d
        using that n(2) True by (cases "d = final + 1") (auto simp: run_ending_def)
    qed (use n(2) in \<open>simp_all add: run_ending_def\<close>)
    ultimately show ?thesis by blast
  next
    case False
    then show ?thesis by (intro exI [of _ 0]) (simp add: streakLoop.simps run_ending_def)
  qed
qed

lemma run_unique:
  assumes "run_ending dates final n" and "run_ending dates final m"
  shows "n = m"
proof (rule ccontr)
  have no: False if "run_ending dates final i" "run_ending dates final j" "i < j" for i j
    using that by (auto simp: run_ending_def)
  assume "n \<noteq> m"
  then show False using no [OF assms] no [OF assms(2,1)] by linarith
qed

subsection \<open>The tables\<close>

definition checkin_ok :: "checkin_store \<Rightarrow> bool" where
  "checkin_ok s \<longleftrightarrow> unique_key ck_id (ci_rows s) \<and> unique_key ck_txHash (ci_rows s)
     \<and> unique_key (\<lambda>r. (ck_userId r, ck_checkinDate r)) (ci_rows s) \<and> (\<forall>r \<in> set (ci_rows s). ck_id r < ci_next s)
     \<and> unique_key (\<lambda>c. (sc_userId c, sc_milestoneId c)) (ci_claims s)"

lemma unique_key_rekey:
  assumes "unique_key k rows" and "unique_key key rows" and "r \<in> set rows"
    and "\<And>q. q \<in> set rows \<Longrightarrow> q \<noteq> r \<Longrightarrow> key q \<noteq> key (f r)"
  shows "unique_key key (update_where (\<lambda>q. k q = k r) f rows)"
  using assms unfolding unique_key_def
proof (induction rows)
  case (Cons q rows)
  show ?case
  proof (cases "q = r")
    case True
    have "k p \<noteq> k r" if "p \<in> set rows" for p using Cons.prems(1) that True by (metis distinct.simps(2) image_eqI list.simps(9) set_map)
    then have "update_where (\<lambda>q. k q = k r) f rows = rows" by (rule update_where_none)
    moreover have "key (f r) \<notin> key ` set rows" using Cons.prems(1,4) True by (auto simp: image_iff) (metis image_eqI)
    ultimately show ?thesis using Cons.prems(2) True by simp
  next
    case False
    then have r: "r \<in> set rows" using Cons.prems(3) by simp
    have kq: "k q \<noteq> k r" using Cons.prems(1) r by force
    have "key q \<noteq> key p" if "p \<in> set (update_where (\<lambda>q. k q = k r) f rows)" for p
    proof -
      from that consider "p \<in> set rows" | "p = f r"
        using unique_key_eqD [of k rows _ r] Cons.prems(1) r by (auto simp: set_update_where unique_key_def)
      then show ?thesis using Cons.prems(2,4) False by cases force+
    qed
    with kq Cons r show ?thesis by (auto simp: image_iff)
  qed
qed simp

text \<open>Rows changed in place keep what is unique.\<close>

lemma checkin_ok_quiet:
  assumes "checkin_ok s" and "\<And>r. ck_id (f r) = ck_id r \<and> ck_txHash (f r) = ck_txHash r \<and> ck_userId (f r) = ck_userId r \<and> ck_checkinDate (f r) = ck_checkinDate r"
  shows "checkin_ok (s\<lparr>ci_rows := update_where P f (ci_rows s)\<rparr>)"
  using assms unfolding checkin_ok_def by (auto simp: set_update_where)

lemma checkin_ok_db: "checkin_ok (s\<lparr>ci_db := db\<rparr>) = checkin_ok s"
  by (simp add: checkin_ok_def)

definition keepsKeys :: "(checkin_row \<Rightarrow> checkin_row) \<Rightarrow> bool" where
  "keepsKeys f \<longleftrightarrow> (\<forall>r. ck_id (f r) = ck_id r \<and> ck_txHash (f r) = ck_txHash r \<and> ck_userId (f r) = ck_userId r \<and> ck_checkinDate (f r) = ck_checkinDate r)"

lemma checkin_ok_updRow: "checkin_ok s \<Longrightarrow> keepsKeys f \<Longrightarrow> checkin_ok (updRow i f s)"
  unfolding updRow_def keepsKeys_def by (rule checkin_ok_quiet) auto

lemma keepsKeys_marks [simp, intro]: "keepsKeys (markConfirmed a now)" "keepsKeys (\<lambda>r. r\<lparr>ck_status := st\<rparr>)"
  "keepsKeys (\<lambda>r. r\<lparr>ck_status := st, ck_confirmedAt := c\<rparr>)" "keepsKeys (\<lambda>r. r\<lparr>ck_status := st, ck_amount := a\<rparr>)"
  "keepsKeys (\<lambda>r. r\<lparr>ck_amount := a\<rparr>)"
  by (simp_all add: keepsKeys_def markConfirmed_def)

lemma keepsKeys_if: "keepsKeys f \<Longrightarrow> keepsKeys g \<Longrightarrow> keepsKeys (\<lambda>r. if c then f r else g r)"
  by (simp add: keepsKeys_def)

lemma rowWithHash_None: "rowWithHash h s = None \<longleftrightarrow> h \<notin> ck_txHash ` set (ci_rows s)"
  by (auto simp: rowWithHash_def find_first_None_iff)

lemma rowWithHash_unique:
  assumes "checkin_ok s" and "r \<in> set (ci_rows s)" and "ck_txHash r = h"
  shows "rowWithHash h s = Some r"
  using find_first_key [of ck_txHash "ci_rows s" r] assms by (simp add: rowWithHash_def checkin_ok_def)

lemma getTodayRow_D: "getTodayRow u d s = Some r \<Longrightarrow> r \<in> set (ci_rows s) \<and> ck_userId r = u \<and> ck_checkinDate r = d"
  unfolding getTodayRow_def by (drule find_first_Some_conj) (simp add: isRowOf_def)

lemma getTodayRow_unique:
  assumes "checkin_ok s" and "r \<in> set (ci_rows s)" and "ck_userId r = u" and "ck_checkinDate r = d"
  shows "getTodayRow u d s = Some r"
proof -
  have "find_first (\<lambda>q. (ck_userId q, ck_checkinDate q) = (ck_userId r, ck_checkinDate r)) (ci_rows s) = Some r"
    using assms by (intro find_first_key [where key = "\<lambda>q. (ck_userId q, ck_checkinDate q)"]) (simp_all add: checkin_ok_def)
  then show ?thesis using assms(3,4) by (simp add: getTodayRow_def isRowOf_def [abs_def])
qed

lemma checkin_ok_upsert:
  assumes ok: "checkin_ok s" and u: "upsertCheckin userId today h now f s = Some t" and f: "keepsKeys f"
  shows "checkin_ok t"
proof (cases "getTodayRow userId today s")
  case None
  then have h: "h \<notin> ck_txHash ` set (ci_rows s)" and t: "t = s\<lparr>ci_rows := ci_rows s @ [f \<lparr>ck_id = ci_next s, ck_userId = userId, ck_checkinDate = today, ck_createdAt = now,
                  ck_confirmedAt = None, ck_txHash = h, ck_status = ''pending'', ck_amount = 0\<rparr>], ci_next := ci_next s + 1\<rparr>"
    using u by (auto simp: upsertCheckin_def rowWithHash_None Let_def split: if_splits)
  have d: "(userId, today) \<noteq> (ck_userId r, ck_checkinDate r)" if "r \<in> set (ci_rows s)" for r
    using None that by (auto simp: getTodayRow_def find_first_None_iff isRowOf_def)
  have i: "ci_next s \<noteq> ck_id r" "ck_id r < ci_next s + 1" if "r \<in> set (ci_rows s)" for r using ok that by (auto simp: checkin_ok_def)
  show ?thesis using ok f h d i unfolding t checkin_ok_def keepsKeys_def by (auto simp: image_iff)
next
  case (Some r)
  note r = getTodayRow_D [OF Some]
  have t: "t = updRow (ck_id r) (\<lambda>r. f (r\<lparr>ck_txHash := h\<rparr>)) s" and h: "\<And>q. rowWithHash h s = Some q \<Longrightarrow> ck_id q = ck_id r"
    using u Some by (auto simp: upsertCheckin_def Let_def split: if_splits option.splits)
  have "ck_txHash q \<noteq> h" if q: "q \<in> set (ci_rows s)" "q \<noteq> r" for q
  proof
    assume "ck_txHash q = h"
    then have "ck_id q = ck_id r" using rowWithHash_unique [OF ok q(1)] h by blast
    then show False using unique_key_eqD [of ck_id "ci_rows s" q r] q r ok by (simp add: checkin_ok_def)
  qed
  then have "unique_key ck_txHash (ci_rows t)"
    using ok r f unfolding t updRow_def by (simp, intro unique_key_rekey) (auto simp: checkin_ok_def keepsKeys_def)
  then show ?thesis using ok f unfolding t updRow_def checkin_ok_def keepsKeys_def by (auto simp: set_update_where)
qed

subsection \<open>Milestones\<close>

lemma milestoneTx_frame:
  assumes "milestoneTx dec8_of u k m now s = (g, t)"
  shows "ci_rows t = ci_rows s" and "ci_next t = ci_next s" and "checkin_ok s \<Longrightarrow> checkin_ok t"
proof -
  show "ci_rows t = ci_rows s" "ci_next t = ci_next s" using assms by (auto simp: milestoneTx_def split: if_splits)
  assume ok: "checkin_ok s"
  show "checkin_ok t"
  proof (cases "find_first (isClaimOf u (sm_id m)) (ci_claims s) \<noteq> None \<or> getUser u (ci_db s) = None")
    case False
    then have "(u, sm_id m) \<notin> (\<lambda>c. (sc_userId c, sc_milestoneId c)) ` set (ci_claims s)"
      by (auto simp: find_first_None_iff isClaimOf_def)
    with ok False assms show ?thesis by (auto simp: milestoneTx_def checkin_ok_def)
  qed (use assms ok in \<open>auto simp: milestoneTx_def\<close>)
qed

lemma grantMilestone_frame:
  assumes "grantMilestone dec8_of u k cl now (b, s) m = (b', t)"
  shows "ci_rows t = ci_rows s" and "ci_next t = ci_next s" and "checkin_ok s \<Longrightarrow> checkin_ok t"
  using assms milestoneTx_frame by (auto simp: grantMilestone_def split: if_splits prod.splits)

lemma grantFold_frame:
  assumes "foldl (grantMilestone dec8_of u k cl now) (b, s) ms = (b', t)"
  shows "ci_rows t = ci_rows s \<and> ci_next t = ci_next s \<and> (checkin_ok s \<longrightarrow> checkin_ok t)"
  using assms
proof (induction ms arbitrary: b s)
  case (Cons m ms)
  obtain b1 s1 where g: "grantMilestone dec8_of u k cl now (b, s) m = (b1, s1)" by fastforce
  show ?case using Cons.IH [of b1 s1] Cons.prems g grantMilestone_frame [OF g] by simp
qed simp

lemma grantMilestones_frame:
  "ci_rows (grantMilestones dec8_of u k now s) = ci_rows s" "ci_next (grantMilestones dec8_of u k now s) = ci_next s"
  "checkin_ok s \<Longrightarrow> checkin_ok (grantMilestones dec8_of u k now s)"
  using grantFold_frame [of dec8_of u k "map sc_milestoneId (claimsOf u s)" now False s "activeMilestones s"]
  by (auto simp: grantMilestones_def checkin_ok_db split: prod.splits)

lemma afterConfirm_frame:
  assumes "afterConfirm env u d now s = Some t"
  shows "ci_rows t = ci_rows s" and "ci_next t = ci_next s" and "checkin_ok s \<Longrightarrow> checkin_ok t"
  using assms by (auto simp: afterConfirm_def applyStreakMilestoneRewards_def grantMilestones_frame checkin_ok_db)

lemma streakAnd_state: "streakAnd env u now a s = Some (r, t) \<Longrightarrow> t = s"
  by (auto simp: streakAnd_def)

subsection \<open>Requests keep the tables\<close>

lemma finalizeWrite_ok: "checkin_ok s \<Longrightarrow> finalizeWrite env p row now s = Some t \<Longrightarrow> checkin_ok t"
  by (auto simp: finalizeWrite_def intro: checkin_ok_updRow afterConfirm_frame(3) [OF _ checkin_ok_updRow] split: payment.splits)

lemma finalizeToday_ok: "checkin_ok s \<Longrightarrow> tryFinalizeTodayCheckin env ch u now s = Some t \<Longrightarrow> checkin_ok t"
  by (auto simp: tryFinalizeTodayCheckin_def tryFinalizeCheckinRow_def intro: finalizeWrite_ok split: option.splits if_splits)

lemma finalizeRows_ok: "finalizeRows env ch now rows s = Some t \<Longrightarrow> checkin_ok s \<Longrightarrow> checkin_ok t"
  by (induction env ch now rows s rule: finalizeRows.induct)
    (auto simp: tryFinalizeCheckinRow_def intro: finalizeWrite_ok split: option.splits if_splits)

lemma claim_ok: "checkin_ok s \<Longrightarrow> claimCheckin env u now s = Some (r, t) \<Longrightarrow> checkin_ok t"
  unfolding claimCheckin_def Let_def
  by (auto dest!: streakAnd_state intro: afterConfirm_frame(3) [OF _ checkin_ok_upsert] split: if_splits option.splits)

lemma confirmStart_ok: "checkin_ok s \<Longrightarrow> confirmStart env u raw now s = (r, t) \<Longrightarrow> checkin_ok t"
  unfolding confirmStart_def Let_def
  by (auto intro: checkin_ok_updRow dest: checkin_ok_upsert [OF _ _ keepsKeys_if [OF keepsKeys_marks(5) keepsKeys_marks(3)]]
      split: if_splits option.splits)

lemma confirmFinish_ok: "checkin_ok s \<Longrightarrow> confirmFinish env p u d now s = Some (r, t) \<Longrightarrow> checkin_ok t"
  unfolding confirmFinish_def
  by (auto intro: checkin_ok_quiet afterConfirm_frame(3) [OF _ checkin_ok_updRow] split: payment.splits option.splits)

lemma wallet_ok_checkin: "checkin_ok s \<Longrightarrow> checkinWallet env ch u h now s = Some (r, t) \<Longrightarrow> checkin_ok t"
  unfolding checkinWallet_def Let_def
  by (auto dest!: streakAnd_state intro: finalizeWrite_ok [OF checkin_ok_upsert] checkin_ok_upsert split: if_splits option.splits)

lemma status_ok: "checkin_ok s \<Longrightarrow> getStatus env ch u now s = Some (v, t) \<Longrightarrow> checkin_ok t"
  unfolding getStatus_def Let_def by (auto intro: finalizeToday_ok split: if_splits option.splits)

text \<open>
  Requests and sweeps in any order; what a request writes after asking the chain comes with any answer
  and, for a sweep, with a row read at any time.
\<close>

inductive checkin_step :: "checkin_env \<Rightarrow> checkin_store \<Rightarrow> checkin_store \<Rightarrow> bool" for env where
  Claim: "claimCheckin env u now s = Some (r, t) \<Longrightarrow> checkin_step env s t"
| Start: "confirmStart env u raw now s = (x, t) \<Longrightarrow> checkin_step env s t"
| Finish: "confirmFinish env p u d now s = Some (r, t) \<Longrightarrow> checkin_step env s t"
| ByWallet: "checkinWallet env ch u h now s = Some (r, t) \<Longrightarrow> checkin_step env s t"
| Status: "getStatus env ch u now s = Some (v, t) \<Longrightarrow> checkin_step env s t"
| Sweep: "finalizeWrite env p row now s = Some t \<Longrightarrow> checkin_step env s t"
| Stale: "processStalePendingCheckins env ch now s = Some t \<Longrightarrow> checkin_step env s t"

interpretation checkin: machine "\<lambda>s. ci_rows s = [] \<and> ci_claims s = []" "checkin_step env" checkin_ok for env
proof unfold_locales
  show "checkin_ok s" if "ci_rows s = [] \<and> ci_claims s = []" for s using that by (simp add: checkin_ok_def)
  show "checkin_ok t" if "checkin_ok s" "checkin_step env s t" for s t
    using that(2,1)
    by cases (auto simp: processStalePendingCheckins_def intro: claim_ok confirmStart_ok confirmFinish_ok wallet_ok_checkin status_ok
        finalizeWrite_ok finalizeRows_ok)
qed

end
