(* ===== verification/CheckinClaims.thy ===== *)
theory CheckinClaims
  imports CheckinProofs
begin

section \<open>Properties of the check-in\<close>

text \<open>A demonstration: the zone three hours behind UTC, and an injective stand-in for the digest.\<close>

definition brasilia :: "millis \<Rightarrow> int" where
  "brasilia t = (t - 10800000) div MS_PER_DAY"

lemma brasilia_noon: "noon_zone brasilia"
proof -
  have "(d * MS_PER_DAY + 54000000 - 10800000) div MS_PER_DAY = d" for d :: int by (simp add: MS_PER_DAY_def)
  then show ?thesis by (simp add: noon_zone_def brasilia_def)
qed

definition checkin_demo_env :: checkin_env where
  "checkin_demo_env = \<lparr>ce_sha = (\<lambda>x. x), ce_brazilDay = brasilia, ce_dec8_of = round8_away, ce_keeps = False,
     ce_receiver = ''0x00000000000000000000000000000000000000aa'', ce_minWei = 10 ^ 16\<rparr>"

definition checkin_user :: "int \<Rightarrow> user" where
  "checkin_user i = \<lparr>usr_id = i, usr_name = ''u'', usr_username = None, usr_isBanned = False, usr_polBalance = 0,
     usr_blkBalance = 0, usr_blkLocked = 0, usr_walletAddress = Some ''0xb'', usr_miningPayoutMode = ''pol'', usr_refCode = None,
     usr_referredBy = None\<rparr>"

definition checkin_db :: quest_store where
  "checkin_db = \<lparr>st_users = [checkin_user 1, checkin_user 2], st_games = [], st_gamePowers = [], st_ytPowers = [], st_gpuPowers = [],
     st_v2Powers = [], st_miners = [], st_eventMiners = [], st_owned = [], st_inventory = [], st_userMiners = [], st_audit = [],
     st_calls = [], st_next = 100, qs_defs = [], qs_progress = [], qs_ticks = [], mp_seasons = [], mp_enrollments = [],
     mp_ledger = [], mp_progress = [], mp_ticks = [], mp_claims = [], mp_purchases = []\<rparr>"

definition demo_day :: "int \<Rightarrow> int \<Rightarrow> checkin_row" where
  "demo_day i d = \<lparr>ck_id = i, ck_userId = 1, ck_checkinDate = dateKey d, ck_createdAt = 0, ck_confirmedAt = Some 0, ck_txHash = show_int i,
     ck_status = ''confirmed'', ck_amount = 0\<rparr>"

definition checkin_demo :: checkin_store where
  "checkin_demo = \<lparr>ci_db = checkin_db, ci_rows = [demo_day 1 19996, demo_day 2 19998, demo_day 3 19999, demo_day 4 20000],
     ci_milestones = [], ci_claims = [], ci_next = 5\<rparr>"

subsection \<open>Streaks\<close>

text \<open>
  C24: the streak is always computed: the loop that walks back through the keys ends, and counts exactly
  the run of consecutive confirmed days that ends today, or yesterday when today is still open.
\<close>

lemma streak_counts_days:
  assumes "noon_zone brazilDay" and "1 \<le> brazilDay now"
    and "\<And>x. x \<in> set (confirmedDates u s) \<Longrightarrow> \<exists>d \<ge> 1. x = dateKey d"
  shows "\<exists>n. computeCheckinStreak brazilDay now u s = Some n
    \<and> run_ending (confirmedDates u s) (if dateKey (brazilDay now) \<in> set (confirmedDates u s) then brazilDay now else brazilDay now - 1) n"
proof -
  let ?D = "confirmedDates u s" and ?t = "brazilDay now"
  have y: "addDaysToBrazilDateKey brazilDay (dateKey ?t) (- 1) = dateKey (?t - 1)"
    using addDays_dateKey [OF assms(1), of ?t "- 1"] assms(2) by simp
  have run: "\<exists>n. streakLoop brazilDay ?D (dateKey d) 0 = Some n \<and> run_ending ?D d n" if "0 \<le> d" for d
    using streakLoop_run [OF assms(1,3) that, where k = 0] by simp
  show ?thesis
  proof (cases "dateKey ?t \<in> set ?D")
    case True
    then show ?thesis using run [of ?t] assms(2) by (simp add: computeCheckinStreak_def Let_def getBrazilCheckinDateKey_def)
  next
    case False
    show ?thesis
    proof (cases "dateKey (?t - 1) \<in> set ?D")
      case True
      then show ?thesis using False run [of "?t - 1"] assms(2) by (simp add: computeCheckinStreak_def Let_def getBrazilCheckinDateKey_def y)
    next
      case f: False
      then have "run_ending ?D (?t - 1) 0" by (simp add: run_ending_def)
      with f False show ?thesis by (simp add: computeCheckinStreak_def Let_def getBrazilCheckinDateKey_def y)
    qed
  qed
qed

text \<open>Four days with a gap, asked on the day after the last.\<close>

lemma streak_counts_days_witness:
  "computeCheckinStreak brasilia (20001 * MS_PER_DAY + 54000000) 1 checkin_demo = Some 3
   \<and> run_ending (confirmedDates 1 checkin_demo) 20000 3"
proof -
  let ?now = "20001 * MS_PER_DAY + 54000000"
  have t: "brasilia ?now = 20001" using brasilia_noon by (simp only: noon_zone_def)
  have c: "confirmedDates 1 checkin_demo = map dateKey [19996, 19998, 19999, 20000]"
    by (simp add: confirmedDates_def checkin_demo_def demo_day_def isConfirmedOf_def)
  have n: "dateKey 20001 \<notin> set (confirmedDates 1 checkin_demo)"
  proof
    assume "dateKey 20001 \<in> set (confirmedDates 1 checkin_demo)"
    then obtain d where "d \<in> set [19996, 19998, 19999, 20000]" "dateKey 20001 = dateKey d" unfolding c by auto
    then show False using dateKey_inj [of 20001 d] by auto
  qed
  have d: "\<exists>d \<ge> 1. x = dateKey d" if "x \<in> set (confirmedDates 1 checkin_demo)" for x
  proof -
    from that obtain d where "d \<in> {19996, 19998, 19999, 20000}" "x = dateKey d" unfolding c by auto
    then show ?thesis by (intro exI [of _ d]) auto
  qed
  have "\<exists>n. computeCheckinStreak brasilia ?now 1 checkin_demo = Some n \<and> run_ending (confirmedDates 1 checkin_demo) 20000 n"
  proof -
    have "1 \<le> brasilia ?now" by (simp only: t)
    from streak_counts_days [OF brasilia_noon this, of 1 checkin_demo, OF d] n show ?thesis by (simp only: t if_False) simp
  qed
  moreover have "computeCheckinStreak brasilia ?now 1 checkin_demo = Some 3" by code_simp
  ultimately show ?thesis by auto
qed

subsection \<open>Other users' rows\<close>

lemma find_update_other:
  assumes "\<And>r. r \<in> set rows \<Longrightarrow> Q r \<Longrightarrow> \<not> P r \<and> \<not> P (f r)"
  shows "find_first P (update_where Q f rows) = find_first P rows"
  using assms by (induction rows) auto

lemma getTodayRow_rows: "ci_rows t = ci_rows s \<Longrightarrow> getTodayRow u d t = getTodayRow u d s"
  by (simp add: getTodayRow_def)

lemma updRow_other:
  assumes "checkin_ok s" and "r \<in> set (ci_rows s)" and "\<And>q. ck_userId (f q) = ck_userId q" and "v \<noteq> ck_userId r"
  shows "getTodayRow v d (updRow (ck_id r) f s) = getTodayRow v d s"
proof -
  have "q = r" if "q \<in> set (ci_rows s)" "ck_id q = ck_id r" for q
    using unique_key_eqD [of ck_id "ci_rows s" q r] that assms(1,2) by (simp add: checkin_ok_def)
  then show ?thesis unfolding getTodayRow_def updRow_def
    using assms(3,4) by (simp, intro find_update_other) (auto simp: isRowOf_def)
qed

lemma upsert_row:
  assumes ok: "checkin_ok s" and up: "upsertCheckin u d h now f s = Some t" and f: "keepsKeys f"
  shows "\<exists>r. getTodayRow u d t = Some r \<and> ck_txHash r = h" and "v \<noteq> u \<Longrightarrow> getTodayRow v d' t = getTodayRow v d' s"
proof -
  have okt: "checkin_ok t" using checkin_ok_upsert [OF ok up f] .
  have "(\<exists>r \<in> set (ci_rows t). ck_userId r = u \<and> ck_checkinDate r = d \<and> ck_txHash r = h) \<and> (v \<noteq> u \<longrightarrow> getTodayRow v d' t = getTodayRow v d' s)"
  proof (cases "getTodayRow u d s")
    case None
    with up f show ?thesis
      by (auto simp: upsertCheckin_def Let_def keepsKeys_def getTodayRow_def find_first_append isRowOf_def split: if_splits option.splits)
  next
    case (Some r)
    note r = getTodayRow_D [OF Some]
    have t: "t = updRow (ck_id r) (\<lambda>r. f (r\<lparr>ck_txHash := h\<rparr>)) s"
      using up Some by (auto simp: upsertCheckin_def Let_def split: if_splits option.splits)
    have "f (r\<lparr>ck_txHash := h\<rparr>) \<in> set (ci_rows t)" using r by (auto simp: t updRow_def set_update_where)
    moreover have "v \<noteq> u \<longrightarrow> getTodayRow v d' t = getTodayRow v d' s"
      unfolding t using r f by (intro impI updRow_other [OF ok]) (auto simp: keepsKeys_def)
    ultimately show ?thesis using r f by (intro conjI bexI) (auto simp: keepsKeys_def)
  qed
  then show "\<exists>r. getTodayRow u d t = Some r \<and> ck_txHash r = h" "v \<noteq> u \<Longrightarrow> getTodayRow v d' t = getTodayRow v d' s"
    using getTodayRow_unique [OF okt] by blast+
qed

lemma finalize_row:
  assumes ok: "checkin_ok s" and r: "getTodayRow u d s = Some r" and w: "finalizeWrite env p r now s = Some t"
  shows "\<exists>q. getTodayRow u d t = Some q \<and> ck_txHash q = ck_txHash r" and "v \<noteq> u \<Longrightarrow> getTodayRow v d' t = getTodayRow v d' s"
proof -
  note m = getTodayRow_D [OF r]
  have okt: "checkin_ok t" using finalizeWrite_ok [OF ok w] .
  have "\<exists>f. keepsKeys f \<and> (ci_rows t = ci_rows (updRow (ck_id r) f s) \<or> ci_rows t = ci_rows s)"
  proof (cases p)
    case PayConfirmed
    then show ?thesis using w afterConfirm_frame(1) keepsKeys_marks(1) by (fastforce simp: finalizeWrite_def)
  next
    case (PayFailed x)
    then show ?thesis using w by (intro exI [of _ "\<lambda>r. r\<lparr>ck_status := ''failed''\<rparr>"]) (simp add: finalizeWrite_def)
  qed (use w keepsKeys_marks(1) in \<open>auto simp: finalizeWrite_def\<close>)
  then obtain f where f: "keepsKeys f" and t: "ci_rows t = ci_rows (updRow (ck_id r) f s) \<or> ci_rows t = ci_rows s" by blast
  have "f r \<in> set (ci_rows t) \<or> r \<in> set (ci_rows t)" using t m by (auto simp: updRow_def set_update_where)
  then show "\<exists>q. getTodayRow u d t = Some q \<and> ck_txHash q = ck_txHash r"
    using getTodayRow_unique [OF okt] m f by (metis keepsKeys_def)
  assume v: "v \<noteq> u"
  have "getTodayRow v d' (updRow (ck_id r) f s) = getTodayRow v d' s"
    using m f v by (intro updRow_other [OF ok]) (auto simp: keepsKeys_def)
  with t show "getTodayRow v d' t = getTodayRow v d' s" using getTodayRow_rows by metis
qed

subsection \<open>Taking the hash of somebody else's free check-in\<close>

text \<open>
  The hash stored for a free check-in is a digest anybody can compute, and the payment by wallet
  stores any text as the hash of its row.  A user who sends the digest of another user's day takes the
  unique value, and the other user's free check-in of that day fails with a server error.
\<close>

lemma squatted_hash_blocks_checkin:
  assumes ok: "checkin_ok s" and uv: "u \<noteq> v" and today: "getBrazilCheckinDateKey (ce_brazilDay env) now = d"
      "getBrazilCheckinDateKey (ce_brazilDay env) now' = d"
    and free: "map_option ck_status (getTodayRow v d s) \<noteq> Some ''confirmed''"
    and wallet: "checkinWallet env ch u (syntheticFreeTxHash env v d) now s = Some (Inr a, t)"
  shows "claimCheckin env v now' t = Some (Inl CheckinServerError, t)"
proof -
  let ?h = "syntheticFreeTxHash env v d" and ?f = "\<lambda>r. r\<lparr>ck_status := ''pending'', ck_amount := fl (1 / 100)\<rparr>"
  from wallet today obtain t1 row p t2 where up: "upsertCheckin u d ?h now ?f s = Some t1" and row: "getTodayRow u d t1 = Some row"
      and w: "finalizeWrite env p row now t1 = Some t2" and tt: "t = t2"
    by (auto simp: checkinWallet_def Let_def dest!: streakAnd_state split: if_splits option.splits)
  have ok1: "checkin_ok t1" using checkin_ok_upsert [OF ok up] by simp
  have "ck_txHash row = ?h" using upsert_row(1) [OF ok up] row by auto
  then obtain q where q: "getTodayRow u d t = Some q" "ck_txHash q = ?h" using finalize_row(1) [OF ok1 row w] tt by auto
  have v: "getTodayRow v d t = getTodayRow v d s"
    using finalize_row(2) [OF ok1 row w, of v d] upsert_row(2) [OF ok up, of v d] uv tt by simp
  have okt: "checkin_ok t" using finalizeWrite_ok [OF ok1 w] tt by simp
  note qm = getTodayRow_D [OF q(1)]
  have hq: "rowWithHash ?h t = Some q" using rowWithHash_unique [OF okt] qm q(2) by blast
  have "ck_id q \<noteq> ck_id r" if "getTodayRow v d t = Some r" for r
  proof
    note rm = getTodayRow_D [OF that]
    assume "ck_id q = ck_id r"
    then have "q = r" using unique_key_eqD [of ck_id "ci_rows t" q r] okt qm rm by (simp add: checkin_ok_def)
    then show False using qm rm uv by simp
  qed
  then have "upsertCheckin v d ?h now' (markConfirmed 0 now') t = None"
    by (cases "getTodayRow v d t") (auto simp: upsertCheckin_def Let_def hq)
  then show ?thesis using free unfolding v [symmetric] by (auto simp: claimCheckin_def Let_def today)
qed

text \<open>User 2 sends the hash of user 1's check-in of a day; the chain does not know it.\<close>

definition silent_chain :: checkin_chain where
  "silent_chain = \<lparr>cx_apiKey = False, cx_scanTx = (\<lambda>h. RpcNone), cx_rpcTx = (\<lambda>h. RpcNone), cx_scanReceipt = (\<lambda>h. RpcNone),
     cx_rpcReceipt = (\<lambda>h. RpcNone)\<rparr>"

lemma checkin_demo_ok: "checkin_ok checkin_demo"
proof -
  have "distinct (map dateKey [19996, 19998, 19999, 20000])" by code_simp
  moreover have "distinct (map show_int [1, 2, 3, 4])" by code_simp
  ultimately show ?thesis by (simp add: checkin_ok_def unique_key_def checkin_demo_def demo_day_def)
qed

lemma squatted_hash_blocks_checkin_witness:
  "case checkinWallet checkin_demo_env silent_chain 2 (syntheticFreeTxHash checkin_demo_env 1 (dateKey 20002))
       (20002 * MS_PER_DAY + 54000000) checkin_demo of
     Some (r, t) \<Rightarrow> r = Inr CheckinPending
       \<and> claimCheckin checkin_demo_env 1 (20002 * MS_PER_DAY + 54000001) t = Some (Inl CheckinServerError, t)
   | None \<Rightarrow> False"
proof -
  let ?o = "checkinWallet checkin_demo_env silent_chain 2 (syntheticFreeTxHash checkin_demo_env 1 (dateKey 20002))
       (20002 * MS_PER_DAY + 54000000) checkin_demo"
  have "map_option fst ?o = Some (Inr CheckinPending)" by code_simp
  then obtain t where t: "?o = Some (Inr CheckinPending, t)" by auto
  have "getBrazilCheckinDateKey (ce_brazilDay checkin_demo_env) (20002 * MS_PER_DAY + 54000000) = dateKey 20002"
    "getBrazilCheckinDateKey (ce_brazilDay checkin_demo_env) (20002 * MS_PER_DAY + 54000001) = dateKey 20002" by code_simp+
  moreover have "getTodayRow 1 (dateKey 20002) checkin_demo = None" by code_simp
  ultimately have "claimCheckin checkin_demo_env 1 (20002 * MS_PER_DAY + 54000001) t = Some (Inl CheckinServerError, t)"
    using squatted_hash_blocks_checkin [OF checkin_demo_ok _ _ _ _ t] by simp
  with t show ?thesis by simp
qed

subsection \<open>A late answer of the chain\<close>

text \<open>
  The answer for a pending row is written by the row's id, whatever has happened to the row since: a
  payment judged as failed takes back a day that was confirmed in the meantime.
\<close>

lemma late_failure_revokes_confirmation:
  assumes "checkin_ok s" and "getTodayRow u d s = Some r" and "finalizeWrite env (PayFailed x) old now s = Some t" and "ck_id old = ck_id r"
  shows "map_option ck_status (getTodayRow u d t) = Some ''failed''"
proof -
  note m = getTodayRow_D [OF assms(2)]
  have t: "t = updRow (ck_id r) (\<lambda>r. r\<lparr>ck_status := ''failed''\<rparr>) s" using assms(3,4) by (simp add: finalizeWrite_def)
  have "checkin_ok t" using finalizeWrite_ok [OF assms(1,3)] .
  moreover have "r\<lparr>ck_status := ''failed''\<rparr> \<in> set (ci_rows t)" using m by (auto simp: t updRow_def set_update_where)
  ultimately have "getTodayRow u d t = Some (r\<lparr>ck_status := ''failed''\<rparr>)" using m by (intro getTodayRow_unique) simp_all
  then show ?thesis by simp
qed

end
