(* ===== verification/Offers.thy ===== *)
theory Offers
  imports MachineStore MiningDb
begin

section \<open>Shop and offers\<close>

text \<open>
  \<open>server/controllers/shopController.js\<close>, \<open>controllers/offerEventController.js\<close>,
  \<open>services/offerEventPurchaseService.js\<close>, \<open>services/offerEventHelpers.js\<close> and the queries of
  \<open>models/minersModel.js\<close>: machines for sale, permanently or during an event with a stock.  A purchase
  reads, decides and writes in one transaction that locks nothing it read, so it is split into a plan
  and its writes.
\<close>

record offer_event =
  oe_id :: int
  oe_title :: string
  oe_startsAt :: millis
  oe_endsAt :: millis
  oe_isActive :: bool
  oe_deletedAt :: "millis option"

record event_miner =
  em_id :: int
  em_eventId :: int
  em_name :: string
  em_price :: dec8
  em_hashRate :: number
  em_currency :: string
  em_stockUnlimited :: bool
  em_stockCount :: "int option"
  em_soldCount :: int
  em_slotSize :: int
  em_imageUrl :: "string option"
  em_isActive :: bool
  em_isFree :: bool
  em_claimLimitPerUser :: int

record event_purchase =
  ep_userId :: int
  ep_eventId :: int
  ep_eventMinerId :: int
  ep_pricePaid :: dec8
  ep_currency :: string

text \<open>The columns of a catalogue machine that concern the shop; \<open>sl_isReward\<close>: a faucet or shortlink gives it.\<close>

record shop_listing =
  sl_minerId :: int
  sl_price :: number
  sl_isActive :: bool
  sl_showInShop :: bool
  sl_isReward :: bool

text \<open>Balances in currencies other than POL are a function of user and currency.\<close>

record offer_store = store +
  of_events :: "offer_event list"
  of_miners :: "event_miner list"
  of_purchases :: "event_purchase list"
  of_listings :: "shop_listing list"
  of_coins :: "int \<Rightarrow> string \<Rightarrow> dec8"
  of_notifications :: "notification list"

datatype offer_error =
  OfferNotFound | OfferExpired | OfferUnavailable | ClaimLimit | OfferInsufficient | OutOfStock | StockBusy | OfferServer
| InvalidMiner | InvalidQuantity | MinerNotFound | MinerDataInvalid | SlotSizeInvalid

subsection \<open>Events and stock\<close>

definition SUPPORTED_OFFER_CURRENCIES :: "string list" where
  "SUPPORTED_OFFER_CURRENCIES = [''POL'', ''BTC'', ''ETH'', ''USDT'', ''USDC'', ''ZER'']"

definition normalizeOfferCurrency :: "string \<Rightarrow> string" where
  "normalizeOfferCurrency currency =
     (let c = toUpperCase (if currency = '''' then ''POL'' else currency) in if c \<in> set SUPPORTED_OFFER_CURRENCIES then c else ''POL'')"

definition isOfferEventLiveAt :: "millis \<Rightarrow> offer_event \<Rightarrow> bool" where
  "isOfferEventLiveAt now e \<longleftrightarrow> oe_deletedAt e = None \<and> oe_isActive e \<and> oe_startsAt e \<le> now \<and> now \<le> oe_endsAt e"

definition isOfferEventActiveForPublic :: "millis \<Rightarrow> offer_event \<Rightarrow> bool" where
  "isOfferEventActiveForPublic = isOfferEventLiveAt"

definition filterPublicOfferEvents :: "offer_event list \<Rightarrow> millis \<Rightarrow> offer_event list" where
  "filterPublicOfferEvents events now = filter (isOfferEventActiveForPublic now) events"

definition hasEventMinerStock :: "event_miner \<Rightarrow> bool" where
  "hasEventMinerStock m \<longleftrightarrow> em_isActive m \<and> (em_stockUnlimited m \<or> (case em_stockCount m of None \<Rightarrow> False | Some c \<Rightarrow> em_soldCount m < c))"

definition stockOf :: "event_miner \<Rightarrow> int" where
  "stockOf m = (case em_stockCount m of None \<Rightarrow> 0 | Some c \<Rightarrow> c)"

definition getUserBalanceNumber :: "int \<Rightarrow> string \<Rightarrow> offer_store \<Rightarrow> number" where
  "getUserBalanceNumber userId currency s =
     (let c = normalizeOfferCurrency currency
      in if c = ''POL'' then (case polOf userId s of None \<Rightarrow> 0 | Some b \<Rightarrow> toNumber b) else toNumber (of_coins s userId c))"

definition chargeCoins :: "int \<Rightarrow> string \<Rightarrow> dec8 \<Rightarrow> offer_store \<Rightarrow> offer_store" where
  "chargeCoins userId c d s =
     (if c = ''POL'' then addPol userId (- d) s
      else s\<lparr>of_coins := (of_coins s)(userId := (of_coins s userId)(c := of_coins s userId c - d))\<rparr>)"

subsection \<open>Buying in an event\<close>

definition findEventMiner :: "int \<Rightarrow> offer_store \<Rightarrow> event_miner option" where
  "findEventMiner i s = find_first (\<lambda>m. em_id m = i) (of_miners s)"

definition eventOf :: "event_miner \<Rightarrow> offer_store \<Rightarrow> offer_event option" where
  "eventOf m s = find_first (\<lambda>e. oe_id e = em_eventId m) (of_events s)"

definition isClaimBy :: "int \<Rightarrow> int \<Rightarrow> event_purchase \<Rightarrow> bool" where
  "isClaimBy userId minerId p \<longleftrightarrow> ep_userId p = userId \<and> ep_eventMinerId p = minerId"

definition totalPriceOf :: "event_miner \<Rightarrow> nat \<Rightarrow> number" where
  "totalPriceOf m quantity = fl (toNumber (em_price m) * of_nat quantity)"

text \<open>What the transaction reads and decides before it changes anything.\<close>

definition purchasePlan :: "int \<Rightarrow> int \<Rightarrow> nat \<Rightarrow> millis \<Rightarrow> offer_store \<Rightarrow> offer_error + event_miner" where
  "purchasePlan userId eventMinerId quantity now s =
     (case findEventMiner eventMinerId s of None \<Rightarrow> Inl OfferNotFound | Some m \<Rightarrow>
      case eventOf m s of None \<Rightarrow> Inl OfferNotFound | Some e \<Rightarrow>
        if oe_deletedAt e \<noteq> None then Inl OfferNotFound
        else if \<not> isOfferEventLiveAt now e then Inl OfferExpired
        else if \<not> em_isActive m \<or> \<not> hasEventMinerStock m then Inl OfferUnavailable
        else if em_isFree m then
          (if 0 < em_claimLimitPerUser m \<and> em_claimLimitPerUser m < int (count_where (isClaimBy userId (em_id m)) (of_purchases s)) + int quantity
           then Inl ClaimLimit else Inr m)
        else if toNumber (em_price m) \<le> 0 then Inl OfferServer
        else if getUser userId s = None then Inl OfferNotFound
        else if getUserBalanceNumber userId (em_currency m) s < totalPriceOf m quantity then Inl OfferInsufficient
        else Inr m)"

text \<open>
  The counter is raised by an optimistic update.  Every pass of its loop reads the row and updates the
  tables as they are then, which other sales may have changed since the read: the update asks for the
  counter that was read (\<open>soldCount: m.soldCount\<close>) and counts the rows it changed.  A pass is a pair of
  the tables it reads and the tables it updates.
\<close>

definition lacksStock :: "event_miner \<Rightarrow> nat \<Rightarrow> bool" where
  "lacksStock m quantity \<longleftrightarrow> \<not> em_stockUnlimited m \<and> stockOf m - em_soldCount m < int quantity"

definition updateSoldCount :: "int \<Rightarrow> int \<Rightarrow> nat \<Rightarrow> offer_store \<Rightarrow> nat \<times> offer_store" where
  "updateSoldCount minerId soldCount quantity s =
     (let P = (\<lambda>m. em_id m = minerId \<and> em_soldCount m = soldCount)
      in (count_where P (of_miners s),
          s\<lparr>of_miners := update_where P (\<lambda>m. m\<lparr>em_soldCount := em_soldCount m + int quantity\<rparr>) (of_miners s)\<rparr>))"

type_synonym stock_pass = "offer_store \<times> offer_store"

fun soldCountPasses :: "int \<Rightarrow> nat \<Rightarrow> stock_pass list \<Rightarrow> offer_error + offer_store" where
  "soldCountPasses minerId quantity [] = Inl StockBusy"
| "soldCountPasses minerId quantity ((seen, present) # passes) =
     (case findEventMiner minerId seen of None \<Rightarrow> Inl OfferNotFound | Some m \<Rightarrow>
        if lacksStock m quantity then Inl OutOfStock
        else let (count, t) = updateSoldCount minerId (em_soldCount m) quantity present
             in if count = 1 then Inr t else soldCountPasses minerId quantity passes)"

text \<open>Ten passes; then the stock is busy.\<close>

definition incrementSoldCountOptimistic :: "int \<Rightarrow> nat \<Rightarrow> stock_pass list \<Rightarrow> offer_error + offer_store" where
  "incrementSoldCountOptimistic minerId quantity passes = soldCountPasses minerId quantity (take 10 passes)"

text \<open>The passes of a request that no other overlaps.\<close>

definition alone :: "offer_store \<Rightarrow> stock_pass list" where
  "alone s = replicate 10 (s, s)"

definition eventSnapshot :: "event_miner \<Rightarrow> snapshot" where
  "eventSnapshot m = \<lparr>sn_minerId = None, sn_minerName = ''[Event] '' @ em_name m, sn_level = 1, sn_hashRate = em_hashRate m,
     sn_slotSize = (if 1 \<le> em_slotSize m \<and> em_slotSize m \<le> 2 then em_slotSize m else 1),
     sn_imageUrl = or_string (em_imageUrl m) (Some ''/machines/reward1.png'')\<rparr>"

definition purchaseRecord :: "int \<Rightarrow> event_miner \<Rightarrow> event_purchase" where
  "purchaseRecord userId m = \<lparr>ep_userId = userId, ep_eventId = em_eventId m, ep_eventMinerId = em_id m,
     ep_pricePaid = (if em_isFree m then 0 else em_price m), ep_currency = normalizeOfferCurrency (em_currency m)\<rparr>"

definition giveMachines :: "int \<Rightarrow> snapshot \<Rightarrow> nat \<Rightarrow> millis \<Rightarrow> (offer_error, unit, 'a store_scheme) program" where
  "giveMachines userId snap quantity now s =
     (case bulkCreateInventoryWithOwnedMachinesTx userId snap quantity now s of (Inl e, t) \<Rightarrow> (Inl OfferServer, t) | (Inr u, t) \<Rightarrow> (Inr u, t))"

text \<open>
  The writes.  The update of the counter locks the machine's row until the transaction ends, so no other
  sale of the machine comes between it and the rest, which goes on from the tables it left.
\<close>

definition purchaseWritesOf ::
  "(number \<Rightarrow> dec8) \<Rightarrow> stock_pass list \<Rightarrow> int \<Rightarrow> event_miner \<Rightarrow> nat \<Rightarrow> millis \<Rightarrow> (offer_error, unit, offer_store) program" where
  "purchaseWritesOf dec8_of passes userId m quantity now s =
     (case incrementSoldCountOptimistic (em_id m) quantity passes of Inl e \<Rightarrow> throw e s
      | Inr t \<Rightarrow>
          (let s1 = (if em_isFree m then t else chargeCoins userId (normalizeOfferCurrency (em_currency m)) (dec8_of (totalPriceOf m quantity)) t)
           in giveMachines userId (eventSnapshot m) quantity now
                (s1\<lparr>of_purchases := of_purchases s1 @ replicate quantity (purchaseRecord userId m)\<rparr>)))"

definition offerPurchaseCommit ::
  "(number \<Rightarrow> dec8) \<Rightarrow> stock_pass list \<Rightarrow> int \<Rightarrow> event_miner \<Rightarrow> nat \<Rightarrow> millis \<Rightarrow> (offer_error, unit, offer_store) program" where
  "offerPurchaseCommit dec8_of passes userId m quantity now s =
     (case transaction (purchaseWritesOf dec8_of passes userId m quantity now) s of (Inl e, t) \<Rightarrow> (Inl e, t)
      | (Inr u, t) \<Rightarrow>
          (let t1 = (if \<not> em_isFree m \<and> normalizeOfferCurrency (em_currency m) = ''POL''
                     then logCall (BalanceDelta userId (- totalPriceOf m quantity)) t else t)
           in ret u (t1\<lparr>of_notifications := of_notifications t1 @ [\<lparr>nt_userId = userId,
                nt_title = (if em_isFree m then ''Maquina gratis coletada!'' else ''Oferta especial''), nt_type = ''success''\<rparr>]\<rparr>)))"

definition purchaseEventMinerForUser ::
  "(number \<Rightarrow> dec8) \<Rightarrow> stock_pass list \<Rightarrow> int \<Rightarrow> int \<Rightarrow> nat \<Rightarrow> millis \<Rightarrow> (offer_error, unit, offer_store) program" where
  "purchaseEventMinerForUser dec8_of passes userId eventMinerId quantity now s =
     (case purchasePlan userId eventMinerId quantity now s of Inl e \<Rightarrow> throw e s
      | Inr m \<Rightarrow> offerPurchaseCommit dec8_of passes userId m quantity now s)"

text \<open>\<open>Math.max(1, Math.min(25, parseInt(quantity || 1) || 1))\<close>; \<open>None\<close>: not a number.\<close>

definition offerQuantity :: "int option \<Rightarrow> nat" where
  "offerQuantity q = nat (max 1 (min 25 (case q of None \<Rightarrow> 1 | Some n \<Rightarrow> if n = 0 then 1 else n)))"

definition purchaseOfferMiner ::
  "(number \<Rightarrow> dec8) \<Rightarrow> stock_pass list \<Rightarrow> int \<Rightarrow> int option \<Rightarrow> int option \<Rightarrow> millis \<Rightarrow> (offer_error, unit, offer_store) program" where
  "purchaseOfferMiner dec8_of passes userId eventMinerId quantity now s =
     (case eventMinerId of None \<Rightarrow> throw InvalidMiner s
      | Some i \<Rightarrow> if i \<le> 0 then throw InvalidMiner s
                  else purchaseEventMinerForUser dec8_of passes userId i (offerQuantity quantity) now s)"

subsection \<open>Listing events\<close>

record event_miner_view =
  ew_id :: int
  ew_price :: number
  ew_inStock :: bool
  ew_remaining :: "int option"
  ew_userClaimCount :: int

record offer_event_view =
  vw_id :: int
  vw_isLive :: bool
  vw_miners :: "event_miner_view list"

definition serializeMinerPublic :: "(int \<Rightarrow> int) \<Rightarrow> event_miner \<Rightarrow> event_miner_view" where
  "serializeMinerPublic claimMap m =
     \<lparr>ew_id = em_id m, ew_price = toNumber (em_price m), ew_inStock = hasEventMinerStock m,
      ew_remaining = (if em_stockUnlimited m \<or> em_stockCount m = None then None else Some (max 0 (stockOf m - em_soldCount m))),
      ew_userClaimCount = claimMap (em_id m)\<rparr>"

definition serializeEventPublic :: "(int \<Rightarrow> int) \<Rightarrow> millis \<Rightarrow> offer_store \<Rightarrow> offer_event \<Rightarrow> offer_event_view" where
  "serializeEventPublic claimMap now s e =
     \<lparr>vw_id = oe_id e, vw_isLive = isOfferEventActiveForPublic now e,
      vw_miners = map (serializeMinerPublic claimMap)
        (sort_key em_id (filter (\<lambda>m. em_eventId m = oe_id e \<and> em_isActive m) (of_miners s)))\<rparr>"

definition buildPublicOfferEventsWhere :: "millis \<Rightarrow> offer_event \<Rightarrow> bool" where
  "buildPublicOfferEventsWhere now e \<longleftrightarrow> oe_deletedAt e = None \<and> oe_isActive e \<and> now \<le> oe_endsAt e"

definition listActiveOfferEvents :: "int \<Rightarrow> millis \<Rightarrow> offer_store \<Rightarrow> offer_event_view list" where
  "listActiveOfferEvents userId now s =
     map (serializeEventPublic (\<lambda>i. if userId = 0 then 0 else int (count_where (isClaimBy userId i) (of_purchases s))) now s)
       (sort_key oe_startsAt (sort_key oe_endsAt (filter (buildPublicOfferEventsWhere now) (of_events s))))"

definition getOfferEventDetail :: "int option \<Rightarrow> millis \<Rightarrow> offer_store \<Rightarrow> offer_error + offer_event_view" where
  "getOfferEventDetail eventId now s =
     (case eventId of None \<Rightarrow> Inl InvalidMiner | Some i \<Rightarrow>
        if i \<le> 0 then Inl InvalidMiner
        else case find_first (\<lambda>e. oe_id e = i \<and> isOfferEventLiveAt now e) (of_events s) of
          None \<Rightarrow> Inl OfferNotFound | Some e \<Rightarrow> Inr (serializeEventPublic (\<lambda>_. 0) now s e))"

subsection \<open>The shop\<close>

definition inShop :: "shop_listing \<Rightarrow> bool" where
  "inShop l \<longleftrightarrow> sl_isActive l \<and> sl_showInShop l \<and> \<not> sl_isReward l"

definition catalogRow :: "shop_listing \<Rightarrow> offer_store \<Rightarrow> catalog_miner option" where
  "catalogRow l s = find_first (\<lambda>c. cat_id c = sl_minerId l) (st_miners s)"

definition listActiveMiners :: "int \<Rightarrow> int \<Rightarrow> offer_store \<Rightarrow> shop_listing list \<times> int" where
  "listActiveMiners page pageSize s =
     (let rows = sort_key sl_minerId (filter inShop (of_listings s))
      in (take (nat pageSize) (drop (nat ((page - 1) * pageSize)) rows), int (length rows)))"

text \<open>\<open>None\<close>: the parameter is not an integer.\<close>

definition listMiners :: "int option \<Rightarrow> int option \<Rightarrow> offer_store \<Rightarrow> int \<times> int \<times> shop_listing list \<times> int" where
  "listMiners rawPage rawPageSize s =
     (let page = (case rawPage of None \<Rightarrow> 1 | Some p \<Rightarrow> if 0 < p then p else 1);
          pageSize = (case rawPageSize of None \<Rightarrow> 24 | Some n \<Rightarrow> min (max n 6) 48);
          (miners, total) = listActiveMiners page pageSize s
      in (page, pageSize, miners, total))"

definition getActiveMinerById :: "int \<Rightarrow> offer_store \<Rightarrow> (shop_listing \<times> catalog_miner) option" where
  "getActiveMinerById minerId s =
     (case find_first (\<lambda>l. sl_minerId l = minerId \<and> inShop l) (of_listings s) of None \<Rightarrow> None
      | Some l \<Rightarrow> map_option (\<lambda>c. (l, c)) (catalogRow l s))"

text \<open>The checks before the transaction: the catalogue row and the total price.\<close>

definition shopOrder :: "int \<Rightarrow> int option \<Rightarrow> int option \<Rightarrow> offer_store \<Rightarrow> offer_error + (catalog_miner \<times> nat \<times> number)" where
  "shopOrder maxBulk minerId quantity s =
     (case minerId of None \<Rightarrow> Inl InvalidMiner | Some i \<Rightarrow>
      if i \<le> 0 then Inl InvalidMiner
      else case quantity of None \<Rightarrow> Inl InvalidQuantity | Some n \<Rightarrow>
        if n < 1 \<or> maxBulk < n then Inl InvalidQuantity
        else case getActiveMinerById i s of None \<Rightarrow> Inl MinerNotFound
        | Some (l, c) \<Rightarrow>
            if sl_price l \<le> 0 \<or> cat_baseHashRate c \<le> 0 then Inl MinerDataInvalid
            else if \<not> (1 \<le> (if cat_slotSize c = 0 then 1 else cat_slotSize c) \<and> cat_slotSize c \<le> 2) then Inl SlotSizeInvalid
            else Inr (c, nat n, fl (sl_price l * of_int n)))"

definition shopSnapshot :: "catalog_miner \<Rightarrow> snapshot" where
  "shopSnapshot c = \<lparr>sn_minerId = Some (cat_id c), sn_minerName = cat_name c, sn_level = 1, sn_hashRate = cat_baseHashRate c,
     sn_slotSize = (if cat_slotSize c = 0 then 1 else cat_slotSize c), sn_imageUrl = or_string (cat_imageUrl c) (Some ''/machines/reward1.png'')\<rparr>"

definition shopAffords :: "int \<Rightarrow> number \<Rightarrow> offer_store \<Rightarrow> bool" where
  "shopAffords userId totalPrice s \<longleftrightarrow> (case polOf userId s of None \<Rightarrow> False | Some b \<Rightarrow> \<not> toNumber b < totalPrice)"

definition shopWrites ::
  "(number \<Rightarrow> dec8) \<Rightarrow> int \<Rightarrow> catalog_miner \<Rightarrow> nat \<Rightarrow> number \<Rightarrow> millis \<Rightarrow> (offer_error, number, offer_store) program" where
  "shopWrites dec8_of userId c quantity totalPrice now s =
     (let s1 = addPol userId (- dec8_of totalPrice) s
      in and_then (giveMachines userId (shopSnapshot c) quantity now)
           (\<lambda>_. ret (case polOf userId s1 of None \<Rightarrow> 0 | Some b \<Rightarrow> toNumber b)) s1)"

definition shopCommit ::
  "(number \<Rightarrow> dec8) \<Rightarrow> int \<Rightarrow> catalog_miner \<Rightarrow> nat \<Rightarrow> number \<Rightarrow> millis \<Rightarrow> (offer_error, number, offer_store) program" where
  "shopCommit dec8_of userId c quantity totalPrice now s =
     (case transaction (shopWrites dec8_of userId c quantity totalPrice now) s of (Inl e, t) \<Rightarrow> (Inl e, t)
      | (Inr b, t) \<Rightarrow>
          (let t1 = logCall (BalanceDelta userId (- totalPrice)) t
           in ret b (t1\<lparr>of_notifications := of_notifications t1 @
                [\<lparr>nt_userId = userId, nt_title = ''Compra Realizada'', nt_type = ''success''\<rparr>]\<rparr>)))"

definition purchaseMiner ::
  "(number \<Rightarrow> dec8) \<Rightarrow> int \<Rightarrow> int \<Rightarrow> int option \<Rightarrow> int option \<Rightarrow> millis \<Rightarrow> (offer_error, number, offer_store) program" where
  "purchaseMiner dec8_of maxBulk userId minerId quantity now s =
     (case shopOrder maxBulk minerId quantity s of Inl e \<Rightarrow> throw e s
      | Inr (c, n, totalPrice) \<Rightarrow>
          if \<not> shopAffords userId totalPrice s then throw OfferInsufficient s
          else shopCommit dec8_of userId c n totalPrice now s)"

end
