(* ===== verification/OfferProofs.thy ===== *)
theory OfferProofs
  imports Offers QuestInv
begin

section \<open>Stock\<close>

text \<open>
  What sales keep: a machine's counter is the number of its purchases and never passes its stock,
  whatever plans the sales were decided on.
\<close>

definition stock_ok :: "offer_store \<Rightarrow> bool" where
  "stock_ok s \<longleftrightarrow> unique_key em_id (of_miners s)
     \<and> (\<forall>m \<in> set (of_miners s). em_soldCount m = int (count_where (\<lambda>p. ep_eventMinerId p = em_id m) (of_purchases s))
          \<and> (em_stockUnlimited m \<or> em_soldCount m \<le> max 0 (stockOf m)))"

lemma count_where_replicate: "count_where P (replicate n x) = (if P x then n else 0)"
  by (induction n) auto

lemma more_offers:
  fixes s t :: offer_store
  assumes "store.more t = store.more s"
  shows "of_miners t = of_miners s" "of_purchases t = of_purchases s" "of_coins t = of_coins s" "of_events t = of_events s"
  using assms by (cases s; cases t; simp)+

lemmas framed_offers = more_offers [OF framed_def [THEN iffD1, THEN conjunct1]]

lemma framed_bulk: "bulkCreateInventoryWithOwnedMachinesTx u snap n now s = (Inr x, t) \<Longrightarrow> framed s t"
proof (induction n arbitrary: s)
  case (Suc n)
  then obtain y s1 where "createInventoryWithOwnedMachineTx u snap now None s = (Inr y, s1)"
    and r: "bulkCreateInventoryWithOwnedMachinesTx u snap n now s1 = (Inr x, t)"
    by (auto simp: and_then_Inr_iff)
  then have "framed s s1" unfolding createInventoryWithOwnedMachineTx_def by (auto simp: and_then_Inr_iff intro: framed_trans frames)
  then show ?case using Suc.IH [OF r] by (rule framed_trans)
qed (simp add: ret_def)

lemma framed_giveMachines: "giveMachines u snap n now s = (Inr x, t) \<Longrightarrow> framed s t"
  by (auto simp: giveMachines_def intro: framed_bulk split: prod.splits sum.splits)

lemma chargeCoins_tables [simp]: "of_miners (chargeCoins u c d s) = of_miners s" "of_purchases (chargeCoins u c d s) = of_purchases s"
  by (simp_all add: chargeCoins_def framed_offers [OF framed_addPol])

subsection \<open>A sale\<close>

lemma findEventMiner_D: "findEventMiner i s = Some m \<Longrightarrow> m \<in> set (of_miners s) \<and> em_id m = i"
  unfolding findEventMiner_def by (drule find_first_Some_conj) simp

text \<open>
  The passes that lost change nothing; the one that hits updates the tables it found, where the counter
  is still the one it read.
\<close>

lemma passes_append:
  "soldCountPasses i q ps = Inl StockBusy \<Longrightarrow> soldCountPasses i q (ps @ rest) = soldCountPasses i q rest"
  by (induction i q ps rule: soldCountPasses.induct) (auto split: option.splits if_splits prod.splits)

lemma passes_take: "soldCountPasses i q ps = Inl StockBusy \<Longrightarrow> soldCountPasses i q (take n ps) = Inl StockBusy"
proof (induction i q ps arbitrary: n rule: soldCountPasses.induct)
  case (2 i q seen present passes)
  then show ?case by (cases n) (auto split: option.splits if_splits prod.splits)
qed simp

lemma increment_last:
  assumes "incrementSoldCountOptimistic i q (lost @ [(seen, s)]) = Inr t" and "soldCountPasses i q lost = Inl StockBusy"
  obtains r where "findEventMiner i seen = Some r" "\<not> lacksStock r q" "updateSoldCount i (em_soldCount r) q s = (1, t)"
proof -
  have "soldCountPasses i q [(seen, s)] = Inr t"
  proof (cases "length lost < 10")
    case True
    then have "take 10 (lost @ [(seen, s)]) = lost @ [(seen, s)]" by simp
    with assms(1) passes_append [OF assms(2)] show ?thesis by (simp only: incrementSoldCountOptimistic_def)
  next
    case False
    then have "take 10 (lost @ [(seen, s)]) = take 10 lost" by simp
    with assms(1) passes_take [OF assms(2)] show ?thesis by (simp add: incrementSoldCountOptimistic_def)
  qed
  then show thesis using that by (auto split: option.splits if_splits prod.splits)
qed

lemma commit_tables:
  assumes "offerPurchaseCommit dec8_of (lost @ [(seen, s)]) u m q now s = (Inr x, t)"
    and lost: "soldCountPasses (em_id m) q lost = Inl StockBusy"
  obtains r where "findEventMiner (em_id m) seen = Some r" "\<not> lacksStock r q"
    "count_where (\<lambda>k. em_id k = em_id m \<and> em_soldCount k = em_soldCount r) (of_miners s) = 1"
    "of_miners t = update_where (\<lambda>k. em_id k = em_id m \<and> em_soldCount k = em_soldCount r)
        (\<lambda>k. k\<lparr>em_soldCount := em_soldCount k + int q\<rparr>) (of_miners s)"
    "of_purchases t = of_purchases s @ replicate q (purchaseRecord u m)"
proof -
  let ?ps = "lost @ [(seen, s)]"
  obtain s1 s2 where i: "incrementSoldCountOptimistic (em_id m) q ?ps = Inr s1"
    and g: "giveMachines u (eventSnapshot m) q now s2 = (Inr (), snd (transaction (purchaseWritesOf dec8_of ?ps u m q now) s))"
    and s2: "of_miners s2 = of_miners s1" "of_purchases s2 = of_purchases s1 @ replicate q (purchaseRecord u m)"
    and t: "of_miners t = of_miners (snd (transaction (purchaseWritesOf dec8_of ?ps u m q now) s))"
      "of_purchases t = of_purchases (snd (transaction (purchaseWritesOf dec8_of ?ps u m q now) s))"
    using assms(1) unfolding offerPurchaseCommit_def
    by (cases "transaction (purchaseWritesOf dec8_of ?ps u m q now) s")
      (auto simp: purchaseWritesOf_def transaction_Inr_iff throw_def Let_def ret_def framed_offers [OF framed_log(1)]
        split: sum.splits)
  from i lost obtain r where r: "findEventMiner (em_id m) seen = Some r" "\<not> lacksStock r q"
    "updateSoldCount (em_id m) (em_soldCount r) q s = (1, s1)" by (rule increment_last)
  then show thesis using that [OF r(1,2)] framed_offers [OF framed_giveMachines [OF g]] s2 t
    by (auto simp: updateSoldCount_def Let_def)
qed

subsection \<open>The machines on sale\<close>

text \<open>What a sale leaves of a machine: its id and its stock, of which every state tells the same.\<close>

definition termsOf :: "offer_store \<Rightarrow> (int \<times> bool \<times> int option) list" where
  "termsOf s = map (\<lambda>m. (em_id m, em_stockUnlimited m, em_stockCount m)) (of_miners s)"

lemma termsOf_find:
  assumes "termsOf s = termsOf s0" and "findEventMiner i s0 = Some r"
  shows "\<exists>k. findEventMiner i s = Some k \<and> em_stockUnlimited k = em_stockUnlimited r \<and> em_stockCount k = em_stockCount r"
proof -
  have "map (\<lambda>m. (em_id m, em_stockUnlimited m, em_stockCount m)) xs = map (\<lambda>m. (em_id m, em_stockUnlimited m, em_stockCount m)) ys
    \<Longrightarrow> find_first (\<lambda>m. em_id m = i) ys = Some r
    \<Longrightarrow> \<exists>k. find_first (\<lambda>m. em_id m = i) xs = Some k \<and> em_stockUnlimited k = em_stockUnlimited r \<and> em_stockCount k = em_stockCount r" for xs ys
    by (induction xs arbitrary: ys) (auto split: if_splits)
  with assms show ?thesis by (simp add: termsOf_def findEventMiner_def)
qed

lemma commit_Inl:
  assumes "offerPurchaseCommit dec8_of ps u m q now s = (Inl e, t)"
  shows "t = s"
proof -
  obtain x t0 where tx: "transaction (purchaseWritesOf dec8_of ps u m q now) s = (x, t0)" by force
  with assms have "x = Inl e" "t0 = t" by (auto simp: offerPurchaseCommit_def Let_def ret_def split: sum.splits)
  with tx show ?thesis by (auto dest: transaction_Inl)
qed

lemma stock_ok_commit:
  assumes ok: "stock_ok s" and terms: "termsOf s = termsOf seen"
    and c: "offerPurchaseCommit dec8_of (lost @ [(seen, s)]) u m q now s = (r, t)"
    and lost: "soldCountPasses (em_id m) q lost = Inl StockBusy"
  shows "stock_ok t \<and> termsOf t = termsOf s"
proof (cases r)
  case (Inl e)
  with c commit_Inl have "t = s" by blast
  with ok show ?thesis by simp
next
  case (Inr x)
  from c [unfolded Inr] lost obtain r where r: "findEventMiner (em_id m) seen = Some r" "\<not> lacksStock r q"
    and hit: "count_where (\<lambda>k. em_id k = em_id m \<and> em_soldCount k = em_soldCount r) (of_miners s) = 1"
    and t: "of_miners t = update_where (\<lambda>k. em_id k = em_id m \<and> em_soldCount k = em_soldCount r)
        (\<lambda>k. k\<lparr>em_soldCount := em_soldCount k + int q\<rparr>) (of_miners s)"
      "of_purchases t = of_purchases s @ replicate q (purchaseRecord u m)" by (rule commit_tables)
  from termsOf_find [OF terms r(1)] obtain k where k: "findEventMiner (em_id m) s = Some k"
    "em_stockUnlimited k = em_stockUnlimited r" "em_stockCount k = em_stockCount r" by blast
  have uq: "unique_key em_id (of_miners s)" using ok by (simp add: stock_ok_def)
  have one: "n = k" if "n \<in> set (of_miners s)" "em_id n = em_id m" for n
    using unique_key_eqD [OF uq that(1)] findEventMiner_D [OF k(1)] that(2) by simp
  have "\<exists>n \<in> set (of_miners s). em_id n = em_id m \<and> em_soldCount n = em_soldCount r"
    using hit count_where_0_iff [of "\<lambda>k. em_id k = em_id m \<and> em_soldCount k = em_soldCount r" "of_miners s"] by auto
  then have sold: "em_soldCount k = em_soldCount r" using one by blast
  then have room: "em_stockUnlimited k \<or> em_soldCount k + int q \<le> stockOf k"
    using r(2) k(2,3) by (auto simp: lacksStock_def stockOf_def)
  have rows: "of_miners t = update_where (\<lambda>k. em_id k = em_id m) (\<lambda>k. k\<lparr>em_soldCount := em_soldCount k + int q\<rparr>) (of_miners s)"
    unfolding t(1) update_where_def using one sold by (auto intro!: map_cong)
  have "em_soldCount n = int (count_where (\<lambda>p. ep_eventMinerId p = em_id n) (of_purchases t)) \<and> (em_stockUnlimited n \<or> em_soldCount n \<le> max 0 (stockOf n))"
    if n: "n \<in> set (of_miners t)" for n
  proof -
    from n consider "n \<in> set (of_miners s)" "em_id n \<noteq> em_id m" | n0 where "n0 \<in> set (of_miners s)" "em_id n0 = em_id m" "n = n0\<lparr>em_soldCount := em_soldCount n0 + int q\<rparr>"
      unfolding rows set_update_where by blast
    then show ?thesis
    proof cases
      case 1
      then show ?thesis using ok by (auto simp: stock_ok_def t(2) count_where_replicate purchaseRecord_def)
    next
      case 2
      then have "n0 = k" by (intro one)
      with 2 ok room show ?thesis by (auto simp: stock_ok_def t(2) count_where_replicate purchaseRecord_def stockOf_def)
    qed
  qed
  moreover have "unique_key em_id (of_miners t)" using uq by (simp add: rows)
  moreover have "termsOf t = termsOf s" by (simp add: termsOf_def rows update_where_def)
  ultimately show ?thesis unfolding stock_ok_def by blast
qed

lemma stock_ok_frame: "stock_ok s \<Longrightarrow> of_miners t = of_miners s \<Longrightarrow> of_purchases t = of_purchases s \<Longrightarrow> stock_ok t"
  unfolding stock_ok_def by metis

lemma shop_tables:
  assumes "shopCommit dec8_of u c n p now s = (r, t)"
  shows "of_miners t = of_miners s" and "of_purchases t = of_purchases s"
proof -
  have "of_miners t = of_miners s \<and> of_purchases t = of_purchases s"
  proof (cases "transaction (shopWrites dec8_of u c n p now) s")
    case (Pair o1 s1)
    show ?thesis
    proof (cases o1)
      case (Inl e)
      then show ?thesis using assms Pair transaction_Inl [of "shopWrites dec8_of u c n p now" s e s1] by (simp add: shopCommit_def)
    next
      case (Inr b)
      then obtain g where g: "giveMachines u (shopSnapshot c) n now (addPol u (- dec8_of p) s) = (Inr g, s1)"
        using Pair by (auto simp: shopWrites_def Let_def transaction_Inr_iff and_then_Inr_iff ret_def)
      from framed_trans [OF framed_addPol framed_giveMachines [OF g]] have f: "framed s s1" .
      show ?thesis using assms Pair Inr framed_offers [OF f]
        by (auto simp: shopCommit_def Let_def ret_def framed_offers [OF framed_log(1)])
    qed
  qed
  then show "of_miners t = of_miners s" "of_purchases t = of_purchases s" by simp_all
qed

subsection \<open>Overlapping sales\<close>

text \<open>
  A state is the tables and all their earlier states.  A sale commits a plan made in any of them; the
  passes that lost have read and tried to update any of them, and the last one has read any of them and
  updates the present tables.  A request that no other overlaps sees the present tables only.
\<close>

type_synonym offer_history = "offer_store \<times> offer_store list"

inductive offer_step :: "(number \<Rightarrow> dec8) \<Rightarrow> offer_history \<Rightarrow> offer_history \<Rightarrow> bool" for dec8_of where
  Sale: "s0 \<in> set (s # hs) \<Longrightarrow> purchasePlan u i q now0 s0 = Inr m
    \<Longrightarrow> set lost \<subseteq> set (s # hs) \<times> set (s # hs) \<Longrightarrow> soldCountPasses (em_id m) q lost = Inl StockBusy \<Longrightarrow> seen \<in> set (s # hs)
    \<Longrightarrow> offerPurchaseCommit dec8_of (lost @ [(seen, s)]) u m q now s = (r, t) \<Longrightarrow> offer_step dec8_of (s, hs) (t, s # hs)"
| Request: "purchaseOfferMiner dec8_of (alone s) u i k now s = (r, t) \<Longrightarrow> offer_step dec8_of (s, hs) (t, s # hs)"
| ShopSale: "shopCommit dec8_of u c n p now s = (r', t) \<Longrightarrow> offer_step dec8_of (s, hs) (t, s # hs)"

text \<open>Machines put on sale with nothing sold and no negative stock.\<close>

definition offer_init :: "offer_history \<Rightarrow> bool" where
  "offer_init x \<longleftrightarrow> unique_key em_id (of_miners (fst x)) \<and> of_purchases (fst x) = []
     \<and> list_all (\<lambda>m. em_soldCount m = 0) (of_miners (fst x)) \<and> snd x = []"

definition history_ok :: "offer_history \<Rightarrow> bool" where
  "history_ok x \<longleftrightarrow> stock_ok (fst x) \<and> (\<forall>h \<in> set (snd x). termsOf h = termsOf (fst x))"

text \<open>A request that runs alone hits with its first pass.\<close>

lemma passes_alone:
  assumes uq: "unique_key em_id (of_miners s)"
  shows "soldCountPasses i q (replicate (Suc n) (s, s)) = soldCountPasses i q [(s, s)]"
proof -
  have "fst (updateSoldCount i (em_soldCount m) q s) = 1" if m: "findEventMiner i s = Some m" for m
  proof -
    note r = findEventMiner_D [OF m]
    have "count_where (\<lambda>k. em_id k = i \<and> em_soldCount k = em_soldCount m) (of_miners s) = count_where (\<lambda>k. em_id k = em_id m) (of_miners s)"
      using r unique_key_eqD [OF uq] by (intro count_where_cong) metis
    moreover have "\<dots> = 1" using count_key [OF uq] r by blast
    ultimately show ?thesis by (simp only: updateSoldCount_def Let_def fst_conv)
  qed
  then show ?thesis by (auto split: option.splits prod.splits)
qed

lemma commit_alone:
  assumes "unique_key em_id (of_miners s)"
  shows "offerPurchaseCommit dec8_of (alone s) u m q now s = offerPurchaseCommit dec8_of ([] @ [(s, s)]) u m q now s"
proof -
  have "incrementSoldCountOptimistic i q (alone s) = incrementSoldCountOptimistic i q [(s, s)]" for i
    using passes_alone [OF assms, of i q 9] by (simp add: incrementSoldCountOptimistic_def alone_def)
  then show ?thesis by (simp add: offerPurchaseCommit_def purchaseWritesOf_def [abs_def])
qed

lemma request_ok:
  assumes ok: "stock_ok s" and r: "purchaseOfferMiner dec8_of (alone s) u i q now s = (r, t)"
  shows "stock_ok t \<and> termsOf t = termsOf s"
proof -
  have uq: "unique_key em_id (of_miners s)" using ok by (simp add: stock_ok_def)
  from r consider "t = s" | m n where "offerPurchaseCommit dec8_of (alone s) u m n now s = (r, t)"
    by (auto simp: purchaseOfferMiner_def purchaseEventMinerForUser_def throw_def split: option.splits if_splits sum.splits)
  then show ?thesis
  proof cases
    case (2 m n)
    from stock_ok_commit [OF ok refl 2 [unfolded commit_alone [OF uq]]] show ?thesis by simp
  qed (use ok in simp)
qed

lemma shop_ok:
  assumes "stock_ok s" and "shopCommit dec8_of u c n p now s = (r, t)"
  shows "stock_ok t \<and> termsOf t = termsOf s"
  using stock_ok_frame [OF assms(1) shop_tables [OF assms(2)]] shop_tables(1) [OF assms(2)] by (simp add: termsOf_def)

interpretation offers: machine offer_init "offer_step dec8_of" history_ok for dec8_of
proof unfold_locales
  show "history_ok x" if "offer_init x" for x
    using that by (auto simp: offer_init_def history_ok_def stock_ok_def list_all_iff)
  show "history_ok y" if "history_ok x" "offer_step dec8_of x y" for x y
    using that(2)
  proof cases
    case (Sale s0 s hs u i q now0 m lost seen now r t)
    have ok: "stock_ok s" and h: "\<forall>x \<in> set (s # hs). termsOf x = termsOf s" using that(1) Sale(1) by (auto simp: history_ok_def)
    then have "stock_ok t \<and> termsOf t = termsOf s"
      using Sale(7) by (intro stock_ok_commit [OF ok _ Sale(8) Sale(6)]) auto
    with h show ?thesis by (simp add: history_ok_def Sale(2))
  next
    case (Request s u i k now r t hs)
    with that(1) request_ok show ?thesis by (fastforce simp: history_ok_def)
  next
    case (ShopSale u c n p now s r t hs)
    with that(1) shop_ok show ?thesis by (fastforce simp: history_ok_def)
  qed
qed

end
