(* ===== verification/OfferClaims.thy ===== *)
theory OfferClaims
  imports OfferProofs
begin

section \<open>Properties of the offers\<close>

definition offer_user :: "int \<Rightarrow> user" where
  "offer_user i = \<lparr>usr_id = i, usr_name = ''u'', usr_username = None, usr_isBanned = False, usr_polBalance = 1000000000,
     usr_blkBalance = 0, usr_blkLocked = 0, usr_walletAddress = None, usr_miningPayoutMode = ''pol'', usr_refCode = None,
     usr_referredBy = None\<rparr>"

text \<open>A free machine, one per user, and a machine for 2 coins with a stock of 3.\<close>

definition free_miner :: event_miner where
  "free_miner = \<lparr>em_id = 1, em_eventId = 5, em_name = ''gift'', em_price = 0, em_hashRate = 1, em_currency = ''POL'',
     em_stockUnlimited = True, em_stockCount = None, em_soldCount = 0, em_slotSize = 1, em_imageUrl = None, em_isActive = True,
     em_isFree = True, em_claimLimitPerUser = 1\<rparr>"

definition rare_miner :: event_miner where
  "rare_miner = free_miner\<lparr>em_id := 2, em_price := 200000000, em_stockUnlimited := False, em_stockCount := Some 3, em_isFree := False\<rparr>"

definition offer_demo :: offer_store where
  "offer_demo = \<lparr>st_users = [offer_user 1, offer_user 2], st_games = [], st_gamePowers = [], st_ytPowers = [], st_gpuPowers = [],
     st_v2Powers = [], st_miners = [], st_eventMiners = [], st_owned = [], st_inventory = [], st_userMiners = [], st_audit = [],
     st_calls = [], st_next = 100,
     of_events = [\<lparr>oe_id = 5, oe_title = ''e'', oe_startsAt = 0, oe_endsAt = 1000, oe_isActive = True, oe_deletedAt = None\<rparr>],
     of_miners = [free_miner, rare_miner], of_purchases = [], of_listings = [], of_coins = (\<lambda>u c. 0), of_notifications = []\<rparr>"

lemma offer_demo_init: "offer_init (offer_demo, [])"
  by (simp add: offer_init_def offer_demo_def free_miner_def rare_miner_def unique_key_def)

subsection \<open>Stock\<close>

text \<open>
  C25: while the administration leaves the machines on sale as they are, whatever sales and free claims
  run and overlap, each decided on tables however old, with passes of the loop on the counter that read
  old tables and lose or hit, the counter of every machine is the number of its purchases and a limited
  stock is never oversold.
\<close>

lemma stock_never_oversold:
  assumes "reaches offer_init (offer_step dec8_of) (s, hs)" and "m \<in> set (of_miners s)"
  shows "em_soldCount m = int (count_where (\<lambda>p. ep_eventMinerId p = em_id m) (of_purchases s))
    \<and> (em_stockUnlimited m \<or> em_soldCount m \<le> max 0 (stockOf m))"
  using offers.reaches_inv [OF assms(1)] assms(2) unfolding history_ok_def stock_ok_def by auto

text \<open>
  Two of three machines are sold.  A second request for two was decided before that sale: its first pass
  still reads three left and loses, its second reads one left and the request is refused.  A third one, for
  one machine, loses a pass in the same way, hits with the next, and the stock is used up.
\<close>

definition offer_sold :: offer_store where
  "offer_sold = snd (purchaseOfferMiner round8_away (alone offer_demo) 1 (Some 2) (Some 2) 50 offer_demo)"

definition offer_full :: offer_store where
  "offer_full = snd (offerPurchaseCommit round8_away ([(offer_demo, offer_sold)] @ [(offer_sold, offer_sold)]) 2 rare_miner 1 60 offer_sold)"

lemma offer_eval:
  "of_miners offer_sold = [free_miner, rare_miner\<lparr>em_soldCount := 2\<rparr>] \<and> of_miners offer_full = [free_miner, rare_miner\<lparr>em_soldCount := 3\<rparr>]"
proof -
  have "(case purchaseOfferMiner round8_away (alone offer_demo) 1 (Some 2) (Some 2) 50 offer_demo of (_, s) \<Rightarrow>
      (of_miners s, of_miners (snd (offerPurchaseCommit round8_away ([(offer_demo, s)] @ [(s, s)]) 2 rare_miner 1 60 s))))
    = ([free_miner, rare_miner\<lparr>em_soldCount := 2\<rparr>], [free_miner, rare_miner\<lparr>em_soldCount := 3\<rparr>])" by code_simp
  then show ?thesis by (simp add: offer_sold_def offer_full_def split_beta)
qed

lemma stale_pass_loses: "soldCountPasses 2 1 [(offer_demo, offer_sold)] = Inl StockBusy"
  "incrementSoldCountOptimistic 2 2 [(offer_demo, offer_sold), (offer_sold, offer_sold)] = Inl OutOfStock"
proof -
  have d: "of_miners offer_demo = [free_miner, rare_miner]" by (simp add: offer_demo_def)
  have s: "of_miners offer_sold = [free_miner, rare_miner\<lparr>em_soldCount := 2\<rparr>]" using offer_eval by blast
  show "soldCountPasses 2 1 [(offer_demo, offer_sold)] = Inl StockBusy"
    "incrementSoldCountOptimistic 2 2 [(offer_demo, offer_sold), (offer_sold, offer_sold)] = Inl OutOfStock"
    by (simp_all add: incrementSoldCountOptimistic_def findEventMiner_def lacksStock_def updateSoldCount_def Let_def stockOf_def
        d s rare_miner_def free_miner_def)
qed

lemma offer_full_reached: "reaches offer_init (offer_step round8_away) (offer_full, [offer_sold, offer_demo])"
proof -
  have "reaches offer_init (offer_step round8_away) (offer_demo, [])" using offer_demo_init by (rule reaches.start)
  moreover have "purchaseOfferMiner round8_away (alone offer_demo) 1 (Some 2) (Some 2) 50 offer_demo
      = (fst (purchaseOfferMiner round8_away (alone offer_demo) 1 (Some 2) (Some 2) 50 offer_demo), offer_sold)"
    by (simp add: offer_sold_def)
  ultimately have r: "reaches offer_init (offer_step round8_away) (offer_sold, [offer_demo])"
    by (blast intro: reaches.move offer_step.Request)
  let ?ps = "[(offer_demo, offer_sold)] @ [(offer_sold, offer_sold)]"
  have "offerPurchaseCommit round8_away ?ps 2 rare_miner 1 60 offer_sold
      = (fst (offerPurchaseCommit round8_away ?ps 2 rare_miner 1 60 offer_sold), offer_full)"
    by (simp add: offer_full_def)
  moreover have "purchasePlan 2 2 1 40 offer_demo = Inr rare_miner" by code_simp
  moreover have "soldCountPasses (em_id rare_miner) 1 [(offer_demo, offer_sold)] = Inl StockBusy"
    using stale_pass_loses(1) by (simp add: rare_miner_def)
  ultimately have "offer_step round8_away (offer_sold, [offer_demo]) (offer_full, [offer_sold, offer_demo])"
    by (intro offer_step.Sale [of offer_demo offer_sold "[offer_demo]" 2 2 1 40 rare_miner "[(offer_demo, offer_sold)]" offer_sold]) simp_all
  with r show ?thesis by (rule reaches.move)
qed

lemma stock_never_oversold_witness:
  "count_where (\<lambda>p. ep_eventMinerId p = 2) (of_purchases offer_full) = 3 \<and> of_miners offer_full = [free_miner, rare_miner\<lparr>em_soldCount := 3\<rparr>]"
proof -
  have "rare_miner\<lparr>em_soldCount := 3\<rparr> \<in> set (of_miners offer_full)" using offer_eval by simp
  from stock_never_oversold [OF offer_full_reached this]
  have "int (count_where (\<lambda>p. ep_eventMinerId p = 2) (of_purchases offer_full)) = 3" by (simp add: rare_miner_def)
  with offer_eval show ?thesis by simp
qed

subsection \<open>The limit of free claims\<close>

text \<open>
  The number of a user's claims is read before anything is written: of two requests that both read
  before either commits, both commit, and the user has two machines of a limit of one.
\<close>

lemma concurrent_claims_exceed_limit:
  "\<exists>s1 s2. purchasePlan 1 1 1 50 offer_demo = Inr free_miner \<and> em_claimLimitPerUser free_miner = 1
     \<and> offerPurchaseCommit round8_away (alone offer_demo) 1 free_miner 1 50 offer_demo = (Inr (), s1)
     \<and> offerPurchaseCommit round8_away (alone s1) 1 free_miner 1 60 s1 = (Inr (), s2)
     \<and> count_where (isClaimBy 1 1) (of_purchases s2) = 2"
proof -
  let ?o1 = "offerPurchaseCommit round8_away (alone offer_demo) 1 free_miner 1 50 offer_demo"
  let ?o2 = "\<lambda>s. offerPurchaseCommit round8_away (alone s) 1 free_miner 1 60 s"
  have "case ?o1 of (x, s1) \<Rightarrow> x = Inr () \<and> (case ?o2 s1 of (y, s2) \<Rightarrow> y = Inr () \<and> count_where (isClaimBy 1 1) (of_purchases s2) = 2)"
    by code_simp
  then obtain s1 s2 where "?o1 = (Inr (), s1)" "?o2 s1 = (Inr (), s2)" "count_where (isClaimBy 1 1) (of_purchases s2) = 2" by auto
  moreover have "purchasePlan 1 1 1 50 offer_demo = Inr free_miner" by code_simp
  moreover have "em_claimLimitPerUser free_miner = 1" by (simp add: free_miner_def)
  ultimately show ?thesis by blast
qed

end
