(* ===== verification/JsParse.thy ===== *)
theory JsParse
  imports Calendar JsNumber
begin

section \<open>Reading numbers from strings\<close>

text \<open>
  \<open>parseInt(s, 10)\<close> and \<open>parseFloat(s)\<close>: leading white space is skipped, the longest prefix that reads
  as a number counts, the rest is ignored.  \<open>None\<close> is a result that is not a finite number.  As in
  \<open>JsNumber\<close> the limits of the exponent are left out.
\<close>

definition signOf :: "string \<Rightarrow> bool \<times> string" where
  "signOf s = (case s of [] \<Rightarrow> (False, s) | c # r \<Rightarrow> if c = CHR ''-'' then (True, r) else if c = CHR ''+'' then (False, r) else (False, s))"

definition parseInt10 :: "string \<Rightarrow> int option" where
  "parseInt10 s =
     (let (neg, r) = signOf (dropWhile is_space s); ds = takeWhile isDigit r
      in if ds = [] then None else Some (if neg then - parseDigits ds else parseDigits ds))"

definition fractionOf :: "string \<Rightarrow> string \<times> string" where
  "fractionOf s = (case s of [] \<Rightarrow> ([], s) | c # r \<Rightarrow> if c = CHR ''.'' then (takeWhile isDigit r, dropWhile isDigit r) else ([], s))"

definition exponentOf :: "string \<Rightarrow> int" where
  "exponentOf s = (case s of [] \<Rightarrow> 0 | c # r \<Rightarrow>
     if c = CHR ''e'' \<or> c = CHR ''E'' then (case parseInt10 r of None \<Rightarrow> 0 | Some e \<Rightarrow> if is_space (hd r) then 0 else e) else 0)"

definition parseFloat :: "string \<Rightarrow> number option" where
  "parseFloat s =
     (let (neg, r) = signOf (dropWhile is_space s); ip = takeWhile isDigit r;
          (fp, rest) = fractionOf (dropWhile isDigit r)
      in if ip = [] \<and> fp = [] then None
         else let v = fl (of_int (parseDigits (ip @ fp)) * 10 powi (exponentOf rest - int (length fp)))
              in Some (if neg then - v else v))"

lemma parseDigits_nonneg: "(\<And>c. c \<in> set s \<Longrightarrow> isDigit c) \<Longrightarrow> 0 \<le> parseDigits s"
proof (induction s rule: rev_induct)
  case (snoc c s)
  then show ?case using snoc.prems [of c] by (simp add: parseDigits_snoc digitVal_def isDigit_def)
qed (simp add: parseDigits_def)

text \<open>What the server prints, it reads back.\<close>

lemma parseInt10_show:
  assumes "0 \<le> n"
  shows "parseInt10 (show_int n) = Some n"
proof -
  have d: "\<forall>c \<in> set (show_int n). isDigit c" and ne: "show_int n \<noteq> []"
    using show_pos_digits [OF assms] assms by (auto simp: show_int_def)
  then obtain c r where s: "show_int n = c # r" and c: "isDigit c" by (cases "show_int n") auto
  have "int (of_char c) = (of_char c :: int)" by (rule of_nat_of_char)
  then have "\<not> is_space c" "c \<noteq> CHR ''-''" "c \<noteq> CHR ''+''" using c by (auto simp: isDigit_def is_space_def Let_def)
  then have sg: "signOf (dropWhile is_space (show_int n)) = (False, show_int n)" by (simp add: s signOf_def)
  have tw: "takeWhile isDigit (show_int n) = show_int n" using d by (simp add: takeWhile_eq_all_conv)
  show ?thesis by (simp add: parseInt10_def Let_def sg tw ne show_int_digits(1) [OF assms])
qed

end
