(* ===== verification/Offerwall.thy ===== *)
theory Offerwall
  imports DailyTasks JsParse
begin

section \<open>The internal offerwall\<close>

text \<open>
  \<open>server/services/internalOfferwall/internalOfferwallService.js\<close> with its constants, switch, minimum
  viewing time and reward (\<open>grantInternalOfferwallReward.js\<close>), and \<open>controllers/internalOfferwallController.js\<close>:
  a user starts an offer, opens the partner's page, submits, and is paid at once or after review.

  The handlers read an attempt first and write later, by its id: each is a plan made from what was read
  and the writes.  Transactions run at PostgreSQL's default isolation, so what a transaction read may be
  old when it writes as well.  The audit snapshot is an argument, an opaque string; the webhook is left out.
\<close>

record task_metadata =
  tm_requiredActions :: "string list"
  tm_targetCountryCodes :: "string list"
  tm_externalInfoUrl :: "string option"
  tm_verificationNote :: "string option"

record ow_offer =
  oo_id :: int
  oo_kind :: string
  oo_title :: string
  oo_description :: "string option"
  oo_iframeUrl :: "string option"
  oo_minViewSeconds :: int
  oo_rewardKind :: string
  oo_rewardBlkAmount :: "dec8 option"
  oo_rewardPolAmount :: "dec8 option"
  oo_rewardHashRate :: "number option"
  oo_rewardHashRateDays :: "int option"
  oo_dailyLimitPerUser :: int
  oo_sortOrder :: int
  oo_isActive :: bool
  oo_completionMode :: string
  oo_taskMetadata :: "task_metadata option"

record ow_attempt =
  oa_id :: int
  oa_userId :: int
  oa_offerId :: int
  oa_periodKey :: string
  oa_status :: string
  oa_startedAt :: millis
  oa_partnerOpenedAt :: "millis option"
  oa_submittedAt :: "millis option"
  oa_completedAt :: "millis option"
  oa_rewardGrantedAt :: "millis option"
  oa_auditSnapshot :: "string option"
  oa_adminNote :: "string option"

record frame_host =
  fh_id :: int
  fh_hostname :: string
  fh_isActive :: bool

text \<open>\<open>ow_allowlist\<close> is the process's cache of hosts; \<open>ow_db\<close> holds users, powers and the daily tasks.\<close>

record ow_store =
  ow_db :: quest_store
  ow_offers :: "ow_offer list"
  ow_attempts :: "ow_attempt list"
  ow_hosts :: "frame_host list"
  ow_allowlist :: "string list"
  ow_next :: int

datatype ow_error =
  FeatureDisabled | OwOfferNotFound | DailyLimit | AttemptNotFound | InvalidState | NotPtcOffer | NoPartnerUrl
| PartnerNotOpened | MinViewNotMet | Conflict | RewardConfigInvalid | PendingNotFound | OfferInactive | InvalidId | OwServerError

text \<open>Environment variables, the clock's zone, the column conversion, the URL parser (protocol, host, text) and \<open>String\<close> of a number.\<close>

record ow_env =
  we_enabled :: "string option"
  we_abandonAfterSec :: string
  we_allowHttp :: string
  we_zone :: "millis \<Rightarrow> int"
  we_dec8_of :: "number \<Rightarrow> dec8"
  we_v2Ok :: bool
  we_parseUrl :: "string \<Rightarrow> (string \<times> string \<times> string) option"
  we_showNumber :: "number \<Rightarrow> string"

definition OFFER_KIND_PTC_IFRAME :: string where "OFFER_KIND_PTC_IFRAME = ''PTC_IFRAME''"
definition OFFER_KIND_GENERAL_TASK :: string where "OFFER_KIND_GENERAL_TASK = ''GENERAL_TASK''"
definition COMPLETION_USER_SELF_CLAIM :: string where "COMPLETION_USER_SELF_CLAIM = ''USER_SELF_CLAIM''"
definition COMPLETION_ADMIN_APPROVAL :: string where "COMPLETION_ADMIN_APPROVAL = ''ADMIN_APPROVAL''"
definition ATTEMPT_STATUS_STARTED :: string where "ATTEMPT_STATUS_STARTED = ''STARTED''"
definition ATTEMPT_STATUS_PENDING_REVIEW :: string where "ATTEMPT_STATUS_PENDING_REVIEW = ''PENDING_REVIEW''"
definition ATTEMPT_STATUS_COMPLETED :: string where "ATTEMPT_STATUS_COMPLETED = ''COMPLETED''"
definition ATTEMPT_STATUS_REJECTED :: string where "ATTEMPT_STATUS_REJECTED = ''REJECTED''"
definition REWARD_BLK :: string where "REWARD_BLK = ''BLK''"
definition REWARD_POL :: string where "REWARD_POL = ''POL''"
definition REWARD_HASHRATE_TEMP :: string where "REWARD_HASHRATE_TEMP = ''HASHRATE_TEMP''"

lemmas attempt_status = ATTEMPT_STATUS_STARTED_def ATTEMPT_STATUS_PENDING_REVIEW_def ATTEMPT_STATUS_COMPLETED_def ATTEMPT_STATUS_REJECTED_def

definition isInternalOfferwallEnabled :: "ow_env \<Rightarrow> bool" where
  "isInternalOfferwallEnabled env =
     (toLowerCase (trim (case we_enabled env of None \<Rightarrow> ''1'' | Some v \<Rightarrow> v)) \<notin> {''0'', ''false'', ''off'', ''no''})"

subsection \<open>Rows\<close>

definition offerOf :: "ow_attempt \<Rightarrow> ow_store \<Rightarrow> ow_offer option" where
  "offerOf a s = find_first (\<lambda>k. oo_id k = oa_offerId a) (ow_offers s)"

definition attemptOpen :: "ow_attempt \<Rightarrow> bool" where
  "attemptOpen a \<longleftrightarrow> oa_status a = ATTEMPT_STATUS_STARTED \<or> oa_status a = ATTEMPT_STATUS_PENDING_REVIEW"

definition ofDay :: "int \<Rightarrow> int \<Rightarrow> string \<Rightarrow> ow_attempt \<Rightarrow> bool" where
  "ofDay userId offerId periodKey a \<longleftrightarrow> oa_userId a = userId \<and> oa_offerId a = offerId \<and> oa_periodKey a = periodKey"

text \<open>\<open>update\<close> by id throws when the row is gone.\<close>

definition updAttempt :: "int \<Rightarrow> (ow_attempt \<Rightarrow> ow_attempt) \<Rightarrow> (ow_error, unit, ow_store) program" where
  "updAttempt i f s =
     (if find_first (\<lambda>a. oa_id a = i) (ow_attempts s) = None then throw OwServerError s
      else ret () (s\<lparr>ow_attempts := update_where (\<lambda>a. oa_id a = i) f (ow_attempts s)\<rparr>))"

definition abandonStaleStartedAttempts :: "ow_env \<Rightarrow> int \<Rightarrow> string \<Rightarrow> millis \<Rightarrow> ow_store \<Rightarrow> ow_store" where
  "abandonStaleStartedAttempts env userId periodKey now s =
     (let raw = trim (we_abandonAfterSec env);
          parsed = (if raw = '''' then Some 86400 else parseInt10 raw);
          sec = (case parsed of Some n \<Rightarrow> if 300 \<le> n then n else 86400 | None \<Rightarrow> 86400)
      in s\<lparr>ow_attempts := delete_where (\<lambda>a. oa_userId a = userId \<and> oa_periodKey a = periodKey \<and> oa_status a = ATTEMPT_STATUS_STARTED
             \<and> oa_startedAt a < now - sec * 1000) (ow_attempts s)\<rparr>)"

subsection \<open>Listing\<close>

record offer_shape =
  os_id :: int
  os_kind :: string
  os_title :: string
  os_description :: "string option"
  os_iframeUrl :: "string option"
  os_minViewSeconds :: int
  os_rewardKind :: string
  os_rewardBlkAmount :: "dec8 option"
  os_rewardPolAmount :: "dec8 option"
  os_rewardHashRate :: "number option"
  os_rewardHashRateDays :: "int option"
  os_completionMode :: string
  os_sortOrder :: int
  os_taskMetadata :: "task_metadata option"

definition publicOfferShape :: "ow_offer \<Rightarrow> offer_shape" where
  "publicOfferShape row = \<lparr>os_id = oo_id row, os_kind = oo_kind row, os_title = oo_title row, os_description = oo_description row,
     os_iframeUrl = (if oo_kind row = OFFER_KIND_PTC_IFRAME then oo_iframeUrl row else None), os_minViewSeconds = oo_minViewSeconds row,
     os_rewardKind = oo_rewardKind row, os_rewardBlkAmount = oo_rewardBlkAmount row, os_rewardPolAmount = oo_rewardPolAmount row,
     os_rewardHashRate = oo_rewardHashRate row, os_rewardHashRateDays = oo_rewardHashRateDays row,
     os_completionMode = oo_completionMode row, os_sortOrder = oo_sortOrder row, os_taskMetadata = oo_taskMetadata row\<rparr>"

record attempt_shape =
  as_id :: int
  as_offerId :: int
  as_status :: string
  as_startedAt :: millis
  as_partnerOpenedAt :: "millis option"

definition attemptShape :: "ow_attempt \<Rightarrow> attempt_shape" where
  "attemptShape a = \<lparr>as_id = oa_id a, as_offerId = oa_offerId a, as_status = oa_status a, as_startedAt = oa_startedAt a,
     as_partnerOpenedAt = oa_partnerOpenedAt a\<rparr>"

definition activeOffers :: "ow_store \<Rightarrow> ow_offer list" where
  "activeOffers s = sort_key oo_sortOrder (sort_key oo_id (filter oo_isActive (ow_offers s)))"

definition openAttemptsOf :: "int \<Rightarrow> string \<Rightarrow> ow_store \<Rightarrow> (attempt_shape \<times> offer_shape) list" where
  "openAttemptsOf userId periodKey s = concat (map (\<lambda>a. case offerOf a s of
       Some k \<Rightarrow> if oo_isActive k then [(attemptShape a, publicOfferShape k)] else [] | None \<Rightarrow> [])
     (filter (\<lambda>a. oa_userId a = userId \<and> oa_periodKey a = periodKey \<and> attemptOpen a) (ow_attempts s)))"

definition userListOffers ::
  "ow_env \<Rightarrow> int \<Rightarrow> millis \<Rightarrow> (ow_error, offer_shape list \<times> (attempt_shape \<times> offer_shape) list, ow_store) program" where
  "userListOffers env userId now s =
     (if \<not> isInternalOfferwallEnabled env then throw FeatureDisabled s
      else let periodKey = getDailyTaskPeriodKey (we_zone env) now; s1 = abandonStaleStartedAttempts env userId periodKey now s
           in ret (map publicOfferShape (activeOffers s1), openAttemptsOf userId periodKey s1) s1)"

subsection \<open>Starting and opening\<close>

text \<open>What a start finds: a refusal, the open attempt to continue, or nothing, so that it creates one.\<close>

definition startPlan :: "ow_env \<Rightarrow> int \<Rightarrow> int \<Rightarrow> millis \<Rightarrow> ow_store \<Rightarrow> ow_error + ow_attempt option" where
  "startPlan env userId offerId now s =
     (if \<not> isInternalOfferwallEnabled env then Inl FeatureDisabled
      else case find_first (\<lambda>k. oo_id k = offerId \<and> oo_isActive k) (ow_offers s) of None \<Rightarrow> Inl OwOfferNotFound
      | Some offer \<Rightarrow>
          (let periodKey = getDailyTaskPeriodKey (we_zone env) now;
               completedCount = count_where (\<lambda>a. ofDay userId offerId periodKey a \<and> oa_status a = ATTEMPT_STATUS_COMPLETED) (ow_attempts s)
           in if oo_dailyLimitPerUser offer \<le> int completedCount then Inl DailyLimit
              else Inr (find_first (\<lambda>a. ofDay userId offerId periodKey a \<and> attemptOpen a) (ow_attempts s))))"

definition newAttempt :: "int \<Rightarrow> int \<Rightarrow> int \<Rightarrow> string \<Rightarrow> millis \<Rightarrow> ow_attempt" where
  "newAttempt i userId offerId periodKey now = \<lparr>oa_id = i, oa_userId = userId, oa_offerId = offerId, oa_periodKey = periodKey,
     oa_status = ATTEMPT_STATUS_STARTED, oa_startedAt = now, oa_partnerOpenedAt = None, oa_submittedAt = None, oa_completedAt = None,
     oa_rewardGrantedAt = None, oa_auditSnapshot = None, oa_adminNote = None\<rparr>"

definition createAttempt :: "ow_env \<Rightarrow> int \<Rightarrow> int \<Rightarrow> millis \<Rightarrow> (ow_error, ow_attempt, ow_store) program" where
  "createAttempt env userId offerId now s =
     (if getUser userId (ow_db s) = None then throw OwServerError s
      else let a = newAttempt (ow_next s) userId offerId (getDailyTaskPeriodKey (we_zone env) now) now
           in ret a (s\<lparr>ow_attempts := ow_attempts s @ [a], ow_next := ow_next s + 1\<rparr>))"

definition userStartOffer :: "ow_env \<Rightarrow> int \<Rightarrow> int \<Rightarrow> millis \<Rightarrow> (ow_error, attempt_shape, ow_store) program" where
  "userStartOffer env userId offerId now s =
     (case startPlan env userId offerId now s of Inl e \<Rightarrow> throw e s
      | Inr (Some existing) \<Rightarrow> ret (attemptShape existing) s
      | Inr None \<Rightarrow> and_then (createAttempt env userId offerId now) (\<lambda>a. ret (attemptShape a)) s)"

text \<open>The attempt of the user with its offer, as every later handler reads it.\<close>

definition ownAttempt :: "ow_env \<Rightarrow> int \<Rightarrow> int \<Rightarrow> ow_store \<Rightarrow> ow_error + (ow_attempt \<times> ow_offer)" where
  "ownAttempt env userId attemptId s =
     (if \<not> isInternalOfferwallEnabled env then Inl FeatureDisabled
      else case find_first (\<lambda>a. oa_id a = attemptId \<and> oa_userId a = userId) (ow_attempts s) of None \<Rightarrow> Inl AttemptNotFound
      | Some a \<Rightarrow> (case offerOf a s of None \<Rightarrow> Inl AttemptNotFound
          | Some k \<Rightarrow> if \<not> oo_isActive k then Inl AttemptNotFound
                      else if oa_status a \<noteq> ATTEMPT_STATUS_STARTED then Inl InvalidState else Inr (a, k)))"

definition openPlan :: "ow_env \<Rightarrow> int \<Rightarrow> int \<Rightarrow> ow_store \<Rightarrow> ow_error + ow_attempt" where
  "openPlan env userId attemptId s =
     (case ownAttempt env userId attemptId s of Inl e \<Rightarrow> Inl e
      | Inr (a, k) \<Rightarrow> if toUpperCase (oo_kind k) \<noteq> OFFER_KIND_PTC_IFRAME then Inl NotPtcOffer
                     else if trim (case oo_iframeUrl k of None \<Rightarrow> '''' | Some u \<Rightarrow> u) = '''' then Inl NoPartnerUrl else Inr a)"

definition openWrite :: "int \<Rightarrow> millis \<Rightarrow> (ow_error, unit, ow_store) program" where
  "openWrite attemptId now = updAttempt attemptId (\<lambda>a. a\<lparr>oa_partnerOpenedAt := Some now\<rparr>)"

definition userMarkPartnerOpened :: "ow_env \<Rightarrow> int \<Rightarrow> int \<Rightarrow> millis \<Rightarrow> (ow_error, millis, ow_store) program" where
  "userMarkPartnerOpened env userId attemptId now s =
     (case openPlan env userId attemptId s of Inl e \<Rightarrow> throw e s | Inr a \<Rightarrow> and_then (openWrite attemptId now) (\<lambda>_. ret now) s)"

subsection \<open>Minimum viewing time\<close>

definition assertMinViewForSubmit :: "string \<Rightarrow> millis \<Rightarrow> millis option \<Rightarrow> millis \<Rightarrow> int \<Rightarrow> ow_error option" where
  "assertMinViewForSubmit offerKind startedAt partnerOpenedAt now minViewSeconds =
     (let minSec = max 0 minViewSeconds
      in if toUpperCase offerKind = OFFER_KIND_PTC_IFRAME then
           (case partnerOpenedAt of None \<Rightarrow> Some PartnerNotOpened
            | Some t \<Rightarrow> if fl (of_int (now - t) / 1000) < of_int minSec then Some MinViewNotMet else None)
         else if fl (of_int (now - startedAt) / 1000) < of_int minSec then Some MinViewNotMet else None)"

subsection \<open>The reward\<close>

definition OFFERWALL_GAME_SLUG :: string where "OFFERWALL_GAME_SLUG = ''internal-offerwall''"

definition getOrCreateOfferwallGameId :: "'a store_scheme \<Rightarrow> int \<times> 'a store_scheme" where
  "getOrCreateOfferwallGameId = upsertGame OFFERWALL_GAME_SLUG ''Internal Offerwall''"

definition grantAmount ::
  "(int \<Rightarrow> dec8 \<Rightarrow> quest_store \<Rightarrow> quest_store) \<Rightarrow> int \<Rightarrow> dec8 option \<Rightarrow> (ow_error, unit, quest_store) program" where
  "grantAmount add userId amount =
     (case amount of None \<Rightarrow> throw RewardConfigInvalid
      | Some amt \<Rightarrow> if amt \<le> 0 then throw RewardConfigInvalid else map_error (\<lambda>_. OwServerError) (creditBalance add userId amt))"

definition grantInternalOfferwallRewardInTx :: "int \<Rightarrow> ow_offer \<Rightarrow> millis \<Rightarrow> (ow_error, unit, quest_store) program" where
  "grantInternalOfferwallRewardInTx userId k now s =
     (let kind = toUpperCase (oo_rewardKind k)
      in if kind = REWARD_BLK then grantAmount addBlk userId (oo_rewardBlkAmount k) s
         else if kind = REWARD_POL then grantAmount addPol userId (oo_rewardPolAmount k) s
         else if kind = REWARD_HASHRATE_TEMP then
           (let hr = (case oo_rewardHashRate k of None \<Rightarrow> 0 | Some h \<Rightarrow> h);
                days = max 1 (min 365 (case truthyId (oo_rewardHashRateDays k) of None \<Rightarrow> 1 | Some d \<Rightarrow> d))
            in if \<not> 0 < hr then throw RewardConfigInvalid s
               else let (gameId, s1) = getOrCreateOfferwallGameId s
                    in ret () (createPowerGame userId gameId hr now (now + days * 86400000) s1))
         else throw RewardConfigInvalid s)"

definition onDb :: "(ow_error, unit, quest_store) program \<Rightarrow> (ow_error, unit, ow_store) program" where
  "onDb p s = (case p (ow_db s) of (r, db) \<Rightarrow> (r, s\<lparr>ow_db := db\<rparr>))"

text \<open>What both paths do once the reward is committed.\<close>

definition afterGrant :: "ow_env \<Rightarrow> int \<Rightarrow> ow_attempt \<Rightarrow> ow_offer \<Rightarrow> millis \<Rightarrow> quest_store \<Rightarrow> quest_store" where
  "afterGrant env userId a k now db =
     (let db1 = bumpDailyTasksForUser (we_dec8_of env) (we_zone env) userId ''INTERNAL_OFFERWALL'' (''iof-complete:'' @ show_int (oa_id a)) 1
                  None (Some (oa_offerId a)) now db
      in if toUpperCase (oo_rewardKind k) = REWARD_HASHRATE_TEMP
         then logCall (ReloadProfile userId) (logCall (SetBaseHashRate userId (syncUserBaseHashRate now (we_v2Ok env) userId db1)) db1)
         else db1)"

subsection \<open>Submitting\<close>

definition submitPlan :: "ow_env \<Rightarrow> int \<Rightarrow> int \<Rightarrow> millis \<Rightarrow> ow_store \<Rightarrow> ow_error + (ow_attempt \<times> ow_offer)" where
  "submitPlan env userId attemptId now s =
     (case ownAttempt env userId attemptId s of Inl e \<Rightarrow> Inl e
      | Inr (a, k) \<Rightarrow> (case assertMinViewForSubmit (oo_kind k) (oa_startedAt a) (oa_partnerOpenedAt a) now (oo_minViewSeconds k) of
          Some e \<Rightarrow> Inl e | None \<Rightarrow> Inr (a, k)))"

definition reviewWrite :: "int \<Rightarrow> millis \<Rightarrow> string \<Rightarrow> (ow_error, unit, ow_store) program" where
  "reviewWrite attemptId now snap = updAttempt attemptId
     (\<lambda>a. a\<lparr>oa_status := ATTEMPT_STATUS_PENDING_REVIEW, oa_submittedAt := Some now, oa_auditSnapshot := Some snap\<rparr>)"

text \<open>The transaction of a self-claim: the check it repeats, and its writes.\<close>

definition claimFresh :: "int \<Rightarrow> int \<Rightarrow> ow_store \<Rightarrow> bool" where
  "claimFresh userId attemptId s \<longleftrightarrow>
     find_first (\<lambda>a. oa_id a = attemptId \<and> oa_userId a = userId \<and> oa_status a = ATTEMPT_STATUS_STARTED) (ow_attempts s) \<noteq> None"

definition claimWrites :: "int \<Rightarrow> int \<Rightarrow> ow_offer \<Rightarrow> millis \<Rightarrow> string \<Rightarrow> (ow_error, unit, ow_store) program" where
  "claimWrites userId attemptId k now snap =
     and_then (onDb (grantInternalOfferwallRewardInTx userId k now)) (\<lambda>_. updAttempt attemptId
       (\<lambda>a. a\<lparr>oa_status := ATTEMPT_STATUS_COMPLETED, oa_submittedAt := Some now, oa_completedAt := Some now,
              oa_rewardGrantedAt := Some now, oa_auditSnapshot := Some snap\<rparr>))"

definition claimCommit :: "ow_env \<Rightarrow> int \<Rightarrow> ow_attempt \<Rightarrow> ow_offer \<Rightarrow> millis \<Rightarrow> string \<Rightarrow> (ow_error, unit, ow_store) program" where
  "claimCommit env userId a k now snap =
     and_then (transaction (claimWrites userId (oa_id a) k now snap)) (\<lambda>_. modify (\<lambda>s. s\<lparr>ow_db := afterGrant env userId a k now (ow_db s)\<rparr>))"

datatype submit_answer = SubmittedForReview | RewardGranted

definition userSubmitAttempt :: "ow_env \<Rightarrow> string \<Rightarrow> int \<Rightarrow> int \<Rightarrow> millis \<Rightarrow> (ow_error, submit_answer, ow_store) program" where
  "userSubmitAttempt env snap userId attemptId now s =
     (case submitPlan env userId attemptId now s of Inl e \<Rightarrow> throw e s
      | Inr (a, k) \<Rightarrow>
          if oo_completionMode k = COMPLETION_ADMIN_APPROVAL
          then and_then (reviewWrite (oa_id a) now snap) (\<lambda>_. ret SubmittedForReview) s
          else if \<not> claimFresh userId attemptId s then throw Conflict s
          else and_then (claimCommit env userId a k now snap) (\<lambda>_. ret RewardGranted) s)"

subsection \<open>Review\<close>

definition pendingAttempt :: "int \<Rightarrow> ow_store \<Rightarrow> ow_attempt option" where
  "pendingAttempt attemptId s = find_first (\<lambda>a. oa_id a = attemptId \<and> oa_status a = ATTEMPT_STATUS_PENDING_REVIEW) (ow_attempts s)"

definition approvePlan :: "int \<Rightarrow> ow_store \<Rightarrow> ow_error + (ow_attempt \<times> ow_offer)" where
  "approvePlan attemptId s =
     (case pendingAttempt attemptId s of None \<Rightarrow> Inl PendingNotFound
      | Some a \<Rightarrow> (case offerOf a s of None \<Rightarrow> Inl PendingNotFound | Some k \<Rightarrow> if \<not> oo_isActive k then Inl OfferInactive else Inr (a, k)))"

definition approveWrites :: "ow_attempt \<Rightarrow> ow_offer \<Rightarrow> millis \<Rightarrow> (ow_error, unit, ow_store) program" where
  "approveWrites a k now =
     and_then (onDb (grantInternalOfferwallRewardInTx (oa_userId a) k now)) (\<lambda>_. updAttempt (oa_id a)
       (\<lambda>a. a\<lparr>oa_status := ATTEMPT_STATUS_COMPLETED, oa_completedAt := Some now, oa_rewardGrantedAt := Some now\<rparr>))"

text \<open>Whatever the transaction throws reaches the controller, which answers 500.\<close>

definition approveCommit :: "ow_env \<Rightarrow> ow_attempt \<Rightarrow> ow_offer \<Rightarrow> millis \<Rightarrow> (ow_error, unit, ow_store) program" where
  "approveCommit env a k now =
     and_then (map_error (\<lambda>_. OwServerError) (transaction (approveWrites a k now)))
       (\<lambda>_. modify (\<lambda>s. s\<lparr>ow_db := afterGrant env (oa_userId a) a k now (ow_db s)\<rparr>))"

definition adminApproveAttempt :: "ow_env \<Rightarrow> int \<Rightarrow> millis \<Rightarrow> (ow_error, unit, ow_store) program" where
  "adminApproveAttempt env attemptId now s =
     (case approvePlan attemptId s of Inl e \<Rightarrow> throw e s
      | Inr (a, k) \<Rightarrow> if pendingAttempt attemptId s = None then throw OwServerError s else approveCommit env a k now s)"

definition rejectWrite :: "int \<Rightarrow> string option \<Rightarrow> millis \<Rightarrow> (ow_error, unit, ow_store) program" where
  "rejectWrite attemptId note now = updAttempt attemptId (\<lambda>a. a\<lparr>oa_status := ATTEMPT_STATUS_REJECTED, oa_completedAt := Some now,
     oa_adminNote := (case note of None \<Rightarrow> None | Some n \<Rightarrow> if n = '''' then None else Some (take 2000 n))\<rparr>)"

definition adminRejectAttempt :: "int \<Rightarrow> string option \<Rightarrow> millis \<Rightarrow> (ow_error, unit, ow_store) program" where
  "adminRejectAttempt attemptId note now s =
     (if pendingAttempt attemptId s = None then throw PendingNotFound s else rejectWrite attemptId note now s)"

text \<open>Attempts never submitted come first, then the latest submission; \<open>None\<close>: no filter, no limit.\<close>

definition adminListAttempts :: "string option \<Rightarrow> int option \<Rightarrow> int option \<Rightarrow> ow_store \<Rightarrow> ow_attempt list" where
  "adminListAttempts status offerId limit s =
     (let rows = filter (\<lambda>a. (case status of None \<Rightarrow> True | Some st \<Rightarrow> oa_status a = st)
            \<and> (case offerId of None \<Rightarrow> True | Some i \<Rightarrow> oa_offerId a = i)) (ow_attempts s);
          n = min 200 (max 1 (case truthyId limit of None \<Rightarrow> 50 | Some l \<Rightarrow> l))
      in take (nat n) (filter (\<lambda>a. oa_submittedAt a = None) rows
           @ sort_key (\<lambda>a. case oa_submittedAt a of None \<Rightarrow> 0 | Some t \<Rightarrow> - t) (filter (\<lambda>a. oa_submittedAt a \<noteq> None) rows)))"

subsection \<open>Handlers\<close>

text \<open>The id of the path is a string.\<close>

definition withId :: "string \<Rightarrow> (int \<Rightarrow> (ow_error, 'a, ow_store) program) \<Rightarrow> (ow_error, 'a, ow_store) program" where
  "withId raw f = (case parseInt10 raw of None \<Rightarrow> throw InvalidId | Some i \<Rightarrow> if i < 1 then throw InvalidId else f i)"

definition postStart :: "ow_env \<Rightarrow> int \<Rightarrow> string \<Rightarrow> millis \<Rightarrow> (ow_error, attempt_shape, ow_store) program" where
  "postStart env userId raw now = withId raw (\<lambda>offerId. userStartOffer env userId offerId now)"

definition postPartnerOpened :: "ow_env \<Rightarrow> int \<Rightarrow> string \<Rightarrow> millis \<Rightarrow> (ow_error, millis, ow_store) program" where
  "postPartnerOpened env userId raw now = withId raw (\<lambda>attemptId. userMarkPartnerOpened env userId attemptId now)"

definition postSubmit :: "ow_env \<Rightarrow> string \<Rightarrow> int \<Rightarrow> string \<Rightarrow> millis \<Rightarrow> (ow_error, submit_answer, ow_store) program" where
  "postSubmit env snap userId raw now = withId raw (\<lambda>attemptId. userSubmitAttempt env snap userId attemptId now)"

definition approveAttempt :: "ow_env \<Rightarrow> string \<Rightarrow> millis \<Rightarrow> (ow_error, unit, ow_store) program" where
  "approveAttempt env raw now = withId raw (\<lambda>i. adminApproveAttempt env i now)"

definition rejectAttempt :: "string \<Rightarrow> string option \<Rightarrow> millis \<Rightarrow> (ow_error, unit, ow_store) program" where
  "rejectAttempt raw note now = withId raw (\<lambda>i. adminRejectAttempt i note now)"

end
