(* ===== verification/OfferwallAdmin.thy ===== *)
theory OfferwallAdmin
  imports Offerwall
begin

section \<open>Administering the offerwall\<close>

text \<open>
  \<open>parseAdminOfferBody\<close> and the administration of offers and frame hosts in
  \<open>internalOfferwallService.js\<close> and \<open>controllers/adminInternalOfferwallController.js\<close>, with
  \<open>validateIframeUrl.js\<close>, \<open>iframeHostAllowlistCache.js\<close> and \<open>internalOfferwallTaskMetadata.js\<close>.

  A field of a JSON body is a \<open>js_value\<close>.  Printing a number and reading it back gives the same
  number, so \<open>parseFloat(String(x))\<close> is \<open>x\<close> and \<open>parseInt(String(x), 10)\<close> its integer part (where
  numbers print without an exponent, from 1e-6 to 1e21); elsewhere the printed form is \<open>we_showNumber\<close>.
\<close>

datatype js_value = JsUndefined | JsNull | JsText string | JsNum number | JsBool bool

definition stringOf :: "ow_env \<Rightarrow> js_value \<Rightarrow> string" where
  "stringOf env v = (case v of JsUndefined \<Rightarrow> ''undefined'' | JsNull \<Rightarrow> ''null'' | JsText s \<Rightarrow> s | JsNum x \<Rightarrow> we_showNumber env x
     | JsBool b \<Rightarrow> if b then ''true'' else ''false'')"

definition falsy :: "js_value \<Rightarrow> bool" where
  "falsy v \<longleftrightarrow> v \<in> {JsUndefined, JsNull, JsText '''', JsNum 0, JsBool False}"

definition nullish :: "js_value \<Rightarrow> bool" where
  "nullish v \<longleftrightarrow> v = JsUndefined \<or> v = JsNull"

text \<open>\<open>String(v || "")\<close>, \<open>parseInt(String(v ?? ""), 10)\<close> and \<open>parseFloat(String(v ?? ""))\<close>.\<close>

definition textOr :: "ow_env \<Rightarrow> js_value \<Rightarrow> string" where
  "textOr env v = (if falsy v then '''' else stringOf env v)"

definition intOf :: "js_value \<Rightarrow> int option" where
  "intOf v = (case v of JsText s \<Rightarrow> parseInt10 s | JsNum x \<Rightarrow> Some (if 0 \<le> x then \<lfloor>x\<rfloor> else - \<lfloor>- x\<rfloor>) | _ \<Rightarrow> None)"

definition floatOf :: "js_value \<Rightarrow> number option" where
  "floatOf v = (case v of JsText s \<Rightarrow> parseFloat s | JsNum x \<Rightarrow> Some x | _ \<Rightarrow> None)"

definition clampInt :: "js_value \<Rightarrow> int \<Rightarrow> int \<Rightarrow> int \<Rightarrow> int" where
  "clampInt v lo hi fallback = (case intOf v of None \<Rightarrow> fallback | Some n \<Rightarrow> min hi (max lo n))"

subsection \<open>Partner pages\<close>

datatype url_error = UrlRequired | UrlTooLong | UrlInvalid | UrlScheme | UrlHost | UrlNotAllowed string

definition hasSuffix :: "string \<Rightarrow> string \<Rightarrow> bool" where
  "hasSuffix suf s \<longleftrightarrow> length suf \<le> length s \<and> drop (length s - length suf) s = suf"

definition hostMatchesIframeAllowlist :: "string \<Rightarrow> string list \<Rightarrow> bool" where
  "hostMatchesIframeAllowlist host allowed =
     (let h = toLowerCase host
      in h \<noteq> '''' \<and> (h \<in> set allowed \<or> list_ex (\<lambda>entry. let e = toLowerCase entry in e \<noteq> '''' \<and> (h = e \<or> hasSuffix (''.'' @ e) h)) allowed))"

definition isAllowHttpIframe :: "ow_env \<Rightarrow> bool" where
  "isAllowHttpIframe env \<longleftrightarrow> toLowerCase (trim (we_allowHttp env)) \<in> {''1'', ''true'', ''yes''}"

definition validateIframeUrl ::
  "(string \<Rightarrow> (string \<times> string \<times> string) option) \<Rightarrow> string \<Rightarrow> bool \<Rightarrow> string list \<Rightarrow> url_error + string" where
  "validateIframeUrl parse raw allowHttp allowed =
     (let trimmed = trim raw
      in if trimmed = '''' then Inl UrlRequired
         else if 2048 < length trimmed then Inl UrlTooLong
         else case parse trimmed of None \<Rightarrow> Inl UrlInvalid
         | Some (protocol, hostname, href) \<Rightarrow>
             (let proto = toLowerCase protocol; host = toLowerCase hostname
              in if proto \<noteq> ''https'' \<and> \<not> (proto = ''http'' \<and> allowHttp) then Inl UrlScheme
                 else if host = '''' \<or> host = ''localhost'' then Inl UrlHost
                 else if \<not> hostMatchesIframeAllowlist host allowed then Inl (UrlNotAllowed host)
                 else Inr href))"

definition isIpv4 :: "string \<Rightarrow> bool" where
  "isIpv4 h = (let ps = splitOn (CHR ''.'') h in length ps = 4 \<and> list_all (\<lambda>p. p \<noteq> [] \<and> list_all isDigit p) ps)"

definition addNew :: "string \<Rightarrow> string list \<Rightarrow> string list" where
  "addNew x out = (if x \<in> set out then out else out @ [x])"

definition expandCspFrameSrcHostSources :: "string list \<Rightarrow> string list" where
  "expandCspFrameSrcHostSources allowed = foldl (\<lambda>out h.
     let host = toLowerCase (trim h)
     in if host = '''' \<or> CHR '':'' \<in> set host then out
        else if isIpv4 host then addNew (''https://'' @ host) out
        else addNew (''https://*.'' @ host) (addNew (''https://'' @ host) out)) [] allowed"

definition BUILTIN_IFRAME_HOSTS :: "string list" where
  "BUILTIN_IFRAME_HOSTS = [''zerads.com'', ''youtube.com'', ''youtube-nocookie.com'', ''blockminer.space'']"

definition hostChar :: "char \<Rightarrow> bool" where
  "hostChar c \<longleftrightarrow> isDigit c \<or> 97 \<le> (of_char c :: int) \<and> (of_char c :: int) \<le> 122 \<or> c = CHR ''.'' \<or> c = CHR ''-''"

definition validateFrameHostnameForStorage :: "string \<Rightarrow> string option" where
  "validateFrameHostnameForStorage host =
     (let h = toLowerCase (trim host)
      in if h = '''' \<or> h = ''localhost'' then None
         else if 253 < length h \<or> CHR '':'' \<in> set h \<or> CHR ''['' \<in> set h \<or> CHR '']'' \<in> set h then None
         else if \<not> list_all hostChar h \<or> hd h = CHR ''.'' \<or> last h = CHR ''.'' \<or> list_ex (\<lambda>p. p = []) (splitOn (CHR ''.'') h) then None
         else if isIpv4 h then None
         else Some h)"

definition upsertActiveFrameHost :: "string \<Rightarrow> ow_store \<Rightarrow> bool \<times> ow_store" where
  "upsertActiveFrameHost host s =
     (case validateFrameHostnameForStorage host of None \<Rightarrow> (False, s)
      | Some h \<Rightarrow>
          (True, if find_first (\<lambda>r. fh_hostname r = h) (ow_hosts s) = None
                 then s\<lparr>ow_hosts := ow_hosts s @ [\<lparr>fh_id = ow_next s, fh_hostname = h, fh_isActive = True\<rparr>], ow_next := ow_next s + 1\<rparr>
                 else s\<lparr>ow_hosts := update_where (\<lambda>r. fh_hostname r = h) (\<lambda>r. r\<lparr>fh_isActive := True\<rparr>) (ow_hosts s)\<rparr>))"

definition hostOfUrl :: "ow_env \<Rightarrow> string \<Rightarrow> string list" where
  "hostOfUrl env u = (case we_parseUrl env u of None \<Rightarrow> []
     | Some (_, hostname, _) \<Rightarrow> (let h = toLowerCase hostname in if h \<noteq> '''' \<and> h \<noteq> ''localhost'' then [h] else []))"

definition offerUrls :: "ow_offer \<Rightarrow> string list" where
  "offerUrls k =
     (if oo_kind k = OFFER_KIND_PTC_IFRAME then (case oo_iframeUrl k of None \<Rightarrow> [] | Some u \<Rightarrow> [u])
      else if oo_kind k = OFFER_KIND_GENERAL_TASK then
        (case oo_taskMetadata k of None \<Rightarrow> [] | Some tm \<Rightarrow>
           (case tm_externalInfoUrl tm of None \<Rightarrow> [] | Some u \<Rightarrow> if trim u = '''' then [] else [u]))
      else [])"

definition refreshIframeHostAllowlistCache :: "ow_env \<Rightarrow> ow_store \<Rightarrow> ow_store" where
  "refreshIframeHostAllowlistCache env s = s\<lparr>ow_allowlist := BUILTIN_IFRAME_HOSTS
     @ filter (\<lambda>h. h \<noteq> '''') (map (\<lambda>r. toLowerCase (trim (fh_hostname r))) (filter fh_isActive (ow_hosts s)))
     @ concat (map (\<lambda>k. concat (map (hostOfUrl env) (offerUrls k))) (ow_offers s))\<rparr>"

definition adminDeactivateFrameHostById :: "ow_env \<Rightarrow> int \<Rightarrow> (ow_error, unit, ow_store) program" where
  "adminDeactivateFrameHostById env i s =
     (if i < 1 then throw InvalidId s
      else if find_first (\<lambda>r. fh_id r = i) (ow_hosts s) = None then throw OwOfferNotFound s
      else ret () (refreshIframeHostAllowlistCache env
             (s\<lparr>ow_hosts := update_where (\<lambda>r. fh_id r = i) (\<lambda>r. r\<lparr>fh_isActive := False\<rparr>) (ow_hosts s)\<rparr>)))"

subsection \<open>Task metadata\<close>

text \<open>What \<open>asObject\<close> makes of the field: nothing, or an object whose lists may be absent or no lists.\<close>

datatype raw_list = ListAbsent | NotAList | Items "js_value list"

record raw_metadata =
  rm_requiredActions :: raw_list
  rm_targetCountryCodes :: raw_list
  rm_externalInfoUrl :: js_value
  rm_verificationNote :: js_value

datatype meta_error =
  ActionsNotArray | TooManyActions | ActionTooLong | CountriesNotArray | TooManyCountries | BadCountry | InfoUrlForbidden | InfoUrl url_error

definition itemText :: "ow_env \<Rightarrow> js_value \<Rightarrow> string" where
  "itemText env v = trim (if nullish v then '''' else stringOf env v)"

fun readActions :: "string list \<Rightarrow> meta_error + string list" where
  "readActions [] = Inr []"
| "readActions (x # xs) =
     (if x = '''' then readActions xs
      else if 500 < length x then Inl ActionTooLong
      else case readActions xs of Inl e \<Rightarrow> Inl e | Inr ys \<Rightarrow> Inr (x # ys))"

definition isCountryCode :: "string \<Rightarrow> bool" where
  "isCountryCode u \<longleftrightarrow> length u = 2 \<and> list_all (\<lambda>c. 65 \<le> (of_char c :: int) \<and> (of_char c :: int) \<le> 90) u"

definition metaActions :: "ow_env \<Rightarrow> raw_list \<Rightarrow> meta_error + string list" where
  "metaActions env l = (case l of ListAbsent \<Rightarrow> Inr [] | NotAList \<Rightarrow> Inl ActionsNotArray
     | Items xs \<Rightarrow> if 15 < length xs then Inl TooManyActions else readActions (map (itemText env) xs))"

definition metaCountries :: "ow_env \<Rightarrow> raw_list \<Rightarrow> meta_error + string list" where
  "metaCountries env l = (case l of ListAbsent \<Rightarrow> Inr [] | NotAList \<Rightarrow> Inl CountriesNotArray
     | Items xs \<Rightarrow> if 60 < length xs then Inl TooManyCountries
         else let us = map (\<lambda>v. toUpperCase (itemText env v)) xs in if list_all isCountryCode us then Inr us else Inl BadCountry)"

definition metaInfoUrl :: "ow_env \<Rightarrow> bool \<Rightarrow> string list \<Rightarrow> string \<Rightarrow> js_value \<Rightarrow> meta_error + string option" where
  "metaInfoUrl env allowHttp allowed kind ext =
     (if nullish ext \<or> trim (stringOf env ext) = '''' then Inr None
      else if kind \<noteq> OFFER_KIND_GENERAL_TASK then Inl InfoUrlForbidden
      else case validateIframeUrl (we_parseUrl env) (stringOf env ext) allowHttp allowed of Inl e \<Rightarrow> Inl (InfoUrl e) | Inr u \<Rightarrow> Inr (Some u))"

definition metaNote :: "ow_env \<Rightarrow> js_value \<Rightarrow> string option" where
  "metaNote env v = (if nullish v \<or> trim (stringOf env v) = '''' then None else Some (take 2000 (trim (stringOf env v))))"

definition normalizeTaskMetadata ::
  "ow_env \<Rightarrow> bool \<Rightarrow> string list \<Rightarrow> string \<Rightarrow> raw_metadata option \<Rightarrow> meta_error + task_metadata option" where
  "normalizeTaskMetadata env allowHttp allowed kind raw =
     (case raw of None \<Rightarrow> Inr None
      | Some obj \<Rightarrow>
          (case metaActions env (rm_requiredActions obj) of Inl e \<Rightarrow> Inl e | Inr actions \<Rightarrow>
           case metaCountries env (rm_targetCountryCodes obj) of Inl e \<Rightarrow> Inl e | Inr countries \<Rightarrow>
           case metaInfoUrl env allowHttp allowed kind (rm_externalInfoUrl obj) of Inl e \<Rightarrow> Inl e | Inr url \<Rightarrow>
             let note = metaNote env (rm_verificationNote obj)
             in Inr (if actions = [] \<and> countries = [] \<and> url = None \<and> note = None then None
                     else Some \<lparr>tm_requiredActions = actions, tm_targetCountryCodes = countries,
                                tm_externalInfoUrl = url, tm_verificationNote = note\<rparr>)))"

subsection \<open>Offers from a request body\<close>

record offer_body =
  ob_kind :: js_value
  ob_title :: js_value
  ob_description :: js_value
  ob_iframeUrl :: js_value
  ob_minViewSeconds :: js_value
  ob_dailyLimitPerUser :: js_value
  ob_sortOrder :: js_value
  ob_rewardKind :: js_value
  ob_isActive :: js_value
  ob_completionMode :: js_value
  ob_rewardBlkAmount :: js_value
  ob_rewardPolAmount :: js_value
  ob_rewardHashRate :: js_value
  ob_rewardHashRateDays :: js_value
  ob_taskMetadata :: "raw_metadata option"

datatype reward_data = BlkReward dec8 | PolReward dec8 | HashReward number int

record offer_data =
  od_kind :: string
  od_title :: string
  od_description :: "string option"
  od_iframeUrl :: "string option"
  od_minViewSeconds :: int
  od_rewardKind :: string
  od_dailyLimitPerUser :: int
  od_sortOrder :: int
  od_isActive :: bool
  od_completionMode :: string
  od_reward :: reward_data
  od_taskMetadata :: "task_metadata option"

datatype parse_error =
  InvalidKind | TitleInvalid | FrameHostInvalid | IframeUrl url_error | GeneralHasIframe | InvalidRewardKind
| BlkRequired | PolRequired | HashrateRequired | Metadata meta_error

text \<open>
  Both URLs are checked twice: a host that is refused is put on the list of active hosts when it is a
  plain name, and the check repeated with the rebuilt cache.
\<close>

definition retryWithHost ::
  "ow_env \<Rightarrow> ('e \<Rightarrow> string option) \<Rightarrow> (string list \<Rightarrow> 'e + 'a) \<Rightarrow> ow_store \<Rightarrow> ('e option + 'a) \<times> ow_store" where
  "retryWithHost env refusedHost check s =
     (case check (ow_allowlist s) of Inr a \<Rightarrow> (Inr a, s)
      | Inl e \<Rightarrow> (case refusedHost e of None \<Rightarrow> (Inl (Some e), s)
          | Some host \<Rightarrow> (case upsertActiveFrameHost host s of (False, s1) \<Rightarrow> (Inl None, s1)
              | (True, s1) \<Rightarrow> (let s2 = refreshIframeHostAllowlistCache env s1
                  in case check (ow_allowlist s2) of Inl e' \<Rightarrow> (Inl (Some e'), s2) | Inr a \<Rightarrow> (Inr a, s2)))))"

definition notAllowedHost :: "url_error \<Rightarrow> string option" where
  "notAllowedHost e = (case e of UrlNotAllowed h \<Rightarrow> if h = '''' then None else Some h | _ \<Rightarrow> None)"

definition metaHost :: "meta_error \<Rightarrow> string option" where
  "metaHost e = (case e of InfoUrl u \<Rightarrow> notAllowedHost u | _ \<Rightarrow> None)"

definition parseIframe :: "ow_env \<Rightarrow> string \<Rightarrow> offer_body \<Rightarrow> (parse_error, string option, ow_store) program" where
  "parseIframe env kind b s =
     (if kind = OFFER_KIND_PTC_IFRAME then
        (case retryWithHost env notAllowedHost (validateIframeUrl (we_parseUrl env) (textOr env (ob_iframeUrl b)) (isAllowHttpIframe env)) s of
           (Inr u, t) \<Rightarrow> ret (Some u) t | (Inl None, t) \<Rightarrow> throw FrameHostInvalid t | (Inl (Some e), t) \<Rightarrow> throw (IframeUrl e) t)
      else if ob_iframeUrl b \<noteq> JsUndefined \<and> trim (stringOf env (ob_iframeUrl b)) \<noteq> '''' then throw GeneralHasIframe s
      else ret None s)"

definition parseMetadata :: "ow_env \<Rightarrow> string \<Rightarrow> offer_body \<Rightarrow> (parse_error, task_metadata option, ow_store) program" where
  "parseMetadata env kind b s =
     (case retryWithHost env metaHost (\<lambda>hosts. normalizeTaskMetadata env (isAllowHttpIframe env) hosts kind (ob_taskMetadata b)) s of
        (Inr tm, t) \<Rightarrow> ret tm t | (Inl None, t) \<Rightarrow> throw FrameHostInvalid t | (Inl (Some e), t) \<Rightarrow> throw (Metadata e) t)"

definition parseReward :: "ow_env \<Rightarrow> string \<Rightarrow> offer_body \<Rightarrow> parse_error + reward_data" where
  "parseReward env rewardKind b =
     (if rewardKind = REWARD_BLK then
        (case floatOf (ob_rewardBlkAmount b) of Some a \<Rightarrow> if 0 < a then Inr (BlkReward (we_dec8_of env a)) else Inl BlkRequired | None \<Rightarrow> Inl BlkRequired)
      else if rewardKind = REWARD_POL then
        (case floatOf (ob_rewardPolAmount b) of Some a \<Rightarrow> if 0 < a then Inr (PolReward (we_dec8_of env a)) else Inl PolRequired | None \<Rightarrow> Inl PolRequired)
      else (case floatOf (ob_rewardHashRate b) of
          Some hr \<Rightarrow> if 0 < hr then Inr (HashReward hr (clampInt (ob_rewardHashRateDays b) 1 365 1)) else Inl HashrateRequired
        | None \<Rightarrow> Inl HashrateRequired))"

definition bodyDescription :: "ow_env \<Rightarrow> offer_body \<Rightarrow> string option" where
  "bodyDescription env b = (if nullish (ob_description b) then None
     else let d = take 8000 (trim (stringOf env (ob_description b))) in if d = '''' then None else Some d)"

definition parseAdminOfferBody :: "ow_env \<Rightarrow> offer_body \<Rightarrow> (parse_error, offer_data, ow_store) program" where
  "parseAdminOfferBody env b s =
     (let kind = toUpperCase (trim (textOr env (ob_kind b))); title = trim (textOr env (ob_title b))
      in if kind \<noteq> OFFER_KIND_PTC_IFRAME \<and> kind \<noteq> OFFER_KIND_GENERAL_TASK then throw InvalidKind s
         else if title = '''' \<or> 200 < length title then throw TitleInvalid s
         else and_then (parseIframe env kind b) (\<lambda>iframeUrl.
           let rewardKind = toUpperCase (trim (textOr env (ob_rewardKind b)))
           in if rewardKind \<notin> {REWARD_BLK, REWARD_POL, REWARD_HASHRATE_TEMP} then throw InvalidRewardKind
              else case parseReward env rewardKind b of Inl e \<Rightarrow> throw e
              | Inr reward \<Rightarrow> and_then (parseMetadata env kind b) (\<lambda>tm. ret
                  \<lparr>od_kind = kind, od_title = title, od_description = bodyDescription env b, od_iframeUrl = iframeUrl,
                   od_minViewSeconds = clampInt (ob_minViewSeconds b) 0 7200 10, od_rewardKind = rewardKind,
                   od_dailyLimitPerUser = clampInt (ob_dailyLimitPerUser b) 1 50 3, od_sortOrder = clampInt (ob_sortOrder b) 0 99999 0,
                   od_isActive = (case ob_isActive b of JsBool v \<Rightarrow> v | _ \<Rightarrow> True),
                   od_completionMode = (if toUpperCase (trim (textOr env (ob_completionMode b))) = COMPLETION_ADMIN_APPROVAL
                      then COMPLETION_ADMIN_APPROVAL else COMPLETION_USER_SELF_CLAIM),
                   od_reward = reward, od_taskMetadata = tm\<rparr>))
           (refreshIframeHostAllowlistCache env s))"

subsection \<open>Creating and patching offers\<close>

definition applyReward :: "reward_data \<Rightarrow> ow_offer \<Rightarrow> ow_offer" where
  "applyReward r k = (case r of BlkReward a \<Rightarrow> k\<lparr>oo_rewardBlkAmount := Some a\<rparr> | PolReward a \<Rightarrow> k\<lparr>oo_rewardPolAmount := Some a\<rparr>
     | HashReward h d \<Rightarrow> k\<lparr>oo_rewardHashRate := Some h, oo_rewardHashRateDays := Some d\<rparr>)"

definition applyData :: "offer_data \<Rightarrow> ow_offer \<Rightarrow> ow_offer" where
  "applyData d k = applyReward (od_reward d) (k\<lparr>oo_kind := od_kind d, oo_title := od_title d, oo_description := od_description d,
     oo_iframeUrl := od_iframeUrl d, oo_minViewSeconds := od_minViewSeconds d, oo_rewardKind := od_rewardKind d,
     oo_dailyLimitPerUser := od_dailyLimitPerUser d, oo_sortOrder := od_sortOrder d, oo_isActive := od_isActive d,
     oo_completionMode := od_completionMode d, oo_taskMetadata := od_taskMetadata d\<rparr>)"

definition blankOffer :: "int \<Rightarrow> ow_offer" where
  "blankOffer i = \<lparr>oo_id = i, oo_kind = '''', oo_title = '''', oo_description = None, oo_iframeUrl = None, oo_minViewSeconds = 10,
     oo_rewardKind = '''', oo_rewardBlkAmount = None, oo_rewardPolAmount = None, oo_rewardHashRate = None, oo_rewardHashRateDays = None,
     oo_dailyLimitPerUser = 3, oo_sortOrder = 0, oo_isActive = True, oo_completionMode = '''', oo_taskMetadata = None\<rparr>"

definition adminCreateOffer :: "offer_data \<Rightarrow> ow_store \<Rightarrow> ow_offer \<times> ow_store" where
  "adminCreateOffer d s = (let k = applyData d (blankOffer (ow_next s)) in (k, s\<lparr>ow_offers := ow_offers s @ [k], ow_next := ow_next s + 1\<rparr>))"

definition adminPatchOffer :: "int \<Rightarrow> offer_data \<Rightarrow> ow_store \<Rightarrow> ow_store" where
  "adminPatchOffer i d s = s\<lparr>ow_offers := update_where (\<lambda>k. oo_id k = i) (applyData d) (ow_offers s)\<rparr>"

definition createOffer :: "ow_env \<Rightarrow> offer_body \<Rightarrow> (parse_error, ow_offer, ow_store) program" where
  "createOffer env b = and_then (parseAdminOfferBody env b) (\<lambda>d s. ret (fst (adminCreateOffer d s)) (snd (adminCreateOffer d s)))"

text \<open>The stored offer as a body; a decimal column becomes a number.  Fields the request sends replace it.\<close>

definition jsOpt :: "('a \<Rightarrow> js_value) \<Rightarrow> 'a option \<Rightarrow> js_value" where
  "jsOpt f v = (case v of None \<Rightarrow> JsNull | Some x \<Rightarrow> f x)"

definition metaToRaw :: "task_metadata \<Rightarrow> raw_metadata" where
  "metaToRaw tm = \<lparr>rm_requiredActions = (if tm_requiredActions tm = [] then ListAbsent else Items (map JsText (tm_requiredActions tm))),
     rm_targetCountryCodes = (if tm_targetCountryCodes tm = [] then ListAbsent else Items (map JsText (tm_targetCountryCodes tm))),
     rm_externalInfoUrl = (case tm_externalInfoUrl tm of None \<Rightarrow> JsUndefined | Some u \<Rightarrow> JsText u),
     rm_verificationNote = (case tm_verificationNote tm of None \<Rightarrow> JsUndefined | Some n \<Rightarrow> JsText n)\<rparr>"

definition offerToPlain :: "ow_offer \<Rightarrow> offer_body" where
  "offerToPlain k = \<lparr>ob_kind = JsText (oo_kind k), ob_title = JsText (oo_title k), ob_description = jsOpt JsText (oo_description k),
     ob_iframeUrl = jsOpt JsText (oo_iframeUrl k), ob_minViewSeconds = JsNum (of_int (oo_minViewSeconds k)),
     ob_dailyLimitPerUser = JsNum (of_int (oo_dailyLimitPerUser k)), ob_sortOrder = JsNum (of_int (oo_sortOrder k)),
     ob_rewardKind = JsText (oo_rewardKind k), ob_isActive = JsBool (oo_isActive k), ob_completionMode = JsText (oo_completionMode k),
     ob_rewardBlkAmount = jsOpt (\<lambda>a. JsNum (toNumber a)) (oo_rewardBlkAmount k), ob_rewardPolAmount = jsOpt (\<lambda>a. JsNum (toNumber a)) (oo_rewardPolAmount k),
     ob_rewardHashRate = jsOpt JsNum (oo_rewardHashRate k), ob_rewardHashRateDays = jsOpt (\<lambda>d. JsNum (of_int d)) (oo_rewardHashRateDays k),
     ob_taskMetadata = map_option metaToRaw (oo_taskMetadata k)\<rparr>"

definition patchOffer :: "ow_env \<Rightarrow> int \<Rightarrow> (offer_body \<Rightarrow> offer_body) \<Rightarrow> (ow_error + parse_error, unit, ow_store) program" where
  "patchOffer env i replaceFields s =
     (if i < 1 then throw (Inl InvalidId) s
      else case find_first (\<lambda>k. oo_id k = i) (ow_offers s) of None \<Rightarrow> throw (Inl OwOfferNotFound) s
      | Some k \<Rightarrow> and_then (map_error Inr (parseAdminOfferBody env (replaceFields (offerToPlain k)))) (\<lambda>d. modify (adminPatchOffer i d)) s)"

end
