(* ===== verification/OfferwallProofs.thy ===== *)
theory OfferwallProofs
  imports OfferwallAdmin QuestInv
begin

section \<open>Attempts and their rewards\<close>

text \<open>
  The requests of the offerwall served one after the other, as steps; what they keep of the attempts,
  the daily limit, and the balances.
\<close>

subsection \<open>What an operation changes\<close>

definition wall_frame :: "ow_store \<Rightarrow> ow_store \<Rightarrow> bool" where
  "wall_frame s t \<longleftrightarrow> ow_offers t = ow_offers s \<and> ow_next t = ow_next s"

lemma updAttempt_cases:
  assumes "updAttempt i f s = (r, t)"
  obtains (gone) "r = Inl OwServerError" "t = s"
    | (row) a where "r = Inr ()" "a \<in> set (ow_attempts s)" "oa_id a = i"
        "t = s\<lparr>ow_attempts := update_where (\<lambda>a. oa_id a = i) f (ow_attempts s)\<rparr>"
  using assms by (cases "find_first (\<lambda>a. oa_id a = i) (ow_attempts s)") (auto simp: updAttempt_def dest: find_first_Some_conj)

lemma ownAttempt_D:
  assumes "ownAttempt env u i s = Inr (a, k)"
  shows "a \<in> set (ow_attempts s)" "oa_id a = i" "oa_userId a = u" "oa_status a = ATTEMPT_STATUS_STARTED" "offerOf a s = Some k" "oo_isActive k"
  using assms by (auto simp: ownAttempt_def dest!: find_first_Some_conj split: if_splits option.splits)

lemma pendingAttempt_D:
  assumes "pendingAttempt i s = Some a"
  shows "a \<in> set (ow_attempts s)" "oa_id a = i" "oa_status a = ATTEMPT_STATUS_PENDING_REVIEW"
  using find_first_Some_conj [OF assms [unfolded pendingAttempt_def]] by auto

text \<open>A grant followed by the update of its attempt: all or nothing.\<close>

lemma granted_cases:
  assumes "and_then (transaction (and_then (onDb g) (\<lambda>_. updAttempt i f))) (\<lambda>_. modify (\<lambda>s. s\<lparr>ow_db := h (ow_db s)\<rparr>)) s = (r, t)"
  obtains (refused) e where "r = Inl e" "t = s"
    | (paid) a db where "r = Inr ()" "g (ow_db s) = (Inr (), db)" "a \<in> set (ow_attempts s)" "oa_id a = i"
        "t = s\<lparr>ow_attempts := update_where (\<lambda>a. oa_id a = i) f (ow_attempts s), ow_db := h db\<rparr>"
proof (cases "transaction (and_then (onDb g) (\<lambda>_. updAttempt i f)) s")
  case (Pair x u)
  show thesis
  proof (cases x)
    case (Inl e)
    then have "u = s" using Pair by (blast dest: transaction_Inl)
    with assms Pair Inl show thesis by (intro refused [of e]) (auto simp: and_then_def)
  next
    case (Inr y)
    with Pair obtain db where g: "g (ow_db s) = (Inr (), db)" and w: "updAttempt i f (s\<lparr>ow_db := db\<rparr>) = (Inr y, u)"
      by (auto simp: transaction_Inr_iff and_then_Inr_iff onDb_def split: prod.splits)
    from w obtain a where a: "a \<in> set (ow_attempts s)" "oa_id a = i"
      and u: "u = s\<lparr>ow_db := db, ow_attempts := update_where (\<lambda>a. oa_id a = i) f (ow_attempts s)\<rparr>"
      by (cases rule: updAttempt_cases) auto
    have "r = Inr ()" "t = u\<lparr>ow_db := h (ow_db u)\<rparr>" using assms Pair Inr by (auto simp: and_then_def modify_def)
    with g a u show thesis by (intro paid) simp_all
  qed
qed

lemma claimCommit_cases:
  assumes "claimCommit env u a k now snap s = (r, t)"
  obtains (refused) e where "r = Inl e" "t = s"
    | (paid) b db where "r = Inr ()" "grantInternalOfferwallRewardInTx u k now (ow_db s) = (Inr (), db)" "b \<in> set (ow_attempts s)" "oa_id b = oa_id a"
        "t = s\<lparr>ow_attempts := update_where (\<lambda>c. oa_id c = oa_id a)
            (\<lambda>a. a\<lparr>oa_status := ATTEMPT_STATUS_COMPLETED, oa_submittedAt := Some now, oa_completedAt := Some now,
              oa_rewardGrantedAt := Some now, oa_auditSnapshot := Some snap\<rparr>) (ow_attempts s), ow_db := afterGrant env u a k now db\<rparr>"
  using assms unfolding claimCommit_def claimWrites_def by (cases rule: granted_cases) blast+

lemma approveCommit_cases:
  assumes "approveCommit env a k now s = (r, t)"
  obtains (refused) e where "r = Inl e" "t = s"
    | (paid) b db where "r = Inr ()" "grantInternalOfferwallRewardInTx (oa_userId a) k now (ow_db s) = (Inr (), db)" "b \<in> set (ow_attempts s)" "oa_id b = oa_id a"
        "t = s\<lparr>ow_attempts := update_where (\<lambda>c. oa_id c = oa_id a)
            (\<lambda>a. a\<lparr>oa_status := ATTEMPT_STATUS_COMPLETED, oa_completedAt := Some now, oa_rewardGrantedAt := Some now\<rparr>) (ow_attempts s),
            ow_db := afterGrant env (oa_userId a) a k now db\<rparr>"
proof -
  let ?w = "transaction (approveWrites a k now)" and ?h = "\<lambda>_. modify (\<lambda>s. s\<lparr>ow_db := afterGrant env (oa_userId a) a k now (ow_db s)\<rparr>)"
  obtain r' where w: "and_then ?w ?h s = (r', t)" and r: "r = (case r' of Inl e \<Rightarrow> Inl OwServerError | Inr u \<Rightarrow> Inr u)"
    using assms unfolding approveCommit_def by (cases "?w s"; cases "fst (?w s)") (auto simp: and_then_def map_error_def modify_def)
  from w [unfolded approveWrites_def] show thesis
  proof (cases rule: granted_cases)
    case (refused e)
    with r show thesis by (intro that(1)) auto
  next
    case (paid b db)
    with r have "r = Inr ()" by simp
    from that(2) [OF this paid(2-5)] show thesis .
  qed
qed

subsection \<open>Typed attempts\<close>

text \<open>The status of an attempt says which instants are set.\<close>

definition attempt_wt :: "ow_attempt \<Rightarrow> bool" where
  "attempt_wt a \<longleftrightarrow>
     (oa_status a = ATTEMPT_STATUS_STARTED \<and> oa_submittedAt a = None \<and> oa_completedAt a = None \<and> oa_rewardGrantedAt a = None)
   \<or> (oa_status a = ATTEMPT_STATUS_PENDING_REVIEW \<and> oa_submittedAt a \<noteq> None \<and> oa_completedAt a = None \<and> oa_rewardGrantedAt a = None)
   \<or> (oa_status a = ATTEMPT_STATUS_COMPLETED \<and> oa_submittedAt a \<noteq> None \<and> oa_completedAt a \<noteq> None \<and> oa_rewardGrantedAt a = oa_completedAt a)
   \<or> (oa_status a = ATTEMPT_STATUS_REJECTED \<and> oa_submittedAt a \<noteq> None \<and> oa_completedAt a \<noteq> None \<and> oa_rewardGrantedAt a = None)"

text \<open>
  What is left of it when a write may be late: the instants a status needs are set, but those of an
  earlier status may be set too.
\<close>

definition attempt_typed :: "ow_attempt \<Rightarrow> bool" where
  "attempt_typed a \<longleftrightarrow>
     (oa_status a = ATTEMPT_STATUS_STARTED \<and> oa_submittedAt a = None \<and> oa_completedAt a = None \<and> oa_rewardGrantedAt a = None)
   \<or> (oa_status a = ATTEMPT_STATUS_PENDING_REVIEW \<and> oa_submittedAt a \<noteq> None)
   \<or> (oa_status a = ATTEMPT_STATUS_COMPLETED \<and> oa_submittedAt a \<noteq> None \<and> oa_completedAt a \<noteq> None \<and> oa_rewardGrantedAt a = oa_completedAt a)
   \<or> (oa_status a = ATTEMPT_STATUS_REJECTED \<and> oa_submittedAt a \<noteq> None \<and> oa_completedAt a \<noteq> None)"

definition isDone :: "ow_attempt \<Rightarrow> bool" where
  "isDone a \<longleftrightarrow> oa_status a = ATTEMPT_STATUS_COMPLETED"

definition opens :: "int \<Rightarrow> int \<Rightarrow> string \<Rightarrow> ow_attempt list \<Rightarrow> nat" where
  "opens u i p = count_where (\<lambda>a. ofDay u i p a \<and> attemptOpen a)"

definition taken :: "int \<Rightarrow> int \<Rightarrow> string \<Rightarrow> ow_attempt list \<Rightarrow> nat" where
  "taken u i p = count_where (\<lambda>a. ofDay u i p a \<and> (attemptOpen a \<or> isDone a))"

definition attempts_ok :: "int \<Rightarrow> ow_attempt list \<Rightarrow> bool" where
  "attempts_ok n as \<longleftrightarrow> unique_key oa_id as \<and> (\<forall>a \<in> set as. oa_id a < n \<and> oa_offerId a < n \<and> attempt_wt a) \<and> (\<forall>u i p. opens u i p as \<le> 1)"

text \<open>
  How a request may change the table: rows deleted, a row in place of the one with its id, or a new row
  for a user who has no open one for the offer and the day.
\<close>

inductive attempts_step :: "int \<Rightarrow> ow_attempt list \<Rightarrow> int \<Rightarrow> ow_attempt list \<Rightarrow> bool" where
  Same: "n \<le> m \<Longrightarrow> attempts_step n as m as"
| Drop: "attempts_step n as n (delete_where (\<lambda>a. P a \<and> oa_status a = ATTEMPT_STATUS_STARTED) as)"
| Put: "a \<in> set as \<Longrightarrow> (attempt_wt a \<Longrightarrow> attempt_wt (f a)) \<Longrightarrow> oa_id (f a) = oa_id a \<Longrightarrow> (\<And>u i p. ofDay u i p (f a) = ofDay u i p a)
        \<Longrightarrow> attemptOpen a \<Longrightarrow> attempts_step n as n (update_where (\<lambda>b. oa_id b = oa_id a) f as)"
| Add: "opens u i p as = 0 \<Longrightarrow> i < n \<Longrightarrow> attempts_step n as (n + 1) (as @ [newAttempt n u i p now])"


lemma put_row:
  assumes "unique_key oa_id as" and "a \<in> set as" and "b \<in> set (update_where (\<lambda>b. oa_id b = oa_id a) f as)"
  shows "b = f a \<or> b \<in> set as \<and> oa_id b \<noteq> oa_id a"
  using assms by (auto simp: set_update_where dest: unique_key_eqD)

lemma put_count_le:
  assumes "unique_key oa_id as" and "a \<in> set as" and "P (f a) \<Longrightarrow> P a"
  shows "count_where P (update_where (\<lambda>b. oa_id b = oa_id a) f as) \<le> count_where P as"
  using assms by (intro count_where_update_le) (metis unique_key_eqD)

lemma attempts_ok_step:
  assumes "attempts_step n as m bs" and ok: "attempts_ok n as"
  shows "attempts_ok m bs"
  using assms(1)
proof cases
  case Same
  with ok show ?thesis unfolding attempts_ok_def by fastforce
next
  case (Drop P)
  then show ?thesis using ok unfolding attempts_ok_def opens_def by (auto intro: unique_key_delete order_trans [OF count_where_delete])
next
  case (Put a f)
  have uq: "unique_key oa_id as" using ok by (simp add: attempts_ok_def)
  have "opens u i p bs \<le> opens u i p as" for u i p
    unfolding opens_def Put(2) using Put by (intro put_count_le [OF uq]) auto
  moreover have "oa_id b < n \<and> oa_offerId b < n \<and> attempt_wt b" if "b \<in> set bs" for b
  proof -
    have "ofDay (oa_userId a) (oa_offerId a) (oa_periodKey a) (f a)" using Put(6) by (simp add: ofDay_def)
    then have "oa_offerId (f a) = oa_offerId a" by (simp add: ofDay_def)
    moreover have "b = f a \<or> b \<in> set as" using put_row [OF uq Put(3) that [unfolded Put(2)]] by blast
    ultimately show ?thesis using ok Put unfolding attempts_ok_def by auto
  qed
  moreover have "map oa_id bs = map oa_id as"
    using Put(2,3,5) uq by (simp add: update_where_def) (metis unique_key_eqD)
  ultimately show ?thesis using ok Put(1) unfolding attempts_ok_def unique_key_def by (metis order_trans)
next
  case (Add u i p now)
  have "opens v j q bs \<le> 1" for v j q
    using ok Add(3) unfolding attempts_ok_def opens_def Add(2) by (auto simp: newAttempt_def ofDay_def)
  moreover have "attempt_wt (newAttempt n u i p now)" by (simp add: attempt_wt_def newAttempt_def)
  ultimately show ?thesis using ok Add unfolding attempts_ok_def by (fastforce simp: newAttempt_def)
qed

subsection \<open>The administration leaves attempts alone\<close>

definition admin_frame :: "ow_store \<Rightarrow> ow_store \<Rightarrow> bool" where
  "admin_frame s t \<longleftrightarrow> ow_attempts t = ow_attempts s \<and> ow_db t = ow_db s \<and> ow_offers t = ow_offers s \<and> ow_next s \<le> ow_next t"

lemma admin_frame_refl [simp]: "admin_frame s s"
  by (simp add: admin_frame_def)

lemma admin_frame_trans: "admin_frame s t \<Longrightarrow> admin_frame t u \<Longrightarrow> admin_frame s u"
  by (auto simp: admin_frame_def)

lemma admin_frame_refresh: "admin_frame s (refreshIframeHostAllowlistCache env s)"
  by (simp add: admin_frame_def refreshIframeHostAllowlistCache_def)

lemma admin_frame_upsert: "upsertActiveFrameHost h s = (ok, t) \<Longrightarrow> admin_frame s t"
  by (auto simp: upsertActiveFrameHost_def admin_frame_def split: option.splits if_splits)

lemma admin_frame_retry: "retryWithHost env rh check s = (x, t) \<Longrightarrow> admin_frame s t"
  unfolding retryWithHost_def Let_def
  by (auto split: sum.splits option.splits prod.splits bool.splits
      intro: admin_frame_upsert admin_frame_trans [OF admin_frame_upsert admin_frame_refresh])

lemma admin_frame_iframe: "parseIframe env kind b s = (x, t) \<Longrightarrow> admin_frame s t"
  unfolding parseIframe_def by (auto split: if_splits prod.splits sum.splits option.splits intro: admin_frame_retry)

lemma admin_frame_metadata: "parseMetadata env kind b s = (x, t) \<Longrightarrow> admin_frame s t"
  unfolding parseMetadata_def by (auto split: prod.splits sum.splits option.splits intro: admin_frame_retry)

lemma stable_frameI: "(\<And>s x t. m s = (x, t) \<Longrightarrow> admin_frame s t) \<Longrightarrow> stable (admin_frame s0) m"
  by (intro stableI) (metis admin_frame_trans prod.collapse)

lemma admin_frame_parse: "admin_frame s (snd (parseAdminOfferBody env b s))"
proof -
  have m: "stable (admin_frame s) (parseMetadata env kind b)" for kind by (intro stable_frameI) (rule admin_frame_metadata)
  have i: "stable (admin_frame s) (parseIframe env kind b)" for kind by (intro stable_frameI) (rule admin_frame_iframe)
  have r: "stable (admin_frame s) (case parseReward env rk b of Inl e \<Rightarrow> throw e | Inr rw \<Rightarrow> and_then (parseMetadata env kind b) (\<lambda>tm. ret (h rw tm)))" for rk kind h
    by (cases "parseReward env rk b") (simp_all add: stable_and_then [OF m])
  have c: "stable (admin_frame s) (if bad then throw e else p)" if "stable (admin_frame s) p" for bad e and p :: "(parse_error, offer_data, ow_store) program"
    using that by simp
  have f: "(c \<Longrightarrow> P (snd a)) \<Longrightarrow> (\<not> c \<Longrightarrow> P (snd a')) \<Longrightarrow> P (snd (if c then a else a'))" for c P and a a' :: "(parse_error + offer_data) \<times> ow_store"
    by simp
  show ?thesis
    unfolding parseAdminOfferBody_def Let_def
    by (rule f, simp add: throw_def, rule f, simp add: throw_def)
      (rule stableD [of "admin_frame s", OF stable_and_then [OF i c [OF r]] admin_frame_refresh])
qed

lemma createOffer_cases:
  assumes "createOffer env b s = (r, t)"
  obtains (refused) e where "r = Inl e" "admin_frame s t"
    | (created) d u where "parseAdminOfferBody env b s = (Inr d, u)" "admin_frame s u" "t = snd (adminCreateOffer d u)" "r = Inr (applyData d (blankOffer (ow_next u)))"
proof (cases "parseAdminOfferBody env b s")
  case (Pair x u)
  with admin_frame_parse [of s env b] have f: "admin_frame s u" by simp
  show thesis using assms Pair f by (cases x) (auto simp: createOffer_def and_then_def adminCreateOffer_def Let_def ret_def intro: refused created)
qed

lemma patchOffer_cases:
  assumes "patchOffer env i g s = (r, t)"
  obtains (refused) e where "r = Inl e" "admin_frame s t"
    | (patched) k d u where "find_first (\<lambda>k. oo_id k = i) (ow_offers s) = Some k" "parseAdminOfferBody env (g (offerToPlain k)) s = (Inr d, u)"
        "admin_frame s u" "t = adminPatchOffer i d u" "r = Inr ()"
proof (cases "1 \<le> i \<and> find_first (\<lambda>k. oo_id k = i) (ow_offers s) \<noteq> None")
  case False
  with assms have "\<exists>e. r = Inl e \<and> t = s" by (auto simp: patchOffer_def split: if_splits option.splits)
  with refused show thesis by auto
next
  case True
  then obtain k where k: "find_first (\<lambda>k. oo_id k = i) (ow_offers s) = Some k" by auto
  obtain x u where p: "parseAdminOfferBody env (g (offerToPlain k)) s = (x, u)" by force
  with admin_frame_parse [of s env "g (offerToPlain k)"] have f: "admin_frame s u" by simp
  show thesis using assms True k p f
    by (cases x) (auto simp: patchOffer_def and_then_def map_error_def modify_def intro: refused patched)
qed

lemma admin_frame_deactivate: "adminDeactivateFrameHostById env i s = (r, t) \<Longrightarrow> admin_frame s t"
  by (auto simp: adminDeactivateFrameHostById_def admin_frame_def refreshIframeHostAllowlistCache_def split: if_splits)

lemma applyData_id [simp]: "oo_id (applyData d k) = oo_id k" "oo_dailyLimitPerUser (applyData d k) = od_dailyLimitPerUser d"
  by (simp_all add: applyData_def applyReward_def split: reward_data.splits)

end
