(* ===== verification/OfferwallSteps.thy ===== *)
theory OfferwallSteps
  imports OfferwallProofs
begin

section \<open>The offerwall as a state machine\<close>

text \<open>
  One constructor per request served from its first read to its last write, and what each amounts to.
\<close>

inductive serve_step :: "ow_env \<Rightarrow> ow_store \<Rightarrow> ow_store \<Rightarrow> bool" for env where
  List: "userListOffers env u now s = (x1, t) \<Longrightarrow> serve_step env s t"
| Start: "postStart env u raw now s = (x2, t) \<Longrightarrow> serve_step env s t"
| Opened: "postPartnerOpened env u raw now s = (x3, t) \<Longrightarrow> serve_step env s t"
| Submit: "postSubmit env snap u raw now s = (x4, t) \<Longrightarrow> serve_step env s t"
| Approve: "approveAttempt env raw now s = (x5, t) \<Longrightarrow> serve_step env s t"
| Reject: "rejectAttempt raw note now s = (x6, t) \<Longrightarrow> serve_step env s t"
| Create: "createOffer env b s = (x7, t) \<Longrightarrow> serve_step env s t"
| Patch: "patchOffer env i g s = (x8, t) \<Longrightarrow> serve_step env s t"
| Deactivate: "adminDeactivateFrameHostById env i s = (x9, t) \<Longrightarrow> serve_step env s t"

subsection \<open>The effect of a request\<close>

text \<open>What any request amounts to; the conditions are those the handler checked.\<close>

definition payable :: "ow_attempt \<Rightarrow> (ow_attempt \<Rightarrow> ow_attempt) \<Rightarrow> bool" where
  "payable a f \<longleftrightarrow> isDone (f a) \<and> oa_userId (f a) = oa_userId a \<and> oa_offerId (f a) = oa_offerId a"

inductive effect :: "ow_env \<Rightarrow> ow_store \<Rightarrow> ow_store \<Rightarrow> bool" for env where
  Idle: "effect env s s"
| Offers: "ow_attempts t = ow_attempts s \<Longrightarrow> ow_db t = ow_db s \<Longrightarrow> ow_next s \<le> ow_next t
    \<Longrightarrow> (ow_offers t = ow_offers s \<or> (\<exists>i d. ow_offers t = update_where (\<lambda>k. oo_id k = i) (applyData d) (ow_offers s))
        \<or> (\<exists>k. ow_offers t = ow_offers s @ [k] \<and> ow_next s \<le> oo_id k \<and> oo_id k < ow_next t)) \<Longrightarrow> effect env s t"
| Dropped: "effect env s (s\<lparr>ow_attempts := delete_where (\<lambda>a. P a \<and> oa_status a = ATTEMPT_STATUS_STARTED) (ow_attempts s)\<rparr>)"
| Started: "k \<in> set (ow_offers s) \<Longrightarrow> oo_id k = i \<Longrightarrow> int (count_where (\<lambda>a. ofDay u i p a \<and> isDone a) (ow_attempts s)) < oo_dailyLimitPerUser k
    \<Longrightarrow> opens u i p (ow_attempts s) = 0
    \<Longrightarrow> effect env s (s\<lparr>ow_attempts := ow_attempts s @ [newAttempt (ow_next s) u i p now], ow_next := ow_next s + 1\<rparr>)"
| Moved: "a \<in> set (ow_attempts s) \<Longrightarrow> attemptOpen a \<Longrightarrow> (attempt_wt a \<Longrightarrow> attempt_wt (f a)) \<Longrightarrow> oa_id (f a) = oa_id a
    \<Longrightarrow> (\<And>u i p. ofDay u i p (f a) = ofDay u i p a) \<Longrightarrow> \<not> isDone (f a)
    \<Longrightarrow> (attempt_typed a \<Longrightarrow> attempt_typed (f a)) \<Longrightarrow> (oa_submittedAt a \<noteq> None \<Longrightarrow> oa_submittedAt (f a) \<noteq> None)
    \<Longrightarrow> effect env s (s\<lparr>ow_attempts := update_where (\<lambda>b. oa_id b = oa_id a) f (ow_attempts s)\<rparr>)"
| Paid: "a \<in> set (ow_attempts s) \<Longrightarrow> attemptOpen a \<Longrightarrow> (attempt_wt a \<Longrightarrow> attempt_wt (f a)) \<Longrightarrow> oa_id (f a) = oa_id a
    \<Longrightarrow> (\<And>u i p. ofDay u i p (f a) = ofDay u i p a) \<Longrightarrow> isDone (f a)
    \<Longrightarrow> offerOf a s = Some k \<Longrightarrow> grantInternalOfferwallRewardInTx (oa_userId a) k now (ow_db s) = (Inr (), db)
    \<Longrightarrow> (attempt_typed a \<Longrightarrow> attempt_typed (f a)) \<Longrightarrow> (oa_submittedAt a \<noteq> None \<Longrightarrow> oa_submittedAt (f a) \<noteq> None)
    \<Longrightarrow> effect env s (s\<lparr>ow_attempts := update_where (\<lambda>b. oa_id b = oa_id a) f (ow_attempts s), ow_db := afterGrant env (oa_userId a) a k now db\<rparr>)"

lemma withId_cases:
  assumes "withId raw f s = (r, t)"
  obtains (bad) "r = Inl InvalidId" "t = s" | (good) i where "f i s = (r, t)"
  using assms by (auto simp: withId_def split: option.splits if_splits)

lemma update_where_id_fun: "oa_id b = oa_id a \<Longrightarrow> update_where (\<lambda>c. oa_id c = oa_id b) f as = update_where (\<lambda>c. oa_id c = oa_id a) f as"
  by simp

lemma effect_start:
  assumes "userStartOffer env u i now s = (r, t)"
  shows "effect env s t"
proof (cases "startPlan env u i now s = Inr None \<and> getUser u (ow_db s) \<noteq> None")
  case False
  with assms have "t = s" by (auto simp: userStartOffer_def createAttempt_def and_then_def throw_def split: sum.splits option.splits)
  then show ?thesis by (simp add: Idle)
next
  case True
  let ?p = "getDailyTaskPeriodKey (we_zone env) now"
  from True obtain k where k: "find_first (\<lambda>k. oo_id k = i \<and> oo_isActive k) (ow_offers s) = Some k"
      "int (count_where (\<lambda>a. ofDay u i ?p a \<and> oa_status a = ATTEMPT_STATUS_COMPLETED) (ow_attempts s)) < oo_dailyLimitPerUser k"
      "find_first (\<lambda>a. ofDay u i ?p a \<and> attemptOpen a) (ow_attempts s) = None"
    by (auto simp: startPlan_def Let_def split: if_splits option.splits)
  have t: "t = s\<lparr>ow_attempts := ow_attempts s @ [newAttempt (ow_next s) u i ?p now], ow_next := ow_next s + 1\<rparr>"
    using assms True by (auto simp: userStartOffer_def createAttempt_def and_then_def throw_def ret_def Let_def)
  have "opens u i ?p (ow_attempts s) = 0" using k(3) by (simp add: opens_def count_where_0_iff find_first_None_iff)
  with k(2) find_first_Some_conj [OF k(1)] show ?thesis unfolding t by (intro Started [of k]) (auto simp: isDone_def)
qed

lemma effect_opened:
  assumes "userMarkPartnerOpened env u i now s = (r, t)"
  shows "effect env s t"
proof (cases "openPlan env u i s")
  case (Inl e)
  with assms show ?thesis by (simp add: userMarkPartnerOpened_def Idle)
next
  case (Inr a)
  then obtain k where "ownAttempt env u i s = Inr (a, k)" by (auto simp: openPlan_def split: sum.splits prod.splits if_splits)
  note a = ownAttempt_D [OF this]
  obtain r' where "updAttempt i (\<lambda>a. a\<lparr>oa_partnerOpenedAt := Some now\<rparr>) s = (r', t)"
    using assms Inr by (auto simp: userMarkPartnerOpened_def openWrite_def and_then_def split: prod.splits sum.splits)
  then show ?thesis
  proof (cases rule: updAttempt_cases)
    case gone
    then show ?thesis by (simp add: Idle)
  next
    case (row b)
    then show ?thesis unfolding row(4) a(2) [symmetric]
      by (intro Moved) (use a in \<open>auto simp: attemptOpen_def isDone_def attempt_wt_def attempt_typed_def ofDay_def attempt_status\<close>)
  qed
qed

lemma effect_submit:
  assumes "userSubmitAttempt env snap u i now s = (r, t)"
  shows "effect env s t"
proof (cases "submitPlan env u i now s")
  case (Inl e)
  with assms show ?thesis by (simp add: userSubmitAttempt_def Idle)
next
  case (Inr ak)
  obtain a k where ak: "ak = (a, k)" by force
  with Inr have "ownAttempt env u i s = Inr (a, k)" by (auto simp: submitPlan_def split: sum.splits prod.splits option.splits)
  note a = ownAttempt_D [OF this]
  consider (review) r' where "reviewWrite (oa_id a) now snap s = (r', t)" | (stale) "t = s" | (claim) r' where "claimCommit env u a k now snap s = (r', t)"
    using assms Inr ak by (auto simp: userSubmitAttempt_def and_then_def throw_def split: prod.splits sum.splits if_splits)
  then show ?thesis
  proof cases
    case review
    from review [unfolded reviewWrite_def] show ?thesis
    proof (cases rule: updAttempt_cases)
      case (row b)
      then show ?thesis unfolding row(4)
        by (intro Moved) (use a in \<open>auto simp: attemptOpen_def isDone_def attempt_wt_def attempt_typed_def ofDay_def attempt_status\<close>)
    qed (simp add: Idle)
  next
    case claim
    then show ?thesis
    proof (cases rule: claimCommit_cases)
      case (paid b db)
      show ?thesis unfolding paid(5) a(3) [symmetric]
        by (intro Paid) (use a paid in \<open>auto simp: attemptOpen_def isDone_def attempt_wt_def attempt_typed_def ofDay_def attempt_status\<close>)
    qed (simp add: Idle)
  qed (simp add: Idle)
qed

lemma effect_approve:
  assumes "adminApproveAttempt env i now s = (r, t)"
  shows "effect env s t"
proof (cases "approvePlan i s")
  case (Inl e)
  with assms show ?thesis by (simp add: adminApproveAttempt_def Idle)
next
  case (Inr ak)
  obtain a k where ak: "ak = (a, k)" by force
  with Inr have p: "pendingAttempt i s = Some a" and k: "offerOf a s = Some k" by (auto simp: approvePlan_def split: option.splits if_splits)
  note a = pendingAttempt_D [OF p]
  from assms Inr ak p have "approveCommit env a k now s = (r, t)" by (simp add: adminApproveAttempt_def)
  then show ?thesis
  proof (cases rule: approveCommit_cases)
    case (paid b db)
    show ?thesis unfolding paid(5)
      by (intro Paid) (use a k paid in \<open>auto simp: attemptOpen_def isDone_def attempt_wt_def attempt_typed_def ofDay_def attempt_status\<close>)
  qed (simp add: Idle)
qed

lemma effect_reject:
  assumes "adminRejectAttempt i note now s = (r, t)"
  shows "effect env s t"
proof (cases "pendingAttempt i s")
  case None
  with assms show ?thesis by (simp add: adminRejectAttempt_def Idle)
next
  case (Some a)
  note a = pendingAttempt_D [OF Some]
  from assms Some have "rejectWrite i note now s = (r, t)" by (simp add: adminRejectAttempt_def)
  then show ?thesis unfolding rejectWrite_def
  proof (cases rule: updAttempt_cases)
    case (row b)
    then show ?thesis unfolding row(4) a(2) [symmetric]
      by (intro Moved) (use a in \<open>auto simp: attemptOpen_def isDone_def attempt_wt_def attempt_typed_def ofDay_def attempt_status\<close>)
  qed (simp add: Idle)
qed

lemma effect_abandon: "effect env s (abandonStaleStartedAttempts env u p now s)"
proof -
  obtain y where "abandonStaleStartedAttempts env u p now s = s\<lparr>ow_attempts := delete_where
      (\<lambda>a. oa_userId a = u \<and> oa_periodKey a = p \<and> oa_status a = ATTEMPT_STATUS_STARTED \<and> oa_startedAt a < y) (ow_attempts s)\<rparr>"
    unfolding abandonStaleStartedAttempts_def Let_def by blast
  also have "(\<lambda>a. oa_userId a = u \<and> oa_periodKey a = p \<and> oa_status a = ATTEMPT_STATUS_STARTED \<and> oa_startedAt a < y)
      = (\<lambda>a. (oa_userId a = u \<and> oa_periodKey a = p \<and> oa_startedAt a < y) \<and> oa_status a = ATTEMPT_STATUS_STARTED)" by auto
  finally show ?thesis by (simp only: Dropped)
qed

lemma effect_frame: "admin_frame s t \<Longrightarrow> effect env s t"
  by (intro Offers) (auto simp: admin_frame_def)

lemma serve_effect:
  assumes "serve_step env s t"
  shows "effect env s t"
  using assms
proof cases
  case (List u now x)
  then have "t = s \<or> t = abandonStaleStartedAttempts env u (getDailyTaskPeriodKey (we_zone env) now) now s"
    by (auto simp: userListOffers_def Let_def ret_def split: if_splits)
  then show ?thesis using effect_abandon Idle by metis
next
  case (Create b x)
  from Create(1) show ?thesis
  proof (cases rule: createOffer_cases)
    case (created d u)
    then show ?thesis by (intro Offers) (auto simp: adminCreateOffer_def Let_def admin_frame_def blankOffer_def)
  qed (rule effect_frame)
next
  case (Patch i g x)
  from Patch(1) show ?thesis
  proof (cases rule: patchOffer_cases)
    case (patched k d u)
    then show ?thesis by (intro Offers) (auto simp: adminPatchOffer_def admin_frame_def)
  qed (rule effect_frame)
qed (auto simp: postStart_def postPartnerOpened_def postSubmit_def approveAttempt_def rejectAttempt_def elim!: withId_cases
   intro: Idle effect_start effect_opened effect_submit effect_approve effect_reject effect_frame admin_frame_deactivate)

subsection \<open>Attempts stay typed\<close>

definition wall_ok :: "ow_store \<Rightarrow> bool" where
  "wall_ok s \<longleftrightarrow> attempts_ok (ow_next s) (ow_attempts s) \<and> unique_key oo_id (ow_offers s) \<and> (\<forall>k \<in> set (ow_offers s). oo_id k < ow_next s)"

definition wall_init :: "ow_store \<Rightarrow> bool" where
  "wall_init s \<longleftrightarrow> ow_attempts s = [] \<and> unique_key oo_id (ow_offers s) \<and> list_all (\<lambda>k. oo_id k < ow_next s) (ow_offers s)"

lemma effect_attempts:
  assumes "effect env s t" and "wall_ok s"
  shows "attempts_step (ow_next s) (ow_attempts s) (ow_next t) (ow_attempts t)"
  using assms(1)
proof cases
  case (Started k i u p now)
  then show ?thesis using assms(2) by (auto simp: wall_ok_def intro!: attempts_step.Add)
qed (auto intro: attempts_step.Same attempts_step.Drop attempts_step.Put)

lemma effect_offers:
  assumes "effect env s t"
  shows "ow_next s \<le> ow_next t \<and> (ow_offers t = ow_offers s \<or> (\<exists>i d. ow_offers t = update_where (\<lambda>k. oo_id k = i) (applyData d) (ow_offers s))
    \<or> (\<exists>k. ow_offers t = ow_offers s @ [k] \<and> ow_next s \<le> oo_id k \<and> oo_id k < ow_next t))"
  using assms by cases auto

lemma wall_ok_effect:
  assumes e: "effect env s t" and ok: "wall_ok s"
  shows "wall_ok t"
proof -
  have "attempts_ok (ow_next t) (ow_attempts t)"
    using attempts_ok_step [OF effect_attempts [OF e ok]] ok by (simp add: wall_ok_def)
  moreover have "unique_key oo_id (ow_offers t) \<and> (\<forall>k \<in> set (ow_offers t). oo_id k < ow_next t)"
    using effect_offers [OF e] ok unfolding wall_ok_def by (fastforce simp: set_update_where)
  ultimately show ?thesis by (simp add: wall_ok_def)
qed

lemma wall_ok_init: "wall_init s \<Longrightarrow> wall_ok s"
  by (auto simp: wall_init_def wall_ok_def attempts_ok_def opens_def list_all_iff)

subsection \<open>The daily limit\<close>

lemma taken_split: "taken u i p as = opens u i p as + count_where (\<lambda>a. ofDay u i p a \<and> isDone a) as"
  unfolding taken_def opens_def by (induction as) (auto simp: attemptOpen_def isDone_def attempt_status)

lemma taken_effect:
  assumes e: "effect env s t" and uq: "unique_key oa_id (ow_attempts s)"
  shows "taken u i p (ow_attempts t) \<le> taken u i p (ow_attempts s)
    \<or> taken u i p (ow_attempts t) = taken u i p (ow_attempts s) + 1
      \<and> (\<exists>k \<in> set (ow_offers s). oo_id k = i \<and> int (taken u i p (ow_attempts s)) < oo_dailyLimitPerUser k)"
proof -
  from e show ?thesis
  proof cases
    case (Started k j v q now)
    have "taken v j q (ow_attempts s) = count_where (\<lambda>a. ofDay v j q a \<and> isDone a) (ow_attempts s)"
      using Started(5) by (simp add: taken_split)
    then show ?thesis using Started
      by (cases "ofDay u i p (newAttempt (ow_next s) v j q now)")
        (auto simp: taken_def newAttempt_def ofDay_def attemptOpen_def isDone_def)
  next
    case (Moved a f)
    then show ?thesis unfolding taken_def by (auto intro!: disjI1 put_count_le [OF uq])
  next
    case (Paid a f k now db)
    then show ?thesis unfolding taken_def by (auto intro!: disjI1 put_count_le [OF uq])
  qed (auto simp: taken_def intro: count_where_delete)
qed

text \<open>An open attempt of a user, an offer and a day is added only when there is none.\<close>

lemma opens_effect:
  assumes e: "effect env s t" and uq: "unique_key oa_id (ow_attempts s)"
  shows "opens u i p (ow_attempts t) \<le> max 1 (opens u i p (ow_attempts s))"
proof -
  from e show ?thesis
  proof cases
    case (Started k j v q now)
    then show ?thesis
      by (cases "ofDay u i p (newAttempt (ow_next s) v j q now)") (auto simp: opens_def newAttempt_def ofDay_def)
  next
    case (Moved a f)
    have "opens u i p (ow_attempts t) \<le> opens u i p (ow_attempts s)"
      unfolding opens_def Moved(1) using Moved by (auto intro!: put_count_le [OF uq])
    then show ?thesis by simp
  next
    case (Paid a f k now db)
    have "opens u i p (ow_attempts t) \<le> opens u i p (ow_attempts s)"
      unfolding opens_def Paid(1) using Paid by (auto intro!: put_count_le [OF uq])
    then show ?thesis by simp
  next
    case (Dropped P)
    have "opens u i p (ow_attempts t) \<le> opens u i p (ow_attempts s)"
      unfolding opens_def Dropped by (simp add: count_where_delete)
    then show ?thesis by simp
  qed (auto simp: opens_def)
qed

end
