(* ===== verification/OfferwallPay.thy ===== *)
theory OfferwallPay
  imports OfferwallSteps
begin

section \<open>The offerwall pays what was completed\<close>

text \<open>
  Balances and powers of every user, as a function of the completed attempts: the account a careful
  reader would keep beside the table.
\<close>

definition blkValue :: "ow_offer \<Rightarrow> int" where
  "blkValue k = (if toUpperCase (oo_rewardKind k) = REWARD_BLK then (case oo_rewardBlkAmount k of None \<Rightarrow> 0 | Some a \<Rightarrow> a) else 0)"

definition polValue :: "ow_offer \<Rightarrow> int" where
  "polValue k = (if toUpperCase (oo_rewardKind k) = REWARD_POL then (case oo_rewardPolAmount k of None \<Rightarrow> 0 | Some a \<Rightarrow> a) else 0)"

definition powerValue :: "ow_offer \<Rightarrow> int" where
  "powerValue k = (if toUpperCase (oo_rewardKind k) = REWARD_HASHRATE_TEMP then 1 else 0)"

definition valueOf :: "(ow_offer \<Rightarrow> int) \<Rightarrow> ow_store \<Rightarrow> ow_attempt \<Rightarrow> int" where
  "valueOf val s a = (case offerOf a s of None \<Rightarrow> 0 | Some k \<Rightarrow> val k)"

definition earned :: "(ow_offer \<Rightarrow> int) \<Rightarrow> int \<Rightarrow> ow_store \<Rightarrow> int" where
  "earned val u s = sum_where (\<lambda>a. oa_userId a = u \<and> isDone a) (valueOf val s) (ow_attempts s)"

definition powersOf :: "int \<Rightarrow> 'a store_scheme \<Rightarrow> int" where
  "powersOf u s = int (count_where (\<lambda>p. pg_userId p = u) (st_gamePowers s))"

subsection \<open>The reward and what follows it\<close>

lemma money_cong:
  assumes "st_users t = st_users s" and "st_gamePowers t = st_gamePowers s"
  shows "blkOf v t = blkOf v s" "polOf v t = polOf v s" "powersOf v t = powersOf v s"
  using assms by (simp_all add: blkOf_def polOf_def powersOf_def getUser_def)

lemma afterGrant_money:
  "blkOf v (afterGrant env u a k now db) = blkOf v db" "polOf v (afterGrant env u a k now db) = polOf v db"
  "powersOf v (afterGrant env u a k now db) = powersOf v db"
  by (rule money_cong; simp add: afterGrant_def Let_def bump_money logCall_def)+

lemma powersOf_add [simp]: "powersOf v (addPol u d s) = powersOf v s" "powersOf v (addBlk u d s) = powersOf v s"
  by (simp_all add: powersOf_def addPol_def addBlk_def updUser_def)

lemma creditBalance_Inr: "creditBalance add u amt s = (Inr x, t) \<Longrightarrow> t = add u amt s"
  by (auto simp: creditBalance_def split: option.splits)

lemma grantAmount_Inr:
  assumes "grantAmount add u amount s = (Inr x, t)"
  obtains amt where "amount = Some amt" "0 < amt" "t = add u amt s"
  using assms by (auto simp: grantAmount_def map_error_Inr_iff dest!: creditBalance_Inr split: option.splits if_splits)

lemma createPowerGame_money:
  assumes "upsertGame slug nm s = (g, s1)"
  shows "blkOf v (createPowerGame u g hr p e s1) = blkOf v s" "polOf v (createPowerGame u g hr p e s1) = polOf v s"
    "powersOf v (createPowerGame u g hr p e s1) = powersOf v s + (if v = u then 1 else 0)"
  using assms by (auto simp: upsertGame_def createPowerGame_def blkOf_def polOf_def powersOf_def getUser_def split: option.splits)

lemma reward_kinds: "REWARD_BLK \<noteq> REWARD_POL" "REWARD_BLK \<noteq> REWARD_HASHRATE_TEMP" "REWARD_POL \<noteq> REWARD_HASHRATE_TEMP"
  by (simp_all add: REWARD_BLK_def REWARD_POL_def REWARD_HASHRATE_TEMP_def)

lemma grant_money:
  assumes "grantInternalOfferwallRewardInTx u k now db = (Inr (), db')"
  shows "blkOf v db' = map_option (\<lambda>b. b + (if v = u then blkValue k else 0)) (blkOf v db)"
    "polOf v db' = map_option (\<lambda>b. b + (if v = u then polValue k else 0)) (polOf v db)"
    "powersOf v db' = powersOf v db + (if v = u then powerValue k else 0)"
proof -
  have i: "map_option (\<lambda>b. b) x = x" for x :: "dec8 option" by (simp add: option.map_ident)
  consider (blk) "toUpperCase (oo_rewardKind k) = REWARD_BLK" "grantAmount addBlk u (oo_rewardBlkAmount k) db = (Inr (), db')"
    | (pol) "toUpperCase (oo_rewardKind k) = REWARD_POL" "grantAmount addPol u (oo_rewardPolAmount k) db = (Inr (), db')"
    | (power) g s1 hr e where "toUpperCase (oo_rewardKind k) = REWARD_HASHRATE_TEMP" "upsertGame OFFERWALL_GAME_SLUG ''Internal Offerwall'' db = (g, s1)"
        "db' = createPowerGame u g hr now e s1"
    using assms unfolding grantInternalOfferwallRewardInTx_def Let_def getOrCreateOfferwallGameId_def
    by (auto split: if_splits prod.splits)
  then have "blkOf v db' = map_option (\<lambda>b. b + (if v = u then blkValue k else 0)) (blkOf v db)
    \<and> polOf v db' = map_option (\<lambda>b. b + (if v = u then polValue k else 0)) (polOf v db)
    \<and> powersOf v db' = powersOf v db + (if v = u then powerValue k else 0)"
  proof cases
    case blk
    from blk(2) show ?thesis by (rule grantAmount_Inr) (use blk(1) reward_kinds in \<open>auto simp: i blkValue_def polValue_def powerValue_def\<close>)
  next
    case pol
    from pol(2) show ?thesis by (rule grantAmount_Inr) (use pol(1) reward_kinds in \<open>auto simp: i blkValue_def polValue_def powerValue_def\<close>)
  next
    case power
    with reward_kinds show ?thesis unfolding power(3) createPowerGame_money [OF power(2)] by (auto simp: i blkValue_def polValue_def powerValue_def)
  qed
  then show "blkOf v db' = map_option (\<lambda>b. b + (if v = u then blkValue k else 0)) (blkOf v db)"
    "polOf v db' = map_option (\<lambda>b. b + (if v = u then polValue k else 0)) (polOf v db)"
    "powersOf v db' = powersOf v db + (if v = u then powerValue k else 0)" by auto
qed

subsection \<open>The account\<close>

lemma valueOf_frame: "ow_offers t = ow_offers s \<Longrightarrow> valueOf val t = valueOf val s"
  by (rule ext) (simp add: valueOf_def offerOf_def)

lemma valueOf_upd [simp]: "valueOf val (s\<lparr>ow_attempts := as\<rparr>) = valueOf val s" "valueOf val (s\<lparr>ow_next := n\<rparr>) = valueOf val s"
  by (rule valueOf_frame, simp)+

lemma sum_where_delete_open:
  "sum_where (\<lambda>a. oa_userId a = u \<and> isDone a) g (delete_where (\<lambda>a. P a \<and> oa_status a = ATTEMPT_STATUS_STARTED) as)
    = sum_where (\<lambda>a. oa_userId a = u \<and> isDone a) g as"
  by (rule sum_where_delete_eq) (auto simp: isDone_def attempt_status)

text \<open>An effect that pays nothing keeps what every user has earned; a payment adds the value of its offer.\<close>

lemma earned_put:
  assumes uq: "unique_key oa_id (ow_attempts s)" and a: "a \<in> set (ow_attempts s)" "attemptOpen a" "oa_id (f a) = oa_id a"
    and d: "\<And>u i p. ofDay u i p (f a) = ofDay u i p a" and t: "ow_attempts t = update_where (\<lambda>b. oa_id b = oa_id a) f (ow_attempts s)" "ow_offers t = ow_offers s"
  shows "earned val v t = earned val v s + (if v = oa_userId a \<and> isDone (f a) then valueOf val s a else 0)"
proof -
  have "ofDay (oa_userId a) (oa_offerId a) (oa_periodKey a) (f a)" using d by (simp add: ofDay_def)
  then have same: "oa_userId (f a) = oa_userId a" "oa_offerId (f a) = oa_offerId a" by (simp_all add: ofDay_def)
  moreover have "\<not> isDone a" using a(2) by (auto simp: attemptOpen_def isDone_def attempt_status)
  moreover have "valueOf val s (f a) = valueOf val s a" using same by (simp add: valueOf_def offerOf_def)
  ultimately show ?thesis
    unfolding earned_def t(1) valueOf_frame [OF t(2)] sum_where_update_key [OF uq a(1)] by auto
qed

definition account_ok :: "quest_store \<Rightarrow> ow_store \<Rightarrow> bool" where
  "account_ok db0 s \<longleftrightarrow> wall_ok s \<and> (\<forall>v. blkOf v (ow_db s) = map_option (\<lambda>b. b + earned blkValue v s) (blkOf v db0)
     \<and> polOf v (ow_db s) = map_option (\<lambda>b. b + earned polValue v s) (polOf v db0)
     \<and> powersOf v (ow_db s) = powersOf v db0 + earned powerValue v s)"

lemma account_ok_same:
  assumes "account_ok db0 s" and "wall_ok t" and "ow_db t = ow_db s" and "\<And>val v. earned val v t = earned val v s"
  shows "account_ok db0 t"
  using assms by (simp add: account_ok_def)

lemma account_ok_effect:
  assumes ok: "account_ok db0 s" and e: "effect env s t" and terms: "ow_offers t = ow_offers s"
  shows "account_ok db0 t"
proof -
  have w: "wall_ok s" using ok by (simp add: account_ok_def)
  then have uq: "unique_key oa_id (ow_attempts s)" by (simp add: wall_ok_def attempts_ok_def)
  note wt = wall_ok_effect [OF e w]
  from e show ?thesis
  proof cases
    case Idle
    with ok show ?thesis by simp
  next
    case Offers
    then show ?thesis by (intro account_ok_same [OF ok wt]) (simp_all add: earned_def valueOf_frame [OF terms])
  next
    case (Dropped P)
    then show ?thesis by (intro account_ok_same [OF ok wt]) (simp_all add: earned_def sum_where_delete_open)
  next
    case (Started k i u p now)
    then show ?thesis by (intro account_ok_same [OF ok wt])
      (simp_all add: earned_def newAttempt_def isDone_def attempt_status)
  next
    case (Moved a f)
    then show ?thesis by (intro account_ok_same [OF ok wt]) (simp_all add: earned_put [where f = f, OF uq Moved(2,3,5,6)] Moved(7))
  next
    case (Paid a f k now db)
    have v: "valueOf val s a = val k" for val using Paid(8) by (simp add: valueOf_def)
    have "earned val v t = earned val v s + (if v = oa_userId a then val k else 0)" for val v
      using earned_put [where f = f and t = t and val = val and v = v, OF uq Paid(2,3,5,6)] Paid(1,7) v by simp
    moreover note grant_money [OF Paid(9)]
    ultimately show ?thesis using ok wt unfolding account_ok_def Paid(1)
      by (simp add: afterGrant_money option.map_comp comp_def algebra_simps)
  qed
qed

inductive pay_step :: "ow_env \<Rightarrow> ow_store \<Rightarrow> ow_store \<Rightarrow> bool" for env where
  Terms: "serve_step env s t \<Longrightarrow> ow_offers t = ow_offers s \<Longrightarrow> pay_step env s t"

definition pay_init :: "quest_store \<Rightarrow> ow_store \<Rightarrow> bool" where
  "pay_init db0 s \<longleftrightarrow> wall_init s \<and> ow_db s = db0"

interpretation account: machine "pay_init db0" "pay_step env" "account_ok db0" for db0 env
proof unfold_locales
  show "account_ok db0 s" if "pay_init db0 s" for s
    using that wall_ok_init [of s] by (simp add: pay_init_def wall_init_def account_ok_def earned_def option.map_ident)
  show "account_ok db0 t" if "account_ok db0 s" "pay_step env s t" for s t
    using that(2,1) by cases (blast intro: account_ok_effect serve_effect)
qed

end
