(* ===== verification/OfferwallLaws.thy ===== *)
theory OfferwallLaws
  imports OfferwallPay "HOL-Library.Sublist"
begin

section \<open>What the administration accepts\<close>

subsection \<open>Hosts as lists of labels\<close>

lemma splitOn_snoc: "splitOn c (a @ c # b) = splitOn c a @ splitOn c b"
proof (induction a)
  case (Cons x a)
  have "splitOn c a \<noteq> []" by (cases a) (auto split: list.splits)
  with Cons show ?case by (auto split: list.splits)
qed simp

fun joinWith :: "char \<Rightarrow> string list \<Rightarrow> string" where
  "joinWith c [] = []"
| "joinWith c [x] = x"
| "joinWith c (x # y # ys) = x @ c # joinWith c (y # ys)"

lemma splitOn_ne [simp]: "splitOn c s \<noteq> []"
  by (cases s) (auto split: list.splits)

lemma join_split: "joinWith c (splitOn c s) = s"
proof (induction s)
  case (Cons x s)
  obtain y ys where "splitOn c s = y # ys" using splitOn_ne by (metis list.exhaust)
  with Cons show ?case by (cases ys) auto
qed simp

lemma join_append: "xs \<noteq> [] \<Longrightarrow> ys \<noteq> [] \<Longrightarrow> joinWith c (xs @ ys) = joinWith c xs @ c # joinWith c ys"
proof (induction xs rule: joinWith.induct)
  case (2 c x)
  then show ?case by (cases ys) auto
qed auto

text \<open>A host ends in a dot and a name exactly when the name's labels are a proper end of its labels.\<close>

lemma dotted_suffix: "(\<exists>p. h = p @ c # e) \<longleftrightarrow> (\<exists>xs. xs \<noteq> [] \<and> splitOn c h = xs @ splitOn c e)"
proof
  assume "\<exists>p. h = p @ c # e"
  then show "\<exists>xs. xs \<noteq> [] \<and> splitOn c h = xs @ splitOn c e" using splitOn_snoc splitOn_ne by metis
next
  assume "\<exists>xs. xs \<noteq> [] \<and> splitOn c h = xs @ splitOn c e"
  then obtain xs where xs: "xs \<noteq> []" "splitOn c h = xs @ splitOn c e" by blast
  have "h = joinWith c (xs @ splitOn c e)" using xs(2) join_split by metis
  also have "\<dots> = joinWith c xs @ c # e" using join_append [OF xs(1) splitOn_ne] by (simp add: join_split)
  finally show "\<exists>p. h = p @ c # e" by blast
qed

lemma hasSuffix_iff: "hasSuffix suf s \<longleftrightarrow> (\<exists>p. s = p @ suf)"
proof
  assume "hasSuffix suf s"
  then show "\<exists>p. s = p @ suf" unfolding hasSuffix_def by (metis append_take_drop_id)
qed (auto simp: hasSuffix_def)

lemma host_suffix: "h = e \<or> hasSuffix (''.'' @ e) h \<longleftrightarrow> suffix (splitOn (CHR ''.'') e) (splitOn (CHR ''.'') h)"
proof -
  have "h = e \<longleftrightarrow> splitOn (CHR ''.'') h = splitOn (CHR ''.'') e" using join_split by metis
  moreover have "hasSuffix (''.'' @ e) h \<longleftrightarrow> (\<exists>xs. xs \<noteq> [] \<and> splitOn (CHR ''.'') h = xs @ splitOn (CHR ''.'') e)"
    using dotted_suffix [of h "CHR ''.''" e] by (simp add: hasSuffix_iff)
  ultimately show ?thesis unfolding suffix_def by (metis append_Nil)
qed

lemma lower_char_idem: "lower_char (lower_char c) = lower_char c"
proof -
  let ?n = "of_char c :: nat"
  show ?thesis
  proof (cases "65 \<le> ?n \<and> ?n \<le> 90")
    case True
    then have "(of_char (char_of (?n + 32)) :: nat) = ?n + 32" by (simp add: of_char_of)
    with True show ?thesis by (simp add: lower_char_def)
  next
    case False
    then have "lower_char c = c" by (auto simp: lower_char_def Let_def)
    then show ?thesis by simp
  qed
qed

lemma toLowerCase_idem [simp]: "toLowerCase (toLowerCase s) = toLowerCase s"
  by (simp add: toLowerCase_def lower_char_idem)

subsection \<open>Accepted bodies\<close>

lemma clampInt_bounds: "lo \<le> hi \<Longrightarrow> lo \<le> fb \<Longrightarrow> fb \<le> hi \<Longrightarrow> lo \<le> clampInt v lo hi fb \<and> clampInt v lo hi fb \<le> hi"
  by (auto simp: clampInt_def split: option.splits)

text \<open>The reward that was read can be stored: every column it needs is set, and positive up to rounding.\<close>

definition reward_matches :: "offer_data \<Rightarrow> bool" where
  "reward_matches d \<longleftrightarrow> (case od_reward d of BlkReward a \<Rightarrow> od_rewardKind d = REWARD_BLK | PolReward a \<Rightarrow> od_rewardKind d = REWARD_POL
     | HashReward h n \<Rightarrow> od_rewardKind d = REWARD_HASHRATE_TEMP \<and> 0 < h \<and> 1 \<le> n \<and> n \<le> 365)"

definition stored_positive :: "offer_data \<Rightarrow> bool" where
  "stored_positive d = (case od_reward d of BlkReward a \<Rightarrow> 0 < a | PolReward a \<Rightarrow> 0 < a | HashReward h n \<Rightarrow> True)"

lemma parseReward_Inr:
  assumes "parseReward env rk b = Inr r" and "rk \<in> {REWARD_BLK, REWARD_POL, REWARD_HASHRATE_TEMP}"
  shows "case r of BlkReward a \<Rightarrow> rk = REWARD_BLK | PolReward a \<Rightarrow> rk = REWARD_POL
    | HashReward h n \<Rightarrow> rk = REWARD_HASHRATE_TEMP \<and> 0 < h \<and> 1 \<le> n \<and> n \<le> 365"
  using assms clampInt_bounds [of 1 365 1 "ob_rewardHashRateDays b"] unfolding parseReward_def
  by (auto split: if_splits option.splits)

lemma parse_Inr:
  assumes "parseAdminOfferBody env b s = (Inr d, t)"
  shows "od_kind d = OFFER_KIND_PTC_IFRAME \<or> od_kind d = OFFER_KIND_GENERAL_TASK"
    and "od_title d \<noteq> ''''" "length (od_title d) \<le> 200"
    and "0 \<le> od_minViewSeconds d" "od_minViewSeconds d \<le> 7200" "1 \<le> od_dailyLimitPerUser d" "od_dailyLimitPerUser d \<le> 50"
      "0 \<le> od_sortOrder d" "od_sortOrder d \<le> 99999"
    and "reward_matches d"
proof -
  obtain rk r url tm where k: "od_kind d = OFFER_KIND_PTC_IFRAME \<or> od_kind d = OFFER_KIND_GENERAL_TASK"
    and ti: "od_title d \<noteq> ''''" "length (od_title d) \<le> 200"
    and c: "od_minViewSeconds d = clampInt (ob_minViewSeconds b) 0 7200 10" "od_dailyLimitPerUser d = clampInt (ob_dailyLimitPerUser b) 1 50 3"
      "od_sortOrder d = clampInt (ob_sortOrder b) 0 99999 0"
    and r: "parseReward env (od_rewardKind d) b = Inr (od_reward d)" "od_rewardKind d \<in> {REWARD_BLK, REWARD_POL, REWARD_HASHRATE_TEMP}"
    using assms unfolding parseAdminOfferBody_def Let_def
    by (simp add: and_then_Inr_iff throw_def split: if_split_asm) (auto simp: and_then_Inr_iff split: sum.splits if_split_asm)
  show "od_kind d = OFFER_KIND_PTC_IFRAME \<or> od_kind d = OFFER_KIND_GENERAL_TASK" "od_title d \<noteq> ''''" "length (od_title d) \<le> 200"
    using k ti by simp_all
  show "0 \<le> od_minViewSeconds d" "od_minViewSeconds d \<le> 7200" "1 \<le> od_dailyLimitPerUser d" "od_dailyLimitPerUser d \<le> 50"
      "0 \<le> od_sortOrder d" "od_sortOrder d \<le> 99999"
    using clampInt_bounds [of 0 7200 10] clampInt_bounds [of 1 50 3] clampInt_bounds [of 0 99999 0] unfolding c by simp_all
  show "reward_matches d" using parseReward_Inr [OF r] by (simp add: reward_matches_def split: reward_data.splits)
qed

lemma grant_applyData:
  assumes m: "reward_matches d" and u: "getUser u db \<noteq> None"
  shows "(\<exists>db'. grantInternalOfferwallRewardInTx u (applyData d k) now db = (Inr (), db')) \<longleftrightarrow> stored_positive d"
proof -
  have up: "toUpperCase REWARD_BLK = REWARD_BLK" "toUpperCase REWARD_POL = REWARD_POL" "toUpperCase REWARD_HASHRATE_TEMP = REWARD_HASHRATE_TEMP"
    by (code_simp, code_simp, code_simp)
  obtain x where x: "getUser u db = Some x" using u by blast
  show ?thesis
  proof (cases "od_reward d")
    case (BlkReward a)
    then show ?thesis using m x by (auto simp: reward_matches_def stored_positive_def grantInternalOfferwallRewardInTx_def applyData_def
        applyReward_def up grantAmount_def map_error_def creditBalance_def throw_def)
  next
    case (PolReward a)
    then show ?thesis using m x reward_kinds by (auto simp: reward_matches_def stored_positive_def grantInternalOfferwallRewardInTx_def applyData_def
        applyReward_def up grantAmount_def map_error_def creditBalance_def throw_def)
  next
    case (HashReward h n)
    then show ?thesis using m reward_kinds by (auto simp: reward_matches_def stored_positive_def grantInternalOfferwallRewardInTx_def applyData_def
        applyReward_def up ret_def split: prod.splits)
  qed
qed

subsection \<open>Patching a general task\<close>

lemma parse_general_null:
  assumes "ob_kind b = JsText OFFER_KIND_GENERAL_TASK" and "ob_iframeUrl b = JsNull"
  shows "\<exists>e t. parseAdminOfferBody env b s = (Inl e, t)"
proof -
  have k: "toUpperCase (trim (textOr env (ob_kind b))) = OFFER_KIND_GENERAL_TASK" unfolding assms(1) textOr_def falsy_def stringOf_def
    by (simp add: OFFER_KIND_GENERAL_TASK_def) code_simp
  have n: "trim ''null'' \<noteq> ''''" by code_simp
  have "OFFER_KIND_GENERAL_TASK \<noteq> OFFER_KIND_PTC_IFRAME" by (simp add: OFFER_KIND_GENERAL_TASK_def OFFER_KIND_PTC_IFRAME_def)
  then show ?thesis unfolding parseAdminOfferBody_def Let_def k
    by (simp add: parseIframe_def and_then_def assms stringOf_def n throw_def)
qed

end
