(* ===== verification/OfferwallLate.thy ===== *)
theory OfferwallLate
  imports OfferwallSteps
begin

section \<open>Overlapping requests of the offerwall\<close>

text \<open>
  A request reads the tables and writes later, and nothing locks what it read.  A state of this machine
  is the number of late writes so far, the tables, and all their earlier states; a late write carries
  out what a request decided in any of those states.  A start reads the offer, the completed attempts and
  the open one by three queries, which may see three different states: a late start is any for an offer
  that was active once.  \<open>Served\<close> is a request whose writes follow its
  reads at once, and between two requests other components change users, powers and tasks (\<open>Other\<close>).
\<close>

type_synonym wall_history = "nat \<times> ow_store \<times> ow_store list"

inductive late_step :: "ow_env \<Rightarrow> wall_history \<Rightarrow> wall_history \<Rightarrow> bool" for env where
  Served: "serve_step env s t \<Longrightarrow> late_step env (n, s, hs) (n, t, s # hs)"
| Other: "late_step env (n, s, hs) (n, s\<lparr>ow_db := db\<rparr>, s # hs)"
| LateStart: "s0 \<in> set hs \<Longrightarrow> find_first (\<lambda>k. oo_id k = i \<and> oo_isActive k) (ow_offers s0) = Some k
    \<Longrightarrow> createAttempt env u i now s = (x1, t)
    \<Longrightarrow> late_step env (n, s, hs) (n + 1, t, s # hs)"
| LateOpen: "s0 \<in> set hs \<Longrightarrow> openPlan env u i s0 = Inr a \<Longrightarrow> openWrite i now s = (x2, t)
    \<Longrightarrow> late_step env (n, s, hs) (n + 1, t, s # hs)"
| LateReview: "s0 \<in> set hs \<Longrightarrow> submitPlan env u i now0 s0 = Inr (a, k) \<Longrightarrow> oo_completionMode k = COMPLETION_ADMIN_APPROVAL
    \<Longrightarrow> reviewWrite (oa_id a) now snap s = (x3, t) \<Longrightarrow> late_step env (n, s, hs) (n + 1, t, s # hs)"
| LateClaim: "s0 \<in> set hs \<Longrightarrow> submitPlan env u i now0 s0 = Inr (a, k) \<Longrightarrow> oo_completionMode k \<noteq> COMPLETION_ADMIN_APPROVAL
    \<Longrightarrow> s1 \<in> set (s # hs) \<Longrightarrow> claimFresh u i s1 \<Longrightarrow> claimCommit env u a k now snap s = (x4, t)
    \<Longrightarrow> late_step env (n, s, hs) (n + 1, t, s # hs)"
| LateApprove: "s0 \<in> set hs \<Longrightarrow> approvePlan i s0 = Inr (a, k) \<Longrightarrow> s1 \<in> set (s # hs) \<Longrightarrow> pendingAttempt i s1 \<noteq> None
    \<Longrightarrow> approveCommit env a k now s = (x5, t) \<Longrightarrow> late_step env (n, s, hs) (n + 1, t, s # hs)"
| LateReject: "s0 \<in> set hs \<Longrightarrow> pendingAttempt i s0 = Some a \<Longrightarrow> rejectWrite i note now s = (x6, t)
    \<Longrightarrow> late_step env (n, s, hs) (n + 1, t, s # hs)"

definition late_init :: "wall_history \<Rightarrow> bool" where
  "late_init x \<longleftrightarrow> fst x = 0 \<and> wall_init (fst (snd x)) \<and> snd (snd x) = []"

subsection \<open>What a late write amounts to\<close>

text \<open>Nothing, one row put in place of the one with its id, or one new row.\<close>

inductive late_effect :: "ow_store \<Rightarrow> ow_store \<Rightarrow> bool" where
  Lost: "late_effect s s"
| Put: "a \<in> set (ow_attempts s) \<Longrightarrow> ow_attempts t = update_where (\<lambda>b. oa_id b = oa_id a) f (ow_attempts s)
    \<Longrightarrow> ow_offers t = ow_offers s \<Longrightarrow> ow_next t = ow_next s \<Longrightarrow> oa_id (f a) = oa_id a \<Longrightarrow> oa_offerId (f a) = oa_offerId a
    \<Longrightarrow> (attempt_typed a \<Longrightarrow> attempt_typed (f a)) \<Longrightarrow> (oa_submittedAt a \<noteq> None \<Longrightarrow> oa_submittedAt (f a) \<noteq> None)
    \<Longrightarrow> late_effect s t"
| Row: "i < ow_next s \<Longrightarrow> late_effect s (s\<lparr>ow_attempts := ow_attempts s @ [newAttempt (ow_next s) u i p now], ow_next := ow_next s + 1\<rparr>)"

text \<open>What an earlier state says about the present one: its ids are taken, and an attempt it shows as
  submitted, if still there, is submitted.\<close>

definition since :: "ow_store \<Rightarrow> ow_store \<Rightarrow> bool" where
  "since s0 s \<longleftrightarrow> (\<forall>k \<in> set (ow_offers s0). oo_id k < ow_next s)
     \<and> (\<forall>a \<in> set (ow_attempts s0). oa_id a < ow_next s
          \<and> (oa_status a = ATTEMPT_STATUS_PENDING_REVIEW \<longrightarrow> (\<forall>b \<in> set (ow_attempts s). oa_id b = oa_id a \<longrightarrow> oa_submittedAt b \<noteq> None)))"

definition grows :: "ow_store \<Rightarrow> ow_store \<Rightarrow> bool" where
  "grows s t \<longleftrightarrow> ow_next s \<le> ow_next t \<and> (\<forall>b \<in> set (ow_attempts t). ow_next s \<le> oa_id b
     \<or> (\<exists>a \<in> set (ow_attempts s). oa_id a = oa_id b \<and> (oa_submittedAt a \<noteq> None \<longrightarrow> oa_submittedAt b \<noteq> None)))"

lemma since_grows:
  assumes "since s0 s" and "grows s t"
  shows "since s0 t"
  unfolding since_def
proof (intro conjI ballI impI)
  have n: "ow_next s \<le> ow_next t" using assms(2) by (simp add: grows_def)
  show "oo_id k < ow_next t" if "k \<in> set (ow_offers s0)" for k
    using assms(1) that n unfolding since_def by (meson order_less_le_trans)
  show "oa_id a < ow_next t" if "a \<in> set (ow_attempts s0)" for a
    using assms(1) that n unfolding since_def by (meson order_less_le_trans)
  fix a b assume a: "a \<in> set (ow_attempts s0)" "oa_status a = ATTEMPT_STATUS_PENDING_REVIEW"
    and b: "b \<in> set (ow_attempts t)" "oa_id b = oa_id a"
  have "oa_id b < ow_next s" using assms(1) a(1) b(2) unfolding since_def by metis
  with assms(2) b(1) obtain c where "c \<in> set (ow_attempts s)" "oa_id c = oa_id b"
    "oa_submittedAt c \<noteq> None \<longrightarrow> oa_submittedAt b \<noteq> None" unfolding grows_def by fastforce
  with assms(1) a b(2) show "oa_submittedAt b \<noteq> None" unfolding since_def by metis
qed

lemma grows_put:
  assumes "unique_key oa_id (ow_attempts s)" and "a \<in> set (ow_attempts s)" and "ow_next s \<le> ow_next t"
    and "ow_attempts t = update_where (\<lambda>b. oa_id b = oa_id a) f (ow_attempts s)" and "oa_id (f a) = oa_id a"
    and "oa_submittedAt a \<noteq> None \<Longrightarrow> oa_submittedAt (f a) \<noteq> None"
  shows "grows s t"
proof -
  have "\<exists>c \<in> set (ow_attempts s). oa_id c = oa_id b \<and> (oa_submittedAt c \<noteq> None \<longrightarrow> oa_submittedAt b \<noteq> None)"
    if "b \<in> set (ow_attempts t)" for b
    using put_row [OF assms(1,2) that [unfolded assms(4)]] assms(2,5,6) by metis
  with assms(3) show ?thesis unfolding grows_def by blast
qed

lemma effect_grows:
  assumes e: "effect env s t" and uq: "unique_key oa_id (ow_attempts s)"
  shows "grows s t"
proof -
  have same: "grows s u" if "ow_attempts u = ow_attempts s" "ow_next s \<le> ow_next u" for u
    using that by (auto simp: grows_def)
  from e show ?thesis
  proof cases
    case (Moved a f)
    then show ?thesis by (intro grows_put [where a = a and f = f, OF uq]) simp_all
  next
    case (Paid a f k now db)
    then show ?thesis by (intro grows_put [where a = a and f = f, OF uq]) simp_all
  qed (auto simp: same grows_def newAttempt_def)
qed

lemma late_grows:
  assumes e: "late_effect s t" and uq: "unique_key oa_id (ow_attempts s)"
  shows "grows s t"
  using e
proof cases
  case (Put a f)
  then show ?thesis by (intro grows_put [where a = a and f = f, OF uq]) simp_all
qed (auto simp: grows_def newAttempt_def)

subsection \<open>Tables that late writes keep\<close>

definition table_ok :: "ow_store \<Rightarrow> bool" where
  "table_ok s \<longleftrightarrow> unique_key oa_id (ow_attempts s)
     \<and> (\<forall>a \<in> set (ow_attempts s). oa_id a < ow_next s \<and> oa_offerId a < ow_next s \<and> attempt_typed a)
     \<and> unique_key oo_id (ow_offers s) \<and> (\<forall>k \<in> set (ow_offers s). oo_id k < ow_next s)"

lemma wall_table_ok: "wall_ok s \<Longrightarrow> table_ok s"
  by (auto simp: wall_ok_def table_ok_def attempts_ok_def attempt_wt_def attempt_typed_def)

lemma since_refl:
  assumes "table_ok s"
  shows "since s s"
proof -
  have "b = a" if "a \<in> set (ow_attempts s)" "b \<in> set (ow_attempts s)" "oa_id b = oa_id a" for a b
    using assms that by (auto simp: table_ok_def dest: unique_key_eqD)
  moreover have "oa_submittedAt a \<noteq> None" if "attempt_typed a" "oa_status a = ATTEMPT_STATUS_PENDING_REVIEW" for a
    using that by (auto simp: attempt_typed_def attempt_status)
  ultimately show ?thesis using assms unfolding since_def table_ok_def by metis
qed

lemma table_put:
  assumes ok: "table_ok s" and a: "a \<in> set (ow_attempts s)"
    and t: "ow_attempts t = update_where (\<lambda>b. oa_id b = oa_id a) f (ow_attempts s)" "ow_offers t = ow_offers s" "ow_next t = ow_next s"
    and f: "oa_id (f a) = oa_id a" "oa_offerId (f a) = oa_offerId a" "attempt_typed a \<Longrightarrow> attempt_typed (f a)"
  shows "table_ok t"
proof -
  have uq: "unique_key oa_id (ow_attempts s)" using ok by (simp add: table_ok_def)
  have "map oa_id (ow_attempts t) = map oa_id (ow_attempts s)"
    using a f(1) uq by (simp add: t update_where_def) (metis unique_key_eqD)
  moreover have "oa_id b < ow_next t \<and> oa_offerId b < ow_next t \<and> attempt_typed b" if "b \<in> set (ow_attempts t)" for b
    using put_row [OF uq a that [unfolded t(1)]] ok a f unfolding table_ok_def t(3) by metis
  ultimately show ?thesis using ok unfolding table_ok_def unique_key_def t(2,3) by metis
qed

lemma table_effect:
  assumes e: "effect env s t" and ok: "table_ok s"
  shows "table_ok t"
proof -
  note offers = effect_offers [OF e]
  from e show ?thesis
  proof cases
    case Offers
    have "unique_key oo_id (ow_offers t) \<and> (\<forall>k \<in> set (ow_offers t). oo_id k < ow_next t)"
      using offers ok unfolding table_ok_def by (fastforce simp: set_update_where)
    with Offers ok show ?thesis unfolding table_ok_def by fastforce
  next
    case (Dropped P)
    with ok show ?thesis by (auto simp: table_ok_def unique_key_delete)
  next
    case (Started k i u p now)
    with ok show ?thesis
      by (auto simp: table_ok_def newAttempt_def attempt_typed_def)
  next
    case (Moved a f)
    have "oa_offerId (f a) = oa_offerId a" using Moved(6) [of "oa_userId a" "oa_offerId a" "oa_periodKey a"] by (simp add: ofDay_def)
    with Moved show ?thesis by (intro table_put [where a = a and f = f, OF ok]) simp_all
  next
    case (Paid a f k now db)
    have "oa_offerId (f a) = oa_offerId a" using Paid(6) [of "oa_userId a" "oa_offerId a" "oa_periodKey a"] by (simp add: ofDay_def)
    with Paid show ?thesis by (intro table_put [where a = a and f = f, OF ok]) simp_all
  qed (use ok in simp)
qed

lemma table_late:
  assumes e: "late_effect s t" and ok: "table_ok s"
  shows "table_ok t"
  using e
proof cases
  case (Put a f)
  then show ?thesis by (intro table_put [where a = a and f = f, OF ok]) simp_all
next
  case (Row i u p now)
  with ok show ?thesis by (auto simp: table_ok_def newAttempt_def attempt_typed_def)
qed (use ok in simp)

text \<open>One late write adds at most one to any count of attempts.\<close>

lemma late_count:
  assumes e: "late_effect s t" and ok: "table_ok s"
  shows "count_where P (ow_attempts t) \<le> count_where P (ow_attempts s) + 1"
  using e
proof cases
  case (Put a f)
  have "count_where P (ow_attempts t) + of_bool (P a) = count_where P (ow_attempts s) + of_bool (P (f a))"
    unfolding Put(2) using ok Put(1) by (intro count_where_update_key) (simp_all add: table_ok_def)
  then show ?thesis by (cases "P a"; cases "P (f a)") simp_all
qed auto

subsection \<open>Each late write\<close>

lemma late_update:
  assumes "updAttempt i f s = (r, t)" and "\<And>a. a \<in> set (ow_attempts s) \<Longrightarrow> oa_id a = i \<Longrightarrow>
      oa_id (f a) = oa_id a \<and> oa_offerId (f a) = oa_offerId a \<and> (attempt_typed a \<longrightarrow> attempt_typed (f a))
      \<and> (oa_submittedAt a \<noteq> None \<longrightarrow> oa_submittedAt (f a) \<noteq> None)"
  shows "late_effect s t"
  using assms(1)
proof (cases rule: updAttempt_cases)
  case gone
  then show ?thesis by (simp add: Lost)
next
  case (row a)
  then show ?thesis using assms(2) [OF row(2,3)] by (intro Put [of a s t f]) auto
qed

lemma late_start:
  assumes "since s0 s" and "find_first (\<lambda>k. oo_id k = i \<and> oo_isActive k) (ow_offers s0) = Some k"
    and "createAttempt env u i now s = (r, t)"
  shows "late_effect s t"
proof -
  from find_first_Some_conj [OF assms(2)] assms(1) have "i < ow_next s" unfolding since_def by blast
  with assms(3) show ?thesis
    by (auto simp: createAttempt_def throw_def ret_def Let_def split: if_splits intro: Lost Row)
qed

lemma late_open: "openWrite i now s = (r, t) \<Longrightarrow> late_effect s t"
  unfolding openWrite_def by (erule late_update) (simp add: attempt_typed_def)

lemma late_review: "reviewWrite i now snap s = (r, t) \<Longrightarrow> late_effect s t"
  unfolding reviewWrite_def by (erule late_update) (simp add: attempt_typed_def)

lemma late_claim:
  assumes "claimCommit env u a k now snap s = (r, t)"
  shows "late_effect s t"
  using assms
proof (cases rule: claimCommit_cases)
  case (paid b db)
  let ?f = "\<lambda>a. a\<lparr>oa_status := ATTEMPT_STATUS_COMPLETED, oa_submittedAt := Some now, oa_completedAt := Some now,
      oa_rewardGrantedAt := Some now, oa_auditSnapshot := Some snap\<rparr>"
  show ?thesis by (rule Put [of b s t ?f]) (use paid in \<open>simp_all add: attempt_typed_def\<close>)
qed (simp add: Lost)

text \<open>A review was decided on an attempt that was pending then, and so is submitted still.\<close>

lemma late_approve:
  assumes s0: "since s0 s" and p: "approvePlan i s0 = Inr (a, k)" and c: "approveCommit env a k now s = (r, t)"
  shows "late_effect s t"
proof -
  from p have "pendingAttempt i s0 = Some a" by (auto simp: approvePlan_def split: option.splits if_splits)
  note a = pendingAttempt_D [OF this]
  from c show ?thesis
  proof (cases rule: approveCommit_cases)
    case (paid b db)
    let ?f = "\<lambda>a. a\<lparr>oa_status := ATTEMPT_STATUS_COMPLETED, oa_completedAt := Some now, oa_rewardGrantedAt := Some now\<rparr>"
    have "oa_submittedAt b \<noteq> None" using s0 a(1,3) paid(3,4) unfolding since_def by metis
    then show ?thesis by (intro Put [of b s t ?f]) (use paid in \<open>simp_all add: attempt_typed_def\<close>)
  qed (simp add: Lost)
qed

lemma late_reject:
  assumes s0: "since s0 s" and p: "pendingAttempt i s0 = Some a" and r: "rejectWrite i note now s = (r, t)"
  shows "late_effect s t"
  using r unfolding rejectWrite_def
proof (rule late_update)
  fix b assume b: "b \<in> set (ow_attempts s)" "oa_id b = i"
  note a = pendingAttempt_D [OF p]
  have "oa_submittedAt b \<noteq> None" using s0 a b unfolding since_def by metis
  then show "oa_id (b\<lparr>oa_status := ATTEMPT_STATUS_REJECTED, oa_completedAt := Some now, oa_adminNote := x\<rparr>) = oa_id b
    \<and> oa_offerId (b\<lparr>oa_status := ATTEMPT_STATUS_REJECTED, oa_completedAt := Some now, oa_adminNote := x\<rparr>) = oa_offerId b
    \<and> (attempt_typed b \<longrightarrow> attempt_typed (b\<lparr>oa_status := ATTEMPT_STATUS_REJECTED, oa_completedAt := Some now, oa_adminNote := x\<rparr>))
    \<and> (oa_submittedAt b \<noteq> None \<longrightarrow> oa_submittedAt (b\<lparr>oa_status := ATTEMPT_STATUS_REJECTED, oa_completedAt := Some now, oa_adminNote := x\<rparr>) \<noteq> None)" for x
    by (simp add: attempt_typed_def)
qed

subsection \<open>The machine\<close>

text \<open>A step is a request served, a change elsewhere, or one more late write.\<close>

definition late_ok :: "wall_history \<Rightarrow> bool" where
  "late_ok x \<longleftrightarrow> (case x of (n, s, hs) \<Rightarrow> table_ok s \<and> (\<forall>u i p. opens u i p (ow_attempts s) \<le> 1 + n)
     \<and> (n = 0 \<longrightarrow> wall_ok s) \<and> (\<forall>s0 \<in> set hs. since s0 s))"

lemma late_cases:
  assumes "late_step env (n, s, hs) y" and "\<forall>s0 \<in> set hs. since s0 s"
  obtains (served) t where "y = (n, t, s # hs)" "effect env s t"
    | (other) db where "y = (n, s\<lparr>ow_db := db\<rparr>, s # hs)"
    | (late) t where "y = (n + 1, t, s # hs)" "late_effect s t"
  using assms(1)
proof cases
  case (Served t)
  then show ?thesis by (intro served [of t]) (simp_all add: serve_effect)
next
  case (Other db)
  then show ?thesis by (rule other)
next
  case (LateStart s0 i k u now x t)
  then show ?thesis using assms(2) by (intro late [of t]) (auto intro: late_start)
next
  case (LateOpen s0 u i a now x t)
  then show ?thesis by (intro late [of t]) (auto intro: late_open)
next
  case (LateReview s0 u i now0 a k now snap x t)
  then show ?thesis by (intro late [of t]) (auto intro: late_review)
next
  case (LateClaim s0 u i now0 a k s1 now snap x t)
  then show ?thesis by (intro late [of t]) (auto intro: late_claim)
next
  case (LateApprove s0 i a k s1 now x t)
  then show ?thesis using assms(2) by (intro late [of t]) (auto intro: late_approve)
next
  case (LateReject s0 i a remark now x t)
  then show ?thesis using assms(2) by (intro late [of t]) (auto intro: late_reject)
qed

lemma since_step:
  assumes "table_ok s" and "\<forall>s0 \<in> set hs. since s0 s" and "grows s t"
  shows "\<forall>s0 \<in> set (s # hs). since s0 t"
  using since_grows [OF _ assms(3)] since_refl [OF assms(1)] assms(2) by auto

lemma late_ok_step:
  assumes step: "late_step env x y" and ok: "late_ok x"
  shows "late_ok y"
proof -
  obtain n s hs where x: "x = (n, s, hs)" by (cases x) auto
  from ok have s: "table_ok s" "\<And>u i p. opens u i p (ow_attempts s) \<le> 1 + n" "n = 0 \<Longrightarrow> wall_ok s"
    and h: "\<forall>s0 \<in> set hs. since s0 s" unfolding x late_ok_def by auto
  have uq: "unique_key oa_id (ow_attempts s)" using s(1) by (simp add: table_ok_def)
  from step [unfolded x] h show ?thesis
  proof (cases rule: late_cases)
    case (served t)
    have "opens u i p (ow_attempts t) \<le> 1 + n" for u i p
      using opens_effect [OF served(2) uq, of u i p] s(2) [of u i p] by simp
    then show ?thesis
      using table_effect [OF served(2) s(1)] wall_ok_effect [OF served(2) s(3)] since_step [OF s(1) h effect_grows [OF served(2) uq]]
      by (simp add: served(1) late_ok_def)
  next
    case (other db)
    have "grows s (s\<lparr>ow_db := db\<rparr>)" by (auto simp: grows_def)
    from since_step [OF s(1) h this] show ?thesis using s by (simp add: other late_ok_def table_ok_def wall_ok_def)
  next
    case (late t)
    have "opens u i p (ow_attempts t) \<le> 1 + (n + 1)" for u i p
      using late_count [OF late(2) s(1), of "\<lambda>a. ofDay u i p a \<and> attemptOpen a"] s(2) [of u i p] by (simp add: opens_def)
    then show ?thesis
      using table_late [OF late(2) s(1)] since_step [OF s(1) h late_grows [OF late(2) uq]] by (simp add: late(1) late_ok_def)
  qed
qed

interpretation wall: machine late_init "late_step env" late_ok for env
proof unfold_locales
  show "late_ok x" if "late_init x" for x
  proof -
    obtain n s hs where x: "x = (n, s, hs)" by (cases x) auto
    with that have w: "wall_init s" and e: "n = 0" "hs = []" by (auto simp: late_init_def)
    have "opens u i p (ow_attempts s) = 0" for u i p using w by (simp add: wall_init_def opens_def)
    with wall_ok_init [OF w] wall_table_ok show ?thesis by (simp add: x e late_ok_def)
  qed
  show "late_ok y" if "late_ok x" "late_step env x y" for x y using late_ok_step that by blast
qed

subsection \<open>The daily limit\<close>

text \<open>No administrator lowers the limit of an offer.\<close>

definition limits_kept :: "ow_store \<Rightarrow> ow_store \<Rightarrow> bool" where
  "limits_kept s t \<longleftrightarrow> list_all (\<lambda>j. list_all (\<lambda>k. oo_id k = oo_id j \<longrightarrow> oo_dailyLimitPerUser j \<le> oo_dailyLimitPerUser k) (ow_offers t)) (ow_offers s)"

inductive limit_step :: "ow_env \<Rightarrow> wall_history \<Rightarrow> wall_history \<Rightarrow> bool" for env where
  Kept: "late_step env (n, s, hs) (m, t, ks) \<Longrightarrow> limits_kept s t \<Longrightarrow> limit_step env (n, s, hs) (m, t, ks)"

definition limit_ok :: "wall_history \<Rightarrow> bool" where
  "limit_ok x \<longleftrightarrow> late_ok x \<and> (case x of (n, s, hs) \<Rightarrow>
     \<forall>k \<in> set (ow_offers s). \<forall>u p. int (taken u (oo_id k) p (ow_attempts s)) \<le> max 0 (oo_dailyLimitPerUser k) + int n)"

lemma limit_served:
  assumes ok: "table_ok s" and lim: "\<forall>k \<in> set (ow_offers s). \<forall>u p. int (taken u (oo_id k) p (ow_attempts s)) \<le> max 0 (oo_dailyLimitPerUser k) + int n"
    and e: "effect env s t" and kept: "limits_kept s t" and k: "k \<in> set (ow_offers t)"
  shows "int (taken u (oo_id k) p (ow_attempts t)) \<le> max 0 (oo_dailyLimitPerUser k) + int n"
proof -
  have uq: "unique_key oa_id (ow_attempts s)" using ok by (simp add: table_ok_def)
  show ?thesis
  proof (cases "oo_id k \<in> oo_id ` set (ow_offers s)")
    case True
    then obtain j where j: "j \<in> set (ow_offers s)" "oo_id j = oo_id k" by force
    have l: "oo_dailyLimitPerUser j \<le> oo_dailyLimitPerUser k" using kept j k by (auto simp: limits_kept_def list_all_iff)
    have "int (taken u (oo_id k) p (ow_attempts s)) \<le> max 0 (oo_dailyLimitPerUser j) + int n" using lim j by metis
    moreover have "m = j" if "m \<in> set (ow_offers s)" "oo_id m = oo_id k" for m
      using unique_key_eqD [of oo_id "ow_offers s" m j] ok that j by (simp add: table_ok_def)
    ultimately show ?thesis using taken_effect [OF e uq, of u "oo_id k" p] l by fastforce
  next
    case False
    then have new: "ow_next s \<le> oo_id k" using effect_offers [OF e] k by (auto simp: set_update_where)
    have "\<forall>a \<in> set (ow_attempts s). oa_offerId a \<noteq> oo_id k" using ok new by (fastforce simp: table_ok_def)
    then have "taken u (oo_id k) p (ow_attempts s) = 0" by (auto simp: taken_def count_where_0_iff ofDay_def)
    moreover have "oo_id m \<noteq> oo_id k" if "m \<in> set (ow_offers s)" for m using False that by (metis image_eqI)
    ultimately have "taken u (oo_id k) p (ow_attempts t) = 0" using taken_effect [OF e uq, of u "oo_id k" p] by fastforce
    then show ?thesis by simp
  qed
qed

lemma limit_ok_step:
  assumes step: "limit_step env x y" and ok: "limit_ok x"
  shows "limit_ok y"
  using step
proof cases
  case (Kept n s hs m t ks)
  have l: "late_ok (n, s, hs)" and lim: "\<forall>k \<in> set (ow_offers s). \<forall>u p. int (taken u (oo_id k) p (ow_attempts s)) \<le> max 0 (oo_dailyLimitPerUser k) + int n"
    using ok Kept(1) by (simp_all add: limit_ok_def)
  then have tab: "table_ok s" and h: "\<forall>s0 \<in> set hs. since s0 s" by (simp_all add: late_ok_def)
  have "int (taken u (oo_id k) p (ow_attempts t)) \<le> max 0 (oo_dailyLimitPerUser k) + int m" if k: "k \<in> set (ow_offers t)" for k u p
    using Kept(3) h
  proof (cases rule: late_cases)
    case (served r)
    with limit_served [OF tab lim _ Kept(4) k] show ?thesis by simp
  next
    case (other db)
    with lim k show ?thesis by simp
  next
    case (late r)
    then have "ow_offers t = ow_offers s" by (auto elim: late_effect.cases)
    with lim k have "int (taken u (oo_id k) p (ow_attempts s)) \<le> max 0 (oo_dailyLimitPerUser k) + int n" by simp
    with late_count [of s t "\<lambda>a. ofDay u (oo_id k) p a \<and> (attemptOpen a \<or> isDone a)"] late tab show ?thesis
      unfolding taken_def by simp
  qed
  with late_ok_step [OF Kept(3) l] show ?thesis by (simp add: Kept(2) limit_ok_def)
qed

interpretation limited: machine late_init "limit_step env" limit_ok for env
proof unfold_locales
  show "limit_ok x" if "late_init x" for x
    using wall.init_inv [OF that] that by (auto simp: limit_ok_def late_init_def wall_init_def taken_def split: prod.splits)
  show "limit_ok y" if "limit_ok x" "limit_step env x y" for x y using limit_ok_step that by blast
qed

end
