(* ===== verification/OfferwallClaims.thy ===== *)
theory OfferwallClaims
  imports OfferwallLaws OfferwallLate
begin

section \<open>Properties of the internal offerwall\<close>

subsection \<open>A small offerwall\<close>

text \<open>Days of UTC; a URL parser that knows https URLs without a path; numbers print as their integer part.\<close>

definition demo_env :: ow_env where
  "demo_env = \<lparr>we_enabled = None, we_abandonAfterSec = '''', we_allowHttp = '''', we_zone = (\<lambda>t. t div 86400000), we_dec8_of = round8_away,
     we_v2Ok = True,
     we_parseUrl = (\<lambda>u. if take 8 u = ''https://'' then Some (''https'', drop 8 u, u) else None), we_showNumber = (\<lambda>x. show_int \<lfloor>x\<rfloor>)\<rparr>"

definition wall_user :: "int \<Rightarrow> user" where
  "wall_user i = \<lparr>usr_id = i, usr_name = ''u'', usr_username = None, usr_isBanned = False, usr_polBalance = 0,
     usr_blkBalance = 500000000, usr_blkLocked = 0, usr_walletAddress = None, usr_miningPayoutMode = ''pol'', usr_refCode = None,
     usr_referredBy = None\<rparr>"

definition wall_db :: quest_store where
  "wall_db = \<lparr>st_users = [wall_user 1, wall_user 2], st_games = [], st_gamePowers = [], st_ytPowers = [], st_gpuPowers = [],
     st_v2Powers = [], st_miners = [], st_eventMiners = [], st_owned = [], st_inventory = [], st_userMiners = [], st_audit = [],
     st_calls = [], st_next = 100, qs_defs = [], qs_progress = [], qs_ticks = [], mp_seasons = [], mp_enrollments = [], mp_ledger = [],
     mp_progress = [], mp_ticks = [], mp_claims = [], mp_purchases = []\<rparr>"

text \<open>An offer of 3 BLK after 10 seconds, once a day, paid at once.\<close>

definition blk_offer :: ow_offer where
  "blk_offer = (blankOffer 5)\<lparr>oo_kind := OFFER_KIND_GENERAL_TASK, oo_title := ''task'', oo_rewardKind := REWARD_BLK,
     oo_rewardBlkAmount := Some 300000000, oo_dailyLimitPerUser := 1, oo_completionMode := COMPLETION_USER_SELF_CLAIM\<rparr>"

definition wall_demo :: ow_store where
  "wall_demo = \<lparr>ow_db = wall_db, ow_offers = [blk_offer], ow_attempts = [], ow_hosts = [], ow_allowlist = BUILTIN_IFRAME_HOSTS, ow_next = 10\<rparr>"

lemma wall_demo_init: "wall_init wall_demo"
  by (simp add: wall_init_def wall_demo_def blk_offer_def blankOffer_def unique_key_def)

text \<open>User 1 starts the offer and submits 20 seconds later.\<close>

definition wall_started :: ow_store where
  "wall_started = snd (postStart demo_env 1 ''5'' 1000 wall_demo)"

definition wall_done :: ow_store where
  "wall_done = snd (postSubmit demo_env ''snap'' 1 ''10'' 21000 wall_started)"

lemma wall_started_step: "serve_step demo_env wall_demo wall_started"
  unfolding wall_started_def by (metis Start prod.collapse)

lemma wall_done_step: "serve_step demo_env wall_started wall_done"
  unfolding wall_done_def by (metis Submit prod.collapse)

definition paid_attempt :: ow_attempt where
  "paid_attempt = (newAttempt 10 1 5 ''1970-01-01'' 1000)\<lparr>oa_status := ATTEMPT_STATUS_COMPLETED, oa_submittedAt := Some 21000,
     oa_completedAt := Some 21000, oa_rewardGrantedAt := Some 21000, oa_auditSnapshot := Some ''snap''\<rparr>"

lemma wall_eval:
  "ow_attempts wall_started = [newAttempt 10 1 5 ''1970-01-01'' 1000] \<and> ow_attempts wall_done = [paid_attempt]
   \<and> ow_offers wall_started = [blk_offer] \<and> ow_offers wall_done = [blk_offer]
   \<and> blkOf 1 (ow_db wall_started) = Some 500000000 \<and> blkOf 1 (ow_db wall_done) = Some 800000000
   \<and> fst (postStart demo_env 1 ''5'' 30000 wall_done) = Inl DailyLimit
   \<and> earned blkValue 1 wall_done = 300000000 \<and> earned blkValue 1 wall_started = 0"
  by code_simp

lemmas wall_states = wall_eval [THEN conjunct1] wall_eval [THEN conjunct2, THEN conjunct1]
  wall_eval [THEN conjunct2, THEN conjunct2, THEN conjunct1] wall_eval [THEN conjunct2, THEN conjunct2, THEN conjunct2, THEN conjunct1]

lemma wall_done_reached:
  "reaches late_init (late_step demo_env) (0, wall_done, [wall_started, wall_demo])"
  using late_step.Served [OF wall_started_step, of 0 "[]"] late_step.Served [OF wall_done_step, of 0 "[wall_demo]"] wall_demo_init
  by (metis late_init_def fst_conv snd_conv reaches.intros)

text \<open>
  A second request of user 1 to start the same offer read the tables before the first one wrote, and
  creates its attempt too.
\<close>

definition wall_twice :: ow_store where
  "wall_twice = snd (createAttempt demo_env 1 5 1001 wall_started)"

lemma wall_twice_step: "late_step demo_env (0, wall_started, [wall_demo]) (1, wall_twice, [wall_started, wall_demo])"
proof -
  have "find_first (\<lambda>k. oo_id k = 5 \<and> oo_isActive k) (ow_offers wall_demo) = Some blk_offer"
    by (simp add: wall_demo_def) (simp add: blk_offer_def blankOffer_def)
  moreover have "createAttempt demo_env 1 5 1001 wall_started = (fst (createAttempt demo_env 1 5 1001 wall_started), wall_twice)"
    by (simp add: wall_twice_def)
  ultimately show ?thesis using late_step.LateStart [of wall_demo "[wall_demo]" 5 blk_offer demo_env 1 1001 wall_started _ wall_twice 0] by simp
qed

lemma wall_twice_eval:
  "startPlan demo_env 1 5 1001 wall_demo = Inr None \<and> map oa_id (ow_attempts wall_twice) = [10, 11] \<and> opens 1 5 ''1970-01-01'' (ow_attempts wall_twice) = 2
   \<and> map oo_dailyLimitPerUser (ow_offers wall_twice) = [1]"
  by code_simp

lemma wall_twice_reached: "reaches late_init (late_step demo_env) (1, wall_twice, [wall_started, wall_demo])"
  using late_step.Served [OF wall_started_step, of 0 "[]"] wall_twice_step wall_demo_init
  by (metis late_init_def fst_conv snd_conv reaches.intros)

subsection \<open>Attempts\<close>

text \<open>
  C26: the requests may overlap: \<open>n\<close> is the number of writes so far that carried out what a request
  had decided on tables other requests have changed since.  Then every attempt still has one of the
  four statuses with the instants it needs (none when started, submission when pending, equal instants
  of completion and payment when completed, an end when rejected) and an id of its own, and a user has
  at most \<open>1 + n\<close> open attempts per offer and day.  While no write was late, the instants that are set
  are exactly those of the status, and there is at most one open attempt.
\<close>

lemma attempts_well_typed:
  assumes "reaches late_init (late_step env) (n, s, hs)" and "a \<in> set (ow_attempts s)"
  shows "attempt_typed a \<and> count_where (\<lambda>b. oa_id b = oa_id a) (ow_attempts s) = 1
    \<and> opens (oa_userId a) (oa_offerId a) (oa_periodKey a) (ow_attempts s) \<le> 1 + n
    \<and> (n = 0 \<longrightarrow> attempt_wt a)"
proof -
  have "late_ok (n, s, hs)" using wall.reaches_inv [OF assms(1)] .
  then have "table_ok s" "\<And>u i p. opens u i p (ow_attempts s) \<le> 1 + n" "n = 0 \<longrightarrow> wall_ok s" by (auto simp: late_ok_def)
  then show ?thesis using assms(2) count_key [of oa_id "ow_attempts s" a]
    unfolding table_ok_def wall_ok_def attempts_ok_def by blast
qed

text \<open>Served in order there is one exactly typed attempt; with one late start there are two open ones.\<close>

lemma attempts_well_typed_witness:
  "paid_attempt \<in> set (ow_attempts wall_done) \<and> attempt_wt paid_attempt
   \<and> (\<exists>a. oa_id a = 11 \<and> a \<in> set (ow_attempts wall_twice) \<and> attempt_typed a)
   \<and> opens 1 5 ''1970-01-01'' (ow_attempts wall_twice) = 2"
proof -
  have p: "paid_attempt \<in> set (ow_attempts wall_done)" by (simp add: wall_states)
  have "11 \<in> set (map oa_id (ow_attempts wall_twice))" using wall_twice_eval by simp
  then obtain a where a: "a \<in> set (ow_attempts wall_twice)" "oa_id a = 11" by auto
  from attempts_well_typed [OF wall_done_reached p] attempts_well_typed [OF wall_twice_reached a(1)] a p wall_twice_eval
  show ?thesis by blast
qed

text \<open>
  C27: as long as no administrator lowers the limit of an offer, a user never has more attempts on one day
  that are completed or may still be than the daily limit allows plus the number of late writes: exactly
  the limit for requests served one after the other, and one more at most for each write that followed
  reads other requests have made old.
\<close>

lemma offer_daily_limit:
  assumes "reaches late_init (limit_step env) (n, s, hs)" and "k \<in> set (ow_offers s)"
  shows "int (count_where (\<lambda>a. ofDay u (oo_id k) p a \<and> (attemptOpen a \<or> isDone a)) (ow_attempts s))
    \<le> max 0 (oo_dailyLimitPerUser k) + int n"
  using limited.reaches_inv [OF assms(1)] assms(2) unfolding limit_ok_def taken_def by auto

lemma offer_daily_limit_witness:
  "int (count_where (\<lambda>a. ofDay 1 5 ''1970-01-01'' a \<and> (attemptOpen a \<or> isDone a)) (ow_attempts wall_done)) \<le> 1
   \<and> fst (postStart demo_env 1 ''5'' 30000 wall_done) = Inl DailyLimit"
proof -
  have l: "limits_kept wall_demo wall_started" "limits_kept wall_started wall_done"
    by (simp_all add: limits_kept_def wall_states, simp add: wall_demo_def)
  have "limit_step demo_env (0, wall_demo, []) (0, wall_started, [wall_demo])"
    "limit_step demo_env (0, wall_started, [wall_demo]) (0, wall_done, [wall_started, wall_demo])"
    using wall_started_step wall_done_step l by (auto intro!: limit_step.Kept late_step.Served)
  moreover have "late_init (0, wall_demo, [])" using wall_demo_init by (simp add: late_init_def)
  ultimately have "reaches late_init (limit_step demo_env) (0, wall_done, [wall_started, wall_demo])" by (metis reaches.intros)
  from offer_daily_limit [OF this, of blk_offer 1 "''1970-01-01''"] have
    "int (count_where (\<lambda>a. ofDay 1 5 ''1970-01-01'' a \<and> (attemptOpen a \<or> isDone a)) (ow_attempts wall_done)) \<le> 1"
    by (simp add: wall_states(4)) (simp add: blk_offer_def blankOffer_def)
  moreover have "fst (postStart demo_env 1 ''5'' 30000 wall_done) = Inl DailyLimit" using wall_eval by blast
  ultimately show ?thesis ..
qed

text \<open>
  The excess is real: nothing makes attempts of a user, an offer and a day unique, and submitting does not
  look at the limit.  User 1 submits both attempts of an offer with a limit of one a day, and is paid twice.
\<close>

definition answers :: "(ow_error + submit_answer) \<times> ow_store \<Rightarrow> submit_answer option \<times> nat \<times> int list \<times> dec8 option" where
  "answers out = (case out of (r, s) \<Rightarrow> ((case r of Inl _ \<Rightarrow> None | Inr x \<Rightarrow> Some x),
     count_where (\<lambda>a. ofDay 1 5 ''1970-01-01'' a \<and> isDone a) (ow_attempts s), map oo_dailyLimitPerUser (ow_offers s), blkOf 1 (ow_db s)))"

lemma concurrent_starts_exceed_limit:
  "(case postSubmit demo_env ''x'' 1 ''10'' 21000 wall_twice of (r, s) \<Rightarrow>
      (r = Inr RewardGranted, answers (postSubmit demo_env ''y'' 1 ''11'' 22000 s)))
    = (True, Some RewardGranted, 2, [1], Some 1100000000)"
  by code_simp

text \<open>
  C28: served one after the other and with the offers' terms unchanged, the requests of the offerwall pay
  for every completed attempt exactly its offer's reward and nothing else: a user's BLK and POL balances
  and the number of temporary powers have grown by what the completed attempts are worth.
\<close>

lemma completed_attempts_are_paid:
  assumes "reaches (pay_init db0) (pay_step env) s"
  shows "blkOf v (ow_db s) = map_option (\<lambda>b. b + earned blkValue v s) (blkOf v db0)
    \<and> polOf v (ow_db s) = map_option (\<lambda>b. b + earned polValue v s) (polOf v db0)
    \<and> powersOf v (ow_db s) = powersOf v db0 + earned powerValue v s"
  using account.reaches_inv [OF assms] by (simp add: account_ok_def)

lemma completed_attempts_are_paid_witness:
  "blkOf 1 (ow_db wall_done) = map_option (\<lambda>b. b + earned blkValue 1 wall_done) (blkOf 1 wall_db)
   \<and> earned blkValue 1 wall_done = 300000000 \<and> earned blkValue 1 wall_started = 0"
proof -
  have "pay_init wall_db wall_demo" using wall_demo_init by (simp add: pay_init_def wall_demo_def)
  moreover have "ow_offers wall_demo = [blk_offer]" by (simp add: wall_demo_def)
  ultimately have "reaches (pay_init wall_db) (pay_step demo_env) wall_done"
    using wall_started_step wall_done_step wall_states(3,4) by (metis reaches.intros pay_step.Terms)
  from completed_attempts_are_paid [OF this, of 1] have
    "blkOf 1 (ow_db wall_done) = map_option (\<lambda>b. b + earned blkValue 1 wall_done) (blkOf 1 wall_db)" by simp
  moreover have "earned blkValue 1 wall_done = 300000000 \<and> earned blkValue 1 wall_started = 0" using wall_eval by blast
  ultimately show ?thesis ..
qed

subsection \<open>Overlapping requests\<close>

text \<open>
  The check that the attempt is still STARTED and the writes of a self-claim are statements of one
  transaction without a lock.  Of two submissions that both pass the check before either commits, both
  commit, and one attempt is paid twice.
\<close>

lemma double_submit_pays_twice:
  "\<exists>a s1 s2. submitPlan demo_env 1 10 21000 wall_started = Inr (a, blk_offer) \<and> claimFresh 1 10 wall_started
     \<and> claimCommit demo_env 1 a blk_offer 21000 ''x'' wall_started = (Inr (), s1) \<and> claimCommit demo_env 1 a blk_offer 21001 ''y'' s1 = (Inr (), s2)
     \<and> blkOf 1 (ow_db wall_started) = Some 500000000 \<and> blkOf 1 (ow_db s2) = Some 1100000000 \<and> length (ow_attempts s2) = 1"
proof -
  let ?a = "newAttempt 10 1 5 ''1970-01-01'' 1000"
  let ?o1 = "claimCommit demo_env 1 ?a blk_offer 21000 ''x'' wall_started"
  let ?o2 = "claimCommit demo_env 1 ?a blk_offer 21001 ''y'' (snd ?o1)"
  have "submitPlan demo_env 1 10 21000 wall_started = Inr (?a, blk_offer) \<and> claimFresh 1 10 wall_started
    \<and> fst ?o1 = Inr () \<and> fst ?o2 = Inr () \<and> blkOf 1 (ow_db (snd ?o2)) = Some 1100000000 \<and> length (ow_attempts (snd ?o2)) = 1" by code_simp
  moreover have "blkOf 1 (ow_db wall_started) = Some 500000000" using wall_eval by blast
  ultimately show ?thesis by (metis prod.collapse)
qed

text \<open>The same without a transaction: the write of a late submission for review reopens an attempt that was approved meanwhile.\<close>

lemma late_review_reopens_paid_attempt:
  "\<exists>s1 s2. reviewWrite 10 30000 ''z'' wall_done = (Inr (), s1) \<and> adminApproveAttempt demo_env 10 40000 s1 = (Inr (), s2)
     \<and> blkOf 1 (ow_db wall_done) = Some 800000000 \<and> blkOf 1 (ow_db s2) = Some 1100000000"
proof -
  let ?o1 = "reviewWrite 10 30000 ''z'' wall_done"
  let ?o2 = "adminApproveAttempt demo_env 10 40000 (snd ?o1)"
  have "fst ?o1 = Inr () \<and> fst ?o2 = Inr () \<and> blkOf 1 (ow_db (snd ?o2)) = Some 1100000000" by code_simp
  moreover have "blkOf 1 (ow_db wall_done) = Some 800000000" using wall_eval by blast
  ultimately show ?thesis by (metis prod.collapse)
qed

subsection \<open>Administration\<close>

text \<open>
  C29: an offer the administration accepts is within all its bounds, and its completion pays every existing
  user exactly when its reward did not round to zero in the database's 8 decimals; otherwise every
  completion is refused.
\<close>

lemma accepted_offer_payable:
  assumes "parseAdminOfferBody env b s = (Inr d, t)" and "getUser u db \<noteq> None"
  shows "1 \<le> od_dailyLimitPerUser d \<and> od_dailyLimitPerUser d \<le> 50 \<and> 0 \<le> od_minViewSeconds d \<and> od_minViewSeconds d \<le> 7200
    \<and> 0 \<le> od_sortOrder d \<and> od_sortOrder d \<le> 99999 \<and> 0 < length (od_title d) \<and> length (od_title d) \<le> 200
    \<and> ((\<exists>db'. grantInternalOfferwallRewardInTx u (applyData d k) now db = (Inr (), db')) \<longleftrightarrow>
        (case od_reward d of BlkReward a \<Rightarrow> 0 < a | PolReward a \<Rightarrow> 0 < a | HashReward h n \<Rightarrow> True))"
  using parse_Inr [OF assms(1)] grant_applyData [OF _ assms(2), of d k now] by (simp add: stored_positive_def)

definition demo_body :: "js_value \<Rightarrow> offer_body" where
  "demo_body amount = \<lparr>ob_kind = JsText ''ptc_iframe'', ob_title = JsText '' Visit '', ob_description = JsNull,
     ob_iframeUrl = JsText ''https://partner.example'', ob_minViewSeconds = JsNum 99999, ob_dailyLimitPerUser = JsText ''0'',
     ob_sortOrder = JsUndefined, ob_rewardKind = JsText ''pol'', ob_isActive = JsUndefined, ob_completionMode = JsText ''x'',
     ob_rewardBlkAmount = JsUndefined, ob_rewardPolAmount = amount, ob_rewardHashRate = JsUndefined, ob_rewardHashRateDays = JsUndefined,
     ob_taskMetadata = None\<rparr>"

text \<open>A reward of 0.000000001 POL is accepted, stored as zero, and nobody who completes the offer is paid.\<close>

lemma accepted_offer_payable_witness:
  "\<exists>d t. parseAdminOfferBody demo_env (demo_body (JsText ''0.000000001'')) wall_demo = (Inr d, t) \<and> od_reward d = PolReward 0
     \<and> od_dailyLimitPerUser d = 1 \<and> od_minViewSeconds d = 7200 \<and> map fh_hostname (ow_hosts t) = [''partner.example'']
     \<and> \<not> (\<exists>db'. grantInternalOfferwallRewardInTx 1 (applyData d (blankOffer 7)) 0 wall_db = (Inr (), db'))"
proof -
  let ?r = "parseAdminOfferBody demo_env (demo_body (JsText ''0.000000001'')) wall_demo"
  obtain d t where r: "?r = (Inr d, t)" "od_reward d = PolReward 0" "od_dailyLimitPerUser d = 1" "od_minViewSeconds d = 7200"
    "map fh_hostname (ow_hosts t) = [''partner.example'']"
  proof -
    have "case ?r of (Inr d, t) \<Rightarrow> od_reward d = PolReward 0 \<and> od_dailyLimitPerUser d = 1 \<and> od_minViewSeconds d = 7200
        \<and> map fh_hostname (ow_hosts t) = [''partner.example''] | _ \<Rightarrow> False" by code_simp
    then show thesis using that by (cases ?r) (auto split: sum.splits)
  qed
  have "getUser 1 wall_db \<noteq> None" by (simp add: getUser_def wall_db_def wall_user_def)
  from accepted_offer_payable [OF r(1) this, of "blankOffer 7" 0] r show ?thesis by auto
qed

text \<open>
  C30: a general task, whose iframe column is null, can not be changed any more: whatever fields a patch
  replaces, unless it replaces kind or URL, the stored null is read as the text "null", the patch is refused
  and the offer stays as it is; deactivating it from the list is such a patch.
\<close>

lemma general_task_never_patched:
  assumes "find_first (\<lambda>k. oo_id k = i) (ow_offers s) = Some k" and "oo_kind k = OFFER_KIND_GENERAL_TASK" and "oo_iframeUrl k = None"
    and "ob_kind (g (offerToPlain k)) = ob_kind (offerToPlain k)" and "ob_iframeUrl (g (offerToPlain k)) = ob_iframeUrl (offerToPlain k)"
  shows "\<exists>e t. patchOffer env i g s = (Inl e, t) \<and> ow_offers t = ow_offers s"
proof -
  obtain e u where "parseAdminOfferBody env (g (offerToPlain k)) s = (Inl e, u)"
    using parse_general_null [of "g (offerToPlain k)" env s] assms by (auto simp: offerToPlain_def jsOpt_def)
  then have "\<exists>e t. patchOffer env i g s = (Inl e, t)"
    using assms(1) by (auto simp: patchOffer_def and_then_def map_error_def throw_def)
  then obtain e t where p: "patchOffer env i g s = (Inl e, t)" by blast
  then have "ow_offers t = ow_offers s" by (cases rule: patchOffer_cases) (auto simp: admin_frame_def)
  with p show ?thesis by blast
qed

lemma general_task_never_patched_witness:
  "\<exists>e t. patchOffer demo_env 5 (\<lambda>b. b\<lparr>ob_isActive := JsBool False\<rparr>) wall_demo = (Inl e, t) \<and> ow_offers t = [blk_offer]"
proof -
  have "find_first (\<lambda>k. oo_id k = 5) (ow_offers wall_demo) = Some blk_offer"
    by (simp add: wall_demo_def) (simp add: blk_offer_def blankOffer_def)
  moreover have "oo_kind blk_offer = OFFER_KIND_GENERAL_TASK" "oo_iframeUrl blk_offer = None" by (simp_all add: blk_offer_def blankOffer_def)
  ultimately have "\<exists>e t. patchOffer demo_env 5 (\<lambda>b. b\<lparr>ob_isActive := JsBool False\<rparr>) wall_demo = (Inl e, t) \<and> ow_offers t = ow_offers wall_demo"
    by (rule general_task_never_patched) simp_all
  then show ?thesis by (simp add: wall_demo_def)
qed

text \<open>
  C31: the allowlist's string test is the right one: a host passes exactly when the labels between its dots
  end with the labels of an entry, so that a name which only ends in the same letters does not pass.
\<close>

lemma host_allowed_iff_labels:
  "hostMatchesIframeAllowlist host allowed \<longleftrightarrow> host \<noteq> '''' \<and>
     (\<exists>entry \<in> set allowed. entry \<noteq> '''' \<and> suffix (splitOn (CHR ''.'') (toLowerCase entry)) (splitOn (CHR ''.'') (toLowerCase host)))"
proof -
  have e: "toLowerCase x = '''' \<longleftrightarrow> x = ''''" for x by (simp add: toLowerCase_def)
  let ?S = "\<lambda>entry. suffix (splitOn (CHR ''.'') (toLowerCase entry)) (splitOn (CHR ''.'') (toLowerCase host))"
  have "\<exists>entry \<in> set allowed. entry \<noteq> '''' \<and> ?S entry" if "toLowerCase host \<in> set allowed" "host \<noteq> ''''"
    using that e by (intro bexI [of _ "toLowerCase host"]) auto
  then show ?thesis
    unfolding hostMatchesIframeAllowlist_def Let_def list_ex_iff host_suffix e by blast
qed

text \<open>The names of the documentation, and one that only looks like an entry.\<close>

lemma host_allowed_examples:
  "hostMatchesIframeAllowlist ''a.B.example.com'' [''example.com''] \<and> \<not> hostMatchesIframeAllowlist ''evil-example.com'' [''example.com'']"
  by code_simp

end
