(* ===== verification/CronRunner.thy ===== *)
theory CronRunner
  imports Prelude
begin

section \<open>The runner of scheduled actions\<close>

text \<open>
  \<open>server/cron/cronActionRunner.js\<close>: an action runs through five stages, each of which may throw
  (\<open>None\<close>), under a lock by name.  A stage is a function of the state the actions share.  An action that
  overlaps another is a call with the other's key still in the set.
\<close>

type_synonym ('a, 's) stage = "'s \<Rightarrow> 'a option \<times> 's"

datatype 'r cron_outcome = AlreadyRunning | FailedStage string | NotValidated string | NotConfirmed string | CronOk 'r

text \<open>\<open>None\<close> is a check that passed, \<open>Some reason\<close> one that did not.\<close>

definition orReason :: "string option \<Rightarrow> string \<Rightarrow> string" where
  "orReason r fallback = (case r of None \<Rightarrow> fallback | Some x \<Rightarrow> if x = '''' then fallback else x)"

definition runStages ::
  "('p, 's) stage \<Rightarrow> ('p \<Rightarrow> (string option, 's) stage) \<Rightarrow> ('p \<Rightarrow> ('q, 's) stage) \<Rightarrow> ('q \<Rightarrow> ('r, 's) stage)
     \<Rightarrow> ('r \<Rightarrow> (string option, 's) stage) \<Rightarrow> 's \<Rightarrow> 'r cron_outcome \<times> 's" where
  "runStages prepare validate sanitize execute confirm s =
     (case prepare s of (None, s1) \<Rightarrow> (FailedStage ''prepare'', s1) | (Some p, s1) \<Rightarrow>
      case validate p s1 of (None, s2) \<Rightarrow> (FailedStage ''validate'', s2)
      | (Some (Some reason), s2) \<Rightarrow> (NotValidated (orReason (Some reason) ''validation_failed''), s2)
      | (Some None, s2) \<Rightarrow>
      case sanitize p s2 of (None, s3) \<Rightarrow> (FailedStage ''sanitize'', s3) | (Some q, s3) \<Rightarrow>
      case execute q s3 of (None, s4) \<Rightarrow> (FailedStage ''execute'', s4) | (Some r, s4) \<Rightarrow>
      case confirm r s4 of (None, s5) \<Rightarrow> (FailedStage ''confirm'', s5)
      | (Some (Some reason), s5) \<Rightarrow> (NotConfirmed (orReason (Some reason) ''not_confirmed''), s5)
      | (Some None, s5) \<Rightarrow> (CronOk r, s5))"

definition runAction ::
  "string \<Rightarrow> bool \<Rightarrow> ('s \<Rightarrow> 'r cron_outcome \<times> 's) \<Rightarrow> string list \<times> 's \<Rightarrow> 'r cron_outcome \<times> string list \<times> 's" where
  "runAction lockKey allowConcurrent stages x =
     (let (inFlight, s) = x
      in if \<not> allowConcurrent \<and> lockKey \<in> set inFlight then (AlreadyRunning, inFlight, s)
         else let (r, t) = stages s in (r, removeAll lockKey inFlight, t))"

text \<open>The lock is released whatever stage fails, and a running action is not run again.\<close>

lemma runAction_lock:
  "runAction k False st (fl, s) = (r, gl, t) \<Longrightarrow> if k \<in> set fl then r = AlreadyRunning \<and> gl = fl \<and> t = s else k \<notin> set gl \<and> (r, t) = st s"
  by (auto simp: runAction_def split: prod.splits if_splits)

end
