(* ===== verification/Deposits.thy ===== *)
theory Deposits
  imports WalletFlow CronRunner
begin

section \<open>Deposits found by the server, and tickets\<close>

text \<open>
  \<open>server/services/contractDepositSync.js\<close> (the events of the deposit contract), \<open>server/cron/depositsCron.js\<close>
  (transfers to the monitored wallets) and \<open>server/controllers/depositTicketController.js\<close> (a user's claim
  that a deposit is missing, and its review).  The chain and the block explorer are arguments.
\<close>

record ticket_analysis =
  ta_error :: bool
  ta_found :: bool
  ta_from :: "string option"
  ta_to :: "string option"
  ta_valueEther :: "number option"
  ta_blockNumber :: "int option"
  ta_isSuccess :: "bool option"
  ta_toIsOurWallet :: bool
  ta_fromMatchesTicket :: bool
  ta_alreadyCredited :: bool
  ta_recent :: "(string \<times> number \<times> int) list"

record deposit_ticket =
  tk_id :: int
  tk_userId :: int
  tk_walletAddress :: string
  tk_txHash :: "string option"
  tk_amountClaimed :: "dec8 option"
  tk_description :: "string option"
  tk_status :: string
  tk_onchain :: "ticket_analysis option"
  tk_adminAction :: "string option"
  tk_adminNote :: "string option"
  tk_creditedAmount :: "dec8 option"
  tk_createdAt :: millis
  tk_resolvedAt :: "millis option"

text \<open>
  The wallet's tables, the tickets, and what the two scanners keep in memory: the last block read, the
  last activation (in milliseconds) and the actions in flight.
\<close>

record deposit_store =
  dx_wallet :: wallet_store
  dx_tickets :: "deposit_ticket list"
  dx_next :: int
  dx_lastScannedBlock :: "int option"
  dx_lastActivation :: millis
  dx_inFlight :: "string list"

datatype ticket_error = BadWalletAddress | TooManyTickets | DuplicateTicket | TicketNotFound | TicketResolved | BadAmount | TicketServerError

subsection \<open>Opening a ticket\<close>

definition MAX_TICKETS_OPEN :: int where "MAX_TICKETS_OPEN = 3"

definition isOpenTicket :: "int \<Rightarrow> deposit_ticket \<Rightarrow> bool" where
  "isOpenTicket userId t \<longleftrightarrow> tk_userId t = userId \<and> tk_status t \<in> {''open'', ''analyzing''}"

text \<open>The amount: none, a text that is no decimal (\<open>Some None\<close>), or a number.\<close>

definition createTicket ::
  "(number \<Rightarrow> dec8) \<Rightarrow> int \<Rightarrow> string option \<Rightarrow> string option \<Rightarrow> number option option \<Rightarrow> string option \<Rightarrow> millis
     \<Rightarrow> (ticket_error, deposit_ticket, deposit_store) program" where
  "createTicket dec8_of userId walletAddress txHash amountClaimed description now s =
     (case walletAddress of None \<Rightarrow> throw BadWalletAddress s | Some w \<Rightarrow>
      let h = (case txHash of None \<Rightarrow> None | Some x \<Rightarrow> if x = '''' then None else Some (trim x))
      in if \<not> isHexString 40 w then throw BadWalletAddress s
         else if MAX_TICKETS_OPEN \<le> int (count_where (isOpenTicket userId) (dx_tickets s)) then throw TooManyTickets s
         else if h \<noteq> None \<and> find_first (\<lambda>t. tk_txHash t = h \<and> tk_userId t = userId) (dx_tickets s) \<noteq> None then throw DuplicateTicket s
         else if amountClaimed = Some None \<or> getUser userId (dx_wallet s) = None then throw TicketServerError s
         else let t = \<lparr>tk_id = dx_next s, tk_userId = userId, tk_walletAddress = toLowerCase (trim w), tk_txHash = h,
                   tk_amountClaimed = (case amountClaimed of Some (Some x) \<Rightarrow> if x = 0 then None else Some (dec8_of x) | _ \<Rightarrow> None),
                   tk_description = (case description of None \<Rightarrow> None | Some d \<Rightarrow> if d = '''' then None else Some (take 1000 d)),
                   tk_status = ''open'', tk_onchain = None, tk_adminAction = None, tk_adminNote = None, tk_creditedAmount = None,
                   tk_createdAt = now, tk_resolvedAt = None\<rparr>
              in ret t (s\<lparr>dx_tickets := dx_tickets s @ [t], dx_next := dx_next s + 1\<rparr>))"

definition newestTickets :: "(deposit_ticket \<Rightarrow> bool) \<Rightarrow> deposit_store \<Rightarrow> deposit_ticket list" where
  "newestTickets P s = rev (sort_key tk_createdAt (filter P (dx_tickets s)))"

definition listMyTickets :: "int \<Rightarrow> deposit_store \<Rightarrow> deposit_ticket list" where
  "listMyTickets userId s = take 50 (newestTickets (\<lambda>t. tk_userId t = userId) s)"

text \<open>\<open>None\<close>: a page that is no number; a negative offset is refused by the database.\<close>

definition adminListTickets :: "string \<Rightarrow> int option \<Rightarrow> deposit_store \<Rightarrow> ticket_error + (deposit_ticket list \<times> nat)" where
  "adminListTickets status page s =
     (case page of None \<Rightarrow> Inl TicketServerError | Some n \<Rightarrow>
        if n < 1 then Inl TicketServerError
        else let P = (\<lambda>t. status = '''' \<or> status = ''all'' \<or> tk_status t = status)
             in Inr (take 30 (drop (nat ((n - 1) * 30)) (newestTickets P s)), count_where P (dx_tickets s)))"

subsection \<open>Analysing a ticket\<close>

text \<open>The explorer: a transaction, whether its receipt reports success, and the transfers of an address.\<close>

record explorer_tx =
  et_from :: "string option"
  et_to :: "string option"
  et_value :: "int option"
  et_block :: "int option"

record explorer_row =
  er_hash :: string
  er_from :: string
  er_to :: "string option"
  er_value :: int
  er_timeStamp :: int
  er_isError :: string

record explorer =
  ex_apiKey :: bool
  ex_tx :: "string \<Rightarrow> explorer_tx rpc"
  ex_receipt :: "string \<Rightarrow> bool rpc"
  ex_list :: "string \<Rightarrow> explorer_row list rpc"

definition emptyAnalysis :: ticket_analysis where
  "emptyAnalysis = \<lparr>ta_error = False, ta_found = False, ta_from = None, ta_to = None, ta_valueEther = None, ta_blockNumber = None,
     ta_isSuccess = None, ta_toIsOurWallet = False, ta_fromMatchesTicket = False, ta_alreadyCredited = False, ta_recent = []\<rparr>"

text \<open>The parts of the analysis: the given transaction, whether its hash was credited, the wallet's transfers.\<close>

definition weiToEther :: "int \<Rightarrow> number" where
  "weiToEther v = fl (fl (of_int v) / 10 ^ 18)"

definition analyzeHash :: "string \<Rightarrow> explorer_tx rpc \<Rightarrow> bool rpc \<Rightarrow> deposit_ticket \<Rightarrow> ticket_analysis \<Rightarrow> ticket_analysis" where
  "analyzeHash depositWallet txAnswer receiptAnswer ticket a =
     (case txAnswer of RpcFound x \<Rightarrow>
        a\<lparr>ta_found := True, ta_from := map_option toLowerCase (et_from x), ta_to := map_option toLowerCase (et_to x),
          ta_valueEther := Some (case et_value x of None \<Rightarrow> 0 | Some v \<Rightarrow> weiToEther v), ta_blockNumber := et_block x,
          ta_toIsOurWallet := (depositWallet \<noteq> '''' \<and> map_option toLowerCase (et_to x) = Some depositWallet),
          ta_fromMatchesTicket := (map_option toLowerCase (et_from x) = Some (toLowerCase (tk_walletAddress ticket))),
          ta_isSuccess := (case receiptAnswer of RpcFound ok \<Rightarrow> Some ok | _ \<Rightarrow> None)\<rparr>
      | _ \<Rightarrow> a)"

definition creditedHash :: "string \<Rightarrow> wallet_store \<Rightarrow> bool" where
  "creditedHash h s \<longleftrightarrow> find_first (\<lambda>t. depositWith h t \<and> wt_status t = ''completed'') (wl_txs s) \<noteq> None"

definition transfersToUs :: "string \<Rightarrow> millis \<Rightarrow> explorer_row list \<Rightarrow> (string \<times> number \<times> int) list" where
  "transfersToUs depositWallet now rows =
     map (\<lambda>r. (er_hash r, weiToEther (er_value r), er_timeStamp r))
       (take 20 (filter (\<lambda>r. map_option toLowerCase (er_to r) = Some depositWallet \<and> er_isError r = ''0''
          \<and> (of_int now / 1000 :: rat) - 31536000 \<le> of_int (er_timeStamp r)) rows))"

definition analyzeOnChain :: "string \<Rightarrow> explorer \<Rightarrow> millis \<Rightarrow> deposit_ticket \<Rightarrow> wallet_store \<Rightarrow> ticket_analysis" where
  "analyzeOnChain depositWallet ex now ticket s =
     (if \<not> ex_apiKey ex then emptyAnalysis\<lparr>ta_error := True\<rparr>
      else let h = (case tk_txHash ticket of None \<Rightarrow> '''' | Some x \<Rightarrow> x)
      in if h \<noteq> '''' \<and> (ex_tx ex h = RpcError \<or> ex_receipt ex h = RpcError) then emptyAnalysis\<lparr>ta_error := True\<rparr>
         else let a = (if h = '''' then emptyAnalysis
                       else (analyzeHash depositWallet (ex_tx ex h) (ex_receipt ex h) ticket emptyAnalysis)\<lparr>ta_alreadyCredited := creditedHash h s\<rparr>)
              in if tk_walletAddress ticket = '''' \<or> depositWallet = '''' then a
                 else case ex_list ex (tk_walletAddress ticket) of RpcError \<Rightarrow> a\<lparr>ta_error := True\<rparr> | RpcNone \<Rightarrow> a
                   | RpcFound rows \<Rightarrow> a\<lparr>ta_recent := transfersToUs depositWallet now rows\<rparr>)"

definition findTicket :: "int \<Rightarrow> deposit_store \<Rightarrow> deposit_ticket option" where
  "findTicket i s = find_first (\<lambda>t. tk_id t = i) (dx_tickets s)"

definition updTicket :: "int \<Rightarrow> (deposit_ticket \<Rightarrow> deposit_ticket) \<Rightarrow> deposit_store \<Rightarrow> deposit_store" where
  "updTicket i f s = s\<lparr>dx_tickets := update_where (\<lambda>t. tk_id t = i) f (dx_tickets s)\<rparr>"

text \<open>The handler answers the row as it read it, with the analysis.\<close>

definition adminGetTicket ::
  "string \<Rightarrow> explorer \<Rightarrow> int \<Rightarrow> millis \<Rightarrow> (ticket_error, deposit_ticket \<times> ticket_analysis option, deposit_store) program" where
  "adminGetTicket depositWallet ex i now s =
     (case findTicket i s of None \<Rightarrow> throw TicketNotFound s
      | Some t \<Rightarrow>
          if tk_status t = ''open'' \<or> tk_status t = ''analyzing'' then
            (let a = analyzeOnChain depositWallet ex now t (dx_wallet s)
             in ret (t, Some a) (updTicket i (\<lambda>r. r\<lparr>tk_status := ''analyzing'', tk_onchain := Some a\<rparr>) s))
          else ret (t, tk_onchain t) s)"

subsection \<open>Resolving a ticket\<close>

text \<open>
  The handlers read the ticket before their transaction, which updates it by id: a plan and the writes.
  \<open>amount\<close> is \<open>Number(amount)\<close>, \<open>None\<close> for what is missing or no number.
\<close>

definition approveTicketPlan :: "int \<Rightarrow> number option \<Rightarrow> deposit_store \<Rightarrow> ticket_error + (deposit_ticket \<times> number)" where
  "approveTicketPlan i amount s =
     (case amount of None \<Rightarrow> Inl BadAmount | Some x \<Rightarrow>
        if x \<le> 0 then Inl BadAmount
        else case findTicket i s of None \<Rightarrow> Inl TicketNotFound
        | Some t \<Rightarrow> if tk_status t = ''approved'' \<or> tk_status t = ''credited'' then Inl TicketResolved else Inr (t, x))"

definition ticketDeposit :: "(number \<Rightarrow> dec8) \<Rightarrow> deposit_ticket \<Rightarrow> number \<Rightarrow> millis \<Rightarrow> wallet_store \<Rightarrow> wallet_tx" where
  "ticketDeposit dec8_of t x now w =
     (newTx (st_next w) (tk_userId t) ''deposit'' (dec8_of x) ''completed'' now)
       \<lparr>wt_txHash := (if tk_txHash t = Some '''' then None else tk_txHash t), wt_completedAt := Some now\<rparr>"

definition noteOr :: "string option \<Rightarrow> string option" where
  "noteOr note = (if note = Some '''' then None else note)"

definition approveTicketWrites ::
  "(number \<Rightarrow> dec8) \<Rightarrow> deposit_ticket \<Rightarrow> number \<Rightarrow> string option \<Rightarrow> millis \<Rightarrow> (ticket_error, unit, deposit_store) program" where
  "approveTicketWrites dec8_of t x note now s =
     (let w = dx_wallet s
      in if getUser (tk_userId t) w = None \<or> findTicket (tk_id t) s = None then throw TicketServerError s
         else ret () (updTicket (tk_id t) (\<lambda>r. r\<lparr>tk_status := ''credited'', tk_adminAction := Some ''credit_applied'', tk_adminNote := noteOr note,
                    tk_creditedAmount := Some (dec8_of x), tk_resolvedAt := Some now\<rparr>)
                (s\<lparr>dx_wallet := notifyWallet (tk_userId t) ''Deposito Creditado''
                    (addTx (ticketDeposit dec8_of t x now w) (addPol (tk_userId t) (dec8_of x) w))\<rparr>)))"

definition approveTicketCommit ::
  "(number \<Rightarrow> dec8) \<Rightarrow> deposit_ticket \<Rightarrow> number \<Rightarrow> string option \<Rightarrow> millis \<Rightarrow> (ticket_error, unit, deposit_store) program" where
  "approveTicketCommit dec8_of t x note now =
     and_then (transaction (approveTicketWrites dec8_of t x note now))
       (\<lambda>_. modify (\<lambda>s. s\<lparr>dx_wallet := logCall (ReloadProfile (tk_userId t)) (logCall (BalanceDelta (tk_userId t) x) (dx_wallet s))\<rparr>))"

definition adminApproveTicket ::
  "(number \<Rightarrow> dec8) \<Rightarrow> int \<Rightarrow> number option \<Rightarrow> string option \<Rightarrow> millis \<Rightarrow> (ticket_error, unit, deposit_store) program" where
  "adminApproveTicket dec8_of i amount note now s =
     (case approveTicketPlan i amount s of Inl e \<Rightarrow> throw e s | Inr (t, x) \<Rightarrow> approveTicketCommit dec8_of t x note now s)"

definition rejectTicketPlan :: "int \<Rightarrow> deposit_store \<Rightarrow> ticket_error + deposit_ticket" where
  "rejectTicketPlan i s =
     (case findTicket i s of None \<Rightarrow> Inl TicketNotFound
      | Some t \<Rightarrow> if tk_status t \<in> {''approved'', ''credited'', ''rejected''} then Inl TicketResolved else Inr t)"

definition rejectTicketWrites :: "deposit_ticket \<Rightarrow> string option \<Rightarrow> millis \<Rightarrow> (ticket_error, unit, deposit_store) program" where
  "rejectTicketWrites t note now s =
     (if findTicket (tk_id t) s = None then throw TicketServerError s
      else ret () (updTicket (tk_id t) (\<lambda>r. r\<lparr>tk_status := ''rejected'', tk_adminAction := Some ''none'', tk_adminNote := noteOr note,
              tk_resolvedAt := Some now\<rparr>)
            (s\<lparr>dx_wallet := (dx_wallet s)\<lparr>wl_notifications := wl_notifications (dx_wallet s)
                @ [\<lparr>nt_userId = tk_userId t, nt_title = ''Ticket de Deposito Rejeitado'', nt_type = ''warning''\<rparr>]\<rparr>\<rparr>)))"

definition adminRejectTicket :: "int \<Rightarrow> string option \<Rightarrow> millis \<Rightarrow> (ticket_error, unit, deposit_store) program" where
  "adminRejectTicket i note now s =
     (case rejectTicketPlan i s of Inl e \<Rightarrow> throw e s | Inr t \<Rightarrow> transaction (rejectTicketWrites t note now) s)"

end
