(* ===== verification/DepositScan.thy ===== *)
theory DepositScan
  imports Deposits JsParse
begin

section \<open>The deposit scanners\<close>

text \<open>
  The polling of the deposit contract's events and the scan of the monitored wallets.  The verifier that
  both wake runs as a request of its own.
\<close>

subsection \<open>Events of the deposit contract\<close>

text \<open>A log: its transaction, and the beneficiary when it parses as \<open>DepositReceived\<close>.\<close>

record contract_log =
  cl_transactionHash :: "string option"
  cl_beneficiary :: "string option"

record deposit_node =
  dn_head :: "int option"
  dn_logs :: "int \<Rightarrow> int \<Rightarrow> contract_log list option"

definition DEFAULT_LOOKBACK :: int where "DEFAULT_LOOKBACK = 5000"

definition getContractAddress :: "string \<Rightarrow> string" where
  "getContractAddress env = (let a = trim env in if isHexString 40 a then a else '''')"

text \<open>The first block to ask for; \<open>envFrom\<close> when it is a row of digits.\<close>

definition scanFrom :: "string \<Rightarrow> int option \<Rightarrow> int \<Rightarrow> int" where
  "scanFrom envFrom lastScanned latest =
     (case lastScanned of Some b \<Rightarrow> b + 1
      | None \<Rightarrow> (let e = trim envFrom in if e \<noteq> '''' \<and> list_all isDigit e then parseDigits e
                 else if DEFAULT_LOOKBACK < latest then latest - DEFAULT_LOOKBACK + 1 else 0))"

definition userOfWallet :: "string \<Rightarrow> 'a store_scheme \<Rightarrow> user option" where
  "userOfWallet address s = find_first (\<lambda>u. map_option toLowerCase (usr_walletAddress u) = Some (toLowerCase address)) (st_users s)"

definition pendingDepositRow :: "int \<Rightarrow> string \<Rightarrow> millis \<Rightarrow> wallet_store \<Rightarrow> wallet_tx" where
  "pendingDepositRow userId h now w = (newTx (st_next w) userId ''deposit'' 0 ''pending_verification'' now)\<lparr>wt_txHash := Some h\<rparr>"

text \<open>The hash a log stands for, if any, and the user it belongs to.\<close>

definition logHash :: "contract_log \<Rightarrow> string option" where
  "logHash l = (case cl_beneficiary l of None \<Rightarrow> None | Some _ \<Rightarrow>
     (case cl_transactionHash l of None \<Rightarrow> None | Some h \<Rightarrow> if h = '''' then None else Some (toLowerCase h)))"

definition logUser :: "contract_log \<Rightarrow> 'a store_scheme \<Rightarrow> user option" where
  "logUser l s = (case cl_beneficiary l of None \<Rightarrow> None | Some b \<Rightarrow> userOfWallet b s)"

text \<open>\<open>refused h\<close>: the insert of that hash fails; the code logs and goes on.\<close>

definition registerLog :: "(string \<Rightarrow> bool) \<Rightarrow> millis \<Rightarrow> contract_log \<Rightarrow> deposit_store \<Rightarrow> deposit_store" where
  "registerLog refused now l s =
     (case (logHash l, logUser l (dx_wallet s)) of
        (Some h, Some u) \<Rightarrow>
          if find_first (depositWith h) (wl_txs (dx_wallet s)) \<noteq> None \<or> refused h then s
          else s\<lparr>dx_wallet := addTx (pendingDepositRow (usr_id u) h now (dx_wallet s)) (dx_wallet s), dx_lastActivation := now\<rparr>
      | _ \<Rightarrow> s)"

text \<open>\<open>None\<close>: the node failed and the call throws, with nothing changed.\<close>

definition runContractDepositSyncOnce ::
  "string \<Rightarrow> string \<Rightarrow> deposit_node \<Rightarrow> (string \<Rightarrow> bool) \<Rightarrow> millis \<Rightarrow> deposit_store \<Rightarrow> deposit_store option" where
  "runContractDepositSyncOnce contract envFrom node refused now s =
     (if getContractAddress contract = '''' then Some s
      else case dn_head node of None \<Rightarrow> None | Some latest \<Rightarrow>
        (let fromBlock = scanFrom envFrom (dx_lastScannedBlock s) latest
         in if latest < fromBlock then Some (s\<lparr>dx_lastScannedBlock := Some latest\<rparr>)
            else case dn_logs node fromBlock latest of None \<Rightarrow> None
            | Some logs \<Rightarrow> Some ((fold (registerLog refused now) logs s)\<lparr>dx_lastScannedBlock := Some latest\<rparr>)))"

subsection \<open>Transfers to the monitored wallets\<close>

definition SCAN_WINDOW_MS :: millis where "SCAN_WINDOW_MS = 1800000"

definition wakeUpScanner :: "millis \<Rightarrow> deposit_store \<Rightarrow> deposit_store" where
  "wakeUpScanner now s = s\<lparr>dx_lastActivation := now\<rparr>"

text \<open>\<open>hot\<close> is the address of the wallet that sends withdrawals, when it is configured.\<close>

definition getAllowedWallets :: "string option \<Rightarrow> string option \<Rightarrow> string list" where
  "getAllowedWallets checkinReceiver hot =
     (let ws = (case checkinReceiver of None \<Rightarrow> [] | Some c \<Rightarrow> if c = '''' then [] else [toLowerCase c])
      in case hot of None \<Rightarrow> ws | Some h \<Rightarrow> if h = '''' \<or> h \<in> set ws then ws else ws @ [h])"

record scan_env =
  sv_dec8_of :: "number \<Rightarrow> dec8"
  sv_config :: wallet_config
  sv_chain :: chain
  sv_apiKey :: bool
  sv_wallets :: "string list"
  sv_txlist :: "string \<Rightarrow> explorer_row list option"

definition fetchTxs :: "scan_env \<Rightarrow> string \<Rightarrow> explorer_row list" where
  "fetchTxs env address = (if \<not> sv_apiKey env then [] else case sv_txlist env address of None \<Rightarrow> [] | Some rows \<Rightarrow> rows)"

text \<open>One transfer of the list: whether a deposit was created.\<close>

definition scanTransfer :: "scan_env \<Rightarrow> string \<Rightarrow> millis \<Rightarrow> explorer_row \<Rightarrow> wallet_store \<Rightarrow> bool \<times> wallet_store" where
  "scanTransfer env wallet now r s =
     (let amount = etherOf (er_value r)
      in if map_option toLowerCase (er_to r) \<noteq> Some wallet \<or> er_isError r = ''1'' \<or> amount \<le> 0 then (False, s)
         else if find_first (depositWith (er_hash r)) (wl_txs s) \<noteq> None then (False, s)
         else case userOfWallet (er_from r) s of None \<Rightarrow> (False, s)
         | Some u \<Rightarrow> (case createDepositRequest (sv_dec8_of env) (sv_config env) (sv_chain env) (usr_id u) (Some amount) (er_hash r) now s of
               (Inl e, t) \<Rightarrow> (False, t) | (Inr row, t) \<Rightarrow> (True, t)))"

fun scanTransfers :: "scan_env \<Rightarrow> string \<Rightarrow> millis \<Rightarrow> explorer_row list \<Rightarrow> nat \<times> wallet_store \<Rightarrow> nat \<times> wallet_store" where
  "scanTransfers env wallet now [] x = x"
| "scanTransfers env wallet now (r # rs) (n, s) =
     (if er_timeStamp r < now div 1000 - 12 * 3600 then (n, s)
      else case scanTransfer env wallet now r s of (found, t) \<Rightarrow> scanTransfers env wallet now rs (if found then n + 1 else n, t))"

definition scanWallets :: "scan_env \<Rightarrow> millis \<Rightarrow> wallet_store \<Rightarrow> nat \<times> wallet_store" where
  "scanWallets env now s = fold (\<lambda>w x. scanTransfers env w now (fetchTxs env w) x) (sv_wallets env) (0, s)"

datatype scan_outcome = ScanIdle | ScanRan "nat cron_outcome"

definition scanStages :: "scan_env \<Rightarrow> millis \<Rightarrow> wallet_store \<Rightarrow> nat cron_outcome \<times> wallet_store" where
  "scanStages env now = runStages
     (\<lambda>s. (if sv_wallets env = [] then None else Some (), s))
     (\<lambda>_ s. (Some (if sv_apiKey env then None else Some ''missing_api_key''), s))
     (\<lambda>p s. (Some p, s))
     (\<lambda>_ s. case scanWallets env now s of (n, t) \<Rightarrow> (Some n, t))
     (\<lambda>_ s. (Some None, s))"

definition scanForNewDeposits :: "scan_env \<Rightarrow> bool \<Rightarrow> millis \<Rightarrow> deposit_store \<Rightarrow> scan_outcome \<times> deposit_store" where
  "scanForNewDeposits env force now s =
     (if \<not> force \<and> SCAN_WINDOW_MS < now - dx_lastActivation s then (ScanIdle, s)
      else case runAction ''DepositsCron:scan_api_deposits'' False (scanStages env now) (dx_inFlight s, dx_wallet s) of
        (r, locks, w) \<Rightarrow> (ScanRan r, s\<lparr>dx_inFlight := locks, dx_wallet := w\<rparr>))"

end
