(* ===== verification/DepositProofs.thy ===== *)
theory DepositProofs
  imports DepositScan WalletSteps
begin

section \<open>Scanners and tickets as steps of the accounts\<close>

subsection \<open>Runs of account steps\<close>

definition serves :: "wallet_store \<Rightarrow> wallet_store \<Rightarrow> bool" where
  "serves s t \<longleftrightarrow> acct_step\<^sup>*\<^sup>* (accounts s) (accounts t) \<and> wallet_ok t"

lemma serves_one: "served s t \<Longrightarrow> serves s t"
  by (auto simp: served_def serves_def)

lemma serves_refl: "wallet_ok s \<Longrightarrow> serves s s"
  by (simp add: serves_def)

lemma serves_trans: "serves s t \<Longrightarrow> serves t r \<Longrightarrow> serves s r"
  by (auto simp: serves_def)

lemma serves_ok: "serves s t \<Longrightarrow> wallet_ok t"
  by (simp add: serves_def)

text \<open>A row that waits for verification counts for nothing.\<close>

lemma pending_served:
  assumes "wallet_ok s"
  shows "served s (addTx (pendingDepositRow u h now s) s)"
proof -
  have "wallet_ok (addTx (pendingDepositRow u h now s) s)" by (intro ok_add [OF assms]) (simp_all add: newTx_def pendingDepositRow_def)
  moreover have "accounts (addTx (pendingDepositRow u h now s) s) = accounts s"
    by (rule ext) (simp add: accounts_add newTx_def pendingDepositRow_def isOpen_def isPaid_def isIncome_def)
  ultimately show ?thesis by (rule served_idle)
qed

subsection \<open>The contract's events\<close>

lemma registerLog_serves: "wallet_ok (dx_wallet s) \<Longrightarrow> serves (dx_wallet s) (dx_wallet (registerLog refused now l s))"
  by (auto simp: registerLog_def intro: serves_refl serves_one pending_served split: option.splits)

lemma registerLogs_serves: "wallet_ok (dx_wallet s) \<Longrightarrow> serves (dx_wallet s) (dx_wallet (fold (registerLog refused now) ls s))"
proof (induction ls arbitrary: s)
  case (Cons l ls)
  from registerLog_serves [OF Cons.prems] have a: "serves (dx_wallet s) (dx_wallet (registerLog refused now l s))" .
  from serves_trans [OF a Cons.IH [OF serves_ok [OF a]]] show ?case by simp
qed (simp add: serves_refl)

lemma sync_serves: "wallet_ok (dx_wallet s) \<Longrightarrow> runContractDepositSyncOnce c e node refused now s = Some t \<Longrightarrow> serves (dx_wallet s) (dx_wallet t)"
  by (auto simp: runContractDepositSyncOnce_def Let_def intro: serves_refl registerLogs_serves split: if_splits option.splits)

text \<open>Users are left alone, and a hash that has a row keeps it.\<close>

lemma registerLog_users: "st_users (dx_wallet (registerLog refused now l s)) = st_users (dx_wallet s)"
  by (simp add: registerLog_def addTx_def split: option.split)

lemma registerLog_user: "logUser k (dx_wallet (registerLog refused now l s)) = logUser k (dx_wallet s)"
  unfolding logUser_def userOfWallet_def registerLog_users ..

definition rowsOf :: "string \<Rightarrow> deposit_store \<Rightarrow> nat" where
  "rowsOf h s = count_where (depositWith h) (wl_txs (dx_wallet s))"

lemma registerLog_rows:
  "rowsOf h (registerLog refused now l s) =
     (if rowsOf h s = 0 \<and> logHash l = Some h \<and> logUser l (dx_wallet s) \<noteq> None \<and> \<not> refused h then 1 else rowsOf h s)"
proof -
  have z: "find_first (depositWith k) (wl_txs (dx_wallet s)) = None \<longleftrightarrow> rowsOf k s = 0" for k
    by (simp add: rowsOf_def count_where_0_iff find_first_None_iff)
  have n: "depositWith h (pendingDepositRow u k now (dx_wallet s)) \<longleftrightarrow> k = h" for u k
    by (simp add: depositWith_def pendingDepositRow_def newTx_def)
  show ?thesis
    using z by (auto simp: registerLog_def rowsOf_def n addTx_def split: option.split)
qed

lemma registerLogs_rows:
  "rowsOf h (fold (registerLog refused now) ls s) =
     (if rowsOf h s = 0 \<and> (\<exists>l \<in> set ls. logHash l = Some h \<and> logUser l (dx_wallet s) \<noteq> None) \<and> \<not> refused h then 1 else rowsOf h s)"
proof (induction ls arbitrary: s)
  case (Cons l ls)
  show ?case by (simp add: Cons.IH registerLog_rows registerLog_user)
qed simp

subsection \<open>The blocks asked for\<close>

type_synonym sync_call = "deposit_node \<times> (string \<Rightarrow> bool) \<times> millis"

definition askedRange :: "string \<Rightarrow> string \<Rightarrow> deposit_node \<Rightarrow> deposit_store \<Rightarrow> (int \<times> int) option" where
  "askedRange c e node s =
     (if getContractAddress c = '''' then None
      else case dn_head node of None \<Rightarrow> None | Some latest \<Rightarrow>
        (let f = scanFrom e (dx_lastScannedBlock s) latest in if latest < f \<or> dn_logs node f latest = None then None else Some (f, latest)))"

text \<open>A sequence of polls; one that throws leaves everything for the next.\<close>

fun syncRun :: "string \<Rightarrow> string \<Rightarrow> sync_call list \<Rightarrow> deposit_store \<Rightarrow> deposit_store \<times> (int \<times> int) list" where
  "syncRun c e [] s = (s, [])"
| "syncRun c e ((node, refused, now) # calls) s =
     (let t = (case runContractDepositSyncOnce c e node refused now s of None \<Rightarrow> s | Some t \<Rightarrow> t); (u, rs) = syncRun c e calls t
      in (u, case askedRange c e node s of None \<Rightarrow> rs | Some r \<Rightarrow> r # rs))"

definition covered :: "(int \<times> int) list \<Rightarrow> int \<Rightarrow> bool" where
  "covered rs b \<longleftrightarrow> (\<exists>(x, y) \<in> set rs. x \<le> b \<and> b \<le> y)"

lemma registerLogs_last: "dx_lastScannedBlock (fold (registerLog refused now) ls s) = dx_lastScannedBlock s"
proof -
  have "dx_lastScannedBlock (registerLog refused now l s) = dx_lastScannedBlock s" for l s by (simp add: registerLog_def split: option.split)
  then show ?thesis by (induction ls arbitrary: s) simp_all
qed

lemma sync_cases:
  obtains (idle) "askedRange c e node s = None" "runContractDepositSyncOnce c e node refused now s \<in> {None, Some s}"
    | (lagging) L where "askedRange c e node s = None" "runContractDepositSyncOnce c e node refused now s = Some (s\<lparr>dx_lastScannedBlock := Some L\<rparr>)"
        "L < scanFrom e (dx_lastScannedBlock s) L"
    | (asked) L logs where "askedRange c e node s = Some (scanFrom e (dx_lastScannedBlock s) L, L)" "scanFrom e (dx_lastScannedBlock s) L \<le> L"
        "dn_logs node (scanFrom e (dx_lastScannedBlock s) L) L = Some logs"
        "runContractDepositSyncOnce c e node refused now s = Some ((fold (registerLog refused now) logs s)\<lparr>dx_lastScannedBlock := Some L\<rparr>)"
proof (cases "getContractAddress c = '''' \<or> dn_head node = None")
  case True
  then show ?thesis by (intro idle) (auto simp: askedRange_def runContractDepositSyncOnce_def)
next
  case False
  then obtain L where c: "getContractAddress c \<noteq> ''''" and L: "dn_head node = Some L" by auto
  let ?f = "scanFrom e (dx_lastScannedBlock s) L"
  note d = askedRange_def runContractDepositSyncOnce_def c L Let_def
  consider "L < ?f" | "?f \<le> L" "dn_logs node ?f L = None" | logs where "?f \<le> L" "dn_logs node ?f L = Some logs"
    by (cases "dn_logs node ?f L") force+
  then show ?thesis
  proof cases
    case 1
    then show ?thesis by (intro lagging [of L]) (simp_all add: d)
  next
    case 2
    then show ?thesis by (intro idle) (simp_all add: d)
  next
    case (3 logs)
    then show ?thesis by (intro asked [of L logs]) (simp_all add: d)
  qed
qed

text \<open>After a first poll nothing above the last scanned block is ever skipped, even when the node's head goes back.\<close>

lemma run_covers_above:
  assumes "syncRun c e calls s = (t, rs)" and "dx_lastScannedBlock s = Some L"
  shows "\<exists>M. dx_lastScannedBlock t = Some M \<and> (\<forall>b. L < b \<and> b \<le> M \<longrightarrow> covered rs b)"
  using assms
proof (induction calls arbitrary: s L rs)
  case (Cons k calls)
  obtain node refused now where k: "k = (node, refused, now)" using prod_cases3 by blast
  define s1 where "s1 = (case runContractDepositSyncOnce c e node refused now s of None \<Rightarrow> s | Some t \<Rightarrow> t)"
  obtain rs1 where run: "syncRun c e calls s1 = (t, rs1)" and rs: "rs = (case askedRange c e node s of None \<Rightarrow> rs1 | Some r \<Rightarrow> r # rs1)"
    using Cons.prems(1) by (auto simp: k s1_def Let_def split: prod.splits)
  show ?case
  proof (cases rule: sync_cases [of c e node s refused now])
    case idle
    then have "s1 = s" "rs = rs1" by (auto simp: s1_def rs)
    with Cons.IH [of s rs1 L] run Cons.prems(2) show ?thesis by simp
  next
    case (lagging N)
    then have "dx_lastScannedBlock s1 = Some N" "rs = rs1" "N \<le> L" using Cons.prems(2) by (auto simp: s1_def rs scanFrom_def)
    with Cons.IH [OF run this(1)] show ?thesis by fastforce
  next
    case (asked N logs)
    then have l: "dx_lastScannedBlock s1 = Some N" and r: "rs = (L + 1, N) # rs1" using Cons.prems(2) by (auto simp: s1_def rs scanFrom_def)
    from Cons.IH [OF run l] obtain M where "dx_lastScannedBlock t = Some M" "\<forall>b. N < b \<and> b \<le> M \<longrightarrow> covered rs1 b" by blast
    moreover have "covered rs b" if "L < b" "b \<le> N \<or> covered rs1 b" for b using that by (auto simp: covered_def r)
    ultimately show ?thesis by (intro exI [of _ M]) (metis linorder_not_less)
  qed
qed auto

lemma run_covers:
  assumes "syncRun c e calls s = (t, rs)" and "dx_lastScannedBlock t = Some M" and "rs \<noteq> []" and "fst (hd rs) \<le> b" and "b \<le> M"
  shows "covered rs b"
  using assms
proof (induction calls arbitrary: s rs)
  case (Cons k calls)
  obtain node refused now where k: "k = (node, refused, now)" using prod_cases3 by blast
  define s1 where "s1 = (case runContractDepositSyncOnce c e node refused now s of None \<Rightarrow> s | Some t \<Rightarrow> t)"
  obtain rs1 where run: "syncRun c e calls s1 = (t, rs1)" and rs: "rs = (case askedRange c e node s of None \<Rightarrow> rs1 | Some r \<Rightarrow> r # rs1)"
    using Cons.prems(1) by (auto simp: k s1_def Let_def split: prod.splits)
  show ?case
  proof (cases rule: sync_cases [of c e node s refused now])
    case (asked N logs)
    then have l: "dx_lastScannedBlock s1 = Some N" and r: "rs = (scanFrom e (dx_lastScannedBlock s) N, N) # rs1"
      by (auto simp: s1_def rs)
    from run_covers_above [OF run l] Cons.prems(2) have "N < b \<Longrightarrow> covered rs1 b" using Cons.prems(5) by auto
    then show ?thesis using Cons.prems(4) unfolding r covered_def by (cases "N < b") auto
  qed (use Cons.IH [OF run Cons.prems(2)] Cons.prems rs in auto)
qed simp

subsection \<open>Tickets\<close>

lemma createTicket_wallet: "createTicket dec8_of u w h a d now s = (r, t) \<Longrightarrow> dx_wallet t = dx_wallet s"
  by (auto simp: createTicket_def throw_def ret_def Let_def split: option.splits if_splits)

lemma getTicket_wallet: "adminGetTicket dw ex i now s = (r, t) \<Longrightarrow> dx_wallet t = dx_wallet s"
  by (auto simp: adminGetTicket_def updTicket_def throw_def ret_def Let_def split: option.splits if_splits)

lemma note_frame: "accounts (w\<lparr>wl_notifications := ns\<rparr>) = accounts w" "wallet_ok (w\<lparr>wl_notifications := ns\<rparr>) = wallet_ok w"
  by (rule accounts_frame) (simp_all add: polOf_def getUser_def wallet_ok_def)

lemma reject_serves:
  assumes "wallet_ok (dx_wallet s)" and "adminRejectTicket i note now s = (r, t)"
  shows "serves (dx_wallet s) (dx_wallet t)"
  using assms
  by (auto simp: adminRejectTicket_def rejectTicketWrites_def transaction_def updTicket_def throw_def ret_def serves_def note_frame
      split: sum.splits if_splits)

text \<open>What the transaction of an approval leaves behind.\<close>

lemma approve_commit:
  assumes "approveTicketCommit dec8_of t x note now s = (r, u)"
  obtains (refused) e where "r = Inl e" "u = s"
    | (credited) "r = Inr ()" "polOf (tk_userId t) (dx_wallet s) \<noteq> None"
        "dx_wallet u = logCall (ReloadProfile (tk_userId t)) (logCall (BalanceDelta (tk_userId t) x) (notifyWallet (tk_userId t) ''Deposito Creditado''
           (addTx (ticketDeposit dec8_of t x now (dx_wallet s)) (addPol (tk_userId t) (dec8_of x) (dx_wallet s)))))"
        "map_option tk_status (findTicket (tk_id t) u) = Some ''credited''"
proof (cases "getUser (tk_userId t) (dx_wallet s) = None \<or> findTicket (tk_id t) s = None")
  case True
  with assms show thesis by (intro refused) (auto simp: approveTicketCommit_def approveTicketWrites_def transaction_def and_then_def throw_def)
next
  case False
  let ?g = "\<lambda>r. r\<lparr>tk_status := ''credited'', tk_adminAction := Some ''credit_applied'', tk_adminNote := noteOr note,
    tk_creditedAmount := Some (dec8_of x), tk_resolvedAt := Some now\<rparr>"
  have f: "findTicket (tk_id t) (s'\<lparr>dx_wallet := w, dx_tickets := update_where (\<lambda>r. tk_id r = tk_id t) ?g (dx_tickets s')\<rparr>)
      = map_option ?g (findTicket (tk_id t) s')" for s' w
    using find_update_key [of tk_id ?g "tk_id t" "tk_id t" "dx_tickets s'"] by (simp add: findTicket_def)
  have w: "findTicket i (s'\<lparr>dx_tickets := ts, dx_wallet := v\<rparr>) = findTicket i (s'\<lparr>dx_wallet := v, dx_tickets := ts\<rparr>)" for i s' ts v
    by (simp add: findTicket_def)
  from assms False show thesis
    by (intro credited) (auto simp: approveTicketCommit_def approveTicketWrites_def transaction_def and_then_def ret_def modify_def Let_def
        getUser_pol updTicket_def f w)
qed

context decimal_codec
begin

lemma credited_served:
  assumes ok: "wallet_ok w" and p: "polOf u w \<noteq> None" and x: "0 \<le> x"
    and row: "wt_id row = st_next w" "wt_userId row = u" "wt_type row = ''deposit''" "wt_status row = ''completed''" "wt_amount row = dec8_of x"
  shows "served w (addTx row (addPol u (dec8_of x) w))"
proof -
  have "wallet_ok (addTx row w)" using row by (intro ok_add [OF ok]) simp_all
  then have "wallet_ok (addPol u (dec8_of x) (addTx row w))" by (rule ok_addPol)
  moreover have c: "accounts (addTx row (addPol u (dec8_of x) w)) = accounts (addPol u (dec8_of x) (addTx row w))"
    by (rule accounts_frame) simp_all
  moreover have "acct_step (accounts w) (accounts (addPol u (dec8_of x) (addTx row w)))"
    using row p by (intro accounts_income codec_nonneg x) (auto simp: accounts_add isOpen_def isPaid_def isIncome_def)
  moreover have "wallet_ok (addTx row (addPol u (dec8_of x) w))"
    using \<open>wallet_ok (addPol u (dec8_of x) (addTx row w))\<close> by (rule ok_frame) simp_all
  ultimately show ?thesis by (simp add: served_def)
qed

lemma approve_ticket_serves:
  assumes ok: "wallet_ok (dx_wallet s)" and r: "adminApproveTicket dec8_of i amount note now s = (r, t)"
  shows "serves (dx_wallet s) (dx_wallet t)"
proof (cases "approveTicketPlan i amount s")
  case (Inl e)
  with r ok show ?thesis by (simp add: adminApproveTicket_def serves_refl)
next
  case (Inr k)
  then obtain tk x where k: "k = (tk, x)" "0 \<le> x" by (auto simp: approveTicketPlan_def split: option.splits if_splits)
  from r Inr k have "approveTicketCommit dec8_of tk x note now s = (r, t)" by (simp add: adminApproveTicket_def)
  then show ?thesis
  proof (cases rule: approve_commit)
    case refused
    with ok show ?thesis by (simp add: serves_refl)
  next
    case credited
    have "served (dx_wallet s) (addTx (ticketDeposit dec8_of tk x now (dx_wallet s)) (addPol (tk_userId tk) (dec8_of x) (dx_wallet s)))"
      using credited(2) by (intro credited_served [OF ok]) (simp_all add: ticketDeposit_def newTx_def k(2))
    then show ?thesis unfolding credited(3) by (intro serves_one) simp
  qed
qed

subsection \<open>The scan of the wallets\<close>

lemma request_serves:
  assumes ok: "wallet_ok s" and x: "0 \<le> x" and r: "createDepositRequest dec8_of cfg ch u (Some x) h now s = (r, t)"
  shows "serves s t"
proof (cases r)
  case (Inl e)
  then have "t = s" using r transaction_Inl by (fastforce simp: createDepositRequest_def throw_def split: if_splits)
  then show ?thesis using ok by (simp add: serves_refl)
next
  case (Inr row)
  then have "createDepositTx dec8_of cfg ch u x h now s = (Inr row, t)"
    using r by (auto simp: createDepositRequest_def throw_def transaction_Inr_iff split: if_splits)
  then show ?thesis by (intro serves_one createDepositTx_served [OF ok _ x])
qed

lemma transfer_serves:
  assumes ok: "wallet_ok s" and d: "sv_dec8_of env = dec8_of" and r: "scanTransfer env w now row s = (b, t)"
  shows "serves s t"
  using r serves_refl [OF ok] request_serves [OF ok, of "etherOf (er_value row)"] unfolding scanTransfer_def Let_def d
  by (fastforce split: if_splits option.splits prod.splits sum.splits)

lemma transfers_serves:
  assumes "sv_dec8_of env = dec8_of" and "scanTransfers env w now rows (n, s) = (m, t)" and "wallet_ok s"
  shows "serves s t"
  using assms(2,3)
proof (induction rows arbitrary: n s)
  case (Cons r rows)
  show ?case
  proof (cases "er_timeStamp r < now div 1000 - 12 * 3600")
    case True
    with Cons.prems show ?thesis by (simp add: serves_refl)
  next
    case False
    obtain b s1 where f: "scanTransfer env w now r s = (b, s1)" by force
    note a = transfer_serves [OF Cons.prems(2) assms(1) f]
    have "scanTransfers env w now rows (if b then n + 1 else n, s1) = (m, t)" using Cons.prems(1) False f by simp
    from serves_trans [OF a Cons.IH [OF this serves_ok [OF a]]] show ?thesis .
  qed
qed (simp add: serves_refl)

lemma wallets_serves:
  assumes d: "sv_dec8_of env = dec8_of" and ok: "wallet_ok s"
  shows "serves s (snd (scanWallets env now s))"
proof -
  have "serves s' (snd (fold (\<lambda>w x. scanTransfers env w now (fetchTxs env w) x) ws (n, s')))" if "wallet_ok s'" for ws n s'
    using that
  proof (induction ws arbitrary: n s')
    case (Cons w ws)
    obtain m t where f: "scanTransfers env w now (fetchTxs env w) (n, s') = (m, t)" by force
    note a = transfers_serves [OF d f Cons.prems]
    from serves_trans [OF a Cons.IH [OF serves_ok [OF a], of m]] show ?case by (simp add: f)
  qed (simp add: serves_refl)
  with ok show ?thesis by (simp add: scanWallets_def)
qed

lemma scan_serves:
  assumes d: "sv_dec8_of env = dec8_of" and ok: "wallet_ok (dx_wallet s)" and r: "scanForNewDeposits env force now s = (x, t)"
  shows "serves (dx_wallet s) (dx_wallet t)"
proof -
  have st: "serves w (snd (scanStages env now w))" if "wallet_ok w" for w
    using wallets_serves [OF d that, of now] serves_refl [OF that] by (auto simp: scanStages_def runStages_def split: prod.splits)
  have "dx_wallet t = dx_wallet s \<or> dx_wallet t = snd (scanStages env now (dx_wallet s))"
    using r by (auto simp: scanForNewDeposits_def runAction_def Let_def split: if_splits prod.splits)
  with st [OF ok] serves_refl [OF ok] show ?thesis by auto
qed

end

subsection \<open>The step relation\<close>

inductive deposit_step :: "(number \<Rightarrow> dec8) \<Rightarrow> wallet_config \<Rightarrow> deposit_store \<Rightarrow> deposit_store \<Rightarrow> bool" for dec8_of cfg where
  Wallet: "wallet_step dec8_of cfg (dx_wallet s) w \<Longrightarrow> deposit_step dec8_of cfg s (s\<lparr>dx_wallet := w\<rparr>)"
| OpenTicket: "createTicket dec8_of u w h a d now s = (x1, t) \<Longrightarrow> deposit_step dec8_of cfg s t"
| ViewTicket: "adminGetTicket dw ex i now s = (x2, t) \<Longrightarrow> deposit_step dec8_of cfg s t"
| ApproveTicket: "adminApproveTicket dec8_of i amount note now s = (x3, t) \<Longrightarrow> deposit_step dec8_of cfg s t"
| RejectTicket: "adminRejectTicket i note now s = (x4, t) \<Longrightarrow> deposit_step dec8_of cfg s t"
| Sync: "runContractDepositSyncOnce c e node refused now s = Some t \<Longrightarrow> deposit_step dec8_of cfg s t"
| Scan: "sv_dec8_of env = dec8_of \<Longrightarrow> scanForNewDeposits env force now s = (x5, t) \<Longrightarrow> deposit_step dec8_of cfg s t"

lemma deposit_step_serves:
  assumes "deployed dec8_of cfg \<and> wallet_ok (dx_wallet s)" and "deposit_step dec8_of cfg s t"
  shows "serves (dx_wallet s) (dx_wallet t)"
proof -
  have c: "decimal_codec dec8_of" and ok: "wallet_ok (dx_wallet s)" using assms(1) by (simp_all add: deployed_def)
  from assms(2) show ?thesis
  proof cases
    case (Wallet w)
    with deployed_step [of dec8_of cfg "dx_wallet s" w] assms(1) show ?thesis by (auto intro: serves_one)
  qed (use ok in \<open>auto intro: serves_refl reject_serves sync_serves decimal_codec.approve_ticket_serves [OF c] decimal_codec.scan_serves [OF c]
      simp: createTicket_wallet getTicket_wallet\<close>)
qed

interpretation deposits: simulation "\<lambda>s. deployed dec8_of cfg \<and> wl_txs (dx_wallet s) = []" "deposit_step dec8_of cfg"
  "\<lambda>s. deployed dec8_of cfg \<and> wallet_ok (dx_wallet s)" "acct_step\<^sup>*\<^sup>*" "\<lambda>s. accounts (dx_wallet s)"
  for dec8_of cfg
proof unfold_locales
  show "deployed dec8_of cfg \<and> wallet_ok (dx_wallet s)" if "deployed dec8_of cfg \<and> wl_txs (dx_wallet s) = []" for s
    using that by (simp add: wallet_ok_def)
  show "deployed dec8_of cfg \<and> wallet_ok (dx_wallet t)" if "deployed dec8_of cfg \<and> wallet_ok (dx_wallet s)" "deposit_step dec8_of cfg s t" for s t
    using deposit_step_serves [OF that] that(1) by (simp add: serves_def)
  show "acct_step\<^sup>*\<^sup>* (accounts (dx_wallet s)) (accounts (dx_wallet t))"
    if "deployed dec8_of cfg \<and> wallet_ok (dx_wallet s)" "deposit_step dec8_of cfg s t" for s t
    using deposit_step_serves [OF that] by (simp add: serves_def)
qed

end
