(* ===== verification/DepositClaims.thy ===== *)
theory DepositClaims
  imports DepositProofs WalletClaims CheckinFlow
begin

section \<open>Properties of the deposits\<close>

definition deposit_demo :: "wallet_store \<Rightarrow> deposit_store" where
  "deposit_demo w = \<lparr>dx_wallet = w, dx_tickets = [], dx_next = 1, dx_lastScannedBlock = None, dx_lastActivation = 0, dx_inFlight = []\<rparr>"

subsection \<open>Refinement\<close>

text \<open>
  C32: served one after the other, the wallet together with the tickets and both scanners is a set of
  accounts: whatever sequence of requests, reviews, polls and scans runs, the tables stay well formed,
  available + reserved + paid - deposited of every user is kept, and no balance becomes negative.
\<close>

lemma deposit_system_refines_accounts:
  assumes "decimal_codec dec8_of" and "0 \<le> wc_minDeposit cfg" and "wallet_ok (dx_wallet s)" and path: "(deposit_step dec8_of cfg)\<^sup>*\<^sup>* s t"
    and nn: "\<And>u. 0 \<le> ac_available (accounts (dx_wallet s) u)"
  shows "acct_step\<^sup>*\<^sup>* (accounts (dx_wallet s)) (accounts (dx_wallet t)) \<and> wallet_ok (dx_wallet t)
    \<and> 0 \<le> ac_available (accounts (dx_wallet t) u) \<and> worth (accounts (dx_wallet t) u) = worth (accounts (dx_wallet s) u)"
proof -
  have d: "deployed dec8_of cfg \<and> wallet_ok (dx_wallet s)" using assms by (simp add: deployed_def)
  have p: "acct_step\<^sup>*\<^sup>* (accounts (dx_wallet s)) (accounts (dx_wallet t))" using deposits.path_sim [OF path d] by simp
  moreover have "wallet_ok (dx_wallet t)" using deposits.path_inv [OF path d] by simp
  moreover have "0 \<le> ac_available (accounts (dx_wallet t) u) \<and> worth (accounts (dx_wallet t) u) = worth (accounts (dx_wallet s) u)"
    using ledger.path_inv [OF p, of "\<lambda>u. worth (accounts (dx_wallet s) u)"] nn by simp
  ultimately show ?thesis by simp
qed

text \<open>User 1 opens a ticket for a hash in capitals and is credited 7 coins.\<close>

definition shouted_hash :: string where "shouted_hash = ''0xAB''"

definition ticket_open :: deposit_store where
  "ticket_open = snd (createTicket round8_away 1 (Some demo_address) (Some shouted_hash) None None 30 (deposit_demo wallet_demo))"

definition ticket_paid :: deposit_store where
  "ticket_paid = snd (adminApproveTicket round8_away 1 (Some 7) None 40 ticket_open)"

lemma ticket_steps: "(deposit_step round8_away wallet_cfg)\<^sup>*\<^sup>* (deposit_demo wallet_demo) ticket_paid"
proof -
  have "deposit_step round8_away wallet_cfg (deposit_demo wallet_demo) ticket_open"
    unfolding ticket_open_def by (metis OpenTicket prod.collapse)
  moreover have "deposit_step round8_away wallet_cfg ticket_open ticket_paid"
    unfolding ticket_paid_def by (metis ApproveTicket prod.collapse)
  ultimately show ?thesis by simp
qed

lemma deposit_system_refines_accounts_witness:
  "worth (accounts (dx_wallet ticket_paid) 1) = worth (accounts wallet_demo 1) \<and> polOf 1 (dx_wallet ticket_paid) = Some 10700000000"
proof -
  have m: "0 \<le> wc_minDeposit wallet_cfg" by (simp add: wallet_cfg_def getMinDepositPol_def)
  have ok: "wallet_ok (dx_wallet (deposit_demo wallet_demo))" using wallet_demo_ok by (simp add: deposit_demo_def)
  have nn: "0 \<le> ac_available (accounts (dx_wallet (deposit_demo wallet_demo)) u)" for u
    by (simp add: deposit_demo_def accounts_def wallet_demo_pol)
  from deposit_system_refines_accounts [OF pg.decimal_codec_axioms m ok ticket_steps nn, of 1]
  have "worth (accounts (dx_wallet ticket_paid) 1) = worth (accounts wallet_demo 1)" by (simp add: deposit_demo_def)
  moreover have "polOf 1 (dx_wallet ticket_paid) = Some 10700000000" by code_simp
  ultimately show ?thesis ..
qed

subsection \<open>The contract's events\<close>

text \<open>
  C33: whatever the node answers, and whenever it fails or its head goes back, the polls of one process
  leave no gap: every block from the first one asked for up to the last scanned one lies in a range the
  node answered.
\<close>

lemma sync_leaves_no_gap:
  assumes "syncRun c e calls s = (t, rs)" and "dx_lastScannedBlock t = Some M" and "rs \<noteq> []" and "fst (hd rs) \<le> b" and "b \<le> M"
  shows "\<exists>r \<in> set rs. fst r \<le> b \<and> b \<le> snd r"
  using run_covers [OF assms] by (force simp: covered_def)

definition demo_node :: "int option \<Rightarrow> contract_log list option \<Rightarrow> deposit_node" where
  "demo_node head logs = \<lparr>dn_head = head, dn_logs = (\<lambda>x y. logs)\<rparr>"

text \<open>Four polls: at block 9000, with a failing node, at 8990, at 9010.\<close>

lemma sync_leaves_no_gap_witness:
  "\<exists>t rs. syncRun demo_address '''' [(demo_node (Some 9000) (Some []), \<lambda>_. False, 1), (demo_node (Some 9005) None, \<lambda>_. False, 2),
        (demo_node (Some 8990) (Some []), \<lambda>_. False, 3), (demo_node (Some 9010) (Some []), \<lambda>_. False, 4)] (deposit_demo wallet_demo) = (t, rs)
     \<and> rs = [(4001, 9000), (8991, 9010)] \<and> (\<exists>r \<in> set rs. fst r \<le> 9005 \<and> 9005 \<le> snd r)"
proof -
  let ?calls = "[(demo_node (Some 9000) (Some []), \<lambda>_. False, 1), (demo_node (Some 9005) None, \<lambda>_. False, 2),
        (demo_node (Some 8990) (Some []), \<lambda>_. False, 3), (demo_node (Some 9010) (Some []), \<lambda>_. False, 4)] :: sync_call list"
  obtain t rs where r: "syncRun demo_address '''' ?calls (deposit_demo wallet_demo) = (t, rs)" by force
  have "case syncRun demo_address '''' ?calls (deposit_demo wallet_demo) of (t, rs) \<Rightarrow>
      dx_lastScannedBlock t = Some 9010 \<and> rs = [(4001, 9000), (8991, 9010)]" by code_simp
  with r have x: "dx_lastScannedBlock t = Some 9010" "rs = [(4001, 9000), (8991, 9010)]" by simp_all
  then have y: "rs \<noteq> []" "fst (hd rs) \<le> 9005" "(9005 :: int) \<le> 9010" by simp_all
  from sync_leaves_no_gap [OF r x(1) y] r x(2) show ?thesis by blast
qed





subsection \<open>Tickets\<close>

text \<open>
  C35: approving a ticket credits it whatever the tables say of its hash: an unresolved ticket with a hash
  that was credited before gets another completed deposit and the amount again, and the analysis shown to
  the administrator calls the hash not credited unless the ticket spells it exactly as the earlier row does.
\<close>

lemma ticket_credits_known_hash:
  assumes "findTicket i s = Some t" and "tk_status t \<in> {''open'', ''analyzing'', ''rejected''}" and "tk_txHash t = Some h" and "h \<noteq> ''''"
    and "0 < x" and b: "polOf (tk_userId t) (dx_wallet s) = Some b" and a: "adminApproveTicket dec8_of i (Some x) note now s = (r, u)"
  shows "r = Inr () \<and> polOf (tk_userId t) (dx_wallet u) = Some (b + dec8_of x) \<and> rowsOf h u = rowsOf h s + 1
    \<and> (rowsOf h s = 0 \<longrightarrow> \<not> ta_alreadyCredited (analyzeOnChain dw ex now t (dx_wallet s)))"
proof -
  have id: "tk_id t = i" "findTicket (tk_id t) s = Some t" using assms(1) find_first_Some_conj [OF assms(1) [unfolded findTicket_def]] by simp_all
  have "approveTicketPlan i (Some x) s = Inr (t, x)" using assms(1,2,5) by (auto simp: approveTicketPlan_def)
  then have "approveTicketCommit dec8_of t x note now s = (r, u)" using a by (simp add: adminApproveTicket_def)
  then have "r = Inr () \<and> polOf (tk_userId t) (dx_wallet u) = Some (b + dec8_of x) \<and> rowsOf h u = rowsOf h s + 1"
  proof (cases rule: approve_commit)
    case refused
    then have False using \<open>approveTicketCommit dec8_of t x note now s = (r, u)\<close> b id
      by (auto simp: approveTicketCommit_def approveTicketWrites_def transaction_def and_then_def ret_def modify_def Let_def getUser_pol)
    then show ?thesis ..
  next
    case credited
    then show ?thesis using assms(3,4) b by (simp add: rowsOf_def ticketDeposit_def depositWith_def newTx_def)
  qed
  moreover have "\<not> ta_alreadyCredited (analyzeOnChain dw ex now t (dx_wallet s))" if "rowsOf h s = 0"
  proof -
    have "\<not> creditedHash h (dx_wallet s)" using that by (auto simp: creditedHash_def rowsOf_def count_where_0_iff find_first_None_iff)
    then show ?thesis using assms(3) by (simp add: analyzeOnChain_def emptyAnalysis_def Let_def split: rpc.split)
  qed
  ultimately show ?thesis by blast
qed

text \<open>The deposit of the transfer 0xab is verified and credited; then the ticket for 0xAB credits the same transfer again.\<close>

definition ticket_verified :: deposit_store where
  "ticket_verified = ticket_open\<lparr>dx_wallet := runDepositVerifier round8_away wallet_cfg demo_chain 35 (dx_wallet ticket_open)\<rparr>"

lemma ticket_credits_known_hash_witness:
  "polOf 1 (dx_wallet ticket_verified) = Some 15000000000 \<and> creditedHash ''0xab'' (dx_wallet ticket_verified)
   \<and> polOf 1 (dx_wallet (snd (adminApproveTicket round8_away 1 (Some 50) None 40 ticket_verified))) = Some 20000000000"
proof -
  have "polOf 1 (dx_wallet ticket_verified) = Some 15000000000 \<and> creditedHash ''0xab'' (dx_wallet ticket_verified)
    \<and> map_option (\<lambda>t. (tk_userId t, tk_status t, tk_txHash t)) (findTicket 1 ticket_verified) = Some (1, ''open'', Some shouted_hash)" by code_simp
  then have p: "polOf 1 (dx_wallet ticket_verified) = Some 15000000000" "creditedHash ''0xab'' (dx_wallet ticket_verified)"
    "map_option (\<lambda>t. (tk_userId t, tk_status t, tk_txHash t)) (findTicket 1 ticket_verified) = Some (1, ''open'', Some shouted_hash)" by blast+
  then obtain t where t: "findTicket 1 ticket_verified = Some t" "tk_userId t = 1" "tk_status t = ''open''" "tk_txHash t = Some shouted_hash" by auto
  obtain r u where a: "adminApproveTicket round8_away 1 (Some 50) None 40 ticket_verified = (r, u)" by force
  have h: "shouted_hash \<noteq> ''''" by (simp add: shouted_hash_def)
  have b: "polOf (tk_userId t) (dx_wallet ticket_verified) = Some 15000000000" using p t by simp
  from ticket_credits_known_hash [OF t(1) _ t(4) h _ b a] t(2,3) have "polOf 1 (dx_wallet u) = Some (15000000000 + round8_away 50)" by simp
  moreover have "round8_away 50 = 5000000000" by (simp add: round8_away_def floor_unique)
  ultimately show ?thesis using p a by simp
qed

text \<open>Two approvals that read the ticket before either commits both credit it.\<close>

lemma double_approval_credits_twice:
  "\<exists>t s1 s2. approveTicketPlan 1 (Some 7) ticket_open = Inr (t, 7) \<and> approveTicketCommit round8_away t 7 None 40 ticket_open = (Inr (), s1)
     \<and> approveTicketCommit round8_away t 7 None 41 s1 = (Inr (), s2) \<and> polOf 1 (dx_wallet s2) = Some 11400000000"
proof -
  define t where "t = fst (projr (approveTicketPlan 1 (Some 7) ticket_open))"
  let ?o1 = "approveTicketCommit round8_away t 7 None 40 ticket_open"
  let ?o2 = "approveTicketCommit round8_away t 7 None 41 (snd ?o1)"
  have "approveTicketPlan 1 (Some 7) ticket_open = Inr (t, 7) \<and> fst ?o1 = Inr () \<and> fst ?o2 = Inr ()
    \<and> polOf 1 (dx_wallet (snd ?o2)) = Some 11400000000" unfolding t_def by code_simp
  then show ?thesis by (metis prod.collapse)
qed

subsection \<open>Check-in payments\<close>

text \<open>
  When only the deposit wallet is configured, the check-in falls back to it, and one transfer is both:
  the payment of a check-in is confirmed, and the same hash, submitted as a deposit, is credited with the
  value sent.
\<close>

lemma checkin_payment_is_a_deposit:
  assumes addr: "trim addr = addr" "addr \<noteq> ''''" "toLowerCase addr \<noteq> ZERO_ADDR"
    and conf: "ce_receiver env = resolveCheckinReceiverFromEnv '''' addr" "wc_depositAddress cfg = addr" "toLowerCase (trim (wc_contract cfg)) \<noteq> toLowerCase addr"
    and seen: "getTxWithFallback cx h = (RpcFound \<lparr>xt_from = Some w, xt_to = Some addr, xt_value = Some v\<rparr>, sc)"
      "getReceiptWithFallback cx h sc = RpcFound True" "ce_minWei env \<le> v"
    and chain: "ch_tx ch h = RpcFound \<lparr>ct_to = Some addr, ct_from = Some w, ct_chainId = POLYGON_ID, ct_value = v\<rparr>"
      "ch_receipt ch h = RpcFound r" "cr_status r = 1" "ch_head ch = Some n" "wc_confirmations cfg \<le> n - cr_block r + 1" "wc_minDeposit cfg \<le> etherOf v"
    and row: "wt_txHash x = Some h" "wt_verifyAttempts x < DEPOSIT_VERIFY_MAX_ATTEMPTS" "\<not> creditedHash h s"
  shows "evaluateCheckinTx cx h (normalizeAddr (Some w)) (normalizeAddr (Some (ce_receiver env))) (ce_minWei env) = PayConfirmed
    \<and> verifyVerdict cfg ch x s = Credit (etherOf v)"
proof -
  have "trim '''' = ''''" by code_simp
  then have r: "ce_receiver env = addr" using addr conf(1) by (simp add: resolveCheckinReceiverFromEnv_def)
  have ne: "toLowerCase addr \<noteq> ''''" using addr(2) by (simp add: toLowerCase_def)
  have "evaluateCheckinTx cx h (normalizeAddr (Some w)) (normalizeAddr (Some addr)) (ce_minWei env) = PayConfirmed"
    using seen addr ne by (simp add: evaluateCheckinTx_def normalizeAddr_def)
  moreover have "find_first (\<lambda>t. depositWith h t \<and> wt_status t = ''completed'' \<and> wt_id t \<noteq> wt_id x) (wl_txs s) = None"
    using row(3) by (auto simp: creditedHash_def find_first_None_iff)
  then have "verifyVerdict cfg ch x s = Credit (etherOf v)"
    using chain row conf addr ne by (simp add: verifyVerdict_def verifiedAmount_def Let_def lowerOr_def)
  ultimately show ?thesis by (simp add: r)
qed

definition checkin_demo_env :: checkin_env where
  "checkin_demo_env = \<lparr>ce_sha = (\<lambda>s. s), ce_brazilDay = (\<lambda>t. t div 86400000), ce_dec8_of = round8_away, ce_keeps = True,
     ce_receiver = resolveCheckinReceiverFromEnv '''' ''0xd'', ce_minWei = 10 ^ 18\<rparr>"

definition checkin_demo_chain :: checkin_chain where
  "checkin_demo_chain = \<lparr>cx_apiKey = False, cx_scanTx = (\<lambda>h. RpcError),
     cx_rpcTx = (\<lambda>h. RpcFound \<lparr>xt_from = Some ''0xf'', xt_to = Some ''0xd'', xt_value = Some (50 * 10 ^ 18)\<rparr>),
     cx_scanReceipt = (\<lambda>h. RpcError), cx_rpcReceipt = (\<lambda>h. RpcFound True)\<rparr>"

lemma checkin_payment_is_a_deposit_witness:
  "evaluateCheckinTx checkin_demo_chain ''0xab'' ''0xf'' ''0xd'' (10 ^ 18) = PayConfirmed
   \<and> verifyVerdict wallet_cfg demo_chain demo_deposit wallet_demo = Credit 50"
proof -
  have t: "trim ''0xd'' = ''0xd''" "toLowerCase ''0xd'' \<noteq> ZERO_ADDR" "toLowerCase (trim (wc_contract wallet_cfg)) \<noteq> toLowerCase ''0xd''"
    "toLowerCase ''0xab'' = ''0xab''" "normalizeAddr (Some ''0xf'') = ''0xf''" "normalizeAddr (Some (ce_receiver checkin_demo_env)) = ''0xd''" by code_simp+
  have e: "etherOf (50 * 10 ^ 18) = 50" "wc_minDeposit wallet_cfg \<le> 50" "wc_confirmations wallet_cfg \<le> 20 - 10 + 1" "\<not> creditedHash ''0xab'' wallet_demo" by code_simp+
  have "evaluateCheckinTx checkin_demo_chain ''0xab'' (normalizeAddr (Some ''0xf'')) (normalizeAddr (Some (ce_receiver checkin_demo_env))) (ce_minWei checkin_demo_env) = PayConfirmed
   \<and> verifyVerdict wallet_cfg demo_chain demo_deposit wallet_demo = Credit (etherOf (50 * 10 ^ 18))"
    by (rule checkin_payment_is_a_deposit [where addr = "''0xd''" and sc = False and r = "\<lparr>cr_status = 1, cr_block = 10, cr_logs = []\<rparr>" and n = 20])
      (use t e in \<open>simp_all add: checkin_demo_env_def checkin_demo_chain_def wallet_cfg_def demo_chain_def getTxWithFallback_def
        getReceiptWithFallback_def demo_deposit_def newTx_def POLYGON_ID_def DEPOSIT_VERIFY_MAX_ATTEMPTS_def\<close>)
  then show ?thesis unfolding t e by (simp add: checkin_demo_env_def)
qed

end
