(* ===== verification/Coins.thy ===== *)
theory Coins
  imports WalletFlow
begin

section \<open>Swaps and paid-to-promote advertisements\<close>

text \<open>
  \<open>server/controllers/swapController.js\<close> exchanges POL and USDC, \<open>server/controllers/ptpController.js\<close>
  sells views of an advertisement for USDC and pays for each view.  \<open>cn_usdc\<close> is the column
  \<open>usdc_balance\<close> of the users, \<open>cn_price\<close> the cached price.  Amounts come from bodies whose schemas
  admit any number or text: \<open>None\<close> is what is no finite number (refused with one message or another).
\<close>

record ptp_ad =
  ad_id :: int
  ad_userId :: int
  ad_title :: string
  ad_url :: string
  ad_hash :: string
  ad_status :: string
  ad_views :: int
  ad_paidUsd :: number
  ad_targetViews :: int

record coin_store =
  cn_wallet :: wallet_store
  cn_usdc :: "int \<Rightarrow> dec8"
  cn_price :: "(number \<times> millis) option"
  cn_ads :: "ptp_ad list"
  cn_views :: "(int \<times> string) list"
  cn_earnings :: "(int \<times> int \<times> number) list"
  cn_next :: int

datatype coin_error = InsufficientPol | InsufficientUsdc | InsufficientBalance | CoinServerError

definition addUsdc :: "int \<Rightarrow> dec8 \<Rightarrow> coin_store \<Rightarrow> coin_store" where
  "addUsdc userId d s = s\<lparr>cn_usdc := (cn_usdc s)(userId := cn_usdc s userId + d)\<rparr>"

definition onWallet :: "(wallet_store \<Rightarrow> wallet_store) \<Rightarrow> coin_store \<Rightarrow> coin_store" where
  "onWallet f s = s\<lparr>cn_wallet := f (cn_wallet s)\<rparr>"

subsection \<open>The price\<close>

definition PRICE_TTL_MS :: millis where "PRICE_TTL_MS = 120000"

text \<open>\<open>market\<close> is the answer of the price service, \<open>None\<close> when it fails; then the price is 1.\<close>

definition getPolUsdPrice :: "number option \<Rightarrow> millis \<Rightarrow> coin_store \<Rightarrow> number \<times> coin_store" where
  "getPolUsdPrice market now s =
     (let fetched = (case market of None \<Rightarrow> (1, s) | Some p \<Rightarrow> if p = 0 then (1, s) else (p, s\<lparr>cn_price := Some (p, now)\<rparr>))
      in case cn_price s of None \<Rightarrow> fetched | Some (p, t) \<Rightarrow> if now - t < PRICE_TTL_MS then (p, s) else fetched)"

subsection \<open>Swapping\<close>

definition getBalances :: "int \<Rightarrow> coin_store \<Rightarrow> (number \<times> number) option" where
  "getBalances userId s = map_option (\<lambda>u. (toNumber (usr_polBalance u), toNumber (cn_usdc s userId))) (getUser userId (cn_wallet s))"

text \<open>The statements of the transaction; the engine hears of the change before the commit.\<close>

definition swapTx ::
  "(number \<Rightarrow> dec8) \<Rightarrow> int \<Rightarrow> string \<Rightarrow> number \<Rightarrow> number \<Rightarrow> (coin_error, unit, coin_store) program" where
  "swapTx dec8_of userId fromAsset amount output s =
     (case getUser userId (cn_wallet s) of None \<Rightarrow> throw CoinServerError s
      | Some u \<Rightarrow>
          if fromAsset = ''POL'' then
            (if toNumber (usr_polBalance u) < amount then throw InsufficientPol s
             else ret () (onWallet (\<lambda>w. logCall (BalanceDelta userId (- amount)) (addPol userId (- dec8_of amount) w))
                    (addUsdc userId (dec8_of output) s)))
          else if toNumber (cn_usdc s userId) < amount then throw InsufficientUsdc s
          else ret () (onWallet (\<lambda>w. logCall (BalanceDelta userId output) (addPol userId (dec8_of output) w))
                 (addUsdc userId (- dec8_of amount) s)))"

text \<open>
  The audit row is written outside the transaction (\<open>auditOk\<close>: that succeeds); when it fails the
  tables are rolled back, but not what the engine was told.
\<close>

definition executeSwap ::
  "(number \<Rightarrow> dec8) \<Rightarrow> number option \<Rightarrow> bool \<Rightarrow> int \<Rightarrow> string \<Rightarrow> number option \<Rightarrow> millis
     \<Rightarrow> (coin_error, number \<times> number, coin_store) program" where
  "executeSwap dec8_of market auditOk userId fromAsset amount now s =
     (let (rate, s1) = getPolUsdPrice market now s
      in case amount of None \<Rightarrow> throw CoinServerError s1
      | Some amountNum \<Rightarrow>
          (let output = (if fromAsset = ''POL'' then fl (amountNum * rate) else fl (amountNum / rate))
           in case swapTx dec8_of userId fromAsset amountNum output s1 of (Inl e, t) \<Rightarrow> throw e s1
              | (Inr _, t) \<Rightarrow>
                  if auditOk then ret (rate, output) (onWallet (logAudit \<lparr>al_userId = userId, al_action = ''swap'',
                    al_details = [(''fromAsset'', fromAsset)]\<rparr>) t)
                  else throw CoinServerError (onWallet (\<lambda>w. w\<lparr>st_calls := st_calls (cn_wallet t)\<rparr>) s1)))"

subsection \<open>Advertisements\<close>

definition PTP_RATE_USD_PER_1000 :: number where "PTP_RATE_USD_PER_1000 = fl (1 / 10)"
definition PTP_EARNING_PER_VIEW_USD :: number where "PTP_EARNING_PER_VIEW_USD = fl (PTP_RATE_USD_PER_1000 / 1000)"

text \<open>\<open>target_views\<close> is a 32-bit column: Prisma refuses a fraction or a larger number.\<close>

definition int32_of :: "number \<Rightarrow> int option" where
  "int32_of x = (if of_int \<lfloor>x\<rfloor> = x \<and> - 2147483648 \<le> x \<and> x \<le> 2147483647 then Some \<lfloor>x\<rfloor> else None)"

definition adCost :: "number \<Rightarrow> number" where
  "adCost targetViews = fl (fl (targetViews / 1000) * PTP_RATE_USD_PER_1000)"

definition createAdTx ::
  "(number \<Rightarrow> dec8) \<Rightarrow> int \<Rightarrow> string \<Rightarrow> string \<Rightarrow> number \<Rightarrow> string \<Rightarrow> (coin_error, unit, coin_store) program" where
  "createAdTx dec8_of userId title url targetViews adHash s =
     (let costUsd = adCost targetViews
      in if getUser userId (cn_wallet s) = None then throw CoinServerError s
         else if toNumber (cn_usdc s userId) < costUsd then throw InsufficientBalance s
         else let s1 = addUsdc userId (- dec8_of costUsd) s
              in case int32_of targetViews of None \<Rightarrow> throw CoinServerError s1
              | Some n \<Rightarrow>
                  if find_first (\<lambda>a. ad_hash a = adHash) (cn_ads s) \<noteq> None then throw CoinServerError s1
                  else ret () (s1\<lparr>cn_ads := cn_ads s1 @ [\<lparr>ad_id = cn_next s1, ad_userId = userId, ad_title = title, ad_url = url,
                      ad_hash = adHash, ad_status = ''active'', ad_views = 0, ad_paidUsd = costUsd, ad_targetViews = n\<rparr>],
                    cn_next := cn_next s1 + 1\<rparr>))"

text \<open>\<open>views || 0\<close>: a missing field counts as zero, \<open>Some None\<close> is no number.\<close>

definition createAd ::
  "(number \<Rightarrow> dec8) \<Rightarrow> int \<Rightarrow> string \<Rightarrow> string \<Rightarrow> number option option \<Rightarrow> string \<Rightarrow> (coin_error, unit, coin_store) program" where
  "createAd dec8_of userId title url views adHash s =
     (case (case views of None \<Rightarrow> Some 0 | Some v \<Rightarrow> v) of None \<Rightarrow> throw CoinServerError s
      | Some n \<Rightarrow> transaction (createAdTx dec8_of userId title url n adHash) s)"

definition getMyAds :: "int \<Rightarrow> coin_store \<Rightarrow> ptp_ad list" where
  "getMyAds userId s = rev (filter (\<lambda>a. ad_userId a = userId) (cn_ads s))"

definition findAd :: "int \<Rightarrow> coin_store \<Rightarrow> ptp_ad option" where
  "findAd i s = find_first (\<lambda>a. ad_id a = i) (cn_ads s)"

definition updAd :: "int \<Rightarrow> (ptp_ad \<Rightarrow> ptp_ad) \<Rightarrow> coin_store \<Rightarrow> coin_store" where
  "updAd i f s = s\<lparr>cn_ads := update_where (\<lambda>a. ad_id a = i) f (cn_ads s)\<rparr>"

text \<open>The viewer: the given hash with the address of the request, or a digest of that address.\<close>

definition finalHash :: "(string \<Rightarrow> string) \<Rightarrow> string \<Rightarrow> string \<Rightarrow> string" where
  "finalHash md5 viewerHash clientIp = (if viewerHash = '''' then md5 clientIp else viewerHash @ ''-'' @ clientIp)"

text \<open>
  The transaction reads the advertisement and the view, then writes; nothing locks the rows, so another
  view may commit in between.  \<open>Inr (Some ad)\<close>: the view counts.
\<close>

definition viewPlan :: "int \<Rightarrow> string \<Rightarrow> coin_store \<Rightarrow> bool \<times> ptp_ad option" where
  "viewPlan i h s =
     (case findAd i s of None \<Rightarrow> (False, None)
      | Some ad \<Rightarrow>
          if ad_status ad \<noteq> ''active'' \<or> ad_targetViews ad \<le> ad_views ad then (ad_status ad = ''active'', None)
          else if (i, h) \<in> set (cn_views s) then (False, None) else (False, Some ad))"

definition viewWrites :: "(number \<Rightarrow> dec8) \<Rightarrow> ptp_ad \<Rightarrow> string \<Rightarrow> (coin_error, unit, coin_store) program" where
  "viewWrites dec8_of ad h s =
     (let newViewsCount = ad_views ad + 1; i = ad_id ad
      in if (i, h) \<in> set (cn_views s) \<or> getUser (ad_userId ad) (cn_wallet s) = None then throw CoinServerError s
         else ret () (addUsdc (ad_userId ad) (dec8_of PTP_EARNING_PER_VIEW_USD)
               ((updAd i (\<lambda>a. a\<lparr>ad_views := newViewsCount, ad_status := (if ad_targetViews ad \<le> newViewsCount then ''completed'' else ''active'')\<rparr>) s)
                \<lparr>cn_views := cn_views s @ [(i, h)], cn_earnings := cn_earnings s @ [(ad_userId ad, i, PTP_EARNING_PER_VIEW_USD)]\<rparr>)))"

definition trackView ::
  "(number \<Rightarrow> dec8) \<Rightarrow> (string \<Rightarrow> string) \<Rightarrow> int option \<Rightarrow> string \<Rightarrow> string \<Rightarrow> (coin_error, unit, coin_store) program" where
  "trackView dec8_of md5 adId viewerHash clientIp s =
     (case adId of None \<Rightarrow> throw CoinServerError s
      | Some i \<Rightarrow>
          (let h = finalHash md5 viewerHash clientIp
           in case viewPlan i h s of
                (finished, None) \<Rightarrow> ret () (if finished then updAd i (\<lambda>a. a\<lparr>ad_status := ''completed''\<rparr>) s else s)
              | (_, Some ad) \<Rightarrow> transaction (viewWrites dec8_of ad h) s))"

end
