(* ===== verification/CoinProofs.thy ===== *)
theory CoinProofs
  imports Coins
begin

section \<open>Proofs about swaps and advertisements\<close>

text \<open>
  The rounding of costs, laws of the column conversion for whole coins, and the tables of the
  advertisements as a machine: requests served one after the other.
\<close>

subsection \<open>Exact amounts\<close>

lemma rel_err_mult:
  fixes x y :: rat
  assumes "\<bar>x - a\<bar> \<le> e * a" and "\<bar>y - b\<bar> \<le> d * b" and "0 \<le> a" and "0 \<le> b" and "0 \<le> e" and "0 \<le> d"
  shows "\<bar>x * y - a * b\<bar> \<le> (e + d + e * d) * (a * b)"
proof -
  have "x * y - a * b = (x - a) * (y - b) + (x - a) * b + a * (y - b)" by (simp add: algebra_simps)
  then have "\<bar>x * y - a * b\<bar> \<le> \<bar>x - a\<bar> * \<bar>y - b\<bar> + \<bar>x - a\<bar> * b + a * \<bar>y - b\<bar>"
    using assms(3,4) abs_triangle_ineq [of "(x - a) * (y - b) + (x - a) * b" "a * (y - b)"]
      abs_triangle_ineq [of "(x - a) * (y - b)" "(x - a) * b"] by (simp add: abs_mult)
  also have "\<dots> \<le> (e * a) * (d * b) + (e * a) * b + a * (d * b)"
    using assms by (intro add_mono mult_mono mult_nonneg_nonneg) auto
  also have "\<dots> = (e + d + e * d) * (a * b)" by (simp add: algebra_simps)
  finally show ?thesis .
qed

lemma adCost_minus: "adCost (- x) = - adCost x"
  by (simp add: adCost_def fl_minus minus_divide_left [symmetric] minus_mult_left [symmetric])

text \<open>Three roundings: the cost of \<open>k\<close> views is \<open>k / 10000\<close> up to four parts in \<open>2 ^ 53\<close>.\<close>

lemma adCost_err:
  assumes "0 \<le> k"
  shows "\<bar>adCost k - k / 10000\<bar> \<le> 4 / 2 ^ 53 * (k / 10000)"
proof -
  define e :: rat where "e = 1 / 2 ^ 53"
  have e: "0 \<le> e" "e + e + e * e + e * (1 + (e + e + e * e)) \<le> 4 * e" by (simp_all add: e_def)
  let ?x = "fl (k / 1000)" and ?r = "PTP_RATE_USD_PER_1000"
  have "\<bar>?x - k / 1000\<bar> \<le> e * (k / 1000)" "\<bar>?r - 1 / 10\<bar> \<le> e * (1 / 10)"
    using fl_err [of "k / 1000"] fl_err [of "1 / 10"] assms by (simp_all add: e_def PTP_RATE_USD_PER_1000_def)
  from rel_err_mult [OF this] assms e have m: "\<bar>?x * ?r - k / 10000\<bar> \<le> (e + e + e * e) * (k / 10000)" by simp
  have p: "0 \<le> ?x * ?r" unfolding PTP_RATE_USD_PER_1000_def using assms by (intro mult_nonneg_nonneg fl_nonneg) auto
  have c: "\<bar>adCost k - ?x * ?r\<bar> \<le> e * (?x * ?r)" using fl_err [of "?x * ?r"] p by (simp add: adCost_def e_def)
  also have "\<dots> \<le> e * ((1 + (e + e + e * e)) * (k / 10000))"
  proof (rule mult_left_mono [OF _ e(1)])
    have "?x * ?r \<le> k / 10000 + (e + e + e * e) * (k / 10000)" using m by (simp only: abs_le_iff) linarith
    then show "?x * ?r \<le> (1 + (e + e + e * e)) * (k / 10000)" by (simp only: distrib_right mult_1)
  qed
  finally have "\<bar>adCost k - ?x * ?r\<bar> \<le> e * (1 + (e + e + e * e)) * (k / 10000)" by (simp only: mult.assoc)
  with m have "\<bar>adCost k - k / 10000\<bar> \<le> (e + e + e * e) * (k / 10000) + e * (1 + (e + e + e * e)) * (k / 10000)" by linarith
  also have "\<dots> = (e + e + e * e + e * (1 + (e + e + e * e))) * (k / 10000)" by (simp only: distrib_right)
  also have "\<dots> \<le> 4 * e * (k / 10000)" using assms by (intro mult_right_mono e(2)) auto
  finally show ?thesis by (simp add: e_def)
qed

text \<open>The two constants, as the doubles they are.\<close>

lemma rate_code [code]: "PTP_RATE_USD_PER_1000 = 3602879701896397 / 36028797018963968"
  by code_simp

lemma view_code [code]: "PTP_EARNING_PER_VIEW_USD = 7378697629483821 / 73786976294838206464"
  by code_simp

context decimal_codec
begin

lemma codec_coins: "\<bar>n\<bar> \<le> 10 ^ 7 \<Longrightarrow> dec8_of (of_int n) = n * 10 ^ 8"
proof (rule codec_exact)
  assume "\<bar>n\<bar> \<le> 10 ^ 7"
  then have "of_int \<bar>n\<bar> \<le> (of_int (10 ^ 7) :: rat)" by (simp only: of_int_le_iff)
  then show "\<bar>of_int n * 10 ^ 8 - of_int (n * 10 ^ 8)\<bar> + \<bar>of_int n\<bar> / 10 ^ 8 < (1 / 2 :: rat)" by simp
qed

lemma codec_adCost:
  assumes "0 \<le> k" and "k \<le> 2 ^ 31"
  shows "dec8_of (adCost (of_int k)) = 10000 * k" and "dec8_of (adCost (- of_int k)) = - 10000 * k"
proof -
  let ?x = "adCost (of_int k)" and ?q = "of_int k / 10000 :: rat"
  have k: "0 \<le> ?q" "?q \<le> 214749" using assms by (auto simp: of_int_le_iff [of _ "2147483648", simplified])
  have x: "\<bar>?x - ?q\<bar> \<le> 4 / 2 ^ 53 * ?q" using adCost_err [of "of_int k"] assms by simp
  also have "\<dots> \<le> 4 / 2 ^ 53 * 214749" by (intro mult_left_mono k) simp
  finally have "\<bar>?x - ?q\<bar> \<le> 1 / 10 ^ 10" by simp
  then have "\<bar>?x * 10 ^ 8 - of_int (10000 * k)\<bar> \<le> 1 / 100" "\<bar>?x\<bar> / 10 ^ 8 \<le> 1 / 100" using k by (auto simp: abs_if field_simps split: if_splits)
  then have b: "\<bar>?x * 10 ^ 8 - of_int (10000 * k)\<bar> + \<bar>?x\<bar> / 10 ^ 8 < 1 / 2" by simp
  then show "dec8_of ?x = 10000 * k" by (rule codec_exact)
  have "\<bar>(- ?x) * 10 ^ 8 - of_int (- 10000 * k)\<bar> = \<bar>?x * 10 ^ 8 - of_int (10000 * k)\<bar>" by (simp add: abs_if)
  with b show "dec8_of (adCost (- of_int k)) = - 10000 * k" unfolding adCost_minus by (intro codec_exact) simp
qed

lemma codec_view: "dec8_of PTP_EARNING_PER_VIEW_USD = 10000"
  by (rule codec_exact) (simp add: view_code)

end

subsection \<open>Effects\<close>

text \<open>What a request does to the advertisements, their views and the earnings.\<close>

definition same_ads :: "coin_store \<Rightarrow> coin_store \<Rightarrow> bool" where
  "same_ads s t \<longleftrightarrow> cn_ads t = cn_ads s \<and> cn_views t = cn_views s \<and> cn_earnings t = cn_earnings s \<and> cn_next t = cn_next s"

text \<open>
  An order takes its cost from the user, a counted view pays the advertiser of the advertisement, and
  nobody else's USDC moves.
\<close>

inductive ads_effect :: "(number \<Rightarrow> dec8) \<Rightarrow> coin_store \<Rightarrow> coin_store \<Rightarrow> bool" for dec8_of where
  Same: "same_ads s t \<Longrightarrow> cn_usdc t = cn_usdc s \<Longrightarrow> ads_effect dec8_of s t"
| NewAd: "cn_ads t = cn_ads s @ [a] \<Longrightarrow> cn_views t = cn_views s \<Longrightarrow> cn_earnings t = cn_earnings s \<Longrightarrow> cn_next t = cn_next s + 1
    \<Longrightarrow> ad_id a = cn_next s \<Longrightarrow> ad_views a = 0 \<Longrightarrow> ad_status a = ''active'' \<Longrightarrow> ad_paidUsd a = adCost (of_int (ad_targetViews a))
    \<Longrightarrow> - 2147483648 \<le> ad_targetViews a \<Longrightarrow> ad_targetViews a \<le> 2147483647
    \<Longrightarrow> cn_usdc t = (cn_usdc s)(ad_userId a := cn_usdc s (ad_userId a) - dec8_of (ad_paidUsd a)) \<Longrightarrow> ads_effect dec8_of s t"
| Finished: "a \<in> set (cn_ads s) \<Longrightarrow> ad_targetViews a \<le> ad_views a
    \<Longrightarrow> cn_ads t = update_where (\<lambda>r. ad_id r = ad_id a) (\<lambda>r. r\<lparr>ad_status := ''completed''\<rparr>) (cn_ads s)
    \<Longrightarrow> cn_views t = cn_views s \<Longrightarrow> cn_earnings t = cn_earnings s \<Longrightarrow> cn_next t = cn_next s
    \<Longrightarrow> cn_usdc t = cn_usdc s \<Longrightarrow> ads_effect dec8_of s t"
| Viewed: "a \<in> set (cn_ads s) \<Longrightarrow> ad_views a < ad_targetViews a \<Longrightarrow> (ad_id a, h) \<notin> set (cn_views s)
    \<Longrightarrow> cn_ads t = update_where (\<lambda>r. ad_id r = ad_id a) (\<lambda>r. r\<lparr>ad_views := ad_views a + 1, ad_status := st\<rparr>) (cn_ads s)
    \<Longrightarrow> cn_views t = cn_views s @ [(ad_id a, h)] \<Longrightarrow> cn_earnings t = cn_earnings s @ [(ad_userId a, ad_id a, PTP_EARNING_PER_VIEW_USD)]
    \<Longrightarrow> cn_next t = cn_next s
    \<Longrightarrow> cn_usdc t = (cn_usdc s)(ad_userId a := cn_usdc s (ad_userId a) + dec8_of PTP_EARNING_PER_VIEW_USD)
    \<Longrightarrow> ads_effect dec8_of s t"

lemma price_same: "getPolUsdPrice market now s = (r, s1) \<Longrightarrow> same_ads s s1"
  by (auto simp: getPolUsdPrice_def same_ads_def Let_def split: option.splits if_splits)

lemma executeSwap_same: "same_ads s (snd (executeSwap d market ok u c amt now s))"
proof -
  obtain r s1 where p: "getPolUsdPrice market now s = (r, s1)" by force
  from price_same [OF this] have "same_ads s s1" .
  then show ?thesis
    by (auto simp: same_ads_def executeSwap_def swapTx_def p Let_def throw_def ret_def onWallet_def addUsdc_def split: option.splits)
qed

lemma int32_ofD: "int32_of x = Some n \<Longrightarrow> x = of_int n \<and> - 2147483648 \<le> n \<and> n \<le> 2147483647"
  by (auto simp: int32_of_def of_int_le_iff [of "-2147483648", simplified, symmetric] of_int_le_iff [of _ "2147483647", simplified] split: if_splits)

lemma createAd_effect: "ads_effect d s (snd (createAd d u ti url v h s))"
proof (cases "\<exists>n t. (case v of None \<Rightarrow> Some 0 | Some w \<Rightarrow> w) = Some n \<and> createAdTx d u ti url n h s = (Inr (), t)")
  case True
  then obtain n t where v: "(case v of None \<Rightarrow> Some 0 | Some w \<Rightarrow> w) = Some n" and c: "createAdTx d u ti url n h s = (Inr (), t)" by blast
  from c obtain m where m: "int32_of n = Some m"
    by (auto simp: createAdTx_def Let_def split: if_splits option.splits)
  from int32_ofD [OF m] c m have "ads_effect d s t"
    by (intro NewAd) (auto simp: createAdTx_def Let_def addUsdc_def split: if_splits)
  with v c show ?thesis by (simp add: createAd_def transaction_def)
next
  case False
  then have "snd (createAd d u ti url v h s) = s"
    by (auto simp: createAd_def transaction_def throw_def split: option.splits prod.splits sum.splits)
  then show ?thesis by (simp add: Same same_ads_def)
qed

lemma trackView_effect: "ads_effect d s (snd (trackView d md5 i vh ip s))"
proof (cases i)
  case None
  then show ?thesis by (simp add: trackView_def throw_def Same same_ads_def)
next
  case (Some k)
  let ?h = "finalHash md5 vh ip"
  have same: "ads_effect d s s" by (simp add: Same same_ads_def)
  show ?thesis
  proof (cases "findAd k s")
    case None
    then show ?thesis using same by (simp add: Some trackView_def viewPlan_def Let_def ret_def)
  next
    case (Some ad)
    then have ad: "ad \<in> set (cn_ads s)" "ad_id ad = k" by (auto simp: findAd_def dest: find_first_SomeD)
    consider (fin) "ad_status ad = ''active''" "ad_targetViews ad \<le> ad_views ad" | (no) "ad_status ad \<noteq> ''active''"
      | (seen) "(k, ?h) \<in> set (cn_views s)" "ad_views ad < ad_targetViews ad" "ad_status ad = ''active''"
      | (ok) "(k, ?h) \<notin> set (cn_views s)" "ad_views ad < ad_targetViews ad" "ad_status ad = ''active''" by linarith
    then show ?thesis
    proof cases
      case fin
      then have "snd (trackView d md5 i vh ip s) = updAd k (\<lambda>a. a\<lparr>ad_status := ''completed''\<rparr>) s"
        using \<open>i = Some k\<close> Some by (simp add: trackView_def viewPlan_def Let_def ret_def)
      then show ?thesis using fin ad by (intro Finished [of ad]) (simp_all add: updAd_def)
    next
      case ok
      then have p: "trackView d md5 i vh ip s = transaction (viewWrites d ad ?h) s"
        using \<open>i = Some k\<close> Some by (simp add: trackView_def viewPlan_def Let_def)
      show ?thesis
      proof (cases "getUser (ad_userId ad) (cn_wallet s)")
        case (Some y)
        with ok ad show ?thesis unfolding p
          by (intro Viewed [where a = ad and h = ?h and st = "if ad_targetViews ad \<le> ad_views ad + 1 then ''completed'' else ''active''"])
            (simp_all add: transaction_def viewWrites_def Let_def ret_def addUsdc_def updAd_def)
      qed (use same in \<open>simp add: p transaction_def viewWrites_def throw_def Let_def\<close>)
    qed (use same Some \<open>i = Some k\<close> in \<open>simp_all add: trackView_def viewPlan_def Let_def ret_def\<close>)
  qed
qed

subsection \<open>The advertisements as a machine\<close>

text \<open>
  The state carries an account beside the tables: \<open>net v\<close> is the USDC user \<open>v\<close> began with and what changed
  it since outside advertisements, by swaps or in another part of the program (\<open>Elsewhere\<close>: the purchase of
  an event machine pays with USDC, a registration starts with none).
\<close>

type_synonym coin_state = "(int \<Rightarrow> dec8) \<times> coin_store"

inductive coin_step :: "(number \<Rightarrow> dec8) \<Rightarrow> (string \<Rightarrow> string) \<Rightarrow> coin_state \<Rightarrow> coin_state \<Rightarrow> bool" for dec8_of md5 where
  Swap: "executeSwap dec8_of market ok u c amt now s = (r, t)
    \<Longrightarrow> coin_step dec8_of md5 (net, s) (net(u := net u + (cn_usdc t u - cn_usdc s u)), t)"
| Advertise: "coin_step dec8_of md5 (net, s) (net, snd (createAd dec8_of u ti url v h s))"
| View: "coin_step dec8_of md5 (net, s) (net, snd (trackView dec8_of md5 i vh ip s))"
| Elsewhere: "same_ads s t \<Longrightarrow> coin_step dec8_of md5 (net, s) (\<lambda>v. net v + (cn_usdc t v - cn_usdc s v), t)"

lemma executeSwap_usdc:
  assumes "executeSwap d market ok u c amt now s = (r, t)" and "v \<noteq> u"
  shows "cn_usdc t v = cn_usdc s v"
proof -
  obtain p s1 where p: "getPolUsdPrice market now s = (p, s1)" by force
  then have "cn_usdc s1 = cn_usdc s" by (auto simp: getPolUsdPrice_def Let_def split: option.splits if_splits)
  moreover have "t = snd (executeSwap d market ok u c amt now s)" using assms(1) by simp
  ultimately show ?thesis using assms(2)
    by (auto simp: executeSwap_def swapTx_def p Let_def throw_def ret_def onWallet_def addUsdc_def split: option.splits)
qed

definition viewsOf :: "int \<Rightarrow> coin_store \<Rightarrow> nat" where
  "viewsOf i s = count_where (\<lambda>v. fst v = i) (cn_views s)"

definition earningsOf :: "ptp_ad \<Rightarrow> coin_store \<Rightarrow> nat" where
  "earningsOf a s = count_where (\<lambda>e. e = (ad_userId a, ad_id a, PTP_EARNING_PER_VIEW_USD)) (cn_earnings s)"

definition ad_ok :: "coin_store \<Rightarrow> ptp_ad \<Rightarrow> bool" where
  "ad_ok s a \<longleftrightarrow> ad_id a < cn_next s \<and> ad_views a = int (viewsOf (ad_id a) s) \<and> earningsOf a s = viewsOf (ad_id a) s
     \<and> ad_views a \<le> max 0 (ad_targetViews a) \<and> ad_paidUsd a = adCost (of_int (ad_targetViews a))
     \<and> - 2147483648 \<le> ad_targetViews a \<and> ad_targetViews a \<le> 2147483647"

text \<open>What a user spent on advertisements and was not paid back yet.\<close>

definition owed :: "(number \<Rightarrow> dec8) \<Rightarrow> coin_store \<Rightarrow> ptp_ad \<Rightarrow> int" where
  "owed dec8_of s a = dec8_of (ad_paidUsd a) - int (viewsOf (ad_id a) s) * dec8_of PTP_EARNING_PER_VIEW_USD"

definition balanced :: "(number \<Rightarrow> dec8) \<Rightarrow> coin_state \<Rightarrow> bool" where
  "balanced dec8_of x \<longleftrightarrow> (\<forall>v. cn_usdc (snd x) v
     = fst x v - sum_where (\<lambda>a. ad_userId a = v) (owed dec8_of (snd x)) (cn_ads (snd x)))"

definition ads_ok :: "coin_store \<Rightarrow> bool" where
  "ads_ok s \<longleftrightarrow> unique_key ad_id (cn_ads s) \<and> distinct (cn_views s) \<and> (\<forall>a \<in> set (cn_ads s). ad_ok s a)
     \<and> (\<forall>v \<in> set (cn_views s). fst v < cn_next s) \<and> (\<forall>e \<in> set (cn_earnings s). fst (snd e) < cn_next s)"

lemma ads_same_ok:
  assumes "same_ads s t" and "ads_ok s"
  shows "ads_ok t"
proof -
  have "ad_ok t = ad_ok s" using assms(1) by (simp add: same_ads_def fun_eq_iff ad_ok_def viewsOf_def earningsOf_def)
  with assms show ?thesis by (simp add: same_ads_def ads_ok_def)
qed

lemma ads_effect_ok:
  assumes "ads_effect d s t" and "ads_ok s"
  shows "ads_ok t"
  using assms(1)
proof cases
  case Same
  with ads_same_ok assms(2) show ?thesis by blast
next
  case (NewAd a)
  then have "viewsOf (ad_id a) s = 0" "earningsOf a s = 0" using assms(2)
    by (force simp: ads_ok_def viewsOf_def earningsOf_def count_where_0_iff)+
  with NewAd assms(2) show ?thesis by (force simp: ads_ok_def ad_ok_def viewsOf_def earningsOf_def)
next
  case (Finished a)
  with assms(2) show ?thesis by (auto simp: ads_ok_def ad_ok_def viewsOf_def earningsOf_def set_update_where)
next
  case (Viewed a h st)
  have ok: "unique_key ad_id (cn_ads s)" "distinct (cn_views s)" "\<And>r. r \<in> set (cn_ads s) \<Longrightarrow> ad_ok s r"
    "\<forall>v \<in> set (cn_views s). fst v < cn_next s" "\<forall>e \<in> set (cn_earnings s). fst (snd e) < cn_next s" using assms(2) by (auto simp: ads_ok_def)
  let ?f = "\<lambda>r. r\<lparr>ad_views := ad_views a + 1, ad_status := st\<rparr>"
  have a: "ad_ok s a" and i: "ad_id a < cn_next s" using ok(3) [OF Viewed(1)] by (simp_all add: ad_ok_def)
  have "ad_ok t b" if "b \<in> set (cn_ads t)" for b
  proof -
    have "b \<in> set (cn_ads s) \<and> ad_id b \<noteq> ad_id a \<or> b = ?f a"
      using that unique_key_eqD [OF ok(1) _ Viewed(1)] by (auto simp: Viewed(4) set_update_where)
    then show ?thesis
    proof
      assume b: "b \<in> set (cn_ads s) \<and> ad_id b \<noteq> ad_id a"
      then have "viewsOf (ad_id b) t = viewsOf (ad_id b) s" "earningsOf b t = earningsOf b s"
        by (simp_all add: viewsOf_def earningsOf_def Viewed(5,6))
      moreover have "ad_ok s b" using ok(3) b by blast
      ultimately show ?thesis unfolding ad_ok_def Viewed(7) by metis
    next
      assume b: "b = ?f a"
      then have "viewsOf (ad_id b) t = viewsOf (ad_id a) s + 1" "earningsOf b t = earningsOf a s + 1"
        by (simp_all add: viewsOf_def earningsOf_def Viewed(5,6))
      with a b Viewed(2,7) show ?thesis by (simp add: ad_ok_def)
    qed
  qed
  moreover have "unique_key ad_id (cn_ads t)" using ok(1) by (simp add: Viewed(4))
  ultimately show ?thesis using ok(2,4,5) i Viewed(3) by (simp add: ads_ok_def Viewed(5,6,7))
qed

subsection \<open>The balances\<close>

lemma sum_where_bump:
  assumes "unique_key k rows" and "a \<in> set rows" and "g' a = g a + c" and "\<And>b. b \<in> set rows \<Longrightarrow> k b \<noteq> k a \<Longrightarrow> g' b = g b"
  shows "sum_where P g' rows = sum_where P g rows + (if P a then c else 0)"
  using assms
proof (induction rows)
  case (Cons r rows)
  show ?case
  proof (cases "r = a")
    case True
    with Cons.prems have "k b \<noteq> k a" if "b \<in> set rows" for b
      using that by (auto simp: unique_key_def) (metis imageI)
    with Cons.prems(4) have "sum_where P g' rows = sum_where P g rows"
      unfolding sum_where_def by (intro arg_cong [where f = sum_list] map_cong) auto
    with True Cons.prems(3) show ?thesis by simp
  next
    case False
    with Cons.prems have "k r \<noteq> k a" "a \<in> set rows" by (auto simp: unique_key_def)
    with Cons show ?thesis by (simp add: unique_key_def)
  qed
qed simp

lemma balanced_same: "same_ads s t \<Longrightarrow> balanced d (net, s) \<Longrightarrow> balanced d (\<lambda>v. net v + (cn_usdc t v - cn_usdc s v), t)"
  by (simp add: balanced_def same_ads_def owed_def [abs_def] viewsOf_def)

lemma ads_effect_balanced:
  assumes "ads_effect d s t" and "ads_ok s" and "balanced d (net, s)"
  shows "balanced d (net, t)"
  using assms(1)
proof cases
  case Same
  then show ?thesis using balanced_same [of s t d net] assms(3) by simp
next
  case (NewAd a)
  have "viewsOf (ad_id a) s = 0" using assms(2) NewAd(5)
    by (force simp: ads_ok_def viewsOf_def count_where_0_iff)
  moreover have "owed d t = owed d s" by (simp add: fun_eq_iff owed_def viewsOf_def NewAd(2))
  ultimately show ?thesis using assms(3) by (auto simp: balanced_def NewAd(1,11) owed_def)
next
  case (Finished a)
  have "owed d t = owed d s" by (simp add: fun_eq_iff owed_def viewsOf_def Finished(4))
  moreover have "sum_where P (owed d s) (update_where Q (\<lambda>r. r\<lparr>ad_status := x\<rparr>) rows) = sum_where P (owed d s) rows"
    if "\<And>r. P (r\<lparr>ad_status := x\<rparr>) = P r" for P Q x rows
    by (induction rows) (auto simp: that owed_def)
  ultimately show ?thesis using assms(3) by (simp add: balanced_def Finished(3,7))
next
  case (Viewed a h st)
  have u: "unique_key ad_id (cn_ads s)" using assms(2) by (simp add: ads_ok_def)
  let ?e = "d PTP_EARNING_PER_VIEW_USD"
  have "sum_where P (owed d t) (cn_ads t) = sum_where P (owed d s) (cn_ads s) - (if P a then ?e else 0)"
    if "\<And>r n. P (r\<lparr>ad_views := n, ad_status := st\<rparr>) = P r" for P
  proof -
    have "sum_where P (owed d t) (update_where Q (\<lambda>r. r\<lparr>ad_views := n, ad_status := st\<rparr>) rows) = sum_where P (owed d t) rows"
      for Q rows n by (induction rows) (auto simp: that owed_def)
    moreover have "sum_where P (owed d t) (cn_ads s) = sum_where P (owed d s) (cn_ads s) + (if P a then - ?e else 0)"
      by (rule sum_where_bump [OF u Viewed(1)]) (auto simp: owed_def viewsOf_def Viewed(5) algebra_simps)
    ultimately show ?thesis by (simp add: Viewed(4))
  qed
  then show ?thesis using assms(3) by (auto simp: balanced_def Viewed(8))
qed

definition coin_init :: "coin_state \<Rightarrow> bool" where
  "coin_init x \<longleftrightarrow> cn_ads (snd x) = [] \<and> cn_views (snd x) = [] \<and> cn_earnings (snd x) = [] \<and> fst x = cn_usdc (snd x)"

definition coin_ok :: "(number \<Rightarrow> dec8) \<Rightarrow> coin_state \<Rightarrow> bool" where
  "coin_ok dec8_of x \<longleftrightarrow> ads_ok (snd x) \<and> balanced dec8_of x"

lemma coin_step_ok:
  assumes "coin_step d md5 x y" and "coin_ok d x"
  shows "coin_ok d y"
  using assms
proof cases
  case (Swap market ok u c amt now s r t net)
  have same: "same_ads s t" using executeSwap_same [of s d market ok u c amt now] Swap(3) by simp
  have "net(u := net u + (cn_usdc t u - cn_usdc s u)) = (\<lambda>v. net v + (cn_usdc t v - cn_usdc s v))"
    using executeSwap_usdc [OF Swap(3)] by (auto simp: fun_eq_iff)
  then show ?thesis
    using Swap(1,2) assms(2) ads_same_ok [OF same] balanced_same [OF same] by (simp add: coin_ok_def)
next
  case (Advertise net s u ti url v h)
  then show ?thesis using assms(2) ads_effect_ok [OF createAd_effect] ads_effect_balanced [OF createAd_effect]
    by (simp add: coin_ok_def)
next
  case (View net s i vh ip)
  then show ?thesis using assms(2) ads_effect_ok [OF trackView_effect] ads_effect_balanced [OF trackView_effect]
    by (simp add: coin_ok_def)
next
  case (Elsewhere s t net)
  then show ?thesis using assms(2) ads_same_ok balanced_same by (simp add: coin_ok_def)
qed

interpretation ptp: machine coin_init "coin_step dec8_of md5" "coin_ok dec8_of" for dec8_of md5
proof unfold_locales
  show "coin_ok dec8_of x" if "coin_init x" for x
    using that by (simp add: coin_init_def coin_ok_def ads_ok_def balanced_def)
  show "coin_ok dec8_of y" if "coin_ok dec8_of x" "coin_step dec8_of md5 x y" for x y
    using coin_step_ok [OF that(2,1)] .
qed

end
