(* ===== verification/CoinClaims.thy ===== *)
theory CoinClaims
  imports CoinProofs
begin

section \<open>Properties of swaps and advertisements\<close>

text \<open>Two users; the second has one USDC.\<close>

definition coin_user :: "int \<Rightarrow> user" where
  "coin_user i = \<lparr>usr_id = i, usr_name = ''u'', usr_username = None, usr_isBanned = False, usr_polBalance = 0, usr_blkBalance = 0,
     usr_blkLocked = 0, usr_walletAddress = None, usr_miningPayoutMode = ''pol'', usr_refCode = None, usr_referredBy = None\<rparr>"

definition coin_demo :: coin_store where
  "coin_demo = \<lparr>cn_wallet = \<lparr>st_users = [coin_user 1, coin_user 2], st_games = [], st_gamePowers = [], st_ytPowers = [], st_gpuPowers = [],
     st_v2Powers = [], st_miners = [], st_eventMiners = [], st_owned = [], st_inventory = [], st_userMiners = [], st_audit = [],
     st_calls = [], st_next = 100, wl_txs = [], wl_rewardLogs = [], wl_notifications = [], wl_payouts = []\<rparr>,
     cn_usdc = (\<lambda>_. 0)(2 := 100000000), cn_price = None, cn_ads = [], cn_views = [], cn_earnings = [], cn_next = 1\<rparr>"

definition receiver :: string where
  "receiver = ''0x0123456789abcdefABCDEF0123456789abcdef01''"

lemma coin_demo_users: "getUser 1 (cn_wallet coin_demo) = Some (coin_user 1)"
  by (simp add: coin_demo_def getUser_def coin_user_def)

subsection \<open>Advertisements\<close>

text \<open>
  C36: nothing checks the sign of the views a user orders.  An order of \<open>- k\<close> views is accepted from any
  user whose USDC balance is not negative, costs minus \<open>k\<close> times 0.0001, and so adds 0.0001 USDC per view
  that will never be shown.
\<close>

lemma negative_ad_mints:
  assumes "decimal_codec dec8_of" and "getUser u (cn_wallet s) = Some y" and "0 \<le> cn_usdc s u" and "0 < k" and "k \<le> 2147483648"
    and "find_first (\<lambda>a. ad_hash a = h) (cn_ads s) = None"
  shows "\<exists>t. createAd dec8_of u title url (Some (Some (- of_int k))) h s = (Inr (), t) \<and> cn_usdc t u = cn_usdc s u + 10000 * k"
proof -
  have "0 \<le> adCost (of_int k)" using assms(4) by (auto simp: adCost_def PTP_RATE_USD_PER_1000_def intro!: fl_nonneg mult_nonneg_nonneg)
  moreover have "0 \<le> toNumber (cn_usdc s u)" using toNumber_mono [OF assms(3)] by simp
  ultimately have c: "\<not> toNumber (cn_usdc s u) < adCost (- of_int k)" by (simp add: adCost_minus)
  have "int32_of (- of_int k) = Some (- k)"
    using assms(4,5) by (simp add: int32_of_def of_int_le_iff [of _ "2147483648", simplified])
  then show ?thesis using assms c decimal_codec.codec_adCost(2) [OF assms(1), of k]
    by (simp add: createAd_def transaction_def createAdTx_def Let_def ret_def addUsdc_def)
qed

lemma negative_ad_mints_witness:
  "\<exists>t. createAd round8_away 1 ''t'' ''u'' (Some (Some (- 10000000))) ''h'' coin_demo = (Inr (), t) \<and> cn_usdc t 1 = 1000 * 10 ^ 8"
  using negative_ad_mints [OF pg.decimal_codec_axioms coin_demo_users, of 10000000 "''h''" "''t''" "''u''"] by (simp add: coin_demo_def)

text \<open>The column conversion takes the cost of an order to 0.0001 USDC per view ordered, whatever its sign.\<close>

lemma paid_per_view:
  assumes "decimal_codec dec8_of" and "ad_ok s a"
  shows "dec8_of (ad_paidUsd a) = 10000 * ad_targetViews a"
proof (cases "0 \<le> ad_targetViews a")
  case True
  with assms decimal_codec.codec_adCost(1) [OF assms(1) True] show ?thesis by (simp add: ad_ok_def)
next
  case False
  with assms decimal_codec.codec_adCost(2) [OF assms(1), of "- ad_targetViews a"] show ?thesis by (simp add: ad_ok_def)
qed

text \<open>
  C37: served one after the other, the requests count every view of an advertisement once and never more
  than were ordered, and write one earning of 0.0001 USDC for each; an order costs 0.0001 USDC per view
  ordered.  The money follows: the USDC balance of every user is what he began with and moved elsewhere
  (swaps and purchases), less 0.0001 USDC (10000 units of the column) for each view that was ordered from
  his advertisements and not shown yet.  So an advertisement shown in full has paid back to its own
  advertiser exactly what it cost.
\<close>

lemma ad_pays_itself_back:
  assumes "decimal_codec dec8_of" and "reaches coin_init (coin_step dec8_of md5) (net, s)" and "a \<in> set (cn_ads s)"
  shows "ad_views a = int (viewsOf (ad_id a) s) \<and> ad_views a \<le> max 0 (ad_targetViews a) \<and> earningsOf a s = viewsOf (ad_id a) s
    \<and> distinct (cn_views s) \<and> dec8_of (ad_paidUsd a) = ad_targetViews a * dec8_of PTP_EARNING_PER_VIEW_USD
    \<and> cn_usdc s v = net v - 10000 * sum_where (\<lambda>b. ad_userId b = v)
        (\<lambda>b. ad_targetViews b - int (viewsOf (ad_id b) s)) (cn_ads s)"
proof -
  have "ads_ok s" and m: "balanced dec8_of (net, s)" using ptp.reaches_inv [OF assms(2)] by (simp_all add: coin_ok_def)
  then have ok: "\<And>b. b \<in> set (cn_ads s) \<Longrightarrow> ad_ok s b" and d: "distinct (cn_views s)" by (auto simp: ads_ok_def)
  note p = paid_per_view [OF assms(1) ok] and e = decimal_codec.codec_view [OF assms(1)]
  have "sum_where P (owed dec8_of s) rows = 10000 * sum_where P (\<lambda>b. ad_targetViews b - int (viewsOf (ad_id b) s)) rows"
    if "set rows \<subseteq> set (cn_ads s)" for P rows
    using that by (induction rows) (auto simp: owed_def p e algebra_simps)
  then have "cn_usdc s v = net v - 10000 * sum_where (\<lambda>b. ad_userId b = v)
      (\<lambda>b. ad_targetViews b - int (viewsOf (ad_id b) s)) (cn_ads s)"
    using m by (simp add: balanced_def)
  moreover have "ad_ok s a" by (rule ok [OF assms(3)])
  ultimately show ?thesis using d p [OF assms(3)] e unfolding ad_ok_def by simp
qed

text \<open>User 2 orders two views; three viewers come.\<close>

definition ad_ordered :: coin_store where
  "ad_ordered = snd (createAd round8_away 2 ''t'' ''u'' (Some (Some 2)) ''h'' coin_demo)"

definition ad_shown :: coin_store where
  "ad_shown = foldl (\<lambda>s ip. snd (trackView round8_away id (Some 1) ''viewer'' ip s)) ad_ordered [''10.0.0.1'', ''10.0.0.2'', ''10.0.0.3'']"

lemma ad_shown_reached: "reaches coin_init (coin_step round8_away id) (cn_usdc coin_demo, ad_shown)"
proof -
  have "reaches coin_init (coin_step round8_away id) (cn_usdc coin_demo, coin_demo)"
    by (rule reaches.start) (simp add: coin_init_def coin_demo_def)
  then have "reaches coin_init (coin_step round8_away id) (cn_usdc coin_demo, ad_ordered)"
    unfolding ad_ordered_def by (rule reaches.move) (rule coin_step.Advertise)
  then have "reaches coin_init (coin_step round8_away id) (cn_usdc coin_demo,
      foldl (\<lambda>s ip. snd (trackView round8_away id (Some 1) ''viewer'' ip s)) ad_ordered ips)" for ips
    by (induction ips rule: rev_induct) (auto intro: reaches.move coin_step.View)
  then show ?thesis unfolding ad_shown_def .
qed

lemma ad_shown_eval:
  "map (\<lambda>a. (ad_id a, ad_targetViews a, ad_status a, ad_views a)) (cn_ads ad_shown) = [(1, 2, ''completed'', 2)]
   \<and> cn_usdc ad_ordered 2 = 99980000"
  by code_simp

lemma ad_pays_itself_back_witness:
  "\<exists>a. cn_ads ad_shown = [a] \<and> viewsOf 1 ad_shown = 2 \<and> earningsOf a ad_shown = 2 \<and> round8_away (ad_paidUsd a) = 20000
    \<and> cn_usdc ad_ordered 2 = 99980000 \<and> cn_usdc ad_shown 2 = 100000000"
proof -
  obtain a where a: "cn_ads ad_shown = [a]" "ad_id a = 1" "ad_targetViews a = 2" "ad_views a = 2"
    using ad_shown_eval by (auto simp: map_eq_Cons_conv)
  then have m: "a \<in> set (cn_ads ad_shown)" by simp
  have n: "cn_usdc coin_demo 2 = 100000000" by (simp add: coin_demo_def)
  from ad_pays_itself_back [OF pg.decimal_codec_axioms ad_shown_reached m, of 2] a n
  show ?thesis using ad_shown_eval by (simp add: pg.codec_view)
qed

text \<open>Two views of different viewers that both read the advertisement before either commits are paid twice and counted once.\<close>

lemma overlapping_views_counted_once:
  assumes "viewPlan i h s = (False, Some ad)" and "viewPlan i g s = (False, Some ad)" and "h \<noteq> g" and "getUser (ad_userId ad) (cn_wallet s) = Some y"
  shows "\<exists>t u. viewWrites d ad h s = (Inr (), t) \<and> viewWrites d ad g t = (Inr (), u) \<and> viewsOf i u = viewsOf i s + 2
    \<and> map_option ad_views (findAd i u) = Some (ad_views ad + 1) \<and> cn_usdc u (ad_userId ad) = cn_usdc s (ad_userId ad) + 2 * d PTP_EARNING_PER_VIEW_USD"
proof -
  have p: "findAd i s = Some ad" "(i, h) \<notin> set (cn_views s)" "(i, g) \<notin> set (cn_views s)"
    using assms(1,2) by (auto simp: viewPlan_def split: option.splits if_splits)
  then have ad: "ad_id ad = i" by (auto simp: findAd_def dest: find_first_SomeD)
  show ?thesis using p assms(3,4) ad
    by (simp add: viewWrites_def Let_def ret_def addUsdc_def viewsOf_def findAd_def updAd_def find_update_key [of ad_id])
qed

subsection \<open>Swaps\<close>

text \<open>
  C38: a swap compares its amount with the balance and nothing else.  A user without any coins swaps
  minus \<open>n\<close> POL, whatever the price: the POL balance grows by \<open>n\<close>, the USDC balance goes below zero, and the
  \<open>n\<close> POL are accepted by the next request for a withdrawal.
\<close>

lemma negative_swap_withdrawn:
  assumes "decimal_codec dec8_of" and "getUser u (cn_wallet s) = Some y" and "0 \<le> usr_polBalance y" and "10 \<le> n" and "n \<le> 10 ^ 7"
    and "\<not> hasPendingWithdrawal u (cn_wallet s)" and "isHexString 40 addr"
  shows "\<exists>r t x w. executeSwap dec8_of market True u ''POL'' (Some (- of_int n)) now s = (Inr r, t)
    \<and> requestWithdrawal dec8_of u (Some (of_int n)) addr now (cn_wallet t) = (Inr x, w) \<and> wt_amount x = n * 10 ^ 8
    \<and> polOf u w = Some (usr_polBalance y)"
proof -
  obtain r s1 where p: "getPolUsdPrice market now s = (r, s1)" by force
  then have w1: "cn_wallet s1 = cn_wallet s" by (auto simp: getPolUsdPrice_def Let_def split: option.splits if_splits)
  have n: "dec8_of (of_int n) = n * 10 ^ 8" "dec8_of (- of_int n) = - (n * 10 ^ 8)"
    using decimal_codec.codec_coins [OF assms(1), of n] decimal_codec.codec_coins [OF assms(1), of "- n"] assms(4,5) by simp_all
  have b: "0 \<le> toNumber (usr_polBalance y)" using toNumber_mono [OF assms(3)] by simp
  then have ok: "\<not> toNumber (usr_polBalance y) < - of_int n" using assms(4) by (simp add: order_less_le_trans)
  let ?w = "logAudit \<lparr>al_userId = u, al_action = ''swap'', al_details = [(''fromAsset'', ''POL'')]\<rparr>
      (logCall (BalanceDelta u (of_int n)) (addPol u (n * 10 ^ 8) (cn_wallet s)))"
  obtain out t where e: "executeSwap dec8_of market True u ''POL'' (Some (- of_int n)) now s = (Inr (r, out), t)"
    and t: "cn_wallet t = ?w"
    using assms(2) ok n w1 by (simp add: executeSwap_def p swapTx_def ret_def Let_def onWallet_def addUsdc_def)
  have "getUser u (cn_wallet t) = getUser u (addPol u (n * 10 ^ 8) (cn_wallet s))" by (simp add: t getUser_def logAudit_def logCall_def)
  then have g: "getUser u (cn_wallet t) = Some (y\<lparr>usr_polBalance := usr_polBalance y + n * 10 ^ 8\<rparr>)"
    using assms(2) by (simp add: addPol_def getUser_updUser)
  have "wl_txs (cn_wallet t) = wl_txs (cn_wallet s)" by (simp add: t logAudit_def logCall_def addPol_def updUser_def)
  then have h: "\<not> hasPendingWithdrawal u (cn_wallet t)" using assms(6) by (simp add: hasPendingWithdrawal_def)
  have "\<bar>n\<bar> < 2 ^ 53" using assms(4,5) by simp
  then have "toNumber (n * 10 ^ 8) = of_int n" by (simp add: toNumber_def fl_of_int)
  moreover have "n * 10 ^ 8 \<le> usr_polBalance y + n * 10 ^ 8" using assms(3) by simp
  ultimately have a: "\<not> toNumber (usr_polBalance y + n * 10 ^ 8) < of_int n" using toNumber_mono by (metis linorder_not_less)
  obtain x w where c: "createWithdrawal dec8_of u (of_int n) addr now (cn_wallet t) = (Inr x, w)" "wt_amount x = n * 10 ^ 8"
    and w: "polOf u w = polOf u (addPol u (- (n * 10 ^ 8)) (cn_wallet t))"
    using g h a n by (simp add: createWithdrawal_def transaction_def createWithdrawalTx_def Let_def ret_def newTx_def polOf_def getUser_def logCall_def addTx_def)
  have "requestWithdrawal dec8_of u (Some (of_int n)) addr now (cn_wallet t) = (Inr x, w)"
    using c(1) assms(4,7) by (simp add: requestWithdrawal_def WITHDRAW_MIN_POL_def)
  moreover have "polOf u w = Some (usr_polBalance y)" using w g by (simp add: polOf_def [of u "cn_wallet t"])
  ultimately show ?thesis using e c(2) by blast
qed

text \<open>User 1 has nothing, swaps minus 1000 POL while the price service does not answer, and asks for the 1000 POL.\<close>

lemma negative_swap_withdrawn_witness:
  "\<exists>r t x w. executeSwap round8_away None True 1 ''POL'' (Some (- 1000)) 7 coin_demo = (Inr r, t)
    \<and> requestWithdrawal round8_away 1 (Some 1000) receiver 7 (cn_wallet t) = (Inr x, w) \<and> wt_amount x = 1000 * 10 ^ 8 \<and> polOf 1 w = Some 0"
proof -
  have "\<not> hasPendingWithdrawal 1 (cn_wallet coin_demo)" by (simp add: coin_demo_def hasPendingWithdrawal_def)
  moreover have "isHexString 40 receiver" by code_simp
  ultimately show ?thesis
    using negative_swap_withdrawn [OF pg.decimal_codec_axioms coin_demo_users, of 1000 receiver None 7] by (simp add: coin_user_def)
qed

text \<open>
  When the audit row can not be written, the swap is answered as failed and the tables are rolled back,
  but the engine keeps the change of the balance it was told.
\<close>

lemma failed_audit_keeps_delta:
  assumes "getUser u (cn_wallet s) = Some y" and "x \<le> toNumber (usr_polBalance y)"
  shows "\<exists>t. executeSwap d market False u ''POL'' (Some x) now s = (Inl CoinServerError, t) \<and> st_users (cn_wallet t) = st_users (cn_wallet s)
    \<and> cn_usdc t = cn_usdc s \<and> st_calls (cn_wallet t) = st_calls (cn_wallet s) @ [BalanceDelta u (- x)]"
proof -
  obtain r s1 where p: "getPolUsdPrice market now s = (r, s1)" by force
  then have "cn_wallet s1 = cn_wallet s \<and> cn_usdc s1 = cn_usdc s"
    by (auto simp: getPolUsdPrice_def Let_def split: option.splits if_splits)
  then show ?thesis using assms
    by (simp add: executeSwap_def p swapTx_def ret_def throw_def Let_def onWallet_def addUsdc_def logCall_def addPol_def updUser_def linorder_not_less)
qed

end
