(* ===== verification/BlkEconomy.thy ===== *)
theory BlkEconomy
  imports MiniPass CronRunner
begin

section \<open>The BLK economy\<close>

text \<open>
  \<open>server/models/blkEconomyModel.js\<close> (settings), \<open>models/blkWalletModel.js\<close> (conversion of POL) and
  \<open>services/blkRewardDistributionService.js\<close> with \<open>cron/blkRewardCycleCron.js\<close>: every interval a reward is
  shared among the active users who chose BLK, in proportion to their hash rates.  The boost has 4 decimals.
\<close>

record blk_config =
  bc_polPerBlk :: dec8
  bc_convertFeeBps :: int
  bc_minConvertPol :: dec8
  bc_dailyConvertLimitBlk :: "dec8 option"
  bc_convertCooldownSec :: int
  bc_cycleReward :: dec8
  bc_cycleIntervalSec :: int
  bc_cycleActivitySec :: int
  bc_cycleMinHashrate :: dec8
  bc_cyclePaused :: bool
  bc_cycleBoost :: int

record blk_cycle =
  by_id :: int
  by_windowStart :: millis
  by_totalHashrate :: dec8
  by_totalReward :: dec8
  by_distributed :: dec8
  by_minerCount :: nat

record blk_log =
  bl_id :: int
  bl_cycleId :: int
  bl_userId :: int
  bl_hashrate :: dec8
  bl_shareBps :: int
  bl_amount :: dec8

record blk_convert =
  cv_userId :: int
  cv_amount :: dec8
  cv_fee :: dec8
  cv_createdAt :: millis

text \<open>\<open>bk_seen\<close>: the columns \<open>last_heartbeat_at\<close> and \<open>last_login_at\<close> of a user.\<close>

record blk_store =
  bk_db :: quest_store
  bk_config :: "blk_config option"
  bk_cycles :: "blk_cycle list"
  bk_logs :: "blk_log list"
  bk_converts :: "blk_convert list"
  bk_seen :: "int \<Rightarrow> millis option \<times> millis option"
  bk_next :: int

record blk_env =
  be_dec8_of :: "number \<Rightarrow> dec8"
  be_dec4_of :: "number \<Rightarrow> int"
  be_zone :: "millis \<Rightarrow> int"
  be_v2Ok :: bool
  be_keeps :: bool

subsection \<open>Settings\<close>

definition DEFAULT_ROW :: blk_config where
  "DEFAULT_ROW = \<lparr>bc_polPerBlk = 100 * 10 ^ 8, bc_convertFeeBps = 500, bc_minConvertPol = 50 * 10 ^ 8, bc_dailyConvertLimitBlk = None,
     bc_convertCooldownSec = 300, bc_cycleReward = 3000000, bc_cycleIntervalSec = 600, bc_cycleActivitySec = 900,
     bc_cycleMinHashrate = 1, bc_cyclePaused = False, bc_cycleBoost = 10000\<rparr>"

definition getBlkEconomyConfig :: "blk_store \<Rightarrow> blk_config \<times> blk_store" where
  "getBlkEconomyConfig s = (case bk_config s of Some c \<Rightarrow> (c, s) | None \<Rightarrow> (DEFAULT_ROW, s\<lparr>bk_config := Some DEFAULT_ROW\<rparr>))"

text \<open>A field of a patch: absent, or \<open>Number\<close> of it (\<open>None\<close> is not a number); the limit can be cleared.\<close>

datatype patch_field = Absent | Cleared | Given "number option"

record blk_patch =
  pa_polPerBlk :: patch_field
  pa_convertFeeBps :: patch_field
  pa_minConvertPol :: patch_field
  pa_dailyConvertLimitBlk :: patch_field
  pa_convertCooldownSec :: patch_field
  pa_cycleReward :: patch_field
  pa_cycleIntervalSec :: patch_field
  pa_cycleActivitySec :: patch_field
  pa_cycleMinHashrate :: patch_field
  pa_cyclePaused :: "bool option"
  pa_cycleBoost :: patch_field

datatype blk_error = NotPositive string | NotInRange string | BlkInvalid | MinConversion | RoundsToZero | CooldownActive | DailyCap
| UserNotFound | Restricted | InsufficientPolBalance | BlkServerError

text \<open>\<open>null\<close> where it is not special is the number 0.\<close>

definition putNumber :: "(number \<Rightarrow> bool) \<Rightarrow> blk_error \<Rightarrow> (number \<Rightarrow> blk_config \<Rightarrow> blk_config) \<Rightarrow> patch_field \<Rightarrow> blk_config \<Rightarrow> blk_error + blk_config" where
  "putNumber ok e f field c = (case field of Absent \<Rightarrow> Inr c
     | Cleared \<Rightarrow> if ok 0 then Inr (f 0 c) else Inl e
     | Given None \<Rightarrow> Inl e
     | Given (Some n) \<Rightarrow> if ok n then Inr (f n c) else Inl e)"

definition isWhole :: "number \<Rightarrow> bool" where
  "isWhole n \<longleftrightarrow> of_int \<lfloor>n\<rfloor> = n"

definition putLimit :: "(number \<Rightarrow> dec8) \<Rightarrow> patch_field \<Rightarrow> blk_config \<Rightarrow> blk_error + blk_config" where
  "putLimit dec8_of field c =
     (if field = Cleared then Inr (c\<lparr>bc_dailyConvertLimitBlk := None\<rparr>)
      else putNumber (\<lambda>n. 0 < n) (NotPositive ''dailyConvertLimitBlk'') (\<lambda>n c. c\<lparr>bc_dailyConvertLimitBlk := Some (dec8_of n)\<rparr>) field c)"

text \<open>The checks in the order of the code; the first that fails is the error.\<close>

definition patchSteps :: "blk_env \<Rightarrow> blk_patch \<Rightarrow> (blk_config \<Rightarrow> blk_error + blk_config) list" where
  "patchSteps env p = (let d = be_dec8_of env; pos = (\<lambda>n. 0 < n); nonneg = (\<lambda>n. 0 \<le> n) in
     [putNumber pos (NotPositive ''polPerBlk'') (\<lambda>n c. c\<lparr>bc_polPerBlk := d n\<rparr>) (pa_polPerBlk p),
      putNumber (\<lambda>n. isWhole n \<and> 0 \<le> n \<and> n \<le> 10000) (NotInRange ''convertFeeBps'') (\<lambda>n c. c\<lparr>bc_convertFeeBps := \<lfloor>n\<rfloor>\<rparr>) (pa_convertFeeBps p),
      putNumber pos (NotPositive ''minConvertPol'') (\<lambda>n c. c\<lparr>bc_minConvertPol := d n\<rparr>) (pa_minConvertPol p),
      putLimit d (pa_dailyConvertLimitBlk p),
      putNumber (\<lambda>n. isWhole n \<and> 0 \<le> n) (NotInRange ''convertCooldownSec'') (\<lambda>n c. c\<lparr>bc_convertCooldownSec := \<lfloor>n\<rfloor>\<rparr>) (pa_convertCooldownSec p),
      putNumber nonneg (NotPositive ''blkCycleReward'') (\<lambda>n c. c\<lparr>bc_cycleReward := d n\<rparr>) (pa_cycleReward p),
      putNumber (\<lambda>n. isWhole n \<and> 60 \<le> n) (NotInRange ''blkCycleIntervalSec'') (\<lambda>n c. c\<lparr>bc_cycleIntervalSec := \<lfloor>n\<rfloor>\<rparr>) (pa_cycleIntervalSec p),
      putNumber (\<lambda>n. isWhole n \<and> 60 \<le> n) (NotInRange ''blkCycleActivitySec'') (\<lambda>n c. c\<lparr>bc_cycleActivitySec := \<lfloor>n\<rfloor>\<rparr>) (pa_cycleActivitySec p),
      putNumber nonneg (NotPositive ''blkCycleMinHashrate'') (\<lambda>n c. c\<lparr>bc_cycleMinHashrate := d n\<rparr>) (pa_cycleMinHashrate p),
      (\<lambda>c. Inr (case pa_cyclePaused p of None \<Rightarrow> c | Some b \<Rightarrow> c\<lparr>bc_cyclePaused := b\<rparr>)),
      putNumber nonneg (NotPositive ''blkCycleBoost'') (\<lambda>n c. c\<lparr>bc_cycleBoost := be_dec4_of env n\<rparr>) (pa_cycleBoost p)])"

definition applyPatch :: "blk_env \<Rightarrow> blk_patch \<Rightarrow> blk_config \<Rightarrow> blk_error + blk_config" where
  "applyPatch env p c0 = foldl (\<lambda>r f. case r of Inl e \<Rightarrow> Inl e | Inr c \<Rightarrow> f c) (Inr c0) (patchSteps env p)"

definition updateBlkEconomyConfig :: "blk_env \<Rightarrow> blk_patch \<Rightarrow> (blk_error, blk_config, blk_store) program" where
  "updateBlkEconomyConfig env p s =
     (case applyPatch env p (case bk_config s of None \<Rightarrow> DEFAULT_ROW | Some c \<Rightarrow> c) of Inl e \<Rightarrow> throw e s
      | Inr c \<Rightarrow> ret c (s\<lparr>bk_config := Some c\<rparr>))"

record blk_public =
  bp_polPerBlk :: number
  bp_convertFeePercent :: number
  bp_convertFeeBps :: int
  bp_minConvertPol :: number
  bp_dailyConvertLimitBlk :: "number option"
  bp_convertCooldownSec :: int
  bp_cycleReward :: number
  bp_cycleIntervalSec :: int
  bp_cycleActivitySec :: int
  bp_cycleMinHashrate :: number
  bp_cyclePaused :: bool
  bp_cycleBoost :: number

definition serializeBlkConfigPublic :: "blk_config \<Rightarrow> blk_public" where
  "serializeBlkConfigPublic row = \<lparr>bp_polPerBlk = toNumber (bc_polPerBlk row), bp_convertFeePercent = fl (of_int (bc_convertFeeBps row) / 100),
     bp_convertFeeBps = bc_convertFeeBps row, bp_minConvertPol = toNumber (bc_minConvertPol row),
     bp_dailyConvertLimitBlk = map_option toNumber (bc_dailyConvertLimitBlk row), bp_convertCooldownSec = bc_convertCooldownSec row,
     bp_cycleReward = toNumber (bc_cycleReward row), bp_cycleIntervalSec = bc_cycleIntervalSec row, bp_cycleActivitySec = bc_cycleActivitySec row,
     bp_cycleMinHashrate = toNumber (bc_cycleMinHashrate row), bp_cyclePaused = bc_cyclePaused row, bp_cycleBoost = fl (of_int (bc_cycleBoost row) / 10 ^ 4)\<rparr>"

subsection \<open>Converting POL\<close>

definition round8 :: "number \<Rightarrow> number" where
  "round8 n = fl (of_int \<lfloor>fl (n * 10 ^ 8) + 1 / 2\<rfloor> / 10 ^ 8)"

text \<open>\<open>es_blkOut\<close> is \<open>None\<close> when the division by a rate stored as zero gives no finite number.\<close>

record blk_estimate =
  es_polGross :: number
  es_feePol :: number
  es_netPol :: number
  es_blkOut :: "number option"

definition estimatePolToBlk :: "blk_config \<Rightarrow> number option \<Rightarrow> blk_estimate option" where
  "estimatePolToBlk config polGross =
     (case polGross of None \<Rightarrow> None | Some pol \<Rightarrow>
        if \<not> 0 < pol then None
        else let feePol = round8 (fl (fl (pol * of_int (bc_convertFeeBps config)) / 10000)); netPol = round8 (fl (pol - feePol)); polPerBlk = toNumber (bc_polPerBlk config)
             in Some \<lparr>es_polGross = pol, es_feePol = feePol, es_netPol = netPol, es_blkOut = (if polPerBlk = 0 then None else Some (round8 (fl (netPol / polPerBlk))))\<rparr>)"

text \<open>The last conversion and what was converted since UTC midnight; \<open>cap + 1e-12\<close> allows for rounding.\<close>

definition assertConvertRules :: "int \<Rightarrow> blk_config \<Rightarrow> blk_estimate \<Rightarrow> millis \<Rightarrow> blk_store \<Rightarrow> blk_error option" where
  "assertConvertRules userId config est now s =
     (let mine = (\<lambda>c. cv_userId c = userId); day = now - now mod MS_PER_DAY
      in if es_polGross est < toNumber (bc_minConvertPol config) then Some MinConversion
         else if (case es_blkOut est of None \<Rightarrow> False | Some blkOut \<Rightarrow> blkOut \<le> 0) then Some RoundsToZero
         else if (case find_latest cv_createdAt mine (bk_converts s) of None \<Rightarrow> False
                  | Some c \<Rightarrow> 0 < bc_convertCooldownSec config \<and> fl (of_int (now - cv_createdAt c) / 1000) < of_int (bc_convertCooldownSec config))
              then Some CooldownActive
         else case bc_dailyConvertLimitBlk config of None \<Rightarrow> None
         | Some cap \<Rightarrow>
             (let used = toNumber (sum_where (\<lambda>c. mine c \<and> day \<le> cv_createdAt c) cv_amount (bk_converts s))
              in if (case es_blkOut est of None \<Rightarrow> 0 < es_netPol est | Some blkOut \<Rightarrow> fl (toNumber cap + fl (1 / 10 ^ 12)) < fl (used + blkOut))
                 then Some DailyCap else None))"

definition onBlkDb :: "(quest_store \<Rightarrow> quest_store) \<Rightarrow> blk_store \<Rightarrow> blk_store" where
  "onBlkDb f s = s\<lparr>bk_db := f (bk_db s)\<rparr>"

text \<open>
  The transaction decides on reads that lock nothing; another conversion may commit before its writes.
  The balance is compared as a decimal, with the decimal of the amount.
\<close>

definition convertPlan :: "blk_env \<Rightarrow> int \<Rightarrow> blk_config \<Rightarrow> blk_estimate \<Rightarrow> millis \<Rightarrow> blk_store \<Rightarrow> blk_error option" where
  "convertPlan env userId config est now s =
     (case getUser userId (bk_db s) of None \<Rightarrow> Some UserNotFound
      | Some u \<Rightarrow>
          if usr_isBanned u then Some Restricted
          else case assertConvertRules userId config est now s of Some e \<Rightarrow> Some e
          | None \<Rightarrow> if usr_polBalance u < be_dec8_of env (es_polGross est) then Some InsufficientPolBalance else None)"

definition convertWrites :: "blk_env \<Rightarrow> int \<Rightarrow> blk_estimate \<Rightarrow> millis \<Rightarrow> (blk_error, blk_convert, blk_store) program" where
  "convertWrites env userId est now s =
     (let polGross = es_polGross est; d = be_dec8_of env
      in case es_blkOut est of None \<Rightarrow> throw BlkServerError s
      | Some blkOut \<Rightarrow>
          if getUser userId (bk_db s) = None then throw BlkServerError s
          else let row = \<lparr>cv_userId = userId, cv_amount = d blkOut, cv_fee = d (es_feePol est), cv_createdAt = now\<rparr>
               in ret row ((onBlkDb (\<lambda>db. logCall (BalanceDelta userId (- polGross)) (addBlk userId (d blkOut) (addPol userId (- d polGross) db))) s)
                    \<lparr>bk_converts := bk_converts s @ [row]\<rparr>))"

definition convertPolToBlk :: "blk_env \<Rightarrow> int \<Rightarrow> number option \<Rightarrow> millis \<Rightarrow> (blk_error, blk_convert, blk_store) program" where
  "convertPolToBlk env userId polAmountInput now s =
     (let (config, s1) = getBlkEconomyConfig s
      in case estimatePolToBlk config (map_option round8 polAmountInput) of None \<Rightarrow> throw BlkInvalid s1
      | Some est \<Rightarrow>
          (case convertPlan env userId config est now s1 of Some e \<Rightarrow> throw e s1
           | None \<Rightarrow> transaction (convertWrites env userId est now) s1))"

subsection \<open>Sharing the reward of a cycle\<close>

definition floorUtcEpochBucket :: "millis \<Rightarrow> int \<Rightarrow> millis" where
  "floorUtcEpochBucket t intervalSec = t div (intervalSec * 1000) * (intervalSec * 1000)"

definition nextWindowAfter :: "millis \<Rightarrow> int \<Rightarrow> millis" where
  "nextWindowAfter windowStart intervalSec = windowStart + intervalSec * 1000"

definition FLOOR_EPS :: number where "FLOOR_EPS = fl (1 / 10 ^ 12)"

text \<open>\<open>Math.floor(x * 1e8 + FLOOR_EPS)\<close>, the number of units.\<close>

definition floorUnits :: "number \<Rightarrow> int" where
  "floorUnits x = \<lfloor>fl (fl (x * 10 ^ 8) + FLOOR_EPS)\<rfloor>"

definition floor8 :: "number \<Rightarrow> number" where
  "floor8 x = (if 0 < x then fl (of_int (floorUnits x) / 10 ^ 8) else 0)"

text \<open>\<open>Number(x) || y\<close>\<close>

definition numberOr :: "number \<Rightarrow> number \<Rightarrow> number" where
  "numberOr x y = (if x = 0 then y else x)"

definition intervalOf :: "blk_config \<Rightarrow> int" where
  "intervalOf c = (if bc_cycleIntervalSec c = 0 then 600 else bc_cycleIntervalSec c)"

definition activityOf :: "blk_config \<Rightarrow> int" where
  "activityOf c = (if bc_cycleActivitySec c = 0 then 900 else bc_cycleActivitySec c)"

definition cycleRewardOf :: "blk_config \<Rightarrow> number" where
  "cycleRewardOf c = floor8 (fl (toNumber (bc_cycleReward c) * max 0 (numberOr (fl (of_int (bc_cycleBoost c) / 10 ^ 4)) 1)))"

definition activeSince :: "millis \<Rightarrow> millis option \<times> millis option \<Rightarrow> bool" where
  "activeSince cutoff x = (case x of (heartbeat, login) \<Rightarrow>
     (case heartbeat of None \<Rightarrow> False | Some t \<Rightarrow> cutoff \<le> t) \<or> (case login of None \<Rightarrow> False | Some t \<Rightarrow> cutoff \<le> t))"

definition fetchActivityEligibleUserIds :: "int \<Rightarrow> millis \<Rightarrow> blk_store \<Rightarrow> int list" where
  "fetchActivityEligibleUserIds activitySec now s =
     map usr_id (filter (\<lambda>u. \<not> usr_isBanned u \<and> usr_miningPayoutMode u = ''blk'' \<and> activeSince (now - activitySec * 1000) (bk_seen s (usr_id u)))
       (st_users (bk_db s)))"

text \<open>A hash rate that can not be computed (\<open>failed\<close>) counts as zero.\<close>

definition snapshotHashrates :: "blk_env \<Rightarrow> (int \<Rightarrow> bool) \<Rightarrow> millis \<Rightarrow> int list \<Rightarrow> blk_store \<Rightarrow> (int \<times> number) list" where
  "snapshotHashrates env failed now userIds s =
     map (\<lambda>u. (u, if failed u then 0 else syncUserBaseHashRate now (be_v2Ok env) u (bk_db s))) userIds"

record blk_share =
  bs_userId :: int
  bs_hashrate :: number
  bs_shareBps :: int
  bs_amount :: number

definition shareBpsOf :: "number \<Rightarrow> number \<Rightarrow> int" where
  "shareBpsOf hr totalHr = min 10000 (max 0 \<lfloor>fl (fl (hr / totalHr) * 10000) + 1 / 2\<rfloor>)"

definition shareOf :: "number \<Rightarrow> int \<times> number \<Rightarrow> number \<Rightarrow> blk_share list" where
  "shareOf totalHr e amount =
     (if amount \<le> 0 then [] else [\<lparr>bs_userId = fst e, bs_hashrate = snd e, bs_shareBps = shareBpsOf (snd e) totalHr, bs_amount = amount\<rparr>])"

text \<open>All but the last user get their share rounded down; the last one gets what remains.\<close>

fun planShares :: "number \<Rightarrow> number \<Rightarrow> number \<Rightarrow> (int \<times> number) list \<Rightarrow> blk_share list" where
  "planShares tot totalHr remaining [] = []"
| "planShares tot totalHr remaining (e # es) =
     (if es = [] then shareOf totalHr e (floor8 remaining)
      else let amount = floor8 (fl (tot * fl (snd e / totalHr)))
           in shareOf totalHr e amount @ planShares tot totalHr (floor8 (fl (remaining - amount))) es)"

datatype cycle_plan = Skipped string | EmptyPool number | RoundingSkip number number | Distribute number number "blk_share list"

definition cyclePlan :: "blk_env \<Rightarrow> (int \<Rightarrow> bool) \<Rightarrow> blk_config \<Rightarrow> millis \<Rightarrow> millis \<Rightarrow> blk_store \<Rightarrow> cycle_plan" where
  "cyclePlan env failed config windowStart now s =
     (let totalReward = cycleRewardOf config
      in if bc_cyclePaused config then Skipped ''paused''
         else if \<not> 0 < totalReward then Skipped ''zero_reward''
         else if find_first (\<lambda>c. by_windowStart c = windowStart) (bk_cycles s) \<noteq> None then Skipped ''already_distributed''
         else let entries = filter (\<lambda>e. max 0 (toNumber (bc_cycleMinHashrate config)) < snd e)
                    (snapshotHashrates env failed now (fetchActivityEligibleUserIds (activityOf config) now s) s);
                  totalHr = js_sum (map snd entries)
              in if totalHr \<le> 0 \<or> entries = [] then EmptyPool totalReward
                 else let planned = planShares totalReward totalHr totalReward (sort_key fst entries)
                      in if planned = [] then RoundingSkip totalReward totalHr else Distribute totalReward totalHr planned)"

definition newCycle :: "blk_env \<Rightarrow> millis \<Rightarrow> number \<Rightarrow> number \<Rightarrow> number \<Rightarrow> nat \<Rightarrow> blk_store \<Rightarrow> blk_cycle" where
  "newCycle env windowStart totalHr totalReward distributed n s = \<lparr>by_id = bk_next s, by_windowStart = windowStart,
     by_totalHashrate = be_dec8_of env totalHr, by_totalReward = be_dec8_of env totalReward,
     by_distributed = be_dec8_of env distributed, by_minerCount = n\<rparr>"

text \<open>\<open>None\<close>: the window exists already (\<open>P2002\<close>).\<close>

definition createCycle :: "blk_cycle \<Rightarrow> (blk_error option, int, blk_store) program" where
  "createCycle c s =
     (if find_first (\<lambda>r. by_windowStart r = by_windowStart c) (bk_cycles s) \<noteq> None then throw None s
      else ret (by_id c) (s\<lparr>bk_cycles := bk_cycles s @ [c], bk_next := bk_next s + 1\<rparr>))"

definition payShare :: "blk_env \<Rightarrow> int \<Rightarrow> blk_share \<Rightarrow> (blk_error option, unit, blk_store) program" where
  "payShare env cycleId p s =
     (if getUser (bs_userId p) (bk_db s) = None then throw (Some BlkServerError) s
      else ret () ((onBlkDb (addBlk (bs_userId p) (be_dec8_of env (bs_amount p))) s)
             \<lparr>bk_logs := bk_logs s @ [\<lparr>bl_id = bk_next s, bl_cycleId = cycleId, bl_userId = bs_userId p,
                bl_hashrate = be_dec8_of env (bs_hashrate p), bl_shareBps = bs_shareBps p, bl_amount = be_dec8_of env (bs_amount p)\<rparr>],
              bk_next := bk_next s + 1\<rparr>))"

definition cycleTx :: "blk_env \<Rightarrow> millis \<Rightarrow> number \<Rightarrow> number \<Rightarrow> blk_share list \<Rightarrow> (blk_error option, int, blk_store) program" where
  "cycleTx env windowStart totalReward totalHr planned s =
     and_then (createCycle (newCycle env windowStart totalHr totalReward (floor8 (js_sum (map bs_amount planned))) (length planned) s))
       (\<lambda>i. and_then (for_each (payShare env i) planned) (\<lambda>_. ret i)) s"

text \<open>Each log then advances the missions and the daily tasks; what they throw is ignored.\<close>

definition afterCycle :: "blk_env \<Rightarrow> int \<Rightarrow> millis \<Rightarrow> blk_store \<Rightarrow> blk_store" where
  "afterCycle env cycleId now s = onBlkDb (\<lambda>db. fold (\<lambda>l db.
       let amount = toNumber (bl_amount l); db1 = snd (notifyMiniPassBlkReward (be_dec8_of env) (be_zone env) (be_keeps env) (bl_userId l) (bl_id l) amount now db)
       in notifyDailyTaskBlkMined (be_dec8_of env) (be_zone env) (bl_userId l) (bl_id l) amount now db1)
     (filter (\<lambda>l. bl_cycleId l = cycleId) (bk_logs s)) db) s"

datatype cycle_outcome = CycleSkipped string | CycleEmpty int | CyclePaid int

definition cycleCommit :: "blk_env \<Rightarrow> millis \<Rightarrow> cycle_plan \<Rightarrow> millis \<Rightarrow> (blk_error, cycle_outcome, blk_store) program" where
  "cycleCommit env windowStart plan now s =
     (case plan of Skipped why \<Rightarrow> ret (CycleSkipped why) s
      | EmptyPool tot \<Rightarrow>
          (case createCycle (newCycle env windowStart 0 tot 0 0 s) s of (Inl e, t) \<Rightarrow> ret (CycleSkipped ''duplicate_window'') s | (Inr i, t) \<Rightarrow> ret (CycleEmpty i) t)
      | RoundingSkip tot totalHr \<Rightarrow>
          (case createCycle (newCycle env windowStart totalHr tot 0 0 s) s of (Inl e, t) \<Rightarrow> ret (CycleSkipped ''duplicate_window'') s | (Inr i, t) \<Rightarrow> ret (CycleEmpty i) t)
      | Distribute tot totalHr planned \<Rightarrow>
          (case transaction (cycleTx env windowStart tot totalHr planned) s of
             (Inl None, t) \<Rightarrow> ret (CycleSkipped ''duplicate_window'') t
           | (Inl (Some e), t) \<Rightarrow> throw e t
           | (Inr i, t) \<Rightarrow> ret (CyclePaid i) (afterCycle env i now t)))"

definition runBlkRewardCycle :: "blk_env \<Rightarrow> (int \<Rightarrow> bool) \<Rightarrow> millis \<Rightarrow> (blk_error, cycle_outcome, blk_store) program" where
  "runBlkRewardCycle env failed now s =
     (let (config, s1) = getBlkEconomyConfig s; windowStart = floorUtcEpochBucket now (intervalOf config)
      in cycleCommit env windowStart (cyclePlan env failed config windowStart now s1) now s1)"

definition processBlkRewardCycleTick :: "blk_env \<Rightarrow> (int \<Rightarrow> bool) \<Rightarrow> millis \<Rightarrow> blk_store \<Rightarrow> cycle_outcome cron_outcome \<times> blk_store" where
  "processBlkRewardCycleTick env failed now = runStages (\<lambda>s. (Some (), s))
     (\<lambda>_ s. case getBlkEconomyConfig s of (c, t) \<Rightarrow> (Some (if bc_cyclePaused c then Some ''paused'' else None), t))
     (\<lambda>p s. (Some p, s))
     (\<lambda>_ s. case runBlkRewardCycle env failed now s of (Inl e, t) \<Rightarrow> (None, t) | (Inr r, t) \<Rightarrow> (Some r, t))
     (\<lambda>_ s. (Some None, s))"

text \<open>The snapshot multiplies by the stored boost: a decimal object is never falsy.\<close>

record cycle_snapshot =
  sp_intervalSec :: int
  sp_rewardPerCycle :: number
  sp_paused :: bool
  sp_activityWindowSec :: int
  sp_minHashrate :: number
  sp_boost :: number
  sp_last :: "blk_cycle option"
  sp_currentWindowStart :: millis
  sp_nextWindowStart :: millis

definition getBlkCyclePublicSnapshot :: "millis \<Rightarrow> blk_store \<Rightarrow> cycle_snapshot \<times> blk_store" where
  "getBlkCyclePublicSnapshot now s =
     (let (config, s1) = getBlkEconomyConfig s; current = floorUtcEpochBucket now (intervalOf config)
      in (\<lparr>sp_intervalSec = intervalOf config,
           sp_rewardPerCycle = floor8 (fl (toNumber (bc_cycleReward config) * fl (of_int (bc_cycleBoost config) / 10 ^ 4))),
           sp_paused = bc_cyclePaused config, sp_activityWindowSec = activityOf config, sp_minHashrate = toNumber (bc_cycleMinHashrate config),
           sp_boost = numberOr (fl (of_int (bc_cycleBoost config) / 10 ^ 4)) 1, sp_last = find_latest by_windowStart (\<lambda>_. True) (bk_cycles s),
           sp_currentWindowStart = current, sp_nextWindowStart = nextWindowAfter current (intervalOf config)\<rparr>, s1))"

end
