(* ===== verification/BlkProofs.thy ===== *)
theory BlkProofs
  imports BlkEconomy MiningProofs QuestSteps
begin

section \<open>Proofs about the BLK economy\<close>

text \<open>
  A share is a whole number of 1e-8 units.  The first part bounds the rounding of \<open>floor8\<close>; the second
  follows the loop that plans the shares; the third has the tables of cycles and logs as a machine.
\<close>

subsection \<open>Rounding down to units\<close>

lemma ulp53_small: "0 \<le> ulp53" "ulp53 \<le> 1 / 10 ^ 15" "ulp53 * 1000 \<le> 1"
  by (simp_all add: ulp53_def)

lemma ulp53_scaled: "0 \<le> x \<Longrightarrow> x \<le> b \<Longrightarrow> x * ulp53 \<le> b * (1 / 10 ^ 15)"
  using ulp53_small by (intro mult_mono) auto

lemmas fl_bounds = fl_lower fl_upper

lemma fl_bounds_units:
  assumes "0 \<le> x"
  shows "x * 10 ^ 8 * (1 - ulp53) \<le> fl x * 10 ^ 8" and "fl x * 10 ^ 8 \<le> x * 10 ^ 8 * (1 + ulp53)"
proof -
  have "x * (1 - ulp53) * 10 ^ 8 \<le> fl x * 10 ^ 8" "fl x * 10 ^ 8 \<le> x * (1 + ulp53) * 10 ^ 8"
    by (intro mult_right_mono fl_bounds assms; simp)+
  then show "x * 10 ^ 8 * (1 - ulp53) \<le> fl x * 10 ^ 8" and "fl x * 10 ^ 8 \<le> x * 10 ^ 8 * (1 + ulp53)" by (simp_all only: mult_ac)
qed

lemma floor8_toNumber: "floor8 x = (if 0 < x then toNumber (floorUnits x) else 0)"
  by (simp add: floor8_def toNumber_def)

lemma toNumber_bounds:
  assumes "0 \<le> k"
  shows "of_int k * (1 - ulp53) \<le> toNumber k * 10 ^ 8" and "toNumber k * 10 ^ 8 \<le> of_int k * (1 + ulp53)"
  using fl_bounds_units [of "of_int k / 10 ^ 8"] assms by (simp_all add: toNumber_def)

lemma toNumber_nonneg: "0 \<le> k \<Longrightarrow> 0 \<le> toNumber k"
  by (simp add: toNumber_def fl_nonneg)

lemma eps: "0 \<le> FLOOR_EPS" "FLOOR_EPS \<le> 2 / 10 ^ 12"
proof -
  show "0 \<le> FLOOR_EPS" by (simp add: FLOOR_EPS_def fl_nonneg)
  have "FLOOR_EPS \<le> 1 / 10 ^ 12 * (1 + ulp53)" unfolding FLOOR_EPS_def by (rule fl_bounds) simp
  also have "\<dots> \<le> 1 / 10 ^ 12 * 2" using ulp53_small by (intro mult_left_mono) auto
  finally show "FLOOR_EPS \<le> 2 / 10 ^ 12" by simp
qed

text \<open>Upwards the error is relative, up to the constant added before the floor.\<close>

lemma floorUnits_upper:
  assumes "0 \<le> x"
  shows "of_int (floorUnits x) \<le> x * 10 ^ 8 * (1 + 3 * ulp53) + 3 / 10 ^ 12"
proof -
  let ?e = ulp53 and ?y = "fl (x * 10 ^ 8)"
  have x: "0 \<le> x * 10 ^ 8" using assms by simp
  have y: "0 \<le> ?y" "?y \<le> x * 10 ^ 8 * (1 + ?e)" using fl_nonneg [OF x] fl_bounds [OF x] by simp_all
  have "of_int (floorUnits x) \<le> fl (?y + FLOOR_EPS)" unfolding floorUnits_def by (rule of_int_floor_le)
  also have "\<dots> \<le> (?y + FLOOR_EPS) * (1 + ?e)" using y(1) eps(1) by (intro fl_bounds) simp
  also have "\<dots> \<le> (x * 10 ^ 8 * (1 + ?e) + 2 / 10 ^ 12) * (1 + ?e)" using y(2) eps(2) ulp53_small by (intro mult_right_mono add_mono) auto
  also have "\<dots> = x * 10 ^ 8 * ((1 + ?e) * (1 + ?e)) + 2 / 10 ^ 12 * (1 + ?e)" by (simp only: distrib_right mult.assoc)
  also have "\<dots> \<le> x * 10 ^ 8 * (1 + 3 * ?e) + 3 / 10 ^ 12" using x by (intro add_mono mult_left_mono) (auto simp: ulp53_def)
  finally show ?thesis .
qed

lemma floorUnits_lower:
  assumes "0 \<le> x"
  shows "x * 10 ^ 8 * (1 - 2 * ulp53) - 1 < of_int (floorUnits x)"
proof -
  let ?e = ulp53 and ?y = "fl (x * 10 ^ 8)"
  have x: "0 \<le> x * 10 ^ 8" using assms by simp
  have y: "0 \<le> ?y" "x * 10 ^ 8 * (1 - ?e) \<le> ?y" using fl_nonneg [OF x] fl_bounds [OF x] by simp_all
  have "x * 10 ^ 8 * (1 - 2 * ?e) \<le> x * 10 ^ 8 * ((1 - ?e) * (1 - ?e))" using x by (intro mult_left_mono) (auto simp: ulp53_def)
  also have "\<dots> = x * 10 ^ 8 * (1 - ?e) * (1 - ?e)" by (simp only: mult.assoc)
  also have "\<dots> \<le> ?y * (1 - ?e)" using y ulp53_small by (intro mult_right_mono) auto
  also have "\<dots> \<le> (?y + FLOOR_EPS) * (1 - ?e)" using eps(1) ulp53_small by (intro mult_right_mono) auto
  also have "\<dots> \<le> fl (?y + FLOOR_EPS)" using y(1) eps(1) by (intro fl_bounds) simp
  finally show ?thesis using floor_correct [of "fl (?y + FLOOR_EPS)"] unfolding floorUnits_def by linarith
qed

lemma floorUnits_nonneg: "0 \<le> x \<Longrightarrow> 0 \<le> floorUnits x"
  unfolding floorUnits_def using eps(1) by (simp add: fl_nonneg)

text \<open>What remains after paying \<open>k\<close> of \<open>r\<close> units is \<open>r - k\<close> or one unit less.\<close>

lemma remaining_units:
  assumes "0 \<le> k" and "k < r" and "r \<le> 10 ^ 10"
  shows "0 < fl (toNumber r - toNumber k)" and "floorUnits (fl (toNumber r - toNumber k)) \<in> {r - k - 1, r - k}"
proof -
  let ?x = "toNumber r - toNumber k" and ?e = ulp53
  have q: "(1 :: rat) \<le> of_int r - of_int k" "0 \<le> (of_int k :: rat)" "of_int r \<le> (10 ^ 10 :: rat)"
    using assms of_int_le_iff [of 1 "r - k", where 'a = rat] of_int_le_iff [of r "10 ^ 10", where 'a = rat] by simp_all
  have c: "of_int r * (1 - ?e) \<le> toNumber r * 10 ^ 8" "toNumber r * 10 ^ 8 \<le> of_int r * (1 + ?e)"
    "of_int k * (1 - ?e) \<le> toNumber k * 10 ^ 8" "toNumber k * 10 ^ 8 \<le> of_int k * (1 + ?e)" using toNumber_bounds assms by simp_all
  have re: "of_int r * ?e \<le> 10 ^ 10 * (1 / 10 ^ 15)" "of_int k * ?e \<le> 10 ^ 10 * (1 / 10 ^ 15)"
    using q by (intro ulp53_scaled; simp)+
  have d: "?x * 10 ^ 8 = toNumber r * 10 ^ 8 - toNumber k * 10 ^ 8" by (rule left_diff_distrib)
  have x: "of_int r - of_int k - 2 / 10 ^ 5 \<le> ?x * 10 ^ 8" "?x * 10 ^ 8 \<le> of_int r - of_int k + 2 / 10 ^ 5"
    using c re unfolding d by (simp_all add: right_diff_distrib distrib_left)
  have p: "0 < ?x" using x(1) q(1) by (simp add: field_simps)
  show y0: "0 < fl ?x" using p by (simp add: fl_def fl_pos_pos)
  let ?y = "fl ?x"
  have y: "?x * 10 ^ 8 * (1 - ?e) \<le> ?y * 10 ^ 8" "?y * 10 ^ 8 \<le> ?x * 10 ^ 8 * (1 + ?e)"
    using p by (intro fl_bounds_units; simp)+
  have "?x * 10 ^ 8 \<le> 2 * 10 ^ 10" "0 \<le> ?x * 10 ^ 8" using x(2) q p by simp_all
  then have "?x * 10 ^ 8 * ?e \<le> 2 * 10 ^ 10 * (1 / 10 ^ 15)" by (rule ulp53_scaled [rotated])
  with y x have y': "of_int r - of_int k - 5 / 10 ^ 5 \<le> ?y * 10 ^ 8" "?y * 10 ^ 8 \<le> of_int r - of_int k + 5 / 10 ^ 5"
    by (simp_all add: right_diff_distrib distrib_left)
  have "?y * 10 ^ 8 \<le> 2 * 10 ^ 10" "0 \<le> ?y * 10 ^ 8" using y'(2) q y0 by simp_all
  then have ye: "?y * 10 ^ 8 * ?e \<le> 2 * 10 ^ 10 * (1 / 10 ^ 15)" by (rule ulp53_scaled [rotated])
  have "of_int (floorUnits ?y) \<le> ?y * 10 ^ 8 * (1 + 3 * ?e) + 3 / 10 ^ 12" "?y * 10 ^ 8 * (1 - 2 * ?e) - 1 < of_int (floorUnits ?y)"
    using floorUnits_upper floorUnits_lower y0 by simp_all
  with y' ye have "of_int (floorUnits ?y) < (of_int (r - k + 1) :: rat)" "of_int (r - k - 2) < (of_int (floorUnits ?y) :: rat)"
    by (simp_all add: right_diff_distrib distrib_left)
  then show "floorUnits ?y \<in> {r - k - 1, r - k}" by (simp only: of_int_less_iff) auto
qed

lemma nothing_remains: "k \<ge> r \<Longrightarrow> fl (toNumber r - toNumber k) \<le> 0"
proof -
  assume "r \<le> k"
  then have "toNumber r \<le> toNumber k" unfolding toNumber_def by (intro fl_mono divide_right_mono) auto
  then have "fl (toNumber r - toNumber k) \<le> fl 0" by (intro fl_mono) simp
  then show ?thesis by simp
qed

subsection \<open>The loop that plans the shares\<close>

definition units :: "number \<Rightarrow> int" where
  "units x = (if 0 < x then floorUnits x else 0)"

lemma floor8_units: "floor8 x = toNumber (units x)"
  by (simp add: floor8_toNumber units_def)

lemma units_nonneg: "0 \<le> units x"
  by (simp add: units_def floorUnits_nonneg)

lemma units_rest:
  assumes "0 \<le> k" and "r \<le> 10 ^ 10"
  shows "r - k - 1 \<le> units (fl (toNumber r - toNumber k))" and "units (fl (toNumber r - toNumber k)) \<le> max 0 (r - k)"
  using remaining_units [of k r] nothing_remains [of r k] assms by (cases "k < r"; auto simp: units_def)+

lemma units_exact: "r \<le> 10 ^ 10 \<Longrightarrow> r - 1 \<le> units (toNumber r)" "r \<le> 10 ^ 10 \<Longrightarrow> units (toNumber r) \<le> max 0 r"
  using units_rest [of 0 r] by (simp_all add: toNumber_def)

text \<open>The same loop on units, with the shares that come to nothing.\<close>

definition headUnits :: "number \<Rightarrow> number \<Rightarrow> int \<times> number \<Rightarrow> int" where
  "headUnits tot H e = units (fl (tot * fl (snd e / H)))"

fun shareUnits :: "number \<Rightarrow> number \<Rightarrow> int \<Rightarrow> (int \<times> number) list \<Rightarrow> int list" where
  "shareUnits tot H r [] = []"
| "shareUnits tot H r (e # es) =
     (if es = [] then [units (toNumber r)]
      else headUnits tot H e # shareUnits tot H (units (fl (toNumber r - toNumber (headUnits tot H e)))) es)"

lemma planShares_amounts:
  "map bs_amount (planShares tot H (toNumber r) es) = map toNumber (filter ((<) 0) (shareUnits tot H r es))"
proof (induction es arbitrary: r)
  case (Cons e es)
  have s: "map bs_amount (shareOf H e (toNumber k)) = map toNumber (filter ((<) 0) [k])" for k
    using toNumber_pos_iff [of k] by (simp add: shareOf_def linorder_not_less [symmetric])
  show ?case
  proof (cases "es = []")
    case False
    with Cons s [of "headUnits tot H e"] show ?thesis
      by (simp only: planShares.simps shareUnits.simps Let_def floor8_units headUnits_def [symmetric] if_False map_append filter.simps) simp
  qed (use s in \<open>simp add: floor8_units del: filter.simps\<close>)
qed simp

lemma headUnits_nonneg: "0 \<le> headUnits tot H e"
  by (simp add: headUnits_def units_nonneg)

lemma shareUnits_nonneg: "k \<in> set (shareUnits tot H r es) \<Longrightarrow> 0 \<le> k"
  by (induction es arbitrary: r) (auto simp: headUnits_nonneg units_nonneg split: if_splits)

lemma sum_heads_nonneg: "0 \<le> (\<Sum>e\<leftarrow>es. headUnits tot H e)"
  by (induction es) (simp_all add: headUnits_nonneg)

lemma sum_shares:
  assumes "r \<le> 10 ^ 10"
  shows "sum_list (shareUnits tot H r es) \<le> max (max 0 r) (\<Sum>e\<leftarrow>butlast es. headUnits tot H e)
    \<and> (es \<noteq> [] \<longrightarrow> r - int (length es) \<le> sum_list (shareUnits tot H r es))"
  using assms
proof (induction es arbitrary: r)
  case (Cons e es)
  let ?k = "headUnits tot H e"
  let ?r = "units (fl (toNumber r - toNumber ?k))"
  have k: "0 \<le> ?k" by (rule headUnits_nonneg)
  have r: "r - ?k - 1 \<le> ?r" "?r \<le> max 0 (r - ?k)" using units_rest [OF k] Cons.prems by blast+
  have u: "r - 1 \<le> units (toNumber r)" "units (toNumber r) \<le> max 0 r" using units_exact Cons.prems by blast+
  from r(2) k have "?r \<le> 10 ^ 10" using Cons.prems by simp
  from Cons.IH [OF this] r k u sum_heads_nonneg [of tot H "butlast es"] show ?case
    by (cases "es = []") (auto simp: max_def split: if_splits)
qed simp

text \<open>The shares of all but the last user together stay below the reward.\<close>

lemma headUnits_upper:
  assumes "0 \<le> T" and "0 \<le> snd e" and "0 < H"
  shows "of_int (headUnits (toNumber T) H e) \<le> of_int T * (snd e / H) * (1 + 8 * ulp53) + 3 / 10 ^ 12"
proof -
  let ?u = ulp53 and ?q = "snd e / H"
  let ?x = "fl (toNumber T * fl ?q)"
  have q: "0 \<le> ?q" and b: "0 \<le> of_int T * ?q" using assms by simp_all
  have t: "0 \<le> toNumber T" "toNumber T * 10 ^ 8 \<le> of_int T * (1 + ?u)" using assms(1) toNumber_nonneg toNumber_bounds by simp_all
  have f: "0 \<le> fl ?q" "fl ?q \<le> ?q * (1 + ?u)" using fl_nonneg [OF q] fl_upper [OF q] by blast+
  have x: "0 \<le> ?x" by (rule fl_nonneg [OF mult_nonneg_nonneg [OF t(1) f(1)]])
  have "?x * 10 ^ 8 \<le> toNumber T * fl ?q * 10 ^ 8 * (1 + ?u)" using t(1) f(1) by (intro fl_bounds_units mult_nonneg_nonneg)
  also have "\<dots> = toNumber T * 10 ^ 8 * fl ?q * (1 + ?u)" by (simp only: mult_ac)
  also have "\<dots> \<le> of_int T * (1 + ?u) * (?q * (1 + ?u)) * (1 + ?u)"
    using ulp53_small assms(1) by (intro mult_right_mono [OF mult_mono [OF t(2) f(2) _ f(1)]]) auto
  also have "\<dots> = of_int T * ?q * ((1 + ?u) * (1 + ?u) * (1 + ?u))" by (simp only: mult_ac)
  finally have "?x * 10 ^ 8 * (1 + 3 * ?u) \<le> of_int T * ?q * ((1 + ?u) * (1 + ?u) * (1 + ?u)) * (1 + 3 * ?u)"
    using ulp53_small by (intro mult_right_mono) auto
  also have "\<dots> = of_int T * ?q * ((1 + ?u) * (1 + ?u) * (1 + ?u) * (1 + 3 * ?u))" by (simp only: mult.assoc)
  also have "\<dots> \<le> of_int T * ?q * (1 + 8 * ?u)" using b by (intro mult_left_mono) (simp_all add: ulp53_def)
  finally have "?x * 10 ^ 8 * (1 + 3 * ?u) + 3 / 10 ^ 12 \<le> of_int T * ?q * (1 + 8 * ?u) + 3 / 10 ^ 12" by simp
  moreover have "of_int (headUnits (toNumber T) H e) \<le> ?x * 10 ^ 8 * (1 + 3 * ?u) + 3 / 10 ^ 12"
    using floorUnits_upper [OF x] x ulp53_small by (simp add: headUnits_def units_def)
  ultimately show ?thesis by simp
qed

lemma sum_heads_upper:
  assumes "0 \<le> T" and "0 < H" and "\<forall>e \<in> set es. 0 \<le> snd e"
  shows "of_int (\<Sum>e\<leftarrow>es. headUnits (toNumber T) H e) \<le> of_int T * (sum_list (map snd es) / H) * (1 + 8 * ulp53) + of_nat (length es) * (3 / 10 ^ 12)"
  using assms(3)
proof (induction es)
  case (Cons e es)
  let ?k = "headUnits (toNumber T) H e" and ?S = "\<Sum>e\<leftarrow>es. headUnits (toNumber T) H e"
  have "of_int (?k + ?S) \<le> of_int T * (snd e / H) * (1 + 8 * ulp53) + 3 / 10 ^ 12
      + (of_int T * (sum_list (map snd es) / H) * (1 + 8 * ulp53) + of_nat (length es) * (3 / 10 ^ 12))"
    using Cons headUnits_upper [OF assms(1) _ assms(2), of e] by (simp only: of_int_add) (intro add_mono; simp)
  also have "\<dots> = of_int T * (sum_list (map snd (e # es)) / H) * (1 + 8 * ulp53) + of_nat (length (e # es)) * (3 / 10 ^ 12)"
    by (simp add: add_divide_distrib distrib_left distrib_right)
  finally show ?case by simp
qed simp

lemma js_sum_lower:
  assumes "\<forall>x \<in> set xs. 0 \<le> x" and "length xs \<le> 10 ^ 4"
  shows "sum_list xs \<le> js_sum xs * (1 + 2 / 10 ^ 11)"
proof -
  let ?s = "sum_list xs" and ?p = "(1 - ulp53) ^ length xs"
  have s: "0 \<le> ?s" using assms(1) by (intro sum_list_nonneg) auto
  have "1 + of_nat (length xs) * (- ulp53) \<le> (1 + (- ulp53)) ^ length xs" by (rule Bernoulli_inequality) (simp add: ulp53_def)
  moreover have "of_nat (length xs) * ulp53 \<le> 10 ^ 4 * (1 / 10 ^ 15)"
  proof (intro mult_mono)
    have "of_nat (length xs) \<le> (of_nat (10 ^ 4) :: rat)" using assms(2) by (simp only: of_nat_le_iff)
    then show "of_nat (length xs) \<le> (10 ^ 4 :: rat)" by simp
  qed (use ulp53_small in auto)
  ultimately have p: "1 - 1 / 10 ^ 11 \<le> ?p" by simp
  have "?s \<le> ?s * ((1 - 1 / 10 ^ 11) * (1 + 2 / 10 ^ 11))" using s by (intro mult_left_le_one_le [THEN order_trans] order_refl | simp)+
  also have "\<dots> \<le> ?s * (?p * (1 + 2 / 10 ^ 11))" using s p by (intro mult_left_mono mult_right_mono) auto
  also have "\<dots> = ?s * ?p * (1 + 2 / 10 ^ 11)" by (simp only: mult.assoc)
  also have "\<dots> \<le> js_sum xs * (1 + 2 / 10 ^ 11)" using js_sum_bounds(1) [OF assms(1)] by (intro mult_right_mono) auto
  finally show ?thesis .
qed

lemma heads_below_reward:
  assumes "0 \<le> T" and "T \<le> 10 ^ 10" and "\<forall>e \<in> set es. 0 \<le> snd e" and "sum_list (map snd es) \<le> H * (1 + 2 / 10 ^ 11)" and "0 < H"
    and "length es \<le> 10 ^ 4"
  shows "(\<Sum>e\<leftarrow>es. headUnits (toNumber T) H e) \<le> T"
proof -
  let ?S = "\<Sum>e\<leftarrow>es. headUnits (toNumber T) H e"
  obtain q where q_eq: "sum_list (map snd es) / H = q" by simp
  have T: "0 \<le> (of_int T :: rat)" "(of_int T :: rat) \<le> 10 ^ 10"
    using assms(1,2) of_int_le_iff [of T "10 ^ 10", where 'a = rat] by simp_all
  have q: "0 \<le> q" "q \<le> 1 + 2 / 10 ^ 11" unfolding q_eq [symmetric] using assms(3-5) by (auto simp: divide_le_eq mult.commute intro!: divide_nonneg_pos sum_list_nonneg)
  have n: "of_nat (length es) \<le> (10 ^ 4 :: rat)" using assms(6) of_nat_le_iff [of "length es" "10 ^ 4", where 'a = rat] by simp
  have "q * (1 + 8 * ulp53) \<le> (1 + 2 / 10 ^ 11) * (1 + 8 / 10 ^ 15)" using q ulp53_small by (intro mult_mono) auto
  also have "\<dots> \<le> 1 + 3 / 10 ^ 11" by simp
  finally have "of_int T * (q * (1 + 8 * ulp53)) \<le> of_int T * (1 + 3 / 10 ^ 11)" using T(1) by (rule mult_left_mono)
  then have "of_int T * q * (1 + 8 * ulp53) \<le> of_int T + 3 / 10" using T(2) by (simp add: mult.assoc distrib_left)
  moreover have "of_int ?S \<le> of_int T * q * (1 + 8 * ulp53) + of_nat (length es) * (3 / 10 ^ 12)"
    using sum_heads_upper [OF assms(1) assms(5) assms(3)] unfolding q_eq .
  ultimately have "of_int ?S < (of_int (T + 1) :: rat)" using n by simp
  then show ?thesis by (simp only: of_int_less_iff)
qed

context decimal_codec
begin

text \<open>Up to 100 coins, a number made from a decimal is stored as that decimal.\<close>

lemma codec_toNumber:
  assumes "0 \<le> k" and "k \<le> 10 ^ 10"
  shows "dec8_of (toNumber k) = k"
proof (rule codec_exact)
  have k: "0 \<le> (of_int k :: rat)" "(of_int k :: rat) \<le> 10 ^ 10"
    using assms of_int_le_iff [of k "10 ^ 10", where 'a = rat] by simp_all
  then have "of_int k * ulp53 \<le> 10 ^ 10 * (1 / 10 ^ 15)" by (rule ulp53_scaled)
  with toNumber_bounds [OF assms(1)] have "\<bar>toNumber k * 10 ^ 8 - of_int k\<bar> \<le> 1 / 10 ^ 5"
    unfolding distrib_left right_diff_distrib by (intro abs_leI) simp_all
  moreover have "\<bar>toNumber k\<bar> / 10 ^ 8 \<le> 1 / 10"
  proof -
    have "toNumber k * 10 ^ 8 \<le> 10 ^ 11" using calculation k(2) by (simp only: abs_le_iff) simp
    then show ?thesis using toNumber_nonneg [OF assms(1)] by simp
  qed
  ultimately show "\<bar>toNumber k * 10 ^ 8 - of_int k\<bar> + \<bar>toNumber k\<bar> / 10 ^ 8 < 1 / 2" by simp
qed

end

subsection \<open>The plan of a cycle\<close>

lemma toNumber_le_100: "toNumber k \<le> 100 \<Longrightarrow> k \<le> 10 ^ 10"
proof (rule ccontr)
  assume "toNumber k \<le> 100" "\<not> k \<le> 10 ^ 10"
  then have "toNumber (10 ^ 10 + 1) \<le> 100" using toNumber_mono [of "10 ^ 10 + 1" k] by simp
  moreover have "toNumber (10 ^ 10) < toNumber (10 ^ 10 + 1)" by (rule toNumber_less) simp_all
  moreover have "toNumber (10 ^ 10) = 100" using fl_of_int [of 100] by (simp add: toNumber_def)
  ultimately show False by simp
qed

definition cycleEntries :: "blk_env \<Rightarrow> (int \<Rightarrow> bool) \<Rightarrow> blk_config \<Rightarrow> millis \<Rightarrow> blk_store \<Rightarrow> (int \<times> number) list" where
  "cycleEntries env failed config now s = filter (\<lambda>e. max 0 (toNumber (bc_cycleMinHashrate config)) < snd e)
     (snapshotHashrates env failed now (fetchActivityEligibleUserIds (activityOf config) now s) s)"

lemma cycleEntries:
  "\<forall>e \<in> set (cycleEntries env failed config now s). 0 < snd e"
  "length (cycleEntries env failed config now s) \<le> length (fetchActivityEligibleUserIds (activityOf config) now s)"
  using length_filter_le [of _ "snapshotHashrates env failed now (fetchActivityEligibleUserIds (activityOf config) now s) s"]
  by (auto simp: cycleEntries_def snapshotHashrates_def)

lemma cyclePlan_entries:
  "cyclePlan env failed config w now s =
     (let tot = cycleRewardOf config; es = cycleEntries env failed config now s; H = js_sum (map snd es)
      in if bc_cyclePaused config then Skipped ''paused''
         else if \<not> 0 < tot then Skipped ''zero_reward''
         else if find_first (\<lambda>c. by_windowStart c = w) (bk_cycles s) \<noteq> None then Skipped ''already_distributed''
         else if H \<le> 0 \<or> es = [] then EmptyPool tot
         else if planShares tot H tot (sort_key fst es) = [] then RoundingSkip tot H
         else Distribute tot H (planShares tot H tot (sort_key fst es)))"
  by (simp only: cyclePlan_def cycleEntries_def Let_def)

lemma distribute_branch:
  "(if a then Skipped x else if \<not> b then Skipped y else if c \<noteq> None then Skipped z else if d \<or> e then EmptyPool r
    else if p = [] then RoundingSkip r h else Distribute r h p) = Distribute tot H planned
   \<Longrightarrow> tot = r \<and> b \<and> c = None \<and> \<not> d \<and> \<not> e \<and> H = h \<and> planned = p \<and> p \<noteq> []"
  by (simp split: if_splits)

lemma cyclePlan_Distribute:
  assumes "cyclePlan env failed config w now s = Distribute tot H planned"
  defines "es \<equiv> cycleEntries env failed config now s"
  shows "tot = cycleRewardOf config" and "0 < tot" and "0 < H" and "H = js_sum (map snd es)" and "es \<noteq> []"
    and "planned = planShares tot H tot (sort_key fst es)" and "planned \<noteq> []"
    and "find_first (\<lambda>c. by_windowStart c = w) (bk_cycles s) = None"
proof -
  note d = distribute_branch [OF assms(1) [unfolded cyclePlan_entries Let_def], folded es_def]
  then have r: "tot = cycleRewardOf config" and h: "H = js_sum (map snd es)" by blast+
  show "tot = cycleRewardOf config" "H = js_sum (map snd es)" by (fact r h)+
  show "0 < tot" "0 < H" "es \<noteq> []" "planned = planShares tot H tot (sort_key fst es)" "find_first (\<lambda>c. by_windowStart c = w) (bk_cycles s) = None"
    using d unfolding r h linorder_not_le by blast+
  show "planned \<noteq> []" using d by metis
qed

lemma shareUnits_of_plan:
  assumes "\<forall>e \<in> set es. 0 < snd e" and "length es \<le> 10 ^ 4" and "es \<noteq> []" and "0 \<le> T" and "T \<le> 10 ^ 10"
  defines "ks \<equiv> shareUnits (toNumber T) (js_sum (map snd es)) T (sort_key fst es)"
  assumes "0 < js_sum (map snd es)"
  shows "sum_list ks \<le> T" and "T - int (length es) \<le> sum_list ks"
proof -
  let ?H = "js_sum (map snd es)" and ?fs = "sort_key fst es"
  have pos: "0 \<le> snd e" if "e \<in> set ?fs" for e using that assms(1) by fastforce
  have fs: "length ?fs = length es" "?fs \<noteq> []" using assms(3) length_sort [of fst es] by (simp, metis length_0_conv)
  have fsum: "sum_list (map snd ?fs) = sum_list (map snd es)" by (metis mset_map mset_sort sum_mset_sum_list)
  have "sum_list (map snd (butlast ?fs)) \<le> sum_list (map snd ?fs)"
  proof -
    have "sum_list (map snd ?fs) = sum_list (map snd (butlast ?fs)) + snd (last ?fs)"
      using arg_cong [OF append_butlast_last_id [OF fs(2)], of "\<lambda>xs. sum_list (map snd xs)"] by simp
    then show ?thesis using pos [OF last_in_set [OF fs(2)]] by linarith
  qed
  also have "\<dots> \<le> ?H * (1 + 2 / 10 ^ 11)" unfolding fsum using assms(1,2) by (intro js_sum_lower) fastforce+
  finally have "(\<Sum>e\<leftarrow>butlast ?fs. headUnits (toNumber T) ?H e) \<le> T"
    using assms pos fs(1) by (intro heads_below_reward) (auto dest: in_set_butlastD)
  then show "sum_list ks \<le> T" "T - int (length es) \<le> sum_list ks"
    using sum_shares [OF assms(5), of "toNumber T" ?H ?fs] fs assms(4) unfolding ks_def by auto
qed

text \<open>A plan in units: what is stored of its shares.\<close>

lemma plan_units:
  assumes "decimal_codec (be_dec8_of env)" and "cyclePlan env failed config w now s = Distribute tot H planned" and "tot \<le> 100"
    and "length (fetchActivityEligibleUserIds (activityOf config) now s) \<le> 10 ^ 4"
  defines "ks \<equiv> map (\<lambda>p. be_dec8_of env (bs_amount p)) planned" and "n \<equiv> length (fetchActivityEligibleUserIds (activityOf config) now s)"
  shows "\<forall>k \<in> set ks. 0 < k" and "sum_list ks \<le> be_dec8_of env tot" and "be_dec8_of env tot - int n \<le> sum_list ks"
proof -
  define es where "es = cycleEntries env failed config now s"
  define T where "T = units (fl (toNumber (bc_cycleReward config) * max 0 (numberOr (fl (of_int (bc_cycleBoost config) / 10 ^ 4)) 1)))"
  note d = cyclePlan_Distribute [OF assms(2), folded es_def]
  have tot: "tot = toNumber T" unfolding d(1) cycleRewardOf_def floor8_units T_def ..
  have T: "0 \<le> T" "T \<le> 10 ^ 10" using assms(3) toNumber_le_100 unfolding tot by (simp_all add: T_def units_nonneg)
  define ms where "ms = shareUnits (toNumber T) (js_sum (map snd es)) T (sort_key fst es)"
  have n: "length es \<le> n" and es: "\<forall>e \<in> set es. 0 < snd e" using cycleEntries [of env failed config now s] by (simp_all add: es_def n_def)
  have b: "sum_list ms \<le> T" "T - int (length es) \<le> sum_list ms"
    using shareUnits_of_plan [OF es _ d(5) T] n assms(4) d(3) unfolding ms_def d(4) n_def by simp_all
  have nn: "\<forall>k \<in> set ms. 0 \<le> k" unfolding ms_def using shareUnits_nonneg by blast
  have le: "k \<le> T" if "k \<in> set ms" for k
    using member_le_sum_list [of k ms] that nn b(1) by (metis order_trans)
  have "map bs_amount planned = map toNumber (filter ((<) 0) ms)"
    unfolding d(6) tot d(4) ms_def by (rule planShares_amounts)
  then have "ks = map (be_dec8_of env \<circ> toNumber) (filter ((<) 0) ms)"
    unfolding ks_def by (metis (no_types) comp_apply list.map_comp map_eq_conv)
  also have "\<dots> = filter ((<) 0) ms"
  proof (intro map_idI)
    fix k assume "k \<in> set (filter ((<) 0) ms)"
    then have "0 \<le> k" "k \<le> 10 ^ 10" using le [of k] T(2) by simp_all
    then show "(be_dec8_of env \<circ> toNumber) k = k" using decimal_codec.codec_toNumber [OF assms(1)] by simp
  qed
  finally have ks: "ks = filter ((<) 0) ms" .
  have "sum_list (filter ((<) 0) ms) = sum_list ms" using nn by (induction ms) auto
  moreover have "be_dec8_of env tot = T" using decimal_codec.codec_toNumber [OF assms(1) T] by (simp add: tot)
  ultimately show "\<forall>k \<in> set ks. 0 < k" "sum_list ks \<le> be_dec8_of env tot" "be_dec8_of env tot - int n \<le> sum_list ks"
    using b n by (simp_all add: ks)
qed

end
