(* ===== verification/BlkSteps.thy ===== *)
theory BlkSteps
  imports BlkProofs
begin

section \<open>The books of the BLK economy\<close>

text \<open>
  What each request does to the tables of cycles, logs and conversions and to the BLK balances, and the
  machine of all requests.  A distribution may commit a plan made on any earlier state.
\<close>

subsection \<open>The hooks leave the accounts alone\<close>

lemma applyXp_users: "st_users (snd (applyMiniPassXp row now s)) = st_users s"
  by (simp add: applyMiniPassXp_def Let_def ret_def throw_def logAudit_def split: option.splits)

lemma bumpMission_users: "st_users (snd (bumpMissionProgress u se m d k now s)) = st_users s"
proof -
  obtain x t where b: "bumpMissionProgress u se m d k now s = (x, t)" by force
  have u: "st_users (upsertMissionProgress u (ms_id m) k d s) = st_users s" by (simp add: upsertMissionProgress_def split: option.splits)
  show ?thesis using applyXp_users u by (simp add: bumpMissionProgress_def Let_def ret_def split: option.splits)
qed

lemma missionBody_users: "st_users (snd (missionBody zone u d key now se m s)) = st_users s"
  by (auto simp: missionBody_def missionDedupe_def consumeTick_def Let_def ret_def bumpMission_users split: prod.splits)

lemma stable_users_bump: "stable (\<lambda>s. st_users s = U) (bumpMissions zone keeps u mt matches d key now)"
proof (rule stableI)
  fix s :: quest_store assume s: "st_users s = U"
  have m: "stable (\<lambda>s. st_users s = U) (missionTx zone keeps u d key now se m)" for se m
    unfolding missionTx_body
    by (intro stable_and_then stable_caught stable_ret) (metis missionBody_users snd_conv)
  have "stable (\<lambda>s. st_users s = U) (for_each (\<lambda>season. if \<not> isMiniPassSeasonLive season now then ret ()
                else for_each (missionTx zone keeps u d key now (se_id season)) (filter matches (se_missions season))) seasons)" for seasons
    by (intro stable_for_each) (simp add: stable_for_each m)
  with s show "st_users (snd (bumpMissions zone keeps u mt matches d key now s)) = U"
    unfolding bumpMissions_def by (blast dest: stableD)
qed

lemma hooks_users:
  "st_users (snd (notifyMiniPassBlkReward dec8_of zone keeps u l amt now s)) = st_users s"
  "st_users (notifyDailyTaskBlkMined dec8_of zone u l amt now s) = st_users s"
  using stableD [OF stable_users_bump [of "st_users s"], of s]
  by (auto simp: notifyMiniPassBlkReward_def notifyDailyTaskBlkMined_def ret_def bump_money)

lemma blkOf_same_users: "st_users t = st_users s \<Longrightarrow> blkOf v t = blkOf v s"
  by (simp add: blkOf_def getUser_def)

lemma onBlkDb_db: "bk_db (onBlkDb f s) = f (bk_db s)"
  by (simp add: onBlkDb_def)

lemma afterCycle_frame:
  "bk_cycles (afterCycle env i now s) = bk_cycles s" "bk_logs (afterCycle env i now s) = bk_logs s"
  "bk_converts (afterCycle env i now s) = bk_converts s" "bk_next (afterCycle env i now s) = bk_next s"
  "blkOf v (bk_db (afterCycle env i now s)) = blkOf v (bk_db s)"
proof -
  have fold_users: "st_users (fold h ls db) = st_users db" if "\<And>l db. st_users (h l db) = st_users db" for h :: "blk_log \<Rightarrow> quest_store \<Rightarrow> quest_store" and ls db
    using that by (induction ls arbitrary: db) auto
  have "st_users (bk_db (afterCycle env i now s)) = st_users (bk_db s)"
    unfolding afterCycle_def onBlkDb_db by (rule fold_users) (simp only: Let_def hooks_users)
  then show "blkOf v (bk_db (afterCycle env i now s)) = blkOf v (bk_db s)" by (rule blkOf_same_users)
qed (simp_all add: afterCycle_def onBlkDb_def)

subsection \<open>Effects\<close>

definition paidTo :: "int \<Rightarrow> blk_log list \<Rightarrow> int" where
  "paidTo v ls = sum_where (\<lambda>l. bl_userId l = v) bl_amount ls"

definition blkGrows :: "(int \<Rightarrow> int) \<Rightarrow> blk_store \<Rightarrow> blk_store \<Rightarrow> bool" where
  "blkGrows g s t \<longleftrightarrow> (\<forall>v. blkOf v (bk_db t) = map_option (\<lambda>b. b + g v) (blkOf v (bk_db s)))"

inductive blk_effect :: "blk_store \<Rightarrow> blk_store \<Rightarrow> bool" where
  Quiet: "bk_cycles t = bk_cycles s \<Longrightarrow> bk_logs t = bk_logs s \<Longrightarrow> bk_converts t = bk_converts s \<Longrightarrow> bk_next t = bk_next s
    \<Longrightarrow> blkGrows (\<lambda>_. 0) s t \<Longrightarrow> blk_effect s t"
| Converted: "bk_cycles t = bk_cycles s \<Longrightarrow> bk_logs t = bk_logs s \<Longrightarrow> bk_converts t = bk_converts s @ [c] \<Longrightarrow> bk_next t = bk_next s
    \<Longrightarrow> blkGrows (\<lambda>v. if v = cv_userId c then cv_amount c else 0) s t \<Longrightarrow> blk_effect s t"
| Cycled: "bk_cycles t = bk_cycles s @ [c] \<Longrightarrow> bk_logs t = bk_logs s @ ls \<Longrightarrow> bk_converts t = bk_converts s
    \<Longrightarrow> bk_next s < bk_next t \<Longrightarrow> by_id c = bk_next s \<Longrightarrow> by_windowStart c \<notin> by_windowStart ` set (bk_cycles s)
    \<Longrightarrow> \<forall>l \<in> set ls. bl_cycleId l = by_id c \<and> 0 < bl_amount l \<Longrightarrow> sum_list (map bl_amount ls) \<le> by_totalReward c
    \<Longrightarrow> blkGrows (\<lambda>v. paidTo v ls) s t \<Longrightarrow> blk_effect s t"

lemma find_window: "find_first (\<lambda>c. by_windowStart c = w) cs = None \<longleftrightarrow> w \<notin> by_windowStart ` set cs"
  by (auto simp: find_first_None_iff)

lemma payShare_InrD:
  "payShare env i p s = (Inr (), t) \<Longrightarrow> t = (onBlkDb (addBlk (bs_userId p) (be_dec8_of env (bs_amount p))) s)
     \<lparr>bk_logs := bk_logs s @ [\<lparr>bl_id = bk_next s, bl_cycleId = i, bl_userId = bs_userId p, bl_hashrate = be_dec8_of env (bs_hashrate p),
        bl_shareBps = bs_shareBps p, bl_amount = be_dec8_of env (bs_amount p)\<rparr>], bk_next := bk_next s + 1\<rparr>"
  unfolding payShare_def ret_def throw_def by (cases "getUser (bs_userId p) (bk_db s) = None") (simp_all only: if_True if_False prod.inject sum.inject simp_thms, blast)

lemma payAll:
  assumes "for_each (payShare env i) ps s = (Inr (), t)"
  shows "\<exists>ls. bk_logs t = bk_logs s @ ls \<and> map bl_amount ls = map (\<lambda>p. be_dec8_of env (bs_amount p)) ps \<and> (\<forall>l \<in> set ls. bl_cycleId l = i)
    \<and> bk_cycles t = bk_cycles s \<and> bk_converts t = bk_converts s \<and> bk_next s \<le> bk_next t \<and> blkGrows (\<lambda>v. paidTo v ls) s t"
  using assms
proof (induction ps arbitrary: s)
  case Nil
  then show ?case by (simp add: ret_def blkGrows_def paidTo_def option.map_ident)
next
  case (Cons p ps)
  let ?l = "\<lparr>bl_id = bk_next s, bl_cycleId = i, bl_userId = bs_userId p, bl_hashrate = be_dec8_of env (bs_hashrate p),
    bl_shareBps = bs_shareBps p, bl_amount = be_dec8_of env (bs_amount p)\<rparr>"
  obtain s1 where s1: "payShare env i p s = (Inr (), s1)" and r: "for_each (payShare env i) ps s1 = (Inr (), t)"
    using Cons.prems by (auto simp: and_then_Inr_iff)
  note e = payShare_InrD [OF s1]
  have f: "bk_logs s1 = bk_logs s @ [?l]" "bk_cycles s1 = bk_cycles s" "bk_converts s1 = bk_converts s" "bk_next s1 = bk_next s + 1"
    unfolding e by (simp_all add: onBlkDb_def)
  have g: "blkOf v (bk_db s1) = map_option (\<lambda>b. b + paidTo v [?l]) (blkOf v (bk_db s))" for v
    unfolding e by (cases "blkOf v (bk_db s)") (simp_all add: onBlkDb_def paidTo_def)
  from Cons.IH [OF r] obtain ls where ls: "bk_logs t = bk_logs s1 @ ls" "map bl_amount ls = map (\<lambda>p. be_dec8_of env (bs_amount p)) ps"
    "\<forall>l \<in> set ls. bl_cycleId l = i" "bk_cycles t = bk_cycles s1" "bk_converts t = bk_converts s1" "bk_next s1 \<le> bk_next t" "blkGrows (\<lambda>v. paidTo v ls) s1 t"
    by blast
  have "blkGrows (\<lambda>v. paidTo v (?l # ls)) s t"
    using ls(7) g by (simp add: blkGrows_def paidTo_def option.map_comp comp_def add.assoc)
  with f ls show ?case by (intro exI [of _ "?l # ls"]) simp
qed

lemma createCycle_Inr_iff:
  "createCycle c s = (Inr i, t) \<longleftrightarrow> by_windowStart c \<notin> by_windowStart ` set (bk_cycles s) \<and> i = by_id c
     \<and> t = s\<lparr>bk_cycles := bk_cycles s @ [c], bk_next := bk_next s + 1\<rparr>"
  by (auto simp: createCycle_def find_window throw_def ret_def)

lemma cycleTx_effect:
  assumes "cycleTx env w tot H planned s = (Inr i, t)"
    and "\<forall>p \<in> set planned. 0 < be_dec8_of env (bs_amount p)" and "(\<Sum>p\<leftarrow>planned. be_dec8_of env (bs_amount p)) \<le> be_dec8_of env tot"
  shows "blk_effect s (afterCycle env i now t)"
proof -
  let ?c = "newCycle env w H tot (floor8 (js_sum (map bs_amount planned))) (length planned) s"
  obtain j s1 where c: "createCycle ?c s = (Inr j, s1)" and q: "and_then (for_each (payShare env j) planned) (\<lambda>_. ret j) s1 = (Inr i, t)"
    using and_then_InrD [OF assms(1) [unfolded cycleTx_def]] by blast
  have j: "j = by_id ?c" using c unfolding createCycle_Inr_iff by blast
  from and_then_InrD [OF q] have p: "for_each (payShare env (by_id ?c)) planned s1 = (Inr (), t)" unfolding j by (auto simp: ret_def)
  have s1: "s1 = s\<lparr>bk_cycles := bk_cycles s @ [?c], bk_next := bk_next s + 1\<rparr>" "by_windowStart ?c \<notin> by_windowStart ` set (bk_cycles s)"
    using c unfolding createCycle_Inr_iff by blast+
  from payAll [OF p] obtain ls where ls: "bk_logs t = bk_logs s1 @ ls" "map bl_amount ls = map (\<lambda>p. be_dec8_of env (bs_amount p)) planned"
    "\<forall>l \<in> set ls. bl_cycleId l = by_id ?c" "bk_cycles t = bk_cycles s1" "bk_converts t = bk_converts s1" "bk_next s1 \<le> bk_next t"
    "blkGrows (\<lambda>v. paidTo v ls) s1 t" by blast
  have pos: "0 < bl_amount l" if "l \<in> set ls" for l
    using that assms(2) ls(2) by (metis (no_types, lifting) image_iff list.set_map)
  show ?thesis
  proof (rule Cycled [of _ _ ?c ls])
    show "sum_list (map bl_amount ls) \<le> by_totalReward ?c" using assms(3) unfolding ls(2) by (simp add: newCycle_def)
    show "blkGrows (\<lambda>v. paidTo v ls) s (afterCycle env i now t)" using ls(7) by (simp add: blkGrows_def s1 afterCycle_frame)
    show "\<forall>l \<in> set ls. bl_cycleId l = by_id ?c \<and> 0 < bl_amount l" using ls(3) pos by blast
    show "by_id ?c = bk_next s" by (simp add: newCycle_def)
  qed (use ls s1 in \<open>simp_all add: afterCycle_frame\<close>)
qed

lemma newCycle_effect:
  assumes "createCycle (newCycle env w H tot paid n s) s = (Inr i, t)" and "0 \<le> be_dec8_of env tot"
  shows "blk_effect s t"
proof -
  let ?c = "newCycle env w H tot paid n s"
  have t: "t = s\<lparr>bk_cycles := bk_cycles s @ [?c], bk_next := bk_next s + 1\<rparr>" and w: "by_windowStart ?c \<notin> by_windowStart ` set (bk_cycles s)"
    using assms(1) unfolding createCycle_Inr_iff by blast+
  show ?thesis
    by (rule Cycled [of _ _ ?c "[]"]) (use w assms(2) in \<open>simp_all add: t newCycle_def blkGrows_def paidTo_def option.map_ident\<close>)
qed

lemma same_effect: "blk_effect s s"
  by (rule Quiet) (simp_all add: blkGrows_def option.map_ident)

text \<open>A plan whose shares, as stored, are positive and together at most the stored reward.\<close>

definition fair_plan :: "blk_env \<Rightarrow> cycle_plan \<Rightarrow> bool" where
  "fair_plan env plan = (case plan of Skipped why \<Rightarrow> True | EmptyPool tot \<Rightarrow> 0 \<le> be_dec8_of env tot | RoundingSkip tot H \<Rightarrow> 0 \<le> be_dec8_of env tot
     | Distribute tot H planned \<Rightarrow> (\<forall>p \<in> set planned. 0 < be_dec8_of env (bs_amount p)) \<and> (\<Sum>p\<leftarrow>planned. be_dec8_of env (bs_amount p)) \<le> be_dec8_of env tot)"

lemma emptyCommit_effect:
  assumes "0 \<le> be_dec8_of env tot"
  shows "blk_effect s (snd (case createCycle (newCycle env w H tot 0 0 s) s of
     (Inl e, t) \<Rightarrow> ret (CycleSkipped ''duplicate_window'') s | (Inr i, t) \<Rightarrow> ret (CycleEmpty i) t))"
  using newCycle_effect [OF _ assms, of w H 0 0 s] same_effect [of s] by (auto simp: ret_def split: prod.splits sum.splits)

lemma cycleCommit_effect:
  assumes "fair_plan env plan"
  shows "blk_effect s (snd (cycleCommit env w plan now s))"
proof (cases plan)
  case (Distribute tot H planned)
  obtain x t where c: "cycleTx env w tot H planned s = (x, t)" by force
  show ?thesis
  proof (cases x)
    case (Inl e)
    then show ?thesis using same_effect [of s] by (cases e) (simp_all add: Distribute cycleCommit_def transaction_def c ret_def throw_def)
  next
    case (Inr i)
    then have "blk_effect s (afterCycle env i now t)"
      using cycleTx_effect c assms by (simp add: fair_plan_def Distribute)
    then show ?thesis by (simp add: Distribute cycleCommit_def transaction_def c Inr ret_def)
  qed
qed (use assms same_effect emptyCommit_effect in \<open>simp_all add: cycleCommit_def fair_plan_def ret_def\<close>)

lemma sum_map_eq: "(\<Sum>p\<leftarrow>ps. f p) = sum_list (map f ps)"
  ..

text \<open>Small cycles: at most 100 BLK and 10000 active users.\<close>

definition small_cycle :: "blk_config \<Rightarrow> millis \<Rightarrow> blk_store \<Rightarrow> bool" where
  "small_cycle config now s \<longleftrightarrow> cycleRewardOf config \<le> 100 \<and> length (fetchActivityEligibleUserIds (activityOf config) now s) \<le> 10 ^ 4"

lemma cyclePlan_total:
  "cyclePlan env failed config w now s = EmptyPool tot \<or> cyclePlan env failed config w now s = RoundingSkip tot H \<Longrightarrow> 0 < tot"
  unfolding cyclePlan_entries Let_def by (elim disjE; simp split: if_splits)

lemma plan_fair:
  assumes "decimal_codec (be_dec8_of env)" and "small_cycle config now s"
  shows "fair_plan env (cyclePlan env failed config w now s)"
proof (cases "cyclePlan env failed config w now s")
  case (Distribute tot H planned)
  with assms(2) have "tot \<le> 100" using cyclePlan_Distribute(1) [OF Distribute] by (simp add: small_cycle_def)
  from plan_units [OF assms(1) Distribute this] assms(2) show ?thesis by (simp add: fair_plan_def Distribute small_cycle_def)
next
  case (EmptyPool tot)
  with decimal_codec.codec_nonneg [OF assms(1)] show ?thesis using cyclePlan_total [OF disjI1 [OF EmptyPool]] by (simp add: fair_plan_def)
next
  case (RoundingSkip tot H)
  with decimal_codec.codec_nonneg [OF assms(1)] show ?thesis using cyclePlan_total [OF disjI2 [OF RoundingSkip]] by (simp add: fair_plan_def)
qed (simp add: fair_plan_def)

lemma config_effect: "blk_effect s (s\<lparr>bk_config := c\<rparr>)"
  by (rule Quiet) (simp_all add: blkGrows_def option.map_ident)

lemma blk_effect_config: "blk_effect (s\<lparr>bk_config := c\<rparr>) t \<Longrightarrow> blk_effect s t"
proof (induction "s\<lparr>bk_config := c\<rparr>" t rule: blk_effect.induct)
  case (Quiet t)
  then show ?case by (intro blk_effect.Quiet) (simp_all add: blkGrows_def)
next
  case (Converted t r)
  then show ?case by (intro blk_effect.Converted [of _ _ r]) (simp_all add: blkGrows_def)
next
  case (Cycled t r ls)
  then show ?case by (intro blk_effect.Cycled [of _ _ r ls]) (simp_all add: blkGrows_def)
qed

lemma getConfig_state: "\<exists>c. snd (getBlkEconomyConfig s) = s\<lparr>bk_config := c\<rparr>"
  by (auto simp: getBlkEconomyConfig_def intro: exI [of _ "bk_config s"] split: option.splits)

lemma write_branch:
  "(case g of None \<Rightarrow> throw a s | Some y \<Rightarrow> if b then throw c s else ret (row y) (u y)) = (Inr r, t) \<Longrightarrow> \<exists>y. g = Some y \<and> r = row y \<and> t = u y"
  by (auto simp: throw_def ret_def split: option.splits if_splits)

lemma convertWrites_effect:
  assumes "convertWrites env u est now s = (Inr r, t)"
  shows "blk_effect s t"
proof -
  note c = write_branch [OF assms [unfolded convertWrites_def Let_def]]
  have t: "t = (onBlkDb (\<lambda>db. logCall (BalanceDelta u (- es_polGross est)) (addBlk u (cv_amount r) (addPol u (- be_dec8_of env (es_polGross est)) db))) s)
      \<lparr>bk_converts := bk_converts s @ [r]\<rparr>" and r: "cv_userId r = u"
    using c by auto
  have l: "blkOf v (logCall x db) = blkOf v db" for v x and db :: quest_store by (rule blkOf_same_users) (simp add: logCall_def)
  have "blkOf v (bk_db t) = map_option (\<lambda>b. b + (if v = cv_userId r then cv_amount r else 0)) (blkOf v (bk_db s))" for v
    unfolding t by (cases "blkOf v (bk_db s)") (simp_all add: onBlkDb_def l r)
  then have "blkGrows (\<lambda>v. if v = cv_userId r then cv_amount r else 0) s t" unfolding blkGrows_def by blast
  then show ?thesis by (rule Converted [rotated 4]) (simp_all add: t onBlkDb_def)
qed

lemma convertTx_effect: "blk_effect s (snd (transaction (convertWrites env u est now) s))"
  using convertWrites_effect [of env u est now s] same_effect [of s] by (auto simp: transaction_def split: prod.splits sum.splits)

lemma convert_effect: "blk_effect s (snd (convertPolToBlk env u amt now s))"
proof -
  obtain config s1 where g: "getBlkEconomyConfig s = (config, s1)" by force
  obtain c where s1: "s1 = s\<lparr>bk_config := c\<rparr>" using getConfig_state [of s] g by auto
  have "blk_effect s1 (snd (convertPolToBlk env u amt now s))"
    using same_effect [of s1] convertTx_effect [of s1] by (simp add: convertPolToBlk_def g throw_def split: option.splits)
  then show ?thesis unfolding s1 by (rule blk_effect_config)
qed

subsection \<open>The economy as a machine\<close>

text \<open>
  A cycle commits a plan made on an earlier state \<open>s0\<close>; a conversion that passed its checks may write
  after others did; the other components change the shared tables and the times users were seen, but no
  BLK balance.
\<close>

inductive blk_step :: "blk_store \<Rightarrow> blk_store \<Rightarrow> bool" where
  Configure: "blk_step s (snd (updateBlkEconomyConfig env p s))"
| Convert: "blk_step s (snd (convertPolToBlk env u amt now s))"
| LateConversion: "blk_step s (snd (transaction (convertWrites env u est now) s))"
| Cycle: "decimal_codec (be_dec8_of env) \<Longrightarrow> small_cycle config now s0
    \<Longrightarrow> blk_step s (snd (cycleCommit env w (cyclePlan env failed config w now s0) later s))"
| Snapshot: "blk_step s (snd (getBlkCyclePublicSnapshot now s))"
| Elsewhere: "(\<And>v. blkOf v db = blkOf v (bk_db s)) \<Longrightarrow> blk_step s (s\<lparr>bk_db := db, bk_seen := seen\<rparr>)"

lemma blk_step_effect: "blk_step s t \<Longrightarrow> blk_effect s t"
proof (induction rule: blk_step.induct)
  case (Configure s env p)
  then show ?case using config_effect same_effect by (simp add: updateBlkEconomyConfig_def throw_def ret_def split: sum.splits)
next
  case (Snapshot s now)
  obtain c where "snd (getBlkEconomyConfig s) = s\<lparr>bk_config := c\<rparr>" using getConfig_state by blast
  then show ?case using config_effect [of s c]
    by (cases "getBlkEconomyConfig s") (simp add: getBlkCyclePublicSnapshot_def Let_def)
next
  case (Elsewhere db s seen)
  then show ?case by (intro Quiet) (simp_all add: blkGrows_def option.map_ident)
qed (simp_all add: convert_effect convertTx_effect cycleCommit_effect plan_fair)

definition blk_init :: "(int \<Rightarrow> dec8 option) \<Rightarrow> blk_store \<Rightarrow> bool" where
  "blk_init b0 s \<longleftrightarrow> bk_cycles s = [] \<and> bk_logs s = [] \<and> bk_converts s = [] \<and> (\<forall>v. blkOf v (bk_db s) = b0 v)"

definition bookedTo :: "int \<Rightarrow> blk_store \<Rightarrow> int" where
  "bookedTo v s = paidTo v (bk_logs s) + sum_where (\<lambda>c. cv_userId c = v) cv_amount (bk_converts s)"

definition paidIn :: "blk_cycle \<Rightarrow> blk_store \<Rightarrow> int" where
  "paidIn c s = sum_where (\<lambda>l. bl_cycleId l = by_id c) bl_amount (bk_logs s)"

definition books_ok :: "(int \<Rightarrow> dec8 option) \<Rightarrow> blk_store \<Rightarrow> bool" where
  "books_ok b0 s \<longleftrightarrow> unique_key by_windowStart (bk_cycles s) \<and> unique_key by_id (bk_cycles s)
     \<and> (\<forall>c \<in> set (bk_cycles s). by_id c < bk_next s \<and> paidIn c s \<le> by_totalReward c)
     \<and> (\<forall>l \<in> set (bk_logs s). bl_cycleId l \<in> by_id ` set (bk_cycles s) \<and> 0 < bl_amount l)
     \<and> (\<forall>v. blkOf v (bk_db s) = map_option (\<lambda>b. b + bookedTo v s) (b0 v))"

lemma books_ok_effect:
  assumes "blk_effect s t" and "books_ok b0 s"
  shows "books_ok b0 t"
  using assms(1)
proof cases
  case Quiet
  with assms(2) show ?thesis by (simp add: books_ok_def paidIn_def bookedTo_def blkGrows_def option.map_comp comp_def)
next
  case (Converted c)
  have "blkOf v (bk_db t) = map_option (\<lambda>b. b + bookedTo v t) (b0 v)" for v
    using Converted assms(2) by (auto simp: books_ok_def bookedTo_def blkGrows_def option.map_comp comp_def add.assoc intro!: option.map_cong)
  with Converted assms(2) show ?thesis by (simp add: books_ok_def paidIn_def)
next
  case (Cycled c ls)
  have ok: "\<forall>c \<in> set (bk_cycles s). by_id c < bk_next s \<and> paidIn c s \<le> by_totalReward c" "\<forall>l \<in> set (bk_logs s). bl_cycleId l \<in> by_id ` set (bk_cycles s) \<and> 0 < bl_amount l"
    using assms(2) by (simp_all add: books_ok_def)
  have "blkOf v (bk_db t) = map_option (\<lambda>b. b + bookedTo v t) (b0 v)" for v
    using Cycled assms(2) by (auto simp: books_ok_def bookedTo_def paidTo_def blkGrows_def option.map_comp comp_def algebra_simps intro!: option.map_cong)
  moreover have "paidIn c t = sum_list (map bl_amount ls)"
  proof -
    have "sum_where (\<lambda>l. bl_cycleId l = by_id c) bl_amount (bk_logs s) = 0" using ok Cycled(5) by (intro sum_where_none) force
    moreover have "filter (\<lambda>l. bl_cycleId l = by_id c) ls = ls" using Cycled(7) by (intro filter_True) blast
    ultimately show ?thesis by (simp add: paidIn_def Cycled(2)) (simp add: sum_where_def)
  qed
  moreover have "paidIn d t = paidIn d s" if "d \<in> set (bk_cycles s)" for d
    using that ok(1) Cycled(5,7) by (simp add: paidIn_def Cycled(2)) (intro sum_where_none, force)
  ultimately show ?thesis using assms(2) Cycled ok by (force simp: books_ok_def)
qed

interpretation blk: machine "blk_init b0" blk_step "books_ok b0" for b0
proof unfold_locales
  show "blk_init b0 s \<Longrightarrow> books_ok b0 s" for s
    by (simp add: blk_init_def books_ok_def bookedTo_def paidTo_def option.map_ident)
  show "books_ok b0 s \<Longrightarrow> blk_step s t \<Longrightarrow> books_ok b0 t" for s t
    using blk_step_effect books_ok_effect by blast
qed

end
