(* ===== verification/BlkClaims.thy ===== *)
theory BlkClaims
  imports BlkSteps
begin

section \<open>Properties of the BLK economy\<close>

text \<open>Three users who mine BLK with hash rates 1, 1 and 2 and share 1 BLK.\<close>

definition blk_user :: "int \<Rightarrow> user" where
  "blk_user i = \<lparr>usr_id = i, usr_name = ''u'', usr_username = None, usr_isBanned = False, usr_polBalance = 100 * 10 ^ 8, usr_blkBalance = 0,
     usr_blkLocked = 0, usr_walletAddress = None, usr_miningPayoutMode = ''blk'', usr_refCode = None, usr_referredBy = None\<rparr>"

definition blk_miner :: "int \<Rightarrow> number \<Rightarrow> user_miner" where
  "blk_miner i hr = \<lparr>um_id = i, um_userId = i, um_minerId = None, um_slotIndex = 0, um_level = 1, um_hashRate = hr, um_slotSize = 1,
     um_imageUrl = None, um_isActive = True, um_ownedMachineId = None\<rparr>"

definition one_blk :: blk_config where
  "one_blk = DEFAULT_ROW\<lparr>bc_cycleReward := 10 ^ 8\<rparr>"

definition blk_demo :: blk_store where
  "blk_demo = \<lparr>bk_db = \<lparr>st_users = map blk_user [1, 2, 3], st_games = [], st_gamePowers = [], st_ytPowers = [], st_gpuPowers = [],
     st_v2Powers = [], st_miners = [], st_eventMiners = [], st_owned = [], st_inventory = [],
     st_userMiners = [blk_miner 1 1, blk_miner 2 1, blk_miner 3 2], st_audit = [],
     st_calls = [], st_next = 100, qs_defs = [], qs_progress = [], qs_ticks = [], mp_seasons = [], mp_enrollments = [],
     mp_ledger = [], mp_progress = [], mp_ticks = [], mp_claims = [], mp_purchases = []\<rparr>,
   bk_config = Some one_blk, bk_cycles = [], bk_logs = [], bk_converts = [], bk_seen = (\<lambda>_. (Some 1000000, None)), bk_next = 1\<rparr>"

definition blk_env0 :: blk_env where
  "blk_env0 = \<lparr>be_dec8_of = round8_away, be_dec4_of = (\<lambda>x. \<lfloor>x * 10 ^ 4 + 1 / 2\<rfloor>), be_zone = (\<lambda>_. 0), be_v2Ok = True, be_keeps = False\<rparr>"

definition demo_plan :: cycle_plan where
  "demo_plan = cyclePlan blk_env0 (\<lambda>_. False) one_blk 600000 1000000 blk_demo"

definition demo_planned :: "blk_share list" where
  "demo_planned = planShares 1 4 1 [(1, 1), (2, 1), (3, 2)]"

lemma small_doubles: "fl 1 = 1" "fl 2 = 2"
  using fl_of_int [of 1] fl_of_int [of 2] by simp_all

lemma floor_eps_code [code]: "FLOOR_EPS = 4951760157141521 / 4951760157141521099596496896"
  by code_simp

lemma demo_eligible: "fetchActivityEligibleUserIds (activityOf one_blk) 1000000 blk_demo = [1, 2, 3]"
  by (simp add: fetchActivityEligibleUserIds_def activityOf_def one_blk_def DEFAULT_ROW_def blk_demo_def blk_user_def activeSince_def)

lemma demo_entries: "cycleEntries blk_env0 (\<lambda>_. False) one_blk 1000000 blk_demo = [(1, 1), (2, 1), (3, 2)]"
proof -
  have "toNumber (bc_cycleMinHashrate one_blk) < 1"
    using toNumber_less [of 1 "10 ^ 8"] small_doubles by (simp add: one_blk_def DEFAULT_ROW_def toNumber_def)
  moreover have "syncUserBaseHashRate 1000000 True 1 (bk_db blk_demo) = 1" "syncUserBaseHashRate 1000000 True 2 (bk_db blk_demo) = 1"
    "syncUserBaseHashRate 1000000 True 3 (bk_db blk_demo) = 2"
    by (simp_all add: syncUserBaseHashRate_def machineHashRate_def gameHashRate_def ytHashRate_def gpuHashRate_def js_sum_def blk_demo_def blk_miner_def small_doubles)
  ultimately show ?thesis by (simp add: cycleEntries_def snapshotHashrates_def demo_eligible blk_env0_def)
qed

lemma demo_reward: "js_sum [1, 1, 2] = 4 \<and> cycleRewardOf one_blk = 1"
  by code_simp

lemma dyadic: "fl (1 / 4) = 1 / 4 \<and> fl (3 / 4) = 3 / 4 \<and> fl (1 / 2) = 1 / 2"
  by code_simp

lemma floor_dyadic: "floor8 (1 / 4) = 1 / 4 \<and> floor8 (3 / 4) = 3 / 4 \<and> floor8 (1 / 2) = 1 / 2"
  by code_simp

lemma demo_amounts: "map (\<lambda>p. (bs_userId p, bs_amount p)) demo_planned = [(1, 1 / 4), (2, 1 / 4), (3, 1 / 2)]"
  by (simp add: demo_planned_def shareOf_def Let_def dyadic [THEN conjunct1] dyadic [THEN conjunct2, THEN conjunct1] dyadic [THEN conjunct2, THEN conjunct2]
    floor_dyadic [THEN conjunct1] floor_dyadic [THEN conjunct2, THEN conjunct1] floor_dyadic [THEN conjunct2, THEN conjunct2])

lemma demo_rounded: "round8_away (1 / 4) = 25000000 \<and> round8_away (1 / 2) = 50000000 \<and> round8_away 1 = 100000000"
  by code_simp

lemma demo_planned: "\<exists>p q r. demo_planned = [p, q, r] \<and> bs_amount p = 1 / 4 \<and> bs_amount q = 1 / 4 \<and> bs_amount r = 1 / 2
    \<and> bs_userId p = 1 \<and> bs_userId q = 2 \<and> bs_userId r = 3"
proof -
  have e: "map (\<lambda>p. (bs_userId p, bs_amount p)) demo_planned = [(1, 1 / 4), (2, 1 / 4), (3, 1 / 2)]" by (rule demo_amounts)
  then obtain p q r where ps: "demo_planned = [p, q, r]" by (auto simp: map_eq_Cons_conv)
  from e show ?thesis unfolding ps by simp
qed

lemma demo_plan: "demo_plan = Distribute 1 4 demo_planned"
proof -
  have "\<not> bc_cyclePaused one_blk" by (simp add: one_blk_def DEFAULT_ROW_def)
  moreover have "demo_planned \<noteq> []" using demo_planned by auto
  ultimately show ?thesis using demo_reward
    by (simp add: demo_plan_def cyclePlan_entries demo_entries demo_planned_def Let_def) (simp add: blk_demo_def)
qed

lemma demo_small: "small_cycle one_blk 1000000 blk_demo"
proof -
  have "cycleRewardOf one_blk = 1" using demo_reward by blast
  then show ?thesis by (simp add: small_cycle_def demo_eligible)
qed

subsection \<open>The shares of a cycle\<close>

text \<open>
  C39: each share of a cycle is computed with five roundings and cut to units of 1e-8, yet the stored
  shares of at most 10000 active users are positive, never exceed a reward of up to 100 BLK together, and
  fall short of it by less than a unit for each user.
\<close>

lemma shares_use_up_reward:
  assumes "decimal_codec (be_dec8_of env)" and "cyclePlan env failed config w now s = Distribute tot H planned" and "tot \<le> 100"
    and "length (fetchActivityEligibleUserIds (activityOf config) now s) \<le> 10 ^ 4"
  shows "(\<forall>p \<in> set planned. 0 < be_dec8_of env (bs_amount p)) \<and> (\<Sum>p\<leftarrow>planned. be_dec8_of env (bs_amount p)) \<le> be_dec8_of env tot
    \<and> be_dec8_of env tot \<le> (\<Sum>p\<leftarrow>planned. be_dec8_of env (bs_amount p)) + int (length (fetchActivityEligibleUserIds (activityOf config) now s))"
  using plan_units [OF assms] by simp

lemma shares_use_up_reward_witness:
  "\<exists>planned. demo_plan = Distribute 1 4 planned \<and> (\<Sum>p\<leftarrow>planned. round8_away (bs_amount p)) \<le> 100000000
    \<and> 100000000 \<le> (\<Sum>p\<leftarrow>planned. round8_away (bs_amount p)) + 3"
proof -
  have n: "length (fetchActivityEligibleUserIds (activityOf one_blk) 1000000 blk_demo) = 3" by (simp add: demo_eligible)
  have d: "decimal_codec (be_dec8_of blk_env0)" using pg.decimal_codec_axioms by (simp add: blk_env0_def)
  from shares_use_up_reward [OF d demo_plan [unfolded demo_plan_def]] n
  show ?thesis unfolding demo_plan by (simp add: blk_env0_def demo_rounded)
qed

subsection \<open>The books\<close>

text \<open>
  C40: however cycles, stale plans, conversions, late writes and changes of the settings interleave, no
  window is distributed twice, the logs of a cycle never exceed its reward, and the BLK balance of every
  user is what it was at first plus exactly the logged rewards and conversions.
\<close>

lemma blk_books_balance:
  assumes "reaches (blk_init b0) blk_step s"
  shows "unique_key by_windowStart (bk_cycles s) \<and> (\<forall>c \<in> set (bk_cycles s). paidIn c s \<le> by_totalReward c)
    \<and> blkOf v (bk_db s) = map_option (\<lambda>b. b + bookedTo v s) (b0 v)"
  using blk.reaches_inv [OF assms] unfolding books_ok_def by blast

definition demo_paid :: blk_store where
  "demo_paid = snd (cycleCommit blk_env0 600000 demo_plan 1000000 blk_demo)"

lemma demo_paid_eval: "length (bk_cycles demo_paid) = 1" "bookedTo 3 demo_paid = 50000000"
proof -
  obtain p q r where ps: "demo_planned = [p, q, r]" "bs_amount p = 1 / 4" "bs_amount q = 1 / 4" "bs_amount r = 1 / 2"
    "bs_userId p = 1" "bs_userId q = 2" "bs_userId r = 3" using demo_planned by blast
  have u: "getUser i db \<noteq> None" if "map usr_id (st_users db) = [1, 2, 3]" "i \<in> {1, 2, 3}" for i and db :: quest_store
    using that by (auto simp: getUser_def find_first_None_iff map_eq_Cons_conv)
  have ids: "map usr_id (st_users (addBlk i d db)) = map usr_id (st_users db)" for i d and db :: quest_store
    by (simp add: addBlk_def updUser_def map_update_where)
  have db: "map usr_id (st_users (bk_db blk_demo)) = [1, 2, 3]" "bk_cycles blk_demo = []" "bk_logs blk_demo = []" "bk_converts blk_demo = []"
    by (simp_all add: blk_demo_def blk_user_def)
  obtain i t where c: "cycleTx blk_env0 600000 1 4 demo_planned blk_demo = (Inr i, t)" "length (bk_cycles t) = 1" "bk_converts t = []"
      "paidTo 3 (bk_logs t) = 50000000"
    using db by (simp add: cycleTx_def ps and_then_def createCycle_def payShare_def ret_def u ids onBlkDb_def paidTo_def blk_env0_def demo_rounded)
  then have e: "demo_paid = afterCycle blk_env0 i 1000000 t"
    by (simp add: demo_paid_def demo_plan cycleCommit_def transaction_def ret_def)
  show "length (bk_cycles demo_paid) = 1" "bookedTo 3 demo_paid = 50000000" unfolding e bookedTo_def afterCycle_frame using c by simp_all
qed

lemma demo_paid_reached: "reaches (blk_init (\<lambda>v. blkOf v (bk_db blk_demo))) blk_step demo_paid"
proof -
  have "reaches (blk_init (\<lambda>v. blkOf v (bk_db blk_demo))) blk_step blk_demo"
    by (rule reaches.start) (simp add: blk_init_def, simp add: blk_demo_def)
  then show ?thesis unfolding demo_paid_def demo_plan_def
    by (rule reaches.move) (intro blk_step.Cycle demo_small, simp add: blk_env0_def pg.decimal_codec_axioms)
qed

lemma blk_books_balance_witness:
  "unique_key by_windowStart (bk_cycles demo_paid) \<and> bookedTo 3 demo_paid = 50000000 \<and> blkOf 3 (bk_db demo_paid) = Some 50000000"
proof -
  have "blkOf 3 (bk_db blk_demo) = Some 0" by (simp add: blk_demo_def blkOf_def getUser_def blk_user_def)
  then show ?thesis using blk_books_balance [OF demo_paid_reached, of 3] demo_paid_eval by simp
qed

subsection \<open>Conversions and boost\<close>

text \<open>
  Two conversions that pass their checks on the same state both write: cooldown and daily limit are
  passed twice and the POL balance can become negative.
\<close>

lemma overlapping_conversions_overdraw:
  assumes "convertPlan env u config est now s = None" and "es_blkOut est = Some out" and "getUser u (bk_db s) = Some y"
    and "usr_polBalance y < 2 * be_dec8_of env (es_polGross est)"
  shows "\<exists>r t r' t'. convertWrites env u est now s = (Inr r, t) \<and> convertWrites env u est now t = (Inr r', t')
    \<and> (\<exists>b. polOf u (bk_db t') = Some b \<and> b < 0) \<and> length (bk_converts t') = length (bk_converts s) + 2"
proof -
  let ?d = "be_dec8_of env" and ?row = "\<lparr>cv_userId = u, cv_amount = be_dec8_of env out, cv_fee = be_dec8_of env (es_feePol est), cv_createdAt = now\<rparr>"
  let ?f = "\<lambda>db :: quest_store. logCall (BalanceDelta u (- es_polGross est)) (addBlk u (?d out) (addPol u (- ?d (es_polGross est)) db))"
  have w: "convertWrites env u est now r = (Inr ?row, (onBlkDb ?f r)\<lparr>bk_converts := bk_converts r @ [?row]\<rparr>)" if "getUser u (bk_db r) \<noteq> None" for r
    using that assms(2) by (simp add: convertWrites_def Let_def ret_def)
  have l: "getUser u (logCall c db) = getUser u db" for c and db :: quest_store by (simp add: logCall_def getUser_def)
  have g: "getUser u (?f db) \<noteq> None" if "getUser u db \<noteq> None" for db
    using that by (auto simp: l addBlk_def addPol_def getUser_updUser)
  have p: "polOf u (?f db) = map_option (\<lambda>b. b - ?d (es_polGross est)) (polOf u db)" for db
    by (cases "polOf u db") (auto simp: polOf_def l pol_addBlk [unfolded polOf_def] pol_addPol [unfolded polOf_def])
  let ?t = "(onBlkDb ?f s)\<lparr>bk_converts := bk_converts s @ [?row]\<rparr>"
  have t: "getUser u (bk_db ?t) \<noteq> None" using g assms(3) by (simp add: onBlkDb_def)
  have "polOf u (bk_db s) = Some (usr_polBalance y)" using assms(3) by (simp add: polOf_def)
  then have "\<exists>b. polOf u (?f (?f (bk_db s))) = Some b \<and> b < 0" unfolding p using assms(4) by simp
  then show ?thesis using w [of s] w [OF t] assms(3) by (simp add: onBlkDb_def)
qed

text \<open>A boost of zero is accepted and shown as no reward, but a cycle pays the whole reward.\<close>

lemma zero_boost_pays_in_full:
  assumes "bk_config s = Some c" and "bc_cycleBoost c = 0"
  shows "cycleRewardOf c = floor8 (toNumber (bc_cycleReward c)) \<and> sp_rewardPerCycle (fst (getBlkCyclePublicSnapshot now s)) = 0"
  using assms by (simp add: cycleRewardOf_def getBlkCyclePublicSnapshot_def getBlkEconomyConfig_def Let_def numberOr_def floor8_def toNumber_def)

end
