(* ===== verification/Spec2Isabelle.thy ===== *)
theory Spec2Isabelle
  imports AutoMiningProps MiningProps MinigameProps RoomClaims QuestClaims WalletClaims CheckinClaims OfferClaims OfferwallClaims DepositClaims CoinClaims BlkClaims
begin

text \<open>
  A verification of the server of Block Miner: a browser game in which users install mining machines
  in racks, receive a share of a block reward every ten minutes, earn temporary hash rate from games
  and banners, and spend and withdraw coins.  The server is an Express application over PostgreSQL
  (through Prisma) with an in-memory mining engine; the client only displays its answers.

  \<^bold>\<open>How the code is modelled.\<close>  A table is the list of its rows in insertion order and the
  database a record of tables; components extend the shared record \<open>store\<close> (theory \<open>Store\<close>).  An
  instant is its number of milliseconds, read once per operation.  A \<open>Decimal(20, 8)\<close> column is the
  integer of its 1e-8 units, a JavaScript number the rational that 53-bit rounding \<open>fl\<close> produces
  (\<open>JsNumber\<close>; no overflow or underflow of the exponent).  How Prisma and PostgreSQL turn a number
  into a decimal is not in the repository: definitions take the conversion \<open>dec8_of\<close>, constrained by
  the locale \<open>decimal_codec\<close>, which rounding half away from zero (\<open>round8_away\<close>) satisfies.  Random ids,
  uuids and the calendar of America/Sao_Paulo are arguments too.  A handler is a function from the
  state to a result and a state; an error is \<open>Inl\<close>.  \<open>prisma.$transaction\<close> is \<open>transaction\<close> of
  \<open>Prelude\<close>: a thrown error rolls its writes back.  Transactions are atomic; where a handler decides
  on reads made outside its transaction, or on reads that lock nothing, it is split into the plan made
  from the reads and the writes, and other requests may commit in between.

  \<^bold>\<open>Shared theories.\<close>  \<open>Prelude\<close>: queries on tables, unique keys, transactions and their programs,
  the locale \<open>machine\<close> of a transition system with an invariant.  \<open>JsNumber\<close>: rounding with its
  monotonicity, exactness and error laws.  \<open>Store\<close>: users, catalogue, powers, machines, and the log of
  the calls made to the engine.  \<open>Calendar\<close>: Gregorian years, ISO weeks and the keys made of them.

  \<^bold>\<open>Auto Mining v2\<close> (\<open>server/services/autoMiningV2/\<close>): \<open>AutoMiningDomain\<close>, \<open>AutoMiningService\<close>,
  invariant and proofs in \<open>AutoMiningProofs\<close>, properties in \<open>AutoMiningProps\<close>: at most one active
  session per user, claims at least 55 seconds apart, the daily cap, one clicked banner impression behind
  every turbo grant; the optimistic lock of concurrent claims and an exact characterisation of when a
  claim succeeds are lemmas beside them.

  \<^bold>\<open>Mining engine\<close> (\<open>server/src/miningEngine.js\<close>, \<open>runtime/miningRuntime.js\<close>): \<open>MiningEngine\<close>; its
  persistence and socket handlers (\<open>models/minerProfileModel.js\<close>, \<open>serverDatabaseModel.js\<close>,
  \<open>registerMinerSocketHandlers.js\<close>) in \<open>MiningDb\<close>; proofs in \<open>MiningProofs\<close>, \<open>MiningInv\<close>, \<open>MiningBlock\<close>,
  \<open>MiningPersist\<close>; properties in \<open>MiningProps\<close>: one miner object per user, the shares of a block are
  bounded by the reward, what a block credits and marks as persisted, what a failed persistence rolls
  back, what is loaded again after a restart, and that two overlapping saves apply a delta twice.

  \<^bold>\<open>Minigame\<close> (\<open>server/services/minigameService.js\<close>): \<open>Minigame\<close>, \<open>MinigameProofs\<close>, \<open>MinigameProps\<close>:
  rewards are spaced by the cooldown, a session is rewarded once, and every refusal.

  \<^bold>\<open>Machines\<close> (\<open>userOwnedMachineService.js\<close>, \<open>roomsController.js\<close>, \<open>vaultController.js\<close>,
  \<open>machinesController.js\<close>, \<open>inventoryController.js\<close>): statements with the constraints of the schema in
  \<open>MachineStore\<close>, handlers in \<open>Rooms\<close> and \<open>Vault\<close>, the register of canonical rows in \<open>MachineReg\<close>,
  laws of the statements in \<open>MachineLaws\<close>, \<open>MachineTx\<close>, \<open>MachineMoves\<close>, \<open>MachineRacks\<close>, interleaved requests
  in \<open>MachineTasks\<close>, the invariant in \<open>MachineSound\<close>, \<open>MachineInv\<close>, \<open>MachineProps\<close>, properties in
  \<open>MachineClaims\<close> and \<open>RoomClaims\<close>: under any interleaving a canonical row has at most one child row,
  no machine is lost or duplicated and racks refer only to installed machines; what buying, installing
  and uninstalling do.

  \<^bold>\<open>Daily tasks and mini pass\<close> (\<open>server/services/dailyTasks/\<close>, \<open>server/services/miniPass/\<close>): rewards in
  \<open>Rewards\<close>, tasks in \<open>DailyTasks\<close>, experience and missions in \<open>MiniPass\<close>, claims, purchases and the
  dashboard in \<open>MiniPassShop\<close>; level arithmetic in \<open>PassMath\<close>, the ledger invariant in \<open>QuestInv\<close> and
  \<open>QuestSteps\<close>, purchases in \<open>PassBuy\<close>, the locale \<open>tick_table\<close> of the dedupe tables and at-most-once
  lemmas in \<open>QuestOnce\<close>, the progress table of the daily tasks as a \<open>machine\<close> in \<open>DailySteps\<close> (bumps,
  claims, late claims and changes elsewhere, in any order), properties in \<open>PassClaims\<close> and \<open>QuestClaims\<close>: totals are sums of ledger rows,
  levels are thresholds reached, a purchase charges what it adds, rewards are delivered once, weekly
  keys are weeks, and the next reset is the change of the day.

  \<^bold>\<open>Wallet\<close> (\<open>server/models/walletModel.js\<close>, \<open>controllers/walletController.js\<close>, the withdrawal handlers of
  \<open>controllers/adminController.js\<close>, \<open>cron/withdrawalsCron.js\<close>, \<open>services/depositVerifier.js\<close>): tables,
  queries and immediate deposits in \<open>Wallet\<close>, withdrawals, review, sending and the verifier in
  \<open>WalletFlow\<close>; the abstract accounts with their steps and the effect of each operation on them in
  \<open>WalletProofs\<close>; in \<open>WalletSteps\<close> the step relation, the locale \<open>simulation\<close> (a \<open>machine\<close> that refines a
  specification) with its interpretation \<open>wallet\<close>, and the ageing of waiting deposits; properties in
  \<open>WalletClaims\<close>: requests served one at a time refine the accounts, what three races and a respelled
  hash break, and every deposit is settled within 97 rounds.  What the node answers is an argument.

  \<^bold>\<open>Check-in\<close> (\<open>server/controllers/checkinController.js\<close>, \<open>services/checkinChain.js\<close>,
  \<open>services/checkinMilestoneService.js\<close>, \<open>utils/checkinStreak.js\<close>): days, streaks and milestones in \<open>Checkin\<close>, the
  handlers in \<open>CheckinFlow\<close>, the loop as a partial function with the proof that it ends, the tables' unique
  keys under any order of requests and late answers of the chain (interpretation \<open>checkin\<close> of \<open>machine\<close>) in
  \<open>CheckinProofs\<close>, properties in \<open>CheckinClaims\<close>: the streak is the run of days, and the hash of a free
  check-in can be taken by somebody else.  SHA-256 and the answers of the chain are arguments.

  \<^bold>\<open>Shop and offers\<close> (\<open>server/services/offerEventPurchaseService.js\<close>, \<open>services/offerEventHelpers.js\<close>,
  \<open>controllers/offerEventController.js\<close>, \<open>controllers/shopController.js\<close>, \<open>models/minersModel.js\<close>): \<open>Offers\<close>, with
  a purchase split into plan, the passes of the optimistic loop on the counter (each a read and an update
  guarded by the counter that was read, ten at most) and writes; \<open>OfferProofs\<close> interprets \<open>machine\<close> for
  sales that overlap, over states that keep all their earlier states for the stale reads, and
  \<open>OfferClaims\<close> shows that a stock is never oversold, while the limit of free claims can be exceeded.

  \<^bold>\<open>Internal offerwall\<close> (\<open>server/services/internalOfferwall/\<close>, \<open>controllers/internalOfferwallController.js\<close>,
  \<open>controllers/adminInternalOfferwallController.js\<close>): the attempts of users, their review and the reward in
  \<open>Offerwall\<close>; offers, hosts and task metadata from JSON bodies in \<open>OfferwallAdmin\<close> (numbers are read from
  text by \<open>JsParse\<close>).  \<open>OfferwallProofs\<close> classifies what each request does to the attempts, \<open>OfferwallSteps\<close>
  has the requests served whole and the effect of each; \<open>OfferwallLate\<close> the histories in which the writes of
  a request may follow reads of any earlier state, with the number of such late writes, and interprets
  \<open>machine\<close> for the states of attempts and for the daily limit; \<open>OfferwallPay\<close> interprets it for what completed attempts
  are worth, \<open>OfferwallLaws\<close> has the laws of the validation.  Properties in \<open>OfferwallClaims\<close>: well-typed
  attempts and the limit, with what each late write may exceed them by, exact payment of requests served one
  after the other, which accepted offers can be paid, the patch that is always refused,
  the allowlist of hosts as a test on labels, and three races that pay twice.

  \<^bold>\<open>Deposits found by the server\<close> (\<open>server/services/contractDepositSync.js\<close>, \<open>cron/depositsCron.js\<close>,
  \<open>controllers/depositTicketController.js\<close>, \<open>cron/cronActionRunner.js\<close>): tickets in \<open>Deposits\<close>, both scanners in
  \<open>DepositScan\<close>, the runner's stages and lock in \<open>CronRunner\<close>.  \<open>DepositProofs\<close> shows that each operation
  serves the wallet by steps of its own and interprets \<open>simulation\<close> for the whole; \<open>DepositClaims\<close> has the
  refinement, the coverage of blocks, what a poll registers, and two ways to be credited twice.

  \<^bold>\<open>Swaps and paid-to-promote\<close> (\<open>server/controllers/swapController.js\<close>, \<open>controllers/ptpController.js\<close>):
  \<open>Coins\<close>, over the wallet's store; \<open>CoinProofs\<close> bounds the rounded cost of an advertisement and interprets
  \<open>machine\<close> for its views, the earnings and every user's USDC balance; \<open>CoinClaims\<close> shows that negative orders and negative swaps create coins, which
  can be withdrawn, and that an advertisement pays its own advertiser back exactly.

  \<^bold>\<open>BLK economy\<close> (\<open>server/models/blkEconomyModel.js\<close>, \<open>models/blkWalletModel.js\<close>,
  \<open>services/blkRewardDistributionService.js\<close>, \<open>cron/blkRewardCycleCron.js\<close>): settings, conversions and the
  distribution cycle, split into plan and commit, in \<open>BlkEconomy\<close>.  \<open>BlkProofs\<close> bounds the cut to units of
  1e-8 and follows the loop of the shares, \<open>BlkSteps\<close> classifies what each request does to the books and
  interprets \<open>machine\<close> for them; \<open>BlkClaims\<close> shows that the shares use up the reward, that the books
  balance under any interleaving, and what overlapping conversions and a zero boost break.

  \<^bold>\<open>Interactions.\<close>  Services that change a balance or a hash rate tell the engine; these calls are the
  log \<open>st_calls\<close> of the store, in order.  Rewards and purchases give machines through the owned-machine
  service of \<open>MachineStore\<close>; a confirmed check-in runs the login hooks of tasks and missions; timed powers written by Auto Mining and the minigame are read by the hash
  rate of \<open>MiningDb\<close>.

  \<^bold>\<open>Bounds.\<close>  Every recursion terminates by a measure, except the loop of the check-in streak, a partial
  function proved to return; no fuel is used.  Properties that compare
  doubles state the bound below which they are exact (\<open>2 ^ 53\<close> for integers, 10 million coins for
  amounts); the shares of a cycle are bounded for
  rewards up to 100 BLK and 10000 active users.

  \<^bold>\<open>Not modelled.\<close>  The client, routes and middleware (authentication, limits, schemas of bodies),
  the administration of other components, mail, logging and metrics, timers, the node, the block explorer
  and the wallet library behind deposits and withdrawals, video streaming,
  the legacy SQLite layer, scripts and tests: input and output around the modelled logic.  Texts of
  answers and notifications are kept only where the code decides on them.
\<close>

end
